(* ===== verification/Py_Value.thy ===== *)
theory Py_Value
  imports Complex_Main
begin

text \<open>
  The fragment of Python the program relies on: the dynamically typed values that come out of
  JSON and YAML, their truth value, \<open>str\<close>, \<open>int\<close> and \<open>float\<close>, dictionary lookup, and the
  string methods the code calls. A dictionary is an association list in insertion order.

  Conventions. Strings are lists of characters and stand for ASCII text, so a character is one
  code point and one UTF-8 byte. A finite float is a real number; rounding of floating-point
  arithmetic is not modelled. Infinities and NaN are the separate constructor \<open>PNonFin\<close>.
  A raised exception is a value \<open>Inl e\<close> with \<open>e :: pyerr\<close>.
\<close>

named_theorems py_simps \<open>evaluation of the Python value primitives\<close>

datatype nonfin = PosInf | NegInf | NotANum

datatype pyval =
    PNone
  | PBool bool
  | PInt int
  | PFloat real
  | PNonFin nonfin
  | PStr string
  | PList "pyval list"
  | PDict "(string \<times> pyval) list"

type_synonym pydict = "(string \<times> pyval) list"

datatype pyerr =
    ValueError string
  | TypeError
  | OverflowError
  | RuntimeError string
  | OperationalError
  | IntegrityError
  | JobAlreadyRunningError string int
  | UnsafeRcloneArgument string
  | NonFinite nonfin
  | KeyError string
  | IndexError
  | AttributeError
  | OSError string

type_synonym 'a result = "pyerr + 'a"

subsection \<open>Sequencing of fallible steps\<close>

fun bind_result :: "'a result \<Rightarrow> ('a \<Rightarrow> 'b result) \<Rightarrow> 'b result" where
  "bind_result (Inl e) f = Inl e"
| "bind_result (Inr x) f = f x"

text \<open>Evaluation looks at the first step before it looks into the rest.\<close>

lemma bind_result_case [code_unfold]:
  "bind_result m f = (case m of Inl e \<Rightarrow> Inl e | Inr x \<Rightarrow> f x)"
  by (cases m) simp_all

lemma bind_result_Inr [simp]:
  "bind_result m f = Inr y \<longleftrightarrow> (\<exists>x. m = Inr x \<and> f x = Inr y)"
  by (cases m) auto

lemma bind_result_Inl:
  "bind_result m f = Inl e \<longleftrightarrow> m = Inl e \<or> (\<exists>x. m = Inr x \<and> f x = Inl e)"
  by (cases m) auto

subsection \<open>Truth value, lookup and tests\<close>

fun truthy :: "pyval \<Rightarrow> bool" where
  "truthy PNone = False"
| "truthy (PBool b) = b"
| "truthy (PInt i) = (i \<noteq> 0)"
| "truthy (PFloat r) = (r \<noteq> 0)"
| "truthy (PNonFin _) = True"
| "truthy (PStr s) = (s \<noteq> [])"
| "truthy (PList xs) = (xs \<noteq> [])"
| "truthy (PDict d) = (d \<noteq> [])"

definition py_or :: "pyval \<Rightarrow> pyval \<Rightarrow> pyval" where
  "py_or a b = (if truthy a then a else b)"

definition py_get :: "pydict \<Rightarrow> string \<Rightarrow> pyval" where
  "py_get d k = (case map_of d k of None \<Rightarrow> PNone | Some v \<Rightarrow> v)"

definition py_get_default :: "pydict \<Rightarrow> string \<Rightarrow> pyval \<Rightarrow> pyval" where
  "py_get_default d k dflt = (case map_of d k of None \<Rightarrow> dflt | Some v \<Rightarrow> v)"

definition has_key :: "pydict \<Rightarrow> string \<Rightarrow> bool" where
  "has_key d k \<longleftrightarrow> k \<in> set (map fst d)"

text \<open>Assignment \<open>d[k] = v\<close>: an existing key keeps its place, a new one goes to the end.\<close>

fun py_set :: "pydict \<Rightarrow> string \<Rightarrow> pyval \<Rightarrow> pydict" where
  "py_set [] k v = [(k, v)]"
| "py_set ((k', v') # d) k v = (if k' = k then (k, v) # d else (k', v') # py_set d k v)"

definition py_pop :: "pydict \<Rightarrow> string \<Rightarrow> pydict" where
  "py_pop d k = filter (\<lambda>kv. fst kv \<noteq> k) d"

text \<open>\<open>{**d, **e}\<close>.\<close>

definition py_merge :: "pydict \<Rightarrow> pydict \<Rightarrow> pydict" where
  "py_merge d e = fold (\<lambda>(k, v) acc. py_set acc k v) e d"

text \<open>The dictionary a value is read as when the code checks \<open>isinstance(v, dict)\<close> and falls
  back to an empty one.\<close>

fun as_dict :: "pyval \<Rightarrow> pydict" where
  "as_dict (PDict d) = d"
| "as_dict _ = []"

fun as_list :: "pyval \<Rightarrow> pyval list" where
  "as_list (PList xs) = xs"
| "as_list _ = []"

fun is_dict :: "pyval \<Rightarrow> bool" where
  "is_dict (PDict _) = True"
| "is_dict _ = False"

fun is_list :: "pyval \<Rightarrow> bool" where
  "is_list (PList _) = True"
| "is_list _ = False"

definition is_True :: "pyval \<Rightarrow> bool" where
  "is_True v \<longleftrightarrow> v = PBool True"

definition is_False :: "pyval \<Rightarrow> bool" where
  "is_False v \<longleftrightarrow> v = PBool False"

lemma map_of_py_set: "map_of (py_set d k v) = (map_of d)(k \<mapsto> v)"
  by (induction d k v rule: py_set.induct) auto

lemma py_get_py_set [simp]: "py_get (py_set d k v) k' = (if k' = k then v else py_get d k')"
  by (simp add: py_get_def map_of_py_set)

lemma map_of_py_pop: "map_of (py_pop d k) = (map_of d)(k := None)"
  unfolding py_pop_def by (induction d) auto

lemma py_get_py_pop [simp]: "py_get (py_pop d k) k' = (if k' = k then PNone else py_get d k')"
  by (simp add: py_get_def map_of_py_pop)

lemma py_get_missing: "\<not> has_key d k \<Longrightarrow> py_get d k = PNone"
  by (simp add: has_key_def py_get_def flip: map_of_eq_None_iff)

lemma fst_set_py_set: "fst ` set (py_set d k v) = insert k (fst ` set d)"
  by (induction d k v rule: py_set.induct) auto

lemma distinct_py_set:
  "distinct (map fst d) \<Longrightarrow> distinct (map fst (py_set d k v))"
proof (induction d k v rule: py_set.induct)
  case (1 k v)
  then show ?case by simp
next
  case (2 k' v' d k v)
  then show ?case using fst_set_py_set [of d k v] by (auto simp: image_iff)
qed

lemma is_dict_conv: "is_dict v \<longleftrightarrow> (\<exists>d. v = PDict d)"
  by (cases v) auto

lemma is_list_conv: "is_list v \<longleftrightarrow> (\<exists>d. v = PList d)"
  by (cases v) auto

subsection \<open>Text\<close>

definition code_of :: "char \<Rightarrow> nat" where
  "code_of c = of_char c"

definition is_space :: "char \<Rightarrow> bool" where
  "is_space c \<longleftrightarrow> (9 \<le> code_of c \<and> code_of c \<le> 13) \<or> (28 \<le> code_of c \<and> code_of c \<le> 32)"

definition py_lstrip :: "string \<Rightarrow> string" where
  "py_lstrip s = dropWhile is_space s"

definition py_strip :: "string \<Rightarrow> string" where
  "py_strip s = rev (dropWhile is_space (rev (dropWhile is_space s)))"

definition rstrip_char :: "char \<Rightarrow> string \<Rightarrow> string" where
  "rstrip_char c s = rev (dropWhile (\<lambda>x. x = c) (rev s))"

definition lstrip_char :: "char \<Rightarrow> string \<Rightarrow> string" where
  "lstrip_char c s = dropWhile (\<lambda>x. x = c) s"

definition lower_char :: "char \<Rightarrow> char" where
  "lower_char c = (if 65 \<le> code_of c \<and> code_of c \<le> 90 then char_of (code_of c + 32) else c)"

definition py_lower :: "string \<Rightarrow> string" where
  "py_lower s = map lower_char s"

text \<open>On ASCII text \<open>casefold\<close> is \<open>lower\<close>.\<close>

definition py_casefold :: "string \<Rightarrow> string" where
  "py_casefold s = map lower_char s"

definition py_startswith :: "string \<Rightarrow> string \<Rightarrow> bool" where
  "py_startswith s p \<longleftrightarrow> take (length p) s = p"

definition removeprefix :: "string \<Rightarrow> string \<Rightarrow> string" where
  "removeprefix s p = (if py_startswith s p then drop (length p) s else s)"

fun split_words :: "string \<Rightarrow> string \<Rightarrow> string list" where
  "split_words [] w = (if w = [] then [] else [rev w])"
| "split_words (c # s) w =
     (if is_space c then (if w = [] then split_words s [] else rev w # split_words s [])
      else split_words s (c # w))"

text \<open>\<open>s.split()\<close> and \<open>sep.join(xs)\<close>.\<close>

definition py_words :: "string \<Rightarrow> string list" where
  "py_words s = split_words s []"

fun py_join :: "string \<Rightarrow> string list \<Rightarrow> string" where
  "py_join sep [] = []"
| "py_join sep [x] = x"
| "py_join sep (x # xs) = x @ sep @ py_join sep xs"

definition is_alpha :: "char \<Rightarrow> bool" where
  "is_alpha c \<longleftrightarrow> (65 \<le> code_of c \<and> code_of c \<le> 90) \<or> (97 \<le> code_of c \<and> code_of c \<le> 122)"

definition is_digit :: "char \<Rightarrow> bool" where
  "is_digit c \<longleftrightarrow> 48 \<le> code_of c \<and> code_of c \<le> 57"

definition digit_char :: "nat \<Rightarrow> char" where
  "digit_char n = char_of (48 + n)"

fun show_nat :: "nat \<Rightarrow> string" where
  "show_nat n = (if n < 10 then [digit_char n] else show_nat (n div 10) @ [digit_char (n mod 10)])"

declare show_nat.simps [simp del]

definition show_int :: "int \<Rightarrow> string" where
  "show_int i = (if i < 0 then CHR ''-'' # show_nat (nat (- i)) else show_nat (nat i))"

lemma show_nat_nonempty [simp]: "show_nat n \<noteq> []"
  by (subst show_nat.simps) simp

lemma show_int_nonempty [simp]: "show_int i \<noteq> []"
  by (simp add: show_int_def)

lemma map_lower_char_idem [simp]: "lower_char (lower_char c) = lower_char c"
proof (cases "65 \<le> code_of c \<and> code_of c \<le> 90")
  case True
  then have "code_of (char_of (code_of c + 32)) = code_of c + 32"
    by (simp add: code_of_def)
  with True show ?thesis by (simp add: lower_char_def)
next
  case False
  then show ?thesis by (auto simp: lower_char_def)
qed

lemma py_casefold_idem [simp]: "py_casefold (py_casefold s) = py_casefold s"
  by (simp add: py_casefold_def)

lemma length_casefold [simp]: "length (py_casefold s) = length s"
  by (simp add: py_casefold_def)

lemma casefold_append: "py_casefold (s @ t) = py_casefold s @ py_casefold t"
  by (simp add: py_casefold_def)

lemma py_startswith_append [simp]: "py_startswith (p @ s) p"
  by (simp add: py_startswith_def)

lemma py_startswith_iff: "py_startswith s p \<longleftrightarrow> (\<exists>t. s = p @ t)"
  unfolding py_startswith_def by (metis append_eq_conv_conj append_take_drop_id)

lemma py_startswith_refl [simp]: "py_startswith s s"
  by (simp add: py_startswith_def)

lemma py_startswith_trans:
  "py_startswith s p \<Longrightarrow> py_startswith p q \<Longrightarrow> py_startswith s q"
  by (auto simp: py_startswith_iff)

lemma dropWhile_hd_false: "dropWhile P xs = y # ys \<Longrightarrow> \<not> P y"
  by (induction xs) (auto split: if_splits)

lemma rstrip_char_idem [simp]: "rstrip_char c (rstrip_char c s) = rstrip_char c s"
  by (simp add: rstrip_char_def)

lemma py_strip_idem [simp]: "py_strip (py_strip s) = py_strip s"
proof -
  have keep: "dropWhile is_space (rev (dropWhile is_space (rev u))) =
      rev (dropWhile is_space (rev u))" if "dropWhile is_space u = u" for u
  proof (cases "rev (dropWhile is_space (rev u))")
    case Nil
    show ?thesis by (simp only: Nil dropWhile.simps)
  next
    case (Cons y ys)
    obtain zs where "rev u = takeWhile is_space (rev u) @ zs" and "zs = dropWhile is_space (rev u)"
      by simp
    then have "u = (y # ys) @ rev (takeWhile is_space (rev u))"
      using Cons by (metis rev_append rev_rev_ident)
    then have "\<not> is_space y"
      using that dropWhile_hd_false [of is_space u y] by (metis append_Cons)
    with Cons show ?thesis by simp
  qed
  show ?thesis
    unfolding py_strip_def by (subst keep) simp_all
qed

subsection \<open>\<open>str\<close>, \<open>int\<close> and \<open>float\<close>\<close>

text \<open>
  \<open>repr\<close> of a finite float: the shortest decimal expansion, exact for values whose shortest
  representation has no exponent (magnitude 0 or from 0.0001 up to 10 to the 16th).
\<close>

definition pad_left :: "nat \<Rightarrow> string \<Rightarrow> string" where
  "pad_left n s = replicate (n - length s) (CHR ''0'') @ s"

definition float_digits :: "real \<Rightarrow> nat" where
  "float_digits r = (case find (\<lambda>k. r * 10 ^ k = of_int \<lfloor>r * 10 ^ k\<rfloor>) [0..<20] of
     None \<Rightarrow> 20 | Some k \<Rightarrow> k)"

definition float_repr :: "real \<Rightarrow> string" where
  "float_repr r =
     (let a = \<bar>r\<bar>; k = float_digits a; n = nat \<lfloor>a * 10 ^ k\<rfloor>;
          body = (if k = 0 then show_nat n @ ''.0''
                  else show_nat (n div 10 ^ k) @ ''.'' @ pad_left k (show_nat (n mod 10 ^ k)))
      in if r < 0 then CHR ''-'' # body else body)"

definition repr_char :: "char \<Rightarrow> char \<Rightarrow> string" where
  "repr_char q c =
     (if c = CHR 0x5C then [CHR 0x5C, CHR 0x5C]
      else if c = q then [CHR 0x5C, q]
      else if code_of c = 10 then [CHR 0x5C, CHR ''n'']
      else if code_of c = 13 then [CHR 0x5C, CHR ''r'']
      else if code_of c = 9 then [CHR 0x5C, CHR ''t'']
      else [c])"

definition str_repr :: "string \<Rightarrow> string" where
  "str_repr s =
     (let q = (if CHR 0x27 \<in> set s \<and> CHR 0x22 \<notin> set s then CHR 0x22 else CHR 0x27)
      in q # concat (map (repr_char q) s) @ [q])"

fun nonfin_repr :: "nonfin \<Rightarrow> string" where
  "nonfin_repr PosInf = ''inf''"
| "nonfin_repr NegInf = ''-inf''"
| "nonfin_repr NotANum = ''nan''"

fun py_repr :: "pyval \<Rightarrow> string" where
  "py_repr PNone = ''None''"
| "py_repr (PBool b) = (if b then ''True'' else ''False'')"
| "py_repr (PInt i) = show_int i"
| "py_repr (PFloat r) = float_repr r"
| "py_repr (PNonFin n) = nonfin_repr n"
| "py_repr (PStr s) = str_repr s"
| "py_repr (PList xs) = ''['' @ py_join '', '' (map py_repr xs) @ '']''"
| "py_repr (PDict d) =
     ''{'' @ py_join '', '' (map (\<lambda>kv. str_repr (fst kv) @ '': '' @ py_repr (snd kv)) d) @ ''}''"

fun py_str :: "pyval \<Rightarrow> string" where
  "py_str (PStr s) = s"
| "py_str v = py_repr v"

text \<open>The ubiquitous \<open>str(v or "")\<close> and \<open>str(v or "").strip()\<close>.\<close>

definition str_or :: "pyval \<Rightarrow> string \<Rightarrow> string" where
  "str_or v dflt = (if truthy v then py_str v else dflt)"

definition text_of :: "pyval \<Rightarrow> string" where
  "text_of v = py_strip (str_or v [])"

text \<open>\<open>str(x or "").strip() or None\<close> on an optional string.\<close>

definition strip_or_none :: "string \<Rightarrow> string option" where
  "strip_or_none s = (let t = py_strip s in if t = [] then None else Some t)"

definition opt_str :: "string option \<Rightarrow> string" where
  "opt_str x = (case x of None \<Rightarrow> [] | Some s \<Rightarrow> s)"

definition trunc_real :: "real \<Rightarrow> int" where
  "trunc_real r = (if 0 \<le> r then \<lfloor>r\<rfloor> else \<lceil>r\<rceil>)"

fun digits_value :: "string \<Rightarrow> int \<Rightarrow> int option" where
  "digits_value [] acc = Some acc"
| "digits_value (c # s) acc =
     (if is_digit c then digits_value s (10 * acc + int (code_of c) - 48) else None)"

definition parse_digits :: "string \<Rightarrow> int option" where
  "parse_digits s = (if s = [] then None else digits_value s 0)"

text \<open>Decimal integer literals with an optional sign and surrounding white space (digit-group
  underscores are not modelled).\<close>

definition parse_int :: "string \<Rightarrow> int option" where
  "parse_int s =
     (case py_strip s of
        [] \<Rightarrow> None
      | c # t \<Rightarrow>
          if c = CHR ''-'' then map_option uminus (parse_digits t)
          else if c = CHR ''+'' then parse_digits t
          else parse_digits (c # t))"

fun py_int :: "pyval \<Rightarrow> int result" where
  "py_int PNone = Inl TypeError"
| "py_int (PBool b) = Inr (if b then 1 else 0)"
| "py_int (PInt i) = Inr i"
| "py_int (PFloat r) = Inr (trunc_real r)"
| "py_int (PNonFin NotANum) = Inl (ValueError ''cannot convert float NaN to integer'')"
| "py_int (PNonFin _) = Inl OverflowError"
| "py_int (PStr s) = (case parse_int s of
     None \<Rightarrow> Inl (ValueError ''invalid literal for int()'') | Some i \<Rightarrow> Inr i)"
| "py_int (PList _) = Inl TypeError"
| "py_int (PDict _) = Inl TypeError"

text \<open>Decimal literals \<open>[sign] digits [. digits]\<close> and the words for the non-finite values
  (exponents are not modelled).\<close>

definition parse_unsigned :: "string \<Rightarrow> real option" where
  "parse_unsigned s =
     (let a = takeWhile is_digit s; t = dropWhile is_digit s
      in case t of
           [] \<Rightarrow> map_option of_int (parse_digits a)
         | c # b \<Rightarrow>
             if c = CHR ''.'' \<and> (a \<noteq> [] \<or> b \<noteq> []) then
               (case (digits_value a 0, digits_value b 0) of
                  (Some m, Some n) \<Rightarrow> Some (of_int m + of_int n / 10 ^ length b)
                | _ \<Rightarrow> None)
             else None)"

definition parse_float :: "string \<Rightarrow> (nonfin + real) option" where
  "parse_float s =
     (let t = py_lower (py_strip s);
          neg = py_startswith t ''-'';
          u = (if neg \<or> py_startswith t ''+'' then tl t else t)
      in if u = ''inf'' \<or> u = ''infinity'' then Some (Inl (if neg then NegInf else PosInf))
         else if u = ''nan'' then Some (Inl NotANum)
         else map_option (\<lambda>r. Inr (if neg then - r else r)) (parse_unsigned u))"

text \<open>An integer that rounds to more than the largest double does not convert; \<open>float\<close> raises
  \<open>OverflowError\<close>.\<close>

definition float_fits :: "int \<Rightarrow> bool" where
  "float_fits i \<longleftrightarrow> \<bar>i\<bar> < 2 ^ 1024 - 2 ^ 970"

lemma float_fits_small: "\<bar>i\<bar> \<le> 2 ^ 62 \<Longrightarrow> float_fits i"
  by (simp add: float_fits_def)

lemma float_fits_0 [simp]: "float_fits 0"
  by (simp add: float_fits_def)

lemma float_fits_1 [simp]: "float_fits 1"
  by (simp add: float_fits_def)

lemma float_fits_minus [simp]: "float_fits (- i) = float_fits i"
  by (simp add: float_fits_def)

lemma float_fits_between: "float_fits lo \<Longrightarrow> float_fits hi \<Longrightarrow> lo \<le> i \<Longrightarrow> i \<le> hi \<Longrightarrow> float_fits i"
  by (simp add: float_fits_def abs_if split: if_splits)

lemma float_fits_numeral [simp]: "numeral n \<le> (2 ^ 62 :: int) \<Longrightarrow> float_fits (numeral n)"
  by (rule float_fits_small) simp

fun py_float_any :: "pyval \<Rightarrow> (nonfin + real) result" where
  "py_float_any PNone = Inl TypeError"
| "py_float_any (PBool b) = Inr (Inr (if b then 1 else 0))"
| "py_float_any (PInt i) = (if float_fits i then Inr (Inr (of_int i)) else Inl OverflowError)"
| "py_float_any (PFloat r) = Inr (Inr r)"
| "py_float_any (PNonFin n) = Inr (Inl n)"
| "py_float_any (PStr s) = (case parse_float s of
     None \<Rightarrow> Inl (ValueError ''could not convert string to float'') | Some x \<Rightarrow> Inr x)"
| "py_float_any (PList _) = Inl TypeError"
| "py_float_any (PDict _) = Inl TypeError"

text \<open>
  \<open>float(v)\<close> where the code goes on to calculate with the result. Arithmetic on infinities and
  NaN is outside the model: they surface as the error \<open>NonFinite\<close>, which no handler of the
  code catches.
\<close>

definition py_float :: "pyval \<Rightarrow> real result" where
  "py_float v = bind_result (py_float_any v) (\<lambda>x.
     case x of Inl n \<Rightarrow> Inl (NonFinite n) | Inr r \<Rightarrow> Inr r)"

text \<open>\<open>type(v) is int\<close> (a \<open>bool\<close> is not), \<open>isinstance(v, str)\<close>.\<close>

fun is_int :: "pyval \<Rightarrow> bool" where
  "is_int (PInt _) = True"
| "is_int _ = False"

fun is_str :: "pyval \<Rightarrow> bool" where
  "is_str (PStr _) = True"
| "is_str _ = False"

lemma is_int_conv: "is_int v \<longleftrightarrow> (\<exists>i. v = PInt i)"
  by (cases v) auto

lemma str_or_PStr [simp]: "str_or (PStr s) [] = s"
  by (simp add: str_or_def)

lemma str_or_PNone [simp]: "str_or PNone d = d"
  by (simp add: str_or_def)

lemma text_of_PStr [simp]: "text_of (PStr s) = py_strip s"
  by (simp add: text_of_def)

lemma text_of_PNone [simp]: "text_of PNone = []"
  by (simp add: text_of_def py_strip_def)

lemma trunc_real_pos: "0 \<le> r \<Longrightarrow> trunc_real r = \<lfloor>r\<rfloor>"
  by (simp add: trunc_real_def)

lemma strip_or_none_None: "strip_or_none s = None \<longleftrightarrow> py_strip s = []"
  by (simp add: strip_or_none_def Let_def)

lemma strip_or_none_Some: "strip_or_none s = Some t \<longleftrightarrow> py_strip s = t \<and> t \<noteq> []"
  by (auto simp: strip_or_none_def Let_def)

subsection \<open>utils.py: defensive, bounded numbers\<close>

definition clamp :: "'a::linorder \<Rightarrow> 'a \<Rightarrow> 'a \<Rightarrow> 'a" where
  "clamp lo hi x = max lo (min x hi)"

definition bounded_int :: "pyval \<Rightarrow> int \<Rightarrow> int \<Rightarrow> int \<Rightarrow> int" where
  "bounded_int v dflt minimum maximum =
     clamp minimum maximum (case py_int v of Inl _ \<Rightarrow> dflt | Inr i \<Rightarrow> i)"

definition bounded_number :: "pyval \<Rightarrow> real \<Rightarrow> real \<Rightarrow> real \<Rightarrow> real" where
  "bounded_number v dflt minimum maximum =
     (case py_float_any v of
        Inl _ \<Rightarrow> clamp minimum maximum dflt
      | Inr (Inl NotANum) \<Rightarrow> clamp minimum maximum dflt
      | Inr (Inl PosInf) \<Rightarrow> max minimum maximum
      | Inr (Inl NegInf) \<Rightarrow> minimum
      | Inr (Inr r) \<Rightarrow> clamp minimum maximum r)"

lemma clamp_bounds: "lo \<le> hi \<Longrightarrow> lo \<le> clamp lo hi x \<and> clamp lo hi x \<le> hi"
  by (auto simp: clamp_def)

lemma clamp_ge: "lo \<le> clamp lo hi x"
  by (simp add: clamp_def)

lemma clamp_id: "lo \<le> x \<Longrightarrow> x \<le> hi \<Longrightarrow> clamp lo hi x = x"
  by (simp add: clamp_def)

lemma bounded_int_bounds:
  "lo \<le> hi \<Longrightarrow> lo \<le> bounded_int v d lo hi \<and> bounded_int v d lo hi \<le> hi"
  unfolding bounded_int_def by (rule clamp_bounds)

end
