(* ===== verification/Sql_Table.thy ===== *)
theory Sql_Table
  imports Py_Value "HOL-Library.Multiset"
begin

text \<open>
  SQL tables as lists of rows in rowid order, with the statements the program issues:
  \<open>UPDATE .. WHERE\<close>, \<open>DELETE .. WHERE\<close>, \<open>SELECT .. WHERE\<close> (first row or all rows),
  \<open>SELECT COUNT(*)\<close>, \<open>ORDER BY .. LIMIT\<close> and upserts. An error value leaves the state as it
  was, as the rollback of the connection context manager does.

  The locale \<open>final_rows\<close> is the contract of a table whose rows run through a life cycle and
  end in a final state: an operation never rewrites the result of a final row, and a key once
  used is never given to another row. What it gives is that a result, once written, is the only one ever read
  under its key, whatever operations follow.
\<close>

named_theorems sql_defs \<open>the statements on tables\<close>

definition update_where :: "('r \<Rightarrow> bool) \<Rightarrow> ('r \<Rightarrow> 'r) \<Rightarrow> 'r list \<Rightarrow> 'r list" where
  "update_where P f t = map (\<lambda>r. if P r then f r else r) t"

definition delete_where :: "('r \<Rightarrow> bool) \<Rightarrow> 'r list \<Rightarrow> 'r list" where
  "delete_where P t = filter (\<lambda>r. \<not> P r) t"

definition select_where :: "('r \<Rightarrow> bool) \<Rightarrow> 'r list \<Rightarrow> 'r list" where
  "select_where P t = filter P t"

definition count_where :: "('r \<Rightarrow> bool) \<Rightarrow> 'r list \<Rightarrow> nat" where
  "count_where P t = length (filter P t)"

definition exists_where :: "('r \<Rightarrow> bool) \<Rightarrow> 'r list \<Rightarrow> bool" where
  "exists_where P t = list_ex P t"

definition fetch_one :: "('r \<Rightarrow> bool) \<Rightarrow> 'r list \<Rightarrow> 'r option" where
  "fetch_one P t = find P t"

text \<open>\<open>INSERT .. ON CONFLICT(key) DO UPDATE\<close>.\<close>

definition upsert_where :: "('r \<Rightarrow> bool) \<Rightarrow> 'r \<Rightarrow> ('r \<Rightarrow> 'r) \<Rightarrow> 'r list \<Rightarrow> 'r list" where
  "upsert_where P new f t = (if list_ex P t then update_where P f t else t @ [new])"

definition insert_or_ignore :: "('r \<Rightarrow> bool) \<Rightarrow> 'r \<Rightarrow> 'r list \<Rightarrow> 'r list" where
  "insert_or_ignore P new t = (if list_ex P t then t else t @ [new])"

definition order_desc :: "('r \<Rightarrow> real) \<Rightarrow> 'r list \<Rightarrow> 'r list" where
  "order_desc f t = sort_key (\<lambda>r. - f r) t"

declare update_where_def [sql_defs] delete_where_def [sql_defs] select_where_def [sql_defs]
  count_where_def [sql_defs] exists_where_def [sql_defs] fetch_one_def [sql_defs]
  upsert_where_def [sql_defs] insert_or_ignore_def [sql_defs]

subsection \<open>Lemmas on statements\<close>

lemma in_update_where:
  "r \<in> set (update_where P f t) \<longleftrightarrow> (\<exists>q \<in> set t. r = (if P q then f q else q))"
  by (auto simp: update_where_def image_iff)

lemma in_update_where_cases:
  "r \<in> set (update_where P f t) \<longleftrightarrow> (r \<in> set t \<and> \<not> P r) \<or> (\<exists>q \<in> set t. P q \<and> r = f q)"
  by (auto simp: update_where_def image_iff)

lemma in_delete_where [simp]: "r \<in> set (delete_where P t) \<longleftrightarrow> r \<in> set t \<and> \<not> P r"
  by (auto simp: delete_where_def)

lemma in_select_where [simp]: "r \<in> set (select_where P t) \<longleftrightarrow> r \<in> set t \<and> P r"
  by (auto simp: select_where_def)

lemma exists_where_iff [simp]: "exists_where P t \<longleftrightarrow> (\<exists>r \<in> set t. P r)"
  by (simp add: exists_where_def list_ex_iff)

lemma map_update_where:
  "(\<And>r. P r \<Longrightarrow> k (f r) = k r) \<Longrightarrow> map k (update_where P f t) = map k t"
  by (auto simp: update_where_def)

lemma length_update_where [simp]: "length (update_where P f t) = length t"
  by (simp add: update_where_def)

lemma update_where_False: "(\<And>r. r \<in> set t \<Longrightarrow> \<not> P r) \<Longrightarrow> update_where P f t = t"
  unfolding update_where_def by (induction t) auto

lemma update_where_append [simp]:
  "update_where P f (t @ u) = update_where P f t @ update_where P f u"
  by (simp add: update_where_def)

lemma fetch_one_Some: "fetch_one P t = Some r \<Longrightarrow> r \<in> set t \<and> P r"
  by (auto simp: fetch_one_def find_Some_iff)

lemma fetch_one_None: "fetch_one P t = None \<longleftrightarrow> (\<forall>r \<in> set t. \<not> P r)"
  by (auto simp: fetch_one_def find_None_iff)

lemma fetch_one_key:
  assumes "distinct (map k t)" and "r \<in> set t"
  shows "fetch_one (\<lambda>q. k q = k r) t = Some r"
  using assms unfolding fetch_one_def by (induction t) (auto simp: image_iff)

lemma fetch_one_update_key:
  assumes keep: "\<And>r. k (f r) = k r" and imp: "\<And>r. P r \<Longrightarrow> k r = a"
  shows "fetch_one (\<lambda>q. k q = b) (update_where P f t) =
    (case fetch_one (\<lambda>q. k q = b) t of
       None \<Rightarrow> None | Some r \<Rightarrow> Some (if P r then f r else r))"
  unfolding fetch_one_def update_where_def by (induction t) (auto simp: keep)

lemma fetch_one_append:
  "fetch_one P (t @ u) = (case fetch_one P t of None \<Rightarrow> fetch_one P u | Some r \<Rightarrow> Some r)"
  unfolding fetch_one_def by (induction t) auto

lemma fetch_one_Nil [simp]: "fetch_one P [] = None"
  by (simp add: fetch_one_def)

lemma fetch_one_Cons [simp]: "fetch_one P (r # t) = (if P r then Some r else fetch_one P t)"
  by (simp add: fetch_one_def)

lemma fetch_one_delete_other:
  "(\<And>r. k r = b \<Longrightarrow> \<not> P r) \<Longrightarrow>
   fetch_one (\<lambda>q. k q = b) (delete_where P t) = fetch_one (\<lambda>q. k q = b) t"
  unfolding fetch_one_def delete_where_def by (induction t) auto

lemma fetch_one_delete_key:
  "fetch_one (\<lambda>q. k q = b) (delete_where (\<lambda>q. k q = b) t) = None"
  unfolding fetch_one_None by simp

lemma distinct_delete_where: "distinct (map k t) \<Longrightarrow> distinct (map k (delete_where P t))"
  unfolding delete_where_def by (rule distinct_map_filter)

lemma upsert_key:
  assumes "k new = b" and "\<And>r. k (f r) = k r"
  shows "map k (upsert_where (\<lambda>q. k q = b) new f t) =
    (if b \<in> k ` set t then map k t else map k t @ [b])"
proof -
  have "list_ex (\<lambda>q. k q = b) t \<longleftrightarrow> b \<in> k ` set t"
    by (auto simp: list_ex_iff)
  then show ?thesis using assms by (simp add: upsert_where_def map_update_where)
qed

lemma distinct_upsert_key:
  assumes "k new = b" and "\<And>r. k (f r) = k r" and "distinct (map k t)"
  shows "distinct (map k (upsert_where (\<lambda>q. k q = b) new f t))"
  using assms by (simp add: upsert_key)

lemma fetch_one_upsert:
  assumes "k new = b" and "\<And>r. k (f r) = k r"
  shows "fetch_one (\<lambda>q. k q = c) (upsert_where (\<lambda>q. k q = b) new f t) =
    (if c = b then Some (case fetch_one (\<lambda>q. k q = b) t of None \<Rightarrow> new | Some r \<Rightarrow> f r)
     else fetch_one (\<lambda>q. k q = c) t)"
proof (cases "list_ex (\<lambda>q. k q = b) t")
  case True
  then have some: "fetch_one (\<lambda>q. k q = b) t \<noteq> None"
    by (auto simp: fetch_one_None list_ex_iff)
  have "fetch_one (\<lambda>q. k q = c) (update_where (\<lambda>q. k q = b) f t) =
      (case fetch_one (\<lambda>q. k q = c) t of
         None \<Rightarrow> None | Some r \<Rightarrow> Some (if k r = b then f r else r))"
    by (rule fetch_one_update_key [where a = b]) (simp_all add: assms(2))
  with True some show ?thesis
    by (auto simp: upsert_where_def dest: fetch_one_Some split: option.splits)
next
  case False
  then have none: "fetch_one (\<lambda>q. k q = b) t = None"
    by (auto simp: fetch_one_None list_ex_iff)
  have "fetch_one (\<lambda>q. k q = c) (t @ [new]) =
      (if c = b then Some new else fetch_one (\<lambda>q. k q = c) t)"
    using none by (auto simp: fetch_one_append assms(1) split: option.splits)
  with False none show ?thesis by (simp add: upsert_where_def)
qed

lemma set_order_desc [simp]: "set (order_desc f t) = set t"
  by (simp add: order_desc_def)

lemma order_desc_Nil [simp]: "order_desc f t = [] \<longleftrightarrow> t = []"
proof -
  have "order_desc f t = [] \<longleftrightarrow> set (order_desc f t) = {}" by (rule set_empty [symmetric])
  then show ?thesis by simp
qed

lemma sorted_order_desc: "sorted (map (\<lambda>r. - f r) (order_desc f t))"
  by (simp add: order_desc_def)

lemma distinct_order_desc [simp]: "distinct (map k (order_desc f t)) = distinct (map k t)"
proof -
  have "mset (map k (order_desc f t)) = mset (map k t)"
    by (simp add: order_desc_def)
  then show ?thesis by (rule mset_eq_imp_distinct_iff)
qed

subsection \<open>Rows with a final state\<close>

locale final_rows =
  fixes rows :: "'s \<Rightarrow> 'r list"
    and key :: "'r \<Rightarrow> 'k"
    and used :: "'s \<Rightarrow> 'k \<Rightarrow> bool"
    and final :: "'r \<Rightarrow> bool"
    and result :: "'r \<Rightarrow> 'c"
    and step :: "'s \<Rightarrow> 's \<Rightarrow> bool"
    and ok :: "'s \<Rightarrow> bool"
  assumes ok_step: "ok s \<Longrightarrow> step s t \<Longrightarrow> ok t"
    and ok_key: "ok s \<Longrightarrow> r \<in> set (rows s) \<Longrightarrow> used s (key r)"
    and ok_distinct: "ok s \<Longrightarrow> distinct (map key (rows s))"
    and used_mono: "ok s \<Longrightarrow> step s t \<Longrightarrow> used s k \<Longrightarrow> used t k"
    and no_reuse: "ok s \<Longrightarrow> step s t \<Longrightarrow> r \<in> set (rows t) \<Longrightarrow> used s (key r) \<Longrightarrow>
      \<exists>q \<in> set (rows s). key q = key r"
    and frozen: "ok s \<Longrightarrow> step s t \<Longrightarrow> q \<in> set (rows s) \<Longrightarrow> final q \<Longrightarrow> r \<in> set (rows t) \<Longrightarrow>
      key r = key q \<Longrightarrow> final r \<and> result r = result q"
begin

lemma steps_ok: "step\<^sup>*\<^sup>* s t \<Longrightarrow> ok s \<Longrightarrow> ok t"
  by (induction rule: rtranclp_induct) (auto intro: ok_step)

lemma steps_used: "step\<^sup>*\<^sup>* s t \<Longrightarrow> ok s \<Longrightarrow> used s k \<Longrightarrow> used t k"
proof (induction rule: rtranclp_induct)
  case base
  then show ?case by simp
next
  case (step t u)
  from step.hyps(1) step.prems(1) have "ok t" by (rule steps_ok)
  with step show ?case by (meson used_mono)
qed

theorem result_is_final:
  assumes "step\<^sup>*\<^sup>* s t" and "ok s" and "q \<in> set (rows s)" and "final q"
    and "r \<in> set (rows t)" and "key r = key q"
  shows "final r \<and> result r = result q"
  using assms
proof (induction arbitrary: r rule: rtranclp_induct)
  case base
  from ok_distinct [OF base(1)] base have "r = q"
    by (auto simp: distinct_map inj_on_def)
  with base show ?case by simp
next
  case (step t u)
  have ok: "ok t" by (rule steps_ok [OF step.hyps(1) step.prems(1)])
  have "used t (key q)"
    using ok_key [OF step.prems(1,2)] steps_used [OF step.hyps(1) step.prems(1)] by simp
  with no_reuse [OF ok step.hyps(2) step.prems(4)] step.prems(5)
  obtain p where p: "p \<in> set (rows t)" "key p = key r" by auto
  with step.IH [of p] step.prems have "final p \<and> result p = result q" by simp
  with frozen [OF ok step.hyps(2) p(1) _ step.prems(4)] p(2) show ?case by simp
qed

end

end
