(* ===== verification/Json_Bounded.thy ===== *)
theory Json_Bounded
  imports Py_Value
begin

text \<open>
  \<open>app/db.py\<close>: JSON payloads with a hard byte budget (\<open>_json_preview\<close>,
  \<open>_json_dumps_bounded\<close>). A payload column of the database is modelled by the decoded value it
  holds; \<open>json_bounded v m\<close> is the value whose text \<open>_json_dumps_bounded(v, m)\<close> returns. The ellipsis
  that marks a shortened string is its three UTF-8 bytes.
\<close>

definition json_escape_char :: "char \<Rightarrow> string" where
  "json_escape_char c =
     (if c = CHR 0x22 then [CHR 0x5C, CHR 0x22]
      else if c = CHR 0x5C then [CHR 0x5C, CHR 0x5C]
      else if code_of c = 10 then [CHR 0x5C, CHR ''n'']
      else if code_of c = 13 then [CHR 0x5C, CHR ''r'']
      else if code_of c = 9 then [CHR 0x5C, CHR ''t'']
      else if code_of c = 8 then [CHR 0x5C, CHR ''b'']
      else if code_of c = 12 then [CHR 0x5C, CHR ''f'']
      else if code_of c < 32 then
        [CHR 0x5C] @ ''u00'' @ [(if code_of c < 16 then CHR ''0'' else CHR ''1''),
          (let d = code_of c mod 16 in if d < 10 then digit_char d else char_of (87 + d))]
      else [c])"

definition json_string :: "string \<Rightarrow> string" where
  "json_string s = [CHR 0x22] @ concat (map json_escape_char s) @ [CHR 0x22]"

fun json_nonfin :: "nonfin \<Rightarrow> string" where
  "json_nonfin PosInf = ''Infinity''"
| "json_nonfin NegInf = ''-Infinity''"
| "json_nonfin NotANum = ''NaN''"

text \<open>\<open>json.dumps(v, ensure_ascii=False)\<close>.\<close>

fun json_dumps :: "pyval \<Rightarrow> string" where
  "json_dumps PNone = ''null''"
| "json_dumps (PBool b) = (if b then ''true'' else ''false'')"
| "json_dumps (PInt i) = show_int i"
| "json_dumps (PFloat r) = float_repr r"
| "json_dumps (PNonFin n) = json_nonfin n"
| "json_dumps (PStr s) = json_string s"
| "json_dumps (PList xs) = ''['' @ py_join '', '' (map json_dumps xs) @ '']''"
| "json_dumps (PDict d) =
     ''{'' @ py_join '', '' (map (\<lambda>kv. json_string (fst kv) @ '': '' @ json_dumps (snd kv)) d) @ ''}''"

definition ellipsis :: string where
  "ellipsis = [CHR 0xE2, CHR 0x80, CHR 0xA6]"

fun json_preview :: "nat \<Rightarrow> nat \<Rightarrow> nat \<Rightarrow> nat \<Rightarrow> pyval \<Rightarrow> pyval" where
  "json_preview sl ll dl depth (PStr s) =
     PStr (if length s \<le> sl then s else take sl s @ ellipsis)"
| "json_preview sl ll dl 0 (PList xs) = PStr (take sl (py_str (PList xs)))"
| "json_preview sl ll dl 0 (PDict d) = PStr (take sl (py_str (PDict d)))"
| "json_preview sl ll dl (Suc depth) (PDict d) =
     PDict (fold (\<lambda>kv acc. py_set acc (take 128 (fst kv)) (json_preview sl ll dl depth (snd kv)))
              (take dl d) [])"
| "json_preview sl ll dl (Suc depth) (PList xs) =
     PList (map (json_preview sl ll dl depth) (take ll xs))"
| "json_preview sl ll dl depth v = v"

definition json_stages :: "(nat \<times> nat \<times> nat \<times> nat) list" where
  "json_stages = [(4096, 100, 100, 5), (1024, 25, 75, 4), (256, 5, 40, 3), (64, 1, 20, 2)]"

definition json_stage :: "pyval \<Rightarrow> nat \<Rightarrow> nat \<times> nat \<times> nat \<times> nat \<Rightarrow> pyval" where
  "json_stage v raw st =
     (case st of (sl, ll, dl, depth) \<Rightarrow>
       (case json_preview sl ll dl depth v of
          PDict d \<Rightarrow> PDict (py_set (py_set d ''truncated'' (PBool True)) ''original_bytes'' (PInt (int raw)))
        | p \<Rightarrow> PDict [(''truncated'', PBool True), (''original_bytes'', PInt (int raw)),
                      (''preview'', p)]))"

definition json_fallback :: "nat \<Rightarrow> pyval" where
  "json_fallback raw = PDict [(''truncated'', PBool True), (''original_bytes'', PInt (int raw))]"

definition json_bounded :: "pyval \<Rightarrow> nat \<Rightarrow> pyval" where
  "json_bounded v m =
     (let raw = length (json_dumps v)
      in if raw \<le> m then v
         else (case find (\<lambda>p. length (json_dumps p) \<le> m) (map (json_stage v raw) json_stages) of
                 Some p \<Rightarrow> p
               | None \<Rightarrow> json_fallback raw))"

definition max_job_summary_bytes :: nat where
  "max_job_summary_bytes = 256 * 1024"

definition max_pair_result_bytes :: nat where
  "max_pair_result_bytes = 32 * 1024"

subsection \<open>The budget is kept\<close>

lemma length_show_nat: "0 < k \<Longrightarrow> n < 10 ^ k \<Longrightarrow> length (show_nat n) \<le> k"
proof (induction n arbitrary: k rule: show_nat.induct)
  case (1 n)
  show ?case
  proof (cases "n < 10")
    case True
    with "1.prems" show ?thesis by (subst show_nat.simps) simp
  next
    case False
    with "1.prems" obtain j where k: "k = Suc j" and j: "0 < j"
      by (cases k; cases "k = 1") auto
    from "1.prems" have "n div 10 < 10 ^ j" by (simp add: k div_less_iff_less_mult mult.commute)
    with "1.IH" [OF False j] have "length (show_nat (n div 10)) \<le> j" by simp
    with False k show ?thesis by (subst show_nat.simps) simp
  qed
qed

lemma length_json_fallback:
  "length (json_dumps (json_fallback raw)) = 39 + length (show_nat raw)"
  by (simp add: json_fallback_def json_string_def json_escape_char_def code_of_def show_int_def)

lemma json_bounded_small: "length (json_dumps v) \<le> m \<Longrightarrow> json_bounded v m = v"
  by (simp add: json_bounded_def)

lemma json_bounded_length:
  assumes "length (json_dumps v) < 10 ^ k" and "0 < k" and "39 + k \<le> m"
  shows "length (json_dumps (json_bounded v m)) \<le> m"
proof (cases "length (json_dumps v) \<le> m")
  case True
  then show ?thesis by (simp add: json_bounded_small)
next
  case False
  have "length (json_dumps (json_fallback (length (json_dumps v)))) \<le> m"
    using length_show_nat [OF assms(2,1)] assms(3) by (simp add: length_json_fallback)
  with False show ?thesis
    by (auto simp: json_bounded_def Let_def find_Some_iff split: option.splits)
qed

lemma json_bounded_idem:
  assumes "length (json_dumps v) < 10 ^ k" and "0 < k" and "39 + k \<le> m"
  shows "json_bounded (json_bounded v m) m = json_bounded v m"
  by (rule json_bounded_small [OF json_bounded_length [OF assms]])

end
