(* ===== verification/Jobs_Schema.thy ===== *)
theory Jobs_Schema
  imports Sql_Table Json_Bounded
begin

text \<open>
  The job tables of \<open>app/db.py\<close> as records: \<open>jobs\<close>, \<open>pair_runs\<close>, \<open>pair_history_state\<close>,
  \<open>job_definition_schedule_state\<close>, \<open>job_terminal_intents\<close>, \<open>job_batches\<close> and \<open>job_batch_items\<close>. Nullable
  columns are options, 0/1 flags are booleans, and JSON columns hold the decoded value. The two
  \<open>next\<close> fields are the AUTOINCREMENT counters.
\<close>

datatype job_status = JRunning | JOk | JError | JWarning | JSkipped | JCancelled | JStale

fun status_text :: "job_status \<Rightarrow> string" where
  "status_text JRunning = ''running''"
| "status_text JOk = ''ok''"
| "status_text JError = ''error''"
| "status_text JWarning = ''warning''"
| "status_text JSkipped = ''skipped''"
| "status_text JCancelled = ''cancelled''"
| "status_text JStale = ''stale''"

definition parse_status :: "string \<Rightarrow> job_status option" where
  "parse_status s =
     find (\<lambda>st. status_text st = s) [JRunning, JOk, JError, JWarning, JSkipped, JCancelled, JStale]"

record job_row =
  j_id :: nat
  j_kind :: string
  j_status :: job_status
  j_started :: real
  j_ended :: "real option"
  j_summary :: "pyval option"
  j_log :: "string option"
  j_def_id :: "string option"
  j_def_name :: "string option"
  j_revision :: "string option"
  j_slot :: "string option"
  j_dry :: bool
  j_trigger :: string

record pair_row =
  p_id :: nat
  p_job :: nat
  p_name :: string
  p_hist :: string
  p_ok :: bool
  p_dry :: bool
  p_status :: job_status
  p_started :: real
  p_ended :: "real option"
  p_slot :: "string option"
  p_result :: pyval

record hist_row =
  h_key :: string
  h_name :: string
  h_ever :: bool
  h_terminal :: bool
  h_first :: real
  h_last :: real
  h_success :: "real option"

record sched_row =
  s_def_id :: string
  s_name :: string
  s_att_job :: "nat option"
  s_att_started :: "real option"
  s_att_at :: "real option"
  s_att_status :: "job_status option"
  s_att_trigger :: "string option"
  s_att_slot :: "string option"
  s_suc_job :: "nat option"
  s_suc_started :: "real option"
  s_suc_at :: "real option"
  s_suc_trigger :: "string option"
  s_suc_slot :: "string option"
  s_updated :: real

record intent_row =
  t_job :: nat
  t_status :: job_status
  t_summary :: pyval
  t_created :: real
  t_updated :: real
  t_applied :: "real option"

datatype batch_state = BRunning | BDone | BCancelled

record batch_row =
  b_id :: string
  b_state :: batch_state
  b_dry :: bool
  b_revision :: string
  b_snapshot :: pyval
  b_cancel :: bool
  b_created :: real
  b_updated :: real
  b_completed :: "real option"

datatype item_state = IQueued | IRunning | IDone | IFailed | ICancelled

record item_row =
  i_batch :: string
  i_pos :: nat
  i_def_id :: "string option"
  i_def_name :: "string option"
  i_spec :: pyval
  i_state :: item_state
  i_job :: "nat option"
  i_error :: "string option"
  i_created :: real
  i_updated :: real

record jobs_db =
  jobs :: "job_row list"
  pair_runs :: "pair_row list"
  pair_hist :: "hist_row list"
  sched :: "sched_row list"
  intents :: "intent_row list"
  batches :: "batch_row list"
  items :: "item_row list"
  next_job :: nat
  next_pair :: nat

definition empty_jobs_db :: jobs_db where
  "empty_jobs_db = \<lparr>jobs = [], pair_runs = [], pair_hist = [], sched = [], intents = [],
     batches = [], items = [], next_job = 1, next_pair = 1\<rparr>"

definition is_running :: "job_row \<Rightarrow> bool" where
  "is_running r \<longleftrightarrow> j_status r = JRunning"

definition job_by_id :: "jobs_db \<Rightarrow> nat \<Rightarrow> job_row option" where
  "job_by_id db i = fetch_one (\<lambda>r. j_id r = i) (jobs db)"

lemma parse_status_text [simp]: "parse_status (status_text st) = Some st"
  by (cases st) (simp_all add: parse_status_def)

lemma parse_status_Some: "parse_status s = Some st \<longleftrightarrow> s = status_text st"
proof
  assume "parse_status s = Some st"
  then show "s = status_text st" by (simp add: parse_status_def split: if_splits)
qed simp

end
