(* ===== verification/Pair_History.thy ===== *)
theory Pair_History
  imports Jobs_Schema
begin

text \<open>
  \<open>app/db.py\<close>: the durable per-path history marker (\<open>_record_pair_history_state\<close> and its backfill).
  The marker outlives the job rows, so the merge must not depend on the order in which
  attempts are recorded.
\<close>

definition hist_merge :: "hist_row \<Rightarrow> hist_row \<Rightarrow> hist_row" where
  "hist_merge old new = old\<lparr>
     h_name := (if h_last new \<ge> h_last old then h_name new else h_name old),
     h_ever := (h_ever old \<or> h_ever new),
     h_terminal := (h_terminal old \<or> h_terminal new),
     h_first := min (h_first old) (h_first new),
     h_last := max (h_last old) (h_last new),
     h_success := (case h_success new of None \<Rightarrow> h_success old
        | Some n \<Rightarrow> (case h_success old of None \<Rightarrow> Some n | Some t \<Rightarrow> Some (max t n)))\<rparr>"

text \<open>\<open>success_at or timestamp\<close>: a missing or zero value falls back.\<close>

definition real_or :: "real option \<Rightarrow> real \<Rightarrow> real" where
  "real_or x d = (case x of None \<Rightarrow> d | Some r \<Rightarrow> if r = 0 then d else r)"

definition record_pair_history_state ::
  "string \<Rightarrow> string \<Rightarrow> real \<Rightarrow> bool \<Rightarrow> bool \<Rightarrow> real option \<Rightarrow> hist_row list \<Rightarrow> hist_row list" where
  "record_pair_history_state history_key pair_name seen_at succeeded terminal success_at t =
     (let key = py_strip history_key; name = py_strip pair_name in
      if key = [] \<or> name = [] then t
      else (let new = \<lparr>h_key = key, h_name = name, h_ever = succeeded, h_terminal = terminal,
                 h_first = seen_at, h_last = seen_at,
                 h_success = (if succeeded then Some (real_or success_at seen_at) else None)\<rparr>
            in upsert_where (\<lambda>r. h_key r = key) new (\<lambda>r. hist_merge r new) t))"

text \<open>The grouped query of the backfill over all attempts with a history key.\<close>

definition pair_seen :: "pair_row \<Rightarrow> real" where
  "pair_seen r = (case p_ended r of None \<Rightarrow> p_started r | Some e \<Rightarrow> e)"

definition pair_good :: "pair_row \<Rightarrow> bool" where
  "pair_good r \<longleftrightarrow> p_ok r \<and> \<not> p_dry r"

fun max_list :: "real list \<Rightarrow> real option" where
  "max_list [] = None"
| "max_list (x # xs) = Some (fold max xs x)"

fun min_list_opt :: "real list \<Rightarrow> real option" where
  "min_list_opt [] = None"
| "min_list_opt (x # xs) = Some (fold min xs x)"

definition backfill_groups :: "pair_row list \<Rightarrow> (string \<times> string) list" where
  "backfill_groups rs = remdups (map (\<lambda>r. (p_hist r, p_name r)) (filter (\<lambda>r. p_hist r \<noteq> []) rs))"

definition backfill_group :: "real \<Rightarrow> pair_row list \<Rightarrow> string \<times> string \<Rightarrow> hist_row list \<Rightarrow> hist_row list" where
  "backfill_group now rs g t =
     (let rows = filter (\<lambda>r. (p_hist r, p_name r) = g) rs;
          first_seen = real_or (min_list_opt (map p_started rows)) now;
          last_seen = real_or (max_list (map pair_seen rows)) first_seen
      in record_pair_history_state (fst g) (snd g) last_seen
           (list_ex pair_good rows)
           (list_ex (\<lambda>r. p_status r \<noteq> JRunning \<or> p_ended r \<noteq> None) rows)
           (max_list (map pair_seen (filter pair_good rows))) t)"

definition backfill_pair_history_state :: "real \<Rightarrow> jobs_db \<Rightarrow> jobs_db" where
  "backfill_pair_history_state now db =
     db\<lparr>pair_hist := fold (backfill_group now (pair_runs db)) (backfill_groups (pair_runs db)) (pair_hist db)\<rparr>"

subsection \<open>Lemmas\<close>

lemma hist_merge_key [simp]: "h_key (hist_merge old new) = h_key old"
  by (simp add: hist_merge_def)

lemma hist_merge_fields:
  "h_name (hist_merge old new) = (if h_last old \<le> h_last new then h_name new else h_name old)"
  "h_ever (hist_merge old new) = (h_ever old \<or> h_ever new)"
  "h_terminal (hist_merge old new) = (h_terminal old \<or> h_terminal new)"
  "h_first (hist_merge old new) = min (h_first old) (h_first new)"
  "h_last (hist_merge old new) = max (h_last old) (h_last new)"
  "h_success (hist_merge old new) = (case h_success new of None \<Rightarrow> h_success old
     | Some n \<Rightarrow> (case h_success old of None \<Rightarrow> Some n | Some t \<Rightarrow> Some (max t n)))"
  "hist_row.more (hist_merge old new) = hist_row.more old"
  by (simp_all add: hist_merge_def)

lemma hist_merge_idem: "hist_merge (hist_merge old new) new = hist_merge old new"
  by (rule hist_row.equality) (auto simp: hist_merge_fields split: option.split)

lemma hist_merge_commute:
  assumes "h_last a \<noteq> h_last b"
  shows "hist_merge (hist_merge r a) b = hist_merge (hist_merge r b) a"
proof (rule hist_row.equality)
  show "h_name (hist_merge (hist_merge r a) b) = h_name (hist_merge (hist_merge r b) a)"
    using assms by (auto simp: hist_merge_fields)
  show "h_success (hist_merge (hist_merge r a) b) = h_success (hist_merge (hist_merge r b) a)"
    by (auto simp: hist_merge_fields max.assoc max.commute max.left_commute split: option.split)
qed (auto simp: hist_merge_fields min.assoc min.commute min.left_commute
      max.assoc max.commute max.left_commute)

lemma distinct_record_history:
  "distinct (map h_key t) \<Longrightarrow> distinct (map h_key (record_pair_history_state k n s ok tm sa t))"
  unfolding record_pair_history_state_def Let_def by (auto intro!: distinct_upsert_key)

lemma fetch_record_history:
  assumes "py_strip k \<noteq> []" and "py_strip n \<noteq> []"
  shows "fetch_one (\<lambda>r. h_key r = c) (record_pair_history_state k n s ok tm sa t) =
    (let new = \<lparr>h_key = py_strip k, h_name = py_strip n, h_ever = ok, h_terminal = tm,
       h_first = s, h_last = s, h_success = (if ok then Some (real_or sa s) else None)\<rparr>
     in if c = py_strip k then
          Some (case fetch_one (\<lambda>r. h_key r = py_strip k) t of None \<Rightarrow> new
                | Some r \<Rightarrow> hist_merge r new)
        else fetch_one (\<lambda>r. h_key r = c) t)"
  using assms unfolding record_pair_history_state_def Let_def
  by (simp add: fetch_one_upsert)

text \<open>What a lookup sees after two attempts of one path does not depend on their order.\<close>

lemma record_history_commute:
  assumes "s1 \<noteq> s2" and "py_strip k \<noteq> []" and "py_strip n1 \<noteq> []" and "py_strip n2 \<noteq> []"
  shows "fetch_one (\<lambda>r. h_key r = c)
      (record_pair_history_state k n2 s2 ok2 tm2 sa2 (record_pair_history_state k n1 s1 ok1 tm1 sa1 t)) =
    fetch_one (\<lambda>r. h_key r = c)
      (record_pair_history_state k n1 s1 ok1 tm1 sa1 (record_pair_history_state k n2 s2 ok2 tm2 sa2 t))"
proof (cases "fetch_one (\<lambda>r. h_key r = py_strip k) t")
  case None
  define r1 r2 where "r1 = \<lparr>h_key = py_strip k, h_name = py_strip n1, h_ever = ok1,
      h_terminal = tm1, h_first = s1, h_last = s1,
      h_success = (if ok1 then Some (real_or sa1 s1) else None)\<rparr>"
    and "r2 = \<lparr>h_key = py_strip k, h_name = py_strip n2, h_ever = ok2,
      h_terminal = tm2, h_first = s2, h_last = s2,
      h_success = (if ok2 then Some (real_or sa2 s2) else None)\<rparr>"
  have "hist_merge r1 r2 = hist_merge r2 r1"
    using assms(1) by (intro hist_row.equality)
      (auto simp: hist_merge_fields r1_def r2_def min.commute max.commute split: option.split)
  with None assms show ?thesis
    by (simp add: fetch_record_history Let_def flip: r1_def r2_def)
next
  case (Some r)
  with assms show ?thesis
    by (simp add: fetch_record_history Let_def hist_merge_commute)
qed

lemma record_history_grows:
  assumes "fetch_one (\<lambda>r. h_key r = c) t = Some r"
  shows "\<exists>r'. fetch_one (\<lambda>r. h_key r = c) (record_pair_history_state k n s ok tm sa t) = Some r' \<and>
    (h_ever r \<longrightarrow> h_ever r') \<and> (h_terminal r \<longrightarrow> h_terminal r') \<and>
    h_first r' \<le> h_first r \<and> h_last r \<le> h_last r' \<and>
    (\<forall>u. h_success r = Some u \<longrightarrow> (\<exists>u'. h_success r' = Some u' \<and> u \<le> u'))"
proof (cases "py_strip k = [] \<or> py_strip n = []")
  case True
  with assms show ?thesis by (auto simp: record_pair_history_state_def Let_def)
next
  case False
  with assms show ?thesis
    by (auto simp: fetch_record_history Let_def hist_merge_fields split: option.splits)
qed

end
