(* ===== verification/Schedule_State.thy ===== *)
theory Schedule_State
  imports Jobs_Schema
begin

text \<open>
  \<open>app/db.py\<close>: the scheduler's own memory of a job definition
  (\<open>_record_job_definition_schedule_state\<close>), kept apart from the job history that retention may
  delete. An event is one call of the routine with its keyword arguments. Events may be
  recorded late or twice (recovery, backfill), so the row has to end with the latest
  attempt and the latest success whatever the order of the calls.
\<close>

record sched_event =
  e_def_id :: string
  e_def_name :: string
  e_job :: nat
  e_started :: real
  e_ended :: "real option"
  e_status :: job_status
  e_trigger :: string
  e_slot :: "string option"
  e_dry :: bool

definition norm_trigger :: "string \<Rightarrow> string" where
  "norm_trigger s = (let t = py_strip (if s = [] then ''manual'' else s)
     in if t = [] then ''manual'' else t)"

definition ev_at :: "sched_event \<Rightarrow> real" where
  "ev_at e = (case e_ended e of None \<Rightarrow> e_started e | Some t \<Rightarrow> t)"

definition ev_slot :: "sched_event \<Rightarrow> string option" where
  "ev_slot e = strip_or_none (opt_str (e_slot e))"

definition scheduler_attempt :: "sched_event \<Rightarrow> bool" where
  "scheduler_attempt e \<longleftrightarrow> norm_trigger (e_trigger e) = ''scheduler''"

definition succeeded :: "sched_event \<Rightarrow> bool" where
  "succeeded e \<longleftrightarrow> e_status e = JOk"

text \<open>Python's comparison \<open>candidate >= current\<close> of the pairs (started, job id).\<close>

fun at_least :: "real \<times> nat \<Rightarrow> real \<times> nat \<Rightarrow> bool" where
  "at_least (a, i) (b, j) \<longleftrightarrow> b < a \<or> (a = b \<and> j \<le> i)"

definition ev_cand :: "sched_event \<Rightarrow> real \<times> nat" where
  "ev_cand e = (e_started e, e_job e)"

definition cur_key :: "real option \<Rightarrow> nat option \<Rightarrow> real \<times> nat" where
  "cur_key t i = (case t of None \<Rightarrow> 0 | Some r \<Rightarrow> r, case i of None \<Rightarrow> 0 | Some n \<Rightarrow> n)"

definition sched_insert :: "sched_event \<Rightarrow> sched_row" where
  "sched_insert e =
     \<lparr>s_def_id = py_strip (e_def_id e), s_name = py_strip (e_def_name e),
      s_att_job = (if scheduler_attempt e then Some (e_job e) else None),
      s_att_started = (if scheduler_attempt e then Some (e_started e) else None),
      s_att_at = (if scheduler_attempt e then Some (ev_at e) else None),
      s_att_status = (if scheduler_attempt e then Some (e_status e) else None),
      s_att_trigger = (if scheduler_attempt e then Some (norm_trigger (e_trigger e)) else None),
      s_att_slot = (if scheduler_attempt e then ev_slot e else None),
      s_suc_job = (if succeeded e then Some (e_job e) else None),
      s_suc_started = (if succeeded e then Some (e_started e) else None),
      s_suc_at = (if succeeded e then Some (ev_at e) else None),
      s_suc_trigger = (if succeeded e then Some (norm_trigger (e_trigger e)) else None),
      s_suc_slot = (if succeeded e then ev_slot e else None),
      s_updated = ev_at e\<rparr>"

definition set_attempt :: "sched_event \<Rightarrow> sched_row \<Rightarrow> sched_row" where
  "set_attempt e r = r\<lparr>s_att_job := Some (e_job e), s_att_started := Some (e_started e),
     s_att_at := Some (ev_at e), s_att_status := Some (e_status e),
     s_att_trigger := Some (norm_trigger (e_trigger e)), s_att_slot := ev_slot e\<rparr>"

definition set_success :: "sched_event \<Rightarrow> sched_row \<Rightarrow> sched_row" where
  "set_success e r = r\<lparr>s_suc_job := Some (e_job e), s_suc_started := Some (e_started e),
     s_suc_at := Some (ev_at e), s_suc_trigger := Some (norm_trigger (e_trigger e)),
     s_suc_slot := ev_slot e\<rparr>"

definition sched_merge :: "sched_event \<Rightarrow> sched_row \<Rightarrow> sched_row" where
  "sched_merge e r =
     (let r1 = r\<lparr>s_name := (if py_strip (e_def_name e) \<noteq> [] then py_strip (e_def_name e) else s_name r),
                 s_updated := max (s_updated r) (ev_at e)\<rparr>;
          r2 = (if scheduler_attempt e \<and> at_least (ev_cand e) (cur_key (s_att_started r) (s_att_job r))
                then set_attempt e r1 else r1)
      in if succeeded e \<and> at_least (ev_cand e) (cur_key (s_suc_started r) (s_suc_job r))
         then set_success e r2 else r2)"

definition relevant :: "sched_event \<Rightarrow> bool" where
  "relevant e \<longleftrightarrow> py_strip (e_def_id e) \<noteq> [] \<and> \<not> e_dry e \<and> (scheduler_attempt e \<or> succeeded e)"

definition record_schedule_state :: "sched_event \<Rightarrow> sched_row list \<Rightarrow> sched_row list" where
  "record_schedule_state e t =
     (if \<not> relevant e then t
      else upsert_where (\<lambda>r. s_def_id r = py_strip (e_def_id e)) (sched_insert e) (sched_merge e) t)"

text \<open>The backfill replays every job of a definition, oldest first.\<close>

definition event_of_job :: "job_row \<Rightarrow> sched_event" where
  "event_of_job r = \<lparr>e_def_id = opt_str (j_def_id r), e_def_name = opt_str (j_def_name r),
     e_job = j_id r, e_started = j_started r, e_ended = j_ended r, e_status = j_status r,
     e_trigger = (if j_trigger r = [] then ''manual'' else j_trigger r),
     e_slot = (case j_slot r of None \<Rightarrow> None | Some s \<Rightarrow> if s = [] then None else Some s),
     e_dry = j_dry r\<rparr>"

definition backfill_rows :: "job_row list \<Rightarrow> job_row list" where
  "backfill_rows js = sort_key j_started (sort_key j_id
     (filter (\<lambda>r. j_def_id r \<noteq> None \<and> j_def_id r \<noteq> Some []) js))"

definition backfill_schedule_state :: "jobs_db \<Rightarrow> jobs_db" where
  "backfill_schedule_state db =
     db\<lparr>sched := fold (\<lambda>r. record_schedule_state (event_of_job r)) (backfill_rows (jobs db)) (sched db)\<rparr>"

definition sched_of :: "sched_row list \<Rightarrow> string \<Rightarrow> sched_row option" where
  "sched_of t d = fetch_one (\<lambda>r. s_def_id r = d) t"

subsection \<open>Lookup after one event\<close>

lemma at_least_refl [simp]: "at_least p p"
  by (cases p) auto

lemma at_least_trans: "at_least p q \<Longrightarrow> at_least q r \<Longrightarrow> at_least p r"
  by (cases p; cases q; cases r) auto

lemma at_least_linear: "at_least p q \<or> at_least q p"
  by (cases p; cases q) auto

lemma sched_merge_id [simp]: "s_def_id (sched_merge e r) = s_def_id r"
  by (simp add: sched_merge_def Let_def set_attempt_def set_success_def)

lemma sched_of_record:
  "sched_of (record_schedule_state e t) d =
    (if relevant e \<and> d = py_strip (e_def_id e) then
       Some (case sched_of t d of None \<Rightarrow> sched_insert e | Some r \<Rightarrow> sched_merge e r)
     else sched_of t d)"
proof -
  have "s_def_id (sched_insert e) = py_strip (e_def_id e)"
    by (simp add: sched_insert_def)
  then show ?thesis
    by (auto simp: record_schedule_state_def sched_of_def fetch_one_upsert)
qed

lemma record_dry_run: "e_dry e \<Longrightarrow> record_schedule_state e t = t"
  by (simp add: record_schedule_state_def relevant_def)

text \<open>The success columns of a row carry the event they were written from.\<close>

definition success_from :: "sched_event \<Rightarrow> sched_row \<Rightarrow> bool" where
  "success_from e r \<longleftrightarrow> s_suc_job r = Some (e_job e) \<and> s_suc_started r = Some (e_started e) \<and>
     s_suc_at r = Some (ev_at e) \<and> s_suc_trigger r = Some (norm_trigger (e_trigger e)) \<and>
     s_suc_slot r = ev_slot e"

definition attempt_from :: "sched_event \<Rightarrow> sched_row \<Rightarrow> bool" where
  "attempt_from e r \<longleftrightarrow> s_att_job r = Some (e_job e) \<and> s_att_started r = Some (e_started e) \<and>
     s_att_at r = Some (ev_at e) \<and> s_att_status r = Some (e_status e) \<and>
     s_att_trigger r = Some (norm_trigger (e_trigger e)) \<and> s_att_slot r = ev_slot e"

lemma sched_merge_success:
  "success_from x (sched_merge e r) \<longleftrightarrow>
    (if succeeded e \<and> at_least (ev_cand e) (cur_key (s_suc_started r) (s_suc_job r))
     then success_from x (set_success e r) else success_from x r)"
  by (simp add: sched_merge_def Let_def set_attempt_def set_success_def success_from_def)

lemma sched_merge_attempt:
  "attempt_from x (sched_merge e r) \<longleftrightarrow>
    (if scheduler_attempt e \<and> at_least (ev_cand e) (cur_key (s_att_started r) (s_att_job r))
     then attempt_from x (set_attempt e r) else attempt_from x r)"
  by (simp add: sched_merge_def Let_def set_attempt_def set_success_def attempt_from_def)

lemma sched_insert_unset:
  "\<not> succeeded e \<Longrightarrow> s_suc_started (sched_insert e) = None \<and> s_suc_job (sched_insert e) = None"
  "\<not> scheduler_attempt e \<Longrightarrow> s_att_started (sched_insert e) = None \<and> s_att_job (sched_insert e) = None"
  by (simp_all add: sched_insert_def)

lemma sched_merge_no_success:
  assumes "\<not> succeeded e"
  shows "s_suc_started (sched_merge e r) = s_suc_started r" "s_suc_job (sched_merge e r) = s_suc_job r"
  using assms by (simp_all add: sched_merge_def Let_def set_attempt_def)

lemma sched_merge_no_attempt:
  assumes "\<not> scheduler_attempt e"
  shows "s_att_started (sched_merge e r) = s_att_started r" "s_att_job (sched_merge e r) = s_att_job r"
  using assms by (simp_all add: sched_merge_def Let_def set_success_def)

lemma success_from_set [simp]: "success_from e (set_success e r)"
  by (simp add: success_from_def set_success_def)

lemma attempt_from_set [simp]: "attempt_from e (set_attempt e r)"
  by (simp add: attempt_from_def set_attempt_def)

lemma success_from_insert: "succeeded e \<Longrightarrow> success_from e (sched_insert e)"
  by (simp add: success_from_def sched_insert_def)

lemma attempt_from_insert: "scheduler_attempt e \<Longrightarrow> attempt_from e (sched_insert e)"
  by (simp add: attempt_from_def sched_insert_def)

lemma cur_key_success:
  "success_from e r \<Longrightarrow> cur_key (s_suc_started r) (s_suc_job r) = ev_cand e"
  by (simp add: success_from_def cur_key_def ev_cand_def)

lemma cur_key_attempt:
  "attempt_from e r \<Longrightarrow> cur_key (s_att_started r) (s_att_job r) = ev_cand e"
  by (simp add: attempt_from_def cur_key_def ev_cand_def)

subsection \<open>The latest event wins, in any order of recording\<close>

text \<open>
  A column group of the row (the attempt columns or the success columns) is described by: which
  events it takes (\<open>counts\<close>), and what it means for a row to hold an event (\<open>from\<close>). The two groups
  obey the same law, so the argument is made once.
\<close>

locale latest_columns =
  fixes counts :: "sched_event \<Rightarrow> bool"
    and holds :: "sched_event \<Rightarrow> sched_row \<Rightarrow> bool"
    and unset :: "sched_row \<Rightarrow> bool"
  assumes insert_holds: "counts e \<Longrightarrow> holds e (sched_insert e)"
    and insert_unset: "\<not> counts e \<Longrightarrow> unset (sched_insert e)"
    and update_skip: "\<not> counts e \<Longrightarrow> holds x (sched_merge e r) = holds x r"
    and update_skip_unset: "\<not> counts e \<Longrightarrow> unset (sched_merge e r) = unset r"
    and update_newer: "counts e \<Longrightarrow> holds x r \<Longrightarrow>
      (if at_least (ev_cand e) (ev_cand x) then holds e (sched_merge e r) else holds x (sched_merge e r))"
    and update_unset: "counts e \<Longrightarrow> unset r \<Longrightarrow> at_least (ev_cand e) (0, 0) \<Longrightarrow> holds e (sched_merge e r)"
    and counts_relevant: "counts e \<Longrightarrow> py_strip (e_def_id e) \<noteq> [] \<Longrightarrow> \<not> e_dry e \<Longrightarrow> relevant e"
begin

definition taken :: "string \<Rightarrow> sched_event \<Rightarrow> bool" where
  "taken d e \<longleftrightarrow> relevant e \<and> counts e \<and> py_strip (e_def_id e) = d"

definition latest :: "string \<Rightarrow> sched_event list \<Rightarrow> sched_row option \<Rightarrow> bool" where
  "latest d es ro \<longleftrightarrow>
     (if \<exists>e \<in> set es. taken d e
      then (\<exists>r x. ro = Some r \<and> x \<in> set es \<and> taken d x \<and> holds x r \<and>
              (\<forall>e \<in> set es. taken d e \<longrightarrow> at_least (ev_cand x) (ev_cand e)))
      else (\<forall>r. ro = Some r \<longrightarrow> unset r))"

lemma latest_intro:
  assumes "x \<in> set es" "taken d x" "holds x r"
    "\<forall>e \<in> set es. taken d e \<longrightarrow> at_least (ev_cand x) (ev_cand e)"
  shows "latest d es (Some r)"
  using assms by (auto simp: latest_def)

lemma latest_none: "\<forall>e \<in> set es. \<not> taken d e \<Longrightarrow> latest d es ro \<longleftrightarrow> (\<forall>r. ro = Some r \<longrightarrow> unset r)"
  by (simp add: latest_def)

lemma latest_some:
  assumes "\<exists>x \<in> set es. taken d x"
  shows "latest d es ro \<longleftrightarrow> (\<exists>r x. ro = Some r \<and> x \<in> set es \<and> taken d x \<and> holds x r \<and>
    (\<forall>e \<in> set es. taken d e \<longrightarrow> at_least (ev_cand x) (ev_cand e)))"
  unfolding latest_def if_P [OF assms] by simp

lemma latest_skip:
  assumes "\<not> taken d e" and "latest d es ro"
  shows "latest d (es @ [e]) ro"
proof (cases "\<exists>x \<in> set es. taken d x")
  case True
  then have "\<exists>x \<in> set (es @ [e]). taken d x" by auto
  with True assms show ?thesis by (auto simp: latest_some)
next
  case False
  with assms show ?thesis by (auto simp: latest_none)
qed

lemma latest_not_counted:
  assumes "\<not> counts e" and "latest d es (Some r)"
  shows "latest d (es @ [e]) (Some (sched_merge e r))"
proof -
  from assms(1) have "\<not> taken d e" by (simp add: taken_def)
  moreover have "latest d es (Some (sched_merge e r))"
  proof (cases "\<exists>x \<in> set es. taken d x")
    case True
    with assms show ?thesis by (simp add: latest_some update_skip)
  next
    case False
    with assms show ?thesis by (simp add: latest_none update_skip_unset)
  qed
  ultimately show ?thesis by (rule latest_skip)
qed

lemma latest_counted:
  assumes tk: "taken d e" and l: "latest d es (Some r)" and pos: "0 \<le> e_started e"
  shows "latest d (es @ [e]) (Some (sched_merge e r))"
proof (cases "\<exists>x \<in> set es. taken d x")
  case True
  with l obtain x where x: "x \<in> set es" "taken d x" "holds x r"
    "\<forall>e \<in> set es. taken d e \<longrightarrow> at_least (ev_cand x) (ev_cand e)"
    unfolding latest_some [OF True] by auto
  have c: "counts e" using tk by (simp add: taken_def)
  show ?thesis
  proof (cases "at_least (ev_cand e) (ev_cand x)")
    case True
    with update_newer [OF c x(3)] have "holds e (sched_merge e r)" by simp
    moreover have "\<forall>y \<in> set (es @ [e]). taken d y \<longrightarrow> at_least (ev_cand e) (ev_cand y)"
      using x(4) True at_least_trans by auto
    ultimately show ?thesis using tk by (intro latest_intro [of e]) auto
  next
    case False
    with update_newer [OF c x(3)] at_least_linear
    have "holds x (sched_merge e r)" "at_least (ev_cand x) (ev_cand e)" by metis+
    with x show ?thesis by (intro latest_intro [of x]) auto
  qed
next
  case False
  with l have "unset r" by (simp add: latest_none)
  moreover have "at_least (ev_cand e) (0, 0)" using pos by (auto simp: ev_cand_def)
  ultimately have "holds e (sched_merge e r)"
    using tk by (auto simp: taken_def intro: update_unset)
  with tk False show ?thesis by (intro latest_intro [of e]) auto
qed

lemma latest_step:
  assumes IH: "latest d es (sched_of t d)" and pos: "0 \<le> e_started e"
  shows "latest d (es @ [e]) (sched_of (record_schedule_state e t) d)"
proof (cases "relevant e \<and> py_strip (e_def_id e) = d")
  case False
  then have "\<not> taken d e" by (auto simp: taken_def)
  with IH False show ?thesis by (auto simp: sched_of_record intro: latest_skip)
next
  case rel: True
  show ?thesis
  proof (cases "sched_of t d")
    case None
    with IH have none: "\<forall>x \<in> set es. \<not> taken d x"
      using latest_some [of es d None] by auto
    show ?thesis
    proof (cases "counts e")
      case True
      with rel none None show ?thesis
        by (auto simp: sched_of_record taken_def intro!: latest_intro [of e] insert_holds)
    next
      case False
      with rel none None show ?thesis
        by (subst latest_none) (auto simp: sched_of_record taken_def insert_unset)
    qed
  next
    case (Some r)
    with IH rel pos show ?thesis
      by (cases "counts e") (auto simp: sched_of_record taken_def intro: latest_counted latest_not_counted)
  qed
qed

theorem latest_fold:
  "\<forall>e \<in> set es. 0 \<le> e_started e \<Longrightarrow> latest d es (sched_of (fold record_schedule_state es []) d)"
proof (induction es rule: rev_induct)
  case Nil
  then show ?case by (simp add: latest_def sched_of_def)
next
  case (snoc e es)
  then show ?case by (simp add: latest_step)
qed

end

interpretation successes: latest_columns succeeded success_from
    "\<lambda>r. s_suc_started r = None \<and> s_suc_job r = None"
proof (unfold_locales, goal_cases)
  case (5 e x r)
  then show ?case using cur_key_success [of x r] by (simp add: sched_merge_success)
next
  case (6 e r)
  then show ?case by (simp add: sched_merge_success cur_key_def)
qed (simp_all add: success_from_insert sched_merge_success sched_insert_unset relevant_def
      sched_merge_no_success)

interpretation attempts: latest_columns scheduler_attempt attempt_from
    "\<lambda>r. s_att_started r = None \<and> s_att_job r = None"
proof (unfold_locales, goal_cases)
  case (5 e x r)
  then show ?case using cur_key_attempt [of x r] by (simp add: sched_merge_attempt)
next
  case (6 e r)
  then show ?case by (simp add: sched_merge_attempt cur_key_def)
qed (simp_all add: attempt_from_insert sched_merge_attempt sched_insert_unset relevant_def
      sched_merge_no_attempt)

end
