(* ===== verification/Restore_Evidence.thy ===== *)
theory Restore_Evidence
  imports Json_Bounded
begin

text \<open>
  \<open>app/restore_evidence.py\<close>: which restore runs count as a verified but undersized sample, and when
  a restore proof is current. The SHA-256 digest is the parameter \<open>sha\<close>. Persisted results are
  dictionaries of dynamically typed values, as they come back from JSON; where the code asks a
  nested result for a key, the result is read as a dictionary. Text with umlauts is UTF-8.
\<close>

definition max_evidence_age_sec :: real where
  "max_evidence_age_sec = 7 * 24 * 3600"

definition ae :: string where "ae = [CHR 0xC3, CHR 0xA4]"
definition oe :: string where "oe = [CHR 0xC3, CHR 0xB6]"
definition ue :: string where "ue = [CHR 0xC3, CHR 0xBC]"

text \<open>The number a value is equal to under Python's \<open>==\<close>.\<close>

fun py_num :: "pyval \<Rightarrow> real option" where
  "py_num (PBool b) = Some (if b then 1 else 0)"
| "py_num (PInt i) = Some (of_int i)"
| "py_num (PFloat r) = Some r"
| "py_num _ = None"

definition any_key :: "pydict \<Rightarrow> string list \<Rightarrow> bool" where
  "any_key d ks \<longleftrightarrow> list_ex (\<lambda>k. truthy (py_get d k)) ks"

definition old_partial_message :: "int \<Rightarrow> int \<Rightarrow> string" where
  "old_partial_message verified requested =
     ''Teil-Stichprobe: '' @ show_int verified @ '' von '' @ show_int requested @
     '' angeforderten Dateien ausgew'' @ ae @ ''hlt und erfolgreich gepr'' @ ue @ ''ft''"

definition shortfall_reasons :: "string list" where
  "shortfall_reasons = [''byte_budget'', ''insufficient_eligible_files'', ''listing_truncated'']"

text \<open>The four counters, in the order of the code: verified, sampled, requested, restored.\<close>

definition sample_counts :: "pydict \<Rightarrow> (int \<times> int \<times> int \<times> int) option" where
  "sample_counts d =
     (case (py_get d ''verified'', py_get d ''sample_size'', py_get d ''requested_sample_size'',
            py_get d ''restored_files'') of
        (PInt v, PInt s, PInt q, PInt r) \<Rightarrow> Some (v, s, q, r)
      | _ \<Rightarrow> None)"

definition counts_ok :: "pydict \<Rightarrow> int \<times> int \<times> int \<times> int \<Rightarrow> bool" where
  "counts_ok d c = (case c of (verified, sampled, requested, restored) \<Rightarrow>
     0 < verified \<and> verified = sampled \<and> sampled = restored \<and> restored < requested \<and>
     py_get d ''return_code'' = PInt 0 \<and>
     py_num (py_get_default d ''sample_shortfall'' (PInt (requested - sampled)))
       = Some (of_int (requested - sampled)) \<and>
     (\<exists>s \<in> set shortfall_reasons. py_get d ''sample_shortfall_reason'' = PStr s) \<and>
     py_get d ''error'' \<in> {PNone, PStr [], PStr (old_partial_message verified requested)})"

definition is_verified_partial :: "pyval \<Rightarrow> bool" where
  "is_verified_partial v \<longleftrightarrow>
     (case v of
        PDict d \<Rightarrow>
          is_False (py_get d ''ok'') \<and> py_get d ''sample_status'' = PStr ''partial_selection'' \<and>
          \<not> any_key d [''cancelled'', ''temp_cleanup_failed'', ''cleanup_error'', ''skipped'', ''timed_out''] \<and>
          py_get d ''outcome'' \<in> {PNone, PStr ''partial''} \<and>
          \<not> is_False (py_get d ''integrity_ok'') \<and> \<not> is_True (py_get d ''coverage_complete'') \<and>
          (case sample_counts d of None \<Rightarrow> False | Some c \<Rightarrow> counts_ok d c)
      | _ \<Rightarrow> False)"

definition shortfall_text :: "string \<Rightarrow> string" where
  "shortfall_text reason =
     (if reason = ''byte_budget'' then ''Das Datenlimit begrenzt den Pr'' @ ue @ ''fumfang.''
      else if reason = ''insufficient_eligible_files'' then
        ''Es waren weniger geeignete Dateien verf'' @ ue @ ''gbar.''
      else if reason = ''listing_truncated'' then ''Das Scanlimit begrenzt den Pr'' @ ue @ ''fumfang.''
      else ''Der Pr'' @ ue @ ''fumfang ist begrenzt.'')"

definition partial_restore_warning :: "pydict \<Rightarrow> string" where
  "partial_restore_warning d =
     py_str (py_get d ''verified'') @ '' von '' @ py_str (py_get d ''requested_sample_size'') @
     '' angeforderten Dateien erfolgreich gepr'' @ ue @ ''ft. '' @
     shortfall_text (str_or (py_get d ''sample_shortfall_reason'') []) @
     '' Die angeforderte Stichprobe ist noch nicht vollst'' @ ae @ ''ndig gepr'' @ ue @ ''ft.''"

text \<open>The aggregate entry a drill adds to its own per-path results.\<close>

definition is_drill_aggregate :: "pydict \<Rightarrow> bool" where
  "is_drill_aggregate d \<longleftrightarrow>
     py_get d ''name'' = PStr ''restore-drill'' \<and>
     (case py_get d ''pairs_tested'' of PInt n \<Rightarrow> 0 < n | _ \<Rightarrow> False) \<and>
     \<not> has_key d ''sample_status'' \<and> \<not> has_key d ''evidence_binding''"

fun partial_scan :: "pyval list \<Rightarrow> bool \<Rightarrow> bool" where
  "partial_scan [] seen = seen"
| "partial_scan (PDict d # rs) seen =
     (if any_key d [''cancelled'', ''temp_cleanup_failed'', ''cleanup_error''] then False
      else if is_drill_aggregate d then
        (if truthy (py_get d ''error'') then False else partial_scan rs seen)
      else if is_verified_partial (PDict d) then partial_scan rs True
      else if \<not> is_True (py_get d ''ok'') \<or> truthy (py_get d ''error'') then False
      else partial_scan rs seen)"
| "partial_scan (_ # rs) seen = False"

definition is_partial_restore_summary :: "pyval \<Rightarrow> bool" where
  "is_partial_restore_summary v \<longleftrightarrow>
     (case v of
        PDict d \<Rightarrow>
          \<not> truthy (py_get d ''truncated'') \<and>
          py_get d ''kind'' \<in> {PNone, PStr ''restoretest''} \<and>
          \<not> any_key d [''cancelled'', ''error'', ''temp_cleanup_failed'', ''cleanup_error''] \<and>
          (case py_get d ''pairs'' of
             PList rs \<Rightarrow> rs \<noteq> [] \<and> partial_scan rs False
           | _ \<Rightarrow> False)
      | _ \<Rightarrow> False)"

subsection \<open>Binding a proof to a configured data path\<close>

definition path_field :: "pydict \<Rightarrow> string \<Rightarrow> string" where
  "path_field pair k = rstrip_char (CHR ''/'') (text_of (py_get pair k))"

definition direction_of :: "pydict \<Rightarrow> string" where
  "direction_of pair = py_lower (py_strip (str_or (py_get pair ''direction'') ''bisync''))"

definition fingerprint_text :: "string list \<Rightarrow> string" where
  "fingerprint_text xs = ''['' @ py_join '','' (map json_string xs) @ '']''"

definition pair_binding :: "(string \<Rightarrow> string) \<Rightarrow> pydict \<Rightarrow> string \<times> string" where
  "pair_binding sha pair =
     (let direction = direction_of pair; local = path_field pair ''local'';
          remote = path_field pair ''remote'';
          st = (if direction = ''push'' then (local, remote) else (remote, local))
      in (text_of (py_get pair ''id''), sha (fingerprint_text [fst st, snd st, direction])))"

definition binding_matches :: "pyval \<Rightarrow> string \<times> string \<Rightarrow> bool" where
  "binding_matches v b \<longleftrightarrow>
     (case v of
        PDict d \<Rightarrow> length d = 2 \<and> py_get d ''pair_id'' = PStr (fst b) \<and>
          py_get d ''fingerprint'' = PStr (snd b)
      | _ \<Rightarrow> False)"

definition restore_history_key :: "(string \<Rightarrow> string) \<Rightarrow> pydict \<Rightarrow> string" where
  "restore_history_key sha pair =
     (let b = pair_binding sha pair
      in if fst b \<noteq> [] then ''restore:id:'' @ fst b else ''restore:fingerprint:'' @ snd b)"

datatype ev_state = EvNever | EvFailed | EvStale | EvPartial | EvPassed

record evidence =
  ev_state :: ev_state
  ev_valid :: bool
  ev_reason :: "string option"
  ev_until :: "real option"
  ev_checksum :: bool
  ev_sample_checksum :: bool
  ev_coverage :: bool
  ev_warning :: "string option"
  ev_error :: pyval
  ev_duration :: "real option"
  ev_binding :: pyval
  ev_attempt :: pydict
  ev_success :: pydict

definition evidence_checked :: "pydict \<Rightarrow> real option" where
  "evidence_checked d = py_num (py_get d ''evidence_checked_at'')"

definition incomplete_counts :: "pydict \<Rightarrow> bool result" where
  "incomplete_counts d =
     (if py_get d ''sample_status'' \<noteq> PStr ''complete'' then Inr True
      else bind_result (py_int (py_or (py_get d ''verified'') (PInt 0))) (\<lambda>v.
        if v \<le> 0 then Inr True
        else bind_result (py_int (py_or (py_get d ''sample_size'') (PInt 0))) (\<lambda>s. Inr (v \<noteq> s))))"

definition evidence_verdict ::
  "(string \<Rightarrow> string) \<Rightarrow> pydict \<Rightarrow> pydict \<Rightarrow> pydict \<Rightarrow> real \<Rightarrow> (ev_state \<times> string option) result" where
  "evidence_verdict sha pair attempt result current =
     (let partial = is_verified_partial (PDict result);
          binding = py_get result ''evidence_binding'' in
      if attempt = [] then Inr (EvNever, None)
      else if \<not> truthy (py_get attempt ''ok'') \<and> \<not> partial
        then Inr (EvFailed, Some ''latest_attempt_failed'')
      else if \<not> binding_matches binding (pair_binding sha pair)
        then Inr (EvStale, Some (if truthy binding then ''configuration_changed'' else ''unbound''))
      else (case evidence_checked result of
        None \<Rightarrow> Inr (EvStale, Some ''invalid_timestamp'')
      | Some checked \<Rightarrow>
          if current + 60 < checked then Inr (EvStale, Some ''invalid_timestamp'')
          else if checked + max_evidence_age_sec \<le> current then Inr (EvStale, Some ''expired'')
          else if partial \<or> truthy (py_get result ''truncated'')
            then Inr (EvPartial, Some ''incomplete_sample'')
          else bind_result (incomplete_counts result) (\<lambda>bad.
            if bad then Inr (EvStale, Some ''incomplete_sample'') else Inr (EvPassed, None))))"

definition evidence_duration :: "pydict \<Rightarrow> real option result" where
  "evidence_duration attempt =
     (if truthy (py_get attempt ''ended_at'') \<and> truthy (py_get attempt ''started_at'') then
        bind_result (py_float (py_get attempt ''ended_at'')) (\<lambda>e.
          bind_result (py_float (py_get attempt ''started_at'')) (\<lambda>s. Inr (Some (max 0 (e - s)))))
      else Inr None)"

definition scan_limit_warning :: string where
  "scan_limit_warning = ''Das Scanlimit begrenzt die Stichprobe; der vollst'' @ ae @
     ''ndige Bestand wurde nicht erfasst.''"

definition evaluate_restore_evidence ::
  "(string \<Rightarrow> string) \<Rightarrow> pydict \<Rightarrow> pydict \<Rightarrow> real \<Rightarrow> evidence result" where
  "evaluate_restore_evidence sha pair history current =
     (let attempt = as_dict (py_or (py_or (py_get history ''last_result'') (py_get history ''last_success''))
                               (PDict []));
          success = as_dict (py_or (py_get history ''last_success'') (PDict []));
          result = as_dict (py_or (py_get attempt ''pair'') (PDict []))
      in bind_result (evidence_verdict sha pair attempt result current) (\<lambda>(st, reason).
         bind_result (evidence_duration attempt) (\<lambda>dur.
           Inr \<lparr>ev_state = st, ev_valid = (st = EvPassed), ev_reason = reason,
             ev_until = map_option (\<lambda>c. c + max_evidence_age_sec) (evidence_checked result),
             ev_checksum = (st = EvPassed), ev_sample_checksum = (st = EvPassed \<or> st = EvPartial),
             ev_coverage = (st = EvPassed),
             ev_warning = (if st = EvPartial then
                Some (if truthy (py_get result ''truncated'') then scan_limit_warning
                      else partial_restore_warning result) else None),
             ev_error = (if st = EvFailed then py_get result ''error'' else PNone),
             ev_duration = dur, ev_binding = py_get result ''evidence_binding'',
             ev_attempt = attempt, ev_success = success\<rparr>)))"

subsection \<open>Lemmas\<close>

lemma verified_partial_counts:
  assumes "is_verified_partial v"
  obtains d n q where "v = PDict d" and "sample_counts d = Some (n, n, q, n)" and "0 < n" and "n < q"
    and "py_get d ''return_code'' = PInt 0" and "py_get d ''ok'' = PBool False"
    and "\<not> truthy (py_get d ''cancelled'')" and "\<not> truthy (py_get d ''cleanup_error'')"
  using assms
  by (auto simp: is_verified_partial_def counts_ok_def any_key_def is_False_def
      split: pyval.splits option.splits prod.splits)

lemma partial_scan_sound:
  "partial_scan rs seen \<Longrightarrow> r \<in> set rs \<Longrightarrow>
   (\<exists>d. r = PDict d \<and> \<not> truthy (py_get d ''cancelled'') \<and>
     (is_verified_partial r \<or> \<not> truthy (py_get d ''error'')))"
proof (induction rs seen rule: partial_scan.induct)
  case (2 d rs seen)
  then show ?case by (auto simp: any_key_def split: if_splits)
qed auto

lemma partial_scan_seen: "partial_scan rs seen \<Longrightarrow> seen \<or> (\<exists>r \<in> set rs. is_verified_partial r)"
  by (induction rs seen rule: partial_scan.induct) (auto split: if_splits)

lemma evidence_verdict_passed:
  assumes "evidence_verdict sha pair attempt result current = Inr (EvPassed, reason)"
  shows "truthy (py_get attempt ''ok'') \<or> is_verified_partial (PDict result)"
    and "binding_matches (py_get result ''evidence_binding'') (pair_binding sha pair)"
    and "\<exists>c. evidence_checked result = Some c \<and> c \<le> current + 60 \<and> current < c + max_evidence_age_sec"
    and "\<not> is_verified_partial (PDict result)" and "\<not> truthy (py_get result ''truncated'')"
    and "incomplete_counts result = Inr False"
  using assms
  by (auto simp: evidence_verdict_def Let_def split: if_splits option.splits)

lemma incomplete_counts_False:
  assumes "incomplete_counts d = Inr False"
  shows "py_get d ''sample_status'' = PStr ''complete'' \<and>
    (\<exists>n. 0 < n \<and> py_int (py_or (py_get d ''verified'') (PInt 0)) = Inr n \<and>
         py_int (py_or (py_get d ''sample_size'') (PInt 0)) = Inr n)"
  using assms by (auto simp: incomplete_counts_def split: if_splits)

end
