(* ===== verification/Job_Store.thy ===== *)
theory Job_Store
  imports Pair_History Schedule_State Restore_Evidence
begin

text \<open>
  \<open>app/db.py\<close>: the life of a job row. \<open>job_start\<close> reserves the exclusive scope and books one attempt
  per data path, \<open>job_finish\<close> is the compare-and-set from \<open>running\<close> to a result and stores the
  results of the paths, and the recovery operations turn running jobs stale. Each operation is
  one transaction; the clock reading is its argument \<open>now\<close>.
\<close>

definition backup_scope_kinds :: "string list" where
  "backup_scope_kinds = [''backup'', ''check'', ''quicksync'', ''restoretest'', ''recovery'']"

definition scope_kinds :: "string \<Rightarrow> string list" where
  "scope_kinds kind =
     (if kind \<in> set backup_scope_kinds then backup_scope_kinds
      else if kind = ''pbs'' then [''pbs''] else [kind])"

definition historical_restore_warning :: "string \<Rightarrow> job_status \<Rightarrow> pyval option \<Rightarrow> bool" where
  "historical_restore_warning kind status summary \<longleftrightarrow>
     kind = ''restoretest'' \<and> status = JError \<and>
     is_partial_restore_summary (case summary of None \<Rightarrow> PDict [] | Some v \<Rightarrow> v)"

definition default_history_key :: "string \<Rightarrow> string \<Rightarrow> string" where
  "default_history_key job_kind pair_name =
     (let name = py_strip pair_name in
      if py_lower (py_strip job_kind) = ''pbs'' \<or> py_startswith name ''pbs:''
      then ''pbs:name:'' @ py_casefold (removeprefix name ''pbs:'')
      else ''rclone:name:'' @ py_casefold name)"

subsection \<open>Starting a job\<close>

record start_args =
  a_kind :: string
  a_log :: "string option"
  a_attempts :: "pyval list"
  a_exclusive :: bool
  a_def_id :: "string option"
  a_def_name :: "string option"
  a_revision :: "string option"
  a_slot :: "string option"
  a_dry :: "bool option"
  a_trigger :: "string option"

definition prepared_attempts :: "start_args \<Rightarrow> pydict list" where
  "prepared_attempts a = map as_dict (filter is_dict (a_attempts a))"

definition inferred_dry_run :: "start_args \<Rightarrow> bool" where
  "inferred_dry_run a =
     (case a_dry a of Some b \<Rightarrow> b
      | None \<Rightarrow> prepared_attempts a \<noteq> [] \<and>
          list_all (\<lambda>d. is_True (py_get d ''dry_run'')) (prepared_attempts a))"

definition inferred_trigger :: "start_args \<Rightarrow> string" where
  "inferred_trigger a =
     (let given = py_strip (opt_str (a_trigger a));
          seen = remdups (filter (\<lambda>s. s \<noteq> []) (map (\<lambda>d. text_of (py_get d ''trigger'')) (prepared_attempts a)))
      in if given \<noteq> [] then given
         else (case seen of [t] \<Rightarrow> t
               | _ \<Rightarrow> if opt_str (a_slot a) \<noteq> [] then ''scheduler'' else ''manual''))"

definition running_in_scope :: "string \<Rightarrow> jobs_db \<Rightarrow> job_row option" where
  "running_in_scope kind db =
     (case order_desc j_started (select_where
        (\<lambda>r. is_running r \<and> j_kind r \<in> set (scope_kinds kind)) (jobs db)) of
        [] \<Rightarrow> None | r # _ \<Rightarrow> Some r)"

definition new_job :: "start_args \<Rightarrow> nat \<Rightarrow> real \<Rightarrow> job_row" where
  "new_job a jid now =
     \<lparr>j_id = jid, j_kind = a_kind a, j_status = JRunning, j_started = now, j_ended = None,
      j_summary = None, j_log = a_log a,
      j_def_id = strip_or_none (opt_str (a_def_id a)),
      j_def_name = strip_or_none (opt_str (a_def_name a)),
      j_revision = strip_or_none (opt_str (a_revision a)),
      j_slot = strip_or_none (opt_str (a_slot a)),
      j_dry = inferred_dry_run a, j_trigger = inferred_trigger a\<rparr>"

definition attempt_result :: "pydict \<Rightarrow> string \<Rightarrow> string \<Rightarrow> string option \<Rightarrow> pyval" where
  "attempt_result d name hk slot =
     PDict ([(''name'', PStr name), (''ok'', PBool False), (''pending'', PBool True),
             (''trigger'', PStr (str_or (py_get d ''trigger'') ''manual'')),
             (''history_key'', PStr hk)] @
            (case slot of None \<Rightarrow> [] | Some s \<Rightarrow> [(''scheduled_slot'', PStr s)]) @
            (if is_True (py_get d ''dry_run'') then [(''dry_run'', PBool True)] else []))"

definition start_attempt :: "string \<Rightarrow> nat \<Rightarrow> real \<Rightarrow> pydict \<Rightarrow> jobs_db \<Rightarrow> jobs_db" where
  "start_attempt kind jid now d db =
     (let name = text_of (py_get d ''name'') in
      if name = [] then db
      else (let hk = py_strip (str_or (py_get d ''history_key'') (default_history_key kind name));
                slot = strip_or_none (str_or (py_get d ''scheduled_slot'') []);
                row = \<lparr>p_id = next_pair db, p_job = jid, p_name = name, p_hist = hk, p_ok = False,
                       p_dry = is_True (py_get d ''dry_run''), p_status = JRunning, p_started = now,
                       p_ended = None, p_slot = slot,
                       p_result = json_bounded (attempt_result d name hk slot) max_pair_result_bytes\<rparr>
            in db\<lparr>pair_runs := insert_or_ignore (\<lambda>r. p_job r = jid \<and> p_name r = name) row (pair_runs db),
                  next_pair := Suc (next_pair db),
                  pair_hist := record_pair_history_state hk name now False False None (pair_hist db)\<rparr>))"

definition start_event :: "start_args \<Rightarrow> nat \<Rightarrow> real \<Rightarrow> sched_event" where
  "start_event a jid now =
     \<lparr>e_def_id = opt_str (a_def_id a), e_def_name = opt_str (a_def_name a), e_job = jid,
      e_started = now, e_ended = None, e_status = JRunning, e_trigger = inferred_trigger a,
      e_slot = strip_or_none (opt_str (a_slot a)), e_dry = inferred_dry_run a\<rparr>"

definition job_start :: "start_args \<Rightarrow> real \<Rightarrow> jobs_db \<Rightarrow> (jobs_db \<times> nat) result" where
  "job_start a now db =
     (if a_kind a = [] \<or> 64 < length (a_kind a) then Inl (ValueError ''Job-Typ'')
      else case (if a_exclusive a then running_in_scope (a_kind a) db else None) of
        Some r \<Rightarrow> Inl (JobAlreadyRunningError (j_kind r) (int (j_id r)))
      | None \<Rightarrow>
          (let jid = next_job db;
               db1 = db\<lparr>jobs := jobs db @ [new_job a jid now], next_job := Suc jid\<rparr>;
               db2 = fold (start_attempt (a_kind a) jid now) (prepared_attempts a) db1;
               db3 = (if inferred_trigger a = ''scheduler''
                      then db2\<lparr>sched := record_schedule_state (start_event a jid now) (sched db2)\<rparr>
                      else db2)
           in Inr (db3, jid)))"

subsection \<open>Closing running attempts\<close>

definition terminal_result :: "job_status \<Rightarrow> string option \<Rightarrow> pyval \<Rightarrow> pyval" where
  "terminal_result status error v =
     (let r0 = py_pop (as_dict v) ''pending'';
          r1 = py_set r0 ''ok'' (PBool False);
          r2 = py_set r1 ''status'' (PStr (status_text status));
          r3 = (if status = JCancelled then py_set r2 ''cancelled'' (PBool True) else r2);
          r4 = (case error of None \<Rightarrow> r3
                | Some e \<Rightarrow> if e \<noteq> [] \<and> \<not> truthy (py_get r3 ''error'')
                            then py_set r3 ''error'' (PStr e) else r3)
      in PDict r4)"

definition terminal_attempt :: "job_status \<Rightarrow> real \<Rightarrow> string option \<Rightarrow> pair_row \<Rightarrow> pair_row" where
  "terminal_attempt status ended error r =
     r\<lparr>p_status := status, p_ok := False, p_ended := Some ended,
       p_result := json_bounded (terminal_result status error (p_result r)) max_pair_result_bytes\<rparr>"

definition running_attempt :: "nat \<Rightarrow> pair_row \<Rightarrow> bool" where
  "running_attempt jid r \<longleftrightarrow> p_job r = jid \<and> p_status r = JRunning"

definition terminalize_job :: "job_status \<Rightarrow> real \<Rightarrow> string option \<Rightarrow> nat \<Rightarrow> jobs_db \<Rightarrow> jobs_db" where
  "terminalize_job status ended error jid db =
     db\<lparr>pair_runs := update_where (running_attempt jid) (terminal_attempt status ended error) (pair_runs db),
        pair_hist := fold (\<lambda>r. record_pair_history_state (p_hist r) (p_name r) ended False True None)
          (select_where (running_attempt jid) (pair_runs db)) (pair_hist db)\<rparr>"

definition terminalize_running_attempts ::
  "nat list \<Rightarrow> job_status \<Rightarrow> real \<Rightarrow> string option \<Rightarrow> jobs_db \<Rightarrow> jobs_db" where
  "terminalize_running_attempts ids status ended error db =
     fold (terminalize_job status ended error) ids db"

subsection \<open>Storing the results of a job\<close>

definition merge_pair :: "pair_row \<Rightarrow> pair_row \<Rightarrow> pair_row" where
  "merge_pair new old = old\<lparr>p_hist := p_hist new, p_ok := p_ok new, p_dry := p_dry new,
     p_status := p_status new, p_ended := p_ended new, p_slot := p_slot new, p_result := p_result new\<rparr>"

definition upsert_pair :: "pair_row \<Rightarrow> jobs_db \<Rightarrow> jobs_db" where
  "upsert_pair row db =
     db\<lparr>pair_runs := upsert_where (\<lambda>r. p_job r = p_job row \<and> p_name r = p_name row) row
          (merge_pair row) (pair_runs db),
        next_pair := Suc (next_pair db)\<rparr>"

record store_ctx =
  c_job :: nat
  c_kind :: string
  c_status :: job_status
  c_started :: real
  c_ended :: real
  c_summary :: pydict

definition c_keys :: "store_ctx \<Rightarrow> pydict" where
  "c_keys c = as_dict (py_get (c_summary c) ''history_keys'')"

definition c_slots :: "store_ctx \<Rightarrow> pydict" where
  "c_slots c = as_dict (py_get (c_summary c) ''scheduler_slots'')"

definition c_dry :: "store_ctx \<Rightarrow> bool" where
  "c_dry c = is_True (py_get (c_summary c) ''dry_run'')"

definition c_trigger :: "store_ctx \<Rightarrow> string" where
  "c_trigger c = text_of (py_get (c_summary c) ''trigger'')"

definition stored_status :: "store_ctx \<Rightarrow> string \<Rightarrow> bool \<Rightarrow> pydict \<Rightarrow> job_status" where
  "stored_status c name dry pair =
     (if c_kind c = ''restoretest'' \<and> \<not> dry \<and>
         (is_verified_partial (PDict pair) \<or>
          (name = ''restore-drill'' \<and> is_partial_restore_summary (PDict (c_summary c))))
      then JWarning
      else if is_True (py_get pair ''ok'') then JOk
      else if truthy (py_get pair ''cancelled'') \<or> c_status c = JCancelled then JCancelled
      else if truthy (py_get pair ''skipped'') then JSkipped else JError)"

definition stored_pair :: "store_ctx \<Rightarrow> pydict \<Rightarrow> string \<Rightarrow> string option \<Rightarrow> bool \<Rightarrow> pydict" where
  "stored_pair c d hk slot dry =
     (let p1 = (if c_trigger c \<noteq> [] \<and> \<not> truthy (py_get d ''trigger'')
                then py_set d ''trigger'' (PStr (c_trigger c)) else d);
          p2 = py_set p1 ''history_key'' (PStr hk);
          p3 = (case slot of None \<Rightarrow> p2 | Some s \<Rightarrow> py_set p2 ''scheduled_slot'' (PStr s))
      in if dry then py_set p3 ''dry_run'' (PBool True) else p3)"

definition store_pair :: "store_ctx \<Rightarrow> pyval \<Rightarrow> jobs_db \<Rightarrow> jobs_db" where
  "store_pair c v db =
     (case v of
        PDict d \<Rightarrow>
          (let name = text_of (py_get d ''name'') in
           if name = [] then db
           else (let hk = py_strip (str_or (py_or (py_get d ''history_key'') (py_get (c_keys c) name))
                            (default_history_key (c_kind c) name));
                     slot = strip_or_none (str_or (py_or (py_get d ''scheduled_slot'')
                              (py_get (c_slots c) name)) []);
                     dry = (is_True (py_get d ''dry_run'') \<or> c_dry c);
                     pair = stored_pair c d hk slot dry;
                     ok = is_True (py_get pair ''ok'');
                     row = \<lparr>p_id = next_pair db, p_job = c_job c, p_name = name, p_hist = hk, p_ok = ok,
                            p_dry = dry, p_status = stored_status c name dry pair, p_started = c_started c,
                            p_ended = Some (c_ended c), p_slot = slot,
                            p_result = json_bounded (PDict pair) max_pair_result_bytes\<rparr>;
                     db1 = upsert_pair row db
                 in db1\<lparr>pair_hist := record_pair_history_state hk name (c_ended c) (ok \<and> \<not> dry)
                          (c_status c \<noteq> JRunning) (Some (c_ended c)) (pair_hist db1)\<rparr>))
      | _ \<Rightarrow> db)"

definition due_result :: "store_ctx \<Rightarrow> string \<Rightarrow> string \<Rightarrow> string option \<Rightarrow> pyval" where
  "due_result c name hk slot =
     PDict ([(''name'', PStr name), (''ok'', PBool False), (''error'', py_get (c_summary c) ''error''),
             (''history_key'', PStr hk)] @
            (if c_trigger c \<noteq> [] then [(''trigger'', PStr (c_trigger c))] else []) @
            (case slot of None \<Rightarrow> [] | Some s \<Rightarrow> [(''scheduled_slot'', PStr s)]) @
            (if c_dry c then [(''dry_run'', PBool True)] else []))"

definition store_due :: "store_ctx \<Rightarrow> pyval \<Rightarrow> jobs_db \<Rightarrow> jobs_db" where
  "store_due c v db =
     (let name = text_of v in
      if name = [] then db
      else (let hk = py_strip (str_or (py_get (c_keys c) name) (default_history_key (c_kind c) name));
                slot = strip_or_none (str_or (py_get (c_slots c) name) []);
                row = \<lparr>p_id = next_pair db, p_job = c_job c, p_name = name, p_hist = hk, p_ok = False,
                       p_dry = c_dry c, p_status = c_status c, p_started = c_started c,
                       p_ended = Some (c_ended c), p_slot = slot,
                       p_result = json_bounded (due_result c name hk slot) max_pair_result_bytes\<rparr>;
                db1 = upsert_pair row db
            in db1\<lparr>pair_hist := record_pair_history_state hk name (c_ended c) False True None (pair_hist db1)\<rparr>))"

definition unfinished_status :: "job_status \<Rightarrow> job_status" where
  "unfinished_status st = (if st \<in> {JCancelled, JStale, JSkipped} then st else JError)"

definition store_pair_results :: "store_ctx \<Rightarrow> jobs_db \<Rightarrow> jobs_db" where
  "store_pair_results c db =
     (let db1 = fold (store_pair c) (as_list (py_get (c_summary c) ''pairs'')) db;
          db2 = (if c_status c \<in> {JError, JStale, JCancelled}
                 then fold (store_due c) (as_list (py_get (c_summary c) ''due'')) db1 else db1);
          err = str_or (py_get (c_summary c) ''error'') []
      in if c_status c \<noteq> JRunning
         then terminalize_running_attempts [c_job c] (unfinished_status (c_status c)) (c_ended c)
                (if err = [] then None else Some err) db2
         else db2)"

subsection \<open>Finishing a job\<close>

definition job_event :: "job_row \<Rightarrow> job_status \<Rightarrow> real \<Rightarrow> string \<Rightarrow> string option \<Rightarrow> bool \<Rightarrow> sched_event" where
  "job_event r status now trigger slot dry =
     \<lparr>e_def_id = opt_str (j_def_id r), e_def_name = opt_str (j_def_name r), e_job = j_id r,
      e_started = j_started r, e_ended = Some now, e_status = status, e_trigger = trigger,
      e_slot = slot, e_dry = dry\<rparr>"

definition finish_dry :: "job_row \<Rightarrow> pydict \<Rightarrow> bool" where
  "finish_dry r s \<longleftrightarrow> j_dry r \<or> is_True (py_get s ''dry_run'')"

definition finish_trigger :: "job_row \<Rightarrow> pydict \<Rightarrow> string" where
  "finish_trigger r s =
     (let t = py_strip (str_or (py_or (py_get s ''trigger'') (PStr (j_trigger r))) ''manual'')
      in if t = [] then ''manual'' else t)"

definition finish_slot :: "job_row \<Rightarrow> pydict \<Rightarrow> string option" where
  "finish_slot r s =
     strip_or_none (str_or (py_or (py_get s ''scheduled_slot'') (PStr (opt_str (j_slot r)))) [])"

definition finish_row :: "job_status \<Rightarrow> real \<Rightarrow> pydict option \<Rightarrow> job_row \<Rightarrow> job_row" where
  "finish_row status now summary r =
     (let s = (case summary of None \<Rightarrow> [] | Some d \<Rightarrow> d)
      in r\<lparr>j_status := status, j_ended := Some now,
           j_summary := map_option (\<lambda>d. json_bounded (PDict d) max_job_summary_bytes) summary,
           j_dry := finish_dry r s, j_trigger := finish_trigger r s,
           j_slot := (case j_slot r of None \<Rightarrow> finish_slot r s | Some x \<Rightarrow> Some x)\<rparr>)"

definition job_finish :: "nat \<Rightarrow> string \<Rightarrow> pydict option \<Rightarrow> real \<Rightarrow> jobs_db \<Rightarrow> (jobs_db \<times> bool) result" where
  "job_finish jid status_str summary now db =
     (case parse_status status_str of
        None \<Rightarrow> Inl (ValueError ''Job-Status'')
      | Some status \<Rightarrow>
          (case job_by_id db jid of
             None \<Rightarrow> Inl (ValueError ''Job nicht gefunden'')
           | Some r \<Rightarrow>
               if \<not> is_running r then Inr (db, False)
               else (let s = (case summary of None \<Rightarrow> [] | Some d \<Rightarrow> d);
                         db1 = db\<lparr>jobs := update_where (\<lambda>q. j_id q = jid \<and> is_running q)
                                            (finish_row status now summary) (jobs db)\<rparr>;
                         db2 = store_pair_results \<lparr>c_job = jid, c_kind = j_kind r, c_status = status,
                                 c_started = j_started r, c_ended = now, c_summary = s\<rparr> db1;
                         db3 = db2\<lparr>sched := record_schedule_state
                                 (job_event r status now (finish_trigger r s) (finish_slot r s) (finish_dry r s))
                                 (sched db2)\<rparr>
                     in Inr (db3, True))))"

subsection \<open>Recovery, retention and the remaining updates\<close>

definition stale_summary :: "string \<Rightarrow> real \<Rightarrow> pyval" where
  "stale_summary reason now =
     json_bounded (PDict [(''error'', PStr reason), (''recovered_at'', PFloat now)]) max_job_summary_bytes"

definition stale_row :: "pyval \<Rightarrow> real \<Rightarrow> job_row \<Rightarrow> job_row" where
  "stale_row summary now r = r\<lparr>j_status := JStale, j_ended := Some now, j_summary := Some summary\<rparr>"

definition stale_event :: "real \<Rightarrow> job_row \<Rightarrow> sched_event" where
  "stale_event now r = job_event r JStale now (if j_trigger r = [] then ''manual'' else j_trigger r)
     (case j_slot r of None \<Rightarrow> None | Some s \<Rightarrow> if s = [] then None else Some s) (j_dry r)"

definition mark_rows_stale :: "(job_row \<Rightarrow> bool) \<Rightarrow> pyval \<Rightarrow> string \<Rightarrow> real \<Rightarrow> jobs_db \<Rightarrow> jobs_db \<times> nat" where
  "mark_rows_stale P summary reason now db =
     (let rows = select_where P (jobs db);
          db1 = db\<lparr>jobs := update_where P (stale_row summary now) (jobs db)\<rparr>;
          db2 = terminalize_running_attempts (map j_id rows) JStale now (Some reason) db1;
          db3 = db2\<lparr>sched := fold (\<lambda>r. record_schedule_state (stale_event now r)) rows (sched db2)\<rparr>
      in (db3, length rows))"

definition job_mark_stale :: "nat \<Rightarrow> string \<Rightarrow> real \<Rightarrow> jobs_db \<Rightarrow> jobs_db \<times> bool" where
  "job_mark_stale jid reason now db =
     (let res = mark_rows_stale (\<lambda>r. j_id r = jid \<and> is_running r) (stale_summary reason now) reason now db
      in (fst res, snd res = 1))"

definition jobs_mark_all_running_stale ::
  "string list \<Rightarrow> string \<Rightarrow> real \<Rightarrow> jobs_db \<Rightarrow> jobs_db \<times> nat" where
  "jobs_mark_all_running_stale kinds reason now db =
     (let ks = remdups (filter (\<lambda>k. k \<noteq> []) (map py_strip kinds))
      in mark_rows_stale (\<lambda>r. is_running r \<and> (ks = [] \<or> j_kind r \<in> set ks))
           (stale_summary reason now) reason now db)"

definition jobs_mark_stale ::
  "int \<Rightarrow> string option \<Rightarrow> string \<Rightarrow> real \<Rightarrow> real \<Rightarrow> jobs_db \<Rightarrow> jobs_db \<times> nat" where
  "jobs_mark_stale max_age kind reason now0 now db =
     (let cutoff = now0 - of_int (max 60 max_age)
      in mark_rows_stale (\<lambda>r. is_running r \<and> j_started r < cutoff \<and>
             (opt_str kind = [] \<or> j_kind r = opt_str kind))
           (PDict [(''error'', PStr reason), (''recovered_at'', PFloat now)]) reason now db)"

definition job_set_log_file :: "nat \<Rightarrow> string \<Rightarrow> jobs_db \<Rightarrow> jobs_db" where
  "job_set_log_file jid path db =
     db\<lparr>jobs := update_where (\<lambda>r. j_id r = jid) (\<lambda>r. r\<lparr>j_log := Some path\<rparr>) (jobs db)\<rparr>"

text \<open>Deleting a job row removes its attempts and its terminal intent and detaches batch items,
  as the foreign keys of the schema say.\<close>

definition delete_jobs :: "(job_row \<Rightarrow> bool) \<Rightarrow> jobs_db \<Rightarrow> jobs_db \<times> nat" where
  "delete_jobs P db =
     (let gone = map j_id (select_where P (jobs db))
      in (db\<lparr>jobs := delete_where P (jobs db),
             pair_runs := delete_where (\<lambda>p. p_job p \<in> set gone) (pair_runs db),
             intents := delete_where (\<lambda>t. t_job t \<in> set gone) (intents db),
             items := update_where (\<lambda>i. case i_job i of None \<Rightarrow> False | Some j \<Rightarrow> j \<in> set gone)
                        (\<lambda>i. i\<lparr>i_job := None\<rparr>) (items db)\<rparr>, length gone))"

definition jobs_delete_failed :: "jobs_db \<Rightarrow> jobs_db \<times> nat" where
  "jobs_delete_failed db =
     delete_jobs (\<lambda>r. j_status r \<in> {JError, JStale, JCancelled} \<and>
       \<not> historical_restore_warning (j_kind r) (j_status r) (j_summary r)) db"

definition jobs_prune :: "int \<Rightarrow> int \<Rightarrow> real \<Rightarrow> jobs_db \<Rightarrow> jobs_db \<times> nat" where
  "jobs_prune days keep_latest now db =
     (let cutoff = now - of_int (max 1 days * 86400);
          kept = map j_id (take (nat (max 0 keep_latest)) (order_desc j_started (jobs db)))
      in delete_jobs (\<lambda>r. j_status r \<noteq> JRunning \<and> j_started r < cutoff \<and> j_id r \<notin> set kept) db)"

definition job_running :: "string \<Rightarrow> jobs_db \<Rightarrow> job_row option" where
  "job_running kind db =
     (case order_desc j_started (select_where (\<lambda>r. j_kind r = kind \<and> is_running r) (jobs db)) of
        [] \<Rightarrow> None | r # _ \<Rightarrow> Some r)"

end
