(* ===== verification/Terminal_Intents.thy ===== *)
theory Terminal_Intents
  imports Job_Store
begin

text \<open>
  \<open>app/db.py\<close>: the durable outcome of external work. \<open>job_terminal_stage\<close> writes the outcome before
  the job row changes, \<open>job_terminal_apply\<close> moves the job to it, and after a crash
  \<open>job_terminal_recover_pending\<close> completes what was staged. \<open>apply\<close> is two transactions (the
  compare-and-set of the job, then the mark on the intent); \<open>fault\<close> says where an attempt of
  \<open>job_finish_external\<close> is interrupted by SQLite's \<open>OperationalError\<close>.
\<close>

definition intent_of :: "jobs_db \<Rightarrow> nat \<Rightarrow> intent_row option" where
  "intent_of db jid = fetch_one (\<lambda>t. t_job t = jid) (intents db)"

definition intent_payload :: "pydict option \<Rightarrow> pyval" where
  "intent_payload summary =
     json_bounded (PDict (case summary of None \<Rightarrow> [] | Some d \<Rightarrow> d)) max_job_summary_bytes"

definition job_terminal_stage ::
  "nat \<Rightarrow> string \<Rightarrow> pydict option \<Rightarrow> real \<Rightarrow> jobs_db \<Rightarrow> jobs_db result" where
  "job_terminal_stage jid status_str summary now db =
     (case parse_status status_str of
        None \<Rightarrow> Inl (ValueError ''terminaler Job-Status'')
      | Some status \<Rightarrow>
          if status = JRunning then Inl (ValueError ''terminaler Job-Status'')
          else if job_by_id db jid = None then Inl (ValueError ''Job nicht gefunden'')
          else (let new = \<lparr>t_job = jid, t_status = status, t_summary = intent_payload summary,
                     t_created = now, t_updated = now, t_applied = None\<rparr>;
                    its = insert_or_ignore (\<lambda>t. t_job t = jid) new (intents db)
                in case fetch_one (\<lambda>t. t_job t = jid) its of
                     None \<Rightarrow> Inl (RuntimeError ''Abweichender terminaler Abschluss'')
                   | Some t \<Rightarrow>
                       if t_status t \<noteq> status \<or> t_summary t \<noteq> intent_payload summary
                       then Inl (RuntimeError ''Abweichender terminaler Abschluss'')
                       else Inr (db\<lparr>intents := update_where (\<lambda>t. t_job t = jid)
                                       (\<lambda>t. t\<lparr>t_updated := now\<rparr>) its\<rparr>)))"

text \<open>First transaction of \<open>job_terminal_apply\<close>: the compare-and-set of the job.\<close>

definition apply_finish :: "nat \<Rightarrow> real \<Rightarrow> jobs_db \<Rightarrow> (jobs_db \<times> bool) result" where
  "apply_finish jid now db =
     (case intent_of db jid of
        None \<Rightarrow> Inl (ValueError ''Kein terminaler Abschluss'')
      | Some t \<Rightarrow>
          bind_result (job_finish jid (status_text (t_status t)) (Some (as_dict (t_summary t))) now db)
            (\<lambda>(db1, transitioned).
              if \<not> transitioned \<and> map_option j_status (job_by_id db1 jid) \<noteq> Some (t_status t)
              then Inl (RuntimeError ''Terminaler CAS-Konflikt'')
              else Inr (db1, transitioned \<or> map_option j_status (job_by_id db1 jid) = Some (t_status t))))"

text \<open>Second transaction: the mark on the intent.\<close>

definition apply_mark :: "nat \<Rightarrow> real \<Rightarrow> jobs_db \<Rightarrow> jobs_db" where
  "apply_mark jid now db =
     db\<lparr>intents := update_where (\<lambda>t. t_job t = jid)
          (\<lambda>t. t\<lparr>t_applied := (case t_applied t of None \<Rightarrow> Some now | Some x \<Rightarrow> Some x),
                 t_updated := now\<rparr>) (intents db)\<rparr>"

definition job_terminal_apply :: "nat \<Rightarrow> real \<Rightarrow> jobs_db \<Rightarrow> (jobs_db \<times> bool) result" where
  "job_terminal_apply jid now db =
     bind_result (apply_finish jid now db) (\<lambda>(db1, done). Inr (apply_mark jid now db1, done))"

datatype fault = NoFault | FaultStage | FaultFinish | FaultMark

text \<open>One round of the retry loop: the database it leaves and, if the round was not
  interrupted, what it returns or raises.\<close>

definition finish_round ::
  "nat \<Rightarrow> string \<Rightarrow> pydict option \<Rightarrow> real \<Rightarrow> fault \<Rightarrow> jobs_db \<Rightarrow> jobs_db \<times> bool result option" where
  "finish_round jid status summary now f db =
     (if f = FaultStage then (db, None)
      else case job_terminal_stage jid status summary now db of
        Inl e \<Rightarrow> (db, Some (Inl e))
      | Inr db1 \<Rightarrow>
          if f = FaultFinish then (db1, None)
          else (case apply_finish jid now db1 of
            Inl e \<Rightarrow> (db1, Some (Inl e))
          | Inr (db2, done) \<Rightarrow>
              if f = FaultMark then (db2, None)
              else (apply_mark jid now db2, Some (Inr done))))"

fun finish_rounds ::
  "nat \<Rightarrow> string \<Rightarrow> pydict option \<Rightarrow> (fault \<times> real) list \<Rightarrow> jobs_db \<Rightarrow> jobs_db \<times> bool result" where
  "finish_rounds jid status summary [] db = (db, Inl OperationalError)"
| "finish_rounds jid status summary ((f, now) # fs) db =
     (case finish_round jid status summary now f db of
        (db1, Some r) \<Rightarrow> (db1, r)
      | (db1, None) \<Rightarrow> finish_rounds jid status summary fs db1)"

text \<open>\<open>attempts\<close> rounds at most, at least one; the environment decides the fault of each round.\<close>

definition job_finish_external ::
  "nat \<Rightarrow> string \<Rightarrow> pydict option \<Rightarrow> int \<Rightarrow> (nat \<Rightarrow> fault \<times> real) \<Rightarrow> jobs_db \<Rightarrow> jobs_db \<times> bool result" where
  "job_finish_external jid status summary attempts env db =
     finish_rounds jid status summary (map env [0..<nat (max 1 attempts)]) db"

definition recover_one :: "real \<Rightarrow> nat \<Rightarrow> jobs_db \<times> nat list \<times> nat \<Rightarrow> jobs_db \<times> nat list \<times> nat" where
  "recover_one now jid acc =
     (case acc of (db, done, failed) \<Rightarrow>
        (case job_terminal_apply jid now db of
           Inl _ \<Rightarrow> (db, done, Suc failed)
         | Inr (db1, ok) \<Rightarrow> (db1, if ok then done @ [jid] else done, failed)))"

definition job_terminal_recover_pending :: "real \<Rightarrow> jobs_db \<Rightarrow> jobs_db \<times> nat list \<times> nat" where
  "job_terminal_recover_pending now db =
     fold (recover_one now)
       (map t_job (sort_key t_created (select_where (\<lambda>t. t_applied t = None) (intents db))))
       (db, [], 0)"

definition job_terminal_pending :: "nat \<Rightarrow> jobs_db \<Rightarrow> bool" where
  "job_terminal_pending jid db \<longleftrightarrow> exists_where (\<lambda>t. t_job t = jid \<and> t_applied t = None) (intents db)"

end
