(* ===== verification/Job_Batches.thy ===== *)
theory Job_Batches
  imports Job_Store
begin

text \<open>
  \<open>app/db.py\<close>: batches of job definitions that were accepted by the web interface and run one after
  the other. An item moves from \<open>queued\<close> to \<open>running\<close> to one of the final states; the batch is
  closed by whichever operation finishes its last open item.
\<close>

definition spec_text :: "pydict \<Rightarrow> string \<Rightarrow> string option" where
  "spec_text spec k =
     (let s = str_or (py_get (as_dict (py_get spec ''definition'')) k) []
      in if s = [] then None else Some s)"

definition new_item :: "string \<Rightarrow> nat \<Rightarrow> real \<Rightarrow> nat \<times> pydict \<Rightarrow> item_row" where
  "new_item bid first_job now ps =
     (case ps of (pos, spec) \<Rightarrow>
        \<lparr>i_batch = bid, i_pos = pos, i_def_id = spec_text spec ''id'',
         i_def_name = spec_text spec ''name'',
         i_spec = json_bounded (PDict spec) max_job_summary_bytes,
         i_state = (if pos = 0 then IRunning else IQueued),
         i_job = (if pos = 0 then Some first_job else None), i_error = None,
         i_created = now, i_updated = now\<rparr>)"

definition job_batch_create ::
  "string \<Rightarrow> pydict list \<Rightarrow> pyval \<Rightarrow> string \<Rightarrow> bool \<Rightarrow> nat \<Rightarrow> real \<Rightarrow> jobs_db \<Rightarrow> (jobs_db \<times> string) result" where
  "job_batch_create bid specs snapshot revision dry first_job now db =
     (if specs = [] then Inl (ValueError ''Job-Batch'')
      else if exists_where (\<lambda>b. b_id b = bid) (batches db) then Inl IntegrityError
      else if job_by_id db first_job = None then Inl IntegrityError
      else Inr (db\<lparr>batches := batches db @
                 [\<lparr>b_id = bid, b_state = BRunning, b_dry = dry, b_revision = revision,
                   b_snapshot = json_bounded snapshot (2 * 1024 * 1024), b_cancel = False,
                   b_created = now, b_updated = now, b_completed = None\<rparr>],
               items := items db @ map (new_item bid first_job now) (List.enumerate 0 specs)\<rparr>, bid))"

definition batch_items :: "jobs_db \<Rightarrow> string \<Rightarrow> item_row list" where
  "batch_items db bid = sort_key i_pos (select_where (\<lambda>i. i_batch i = bid) (items db))"

definition job_batch_get :: "jobs_db \<Rightarrow> string \<Rightarrow> (batch_row \<times> item_row list) option" where
  "job_batch_get db bid =
     (case fetch_one (\<lambda>b. b_id b = bid) (batches db) of
        None \<Rightarrow> None | Some b \<Rightarrow> Some (b, batch_items db bid))"

definition job_batches_pending :: "jobs_db \<Rightarrow> (batch_row \<times> item_row list) list" where
  "job_batches_pending db =
     List.map_filter (\<lambda>b. job_batch_get db (b_id b))
       (sort_key b_created (select_where (\<lambda>b. b_state b = BRunning) (batches db)))"

definition is_item :: "string \<Rightarrow> nat \<Rightarrow> item_row \<Rightarrow> bool" where
  "is_item bid pos i \<longleftrightarrow> i_batch i = bid \<and> i_pos i = pos"

definition open_item :: "item_row \<Rightarrow> bool" where
  "open_item i \<longleftrightarrow> i_state i = IQueued \<or> i_state i = IRunning"

definition remaining_items :: "string \<Rightarrow> item_row list \<Rightarrow> nat" where
  "remaining_items bid its = count_where (\<lambda>i. i_batch i = bid \<and> open_item i) its"

text \<open>The foreign key on \<open>job_id\<close> is checked for the rows the update changes.\<close>

definition job_batch_item_start ::
  "string \<Rightarrow> nat \<Rightarrow> nat \<Rightarrow> real \<Rightarrow> jobs_db \<Rightarrow> (jobs_db \<times> bool) result" where
  "job_batch_item_start bid pos jid now db =
     (let P = (\<lambda>i. is_item bid pos i \<and> i_state i = IQueued)
      in if exists_where P (items db) \<and> job_by_id db jid = None then Inl IntegrityError
         else Inr (db\<lparr>items := update_where P (\<lambda>i. i\<lparr>i_state := IRunning, i_job := Some jid, i_updated := now\<rparr>)
               (items db)\<rparr>, count_where P (items db) = 1))"

fun parse_item_state :: "string \<Rightarrow> item_state option" where
  "parse_item_state s =
     (if s = ''done'' then Some IDone else if s = ''failed'' then Some IFailed
      else if s = ''cancelled'' then Some ICancelled else None)"

definition complete_batch :: "string \<Rightarrow> batch_state \<Rightarrow> real \<Rightarrow> jobs_db \<Rightarrow> jobs_db" where
  "complete_batch bid st now db =
     db\<lparr>batches := update_where (\<lambda>b. b_id b = bid \<and> b_state b = BRunning)
          (\<lambda>b. b\<lparr>b_state := st, b_updated := now, b_completed := Some now\<rparr>) (batches db)\<rparr>"

definition job_batch_item_finish ::
  "string \<Rightarrow> nat \<Rightarrow> string \<Rightarrow> string option \<Rightarrow> real \<Rightarrow> jobs_db \<Rightarrow> (jobs_db \<times> bool) result" where
  "job_batch_item_finish bid pos state error now db =
     (case parse_item_state state of
        None \<Rightarrow> Inl (ValueError ''Batch-Item-Status'')
      | Some st \<Rightarrow>
          (let P = (\<lambda>i. is_item bid pos i \<and> open_item i);
               db1 = db\<lparr>items := update_where P
                       (\<lambda>i. i\<lparr>i_state := st, i_error := error, i_updated := now\<rparr>) (items db)\<rparr>;
               final = (case fetch_one (\<lambda>b. b_id b = bid) (batches db1) of
                          None \<Rightarrow> BDone | Some b \<Rightarrow> if b_cancel b then BCancelled else BDone);
               db2 = (if remaining_items bid (items db1) = 0 then complete_batch bid final now db1 else db1)
           in Inr (db2, count_where P (items db) = 1)))"

definition job_batch_request_cancel :: "real \<Rightarrow> jobs_db \<Rightarrow> jobs_db \<times> nat" where
  "job_batch_request_cancel now db =
     (let P = (\<lambda>b. b_state b = BRunning \<and> \<not> b_cancel b)
      in (db\<lparr>batches := update_where P (\<lambda>b. b\<lparr>b_cancel := True, b_updated := now\<rparr>) (batches db)\<rparr>,
          count_where P (batches db)))"

text \<open>What a restart makes of one running item: nothing while its job still runs.\<close>

definition recover_item :: "jobs_db \<Rightarrow> string \<Rightarrow> real \<Rightarrow> item_row \<Rightarrow> item_row" where
  "recover_item db bid now i =
     (if i_batch i = bid \<and> i_state i = IRunning then
        (let job = (case i_job i of None \<Rightarrow> None | Some j \<Rightarrow> job_by_id db j);
             status = (case job of None \<Rightarrow> JStale | Some r \<Rightarrow> j_status r)
         in if job \<noteq> None \<and> status = JRunning then i
            else if status = JOk then i\<lparr>i_state := IDone, i_error := None, i_updated := now\<rparr>
            else i\<lparr>i_state := IFailed, i_error := Some (''Unterbrochener Lauf: '' @ status_text status),
                   i_updated := now\<rparr>)
      else i)"

definition job_batch_recover ::
  "string \<Rightarrow> real \<Rightarrow> jobs_db \<Rightarrow> jobs_db \<times> (batch_row \<times> item_row list) option" where
  "job_batch_recover bid now db =
     (let db1 = db\<lparr>items := map (recover_item db bid now) (items db)\<rparr>;
          db2 = (if remaining_items bid (items db1) = 0 then complete_batch bid BDone now db1 else db1)
      in (db2, job_batch_get db2 bid))"

end
