(* ===== verification/Job_Invariants.thy ===== *)
theory Job_Invariants
  imports Terminal_Intents Job_Batches
begin

text \<open>
  The job store as a state machine: one step per committed transaction, the invariant of its
  reachable states, and the finality of results. The invariant ties the tables together: ids are
  unique and below the counter, an attempt belongs to a job and is running only while that job is,
  and an intent belongs to a job.
\<close>

subsection \<open>What the operations leave alone\<close>

lemma fold_keeps: "(\<And>x s. f (g x s) = f s) \<Longrightarrow> f (fold g xs s) = f s"
  by (induction xs arbitrary: s) auto

lemma fold_inv: "(\<And>x s. x \<in> set xs \<Longrightarrow> P s \<Longrightarrow> P (g x s)) \<Longrightarrow> P s \<Longrightarrow> P (fold g xs s)"
  by (induction xs arbitrary: s) auto

lemma start_attempt_frame [simp]:
  "jobs (start_attempt k j now d db) = jobs db"
  "intents (start_attempt k j now d db) = intents db"
  "next_job (start_attempt k j now d db) = next_job db"
  "items (start_attempt k j now d db) = items db"
  "batches (start_attempt k j now d db) = batches db"
  "sched (start_attempt k j now d db) = sched db"
  by (simp_all add: start_attempt_def Let_def)

lemma store_pair_frame [simp]:
  "jobs (store_pair c v db) = jobs db"
  "intents (store_pair c v db) = intents db"
  "next_job (store_pair c v db) = next_job db"
  "items (store_pair c v db) = items db"
  "batches (store_pair c v db) = batches db"
  "sched (store_pair c v db) = sched db"
  by (simp_all add: store_pair_def Let_def upsert_pair_def split: pyval.split)

lemma store_due_frame [simp]:
  "jobs (store_due c v db) = jobs db"
  "intents (store_due c v db) = intents db"
  "next_job (store_due c v db) = next_job db"
  "items (store_due c v db) = items db"
  "batches (store_due c v db) = batches db"
  "sched (store_due c v db) = sched db"
  by (simp_all add: store_due_def Let_def upsert_pair_def)

lemma terminalize_job_frame [simp]:
  "jobs (terminalize_job st e err j db) = jobs db"
  "intents (terminalize_job st e err j db) = intents db"
  "next_job (terminalize_job st e err j db) = next_job db"
  "items (terminalize_job st e err j db) = items db"
  "batches (terminalize_job st e err j db) = batches db"
  "sched (terminalize_job st e err j db) = sched db"
  by (simp_all add: terminalize_job_def)

lemma terminalize_frame [simp]:
  "jobs (terminalize_running_attempts js st e err db) = jobs db"
  "intents (terminalize_running_attempts js st e err db) = intents db"
  "next_job (terminalize_running_attempts js st e err db) = next_job db"
  "items (terminalize_running_attempts js st e err db) = items db"
  "batches (terminalize_running_attempts js st e err db) = batches db"
  "sched (terminalize_running_attempts js st e err db) = sched db"
  unfolding terminalize_running_attempts_def by (rule fold_keeps, simp)+

lemma fold_start_frame [simp]:
  "jobs (fold (start_attempt k j now) ds db) = jobs db"
  "intents (fold (start_attempt k j now) ds db) = intents db"
  "next_job (fold (start_attempt k j now) ds db) = next_job db"
  "items (fold (start_attempt k j now) ds db) = items db"
  "batches (fold (start_attempt k j now) ds db) = batches db"
  "sched (fold (start_attempt k j now) ds db) = sched db"
  by (rule fold_keeps, simp)+

lemma fold_store_frame [simp]:
  "jobs (fold (store_pair c) vs db) = jobs db" "jobs (fold (store_due c) vs db) = jobs db"
  "intents (fold (store_pair c) vs db) = intents db" "intents (fold (store_due c) vs db) = intents db"
  "next_job (fold (store_pair c) vs db) = next_job db" "next_job (fold (store_due c) vs db) = next_job db"
  "items (fold (store_pair c) vs db) = items db" "items (fold (store_due c) vs db) = items db"
  "batches (fold (store_pair c) vs db) = batches db" "batches (fold (store_due c) vs db) = batches db"
  "sched (fold (store_pair c) vs db) = sched db" "sched (fold (store_due c) vs db) = sched db"
  by (rule fold_keeps, simp)+

lemma store_results_frame [simp]:
  "jobs (store_pair_results c db) = jobs db"
  "intents (store_pair_results c db) = intents db"
  "next_job (store_pair_results c db) = next_job db"
  "items (store_pair_results c db) = items db"
  "batches (store_pair_results c db) = batches db"
  "sched (store_pair_results c db) = sched db"
  by (simp_all add: store_pair_results_def Let_def)

subsection \<open>Attempts\<close>

definition pair_key :: "pair_row \<Rightarrow> nat \<times> string" where
  "pair_key r = (p_job r, p_name r)"

definition keys_distinct :: "jobs_db \<Rightarrow> bool" where
  "keys_distinct db \<longleftrightarrow> distinct (map pair_key (pair_runs db))"

text \<open>An operation on the attempts of one job: every row is an old row or a closed row of that
  job, and the uniqueness constraint on (job, path) is kept.\<close>

definition closes :: "nat \<Rightarrow> jobs_db \<Rightarrow> jobs_db \<Rightarrow> bool" where
  "closes jid db db' \<longleftrightarrow>
     (keys_distinct db \<longrightarrow> keys_distinct db') \<and>
     (\<forall>p \<in> set (pair_runs db'). p \<in> set (pair_runs db) \<or> (p_job p = jid \<and> p_status p \<noteq> JRunning))"

lemma closes_refl: "closes jid db db"
  by (simp add: closes_def)

lemma closes_trans: "closes jid a b \<Longrightarrow> closes jid b c \<Longrightarrow> closes jid a c"
  unfolding closes_def by blast

lemma closes_fold: "(\<And>x s. x \<in> set xs \<Longrightarrow> closes jid s (g x s)) \<Longrightarrow> closes jid s (fold g xs s)"
  by (induction xs arbitrary: s) (auto intro: closes_refl closes_trans)

lemma pair_key_conv: "(\<lambda>r. p_job r = j \<and> p_name r = n) = (\<lambda>r. pair_key r = (j, n))"
  by (auto simp: pair_key_def)

lemma closes_upsert:
  assumes "p_job row = jid" and "p_status row \<noteq> JRunning"
  shows "closes jid db (upsert_pair row db)"
proof -
  have "keys_distinct db \<longrightarrow> keys_distinct (upsert_pair row db)"
    using distinct_upsert_key [of pair_key row "(p_job row, p_name row)" "merge_pair row"]
    by (simp add: keys_distinct_def upsert_pair_def pair_key_conv)
      (simp add: pair_key_def merge_pair_def)
  then show ?thesis
    using assms by (auto simp: closes_def upsert_pair_def upsert_where_def in_update_where_cases merge_pair_def)
qed

lemma closes_hist [simp]: "closes jid db (db'\<lparr>pair_hist := h\<rparr>) = closes jid db db'"
  by (simp add: closes_def keys_distinct_def)

lemma stored_status_not_running: "stored_status c n dry p \<noteq> JRunning"
  by (simp add: stored_status_def)

lemma closes_store_pair: "closes (c_job c) db (store_pair c v db)"
  by (auto simp: store_pair_def Let_def stored_status_not_running
      intro!: closes_upsert closes_refl split: pyval.split)

lemma closes_store_due: "c_status c \<noteq> JRunning \<Longrightarrow> closes (c_job c) db (store_due c v db)"
  by (auto simp: store_due_def Let_def intro!: closes_upsert closes_refl)

lemma terminalize_job_runs:
  "pair_runs (terminalize_job st e err jid db) =
   update_where (running_attempt jid) (terminal_attempt st e err) (pair_runs db)"
  by (simp add: terminalize_job_def)

lemma closes_terminalize: "st \<noteq> JRunning \<Longrightarrow> closes jid db (terminalize_job st e err jid db)"
  by (auto simp: closes_def keys_distinct_def terminalize_job_runs in_update_where_cases
      terminal_attempt_def running_attempt_def map_update_where pair_key_def)

lemma unfinished_not_running: "unfinished_status st \<noteq> JRunning"
  by (auto simp: unfinished_status_def)

lemma closes_store_results: "closes (c_job c) db (store_pair_results c db)"
proof -
  define db1 where "db1 = fold (store_pair c) (as_list (py_get (c_summary c) ''pairs'')) db"
  define db2 where "db2 = (if c_status c \<in> {JError, JStale, JCancelled}
    then fold (store_due c) (as_list (py_get (c_summary c) ''due'')) db1 else db1)"
  have 1: "closes (c_job c) db db1"
    unfolding db1_def by (rule closes_fold) (rule closes_store_pair)
  have "c_status c \<noteq> JRunning \<Longrightarrow> closes (c_job c) db1 (fold (store_due c) vs db1)" for vs
    by (rule closes_fold) (rule closes_store_due)
  then have "closes (c_job c) db1 db2"
    unfolding db2_def by (auto intro: closes_refl)
  with 1 have 2: "closes (c_job c) db db2" by (rule closes_trans)
  have "closes (c_job c) db2 (terminalize_job (unfinished_status (c_status c)) (c_ended c) err (c_job c) db2)"
    for err by (rule closes_terminalize) (rule unfinished_not_running)
  with 2 show ?thesis
    unfolding store_pair_results_def Let_def terminalize_running_attempts_def
      db1_def [symmetric] db2_def [symmetric]
    by (auto intro: closes_trans)
qed

lemma terminalized_none_running:
  assumes "st \<noteq> JRunning" and "p \<in> set (pair_runs (terminalize_job st e err jid db))"
  shows "\<not> running_attempt jid p"
proof -
  have "\<not> running_attempt jid (terminal_attempt st e err q)" for q
    using assms(1) by (simp add: terminal_attempt_def running_attempt_def)
  with assms(2) show ?thesis
    unfolding terminalize_job_runs in_update_where_cases by blast
qed

text \<open>After a job's results are stored under a final status, none of its attempts is running.\<close>

lemma store_results_none_running:
  assumes "c_status c \<noteq> JRunning" and "p \<in> set (pair_runs (store_pair_results c db))"
  shows "\<not> running_attempt (c_job c) p"
  using assms(2) terminalized_none_running [OF unfinished_not_running]
  unfolding store_pair_results_def Let_def terminalize_running_attempts_def if_P [OF assms(1)]
  by simp

lemma terminalize_all_runs:
  assumes "st \<noteq> JRunning"
  shows "(keys_distinct db \<longrightarrow> keys_distinct (terminalize_running_attempts js st e err db)) \<and>
    (\<forall>p \<in> set (pair_runs (terminalize_running_attempts js st e err db)).
       (p \<in> set (pair_runs db) \<and> \<not> (p_job p \<in> set js \<and> p_status p = JRunning)) \<or>
       (\<exists>q \<in> set (pair_runs db). p_job q = p_job p) \<and> p_job p \<in> set js \<and> p_status p \<noteq> JRunning)"
  unfolding terminalize_running_attempts_def
proof (induction js arbitrary: db)
  case Nil
  then show ?case by simp
next
  case (Cons j js)
  have "keys_distinct db \<longrightarrow> keys_distinct (terminalize_job st e err j db)"
    using closes_terminalize [OF assms] by (simp add: closes_def)
  moreover have "\<And>p. p \<in> set (pair_runs (terminalize_job st e err j db)) \<Longrightarrow>
      (p \<in> set (pair_runs db) \<and> \<not> running_attempt j p) \<or>
      ((\<exists>q \<in> set (pair_runs db). p_job q = p_job p) \<and> p_job p = j \<and> p_status p \<noteq> JRunning)"
    using assms by (auto simp: terminalize_job_runs in_update_where_cases terminal_attempt_def running_attempt_def)
  ultimately show ?case
    using Cons.IH [of "terminalize_job st e err j db"] by (fastforce simp: running_attempt_def)
qed

subsection \<open>Scopes\<close>

lemma scope_kinds_refl: "k \<in> set (scope_kinds k)"
  by (simp add: scope_kinds_def)

lemma scope_kinds_sym: "k \<in> set (scope_kinds l) \<Longrightarrow> l \<in> set (scope_kinds k)"
  by (auto simp: scope_kinds_def backup_scope_kinds_def split: if_splits)

lemma running_in_scope_None:
  "running_in_scope k db = None \<longleftrightarrow> (\<forall>r \<in> set (jobs db). is_running r \<longrightarrow> j_kind r \<notin> set (scope_kinds k))"
proof -
  have "(case ys of [] \<Rightarrow> None | r # _ \<Rightarrow> Some r) = None \<longleftrightarrow> ys = []" for ys :: "job_row list"
    by (cases ys) auto
  then show ?thesis
    by (simp add: running_in_scope_def select_where_def filter_empty_conv)
qed

lemma running_in_scope_Some:
  assumes "running_in_scope k db = Some r"
  shows "r \<in> set (jobs db) \<and> is_running r \<and> j_kind r \<in> set (scope_kinds k)"
proof -
  have "(case ys of [] \<Rightarrow> None | x # _ \<Rightarrow> Some x) = Some r \<Longrightarrow> r \<in> set ys" for ys
    by (cases ys) auto
  from this [OF assms [unfolded running_in_scope_def]] show ?thesis by simp
qed

subsection \<open>The invariant\<close>

definition jobs_wf :: "jobs_db \<Rightarrow> bool" where
  "jobs_wf db \<longleftrightarrow>
     distinct (map j_id (jobs db)) \<and>
     (\<forall>r \<in> set (jobs db). j_id r < next_job db)"

definition runs_wf :: "jobs_db \<Rightarrow> bool" where
  "runs_wf db \<longleftrightarrow> keys_distinct db \<and>
     (\<forall>p \<in> set (pair_runs db). \<exists>r \<in> set (jobs db). j_id r = p_job p \<and> (p_status p = JRunning \<longrightarrow> is_running r))"

definition intents_wf :: "jobs_db \<Rightarrow> bool" where
  "intents_wf db \<longleftrightarrow> distinct (map t_job (intents db)) \<and>
     (\<forall>t \<in> set (intents db). t_status t \<noteq> JRunning \<and> t_job t \<in> j_id ` set (jobs db))"

definition store_wf :: "jobs_db \<Rightarrow> bool" where
  "store_wf db \<longleftrightarrow> jobs_wf db \<and> runs_wf db \<and> intents_wf db"

lemma store_wf_empty: "store_wf empty_jobs_db"
  by (simp add: store_wf_def jobs_wf_def runs_wf_def intents_wf_def keys_distinct_def empty_jobs_db_def)

text \<open>An update of the jobs table that keeps ids.\<close>

lemma jobs_wf_update:
  assumes "jobs_wf db" and "jobs db' = update_where P f (jobs db)" and "next_job db' = next_job db"
    and "\<And>r. j_id (f r) = j_id r"
  shows "jobs_wf db'"
proof -
  have "map j_id (jobs db') = map j_id (jobs db)"
    using assms(2,4) by (simp add: map_update_where)
  moreover have "\<forall>r \<in> set (jobs db'). j_id r < next_job db'"
    using assms(1,2,3,4) by (auto simp: jobs_wf_def in_update_where)
  ultimately show ?thesis
    using assms(1) by (simp add: jobs_wf_def)
qed

lemma job_by_id_Some: "job_by_id db j = Some r \<Longrightarrow> r \<in> set (jobs db) \<and> j_id r = j"
  unfolding job_by_id_def by (rule fetch_one_Some)

lemma job_by_id_in:
  "jobs_wf db \<Longrightarrow> r \<in> set (jobs db) \<Longrightarrow> job_by_id db (j_id r) = Some r"
  unfolding job_by_id_def jobs_wf_def by (rule fetch_one_key) auto

lemma jobs_wf_unique:
  "jobs_wf db \<Longrightarrow> a \<in> set (jobs db) \<Longrightarrow> b \<in> set (jobs db) \<Longrightarrow> j_id a = j_id b \<Longrightarrow> a = b"
  by (auto simp: jobs_wf_def distinct_map inj_on_def)

subsection \<open>Every operation keeps the invariant\<close>

text \<open>The step of the jobs table: a job keeps its kind, a closed job keeps its whole row (up to the
  log path), and new rows get fresh ids.\<close>

definition frozen_job :: "job_row \<Rightarrow> job_row" where
  "frozen_job r = r\<lparr>j_log := None\<rparr>"

definition evolves :: "jobs_db \<Rightarrow> jobs_db \<Rightarrow> bool" where
  "evolves db db' \<longleftrightarrow> next_job db \<le> next_job db' \<and>
     (\<forall>r' \<in> set (jobs db'). next_job db \<le> j_id r' \<or>
        (\<exists>r \<in> set (jobs db). j_id r = j_id r' \<and> j_kind r' = j_kind r \<and>
           (\<not> is_running r \<longrightarrow> \<not> is_running r' \<and> frozen_job r' = frozen_job r)))"

lemma evolves_same: "jobs db' = jobs db \<Longrightarrow> next_job db' = next_job db \<Longrightarrow> evolves db db'"
  by (auto simp: evolves_def)

lemma evolves_update:
  assumes "jobs db' = update_where P f (jobs db)" and "next_job db' = next_job db"
    and "\<And>r. j_id (f r) = j_id r" and "\<And>r. j_kind (f r) = j_kind r" and "\<And>r. P r \<Longrightarrow> is_running r"
  shows "evolves db db'"
  using assms(1,2) unfolding evolves_def
  by (auto simp: in_update_where_cases) (metis assms(3-5))+

lemma runs_wf_update:
  assumes wf: "runs_wf db"
    and jobs': "jobs db' = update_where (\<lambda>q. Q q \<and> is_running q) f (jobs db)"
    and ids: "\<And>r. j_id (f r) = j_id r"
    and keys: "keys_distinct db'"
    and old: "\<And>p. p \<in> set (pair_runs db') \<Longrightarrow>
      (p \<in> set (pair_runs db) \<and>
         (\<forall>q \<in> set (jobs db). j_id q = p_job p \<and> Q q \<and> p_status p = JRunning \<longrightarrow> is_running (f q))) \<or>
      (p_job p \<in> j_id ` set (jobs db) \<and> p_status p \<noteq> JRunning)"
  shows "runs_wf db'"
proof -
  have img: "i \<in> j_id ` set (jobs db')" if "i \<in> j_id ` set (jobs db)" for i
  proof -
    have "map j_id (jobs db') = map j_id (jobs db)" using ids by (simp add: jobs' map_update_where)
    then have "j_id ` set (jobs db') = j_id ` set (jobs db)" by (metis set_map)
    with that show ?thesis by simp
  qed
  have "\<exists>r \<in> set (jobs db'). j_id r = p_job p \<and> (p_status p = JRunning \<longrightarrow> is_running r)"
    if p: "p \<in> set (pair_runs db')" for p
    using old [OF p]
  proof
    assume a: "p \<in> set (pair_runs db) \<and>
      (\<forall>q \<in> set (jobs db). j_id q = p_job p \<and> Q q \<and> p_status p = JRunning \<longrightarrow> is_running (f q))"
    with wf obtain r where r: "r \<in> set (jobs db)" "j_id r = p_job p" "p_status p = JRunning \<longrightarrow> is_running r"
      by (auto simp: runs_wf_def)
    show ?thesis
    proof (cases "Q r \<and> is_running r")
      case True
      with r have "f r \<in> set (jobs db')" by (auto simp: jobs' in_update_where_cases)
      moreover from a r True have "p_status p = JRunning \<longrightarrow> is_running (f r)" by blast
      ultimately show ?thesis using r by (intro bexI [of _ "f r"]) (simp_all add: ids)
    next
      case False
      with r have "r \<in> set (jobs db')" by (auto simp: jobs' in_update_where_cases)
      with r show ?thesis by auto
    qed
  next
    assume "p_job p \<in> j_id ` set (jobs db) \<and> p_status p \<noteq> JRunning"
    with img [of "p_job p"] show ?thesis by auto
  qed
  with keys show ?thesis by (simp add: runs_wf_def)
qed

lemma intents_wf_same:
  "intents_wf db \<Longrightarrow> intents db' = intents db \<Longrightarrow> j_id ` set (jobs db) \<subseteq> j_id ` set (jobs db') \<Longrightarrow>
   intents_wf db'"
  by (auto simp: intents_wf_def)

lemma update_ids:
  "(\<And>r. j_id (f r) = j_id r) \<Longrightarrow> j_id ` set (update_where P f t) = j_id ` set t"
  by (metis map_update_where set_map)

lemma finish_row_simps [simp]:
  "j_id (finish_row st now s r) = j_id r" "j_kind (finish_row st now s r) = j_kind r"
  "j_started (finish_row st now s r) = j_started r"
  "is_running (finish_row st now s r) = (st = JRunning)"
  "j_status (finish_row st now s r) = st"
  by (simp_all add: finish_row_def Let_def is_running_def)

lemma stale_row_simps [simp]:
  "j_id (stale_row s now r) = j_id r" "j_kind (stale_row s now r) = j_kind r"
  "\<not> is_running (stale_row s now r)" "j_status (stale_row s now r) = JStale"
  by (simp_all add: stale_row_def is_running_def)

text \<open>The effect of a committed \<open>job_finish\<close>, as the later proofs use it.\<close>

lemma job_finish_cases:
  assumes "job_finish jid st s now db = Inr (db', b)"
  obtains (closed) "db' = db" and "\<not> b" and "\<exists>r. job_by_id db jid = Some r \<and> \<not> is_running r"
  | (settled) status r c where "parse_status st = Some status" and "job_by_id db jid = Some r"
      and "is_running r" and "b" and "c_job c = jid" and "c_status c = status" and "c_kind c = j_kind r"
      and "jobs db' = update_where (\<lambda>q. j_id q = jid \<and> is_running q) (finish_row status now s) (jobs db)"
      and "pair_runs db' = pair_runs (store_pair_results c (db\<lparr>jobs := jobs db'\<rparr>))"
      and "intents db' = intents db" and "items db' = items db" and "batches db' = batches db"
      and "next_job db' = next_job db"
proof -
  from assms obtain status r where st: "parse_status st = Some status" and r: "job_by_id db jid = Some r"
    by (auto simp: job_finish_def split: option.splits)
  show ?thesis
  proof (cases "is_running r")
    case False
    with assms st r have "db' = db" and "\<not> b" by (simp_all add: job_finish_def)
    with False r show ?thesis by (intro closed) auto
  next
    case True
    define c where "c = \<lparr>c_job = jid, c_kind = j_kind r, c_status = status, c_started = j_started r,
      c_ended = now, c_summary = (case s of None \<Rightarrow> [] | Some d \<Rightarrow> d)\<rparr>"
    define js where "js = update_where (\<lambda>q. j_id q = jid \<and> is_running q) (finish_row status now s) (jobs db)"
    from assms st r True obtain ss
      where db': "db' = (store_pair_results c (db\<lparr>jobs := js\<rparr>))\<lparr>sched := ss\<rparr>" and b: "b"
      by (auto simp: job_finish_def Let_def c_def js_def)
    from st r True b show ?thesis
      by (rule settled [of status r c]) (simp_all add: db' c_def js_def)
  qed
qed

lemma closes_jobs [simp]: "closes jid (db\<lparr>jobs := js\<rparr>) db' = closes jid db db'"
  by (simp add: closes_def keys_distinct_def)

lemma store_wf_finish:
  assumes wf: "store_wf db" and fin: "job_finish jid st s now db = Inr (db', b)"
  shows "store_wf db' \<and> evolves db db'"
  using fin
proof (cases rule: job_finish_cases)
  case closed
  with wf show ?thesis by (simp add: evolves_same)
next
  case (settled status r c)
  have cl: "closes jid db (store_pair_results c (db\<lparr>jobs := jobs db'\<rparr>))"
    using closes_store_results [of c "db\<lparr>jobs := jobs db'\<rparr>"] settled(5) by simp
  have "jobs_wf db'"
    by (rule jobs_wf_update [OF _ settled(8) settled(13)]) (use wf in \<open>auto simp: store_wf_def\<close>)
  moreover have "runs_wf db'"
  proof (rule runs_wf_update [OF _ settled(8)])
    show "runs_wf db" using wf by (simp add: store_wf_def)
    show "keys_distinct db'"
      using cl wf by (simp add: closes_def keys_distinct_def settled(9) store_wf_def runs_wf_def)
    fix p assume p: "p \<in> set (pair_runs db')"
    have "jid \<in> j_id ` set (jobs db)" using job_by_id_Some [OF settled(2)] by auto
    moreover have "c_status c = JRunning \<or> \<not> running_attempt jid p"
      using store_results_none_running [of c p "db\<lparr>jobs := jobs db'\<rparr>"] p settled(5,9)
      by (cases "c_status c = JRunning") auto
    ultimately show "(p \<in> set (pair_runs db) \<and>
        (\<forall>q \<in> set (jobs db). j_id q = p_job p \<and> j_id q = jid \<and> p_status p = JRunning \<longrightarrow>
          is_running (finish_row status now s q))) \<or>
      (p_job p \<in> j_id ` set (jobs db) \<and> p_status p \<noteq> JRunning)"
      using cl p settled(6) by (auto simp: closes_def settled(9) running_attempt_def)
  qed simp
  moreover have "intents_wf db'"
    by (rule intents_wf_same [OF _ settled(10)]) (use wf in \<open>auto simp: store_wf_def settled(8) update_ids\<close>)
  moreover have "evolves db db'"
    by (rule evolves_update [OF settled(8) settled(13)]) auto
  ultimately show ?thesis by (simp add: store_wf_def)
qed

lemma store_wf_cong:
  assumes "jobs db' = jobs db" "pair_runs db' = pair_runs db" "intents db' = intents db"
    "next_job db' = next_job db"
  shows "store_wf db' = store_wf db \<and> evolves db db'"
  using assms
  by (simp add: store_wf_def jobs_wf_def runs_wf_def intents_wf_def keys_distinct_def evolves_same)

lemma start_attempt_opens:
  "(keys_distinct db \<longrightarrow> keys_distinct (start_attempt k jid now d db)) \<and>
   (\<forall>p \<in> set (pair_runs (start_attempt k jid now d db)). p \<in> set (pair_runs db) \<or> p_job p = jid)"
proof -
  have "distinct (map pair_key t) \<Longrightarrow> pair_key row = (jid, n) \<Longrightarrow>
      distinct (map pair_key (insert_or_ignore (\<lambda>r. p_job r = jid \<and> p_name r = n) row t))" for t row n
    by (auto simp: insert_or_ignore_def pair_key_conv list_ex_iff)
  then show ?thesis
    by (auto simp: start_attempt_def Let_def keys_distinct_def pair_key_def insert_or_ignore_def
        list_ex_iff)
qed

lemma start_attempts_open:
  "(keys_distinct db \<longrightarrow> keys_distinct (fold (start_attempt k jid now) ds db)) \<and>
   (\<forall>p \<in> set (pair_runs (fold (start_attempt k jid now) ds db)). p \<in> set (pair_runs db) \<or> p_job p = jid)"
proof (induction ds arbitrary: db)
  case (Cons d ds)
  from Cons [of "start_attempt k jid now d db"] start_attempt_opens [of db k jid now d]
  show ?case by auto
qed simp

lemma job_start_effect:
  assumes "job_start a now db = Inr (db', jid)"
  shows "jid = next_job db" and "jobs db' = jobs db @ [new_job a jid now]" and "next_job db' = Suc jid"
    and "intents db' = intents db" and "items db' = items db" and "batches db' = batches db"
    and "pair_runs db' = pair_runs (fold (start_attempt (a_kind a) jid now) (prepared_attempts a)
           (db\<lparr>jobs := jobs db @ [new_job a jid now], next_job := Suc jid\<rparr>))"
    and "a_exclusive a \<Longrightarrow> running_in_scope (a_kind a) db = None"
  using assms
  by (auto simp: job_start_def Let_def split: if_splits option.splits)

lemma new_job_simps [simp]:
  "j_id (new_job a jid now) = jid" "j_kind (new_job a jid now) = a_kind a"
  "is_running (new_job a jid now)" "j_started (new_job a jid now) = now"
  by (simp_all add: new_job_def is_running_def)

lemma store_wf_start:
  assumes wf: "store_wf db" and st: "job_start a now db = Inr (db', jid)"
  shows "store_wf db' \<and> evolves db db'"
proof -
  note eff = job_start_effect [OF st]
  have ids: "\<And>r. r \<in> set (jobs db) \<Longrightarrow> j_id r < jid"
    using wf by (simp add: eff(1) store_wf_def jobs_wf_def)
  have "jid \<notin> j_id ` set (jobs db)" using ids by auto
  then have "distinct (map j_id (jobs db'))" using wf by (simp add: eff(2) store_wf_def jobs_wf_def)
  moreover have "\<forall>r \<in> set (jobs db'). j_id r < next_job db'"
    using ids by (auto simp: eff(2,3) less_Suc_eq)
  ultimately have "jobs_wf db'" by (simp add: jobs_wf_def)
  moreover have "runs_wf db'"
    using wf start_attempts_open [of "db\<lparr>jobs := jobs db @ [new_job a jid now], next_job := Suc jid\<rparr>"
        "a_kind a" jid now "prepared_attempts a"]
    by (auto simp: runs_wf_def store_wf_def eff(2,7) keys_distinct_def)
  moreover have "intents_wf db'"
    by (rule intents_wf_same [OF _ eff(4)]) (use wf in \<open>auto simp: store_wf_def eff(2)\<close>)
  moreover have "evolves db db'"
    by (auto simp: evolves_def eff(1,2,3))
  ultimately show ?thesis by (simp add: store_wf_def)
qed

lemma mark_rows_stale_frame:
  assumes "mark_rows_stale P sm reason now db = (db', n)"
  shows "jobs db' = update_where P (stale_row sm now) (jobs db)"
    and "pair_runs db' = pair_runs (terminalize_running_attempts (map j_id (select_where P (jobs db)))
           JStale now (Some reason) (db\<lparr>jobs := update_where P (stale_row sm now) (jobs db)\<rparr>))"
    and "next_job db' = next_job db" and "intents db' = intents db"
    and "items db' = items db" and "batches db' = batches db"
    and "n = count_where P (jobs db)"
  using assms by (auto simp: mark_rows_stale_def Let_def count_where_def select_where_def)

lemma store_wf_stale:
  assumes wf: "store_wf db" and P: "\<And>r. P r \<Longrightarrow> is_running r"
    and res: "mark_rows_stale P sm reason now db = (db', n)"
  shows "store_wf db' \<and> evolves db db'"
proof -
  note eff = mark_rows_stale_frame [OF res]
  have PQ: "(\<lambda>q. P q \<and> is_running q) = P" using P by auto
  let ?ids = "map j_id (select_where P (jobs db))"
  have runs: "(keys_distinct db \<longrightarrow> keys_distinct db') \<and>
    (\<forall>p \<in> set (pair_runs db').
       (p \<in> set (pair_runs db) \<and> \<not> (p_job p \<in> set ?ids \<and> p_status p = JRunning)) \<or>
       (\<exists>q \<in> set (pair_runs db). p_job q = p_job p) \<and> p_job p \<in> set ?ids \<and> p_status p \<noteq> JRunning)"
    using terminalize_all_runs [of JStale "db\<lparr>jobs := update_where P (stale_row sm now) (jobs db)\<rparr>"
        ?ids now "Some reason"]
    by (simp add: keys_distinct_def eff(2))
  have "jobs_wf db'"
    by (rule jobs_wf_update [OF _ eff(1,3)]) (use wf in \<open>auto simp: store_wf_def\<close>)
  moreover have "runs_wf db'"
  proof (rule runs_wf_update [where Q = P])
    show "runs_wf db" using wf by (simp add: store_wf_def)
    show "jobs db' = update_where (\<lambda>q. P q \<and> is_running q) (stale_row sm now) (jobs db)"
      by (simp add: PQ eff(1))
    show "keys_distinct db'" using runs wf by (simp add: store_wf_def runs_wf_def)
    fix p assume p: "p \<in> set (pair_runs db')"
    from bspec [OF conjunct2 [OF runs] p]
    show "(p \<in> set (pair_runs db) \<and>
        (\<forall>q \<in> set (jobs db). j_id q = p_job p \<and> P q \<and> p_status p = JRunning \<longrightarrow>
          is_running (stale_row sm now q))) \<or>
      (p_job p \<in> j_id ` set (jobs db) \<and> p_status p \<noteq> JRunning)"
    proof
      assume a: "p \<in> set (pair_runs db) \<and> \<not> (p_job p \<in> set ?ids \<and> p_status p = JRunning)"
      have "p_job p \<in> set ?ids" if "q \<in> set (jobs db)" "j_id q = p_job p" "P q" for q
      proof -
        have "j_id q \<in> j_id ` set (select_where P (jobs db))" using that by (intro imageI) simp
        with that(2) show ?thesis by simp
      qed
      with a show ?thesis by blast
    next
      assume "(\<exists>q \<in> set (pair_runs db). p_job q = p_job p) \<and> p_job p \<in> set ?ids \<and> p_status p \<noteq> JRunning"
      then show ?thesis by auto
    qed
  qed simp
  moreover have "intents_wf db'"
    by (rule intents_wf_same [OF _ eff(4)]) (use wf in \<open>auto simp: store_wf_def eff(1) update_ids\<close>)
  moreover have "evolves db db'"
    by (rule evolves_update [OF eff(1,3)]) (auto simp: P)
  ultimately show ?thesis by (simp add: store_wf_def)
qed

lemma store_wf_delete:
  assumes wf: "store_wf db" and res: "delete_jobs P db = (db', n)"
  shows "store_wf db' \<and> evolves db db'"
proof -
  from res have eff: "jobs db' = delete_where P (jobs db)"
    "pair_runs db' = delete_where (\<lambda>p. p_job p \<in> j_id ` {r \<in> set (jobs db). P r}) (pair_runs db)"
    "intents db' = delete_where (\<lambda>t. t_job t \<in> j_id ` {r \<in> set (jobs db). P r}) (intents db)"
    "next_job db' = next_job db"
    by (auto simp: delete_jobs_def Let_def select_where_def)
  have "jobs_wf db'"
    using wf by (auto simp: jobs_wf_def store_wf_def eff(1,4) distinct_delete_where)
  moreover have "runs_wf db'"
  proof -
    have "\<exists>r \<in> set (jobs db'). j_id r = p_job p \<and> (p_status p = JRunning \<longrightarrow> is_running r)"
      if "p \<in> set (pair_runs db')" for p
    proof -
      from that have p: "p \<in> set (pair_runs db)" "p_job p \<notin> j_id ` {r \<in> set (jobs db). P r}"
        by (simp_all add: eff(2))
      with wf obtain r where r: "r \<in> set (jobs db)" "j_id r = p_job p" "p_status p = JRunning \<longrightarrow> is_running r"
        by (auto simp: store_wf_def runs_wf_def)
      with p(2) have "\<not> P r" by (auto simp: image_iff)
      with r show ?thesis by (auto simp: eff(1))
    qed
    with wf show ?thesis
      by (simp add: runs_wf_def store_wf_def keys_distinct_def eff(2) distinct_delete_where)
  qed
  moreover have "intents_wf db'"
  proof -
    have "t_status t \<noteq> JRunning \<and> t_job t \<in> j_id ` set (jobs db')" if "t \<in> set (intents db')" for t
    proof -
      from that have t: "t \<in> set (intents db)" "t_job t \<notin> j_id ` {r \<in> set (jobs db). P r}"
        by (simp_all add: eff(3))
      with wf obtain r where r: "r \<in> set (jobs db)" "t_job t = j_id r" "t_status t \<noteq> JRunning"
        by (auto simp: store_wf_def intents_wf_def)
      with t(2) have "\<not> P r" by auto
      with r show ?thesis by (auto simp: eff(1))
    qed
    with wf show ?thesis
      by (simp add: intents_wf_def store_wf_def eff(3) distinct_delete_where)
  qed
  moreover have "evolves db db'"
    by (auto simp: evolves_def eff(1,4))
  ultimately show ?thesis by (simp add: store_wf_def)
qed

end
