(* ===== verification/Job_Machine.thy ===== *)
theory Job_Machine
  imports Job_Invariants
begin

text \<open>
  The committed transactions of the job store as one step relation, the proof that each keeps the
  invariant of \<open>Job_Invariants\<close>, and the contract \<open>final_rows\<close> on the jobs table.
\<close>

subsection \<open>The remaining operations\<close>

lemma store_wf_log:
  assumes wf: "store_wf db"
  shows "store_wf (job_set_log_file jid path db) \<and> evolves db (job_set_log_file jid path db)"
proof -
  let ?db = "job_set_log_file jid path db"
  have eff: "jobs ?db = update_where (\<lambda>r. j_id r = jid) (\<lambda>r. r\<lparr>j_log := Some path\<rparr>) (jobs db)"
    "pair_runs ?db = pair_runs db" "intents ?db = intents db" "next_job ?db = next_job db"
    by (simp_all add: job_set_log_file_def)
  have run: "is_running (r\<lparr>j_log := l\<rparr>) = is_running r" for r :: job_row and l
    by (simp add: is_running_def)
  have "jobs_wf ?db"
    by (rule jobs_wf_update [OF _ eff(1,4)]) (use wf in \<open>auto simp: store_wf_def run\<close>)
  moreover have "runs_wf ?db"
  proof -
    have "\<exists>r \<in> set (jobs ?db). j_id r = p_job p \<and> (p_status p = JRunning \<longrightarrow> is_running r)"
      if "p \<in> set (pair_runs db)" for p
    proof -
      from that wf obtain r where "r \<in> set (jobs db)" "j_id r = p_job p"
        "p_status p = JRunning \<longrightarrow> is_running r"
        by (auto simp: runs_wf_def store_wf_def)
      then show ?thesis
        by (intro bexI [of _ "if j_id r = jid then r\<lparr>j_log := Some path\<rparr> else r"])
          (auto simp: eff(1) in_update_where_cases run)
    qed
    with wf show ?thesis
      by (simp add: runs_wf_def store_wf_def keys_distinct_def eff(2))
  qed
  moreover have "intents_wf ?db"
    by (rule intents_wf_same [OF _ eff(3)]) (use wf in \<open>auto simp: store_wf_def eff(1) update_ids\<close>)
  moreover have "evolves db ?db"
  proof -
    have "\<exists>q \<in> set (jobs db). j_id q = j_id r \<and> j_kind r = j_kind q \<and>
        (\<not> is_running q \<longrightarrow> \<not> is_running r \<and> frozen_job r = frozen_job q)"
      if r: "r \<in> set (jobs ?db)" for r
    proof -
      from r obtain q where "q \<in> set (jobs db)" "r = (if j_id q = jid then q\<lparr>j_log := Some path\<rparr> else q)"
        by (auto simp: eff(1) in_update_where)
      then show ?thesis by (intro bexI [of _ q]) (simp_all add: run frozen_job_def)
    qed
    then show ?thesis by (simp add: evolves_def eff(4))
  qed
  ultimately show ?thesis by (simp add: store_wf_def)
qed

lemma stage_effect:
  assumes "job_terminal_stage jid st s now db = Inr db'"
  obtains status new its t where "parse_status st = Some status" "status \<noteq> JRunning"
    "job_by_id db jid \<noteq> None" "t_job new = jid" "t_status new = status" "t_applied new = None"
    "t_summary new = intent_payload s"
    "its = insert_or_ignore (\<lambda>t. t_job t = jid) new (intents db)"
    "fetch_one (\<lambda>t. t_job t = jid) its = Some t" "t_status t = status" "t_summary t = intent_payload s"
    "db' = db\<lparr>intents := update_where (\<lambda>t. t_job t = jid) (\<lambda>t. t\<lparr>t_updated := now\<rparr>) its\<rparr>"
proof -
  from assms obtain status where s: "parse_status st = Some status" "status \<noteq> JRunning"
    "job_by_id db jid \<noteq> None"
    by (auto simp: job_terminal_stage_def split: option.splits if_splits)
  define new where "new = \<lparr>t_job = jid, t_status = status, t_summary = intent_payload s,
    t_created = now, t_updated = now, t_applied = None\<rparr>"
  define its where "its = insert_or_ignore (\<lambda>t. t_job t = jid) new (intents db)"
  from assms s obtain t where "fetch_one (\<lambda>t. t_job t = jid) its = Some t" "t_status t = status"
    "t_summary t = intent_payload s"
    "db' = db\<lparr>intents := update_where (\<lambda>t. t_job t = jid) (\<lambda>t. t\<lparr>t_updated := now\<rparr>) its\<rparr>"
    by (auto simp: job_terminal_stage_def Let_def its_def new_def split: option.splits if_splits)
  with s show ?thesis
    by (intro that [of status new its t]) (simp_all add: new_def its_def)
qed

lemma store_wf_stage:
  assumes wf: "store_wf db" and st: "job_terminal_stage jid st s now db = Inr db'"
  shows "store_wf db' \<and> evolves db db'"
  using st
proof (rule stage_effect)
  fix status new its t
  assume a: "status \<noteq> JRunning" "job_by_id db jid \<noteq> None" "t_job new = jid" "t_status new = status"
    "its = insert_or_ignore (\<lambda>t. t_job t = jid) new (intents db)"
    "db' = db\<lparr>intents := update_where (\<lambda>t. t_job t = jid) (\<lambda>t. t\<lparr>t_updated := now\<rparr>) its\<rparr>"
  have "jid \<in> j_id ` set (jobs db)" using a(2) job_by_id_Some by blast
  with a(1,3,4) wf have its: "t_status u \<noteq> JRunning \<and> t_job u \<in> j_id ` set (jobs db)" if "u \<in> set its" for u
    using that by (auto simp: a(5) insert_or_ignore_def store_wf_def intents_wf_def split: if_splits)
  have "distinct (map t_job its)"
    using wf a(3) by (auto simp: a(5) insert_or_ignore_def store_wf_def intents_wf_def list_ex_iff)
  with its have "intents_wf db'"
    by (auto simp: intents_wf_def a(6) map_update_where in_update_where_cases)
  with wf show ?thesis
    by (simp add: store_wf_def a(6) jobs_wf_def runs_wf_def keys_distinct_def evolves_same)
qed

lemma store_wf_mark:
  assumes "store_wf db"
  shows "store_wf (apply_mark jid now db) \<and> evolves db (apply_mark jid now db)"
proof -
  have "intents_wf (apply_mark jid now db)"
    using assms by (auto simp: store_wf_def intents_wf_def apply_mark_def map_update_where in_update_where_cases)
  with assms show ?thesis
    by (simp add: store_wf_def jobs_wf_def runs_wf_def keys_distinct_def evolves_same apply_mark_def)
qed

lemma apply_finish_effect:
  assumes "apply_finish jid now db = Inr (db', b)"
  obtains t where "intent_of db jid = Some t"
    "\<exists>c. job_finish jid (status_text (t_status t)) (Some (as_dict (t_summary t))) now db = Inr (db', c)"
proof -
  from assms obtain t where t: "intent_of db jid = Some t"
    by (auto simp: apply_finish_def split: option.splits)
  with assms have "\<exists>c. job_finish jid (status_text (t_status t)) (Some (as_dict (t_summary t))) now db = Inr (db', c)"
    by (auto simp: apply_finish_def split: sum.splits if_splits)
  with t show ?thesis by (rule that)
qed

lemma store_wf_apply_finish:
  "store_wf db \<Longrightarrow> apply_finish jid now db = Inr (db', b) \<Longrightarrow> store_wf db' \<and> evolves db db'"
  by (erule apply_finish_effect) (auto dest: store_wf_finish)

lemma batch_frames:
  "job_batch_create bid specs sn rv dry fj now db = Inr (db1, b1) \<Longrightarrow>
     jobs db1 = jobs db \<and> pair_runs db1 = pair_runs db \<and> intents db1 = intents db \<and> next_job db1 = next_job db"
  "job_batch_item_finish bid pos st err now db = Inr (db2, b2) \<Longrightarrow>
     jobs db2 = jobs db \<and> pair_runs db2 = pair_runs db \<and> intents db2 = intents db \<and> next_job db2 = next_job db"
  "job_batch_item_start bid pos jid now db = Inr (db3, b3) \<Longrightarrow>
     jobs db3 = jobs db \<and> pair_runs db3 = pair_runs db \<and> intents db3 = intents db \<and> next_job db3 = next_job db"
  "jobs (fst (job_batch_request_cancel now db)) = jobs db \<and>
   pair_runs (fst (job_batch_request_cancel now db)) = pair_runs db \<and>
   intents (fst (job_batch_request_cancel now db)) = intents db \<and>
   next_job (fst (job_batch_request_cancel now db)) = next_job db"
  "jobs (fst (job_batch_recover bid now db)) = jobs db \<and>
   pair_runs (fst (job_batch_recover bid now db)) = pair_runs db \<and>
   intents (fst (job_batch_recover bid now db)) = intents db \<and>
   next_job (fst (job_batch_recover bid now db)) = next_job db"
  by (auto simp: job_batch_create_def job_batch_item_finish_def job_batch_item_start_def
      job_batch_request_cancel_def job_batch_recover_def complete_batch_def Let_def
      split: if_splits option.splits)

lemma store_wf_batch:
  "store_wf db \<Longrightarrow> job_batch_create bid specs sn rv dry fj now db = Inr (db1, b1) \<Longrightarrow>
     store_wf db1 \<and> evolves db db1"
  "store_wf db \<Longrightarrow> job_batch_item_finish bid pos st err now db = Inr (db1, b2) \<Longrightarrow>
     store_wf db1 \<and> evolves db db1"
  "store_wf db \<Longrightarrow> job_batch_item_start bid pos jid now db = Inr (db1, b3) \<Longrightarrow>
     store_wf db1 \<and> evolves db db1"
  "store_wf db \<Longrightarrow> store_wf (fst (job_batch_request_cancel now db)) \<and>
     evolves db (fst (job_batch_request_cancel now db))"
  "store_wf db \<Longrightarrow> store_wf (fst (job_batch_recover bid now db)) \<and>
     evolves db (fst (job_batch_recover bid now db))"
  using store_wf_cong [of db1 db] batch_frames(1) [of bid specs sn rv dry fj now db db1 b1]
    batch_frames(2) [of bid pos st err now db db1 b2]
    batch_frames(3) [of bid pos jid now db db1 b3]
    store_wf_cong [of "fst (job_batch_request_cancel now db)" db] batch_frames(4)
    store_wf_cong [of "fst (job_batch_recover bid now db)" db] batch_frames(5)
  by blast+

subsection \<open>The step relation\<close>

text \<open>One rule per committed transaction. An operation that raises commits nothing and is not a step.
  The relation takes the starts it admits as a parameter: \<open>job_step\<close> admits every start, with or
  without \<open>exclusive_scope\<close>; a property that speaks of a restricted use of the store names the
  restriction in its statement.\<close>

inductive job_step_by :: "(start_args \<Rightarrow> bool) \<Rightarrow> jobs_db \<Rightarrow> jobs_db \<Rightarrow> bool"
  for starts :: "start_args \<Rightarrow> bool" where
  step_start: "starts a \<Longrightarrow> job_start a now db = Inr (db', jid) \<Longrightarrow> job_step_by starts db db'"
| step_finish: "job_finish jid st s now db = Inr (db', b) \<Longrightarrow> job_step_by starts db db'"
| step_stale: "job_mark_stale jid reason now db = (db', b) \<Longrightarrow> job_step_by starts db db'"
| step_all_stale: "jobs_mark_all_running_stale kinds reason now db = (db', n) \<Longrightarrow> job_step_by starts db db'"
| step_old_stale: "jobs_mark_stale age kind reason now0 now db = (db', n) \<Longrightarrow> job_step_by starts db db'"
| step_log: "job_step_by starts db (job_set_log_file jid path db)"
| step_delete_failed: "jobs_delete_failed db = (db', n) \<Longrightarrow> job_step_by starts db db'"
| step_prune: "jobs_prune days keep now db = (db', n) \<Longrightarrow> job_step_by starts db db'"
| step_stage: "job_terminal_stage jid st s now db = Inr db' \<Longrightarrow> job_step_by starts db db'"
| step_apply: "apply_finish jid now db = Inr (db', b) \<Longrightarrow> job_step_by starts db db'"
| step_mark: "job_step_by starts db (apply_mark jid now db)"
| step_batch_create:
    "job_batch_create bid specs sn rv dry fj now db = Inr (db', x) \<Longrightarrow> job_step_by starts db db'"
| step_item_start: "job_batch_item_start bid pos jid now db = Inr (db', b) \<Longrightarrow> job_step_by starts db db'"
| step_item_finish: "job_batch_item_finish bid pos ist err now db = Inr (db', b) \<Longrightarrow> job_step_by starts db db'"
| step_cancel: "job_step_by starts db (fst (job_batch_request_cancel now db))"
| step_recover: "job_step_by starts db (fst (job_batch_recover bid now db))"

abbreviation job_step :: "jobs_db \<Rightarrow> jobs_db \<Rightarrow> bool" where
  "job_step \<equiv> job_step_by (\<lambda>_. True)"

abbreviation job_steps :: "jobs_db \<Rightarrow> jobs_db \<Rightarrow> bool" where
  "job_steps \<equiv> job_step\<^sup>*\<^sup>*"

definition reachable_store :: "jobs_db \<Rightarrow> bool" where
  "reachable_store db \<longleftrightarrow> job_steps empty_jobs_db db"

lemma step_store_wf: "job_step_by starts db db' \<Longrightarrow> store_wf db \<Longrightarrow> store_wf db' \<and> evolves db db'"
proof (induction rule: job_step_by.induct)
  case (step_stale jid reason now db db' b)
  then show ?case
    using store_wf_stale [where P = "\<lambda>r. j_id r = jid \<and> is_running r"]
    by (auto simp: job_mark_stale_def Let_def prod_eq_iff)
next
  case (step_all_stale kinds reason now db db' n)
  then show ?case
    unfolding jobs_mark_all_running_stale_def Let_def by (intro store_wf_stale) auto
next
  case (step_old_stale age kind reason now0 now db db' n)
  then show ?case
    unfolding jobs_mark_stale_def Let_def by (intro store_wf_stale) auto
next
  case (step_delete_failed db db' n)
  then show ?case
    unfolding jobs_delete_failed_def by (intro store_wf_delete)
next
  case (step_prune days keep now db db' n)
  then show ?case
    unfolding jobs_prune_def Let_def by (intro store_wf_delete)
next
  case (step_start a now db db' jid)
  then show ?case by (intro store_wf_start)
next
  case (step_finish jid st s now db db' b)
  then show ?case by (intro store_wf_finish)
next
  case (step_stage jid st s now db db')
  then show ?case by (intro store_wf_stage)
next
  case (step_apply jid now db db' b)
  then show ?case by (intro store_wf_apply_finish)
next
  case (step_batch_create bid specs sn rv dry fj now db db' x)
  then show ?case by (intro store_wf_batch(1))
next
  case (step_item_finish bid pos ist err now db db' b)
  then show ?case by (intro store_wf_batch(2))
qed (assumption | rule store_wf_log store_wf_mark store_wf_batch(4,5) | erule (1) store_wf_batch(3))+

text \<open>A step either is a start or uses no new id; so a running row it leaves behind was running
  before, under the same id and kind.\<close>

lemma step_ids:
  assumes "job_step_by starts db db'"
  shows "(\<exists>a now jid. starts a \<and> job_start a now db = Inr (db', jid)) \<or> next_job db' = next_job db"
  using assms
proof (cases rule: job_step_by.cases)
  case (step_finish jid st s now b)
  then show ?thesis by (auto elim: job_finish_cases)
next
  case (step_apply jid now b)
  then show ?thesis by (auto elim!: apply_finish_effect elim: job_finish_cases)
next
  case (step_stage jid st s now)
  then show ?thesis by (auto elim: stage_effect)
next
  case (step_stale jid reason now b)
  then show ?thesis
    by (auto simp: job_mark_stale_def Let_def prod_eq_iff mark_rows_stale_frame(3) [OF prod.collapse [symmetric]])
next
  case (step_all_stale kinds reason now n)
  then show ?thesis
    unfolding jobs_mark_all_running_stale_def Let_def by (intro disjI2 mark_rows_stale_frame(3))
next
  case (step_old_stale age kind reason now0 now n)
  then show ?thesis
    unfolding jobs_mark_stale_def Let_def by (intro disjI2 mark_rows_stale_frame(3))
next
  case (step_delete_failed n)
  then show ?thesis by (auto simp: jobs_delete_failed_def delete_jobs_def Let_def)
next
  case (step_prune days keep now n)
  then show ?thesis by (auto simp: jobs_prune_def delete_jobs_def Let_def)
next
  case (step_batch_create bid specs sn rv dry fj now x)
  then show ?thesis using batch_frames(1) by blast
next
  case (step_item_start bid pos jid now b)
  then show ?thesis using batch_frames(3) by blast
next
  case (step_item_finish bid pos ist err now b)
  then show ?thesis using batch_frames(2) by blast
qed (auto simp: job_set_log_file_def apply_mark_def batch_frames(4,5))

lemma running_before:
  assumes "store_wf db" and "job_step_by starts db db'" and "next_job db' = next_job db"
    and "r \<in> set (jobs db')" and "is_running r"
  obtains q where "q \<in> set (jobs db)" "is_running q" "j_id q = j_id r" "j_kind q = j_kind r"
proof -
  have "store_wf db'" "evolves db db'" using step_store_wf [OF assms(2,1)] by simp_all
  then have "j_id r < next_job db" using assms(3,4) by (auto simp: store_wf_def jobs_wf_def)
  with \<open>evolves db db'\<close> assms(4,5) show thesis by (fastforce simp: evolves_def intro: that)
qed

text \<open>At most one running row in the exclusive scope of a kind, and the steps that keep it so: starts
  of kinds of that scope have to be exclusive, all others are free.\<close>

definition sole_in_scope :: "string \<Rightarrow> jobs_db \<Rightarrow> bool" where
  "sole_in_scope k db \<longleftrightarrow> (\<forall>x \<in> set (jobs db). \<forall>y \<in> set (jobs db).
     is_running x \<and> is_running y \<and> j_kind x \<in> set (scope_kinds k) \<and> j_kind y \<in> set (scope_kinds k) \<longrightarrow> x = y)"

abbreviation scope_step :: "string \<Rightarrow> jobs_db \<Rightarrow> jobs_db \<Rightarrow> bool" where
  "scope_step k \<equiv> job_step_by (\<lambda>b. a_exclusive b \<or> a_kind b \<notin> set (scope_kinds k))"

lemma scope_kinds_trans:
  "a \<in> set (scope_kinds k) \<Longrightarrow> b \<in> set (scope_kinds k) \<Longrightarrow> a \<in> set (scope_kinds b)"
  by (auto simp: scope_kinds_def backup_scope_kinds_def split: if_splits)

lemma exclusive_start_alone:
  assumes "job_start a now db = Inr (db', jid)" and "a_exclusive a"
  shows "sole_in_scope (a_kind a) db'"
  using job_start_effect(2,8) [OF assms(1)] assms(2)
  by (auto simp: sole_in_scope_def running_in_scope_None)

lemma sole_step:
  assumes step: "scope_step k db db'" and wf: "store_wf db" and sole: "sole_in_scope k db"
  shows "sole_in_scope k db'"
  using step_ids [OF step]
proof (elim disjE exE conjE)
  fix a now jid
  assume a: "job_start a now db = Inr (db', jid)" "a_exclusive a"
  have "set (scope_kinds (a_kind a)) = set (scope_kinds k)" if "a_kind a \<in> set (scope_kinds k)"
    using that scope_kinds_trans scope_kinds_sym by blast
  moreover have "sole_in_scope k db'" if "a_kind a \<notin> set (scope_kinds k)"
    using job_start_effect(2) [OF a(1)] sole that by (auto simp: sole_in_scope_def)
  ultimately show ?thesis using exclusive_start_alone [OF a] unfolding sole_in_scope_def by metis
next
  fix a now jid
  assume a: "job_start a now db = Inr (db', jid)" "a_kind a \<notin> set (scope_kinds k)"
  then show ?thesis using job_start_effect(2) [OF a(1)] sole by (auto simp: sole_in_scope_def)
next
  assume same: "next_job db' = next_job db"
  show ?thesis
    unfolding sole_in_scope_def
  proof (intro ballI impI, elim conjE)
    fix x y assume xy: "x \<in> set (jobs db')" "y \<in> set (jobs db')" "is_running x" "is_running y"
      and k: "j_kind x \<in> set (scope_kinds k)" "j_kind y \<in> set (scope_kinds k)"
    obtain p where p: "p \<in> set (jobs db)" "is_running p" "j_id p = j_id x" "j_kind p = j_kind x"
      by (rule running_before [OF wf step same xy(1,3)])
    obtain q where q: "q \<in> set (jobs db)" "is_running q" "j_id q = j_id y" "j_kind q = j_kind y"
      by (rule running_before [OF wf step same xy(2,4)])
    have "p = q" using sole p q k by (auto simp: sole_in_scope_def)
    with p q have "j_id x = j_id y" by simp
    then show "x = y"
      using jobs_wf_unique xy(1,2) step_store_wf [OF step wf] by (auto simp: store_wf_def)
  qed
qed

lemma sole_steps:
  assumes "(scope_step k)\<^sup>*\<^sup>* db db'" and "store_wf db" and "sole_in_scope k db"
  shows "sole_in_scope k db' \<and> store_wf db'"
  using assms by (induction rule: rtranclp_induct) (auto dest: sole_step step_store_wf)

interpretation job_rows: final_rows jobs j_id "\<lambda>db k. k < next_job db" "\<lambda>r. \<not> is_running r"
  frozen_job "job_step_by starts" store_wf for starts
proof unfold_locales
  fix s t k assume "store_wf s" "job_step_by starts s t" "k < next_job s"
  then show "k < next_job t"
    using step_store_wf [of starts s t] by (simp add: evolves_def)
next
  fix s t r assume "store_wf s" "job_step_by starts s t" "r \<in> set (jobs t)" "j_id r < next_job s"
  then show "\<exists>q \<in> set (jobs s). j_id q = j_id r"
    using step_store_wf [of starts s t] by (fastforce simp: evolves_def)
next
  fix s t q r assume a: "store_wf s" "job_step_by starts s t" "q \<in> set (jobs s)" "\<not> is_running q"
    "r \<in> set (jobs t)" "j_id r = j_id q"
  have "j_id q < next_job s" using a(1,3) by (simp add: store_wf_def jobs_wf_def)
  moreover have "evolves s t" using step_store_wf a(1,2) by blast
  ultimately obtain p where "p \<in> set (jobs s)" "j_id p = j_id r"
    "\<not> is_running p \<longrightarrow> \<not> is_running r \<and> frozen_job r = frozen_job p"
    using a(5,6) by (fastforce simp: evolves_def)
  moreover from this have "p = q" using a(1,3,6) jobs_wf_unique by (auto simp: store_wf_def)
  ultimately show "\<not> is_running r \<and> frozen_job r = frozen_job q" using a(4) by simp
qed (auto simp: store_wf_def jobs_wf_def dest: step_store_wf)

lemma reachable_wf: "reachable_store db \<Longrightarrow> store_wf db"
  unfolding reachable_store_def by (erule job_rows.steps_ok) (rule store_wf_empty)

end
