(* ===== verification/Job_Properties.thy ===== *)
theory Job_Properties
  imports Job_Machine
begin

text \<open>
  What the job store promises: exclusive scopes, results that are final, attempts that end with
  their job, and external outcomes that survive a crash between their two transactions.
\<close>

subsection \<open>The effect of one finish\<close>

definition status_of :: "jobs_db \<Rightarrow> nat \<Rightarrow> job_status option" where
  "status_of db jid = map_option j_status (job_by_id db jid)"

lemma fetch_job_update:
  assumes "\<And>r. j_id (f r) = j_id r"
  shows "fetch_one (\<lambda>q. j_id q = k) (update_where (\<lambda>q. j_id q = jid \<and> P q) f t) =
    (case fetch_one (\<lambda>q. j_id q = k) t of None \<Rightarrow> None
     | Some r \<Rightarrow> Some (if j_id r = jid \<and> P r then f r else r))"
  by (rule fetch_one_update_key [where a = jid]) (auto simp: assms)

lemma job_by_id_finish:
  assumes "jobs db' = update_where (\<lambda>q. j_id q = jid \<and> is_running q) (finish_row st now s) (jobs db)"
    and "job_by_id db jid = Some r" and "is_running r"
  shows "job_by_id db' jid = Some (finish_row st now s r)"
    and "k \<noteq> jid \<Longrightarrow> job_by_id db' k = job_by_id db k"
proof -
  have u: "job_by_id db' k = (case job_by_id db k of None \<Rightarrow> None
     | Some r \<Rightarrow> Some (if j_id r = jid \<and> is_running r then finish_row st now s r else r))" for k
    unfolding job_by_id_def assms(1) by (rule fetch_job_update) simp
  show "job_by_id db' jid = Some (finish_row st now s r)"
    using assms job_by_id_Some [OF assms(2)] by (simp add: u)
  show "job_by_id db' k = job_by_id db k" if "k \<noteq> jid"
    using that job_by_id_Some [of db k] by (auto simp: u split: option.splits)
qed

lemma job_finish_running:
  assumes "parse_status st = Some status" and "job_by_id db jid = Some r" and "is_running r"
  obtains db' where "job_finish jid st s now db = Inr (db', True)"
proof -
  from assms show thesis by (intro that) (simp add: job_finish_def Let_def)
qed

lemma finish_intents: "job_finish jid st s now db = Inr (db', b) \<Longrightarrow> intents db' = intents db"
  by (erule job_finish_cases) simp_all

lemma finish_other_job:
  "job_finish jid st s now db = Inr (db', b) \<Longrightarrow> k \<noteq> jid \<Longrightarrow> job_by_id db' k = job_by_id db k"
  by (erule job_finish_cases) (simp_all add: job_by_id_finish(2))

lemma finish_sets:
  assumes "job_finish jid st s now db = Inr (db', True)" and "parse_status st = Some status"
  shows "\<exists>r. job_by_id db jid = Some r \<and> is_running r \<and> job_by_id db' jid = Some (finish_row status now s r)"
  using assms(1)
proof (cases rule: job_finish_cases)
  case (settled stat r c)
  then show ?thesis using job_by_id_finish(1) [OF settled(8) settled(2,3)] assms(2) by simp
qed simp

lemma finish_closes_attempts:
  assumes "job_finish jid st s now db = Inr (db', True)" and "parse_status st = Some status"
    and "status \<noteq> JRunning" and "p \<in> set (pair_runs db')" and "p_job p = jid"
  shows "p_status p \<noteq> JRunning"
  using assms(1)
proof (cases rule: job_finish_cases)
  case (settled stat r c)
  then show ?thesis
    using store_results_none_running [of c p "db\<lparr>jobs := jobs db'\<rparr>"] assms(2-5)
    by (simp add: running_attempt_def)
qed simp

lemma finish_other_attempts:
  assumes "job_finish jid st s now db = Inr (db', b)" and "p \<in> set (pair_runs db')" and "p_job p \<noteq> jid"
  shows "p \<in> set (pair_runs db)"
  using assms(1)
proof (cases rule: job_finish_cases)
  case (settled stat r c)
  then show ?thesis
    using closes_store_results [of c "db\<lparr>jobs := jobs db'\<rparr>"] assms(2,3) by (auto simp: closes_def)
qed (use assms in simp)

lemma finish_again: "job_finish jid st s now db = Inr (db', False) \<Longrightarrow> db' = db"
  by (erule job_finish_cases) simp_all

subsection \<open>Staged outcomes\<close>

definition staged :: "jobs_db \<Rightarrow> nat \<Rightarrow> job_status \<Rightarrow> pyval \<Rightarrow> bool" where
  "staged db jid status payload \<longleftrightarrow>
     (\<exists>t. intent_of db jid = Some t \<and> t_status t = status \<and> t_summary t = payload)"

lemma intent_update:
  assumes "\<And>t. t_job (f t) = t_job t"
  shows "fetch_one (\<lambda>t. t_job t = k) (update_where (\<lambda>t. t_job t = jid) f ts) =
    (if k = jid then map_option f (fetch_one (\<lambda>t. t_job t = k) ts) else fetch_one (\<lambda>t. t_job t = k) ts)"
proof -
  have "fetch_one (\<lambda>t. t_job t = k) (update_where (\<lambda>t. t_job t = jid) f ts) =
    (case fetch_one (\<lambda>t. t_job t = k) ts of None \<Rightarrow> None | Some t \<Rightarrow> Some (if t_job t = jid then f t else t))"
    by (rule fetch_one_update_key [where a = jid]) (simp_all add: assms)
  then show ?thesis by (auto split: option.splits dest: fetch_one_Some)
qed

lemma stage_ok:
  assumes "parse_status st = Some status" and "status \<noteq> JRunning" and "job_by_id db jid \<noteq> None"
    and "intent_of db jid = None \<or> staged db jid status (intent_payload s)"
  obtains db' where "job_terminal_stage jid st s now db = Inr db'" and "jobs db' = jobs db"
    and "staged db' jid status (intent_payload s)"
proof -
  define new where "new = \<lparr>t_job = jid, t_status = status, t_summary = intent_payload s,
    t_created = now, t_updated = now, t_applied = None\<rparr>"
  define its where "its = insert_or_ignore (\<lambda>t. t_job t = jid) new (intents db)"
  have "\<exists>t. fetch_one (\<lambda>t. t_job t = jid) its = Some t \<and> t_status t = status \<and> t_summary t = intent_payload s"
  proof (cases "intent_of db jid")
    case None
    then have "\<not> list_ex (\<lambda>t. t_job t = jid) (intents db)"
      by (auto simp: intent_of_def fetch_one_None list_ex_iff)
    then have "its = intents db @ [new]" by (simp add: its_def insert_or_ignore_def)
    with None show ?thesis by (simp add: fetch_one_append intent_of_def new_def)
  next
    case (Some t)
    then have "list_ex (\<lambda>t. t_job t = jid) (intents db)"
      by (auto simp: intent_of_def list_ex_iff dest: fetch_one_Some)
    then have "its = intents db" by (simp add: its_def insert_or_ignore_def)
    with Some assms(4) show ?thesis by (auto simp: staged_def intent_of_def)
  qed
  then obtain t where t: "fetch_one (\<lambda>t. t_job t = jid) its = Some t" "t_status t = status"
    "t_summary t = intent_payload s" by blast
  let ?db = "db\<lparr>intents := update_where (\<lambda>t. t_job t = jid) (\<lambda>t. t\<lparr>t_updated := now\<rparr>) its\<rparr>"
  show thesis
  proof (rule that)
    show "job_terminal_stage jid st s now db = Inr ?db"
      using assms(1-3) t unfolding its_def new_def job_terminal_stage_def by (simp add: Let_def)
    show "staged ?db jid status (intent_payload s)"
      using t by (simp add: staged_def intent_of_def intent_update)
  qed simp
qed

lemma stage_differs:
  assumes "parse_status st = Some status" and "intent_of db jid = Some t"
    and "t_status t \<noteq> status \<or> t_summary t \<noteq> intent_payload s"
  shows "\<exists>e. job_terminal_stage jid st s now db = Inl e"
proof -
  from assms(2) have "list_ex (\<lambda>t. t_job t = jid) (intents db)"
    by (auto simp: intent_of_def list_ex_iff dest: fetch_one_Some)
  with assms show ?thesis
    by (auto simp: job_terminal_stage_def Let_def insert_or_ignore_def intent_of_def)
qed

subsection \<open>Applying an outcome\<close>

lemma apply_finish_ok:
  assumes "store_wf db" and "intent_of db jid = Some t" and "job_by_id db jid = Some r"
    and "is_running r \<or> j_status r = t_status t"
  obtains db' where "apply_finish jid now db = Inr (db', True)" and "intents db' = intents db"
    and "status_of db' jid = Some (t_status t)"
proof -
  have nr: "t_status t \<noteq> JRunning"
    using assms(1,2) by (auto simp: store_wf_def intents_wf_def intent_of_def dest: fetch_one_Some)
  show thesis
  proof (cases "is_running r")
    case True
    obtain db' where f: "job_finish jid (status_text (t_status t)) (Some (as_dict (t_summary t))) now db = Inr (db', True)"
      using job_finish_running [OF parse_status_text assms(3) True] by metis
    from finish_sets [OF f parse_status_text]
    have s: "status_of db' jid = Some (t_status t)" by (auto simp: status_of_def)
    with f finish_intents [OF f] assms(2) show thesis
      by (intro that [of db']) (simp_all add: apply_finish_def)
  next
    case False
    with assms(3) have f: "job_finish jid (status_text (t_status t)) (Some (as_dict (t_summary t))) now db = Inr (db, False)"
      by (simp add: job_finish_def)
    have st: "status_of db jid = Some (t_status t)"
      using assms(3,4) False by (simp add: status_of_def)
    have "apply_finish jid now db = Inr (db, True)"
      unfolding apply_finish_def status_of_def [symmetric] by (simp add: assms(2) f st)
    with st show thesis by (intro that [of db]) simp_all
  qed
qed

lemma apply_finish_frame:
  assumes "apply_finish jid now db = Inr (db', b)"
  shows "intents db' = intents db" and "k \<noteq> jid \<Longrightarrow> job_by_id db' k = job_by_id db k" and "b"
    and "\<exists>t. intent_of db jid = Some t \<and> status_of db' jid = Some (t_status t)"
proof -
  from assms obtain t where t: "intent_of db jid = Some t"
    by (auto simp: apply_finish_def split: option.splits)
  let ?fin = "job_finish jid (status_text (t_status t)) (Some (as_dict (t_summary t))) now db"
  have "\<exists>c. ?fin = Inr (db', c) \<and> (c \<or> status_of db' jid = Some (t_status t)) \<and>
      b = (c \<or> status_of db' jid = Some (t_status t))"
  proof (cases ?fin)
    case (Inl e)
    with assms show ?thesis by (simp add: apply_finish_def t)
  next
    case (Inr y)
    obtain d c where y: "y = (d, c)" by (cases y)
    from assms show ?thesis
      unfolding apply_finish_def t option.case Inr y bind_result.simps prod.case status_of_def [symmetric]
      by (cases c; cases "status_of d jid = Some (t_status t)") auto
  qed
  then obtain c where f: "?fin = Inr (db', c)"
    and c: "c \<or> status_of db' jid = Some (t_status t)"
    and b: "b = (c \<or> status_of db' jid = Some (t_status t))" by blast
  show "intents db' = intents db" by (rule finish_intents [OF f])
  show "job_by_id db' k = job_by_id db k" if "k \<noteq> jid" using finish_other_job [OF f that] .
  show "b" using b c by simp
  have "c \<Longrightarrow> status_of db' jid = Some (t_status t)"
    using finish_sets [OF _ parse_status_text] f by (fastforce simp: status_of_def)
  with c t show "\<exists>t. intent_of db jid = Some t \<and> status_of db' jid = Some (t_status t)" by blast
qed

lemma apply_mark_simps [simp]:
  "jobs (apply_mark jid now db) = jobs db" "job_by_id (apply_mark jid now db) k = job_by_id db k"
  "status_of (apply_mark jid now db) k = status_of db k"
  by (simp_all add: apply_mark_def job_by_id_def status_of_def)

lemma exists_update_where:
  "(\<exists>r \<in> set (update_where P f t). Q r) \<longleftrightarrow> (\<exists>q \<in> set t. if P q then Q (f q) else Q q)"
proof -
  have "(\<exists>r \<in> set (update_where P f t). Q r) \<longleftrightarrow> (\<exists>q \<in> set t. Q (if P q then f q else q))"
    unfolding update_where_def by (induction t) auto
  then show ?thesis by (simp add: if_distrib [of Q])
qed

lemma coalesce_None: "((case x of None \<Rightarrow> Some now | Some y \<Rightarrow> Some y) = None) = False"
  by (cases x) simp_all

lemma apply_mark_pending:
  "job_terminal_pending k (apply_mark jid now db) \<longleftrightarrow> k \<noteq> jid \<and> job_terminal_pending k db"
  by (auto simp: job_terminal_pending_def apply_mark_def exists_update_where coalesce_None split: if_splits)

lemma apply_mark_intent_other:
  "k \<noteq> jid \<Longrightarrow> intent_of (apply_mark jid now db) k = intent_of db k"
  by (simp add: intent_of_def apply_mark_def intent_update)

subsection \<open>Retries and crashes\<close>

text \<open>A job whose outcome may be stored as (\<open>status\<close>, \<open>payload\<close>): the job runs or has that status
  already, and no other outcome is staged.\<close>

definition settling :: "jobs_db \<Rightarrow> nat \<Rightarrow> job_status \<Rightarrow> pyval \<Rightarrow> bool" where
  "settling db jid status payload \<longleftrightarrow> store_wf db \<and>
     (status_of db jid = Some JRunning \<or> status_of db jid = Some status) \<and>
     (intent_of db jid = None \<or> staged db jid status payload)"

lemma staged_same: "intents db' = intents db \<Longrightarrow> staged db' = staged db"
  by (simp add: staged_def intent_of_def fun_eq_iff)

lemma status_same: "jobs db' = jobs db \<Longrightarrow> status_of db' = status_of db"
  by (simp add: status_of_def job_by_id_def fun_eq_iff)

lemma staged_mark: "staged (apply_mark k now db) jid status payload = staged db jid status payload"
  by (auto simp: staged_def intent_of_def apply_mark_def intent_update)

lemma settling_stage:
  assumes "settling db jid status (intent_payload s)" and "parse_status st = Some status" "status \<noteq> JRunning"
  obtains db1 where "job_terminal_stage jid st s now db = Inr db1"
    and "settling db1 jid status (intent_payload s)" and "staged db1 jid status (intent_payload s)"
proof -
  from assms(1) have "job_by_id db jid \<noteq> None" by (auto simp: settling_def status_of_def)
  with assms obtain db1 where s: "job_terminal_stage jid st s now db = Inr db1" "jobs db1 = jobs db"
    "staged db1 jid status (intent_payload s)"
    by (metis stage_ok settling_def)
  with assms(1) store_wf_stage [OF _ s(1)] show thesis
    by (intro that [of db1]) (simp_all add: settling_def status_same [OF s(2)])
qed

lemma settling_apply:
  assumes "settling db jid status payload" and "staged db jid status payload"
  obtains db1 where "apply_finish jid now db = Inr (db1, True)"
    and "settling db1 jid status payload" and "staged db1 jid status payload"
    and "status_of db1 jid = Some status"
proof -
  from assms(2) obtain t where t: "intent_of db jid = Some t" "t_status t = status" "t_summary t = payload"
    by (auto simp: staged_def)
  from assms(1) have "status_of db jid = Some JRunning \<or> status_of db jid = Some status"
    by (simp add: settling_def)
  then obtain r where r: "job_by_id db jid = Some r" "is_running r \<or> j_status r = t_status t"
    unfolding status_of_def is_running_def t(2) by (cases "job_by_id db jid") auto
  have wf: "store_wf db" using assms(1) by (simp add: settling_def)
  obtain db1 where a: "apply_finish jid now db = Inr (db1, True)" "intents db1 = intents db"
    "status_of db1 jid = Some (t_status t)"
    by (rule apply_finish_ok [OF wf t(1) r])
  have "store_wf db1" using store_wf_apply_finish [OF wf a(1)] by simp
  moreover have "staged db1 jid status payload" by (simp add: staged_same [OF a(2)] assms(2))
  ultimately show thesis
    using a(1,3) t(2) by (intro that [of db1]) (simp_all add: settling_def)
qed

lemma settling_mark:
  "settling db jid status payload \<Longrightarrow> staged db jid status payload \<Longrightarrow>
   settling (apply_mark jid now db) jid status payload"
  using store_wf_mark by (simp add: settling_def staged_mark)

text \<open>One round: without a fault it settles the job; with one it leaves a state from which the
  next round, or the recovery after a crash, goes on.\<close>

definition settled_as :: "jobs_db \<Rightarrow> nat \<Rightarrow> job_status \<Rightarrow> bool" where
  "settled_as db jid status \<longleftrightarrow> status_of db jid = Some status \<and> \<not> job_terminal_pending jid db"

lemma round_no_fault:
  assumes "settling db jid status (intent_payload s)" and "parse_status st = Some status" "status \<noteq> JRunning"
  obtains db1 where "finish_round jid st s now NoFault db = (db1, Some (Inr True))"
    and "settled_as db1 jid status" and "store_wf db1"
proof -
  obtain db1 where 1: "job_terminal_stage jid st s now db = Inr db1"
    "settling db1 jid status (intent_payload s)" "staged db1 jid status (intent_payload s)"
    by (rule settling_stage [OF assms])
  obtain db2 where 2: "apply_finish jid now db1 = Inr (db2, True)" "settling db2 jid status (intent_payload s)"
    "staged db2 jid status (intent_payload s)" "status_of db2 jid = Some status"
    by (rule settling_apply [OF 1(2,3)])
  show thesis
  proof (rule that)
    show "finish_round jid st s now NoFault db = (apply_mark jid now db2, Some (Inr True))"
      by (simp add: finish_round_def 1(1) 2(1))
    show "settled_as (apply_mark jid now db2) jid status"
      by (simp add: settled_as_def apply_mark_pending 2(4))
    show "store_wf (apply_mark jid now db2)" using store_wf_mark 2(2) by (simp add: settling_def)
  qed
qed

lemma round_fault:
  assumes "settling db jid status (intent_payload s)" and "parse_status st = Some status" "status \<noteq> JRunning"
    and "f \<noteq> NoFault"
  obtains db1 where "finish_round jid st s now f db = (db1, None)"
    and "settling db1 jid status (intent_payload s)"
    and "f \<noteq> FaultStage \<or> staged db jid status (intent_payload s) \<Longrightarrow> staged db1 jid status (intent_payload s)"
proof (cases "f = FaultStage")
  case True
  with assms(1) show thesis by (intro that [of db]) (simp_all add: finish_round_def)
next
  case False
  obtain db1 where 1: "job_terminal_stage jid st s now db = Inr db1"
    "settling db1 jid status (intent_payload s)" "staged db1 jid status (intent_payload s)"
    by (rule settling_stage [OF assms(1-3)])
  show thesis
  proof (cases "f = FaultFinish")
    case True
    with 1 show thesis by (intro that [of db1]) (simp_all add: finish_round_def)
  next
    case F: False
    obtain db2 where 2: "apply_finish jid now db1 = Inr (db2, True)" "settling db2 jid status (intent_payload s)"
      "staged db2 jid status (intent_payload s)" "status_of db2 jid = Some status"
      by (rule settling_apply [OF 1(2,3)])
    from F False assms(4) have "f = FaultMark" by (cases f) simp_all
    with 1 2 show thesis by (intro that [of db2]) (simp_all add: finish_round_def)
  qed
qed

lemma rounds_return:
  assumes "settling db jid status (intent_payload s)" and "parse_status st = Some status" "status \<noteq> JRunning"
    and "\<exists>f \<in> set fs. fst f = NoFault"
  shows "\<exists>db'. finish_rounds jid st s fs db = (db', Inr True) \<and> settled_as db' jid status \<and> store_wf db'"
  using assms(1,4)
proof (induction fs arbitrary: db)
  case (Cons x fs)
  obtain f now where x: "x = (f, now)" by (cases x)
  show ?case
  proof (cases "f = NoFault")
    case True
    show ?thesis
      by (rule round_no_fault [OF Cons.prems(1) assms(2,3), of now]) (use True x in simp)
  next
    case False
    show ?thesis
    proof (rule round_fault [OF Cons.prems(1) assms(2,3) False, of now])
      fix db1 assume "finish_round jid st s now f db = (db1, None)" "settling db1 jid status (intent_payload s)"
      with Cons.IH [of db1] Cons.prems(2) False x show ?thesis by auto
    qed
  qed
qed simp

lemma rounds_interrupted:
  assumes "settling db jid status (intent_payload s)" and "parse_status st = Some status" "status \<noteq> JRunning"
    and "\<forall>f \<in> set fs. fst f \<noteq> NoFault"
  shows "\<exists>db'. finish_rounds jid st s fs db = (db', Inl OperationalError) \<and>
    settling db' jid status (intent_payload s) \<and>
    (staged db jid status (intent_payload s) \<or> (\<exists>f \<in> set fs. fst f \<noteq> FaultStage) \<longrightarrow>
     staged db' jid status (intent_payload s))"
  using assms(1,4)
proof (induction fs arbitrary: db)
  case Nil
  then show ?case by simp
next
  case (Cons x fs)
  obtain f now where x: "x = (f, now)" by (cases x)
  with Cons.prems(2) have f: "f \<noteq> NoFault" by simp
  show ?case
  proof (rule round_fault [OF Cons.prems(1) assms(2,3) f, of now])
    fix db1 assume "finish_round jid st s now f db = (db1, None)" "settling db1 jid status (intent_payload s)"
      "f \<noteq> FaultStage \<or> staged db jid status (intent_payload s) \<Longrightarrow> staged db1 jid status (intent_payload s)"
    with Cons.IH [of db1] Cons.prems(2) x show ?thesis by auto
  qed
qed

subsection \<open>Recovery of staged outcomes\<close>

definition untouched :: "nat \<Rightarrow> jobs_db \<Rightarrow> jobs_db \<Rightarrow> bool" where
  "untouched k db db' \<longleftrightarrow> job_by_id db' k = job_by_id db k \<and> intent_of db' k = intent_of db k \<and>
     job_terminal_pending k db' = job_terminal_pending k db"

lemma untouched_refl: "untouched k db db"
  by (simp add: untouched_def)

lemma untouched_trans: "untouched k a b \<Longrightarrow> untouched k b c \<Longrightarrow> untouched k a c"
  by (simp add: untouched_def)

lemma untouched_settled: "untouched k db db' \<Longrightarrow> settled_as db' k st = settled_as db k st"
  by (simp add: untouched_def settled_as_def status_of_def)

lemma untouched_staged: "untouched k db db' \<Longrightarrow> staged db' k st pl = staged db k st pl"
  by (simp add: untouched_def staged_def)

lemma untouched_settling: "untouched k db db' \<Longrightarrow> store_wf db' \<Longrightarrow> settling db k st pl \<Longrightarrow> settling db' k st pl"
  by (simp add: untouched_def settling_def staged_def status_of_def)

lemma apply_frame:
  assumes "job_terminal_apply jid now db = Inr (db', b)" and "store_wf db"
  shows "store_wf db'" and "k \<noteq> jid \<Longrightarrow> untouched k db db'" and "\<not> job_terminal_pending jid db'"
proof -
  from assms(1) obtain db1 where a: "apply_finish jid now db = Inr (db1, b)" "db' = apply_mark jid now db1"
    by (auto simp: job_terminal_apply_def)
  have i: "intents db1 = intents db" by (rule apply_finish_frame(1) [OF a(1)])
  show "store_wf db'" using store_wf_apply_finish [OF assms(2) a(1)] store_wf_mark by (simp add: a(2))
  show "\<not> job_terminal_pending jid db'" by (simp add: a(2) apply_mark_pending)
  show "untouched k db db'" if "k \<noteq> jid"
    using that apply_finish_frame(2) [OF a(1) that] i
    by (simp add: untouched_def a(2) apply_mark_intent_other apply_mark_pending)
      (simp add: intent_of_def job_terminal_pending_def)
qed

lemma recover_one_frame:
  assumes "recover_one now jid (db, ok, n) = (db', ok', n')" and "store_wf db"
  shows "store_wf db' \<and> set ok \<subseteq> set ok' \<and> (\<forall>k. k \<noteq> jid \<longrightarrow> untouched k db db')"
proof (cases "job_terminal_apply jid now db")
  case (Inl e)
  with assms show ?thesis by (simp add: recover_one_def untouched_refl)
next
  case (Inr y)
  obtain d b where y: "y = (d, b)" by (cases y)
  with assms Inr have "db' = d" "ok' = (if b then ok @ [jid] else ok)" by (simp_all add: recover_one_def)
  with apply_frame [OF Inr [unfolded y] assms(2)] show ?thesis by auto
qed

lemma recover_one_settles:
  assumes "recover_one now jid (db, ok, n) = (db', ok', n')"
    and "settling db jid st pl" and "staged db jid st pl"
  shows "settled_as db' jid st \<and> jid \<in> set ok'"
proof -
  obtain db1 where a: "apply_finish jid now db = Inr (db1, True)" "status_of db1 jid = Some st"
    by (rule settling_apply [OF assms(2,3)])
  then have "job_terminal_apply jid now db = Inr (apply_mark jid now db1, True)"
    by (simp add: job_terminal_apply_def)
  with assms(1) have "db' = apply_mark jid now db1" "ok' = ok @ [jid]"
    by (simp_all add: recover_one_def)
  with a(2) show ?thesis by (simp add: settled_as_def apply_mark_pending)
qed

lemma recover_fold_frame:
  "fold (recover_one now) js (db, ok, n) = (db', ok', n') \<Longrightarrow> store_wf db \<Longrightarrow>
   store_wf db' \<and> set ok \<subseteq> set ok' \<and> (\<forall>k. k \<notin> set js \<longrightarrow> untouched k db db')"
proof (induction js arbitrary: db ok n)
  case Nil
  then show ?case by (simp add: untouched_refl)
next
  case (Cons j js)
  obtain db1 ok1 n1 where 1: "recover_one now j (db, ok, n) = (db1, ok1, n1)"
    by (cases "recover_one now j (db, ok, n)")
  note frame = recover_one_frame [OF 1 Cons.prems(2)]
  have "store_wf db' \<and> set ok1 \<subseteq> set ok' \<and> (\<forall>k. k \<notin> set js \<longrightarrow> untouched k db1 db')"
    by (rule Cons.IH [of db1 ok1 n1]) (use Cons.prems(1) 1 frame in simp_all)
  with frame show ?case by (auto intro: untouched_trans)
qed

lemma recover_fold_settles:
  "fold (recover_one now) js (db, ok, n) = (db', ok', n') \<Longrightarrow> distinct js \<Longrightarrow> k \<in> set js \<Longrightarrow>
   settling db k st pl \<Longrightarrow> staged db k st pl \<Longrightarrow> settled_as db' k st \<and> k \<in> set ok'"
proof (induction js arbitrary: db ok n)
  case (Cons j js)
  obtain db1 ok1 n1 where 1: "recover_one now j (db, ok, n) = (db1, ok1, n1)"
    by (cases "recover_one now j (db, ok, n)")
  have wf: "store_wf db" using Cons.prems(4) by (simp add: settling_def)
  note frame = recover_one_frame [OF 1 wf]
  have fold: "fold (recover_one now) js (db1, ok1, n1) = (db', ok', n')" using Cons.prems(1) 1 by simp
  show ?case
  proof (cases "k = j")
    case True
    with Cons.prems(2) have "untouched k db1 db'" "set ok1 \<subseteq> set ok'"
      using recover_fold_frame [OF fold] frame by simp_all
    with recover_one_settles [OF 1] Cons.prems(4,5) True show ?thesis
      by (auto simp: untouched_settled)
  next
    case False
    with frame have u: "untouched k db db1" by simp
    have "k \<in> set js" using Cons.prems(3) False by simp
    with Cons.IH [OF fold] Cons.prems(2,4,5) frame u show ?thesis
      by (simp add: untouched_staged untouched_settling)
  qed
qed simp

lemma pending_list:
  assumes "store_wf db"
  shows "distinct (map t_job (sort_key t_created (select_where (\<lambda>t. t_applied t = None) (intents db))))"
    and "set (map t_job (sort_key t_created (select_where (\<lambda>t. t_applied t = None) (intents db)))) =
      {j. job_terminal_pending j db}"
proof -
  have "mset (map t_job (sort_key t_created (select_where (\<lambda>t. t_applied t = None) (intents db)))) =
      mset (map t_job (select_where (\<lambda>t. t_applied t = None) (intents db)))" by simp
  moreover have "distinct (map t_job (select_where (\<lambda>t. t_applied t = None) (intents db)))"
    using assms unfolding store_wf_def intents_wf_def select_where_def by (simp add: distinct_map_filter)
  ultimately show "distinct (map t_job (sort_key t_created (select_where (\<lambda>t. t_applied t = None) (intents db))))"
    using mset_eq_imp_distinct_iff by blast
  show "set (map t_job (sort_key t_created (select_where (\<lambda>t. t_applied t = None) (intents db)))) =
      {j. job_terminal_pending j db}"
    by (auto simp: job_terminal_pending_def)
qed

lemma recover_settles:
  assumes "settling db jid st pl" and "staged db jid st pl" and "job_terminal_pending jid db"
    and "job_terminal_recover_pending now db = (db', ok, n)"
  shows "settled_as db' jid st \<and> jid \<in> set ok"
  using assms(4) unfolding job_terminal_recover_pending_def
proof (rule recover_fold_settles)
  have wf: "store_wf db" using assms(1) by (simp add: settling_def)
  show "distinct (map t_job (sort_key t_created (select_where (\<lambda>t. t_applied t = None) (intents db))))"
    by (rule pending_list(1) [OF wf])
  show "jid \<in> set (map t_job (sort_key t_created (select_where (\<lambda>t. t_applied t = None) (intents db))))"
    unfolding pending_list(2) [OF wf] using assms(3) by simp
qed (rule assms(1,2))+

subsection \<open>An interrupted finish stays pending\<close>

lemma stage_pending:
  assumes "job_terminal_stage jid st s now db = Inr db'"
    and "intent_of db jid = None \<or> job_terminal_pending jid db"
  shows "job_terminal_pending jid db'"
  using assms(1)
proof (rule stage_effect)
  fix status new its t
  assume a: "t_job new = jid" "t_applied new = None"
    "its = insert_or_ignore (\<lambda>t. t_job t = jid) new (intents db)"
    "db' = db\<lparr>intents := update_where (\<lambda>t. t_job t = jid) (\<lambda>t. t\<lparr>t_updated := now\<rparr>) its\<rparr>"
  have "\<exists>u \<in> set its. t_job u = jid \<and> t_applied u = None"
  proof (cases "job_terminal_pending jid db")
    case True
    then show ?thesis by (auto simp: job_terminal_pending_def a(3) insert_or_ignore_def list_ex_iff)
  next
    case False
    with assms(2) have "\<not> list_ex (\<lambda>t. t_job t = jid) (intents db)"
      by (auto simp: intent_of_def fetch_one_None list_ex_iff)
    with a(1,2) show ?thesis by (simp add: a(3) insert_or_ignore_def)
  qed
  then show ?thesis
    by (auto simp: job_terminal_pending_def a(4) exists_update_where)
qed

lemma pending_same: "intents db' = intents db \<Longrightarrow> job_terminal_pending k db' = job_terminal_pending k db"
  by (simp add: job_terminal_pending_def)

lemma round_pending:
  assumes "finish_round jid st s now f db = (db1, None)"
    and "intent_of db jid = None \<or> job_terminal_pending jid db"
  shows "f = FaultStage \<and> db1 = db \<or> job_terminal_pending jid db1"
proof (cases "f = FaultStage")
  case True
  with assms(1) show ?thesis by (simp add: finish_round_def)
next
  case False
  with assms(1) obtain d where d: "job_terminal_stage jid st s now db = Inr d"
    by (auto simp: finish_round_def split: sum.splits)
  have p: "job_terminal_pending jid d" by (rule stage_pending [OF d assms(2)])
  show ?thesis
  proof (cases "f = FaultFinish")
    case True
    with assms(1) d p show ?thesis by (simp add: finish_round_def)
  next
    case F: False
    with assms(1) d False obtain b where "apply_finish jid now d = Inr (db1, b)"
      by (auto simp: finish_round_def split: sum.splits prod.splits if_splits)
    from pending_same [OF apply_finish_frame(1) [OF this]] p show ?thesis by simp
  qed
qed

lemma rounds_pending:
  assumes "finish_rounds jid st s fs db = (db', Inl OperationalError)" and "\<forall>f \<in> set fs. fst f \<noteq> NoFault"
    and "intent_of db jid = None \<or> job_terminal_pending jid db"
    and "settling db jid status (intent_payload s)" and "parse_status st = Some status" "status \<noteq> JRunning"
    and "job_terminal_pending jid db \<or> (\<exists>f \<in> set fs. fst f \<noteq> FaultStage)"
  shows "job_terminal_pending jid db'"
  using assms(1,2,3,4,7)
proof (induction fs arbitrary: db)
  case Nil
  then show ?case by simp
next
  case (Cons x fs)
  obtain f now where x: "x = (f, now)" by (cases x)
  with Cons.prems(2) have f: "f \<noteq> NoFault" by simp
  show ?case
  proof (rule round_fault [OF Cons.prems(4) assms(5,6) f, of now])
    fix db1 assume r: "finish_round jid st s now f db = (db1, None)" "settling db1 jid status (intent_payload s)"
    from round_pending [OF r(1) Cons.prems(3)]
    have "f = FaultStage \<and> db1 = db \<or> job_terminal_pending jid db1" .
    with Cons.IH [of db1] Cons.prems r x show ?case by auto
  qed
qed

end
