(* ===== verification/Batch_Properties.thy ===== *)
theory Batch_Properties
  imports Job_Machine
begin

text \<open>
  Batches as a second life cycle over the same steps: an item that has ended keeps its outcome,
  and a batch is open exactly while one of its items is.
\<close>

definition item_key :: "item_row \<Rightarrow> string \<times> nat" where
  "item_key i = (i_batch i, i_pos i)"

text \<open>What is final about an ended item; deleting its job detaches the job id only.\<close>

definition frozen_item :: "item_row \<Rightarrow> item_row" where
  "frozen_item i = i\<lparr>i_job := None\<rparr>"

definition batch_wf :: "jobs_db \<Rightarrow> bool" where
  "batch_wf db \<longleftrightarrow> distinct (map item_key (items db)) \<and> distinct (map b_id (batches db)) \<and>
     (\<forall>i \<in> set (items db). i_batch i \<in> b_id ` set (batches db)) \<and>
     (\<forall>b \<in> set (batches db). (b_state b = BRunning) = (0 < remaining_items (b_id b) (items db)))"

lemma batch_wf_empty: "batch_wf empty_jobs_db"
  by (simp add: batch_wf_def empty_jobs_db_def)

lemma remaining_pos: "0 < remaining_items bid its \<longleftrightarrow> (\<exists>i \<in> set its. i_batch i = bid \<and> open_item i)"
  by (simp add: remaining_items_def count_where_def length_greater_0_conv filter_empty_conv)

text \<open>An update of the items that reopens nothing.\<close>

definition items_evolve :: "(item_row \<Rightarrow> item_row) \<Rightarrow> jobs_db \<Rightarrow> jobs_db \<Rightarrow> bool" where
  "items_evolve g db db' \<longleftrightarrow> items db' = map g (items db) \<and> (\<forall>i. item_key (g i) = item_key i) \<and>
     (\<forall>i. \<not> open_item i \<longrightarrow> \<not> open_item (g i) \<and> frozen_item (g i) = frozen_item i)"

lemma items_evolve_refl: "items db' = items db \<Longrightarrow> items_evolve (\<lambda>i. i) db db'"
  by (simp add: items_evolve_def)

lemma item_key_batch: "item_key a = item_key b \<Longrightarrow> i_batch a = i_batch b"
  by (simp add: item_key_def)

lemma batch_wf_items:
  assumes wf: "batch_wf db" and u: "items_evolve g db db'" and b: "batches db' = batches db"
    and keep: "\<And>i. open_item (g i) = open_item i"
  shows "batch_wf db'"
proof -
  have k: "\<And>i. item_key (g i) = item_key i" using u by (simp add: items_evolve_def)
  have its: "items db' = map g (items db)" using u by (simp add: items_evolve_def)
  have "map item_key (items db') = map item_key (items db)" by (simp add: its k)
  moreover have "(0 < remaining_items bid (items db')) = (0 < remaining_items bid (items db))" for bid
    unfolding remaining_pos by (simp add: its keep item_key_batch [OF k])
  moreover have "\<forall>i \<in> set (items db'). i_batch i \<in> b_id ` set (batches db)"
    using wf by (simp add: its item_key_batch [OF k] batch_wf_def)
  ultimately show ?thesis using wf by (simp add: batch_wf_def b)
qed

lemma batch_wf_same: "batch_wf db \<Longrightarrow> items db' = items db \<Longrightarrow> batches db' = batches db \<Longrightarrow> batch_wf db'"
  by (simp add: batch_wf_def)

lemma complete_batch_batches:
  "batches (complete_batch bid st now db) = update_where (\<lambda>b. b_id b = bid \<and> b_state b = BRunning)
     (\<lambda>b. b\<lparr>b_state := st, b_updated := now, b_completed := Some now\<rparr>) (batches db)"
  "items (complete_batch bid st now db) = items db"
  by (simp_all add: complete_batch_def)

lemma batch_wf_close:
  assumes wf: "batch_wf db" and u: "items_evolve g db db1" and b: "batches db1 = batches db"
    and other: "\<And>i. i_batch i \<noteq> bid \<Longrightarrow> g i = i" and st: "st \<noteq> BRunning"
  shows "batch_wf (if remaining_items bid (items db1) = 0 then complete_batch bid st now db1 else db1)"
proof -
  have k: "\<And>i. item_key (g i) = item_key i" using u by (simp add: items_evolve_def)
  have its: "items db1 = map g (items db)" using u by (simp add: items_evolve_def)
  have close: "\<And>i. open_item (g i) \<Longrightarrow> open_item i" using u by (auto simp: items_evolve_def)
  have d: "distinct (map item_key (items db1))" using wf by (simp add: batch_wf_def its k comp_def)
  have ids: "\<forall>i \<in> set (items db1). i_batch i \<in> b_id ` set (batches db)"
    using wf by (simp add: its item_key_batch [OF k] batch_wf_def)
  have same: "(0 < remaining_items c (items db1)) = (0 < remaining_items c (items db))" if "c \<noteq> bid" for c
    unfolding remaining_pos its using that other item_key_batch [OF k] by (auto simp: image_iff)
  have le: "0 < remaining_items bid (items db1) \<Longrightarrow> 0 < remaining_items bid (items db)"
    unfolding remaining_pos its using close item_key_batch [OF k] by auto
  show ?thesis
  proof (cases "remaining_items bid (items db1) = 0")
    case True
    have "(b_state b' = BRunning) = (0 < remaining_items (b_id b') (items db1))"
      if "b' \<in> set (batches (complete_batch bid st now db1))" for b'
    proof -
      from that obtain q where q: "q \<in> set (batches db)" "b' = (if b_id q = bid \<and> b_state q = BRunning
          then q\<lparr>b_state := st, b_updated := now, b_completed := Some now\<rparr> else q)"
        by (auto simp: complete_batch_batches b in_update_where)
      have qs: "(b_state q = BRunning) = (0 < remaining_items (b_id q) (items db))"
        using wf q(1) by (simp add: batch_wf_def)
      show ?thesis
      proof (cases "b_id q = bid")
        case B: True
        with q(2) st have "b_state b' \<noteq> BRunning" "b_id b' = bid" by auto
        with True show ?thesis by simp
      next
        case False
        with q(2) have "b' = q" by simp
        with qs same [OF False] show ?thesis by simp
      qed
    qed
    moreover have ids': "map b_id (batches (complete_batch bid st now db1)) = map b_id (batches db)"
      by (simp add: complete_batch_batches b map_update_where)
    moreover have "b_id ` set (batches (complete_batch bid st now db1)) = b_id ` set (batches db)"
      using arg_cong [OF ids', of set] by simp
    ultimately show ?thesis
      using True wf d ids by (simp add: batch_wf_def complete_batch_batches(2))
  next
    case False
    have "(b_state b' = BRunning) = (0 < remaining_items (b_id b') (items db1))" if "b' \<in> set (batches db)" for b'
    proof -
      have "(b_state b' = BRunning) = (0 < remaining_items (b_id b') (items db))"
        using wf that by (simp add: batch_wf_def)
      with same [of "b_id b'"] le False show ?thesis by (cases "b_id b' = bid") auto
    qed
    with False wf d ids b show ?thesis by (simp add: batch_wf_def)
  qed
qed

lemma batch_wf_update_batches:
  assumes "batch_wf db" and "items db' = items db" and "batches db' = update_where P f (batches db)"
    and "\<And>b. b_id (f b) = b_id b" and "\<And>b. b_state (f b) = b_state b"
  shows "batch_wf db'"
proof -
  have ids: "map b_id (batches db') = map b_id (batches db)"
    by (simp add: assms(3,4) map_update_where)
  moreover have "b_id ` set (batches db') = b_id ` set (batches db)"
    using arg_cong [OF ids, of set] by simp
  moreover have "(b_state b = BRunning) = (0 < remaining_items (b_id b) (items db))"
    if b: "b \<in> set (batches db')" for b
  proof -
    from b obtain q where "q \<in> set (batches db)" "b_id b = b_id q" "b_state b = b_state q"
      by (auto simp: assms(3,4,5) in_update_where)
    with assms(1) show ?thesis by (simp add: batch_wf_def)
  qed
  ultimately show ?thesis using assms(1,2) by (simp add: batch_wf_def)
qed

subsection \<open>The steps\<close>

lemma item_state_simps [simp]:
  "open_item (i\<lparr>i_error := e\<rparr>) = open_item i" "open_item (i\<lparr>i_updated := u\<rparr>) = open_item i"
  "open_item (i\<lparr>i_job := j\<rparr>) = open_item i"
  "item_key (i\<lparr>i_error := e\<rparr>) = item_key i" "item_key (i\<lparr>i_updated := u\<rparr>) = item_key i"
  "item_key (i\<lparr>i_job := j\<rparr>) = item_key i" "item_key (i\<lparr>i_state := s\<rparr>) = item_key i"
  by (simp_all add: open_item_def item_key_def)

lemma start_frame:
  "job_start a now db = Inr (db', jid) \<Longrightarrow> items db' = items db \<and> batches db' = batches db"
  by (blast dest: job_start_effect)

lemma finish_frame:
  "job_finish jid st s now db = Inr (db', b) \<Longrightarrow> items db' = items db \<and> batches db' = batches db"
  by (erule job_finish_cases) simp_all

lemma stage_frame:
  "job_terminal_stage jid st s now db = Inr db' \<Longrightarrow> items db' = items db \<and> batches db' = batches db"
  by (erule stage_effect) simp

lemma apply_finish_items:
  "apply_finish jid now db = Inr (db', b) \<Longrightarrow> items db' = items db \<and> batches db' = batches db"
  by (erule apply_finish_effect) (auto dest: finish_frame)

lemma delete_items:
  assumes "delete_jobs P db = (db', n)"
  shows "\<exists>g. items_evolve g db db' \<and> (\<forall>i. open_item (g i) = open_item i)" and "batches db' = batches db"
proof -
  define g where "g i = (if case i_job i of None \<Rightarrow> False | Some j \<Rightarrow> j \<in> set (map j_id (select_where P (jobs db)))
    then i\<lparr>i_job := None\<rparr> else i)" for i :: item_row
  from assms have its: "items db' = map g (items db)"
    by (auto simp: delete_jobs_def Let_def update_where_def g_def)
  have "items_evolve g db db'" by (simp add: items_evolve_def its g_def frozen_item_def)
  moreover have "\<forall>i. open_item (g i) = open_item i" by (simp add: g_def)
  ultimately show "\<exists>g. items_evolve g db db' \<and> (\<forall>i. open_item (g i) = open_item i)" by blast
  from assms show "batches db' = batches db" by (auto simp: delete_jobs_def Let_def)
qed

lemma item_start_evolve:
  "job_batch_item_start bid pos jid now db = Inr (db', b) \<Longrightarrow>
   items_evolve (\<lambda>i. if is_item bid pos i \<and> i_state i = IQueued
     then i\<lparr>i_state := IRunning, i_job := Some jid, i_updated := now\<rparr> else i) db db' \<and>
   batches db' = batches db"
  by (auto simp: items_evolve_def job_batch_item_start_def Let_def update_where_def item_key_def open_item_def
      split: if_splits)

lemma recover_item_simps:
  "item_key (recover_item db bid now i) = item_key i"
  "i_batch i \<noteq> bid \<Longrightarrow> recover_item db bid now i = i"
  "i_state i \<noteq> IRunning \<Longrightarrow> recover_item db bid now i = i"
  by (simp_all add: recover_item_def item_key_def Let_def)

lemma recover_evolve:
  "items_evolve (recover_item db bid now) db (db\<lparr>items := map (recover_item db bid now) (items db)\<rparr>)"
  using recover_item_simps by (auto simp: items_evolve_def open_item_def)

definition finish_item :: "string \<Rightarrow> nat \<Rightarrow> item_state \<Rightarrow> string option \<Rightarrow> real \<Rightarrow> item_row \<Rightarrow> item_row" where
  "finish_item bid pos st err now i =
     (if is_item bid pos i \<and> open_item i then i\<lparr>i_state := st, i_error := err, i_updated := now\<rparr> else i)"

lemma parse_item_state_closed: "parse_item_state s = Some st \<Longrightarrow> st \<noteq> IQueued \<and> st \<noteq> IRunning"
  by (auto split: if_splits)

lemma item_finish_effect:
  assumes "job_batch_item_finish bid pos s err now db = Inr (db', b)"
  obtains st fin db1 where "parse_item_state s = Some st" and "fin \<noteq> BRunning"
    and "items_evolve (finish_item bid pos st err now) db db1" and "batches db1 = batches db"
    and "db' = (if remaining_items bid (items db1) = 0 then complete_batch bid fin now db1 else db1)"
proof -
  from assms obtain st where st: "parse_item_state s = Some st"
    by (auto simp: job_batch_item_finish_def split: option.splits)
  define db1 where "db1 = db\<lparr>items := update_where (\<lambda>i. is_item bid pos i \<and> open_item i)
    (\<lambda>i. i\<lparr>i_state := st, i_error := err, i_updated := now\<rparr>) (items db)\<rparr>"
  define fin where "fin = (case fetch_one (\<lambda>b. b_id b = bid) (batches db1) of
    None \<Rightarrow> BDone | Some b \<Rightarrow> if b_cancel b then BCancelled else BDone)"
  have "fin \<noteq> BRunning" by (auto simp: fin_def split: option.splits)
  moreover have "items_evolve (finish_item bid pos st err now) db db1"
    using parse_item_state_closed [OF st]
    by (auto simp: items_evolve_def db1_def update_where_def finish_item_def item_key_def open_item_def)
  moreover have "db' = (if remaining_items bid (items db1) = 0 then complete_batch bid fin now db1 else db1)"
    using assms st unfolding job_batch_item_finish_def Let_def fin_def db1_def by simp
  ultimately show thesis using st by (intro that [of st fin db1]) (simp_all add: db1_def)
qed

lemma batch_wf_item_finish:
  assumes "batch_wf db" and "job_batch_item_finish bid pos s err now db = Inr (db', b)"
  shows "batch_wf db'"
  using assms(2)
proof (rule item_finish_effect)
  fix st fin db1
  assume a: "fin \<noteq> BRunning" "items_evolve (finish_item bid pos st err now) db db1" "batches db1 = batches db"
    "db' = (if remaining_items bid (items db1) = 0 then complete_batch bid fin now db1 else db1)"
  show ?thesis
    unfolding a(4)
    by (rule batch_wf_close [OF assms(1) a(2,3) _ a(1)]) (simp add: finish_item_def is_item_def)
qed

lemma batch_wf_recover: "batch_wf db \<Longrightarrow> batch_wf (fst (job_batch_recover bid now db))"
  unfolding job_batch_recover_def Let_def fst_conv
  by (rule batch_wf_close [OF _ recover_evolve]) (simp_all add: recover_item_simps)

lemma create_effect:
  assumes "job_batch_create bid specs sn rv dry fj now db = Inr (db', x)"
  obtains b where "specs \<noteq> []" and "bid \<notin> b_id ` set (batches db)" and "b_id b = bid" and "b_state b = BRunning"
    and "batches db' = batches db @ [b]"
    and "items db' = items db @ map (new_item bid fj now) (List.enumerate 0 specs)"
proof -
  from assms have "specs \<noteq> []" "bid \<notin> b_id ` set (batches db)"
    "batches db' = batches db @ [\<lparr>b_id = bid, b_state = BRunning, b_dry = dry, b_revision = rv,
       b_snapshot = json_bounded sn (2 * 1024 * 1024), b_cancel = False,
       b_created = now, b_updated = now, b_completed = None\<rparr>]"
    "items db' = items db @ map (new_item bid fj now) (List.enumerate 0 specs)"
    by (auto simp: job_batch_create_def split: if_splits)
  then show thesis by (intro that) simp_all
qed

lemma new_item_simps [simp]:
  "i_batch (new_item bid fj now ps) = bid" "i_pos (new_item bid fj now ps) = fst ps"
  "open_item (new_item bid fj now ps)"
  by (cases ps; simp add: new_item_def open_item_def)+

lemma batch_wf_create:
  assumes wf: "batch_wf db" and c: "job_batch_create bid specs sn rv dry fj now db = Inr (db', x)"
  shows "batch_wf db'"
  using c
proof (rule create_effect)
  fix b
  let ?new = "map (new_item bid fj now) (List.enumerate 0 specs)"
  assume a: "specs \<noteq> []" "bid \<notin> b_id ` set (batches db)" "b_id b = bid" "b_state b = BRunning"
    "batches db' = batches db @ [b]" "items db' = items db @ ?new"
  have none: "i_batch i \<noteq> bid" if "i \<in> set (items db)" for i
    using wf that a(2) by (auto simp: batch_wf_def)
  have "map item_key ?new = map (\<lambda>n. (bid, n)) [0..<length specs]"
  proof -
    have "map item_key ?new = map (\<lambda>n. (bid, n)) (map fst (List.enumerate 0 specs))"
      unfolding map_map by (rule map_cong) (simp_all add: item_key_def)
    then show ?thesis unfolding map_fst_enumerate by simp
  qed
  moreover have "distinct (map (\<lambda>n. (bid, n)) [0..<length specs])"
    by (simp add: distinct_map inj_on_def)
  moreover have "set (map item_key (items db)) \<inter> set (map (\<lambda>n. (bid, n)) [0..<length specs]) = {}"
    using none by (auto simp: item_key_def)
  ultimately have "distinct (map item_key (items db'))"
    using wf unfolding a(6) map_append distinct_append batch_wf_def by (simp del: map_map)
  moreover have "(b_state c = BRunning) = (0 < remaining_items (b_id c) (items db'))" if "c \<in> set (batches db')" for c
  proof (cases "c = b")
    case True
    have "?new \<noteq> []" using a(1) by (cases specs) simp_all
    then obtain i where "i \<in> set ?new" by (meson list.set_sel(1))
    then have "0 < remaining_items bid (items db')"
      unfolding remaining_pos a(6) by (intro bexI [of _ i]) auto
    with True a(3,4) show ?thesis by simp
  next
    case False
    with that have c: "c \<in> set (batches db)" by (simp add: a(5))
    with a(2) have "b_id c \<noteq> bid" by auto
    then have "(0 < remaining_items (b_id c) (items db')) = (0 < remaining_items (b_id c) (items db))"
      unfolding remaining_pos a(6) by auto
    with c wf show ?thesis by (simp add: batch_wf_def)
  qed
  moreover have "\<forall>i \<in> set (items db'). i_batch i \<in> b_id ` set (batches db')"
    using wf a(3) by (auto simp: a(5,6) batch_wf_def)
  moreover have "distinct (map b_id (batches db'))"
    using wf a(2,3) by (simp add: a(5) batch_wf_def)
  ultimately show ?thesis by (simp add: batch_wf_def)
qed

text \<open>Every step updates the items without reopening one, or appends items of a new batch.\<close>

lemma step_items:
  assumes "job_step db db'"
  shows "(\<exists>g. items_evolve g db db') \<or>
    (\<exists>bid new. items db' = items db @ new \<and> bid \<notin> b_id ` set (batches db) \<and> (\<forall>i \<in> set new. i_batch i = bid))"
  using assms
proof (cases rule: job_step_by.cases)
  case (step_delete_failed n)
  then show ?thesis unfolding jobs_delete_failed_def using delete_items(1) by blast
next
  case (step_prune days keep now n)
  then show ?thesis unfolding jobs_prune_def Let_def using delete_items(1) by blast
next
  case (step_batch_create bid specs sn rv dry fj now x)
  then show ?thesis by (elim create_effect) (intro disjI2, auto)
next
  case (step_item_start bid pos jid now b)
  then show ?thesis using item_start_evolve by blast
next
  case (step_item_finish bid pos ist err now b)
  then show ?thesis
  proof (elim item_finish_effect)
    fix st fin db1
    assume "items_evolve (finish_item bid pos st err now) db db1"
      "db' = (if remaining_items bid (items db1) = 0 then complete_batch bid fin now db1 else db1)"
    then have "items_evolve (finish_item bid pos st err now) db db'"
      by (simp add: items_evolve_def complete_batch_batches(2))
    then show ?thesis by blast
  qed
next
  case (step_recover bid now)
  then have "items_evolve (recover_item db bid now) db db'"
    using recover_evolve [of db bid now]
    by (simp add: items_evolve_def job_batch_recover_def Let_def complete_batch_batches(2))
  then show ?thesis by blast
next
  case (step_cancel now)
  then show ?thesis using items_evolve_refl [of db' db] by (auto simp: job_batch_request_cancel_def Let_def)
qed (use items_evolve_refl [of db' db] in \<open>auto dest: start_frame finish_frame stage_frame apply_finish_items
    simp: job_mark_stale_def jobs_mark_all_running_stale_def jobs_mark_stale_def mark_rows_stale_def Let_def
      job_set_log_file_def apply_mark_def\<close>)

lemma step_batch_wf: "job_step db db' \<Longrightarrow> batch_wf db \<Longrightarrow> batch_wf db'"
proof (induction rule: job_step_by.induct)
  case (step_start a now db db' jid)
  then show ?case using start_frame batch_wf_same by blast
next
  case (step_finish jid st s now db db' b)
  then show ?case using finish_frame batch_wf_same by blast
next
  case (step_stage jid st s now db db')
  then show ?case using stage_frame batch_wf_same by blast
next
  case (step_apply jid now db db' b)
  then show ?case using apply_finish_items batch_wf_same by blast
next
  case (step_delete_failed db db' n)
  then show ?case unfolding jobs_delete_failed_def using delete_items batch_wf_items by blast
next
  case (step_prune days keep now db db' n)
  then show ?case unfolding jobs_prune_def Let_def using delete_items batch_wf_items by blast
next
  case (step_batch_create bid specs sn rv dry fj now db db' x)
  then show ?case by (rule batch_wf_create [rotated])
next
  case (step_item_start bid pos jid now db db' b)
  note start = item_start_evolve [OF step_item_start(1)]
  show ?case
    by (rule batch_wf_items [OF step_item_start(2) conjunct1 [OF start] conjunct2 [OF start]])
      (auto simp: open_item_def)
next
  case (step_item_finish bid pos ist err now db db' b)
  then show ?case by (rule batch_wf_item_finish [rotated])
next
  case (step_cancel db now)
  then show ?case
    by (rule batch_wf_update_batches [where f = "\<lambda>b. b\<lparr>b_cancel := True, b_updated := now\<rparr>"])
      (simp_all add: job_batch_request_cancel_def Let_def)
next
  case (step_recover db bid now)
  then show ?case by (rule batch_wf_recover)
qed (erule batch_wf_same; auto simp: job_mark_stale_def jobs_mark_all_running_stale_def jobs_mark_stale_def
    mark_rows_stale_def Let_def job_set_log_file_def apply_mark_def)+

interpretation item_rows: final_rows items item_key "\<lambda>db k. k \<in> item_key ` set (items db)"
  "\<lambda>i. \<not> open_item i" frozen_item job_step batch_wf
proof unfold_locales
  fix s t k assume "batch_wf s" "job_step s t" "k \<in> item_key ` set (items s)"
  then show "k \<in> item_key ` set (items t)"
    using step_items [of s t] by (auto simp: items_evolve_def image_iff)
next
  fix s t q r assume a: "batch_wf s" "job_step s t" "q \<in> set (items s)" "\<not> open_item q"
    "r \<in> set (items t)" "item_key r = item_key q"
  show "\<not> open_item r \<and> frozen_item r = frozen_item q"
    using step_items [OF a(2)]
  proof (elim disjE exE conjE)
    fix g assume g: "items_evolve g s t"
    with a(5) obtain p where p: "p \<in> set (items s)" "r = g p" by (auto simp: items_evolve_def)
    with g a(6) have "item_key p = item_key q" by (simp add: items_evolve_def)
    with a(1,3) p(1) have "p = q" by (auto simp: batch_wf_def distinct_map inj_on_def)
    with g p(2) a(4) show ?thesis by (simp add: items_evolve_def)
  next
    fix bid new assume n: "items t = items s @ new" "bid \<notin> b_id ` set (batches s)" "\<forall>i \<in> set new. i_batch i = bid"
    have "i_batch r \<in> b_id ` set (batches s)" using a(1,3) item_key_batch [OF a(6)] by (simp add: batch_wf_def)
    with n a(5) have "r \<in> set (items s)" by auto
    with a(1,3,6) have "r = q" by (auto simp: batch_wf_def distinct_map inj_on_def)
    with a(4) show ?thesis by simp
  qed
qed (auto simp: batch_wf_def dest: step_batch_wf)

lemma reachable_batch_wf: "reachable_store db \<Longrightarrow> batch_wf db"
  unfolding reachable_store_def by (erule item_rows.steps_ok) (rule batch_wf_empty)

end
