(* ===== verification/Job_Theorems.thy ===== *)
theory Job_Theorems
  imports Job_Properties Batch_Properties
begin

text \<open>
  The properties of the job store and of batches, with the concrete stores that show their
  hypotheses can hold.
\<close>

subsection \<open>Concrete stores\<close>

definition demo_args :: "string \<Rightarrow> start_args" where
  "demo_args kind = \<lparr>a_kind = kind, a_log = None, a_attempts = [PDict [(''name'', PStr ''daten'')]],
     a_exclusive = True, a_def_id = None, a_def_name = None, a_revision = None, a_slot = None,
     a_dry = None, a_trigger = Some ''manual''\<rparr>"

definition run_start :: "start_args \<Rightarrow> real \<Rightarrow> jobs_db \<Rightarrow> jobs_db" where
  "run_start a now db = (case job_start a now db of Inl _ \<Rightarrow> db | Inr (db', _) \<Rightarrow> db')"

definition run_finish :: "nat \<Rightarrow> string \<Rightarrow> pydict option \<Rightarrow> real \<Rightarrow> jobs_db \<Rightarrow> jobs_db" where
  "run_finish jid st s now db = (case job_finish jid st s now db of Inl _ \<Rightarrow> db | Inr (db', _) \<Rightarrow> db')"

definition demo_started :: jobs_db where
  "demo_started = run_start (demo_args ''backup'') 100 empty_jobs_db"

definition demo_finished :: jobs_db where
  "demo_finished = run_finish 1 ''ok'' (Some []) 200 demo_started"

lemma run_start_steps: "job_steps db (run_start a now db)"
  by (auto simp: run_start_def intro: step_start split: sum.split)

lemma run_finish_steps: "job_steps db (run_finish jid st s now db)"
  by (auto simp: run_finish_def intro: step_finish split: sum.split)

lemma reachable_started: "reachable_store demo_started"
  unfolding reachable_store_def demo_started_def by (rule run_start_steps)

lemma reachable_finished: "reachable_store demo_finished"
  using reachable_started run_finish_steps [of demo_started] unfolding reachable_store_def demo_finished_def
  by (rule rtranclp_trans)

lemma started_jobs: "jobs demo_started = [new_job (demo_args ''backup'') 1 100]"
  and started_intents: "intents demo_started = []"
  and started_next: "next_job demo_started = 2"
proof -
  obtain db where "job_start (demo_args ''backup'') 100 empty_jobs_db = Inr (db, 1)"
    by (simp add: job_start_def Let_def demo_args_def running_in_scope_def empty_jobs_db_def select_where_def
        order_desc_def)
  moreover from this have "demo_started = db" by (simp add: demo_started_def run_start_def)
  moreover note job_start_effect [OF calculation(1)]
  ultimately show "jobs demo_started = [new_job (demo_args ''backup'') 1 100]" "intents demo_started = []"
    "next_job demo_started = 2"
    by (simp_all add: empty_jobs_db_def)
qed

lemma started_by_id: "job_by_id demo_started 1 = Some (new_job (demo_args ''backup'') 1 100)"
  by (simp add: job_by_id_def started_jobs)

lemma finished_effect: "job_finish 1 ''ok'' (Some []) 200 demo_started = Inr (demo_finished, True)"
proof -
  have ok: "parse_status ''ok'' = Some JOk" using parse_status_text [of JOk] by simp
  have run: "is_running (new_job (demo_args ''backup'') 1 100)" by simp
  obtain db where "job_finish 1 ''ok'' (Some []) 200 demo_started = Inr (db, True)"
    using job_finish_running [OF ok started_by_id run] by metis
  then show ?thesis by (simp add: demo_finished_def run_finish_def)
qed

lemma started_status: "status_of demo_started 1 = Some JRunning"
  unfolding status_of_def started_by_id by (simp add: new_job_def)

lemma started_intent: "intent_of demo_started 1 = None"
  unfolding intent_of_def started_intents by simp

lemma parse_ok: "parse_status ''ok'' = Some JOk" and parse_error: "parse_status ''error'' = Some JError"
  using parse_status_text [of JOk] parse_status_text [of JError] by simp_all

lemma finished_by_id: "\<exists>r. job_by_id demo_finished 1 = Some r \<and> j_status r = JOk \<and> j_kind r = ''backup''"
  using finish_sets [OF finished_effect parse_ok] unfolding started_by_id by (auto simp: demo_args_def)

subsection \<open>Exclusive scopes\<close>

lemma all_equal_length: "distinct xs \<Longrightarrow> (\<And>a b. a \<in> set xs \<Longrightarrow> b \<in> set xs \<Longrightarrow> a = b) \<Longrightarrow> length xs \<le> 1"
proof (cases xs)
  case (Cons x ys)
  assume d: "distinct xs" and e: "\<And>a b. a \<in> set xs \<Longrightarrow> b \<in> set xs \<Longrightarrow> a = b"
  have "ys = []"
  proof (cases ys)
    case (Cons y zs)
    with \<open>xs = x # ys\<close> d e [of x y] show ?thesis by simp
  qed simp
  with Cons show ?thesis by simp
qed simp

text \<open>C1: an exclusive start owns its scope. Once \<open>job_start\<close> with \<open>exclusive_scope\<close> has succeeded, in
  any reachable store (earlier starts may have been without the flag), and as long as the later
  starts of kinds of the same scope carry the flag as well, as every caller in \<open>app/\<close> does, at most
  one job of the scope is running, whatever other transactions are committed. Backup, check,
  quicksync, restoretest and recovery are one scope, pbs and any other kind is a scope of its own.\<close>

theorem one_running_job_per_scope:
  assumes "reachable_store db" and "job_start a now db = Inr (db1, jid)" and "a_exclusive a"
    and "(job_step_by (\<lambda>b. a_exclusive b \<or> a_kind b \<notin> set (scope_kinds (a_kind a))))\<^sup>*\<^sup>* db1 db2"
  shows "count_where (\<lambda>r. is_running r \<and> j_kind r \<in> set (scope_kinds (a_kind a))) (jobs db2) \<le> 1"
proof -
  have "store_wf db1" using store_wf_start [OF reachable_wf [OF assms(1)] assms(2)] by simp
  with sole_steps [OF assms(4)] exclusive_start_alone [OF assms(2,3)]
  have sole: "sole_in_scope (a_kind a) db2" and wf: "store_wf db2" by simp_all
  show ?thesis
    unfolding count_where_def
  proof (rule all_equal_length)
    show "distinct (filter (\<lambda>r. is_running r \<and> j_kind r \<in> set (scope_kinds (a_kind a))) (jobs db2))"
      using wf by (auto simp: store_wf_def jobs_wf_def distinct_map)
  qed (use sole in \<open>auto simp: sole_in_scope_def\<close>)
qed

text \<open>Two backups are started without the flag, as the defaults allow, then a finish and an exclusive
  start of a pbs job; a further backup without the flag is outside the scope of that start.\<close>

definition shared_args :: "string \<Rightarrow> start_args" where
  "shared_args kind = (demo_args kind)\<lparr>a_exclusive := False\<rparr>"

definition demo_shared :: jobs_db where
  "demo_shared = run_start (shared_args ''backup'') 110 (run_start (shared_args ''backup'') 100 empty_jobs_db)"

lemma shared_start:
  "kind \<noteq> [] \<Longrightarrow> length kind \<le> 64 \<Longrightarrow>
   job_start (shared_args kind) now db = Inr (run_start (shared_args kind) now db, next_job db)"
  by (simp add: run_start_def job_start_def Let_def shared_args_def demo_args_def)

lemma shared_jobs:
  "jobs demo_shared = [new_job (shared_args ''backup'') 1 100, new_job (shared_args ''backup'') 2 110]"
  "next_job demo_shared = 3"
proof -
  let ?db = "run_start (shared_args ''backup'') 100 empty_jobs_db"
  have 1: "job_start (shared_args ''backup'') 100 empty_jobs_db = Inr (?db, 1)"
    using shared_start [of "''backup''" 100 empty_jobs_db] by (simp add: empty_jobs_db_def)
  note one = job_start_effect [OF 1]
  have 2: "job_start (shared_args ''backup'') 110 ?db = Inr (demo_shared, 2)"
    using shared_start [of "''backup''" 110 ?db] by (simp add: one(3) demo_shared_def)
  show "jobs demo_shared = [new_job (shared_args ''backup'') 1 100, new_job (shared_args ''backup'') 2 110]"
    "next_job demo_shared = 3"
    using job_start_effect(2,3) [OF 2] one(2) by (simp_all add: empty_jobs_db_def)
qed

lemma reachable_shared: "reachable_store demo_shared"
  using run_start_steps [of empty_jobs_db] run_start_steps
  unfolding reachable_store_def demo_shared_def by (rule rtranclp_trans)

theorem one_running_job_per_scope_witness:
  "\<exists>db1 db2. job_start (demo_args ''pbs'') 120 demo_shared = Inr (db1, 3) \<and>
     job_start (shared_args ''backup'') 130 db1 = Inr (db2, 4) \<and>
     count_where (\<lambda>r. is_running r \<and> j_kind r \<in> set (scope_kinds ''pbs'')) (jobs db2) \<le> 1"
proof -
  have kind: "a_kind (demo_args k) = k" "a_kind (shared_args k) = k" "a_exclusive (demo_args k)" for k
    by (simp_all add: demo_args_def shared_args_def)
  have "running_in_scope ''pbs'' demo_shared = None"
    by (simp add: running_in_scope_None shared_jobs kind scope_kinds_def backup_scope_kinds_def)
  then obtain db1 where 1: "job_start (demo_args ''pbs'') 120 demo_shared = Inr (db1, 3)"
    by (simp add: job_start_def Let_def demo_args_def shared_jobs)
  let ?db2 = "run_start (shared_args ''backup'') 130 db1"
  have 2: "job_start (shared_args ''backup'') 130 db1 = Inr (?db2, 4)"
    using shared_start [of "''backup''" 130 db1] job_start_effect(3) [OF 1] by simp
  have "''backup'' \<notin> set (scope_kinds ''pbs'')" by (simp add: scope_kinds_def backup_scope_kinds_def)
  then have "job_step_by (\<lambda>b. a_exclusive b \<or> a_kind b \<notin> set (scope_kinds ''pbs'')) db1 ?db2"
    by (intro step_start [OF _ 2]) (simp add: kind)
  from one_running_job_per_scope [OF reachable_shared 1, of ?db2] this 1 2 show ?thesis
    by (auto simp: kind)
qed

text \<open>An exclusive start with a valid kind has two outcomes. If a job of the scope is running it
  is refused with that job's kind and id; otherwise a new running job is recorded under a fresh id
  and every other job reads as before.\<close>

theorem exclusive_start_outcomes:
  assumes "reachable_store db" and "a_exclusive a" and "a_kind a \<noteq> []" and "length (a_kind a) \<le> 64"
  shows "(\<exists>r \<in> set (jobs db). is_running r \<and> j_kind r \<in> set (scope_kinds (a_kind a)) \<and>
            job_start a now db = Inl (JobAlreadyRunningError (j_kind r) (int (j_id r)))) \<or>
         ((\<forall>r \<in> set (jobs db). is_running r \<longrightarrow> j_kind r \<notin> set (scope_kinds (a_kind a))) \<and>
          (\<exists>db'. job_start a now db = Inr (db', next_job db) \<and> job_by_id db (next_job db) = None \<and>
             job_by_id db' (next_job db) = Some (new_job a (next_job db) now) \<and>
             (\<forall>k. k \<noteq> next_job db \<longrightarrow> job_by_id db' k = job_by_id db k)))"
proof (cases "running_in_scope (a_kind a) db")
  case (Some r)
  from running_in_scope_Some [OF this]
  have r: "r \<in> set (jobs db)" "is_running r" "j_kind r \<in> set (scope_kinds (a_kind a))" by simp_all
  have "job_start a now db = Inl (JobAlreadyRunningError (j_kind r) (int (j_id r)))"
    using Some assms(2-4) by (simp add: job_start_def)
  with r show ?thesis by blast
next
  case None
  then obtain db' where s: "job_start a now db = Inr (db', next_job db)"
    using assms(2-4) by (simp add: job_start_def Let_def)
  have fresh: "job_by_id db (next_job db) = None"
    using reachable_wf [OF assms(1)]
    by (fastforce simp: job_by_id_def fetch_one_None store_wf_def jobs_wf_def)
  have look: "job_by_id db' k = (case job_by_id db k of
      None \<Rightarrow> if k = next_job db then Some (new_job a (next_job db) now) else None | Some r \<Rightarrow> Some r)" for k
    by (simp add: job_by_id_def job_start_effect(2) [OF s] fetch_one_append split: option.split)
  have "\<forall>k. k \<noteq> next_job db \<longrightarrow> job_by_id db' k = job_by_id db k"
    by (simp add: look split: option.splits)
  moreover have "job_by_id db' (next_job db) = Some (new_job a (next_job db) now)"
    by (simp add: look fresh)
  ultimately show ?thesis using s fresh None by (auto simp: running_in_scope_None)
qed

theorem exclusive_start_outcomes_witness:
  "\<exists>r \<in> set (jobs demo_started). job_start (demo_args ''check'') 150 demo_started =
     Inl (JobAlreadyRunningError (j_kind r) (int (j_id r)))"
  using exclusive_start_outcomes [OF reachable_started, of "demo_args ''check''" 150]
  by (auto simp: started_jobs demo_args_def scope_kinds_def backup_scope_kinds_def)

subsection \<open>Results\<close>

text \<open>C2: a closed job is final. Whatever transactions follow, a job row with the same id is still
  closed and has the same status, times, summary and origin; only its log path may change.\<close>

theorem closed_job_is_final:
  assumes "reachable_store db" and "q \<in> set (jobs db)" and "j_status q \<noteq> JRunning"
    and "job_steps db db'" and "r \<in> set (jobs db')" and "j_id r = j_id q"
  shows "r\<lparr>j_log := None\<rparr> = q\<lparr>j_log := None\<rparr>"
  using job_rows.result_is_final [OF assms(4) reachable_wf [OF assms(1)] assms(2) _ assms(5,6)] assms(3)
  by (simp add: is_running_def frozen_job_def)

theorem closed_job_is_final_witness:
  "\<exists>q \<in> set (jobs demo_finished). \<forall>r \<in> set (jobs (job_set_log_file 1 ''neu.log''  demo_finished)).
     j_id r = j_id q \<longrightarrow> r\<lparr>j_log := None\<rparr> = q\<lparr>j_log := None\<rparr>"
proof -
  obtain q where q: "job_by_id demo_finished 1 = Some q" "j_status q = JOk" using finished_by_id by blast
  then have "q \<in> set (jobs demo_finished)" using job_by_id_Some by blast
  with q(2) closed_job_is_final [OF reachable_finished, of q "job_set_log_file 1 ''neu.log'' demo_finished"]
  show ?thesis by (auto intro: step_log)
qed

text \<open>Finishing a running job with a final status always succeeds. The row takes the status,
  end time and summary, no attempt of the job is left running, and neither another job nor an
  attempt of another job changes.\<close>

theorem finish_settles_running_job:
  assumes "parse_status st = Some status" and "status \<noteq> JRunning"
    and "job_by_id db jid = Some r" and "j_status r = JRunning"
  shows "\<exists>db'. job_finish jid st s now db = Inr (db', True) \<and>
     job_by_id db' jid = Some (finish_row status now s r) \<and>
     (\<forall>p \<in> set (pair_runs db'). p_job p = jid \<longrightarrow> p_status p \<noteq> JRunning) \<and>
     (\<forall>k. k \<noteq> jid \<longrightarrow> job_by_id db' k = job_by_id db k) \<and>
     (\<forall>p \<in> set (pair_runs db'). p_job p \<noteq> jid \<longrightarrow> p \<in> set (pair_runs db))"
proof -
  obtain db' where f: "job_finish jid st s now db = Inr (db', True)"
    using job_finish_running [OF assms(1,3)] assms(4) by (auto simp: is_running_def)
  show ?thesis
  proof (intro exI conjI)
    show "job_finish jid st s now db = Inr (db', True)" by (rule f)
    show "job_by_id db' jid = Some (finish_row status now s r)"
      using finish_sets [OF f assms(1)] assms(3) by auto
    show "\<forall>p \<in> set (pair_runs db'). p_job p = jid \<longrightarrow> p_status p \<noteq> JRunning"
      using finish_closes_attempts [OF f assms(1,2)] by blast
    show "\<forall>k. k \<noteq> jid \<longrightarrow> job_by_id db' k = job_by_id db k" using finish_other_job [OF f] by blast
    show "\<forall>p \<in> set (pair_runs db'). p_job p \<noteq> jid \<longrightarrow> p \<in> set (pair_runs db)"
      using finish_other_attempts [OF f] by blast
  qed
qed

theorem finish_settles_running_job_witness:
  "\<exists>db'. job_finish 1 ''error'' None 300 demo_started = Inr (db', True) \<and>
     (\<forall>p \<in> set (pair_runs db'). p_job p = 1 \<longrightarrow> p_status p \<noteq> JRunning)"
  using finish_settles_running_job [OF parse_error _ started_by_id, of None 300]
  by (auto simp: new_job_def)

text \<open>Of all attempts to finish one job, one takes effect. After a finish that returned \<open>True\<close>,
  and any further transactions, a later finish of the job either fails or returns \<open>False\<close> and
  leaves the store as it is.\<close>

theorem finish_takes_effect_once:
  assumes "reachable_store db" and "job_finish jid st s now db = Inr (db1, True)"
    and "parse_status st = Some status" and "status \<noteq> JRunning" and "job_steps db1 db2"
    and "job_finish jid st' s' now' db2 = Inr (db3, b)"
  shows "\<not> b \<and> db3 = db2"
proof -
  obtain r where r: "job_by_id db1 jid = Some (finish_row status now s r)"
    using finish_sets [OF assms(2,3)] by blast
  have reach: "reachable_store db1"
    using assms(1,2) unfolding reachable_store_def by (meson rtranclp.rtrancl_into_rtrancl step_finish)
  note q = job_by_id_Some [OF r]
  have closed: "\<not> is_running x" if "job_by_id db2 jid = Some x" for x
    using job_rows.result_is_final [OF assms(5) reachable_wf [OF reach], of "finish_row status now s r" x]
      q job_by_id_Some [OF that] assms(4) by simp
  show ?thesis
  proof (cases b)
    case True
    from assms(6) have "\<exists>x. job_by_id db2 jid = Some x \<and> is_running x"
      using True by (cases rule: job_finish_cases) auto
    with closed show ?thesis by blast
  next
    case False
    with finish_again [of jid st' s' now' db2 db3] assms(6) show ?thesis by simp
  qed
qed

theorem finish_takes_effect_once_witness:
  "\<exists>db3 b. job_finish 1 ''error'' None 300 demo_finished = Inr (db3, b) \<and> \<not> b \<and> db3 = demo_finished"
proof -
  obtain db3 b where again: "job_finish 1 ''error'' None 300 demo_finished = Inr (db3, b)"
  proof -
    obtain r where "job_by_id demo_finished 1 = Some r" "\<not> is_running r"
      using finished_by_id by (auto simp: is_running_def)
    then have "job_finish 1 ''error'' None 300 demo_finished = Inr (demo_finished, False)"
      unfolding job_finish_def parse_error option.case by (simp only: option.case not_False_eq_True if_True)
    then show ?thesis by (rule that)
  qed
  from finish_takes_effect_once [OF reachable_started finished_effect parse_ok _ rtranclp.rtrancl_refl again] again
  show ?thesis by auto
qed

text \<open>In every reachable state an attempt that is marked running belongs to a job that is
  running, and (job, path) identifies an attempt.\<close>

theorem running_attempt_has_running_job:
  assumes "reachable_store db"
  shows "distinct (map (\<lambda>p. (p_job p, p_name p)) (pair_runs db)) \<and>
    list_all (\<lambda>p. p_status p \<noteq> JRunning \<or> status_of db (p_job p) = Some JRunning) (pair_runs db)"
proof -
  have wf: "store_wf db" by (rule reachable_wf [OF assms])
  have "status_of db (p_job p) = Some JRunning" if p: "p \<in> set (pair_runs db)" "p_status p = JRunning" for p
  proof -
    from wf p obtain r where "r \<in> set (jobs db)" "j_id r = p_job p" "is_running r"
      by (auto simp: store_wf_def runs_wf_def)
    with job_by_id_in [of db r] wf show ?thesis
      by (simp add: status_of_def store_wf_def is_running_def)
  qed
  moreover have "pair_key = (\<lambda>p. (p_job p, p_name p))" by (simp add: fun_eq_iff pair_key_def)
  ultimately show ?thesis
    using wf by (auto simp: list_all_iff store_wf_def runs_wf_def keys_distinct_def)
qed

theorem running_attempt_has_running_job_witness:
  "list_all (\<lambda>p. p_status p \<noteq> JRunning \<or> status_of demo_started (p_job p) = Some JRunning)
     (pair_runs demo_started)"
  using running_attempt_has_running_job [OF reachable_started] by blast

subsection \<open>External outcomes\<close>

lemma settling_started: "settling demo_started 1 JError (intent_payload None)"
  unfolding settling_def using reachable_wf [OF reachable_started] started_status started_intent by blast

lemma fresh_settling:
  assumes "reachable_store db" and "status_of db jid = Some JRunning" and "intent_of db jid = None"
  shows "settling db jid status payload"
  using reachable_wf [OF assms(1)] assms(2,3) by (simp add: settling_def)

text \<open>Staging an outcome is idempotent and exclusive. Once an outcome is staged, staging the same
  outcome again succeeds and keeps it, and staging a different status or summary is refused.\<close>

theorem staged_outcome_is_unique:
  assumes "job_terminal_stage jid st s now db = Inr db1" and "parse_status st' = Some status'"
    and "status' \<noteq> JRunning"
  shows "if parse_status st = Some status' \<and> intent_payload s' = intent_payload s
    then \<exists>db2. job_terminal_stage jid st' s' now' db1 = Inr db2 \<and> staged db2 jid status' (intent_payload s)
    else \<exists>e. job_terminal_stage jid st' s' now' db1 = Inl e"
  using assms(1)
proof (rule stage_effect)
  fix status new its t
  assume a: "parse_status st = Some status" "job_by_id db jid \<noteq> None"
    "fetch_one (\<lambda>t. t_job t = jid) its = Some t" "t_status t = status" "t_summary t = intent_payload s"
    "db1 = db\<lparr>intents := update_where (\<lambda>t. t_job t = jid) (\<lambda>t. t\<lparr>t_updated := now\<rparr>) its\<rparr>"
  have job: "job_by_id db1 jid \<noteq> None" using a(2) by (simp add: a(6) job_by_id_def)
  have i: "intent_of db1 jid = Some (t\<lparr>t_updated := now\<rparr>)"
    by (simp add: intent_of_def a(3,6) intent_update)
  show ?thesis
  proof (cases "status = status' \<and> intent_payload s' = intent_payload s")
    case True
    then have "staged db1 jid status' (intent_payload s')" by (simp add: staged_def i a(4,5))
    then obtain db2 where "job_terminal_stage jid st' s' now' db1 = Inr db2"
      "staged db2 jid status' (intent_payload s')"
      using stage_ok [OF assms(2,3) job, of s' now'] by blast
    with True a(1) show ?thesis by auto
  next
    case False
    then have "t_status (t\<lparr>t_updated := now\<rparr>) \<noteq> status' \<or> t_summary (t\<lparr>t_updated := now\<rparr>) \<noteq> intent_payload s'"
      using a(4,5) by auto
    from stage_differs [OF assms(2) i this] a(1) False show ?thesis by auto
  qed
qed

theorem staged_outcome_is_unique_witness:
  "\<exists>db1. job_terminal_stage 1 ''error'' None 300 demo_started = Inr db1 \<and>
     (\<exists>e. job_terminal_stage 1 ''ok'' None 301 db1 = Inl e)"
proof -
  obtain db1 where s: "job_terminal_stage 1 ''error'' None 300 demo_started = Inr db1"
    by (rule settling_stage [OF settling_started parse_error, of 300]) simp
  with staged_outcome_is_unique [OF s parse_ok, of None 301] parse_error show ?thesis by simp
qed

text \<open>A finish after external work returns as soon as one of its rounds is not interrupted. For a
  running job without a staged outcome, if any of the rounds allowed is free of faults, wherever the
  other rounds are cut, the call returns \<open>True\<close>, the job has the given status, and nothing of it is
  left pending.\<close>

theorem external_finish_returns:
  assumes "reachable_store db" and "status_of db jid = Some JRunning" and "intent_of db jid = None"
    and "parse_status st = Some status" and "status \<noteq> JRunning"
    and "i < nat (max 1 attempts)" and "fst (env i) = NoFault"
  shows "\<exists>db'. job_finish_external jid st s attempts env db = (db', Inr True) \<and>
    status_of db' jid = Some status \<and> \<not> job_terminal_pending jid db'"
proof -
  have "\<exists>f \<in> set (map env [0..<nat (max 1 attempts)]). fst f = NoFault"
    using assms(6,7) by (intro bexI [of _ "env i"]) simp_all
  from rounds_return [OF fresh_settling [OF assms(1-3)] assms(4,5) this]
  show ?thesis by (auto simp: job_finish_external_def settled_as_def)
qed

theorem external_finish_returns_witness:
  "\<exists>db'. job_finish_external 1 ''error'' None 3 (\<lambda>i. if i = 2 then (NoFault, 300) else (FaultMark, 300))
     demo_started = (db', Inr True) \<and> status_of db' 1 = Some JError \<and> \<not> job_terminal_pending 1 db'"
  by (rule external_finish_returns [OF reachable_started started_status started_intent parse_error,
      where i = 2]) simp_all

text \<open>C27: an outcome survives a process that dies while storing it. If every round of the finish is
  interrupted, but one got past the staging, then the recovery at the next start gives the job
  exactly the staged status, reports it as recovered and leaves nothing pending.\<close>

theorem interrupted_finish_is_recovered:
  assumes "reachable_store db" and "status_of db jid = Some JRunning" and "intent_of db jid = None"
    and "parse_status st = Some status" and "status \<noteq> JRunning"
    and "\<forall>i < nat (max 1 attempts). fst (env i) \<noteq> NoFault"
    and "i < nat (max 1 attempts)" and "fst (env i) \<noteq> FaultStage"
  shows "\<exists>db1. job_finish_external jid st s attempts env db = (db1, Inl OperationalError) \<and>
    (\<forall>now db2 recovered failed. job_terminal_recover_pending now db1 = (db2, recovered, failed) \<longrightarrow>
       status_of db2 jid = Some status \<and> jid \<in> set recovered \<and> \<not> job_terminal_pending jid db2)"
proof -
  let ?fs = "map env [0..<nat (max 1 attempts)]"
  have all: "\<forall>f \<in> set ?fs. fst f \<noteq> NoFault" using assms(6) by auto
  have some: "\<exists>f \<in> set ?fs. fst f \<noteq> FaultStage"
    using assms(7,8) by (intro bexI [of _ "env i"]) simp_all
  note ready = fresh_settling [OF assms(1-3)]
  from rounds_interrupted [OF ready assms(4,5) all] some
  obtain db1 where 1: "finish_rounds jid st s ?fs db = (db1, Inl OperationalError)"
    "settling db1 jid status (intent_payload s)" "staged db1 jid status (intent_payload s)"
    by blast
  have "job_terminal_pending jid db1"
    using rounds_pending [OF 1(1) all _ ready assms(4,5)] assms(3) some by blast
  with recover_settles [OF 1(2,3)] 1(1) show ?thesis
    unfolding job_finish_external_def settled_as_def by blast
qed

theorem interrupted_finish_is_recovered_witness:
  "\<exists>db1. job_finish_external 1 ''error'' None 2 (\<lambda>i. (FaultMark, 300)) demo_started =
       (db1, Inl OperationalError) \<and>
     (\<forall>now db2 recovered failed. job_terminal_recover_pending now db1 = (db2, recovered, failed) \<longrightarrow>
       status_of db2 1 = Some JError \<and> 1 \<in> set recovered \<and> \<not> job_terminal_pending 1 db2)"
  by (rule interrupted_finish_is_recovered [OF reachable_started started_status started_intent parse_error,
      where i = 0]) simp_all

subsection \<open>Batches\<close>

definition demo_batch :: jobs_db where
  "demo_batch = (case job_batch_create ''b1'' [[], []] PNone ''r1'' False 1 110 demo_started of
     Inl _ \<Rightarrow> demo_started | Inr (db, _) \<Rightarrow> db)"

definition demo_item_done :: jobs_db where
  "demo_item_done = (case job_batch_item_finish ''b1'' 0 ''done'' None 200 demo_batch of
     Inl _ \<Rightarrow> demo_batch | Inr (db, _) \<Rightarrow> db)"

lemma reachable_batch: "reachable_store demo_batch"
  using reachable_started unfolding reachable_store_def demo_batch_def
  by (auto intro: rtranclp.rtrancl_into_rtrancl step_batch_create split: sum.split)

lemma demo_batch_rows:
  "\<exists>b. batches demo_batch = [b] \<and> b_state b = BRunning \<and> b_id b = ''b1''"
  "items demo_batch = [new_item ''b1'' 1 110 (0, []), new_item ''b1'' 1 110 (1, [])]"
proof -
  obtain db where "job_start (demo_args ''backup'') 100 empty_jobs_db = Inr (db, 1)" "demo_started = db"
    by (auto simp: demo_started_def run_start_def job_start_def Let_def demo_args_def running_in_scope_def
        empty_jobs_db_def select_where_def order_desc_def)
  then have "items demo_started = []" "batches demo_started = []"
    using job_start_effect(5,6) by (auto simp: empty_jobs_db_def)
  then show "\<exists>b. batches demo_batch = [b] \<and> b_state b = BRunning \<and> b_id b = ''b1''"
    "items demo_batch = [new_item ''b1'' 1 110 (0, []), new_item ''b1'' 1 110 (1, [])]"
    by (simp_all add: demo_batch_def job_batch_create_def started_by_id [simplified])
qed

lemma demo_item_rows:
  "\<exists>b. batches demo_item_done = [b] \<and> b_state b = BRunning \<and> b_id b = ''b1''"
  "\<exists>i \<in> set (items demo_item_done). i_state i = IDone"
  using demo_batch_rows
  by (auto simp: demo_item_done_def job_batch_item_finish_def Let_def update_where_def new_item_def
      remaining_items_def count_where_def is_item_def open_item_def)

lemma reachable_item_done: "reachable_store demo_item_done"
  using reachable_batch unfolding reachable_store_def demo_item_done_def
  by (auto intro: rtranclp.rtrancl_into_rtrancl step_item_finish split: sum.split)

text \<open>C28: in every reachable state a batch is marked running exactly while one of its items is
  queued or running, whichever operation ended the last item: a finish, or the recovery at startup.\<close>

theorem batch_runs_while_items_open:
  assumes "reachable_store db" and "b \<in> set (batches db)"
  shows "b_state b = BRunning \<longleftrightarrow>
    (\<exists>i \<in> set (items db). i_batch i = b_id b \<and> (i_state i = IQueued \<or> i_state i = IRunning))"
  using reachable_batch_wf [OF assms(1)] assms(2) remaining_pos [of "b_id b" "items db"]
  by (simp add: batch_wf_def open_item_def)

theorem batch_runs_while_items_open_witness:
  "\<exists>b. batches demo_item_done = [b] \<and> b_state b = BRunning \<and>
    (\<exists>i \<in> set (items demo_item_done). i_batch i = ''b1'' \<and> (i_state i = IQueued \<or> i_state i = IRunning))"
proof -
  obtain b where b: "batches demo_item_done = [b]" "b_state b = BRunning" "b_id b = ''b1''"
    using demo_item_rows(1) by blast
  with batch_runs_while_items_open [OF reachable_item_done, of b] show ?thesis by simp
qed

text \<open>The outcome of a batch item is final. Once an item has ended, every later state that has
  the item gives the same outcome, error and times; only the job id may be detached.\<close>

theorem batch_item_outcome_is_final:
  assumes "reachable_store db" and "i \<in> set (items db)"
    and "i_state i \<noteq> IQueued" and "i_state i \<noteq> IRunning"
    and "job_steps db db'" and "k \<in> set (items db')" and "i_batch k = i_batch i" and "i_pos k = i_pos i"
  shows "k\<lparr>i_job := None\<rparr> = i\<lparr>i_job := None\<rparr>"
  using item_rows.result_is_final [OF assms(5) reachable_batch_wf [OF assms(1)] assms(2) _ assms(6)] assms
  by (simp add: open_item_def item_key_def frozen_item_def)

theorem batch_item_outcome_is_final_witness:
  "\<exists>i \<in> set (items demo_item_done). i_state i = IDone \<and>
     (\<forall>k \<in> set (items (fst (job_batch_recover ''b1'' 300 demo_item_done))).
        i_batch k = i_batch i \<and> i_pos k = i_pos i \<longrightarrow> k\<lparr>i_job := None\<rparr> = i\<lparr>i_job := None\<rparr>)"
proof -
  obtain i where i: "i \<in> set (items demo_item_done)" "i_state i = IDone" using demo_item_rows(2) by blast
  have "job_steps demo_item_done (fst (job_batch_recover ''b1'' 300 demo_item_done))"
    by (blast intro: step_recover)
  with i batch_item_outcome_is_final [OF reachable_item_done i(1)] show ?thesis by (intro bexI [of _ i]) auto
qed

end
