(* ===== verification/Record_Theorems.thy ===== *)
theory Record_Theorems
  imports Pair_History Schedule_State Restore_Evidence
begin

text \<open>
  Properties of what the job store writes about a run: bounded JSON columns, the history marker of
  a path, the scheduler's memory of a definition, and the verdict on restore evidence.
\<close>

subsection \<open>Bounded JSON\<close>

text \<open>C36: a stored JSON value keeps its byte budget. Whatever the value, as long as its own size has
  fewer than \<open>k\<close> digits and the budget leaves room for the fallback marker, the stored text is at
  most \<open>m\<close> long, a value that fits is stored unchanged, and bounding it again changes nothing.\<close>

theorem json_column_is_bounded:
  assumes "length (json_dumps v) < 10 ^ k" and "0 < k" and "39 + k \<le> m"
  shows "length (json_dumps (json_bounded v m)) \<le> m \<and>
    (length (json_dumps v) \<le> m \<longrightarrow> json_bounded v m = v) \<and>
    json_bounded (json_bounded v m) m = json_bounded v m"
  using json_bounded_length [OF assms] json_bounded_small json_bounded_idem [OF assms] by blast

theorem json_column_is_bounded_witness:
  "length (json_dumps (json_bounded (PList (replicate 30 (PStr ''abcd''))) 60)) \<le> 60 \<and>
   json_bounded (PList (replicate 30 (PStr ''abcd''))) 60 \<noteq> PList (replicate 30 (PStr ''abcd''))"
proof -
  have len: "length (json_dumps (PList (replicate 30 (PStr ''abcd'')))) = 240" by code_simp
  have le: "length (json_dumps (json_bounded (PList (replicate 30 (PStr ''abcd''))) 60)) \<le> 60"
    using json_column_is_bounded [of "PList (replicate 30 (PStr ''abcd''))" 3 60] by (simp only: len) simp
  have "json_bounded (PList (replicate 30 (PStr ''abcd''))) 60 \<noteq> PList (replicate 30 (PStr ''abcd''))"
  proof
    assume "json_bounded (PList (replicate 30 (PStr ''abcd''))) 60 = PList (replicate 30 (PStr ''abcd''))"
    with le have "length (json_dumps (PList (replicate 30 (PStr ''abcd'')))) \<le> 60" by (simp only:)
    then show False unfolding len by simp
  qed
  with le show ?thesis by blast
qed

subsection \<open>The history marker\<close>

record hist_event =
  v_name :: string
  v_seen :: real
  v_ok :: bool
  v_terminal :: bool
  v_success :: "real option"

definition record_event :: "string \<Rightarrow> hist_event \<Rightarrow> hist_row list \<Rightarrow> hist_row list" where
  "record_event key e = record_pair_history_state key (v_name e) (v_seen e) (v_ok e) (v_terminal e) (v_success e)"

definition marker_of :: "hist_row list \<Rightarrow> string \<Rightarrow> hist_row option" where
  "marker_of t key = fetch_one (\<lambda>r. h_key r = py_strip key) t"

definition marker_row :: "string \<Rightarrow> hist_event \<Rightarrow> hist_row" where
  "marker_row key e = \<lparr>h_key = py_strip key, h_name = py_strip (v_name e), h_ever = v_ok e, h_terminal = v_terminal e,
     h_first = v_seen e, h_last = v_seen e,
     h_success = (if v_ok e then Some (real_or (v_success e) (v_seen e)) else None)\<rparr>"

definition marker_step :: "string \<Rightarrow> hist_event \<Rightarrow> hist_row option \<Rightarrow> hist_row option" where
  "marker_step key e ro = (if py_strip (v_name e) = [] then ro
     else Some (case ro of None \<Rightarrow> marker_row key e | Some r \<Rightarrow> hist_merge r (marker_row key e)))"

lemma marker_record: "py_strip key \<noteq> [] \<Longrightarrow> marker_of (record_event key e t) key = marker_step key e (marker_of t key)"
  by (cases "py_strip (v_name e) = []")
    (simp_all add: marker_of_def record_event_def marker_step_def marker_row_def fetch_record_history Let_def split: option.split,
     simp add: record_pair_history_state_def Let_def)

lemma marker_fold:
  "py_strip key \<noteq> [] \<Longrightarrow> marker_of (fold (record_event key) es t) key = fold (marker_step key) es (marker_of t key)"
  by (induction es arbitrary: t) (simp_all add: marker_record)

lemma marker_row_last [simp]: "h_last (marker_row key e) = v_seen e"
  by (simp add: marker_row_def)

lemma marker_step_commute:
  assumes "v_seen a \<noteq> v_seen b"
  shows "marker_step key a \<circ> marker_step key b = marker_step key b \<circ> marker_step key a"
proof
  fix ro
  have "hist_merge (marker_row key a) (marker_row key b) = hist_merge (marker_row key b) (marker_row key a)"
    using assms by (intro hist_row.equality)
      (auto simp: hist_merge_fields marker_row_def min.commute max.commute split: option.split)
  then show "(marker_step key a \<circ> marker_step key b) ro = (marker_step key b \<circ> marker_step key a) ro"
    using assms by (cases ro) (simp_all add: marker_step_def hist_merge_commute)
qed

text \<open>The history marker of a path does not depend on the order of recording. Attempts recorded
  in any order, late or by a recovery, lead to the same marker, provided their timestamps differ.\<close>

theorem history_marker_order_irrelevant:
  assumes "py_strip key \<noteq> []" and "mset es = mset es'" and "distinct (map v_seen es)"
  shows "marker_of (fold (record_event key) es t) key = marker_of (fold (record_event key) es' t) key"
proof -
  have "fold (marker_step key) es = fold (marker_step key) es'"
  proof (rule fold_multiset_equiv [OF _ assms(2)])
    fix x y assume xy: "x \<in> set es" "y \<in> set es"
    show "marker_step key x \<circ> marker_step key y = marker_step key y \<circ> marker_step key x"
    proof (cases "x = y")
      case False
      with xy assms(3) have "v_seen x \<noteq> v_seen y" by (auto simp: distinct_map inj_on_def)
      then show ?thesis by (rule marker_step_commute)
    qed simp
  qed
  with assms(1) show ?thesis by (simp add: marker_fold)
qed

theorem history_marker_order_irrelevant_witness:
  "marker_of (fold (record_event ''k'') [\<lparr>v_name = ''a'', v_seen = 1, v_ok = True, v_terminal = True, v_success = None\<rparr>,
      \<lparr>v_name = ''b'', v_seen = 2, v_ok = False, v_terminal = True, v_success = None\<rparr>] []) ''k'' =
   marker_of (fold (record_event ''k'') [\<lparr>v_name = ''b'', v_seen = 2, v_ok = False, v_terminal = True, v_success = None\<rparr>,
      \<lparr>v_name = ''a'', v_seen = 1, v_ok = True, v_terminal = True, v_success = None\<rparr>] []) ''k''"
proof (rule history_marker_order_irrelevant)
  show "py_strip ''k'' \<noteq> []" by code_simp
qed simp_all

text \<open>A marker only grows. Recording an attempt never unsets that the path ever succeeded or ended,
  never moves its first activity later or its last activity or last success earlier.\<close>

theorem history_marker_only_grows:
  assumes "fetch_one (\<lambda>r. h_key r = c) t = Some r"
  shows "\<exists>r'. fetch_one (\<lambda>r. h_key r = c) (record_pair_history_state k n s ok tm sa t) = Some r' \<and>
    (h_ever r \<longrightarrow> h_ever r') \<and> (h_terminal r \<longrightarrow> h_terminal r') \<and>
    h_first r' \<le> h_first r \<and> h_last r \<le> h_last r' \<and>
    (\<forall>u. h_success r = Some u \<longrightarrow> (\<exists>u'. h_success r' = Some u' \<and> u \<le> u'))"
  using assms by (rule record_history_grows)

theorem history_marker_only_grows_witness:
  "\<exists>r'. fetch_one (\<lambda>r. h_key r = ''k'') (record_pair_history_state ''k'' ''n'' 5 False True None
      [\<lparr>h_key = ''k'', h_name = ''n'', h_ever = True, h_terminal = True, h_first = 3, h_last = 9, h_success = Some 9\<rparr>]) = Some r' \<and>
    h_ever r' \<and> h_first r' \<le> 3 \<and> 9 \<le> h_last r'"
  using history_marker_only_grows [of "''k''" "[\<lparr>h_key = ''k'', h_name = ''n'', h_ever = True, h_terminal = True,
      h_first = 3, h_last = 9, h_success = Some 9\<rparr>]" "\<lparr>h_key = ''k'', h_name = ''n'', h_ever = True, h_terminal = True,
      h_first = 3, h_last = 9, h_success = Some 9\<rparr>" "''k''" "''n''" 5 False True None]
  by auto

subsection \<open>The scheduler's memory\<close>

text \<open>C37: after any sequence of events, in whatever order they are recorded, the success columns of a
  definition hold its latest real success: an event of the sequence, not a dry run, with the
  greatest start time (ties by job id).\<close>

theorem schedule_keeps_latest_success:
  assumes "\<forall>e \<in> set es. 0 \<le> e_started e"
    and "e \<in> set es" and "e_status e = JOk" and "\<not> e_dry e" and "py_strip (e_def_id e) = d" and "d \<noteq> []"
  shows "\<exists>r x. sched_of (fold record_schedule_state es []) d = Some r \<and> x \<in> set es \<and> e_status x = JOk \<and>
    \<not> e_dry x \<and> py_strip (e_def_id x) = d \<and> success_from x r \<and> at_least (ev_cand x) (ev_cand e)"
proof -
  have t: "successes.taken d e"
    using assms(3-6) by (simp add: successes.taken_def relevant_def succeeded_def)
  with assms(2) have ex: "\<exists>x \<in> set es. successes.taken d x" by blast
  from successes.latest_fold [OF assms(1), of d] obtain r x where x:
    "sched_of (fold record_schedule_state es []) d = Some r" "x \<in> set es" "successes.taken d x" "success_from x r"
    "\<forall>e \<in> set es. successes.taken d e \<longrightarrow> at_least (ev_cand x) (ev_cand e)"
    unfolding successes.latest_some [OF ex] by blast
  with t assms(2) show ?thesis
    by (intro exI [of _ r] exI [of _ x]) (auto simp: successes.taken_def relevant_def succeeded_def)
qed

definition demo_event :: "nat \<Rightarrow> real \<Rightarrow> job_status \<Rightarrow> sched_event" where
  "demo_event j s st = \<lparr>e_def_id = ''d1'', e_def_name = ''n'', e_job = j, e_started = s, e_ended = None, e_status = st,
     e_trigger = ''scheduler'', e_slot = None, e_dry = False\<rparr>"

theorem schedule_keeps_latest_success_witness:
  "\<exists>r x. sched_of (fold record_schedule_state [demo_event 2 20 JOk, demo_event 1 10 JOk] []) ''d1'' = Some r \<and>
    success_from x r \<and> at_least (ev_cand x) (20, 2)"
proof -
  have "py_strip ''d1'' = ''d1''" by code_simp
  then show ?thesis
    using schedule_keeps_latest_success [of "[demo_event 2 20 JOk, demo_event 1 10 JOk]" "demo_event 2 20 JOk" "''d1''"]
    by (auto simp: demo_event_def ev_cand_def)
qed

text \<open>Likewise the attempt columns hold the latest scheduler attempt; a manual run or a dry run
  never replaces it.\<close>

theorem schedule_keeps_latest_attempt:
  assumes "\<forall>e \<in> set es. 0 \<le> e_started e"
    and "e \<in> set es" and "norm_trigger (e_trigger e) = ''scheduler''" and "\<not> e_dry e" and "py_strip (e_def_id e) = d" and "d \<noteq> []"
  shows "\<exists>r x. sched_of (fold record_schedule_state es []) d = Some r \<and> x \<in> set es \<and>
    norm_trigger (e_trigger x) = ''scheduler'' \<and> \<not> e_dry x \<and> py_strip (e_def_id x) = d \<and>
    attempt_from x r \<and> at_least (ev_cand x) (ev_cand e)"
proof -
  have t: "attempts.taken d e"
    using assms(3-6) by (simp add: attempts.taken_def relevant_def scheduler_attempt_def)
  with assms(2) have ex: "\<exists>x \<in> set es. attempts.taken d x" by blast
  from attempts.latest_fold [OF assms(1), of d] obtain r x where x:
    "sched_of (fold record_schedule_state es []) d = Some r" "x \<in> set es" "attempts.taken d x" "attempt_from x r"
    "\<forall>e \<in> set es. attempts.taken d e \<longrightarrow> at_least (ev_cand x) (ev_cand e)"
    unfolding attempts.latest_some [OF ex] by blast
  with t assms(2) show ?thesis
    by (intro exI [of _ r] exI [of _ x]) (auto simp: attempts.taken_def relevant_def scheduler_attempt_def)
qed

theorem schedule_keeps_latest_attempt_witness:
  "\<exists>r x. sched_of (fold record_schedule_state [demo_event 2 20 JError, demo_event 1 10 JOk] []) ''d1'' = Some r \<and>
    attempt_from x r \<and> at_least (ev_cand x) (20, 2)"
proof -
  have "py_strip ''d1'' = ''d1''" "norm_trigger ''scheduler'' = ''scheduler''" by code_simp+
  then show ?thesis
    using schedule_keeps_latest_attempt [of "[demo_event 2 20 JError, demo_event 1 10 JOk]" "demo_event 2 20 JError" "''d1''"]
    by (auto simp: demo_event_def ev_cand_def)
qed

subsection \<open>Restore evidence\<close>

text \<open>A restore proof is called valid only when all of this holds: the result is bound to the
  path as configured now, it is younger than seven days and not from the future, it is not a partial
  sample and not cut by the scan limit, the attempt was successful, and the sample was complete with
  as many files verified as selected, at least one.\<close>

theorem evidence_valid_only_when_complete:
  assumes "evaluate_restore_evidence sha pair history current = Inr ev" and "ev_valid ev"
  shows "\<exists>result c n. result = as_dict (py_or (py_get (ev_attempt ev) ''pair'') (PDict [])) \<and>
    binding_matches (py_get result ''evidence_binding'') (pair_binding sha pair) \<and>
    evidence_checked result = Some c \<and> c \<le> current + 60 \<and> current < c + 7 * 24 * 3600 \<and>
    truthy (py_get (ev_attempt ev) ''ok'') \<and> \<not> truthy (py_get result ''truncated'') \<and>
    py_get result ''sample_status'' = PStr ''complete'' \<and> 0 < n \<and>
    py_int (py_or (py_get result ''verified'') (PInt 0)) = Inr n \<and>
    py_int (py_or (py_get result ''sample_size'') (PInt 0)) = Inr n"
proof -
  define result where "result = as_dict (py_or (py_get (ev_attempt ev) ''pair'') (PDict []))"
  from assms obtain reason where v: "evidence_verdict sha pair (ev_attempt ev) result current = Inr (EvPassed, reason)"
    by (auto simp: evaluate_restore_evidence_def Let_def result_def)
  note p = evidence_verdict_passed [OF v]
  from p(3) obtain c where c: "evidence_checked result = Some c" "c \<le> current + 60"
    "current < c + 7 * 24 * 3600" by (auto simp: max_evidence_age_sec_def)
  from incomplete_counts_False [OF p(6)] obtain n where n: "py_get result ''sample_status'' = PStr ''complete''" "0 < n"
    "py_int (py_or (py_get result ''verified'') (PInt 0)) = Inr n"
    "py_int (py_or (py_get result ''sample_size'') (PInt 0)) = Inr n" by blast
  from p(1,4) have "truthy (py_get (ev_attempt ev) ''ok'')" by blast
  with p(2,5) c n show ?thesis using result_def by blast
qed

definition demo_result :: pydict where
  "demo_result = [(''ok'', PBool True), (''sample_status'', PStr ''complete''), (''verified'', PInt 3), (''sample_size'', PInt 3),
     (''evidence_checked_at'', PFloat 100),
     (''evidence_binding'', PDict [(''pair_id'', PStr ''p1''), (''fingerprint'', PStr ''f'')])]"

definition demo_history :: pydict where
  "demo_history = [(''last_result'', PDict [(''ok'', PBool True), (''pair'', PDict demo_result)])]"

definition demo_evaluation :: "evidence result" where
  "demo_evaluation = evaluate_restore_evidence (\<lambda>_. ''f'') [(''id'', PStr ''p1'')] demo_history 200"

lemma demo_evaluation_valid: "case demo_evaluation of Inl _ \<Rightarrow> False | Inr ev \<Rightarrow> ev_valid ev"
  by code_simp

theorem evidence_valid_only_when_complete_witness:
  "\<exists>ev. demo_evaluation = Inr ev \<and> truthy (py_get (ev_attempt ev) ''ok'')"
proof -
  obtain ev where ev: "demo_evaluation = Inr ev" "ev_valid ev"
    using demo_evaluation_valid by (auto split: sum.splits)
  from evidence_valid_only_when_complete [OF ev(1) [unfolded demo_evaluation_def] ev(2)] ev(1)
  show ?thesis by blast
qed

text \<open>A run counts as a verified partial sample only if nothing in it failed. If the summary of a
  restore test is classified that way, none of its results was cancelled, at least one is itself a
  verified partial sample, and each of those restored and verified every selected file, with exit
  code 0 and fewer files than requested.\<close>

theorem partial_summary_has_no_failure:
  assumes "is_partial_restore_summary (PDict d)"
  shows "\<exists>rs. py_get d ''pairs'' = PList rs \<and>
    (\<forall>r \<in> set rs. \<exists>e. r = PDict e \<and> \<not> truthy (py_get e ''cancelled'') \<and>
       (is_verified_partial r \<or> \<not> truthy (py_get e ''error''))) \<and>
    (\<exists>r \<in> set rs. \<exists>e n q. r = PDict e \<and> is_verified_partial r \<and> sample_counts e = Some (n, n, q, n) \<and>
       0 < n \<and> n < q \<and> py_get e ''return_code'' = PInt 0)"
proof -
  from assms obtain rs where rs: "py_get d ''pairs'' = PList rs" "partial_scan rs False"
    by (auto simp: is_partial_restore_summary_def split: pyval.splits)
  from partial_scan_seen [OF rs(2)] obtain r where r: "r \<in> set rs" "is_verified_partial r" by blast
  from r(2) obtain e n q where "r = PDict e" "sample_counts e = Some (n, n, q, n)" "0 < n" "n < q"
    "py_get e ''return_code'' = PInt 0" by (rule verified_partial_counts)
  with rs(1) r partial_scan_sound [OF rs(2)] show ?thesis by blast
qed

definition demo_partial :: pydict where
  "demo_partial = [(''kind'', PStr ''restoretest''), (''pairs'', PList [PDict [(''ok'', PBool False),
     (''sample_status'', PStr ''partial_selection''), (''verified'', PInt 2), (''sample_size'', PInt 2),
     (''requested_sample_size'', PInt 5), (''restored_files'', PInt 2), (''return_code'', PInt 0),
     (''sample_shortfall_reason'', PStr ''byte_budget'')]])]"

theorem partial_summary_has_no_failure_witness:
  "\<exists>rs. py_get demo_partial ''pairs'' = PList rs \<and> (\<exists>r \<in> set rs. is_verified_partial r)"
proof -
  have "is_partial_restore_summary (PDict demo_partial)"
    by (simp add: is_partial_restore_summary_def demo_partial_def py_get_def any_key_def is_drill_aggregate_def
        is_verified_partial_def is_False_def is_True_def sample_counts_def counts_ok_def py_get_default_def
        shortfall_reasons_def)
  from partial_summary_has_no_failure [OF this] show ?thesis by blast
qed

end
