(* ===== verification/Auth_Failures.thy ===== *)
theory Auth_Failures
  imports Sql_Table
begin

text \<open>
  The brake on failed logins: the table \<open>auth_failures\<close> of \<open>app/db.py\<close> and the gate of \<open>app/auth.py\<close>
  in front of it, with the in-memory fallback for the time the database cannot be reached.
  A failure counts within a window that starts with its first failure; the failure that reaches the
  limit locks the key and starts a new count. Wall clock and monotonic clock are arguments.
\<close>

subsection \<open>The table\<close>

record auth_row =
  f_key :: string
  f_window :: real
  f_count :: nat
  f_blocked :: real
  f_updated :: real

definition whole_seconds :: "real \<Rightarrow> int" where
  "whole_seconds x = trunc_real x"

definition auth_row_of :: "auth_row list \<Rightarrow> string \<Rightarrow> auth_row option" where
  "auth_row_of t key = fetch_one (\<lambda>r. f_key r = key) t"

definition blocked_until_of :: "auth_row list \<Rightarrow> string \<Rightarrow> real" where
  "blocked_until_of t key = (case auth_row_of t key of None \<Rightarrow> 0 | Some r \<Rightarrow> f_blocked r)"

definition auth_retry_after :: "string \<Rightarrow> real \<Rightarrow> auth_row list \<Rightarrow> int" where
  "auth_retry_after key now t =
     (case auth_row_of t key of
        None \<Rightarrow> 0
      | Some r \<Rightarrow> if f_blocked r > now then max 1 (whole_seconds (f_blocked r - now)) else 0)"

definition auth_keys :: "string list \<Rightarrow> string list" where
  "auth_keys ks = rev (remdups (rev (filter (\<lambda>k. k \<noteq> []) ks)))"

definition auth_retry_after_many :: "string list \<Rightarrow> real \<Rightarrow> auth_row list \<Rightarrow> int" where
  "auth_retry_after_many ks now t =
     (let keys = auth_keys ks;
          blocked = fold (\<lambda>k b. max b (blocked_until_of t k)) keys 0
      in if keys = [] then 0
         else if blocked > now then max 1 (whole_seconds (blocked - now)) else 0)"

record auth_policy =
  w_window :: int
  w_max :: int
  w_lock :: int

definition count_failure :: "auth_policy \<Rightarrow> real \<Rightarrow> auth_row option \<Rightarrow> real \<times> nat \<times> real" where
  "count_failure pol now row =
     (let (window, fails, blocked) =
            (case row of
               None \<Rightarrow> (now, 1, 0)
             | Some r \<Rightarrow> if now - f_window r > of_int (w_window pol) then (now, 1, 0)
                        else (f_window r, Suc (f_count r), f_blocked r))
      in if int fails \<ge> w_max pol then (now, 0, max blocked (now + of_int (w_lock pol)))
         else (window, fails, blocked))"

definition put_failure :: "string \<Rightarrow> real \<Rightarrow> real \<times> nat \<times> real \<Rightarrow> auth_row list \<Rightarrow> auth_row list" where
  "put_failure key now s t =
     (case s of (window, fails, blocked) \<Rightarrow>
        upsert_where (\<lambda>r. f_key r = key)
          \<lparr>f_key = key, f_window = window, f_count = fails, f_blocked = blocked, f_updated = now\<rparr>
          (\<lambda>r. r\<lparr>f_window := window, f_count := fails, f_blocked := blocked, f_updated := now\<rparr>) t)"

definition auth_record_failure ::
  "auth_policy \<Rightarrow> string \<Rightarrow> real \<Rightarrow> auth_row list \<Rightarrow> auth_row list \<times> int" where
  "auth_record_failure pol key now t =
     (let s = count_failure pol now (auth_row_of t key)
      in (put_failure key now s t, max 0 (whole_seconds (snd (snd s) - now))))"

definition record_one :: "auth_policy \<Rightarrow> real \<Rightarrow> string \<Rightarrow> auth_row list \<times> real \<Rightarrow> auth_row list \<times> real" where
  "record_one pol now key acc =
     (case acc of (t, longest) \<Rightarrow>
        (let s = count_failure pol now (auth_row_of t key)
         in (put_failure key now s t, max longest (snd (snd s)))))"

definition auth_record_failure_many ::
  "auth_policy \<Rightarrow> string list \<Rightarrow> real \<Rightarrow> auth_row list \<Rightarrow> auth_row list \<times> int" where
  "auth_record_failure_many pol ks now t =
     (let keys = auth_keys ks in
      if keys = [] then (t, 0)
      else (case fold (record_one pol now) keys (t, 0) of (t', longest) \<Rightarrow>
             (t', if longest > now then max 1 (whole_seconds (longest - now)) else 0)))"

definition auth_clear :: "string \<Rightarrow> auth_row list \<Rightarrow> auth_row list" where
  "auth_clear key t = delete_where (\<lambda>r. f_key r = key) t"

definition auth_clear_many :: "string list \<Rightarrow> auth_row list \<Rightarrow> auth_row list" where
  "auth_clear_many ks t = fold auth_clear (auth_keys ks) t"

definition auth_prune :: "int \<Rightarrow> real \<Rightarrow> auth_row list \<Rightarrow> auth_row list \<times> nat" where
  "auth_prune days now t =
     (let old = (\<lambda>r. f_updated r < now - of_int (max 1 days * 86400))
      in (delete_where old t, count_where old t))"

subsection \<open>The fallback\<close>

record fallback =
  fb_failures :: "string \<Rightarrow> real list"
  fb_blocked :: "string \<Rightarrow> real option"

definition empty_fallback :: fallback where
  "empty_fallback = \<lparr>fb_failures = (\<lambda>_. []), fb_blocked = (\<lambda>_. None)\<rparr>"

definition recent :: "int \<Rightarrow> real \<Rightarrow> real list \<Rightarrow> real list" where
  "recent window now ts = dropWhile (\<lambda>x. now - x > of_int window) ts"

definition fallback_retry_after :: "string \<Rightarrow> int \<Rightarrow> real \<Rightarrow> fallback \<Rightarrow> fallback \<times> int" where
  "fallback_retry_after key window now fb =
     (let blocked = (case fb_blocked fb key of None \<Rightarrow> 0 | Some b \<Rightarrow> b) in
      if blocked > now then (fb, max 1 (whole_seconds (blocked - now)))
      else (fb\<lparr>fb_blocked := (fb_blocked fb)(key := None),
               fb_failures := (fb_failures fb)(key := recent window now (fb_failures fb key))\<rparr>, 0))"

definition fallback_record :: "auth_policy \<Rightarrow> string \<Rightarrow> real \<Rightarrow> fallback \<Rightarrow> fallback \<times> int" where
  "fallback_record pol key now fb =
     (let ts = recent (w_window pol) now (fb_failures fb key) @ [now] in
      if int (length ts) \<ge> w_max pol
      then (fb\<lparr>fb_blocked := (fb_blocked fb)(key \<mapsto> now + of_int (w_lock pol)),
               fb_failures := (fb_failures fb)(key := [])\<rparr>, w_lock pol)
      else (fb\<lparr>fb_failures := (fb_failures fb)(key := ts)\<rparr>, 0))"

definition fallback_clear :: "string \<Rightarrow> fallback \<Rightarrow> fallback" where
  "fallback_clear key fb =
     fb\<lparr>fb_failures := (fb_failures fb)(key := []), fb_blocked := (fb_blocked fb)(key := None)\<rparr>"

fun fallback_retry_many :: "string list \<Rightarrow> int \<Rightarrow> real \<Rightarrow> fallback \<Rightarrow> fallback \<times> int" where
  "fallback_retry_many [] window now fb = (fb, 0)"
| "fallback_retry_many (k # ks) window now fb =
     (case fallback_retry_after k window now fb of (fb1, n) \<Rightarrow>
        (case fallback_retry_many ks window now fb1 of (fb2, m) \<Rightarrow> (fb2, max n m)))"

fun fallback_record_many :: "auth_policy \<Rightarrow> string list \<Rightarrow> real \<Rightarrow> fallback \<Rightarrow> fallback \<times> int" where
  "fallback_record_many pol [] now fb = (fb, 0)"
| "fallback_record_many pol (k # ks) now fb =
     (case fallback_record pol k now fb of (fb1, n) \<Rightarrow>
        (case fallback_record_many pol ks now fb1 of (fb2, m) \<Rightarrow> (fb2, max n m)))"

subsection \<open>The gate\<close>

definition login_policy :: "pydict \<Rightarrow> auth_policy" where
  "login_policy web =
     \<lparr>w_window = bounded_int (py_get_default web ''login_window_seconds'' (PInt 300)) 300 60 86400,
      w_max = bounded_int (py_get_default web ''login_max_failures'' (PInt 10)) 10 3 100,
      w_lock = bounded_int (py_get_default web ''login_lock_seconds'' (PInt 900)) 900 60 86400\<rparr>"

record auth_state =
  auth_rows :: "auth_row list"
  auth_memory :: fallback

text \<open>\<open>up\<close> says whether the database answers this call; if not, the fallback decides.\<close>

definition login_retry_after :: "bool \<Rightarrow> auth_policy \<Rightarrow> string \<Rightarrow> real \<Rightarrow> real \<Rightarrow> auth_state \<Rightarrow> auth_state \<times> int" where
  "login_retry_after up pol key now mt s =
     (if up then (s, auth_retry_after key now (auth_rows s))
      else (case fallback_retry_after key (w_window pol) mt (auth_memory s) of
              (fb, n) \<Rightarrow> (s\<lparr>auth_memory := fb\<rparr>, n)))"

definition record_login_failure :: "bool \<Rightarrow> auth_policy \<Rightarrow> string \<Rightarrow> real \<Rightarrow> real \<Rightarrow> auth_state \<Rightarrow> auth_state \<times> int" where
  "record_login_failure up pol key now mt s =
     (if up then (case auth_record_failure pol key now (auth_rows s) of (t, n) \<Rightarrow> (s\<lparr>auth_rows := t\<rparr>, n))
      else (case fallback_record pol key mt (auth_memory s) of (fb, n) \<Rightarrow> (s\<lparr>auth_memory := fb\<rparr>, n)))"

definition clear_login_failures :: "bool \<Rightarrow> string \<Rightarrow> auth_state \<Rightarrow> auth_state" where
  "clear_login_failures up key s =
     s\<lparr>auth_rows := (if up then auth_clear key (auth_rows s) else auth_rows s),
       auth_memory := fallback_clear key (auth_memory s)\<rparr>"

definition reauth_retry_after :: "bool \<Rightarrow> auth_policy \<Rightarrow> string list \<Rightarrow> real \<Rightarrow> real \<Rightarrow> auth_state \<Rightarrow> auth_state \<times> int" where
  "reauth_retry_after up pol keys now mt s =
     (if up then (s, auth_retry_after_many keys now (auth_rows s))
      else (case fallback_retry_many keys (w_window pol) mt (auth_memory s) of
              (fb, n) \<Rightarrow> (s\<lparr>auth_memory := fb\<rparr>, n)))"

definition record_reauth_failure :: "bool \<Rightarrow> auth_policy \<Rightarrow> string list \<Rightarrow> real \<Rightarrow> real \<Rightarrow> auth_state \<Rightarrow> auth_state \<times> int" where
  "record_reauth_failure up pol keys now mt s =
     (if up then (case auth_record_failure_many pol keys now (auth_rows s) of (t, n) \<Rightarrow> (s\<lparr>auth_rows := t\<rparr>, n))
      else (case fallback_record_many pol keys mt (auth_memory s) of (fb, n) \<Rightarrow> (s\<lparr>auth_memory := fb\<rparr>, n)))"

definition clear_reauth_failures :: "bool \<Rightarrow> string list \<Rightarrow> auth_state \<Rightarrow> auth_state" where
  "clear_reauth_failures up keys s =
     s\<lparr>auth_rows := (if up then auth_clear_many keys (auth_rows s) else auth_rows s),
       auth_memory := fold fallback_clear keys (auth_memory s)\<rparr>"

datatype reauth_outcome = Granted string | RateLimited int | Denied

text \<open>\<open>generation\<close> is what \<open>verify_password_with_generation\<close> returned for the given password.\<close>

definition require_reauthentication ::
  "bool \<Rightarrow> auth_policy \<Rightarrow> string list \<Rightarrow> string option \<Rightarrow> real \<Rightarrow> real \<Rightarrow> auth_state \<Rightarrow> auth_state \<times> reauth_outcome" where
  "require_reauthentication up pol keys generation now mt s =
     (case reauth_retry_after up pol keys now mt s of (s1, retry) \<Rightarrow>
        if retry \<noteq> 0 then (s1, RateLimited (max 1 retry))
        else (case generation of
            Some g \<Rightarrow> (clear_reauth_failures up keys s1, Granted g)
          | None \<Rightarrow> (case record_reauth_failure up pol keys now mt s1 of (s2, retry2) \<Rightarrow>
              (s2, if retry2 \<noteq> 0 then RateLimited (max 1 retry2) else Denied))))"

subsection \<open>Facts about the table\<close>

lemma whole_seconds_of_int [simp]: "whole_seconds (of_int n) = n"
  by (simp add: whole_seconds_def trunc_real_def)

lemma whole_seconds_mono: "x \<le> y \<Longrightarrow> whole_seconds x \<le> whole_seconds y"
proof -
  assume a: "x \<le> y"
  have "\<lfloor>x\<rfloor> \<le> \<lfloor>y\<rfloor>" "\<lceil>x\<rceil> \<le> \<lceil>y\<rceil>" using a by (simp_all add: floor_mono ceiling_mono)
  moreover have "\<lceil>x\<rceil> \<le> \<lfloor>y\<rfloor>" if "\<not> 0 \<le> x" "0 \<le> y"
    using that by (meson ceiling_le_zero le_floor_iff not_le_imp_less order.strict_implies_order order_trans zero_le_floor)
  ultimately show ?thesis using a by (simp add: whole_seconds_def trunc_real_def)
qed

lemma row_put:
  "auth_row_of (put_failure key now (window, fails, blocked) t) k =
   (if k = key then Some (case auth_row_of t key of
        None \<Rightarrow> \<lparr>f_key = key, f_window = window, f_count = fails, f_blocked = blocked, f_updated = now\<rparr>
      | Some r \<Rightarrow> r\<lparr>f_window := window, f_count := fails, f_blocked := blocked, f_updated := now\<rparr>)
    else auth_row_of t k)"
  unfolding auth_row_of_def put_failure_def prod.case by (rule fetch_one_upsert) simp_all

lemma record_other:
  "k \<noteq> key \<Longrightarrow> auth_row_of (fst (auth_record_failure pol key now t)) k = auth_row_of t k"
  unfolding auth_record_failure_def Let_def fst_conv
  by (cases "count_failure pol now (auth_row_of t key)") (simp add: row_put)

definition record_all :: "auth_policy \<Rightarrow> string \<Rightarrow> real list \<Rightarrow> auth_row list \<Rightarrow> auth_row list" where
  "record_all pol key ts t = fold (\<lambda>now t. fst (auth_record_failure pol key now t)) ts t"

lemma record_all_snoc:
  "record_all pol key (ts @ [now]) t = fst (auth_record_failure pol key now (record_all pol key ts t))"
  by (simp add: record_all_def)

lemma record_all_Nil [simp]: "record_all pol key [] t = t"
  by (simp add: record_all_def)

text \<open>Below the limit a key has at most as many failures as were recorded, and no lock.\<close>

lemma below_limit:
  assumes "auth_row_of t key = None" and "int (length ts) < w_max pol"
  shows "case auth_row_of (record_all pol key ts t) key of
      None \<Rightarrow> ts = []
    | Some r \<Rightarrow> f_blocked r = 0 \<and> f_count r \<le> length ts \<and>
        ((\<forall>x \<in> set ts. x - hd ts \<le> of_int (w_window pol)) \<longrightarrow> f_window r = hd ts \<and> f_count r = length ts)"
  using assms(2)
proof (induction ts rule: rev_induct)
  case Nil
  then show ?case by (simp add: assms(1))
next
  case (snoc now ts)
  let ?t = "record_all pol key ts t"
  show ?case
  proof (cases "auth_row_of ?t key")
    case None
    with snoc have "ts = []" by simp
    have lim: "\<not> w_max pol \<le> 1" using snoc.prems by simp
    have "record_all pol key [now] t = fst (auth_record_failure pol key now t)"
      by (simp add: record_all_def)
    with lim show ?thesis
      unfolding \<open>ts = []\<close> append_Nil
      by (simp add: auth_record_failure_def Let_def count_failure_def row_put assms(1))
  next
    case (Some r)
    with snoc have r: "f_blocked r = 0" "f_count r \<le> length ts"
      "(\<forall>x \<in> set ts. x - hd ts \<le> of_int (w_window pol)) \<longrightarrow> f_window r = hd ts \<and> f_count r = length ts"
      by simp_all
    have no: "\<not> w_max pol \<le> 1 + int (f_count r)" using r(2) snoc.prems by simp
    have ne: "ts \<noteq> []" using Some assms(1) by auto
    show ?thesis
    proof (cases "now - f_window r > of_int (w_window pol)")
      case True
      have "\<not> w_max pol \<le> 1" using snoc.prems by simp
      with True Some have "auth_row_of (record_all pol key (ts @ [now]) t) key =
          Some (r\<lparr>f_window := now, f_count := 1, f_blocked := 0, f_updated := now\<rparr>)"
        by (simp add: record_all_snoc auth_record_failure_def Let_def count_failure_def row_put)
      with True r(3) ne show ?thesis by auto
    next
      case False
      with no Some have "auth_row_of (record_all pol key (ts @ [now]) t) key =
          Some (r\<lparr>f_window := f_window r, f_count := Suc (f_count r), f_blocked := f_blocked r, f_updated := now\<rparr>)"
        by (simp add: record_all_snoc auth_record_failure_def Let_def count_failure_def row_put)
      with r ne show ?thesis by auto
    qed
  qed
qed

lemma fold_max_ge: "b \<le> fold (\<lambda>k b. max b (g k)) ks b" for b :: real
  by (induction ks arbitrary: b) (auto intro: order_trans [OF max.cobounded1])

lemma fold_max_member: "k \<in> set ks \<Longrightarrow> g k \<le> fold (\<lambda>k b. max b (g k)) ks b" for b :: real
  by (induction ks arbitrary: b) (auto intro: order_trans [OF max.cobounded2 fold_max_ge])

lemma set_auth_keys [simp]: "set (auth_keys ks) = {k \<in> set ks. k \<noteq> []}"
  by (auto simp: auth_keys_def)

lemma retry_many_ge:
  assumes "k \<in> set ks" and "k \<noteq> []" and "0 < auth_retry_after k now t"
  shows "auth_retry_after k now t \<le> auth_retry_after_many ks now t"
proof -
  let ?b = "fold (\<lambda>k b. max b (blocked_until_of t k)) (auth_keys ks) 0"
  from assms(3) obtain r where r: "auth_row_of t k = Some r" "f_blocked r > now"
    by (auto simp: auth_retry_after_def split: option.splits if_splits)
  have ge: "blocked_until_of t k \<le> ?b" by (rule fold_max_member) (simp add: assms(1,2))
  with r have b: "f_blocked r \<le> ?b" by (simp add: blocked_until_of_def)
  have "auth_keys ks \<noteq> []" using assms(1,2) set_auth_keys [of ks] by (metis (mono_tags) empty_iff list.set(1) mem_Collect_eq)
  moreover have "whole_seconds (f_blocked r - now) \<le> whole_seconds (?b - now)"
    by (rule whole_seconds_mono) (use b in simp)
  ultimately show ?thesis
    using r b by (simp add: auth_retry_after_many_def auth_retry_after_def Let_def)
qed

subsection \<open>Properties\<close>

lemma limit_step:
  assumes "auth_row_of t key = None" and "int (Suc (length ts)) = w_max pol"
    and "\<forall>x \<in> set (ts @ [now]). x - hd (ts @ [now]) \<le> of_int (w_window pol)"
  shows "\<exists>r. auth_row_of (record_all pol key (ts @ [now]) t) key = Some r \<and>
    f_blocked r = max 0 (now + of_int (w_lock pol)) \<and> f_count r = 0"
proof (cases "auth_row_of (record_all pol key ts t) key")
  case None
  with below_limit [OF assms(1), of ts pol] assms(2) have ts: "ts = []" by simp
  have "record_all pol key (ts @ [now]) t = fst (auth_record_failure pol key now t)"
    by (simp add: record_all_def ts)
  with assms(2) show ?thesis
    by (simp add: auth_record_failure_def Let_def count_failure_def row_put assms(1) ts)
next
  case (Some r)
  have ne: "ts \<noteq> []" using Some assms(1) by auto
  from below_limit [OF assms(1), of ts pol] Some assms(2,3) ne
  have r: "f_blocked r = 0" "f_window r = hd ts" "f_count r = length ts" by simp_all
  have "\<not> now - f_window r > of_int (w_window pol)" using assms(3) ne r(2) by simp
  with Some r assms(2) show ?thesis
    by (simp add: record_all_snoc auth_record_failure_def Let_def count_failure_def row_put)
qed

text \<open>C33: the limit locks. After exactly \<open>login_max_failures\<close> failures of a key that all fall into
  the window of the first, the key is refused for the full lock time from the last failure on, and
  for the remaining whole seconds (at least one) at any moment before its end.\<close>

theorem failure_limit_locks:
  assumes "auth_row_of t key = None" and "int (length ts) = w_max pol" and "ts \<noteq> []"
    and "\<forall>x \<in> set ts. x - hd ts \<le> of_int (w_window pol)" and "0 \<le> last ts" and "1 \<le> w_lock pol"
    and "last ts \<le> now" and "now < last ts + of_int (w_lock pol)"
  shows "auth_retry_after key now (record_all pol key ts t) =
      max 1 (whole_seconds (last ts + of_int (w_lock pol) - now)) \<and>
    auth_retry_after key (last ts) (record_all pol key ts t) = w_lock pol"
proof -
  have ts: "ts = butlast ts @ [last ts]" using assms(3) by simp
  have len: "int (Suc (length (butlast ts))) = w_max pol" using assms(2,3) by simp
  obtain r where r: "auth_row_of (record_all pol key ts t) key = Some r"
    "f_blocked r = last ts + of_int (w_lock pol)"
    using limit_step [OF assms(1) len, of "last ts"] assms(4,5,6) ts by auto
  have "max 1 (w_lock pol) = w_lock pol" using assms(6) by simp
  with r assms(6,8) show ?thesis by (simp add: auth_retry_after_def)
qed

definition demo_policy :: auth_policy where
  "demo_policy = \<lparr>w_window = 300, w_max = 3, w_lock = 900\<rparr>"

theorem failure_limit_locks_witness:
  "auth_retry_after ''ip'' 30 (record_all demo_policy ''ip'' [10, 20, 30] []) = 900"
  using failure_limit_locks [of "[]" "''ip''" "[10, 20, 30]" demo_policy 30]
  by (simp add: demo_policy_def auth_row_of_def)

text \<open>Nothing below the limit locks. However few failures are spread over time, as long as
  there are fewer than \<open>login_max_failures\<close> of them the key is never refused.\<close>

theorem below_limit_never_locks:
  assumes "auth_row_of t key = None" and "int (length ts) < w_max pol" and "0 \<le> now"
  shows "auth_retry_after key now (record_all pol key ts t) = 0"
  using below_limit [OF assms(1,2)] assms(3) by (auto simp: auth_retry_after_def split: option.splits)

theorem below_limit_never_locks_witness:
  "auth_retry_after ''ip'' 25 (record_all demo_policy ''ip'' [10, 20] []) = 0"
  by (rule below_limit_never_locks) (simp_all add: auth_row_of_def demo_policy_def)

text \<open>A lock holds for the session and for the address separately, and the gate respects it. If
  one of the keys of a request is locked, the request is refused for at least that key's time,
  whatever password it brings, and no counter changes; so no request through the gate can end a
  lock early.\<close>

theorem locked_key_refuses_reauthentication:
  assumes "key \<in> set keys" and "key \<noteq> []" and "0 < auth_retry_after key now (auth_rows s)"
  shows "\<exists>n. require_reauthentication True pol keys generation now mt s = (s, RateLimited n) \<and>
    auth_retry_after key now (auth_rows s) \<le> n"
  using retry_many_ge [OF assms] assms(3)
  by (simp add: require_reauthentication_def reauth_retry_after_def)

definition demo_locked :: auth_state where
  "demo_locked = \<lparr>auth_rows = [\<lparr>f_key = ''ip'', f_window = 30, f_count = 0, f_blocked = 930, f_updated = 30\<rparr>],
     auth_memory = empty_fallback\<rparr>"

theorem locked_key_refuses_reauthentication_witness:
  "\<exists>n. require_reauthentication True demo_policy [''sitzung'', ''ip''] (Some ''g'') 31 0 demo_locked =
     (demo_locked, RateLimited n)"
proof -
  have "0 < auth_retry_after ''ip'' 31 (auth_rows demo_locked)"
    by (simp add: auth_retry_after_def auth_row_of_def demo_locked_def less_max_iff_disj)
  from locked_key_refuses_reauthentication [OF _ _ this, of "[''sitzung'', ''ip'']" demo_policy "Some ''g''" 0]
  show ?thesis by auto
qed

lemma sorted_dropWhile:
  "sorted ts \<Longrightarrow> dropWhile (\<lambda>x. now - x > w) ts = filter (\<lambda>x. now - x \<le> w) ts" for w :: real
proof (induction ts)
  case (Cons a ts)
  have "now - a \<le> w \<Longrightarrow> filter (\<lambda>x. now - x \<le> w) ts = ts"
    using Cons.prems by (intro filter_True) auto
  with Cons show ?case by auto
qed simp

text \<open>The in-memory fallback is a sliding window. With failure times in order, recording one more
  locks the key if and only if the failures of the last \<open>login_window_seconds\<close>, this one included,
  reach the limit; the key is then refused until the lock time has passed.\<close>

theorem fallback_locks_on_recent_failures:
  assumes "sorted (fb_failures fb key)" and "1 \<le> w_lock pol" and "0 \<le> now"
    and "now \<le> later" and "later < now + of_int (w_lock pol)"
  shows "let n = length (filter (\<lambda>x. now - x \<le> of_int (w_window pol)) (fb_failures fb key));
             (fb', locked) = fallback_record pol key now fb
         in locked = (if w_max pol \<le> int n + 1 then w_lock pol else 0) \<and>
            (w_max pol \<le> int n + 1 \<longrightarrow>
               snd (fallback_retry_after key (w_window pol) later fb') =
                 max 1 (whole_seconds (now + of_int (w_lock pol) - later)))"
proof -
  have "recent (w_window pol) now (fb_failures fb key) =
      filter (\<lambda>x. now - x \<le> of_int (w_window pol)) (fb_failures fb key)"
    unfolding recent_def by (rule sorted_dropWhile [OF assms(1)])
  with assms(5) show ?thesis
    by (simp add: fallback_record_def fallback_retry_after_def Let_def)
qed

theorem fallback_locks_on_recent_failures_witness:
  "let (fb', locked) = fallback_record demo_policy ''ip'' 400
        (empty_fallback\<lparr>fb_failures := (\<lambda>_. [50, 200, 390])\<rparr>)
   in locked = 900 \<and> snd (fallback_retry_after ''ip'' 300 1000 fb') = 300"
proof -
  have "whole_seconds (300 :: real) = 300" using whole_seconds_of_int [of 300] by simp
  then show ?thesis
    using fallback_locks_on_recent_failures [of "empty_fallback\<lparr>fb_failures := (\<lambda>_. [50, 200, 390])\<rparr>"
        "''ip''" demo_policy 400 1000]
    by (simp add: demo_policy_def Let_def split: prod.splits)
qed

text \<open>The table alone does not keep a lock: with a lock longer than the window, a failure recorded
  while the lock holds but after the window opens a new window and drops it.\<close>

theorem late_failure_drops_lock:
  "auth_retry_after ''ip'' 400 [\<lparr>f_key = ''ip'', f_window = 30, f_count = 0, f_blocked = 930, f_updated = 30\<rparr>] > 0 \<and>
   auth_retry_after ''ip'' 400 (fst (auth_record_failure demo_policy ''ip'' 400
     [\<lparr>f_key = ''ip'', f_window = 30, f_count = 0, f_blocked = 930, f_updated = 30\<rparr>])) = 0"
  by (simp add: auth_retry_after_def auth_row_of_def auth_record_failure_def Let_def count_failure_def
      put_failure_def upsert_where_def update_where_def demo_policy_def)

end
