(* ===== verification/Push_Outbox.thy ===== *)
theory Push_Outbox
  imports Json_Bounded Sql_Table
begin

text \<open>
  \<open>app/db.py\<close>: the devices registered for push messages and the outbox from which the dispatcher
  delivers. Rows of the outbox move from \<open>pending\<close> to \<open>sending\<close>, claimed by a dispatcher for the
  time of a lease, and from there to \<open>sent\<close>, \<open>failed\<close> or back to \<open>pending\<close> for another attempt.
\<close>

subsection \<open>State\<close>

record device_row =
  d_token :: string
  d_env :: string
  d_version :: string
  d_created :: real
  d_updated :: real
  d_expires :: real

datatype out_status = OPending | OSending | OSent | OFailed

record out_row =
  o_id :: nat
  o_dedupe :: string
  o_token :: string
  o_env :: string
  o_event :: string
  o_title :: string
  o_message :: string
  o_payload :: pyval
  o_status :: out_status
  o_attempts :: nat
  o_next :: real
  o_expires :: real
  o_lease :: real
  o_owner :: string
  o_error :: "string option"
  o_apns :: string
  o_created :: real
  o_updated :: real
  o_sent :: "real option"

record push_db =
  devices :: "device_row list"
  outbox :: "out_row list"
  next_out :: nat

definition empty_push_db :: push_db where
  "empty_push_db = \<lparr>devices = [], outbox = [], next_out = 1\<rparr>"

subsection \<open>Devices\<close>

definition push_device_upsert :: "string \<Rightarrow> string \<Rightarrow> string \<Rightarrow> int \<Rightarrow> real \<Rightarrow> push_db \<Rightarrow> push_db" where
  "push_device_upsert token env version lease now db =
     (let expires = now + of_int (max 3600 (min lease (90 * 86400))) in
      db\<lparr>devices := upsert_where (\<lambda>d. d_token d = token)
          \<lparr>d_token = token, d_env = env, d_version = version, d_created = now, d_updated = now, d_expires = expires\<rparr>
          (\<lambda>d. d\<lparr>d_env := env, d_version := version, d_updated := now, d_expires := expires\<rparr>) (devices db)\<rparr>)"

definition push_device_delete :: "string \<Rightarrow> string option \<Rightarrow> push_db \<Rightarrow> push_db \<times> bool" where
  "push_device_delete token claim_owner db =
     (let gone = (\<lambda>r. o_token r = token \<and>
            (case claim_owner of None \<Rightarrow> True | Some w \<Rightarrow> o_status r \<noteq> OSending \<or> o_owner r = w))
      in (db\<lparr>outbox := delete_where gone (outbox db), devices := delete_where (\<lambda>d. d_token d = token) (devices db)\<rparr>,
          exists_where (\<lambda>d. d_token d = token) (devices db)))"

definition push_device_exists :: "string \<Rightarrow> real \<Rightarrow> push_db \<Rightarrow> bool" where
  "push_device_exists token now db = exists_where (\<lambda>d. d_token d = token \<and> d_expires d > now) (devices db)"

definition push_devices_revoke_all :: "push_db \<Rightarrow> push_db \<times> nat" where
  "push_devices_revoke_all db = (db\<lparr>outbox := [], devices := []\<rparr>, length (devices db))"

definition limit_of :: "int \<Rightarrow> nat" where
  "limit_of n = nat (max 1 (min n 128))"

definition push_devices :: "int \<Rightarrow> real \<Rightarrow> push_db \<Rightarrow> device_row list" where
  "push_devices lmt now db =
     take (limit_of lmt) (order_desc d_updated (select_where (\<lambda>d. d_expires d > now) (devices db)))"

definition push_device_prune_expired :: "real \<Rightarrow> push_db \<Rightarrow> push_db \<times> nat" where
  "push_device_prune_expired now db =
     (let old = (\<lambda>d. d_expires d \<le> now);
          tokens = map d_token (select_where old (devices db))
      in (db\<lparr>outbox := delete_where (\<lambda>r. o_token r \<in> set tokens \<and> (o_status r \<noteq> OSending \<or> o_lease r \<le> now)) (outbox db),
             devices := delete_where old (devices db)\<rparr>,
          count_where old (devices db)))"

subsection \<open>Enqueueing\<close>

record message =
  m_event :: string
  m_title :: string
  m_message :: string
  m_payload :: pydict
  m_dedupe :: string

definition new_out :: "message \<Rightarrow> real \<Rightarrow> real \<Rightarrow> nat \<Rightarrow> string \<Rightarrow> device_row \<Rightarrow> out_row" where
  "new_out m now expires oid uuid d =
     \<lparr>o_id = oid, o_dedupe = take 256 (m_dedupe m), o_token = d_token d, o_env = d_env d,
      o_event = take 64 (m_event m), o_title = take 120 (m_title m), o_message = take 900 (m_message m),
      o_payload = json_bounded (PDict (m_payload m)) (8 * 1024), o_status = OPending, o_attempts = 0,
      o_next = now, o_expires = expires, o_lease = 0, o_owner = [], o_error = None, o_apns = uuid,
      o_created = now, o_updated = now, o_sent = None\<rparr>"

definition enqueue_one :: "message \<Rightarrow> real \<Rightarrow> real \<Rightarrow> device_row \<times> string \<Rightarrow> push_db \<times> nat \<Rightarrow> push_db \<times> nat" where
  "enqueue_one m now expires du acc =
     (case acc of (db, n) \<Rightarrow>
        if exists_where (\<lambda>r. o_dedupe r = take 256 (m_dedupe m) \<and> o_token r = d_token (fst du)) (outbox db)
        then (db, n)
        else (db\<lparr>outbox := outbox db @ [new_out m now expires (next_out db) (snd du) (fst du)],
                 next_out := Suc (next_out db)\<rparr>, Suc n))"

text \<open>\<open>uuid i\<close> is the value \<open>uuid.uuid4()\<close> gives in round \<open>i\<close>.\<close>

definition push_outbox_enqueue :: "message \<Rightarrow> int \<Rightarrow> int \<Rightarrow> (nat \<Rightarrow> string) \<Rightarrow> real \<Rightarrow> push_db \<Rightarrow> push_db \<times> nat" where
  "push_outbox_enqueue m retention device_limit uuid now db =
     (let expires = now + of_int (max 60 (min retention (7 * 86400)));
          ds = push_devices device_limit now db
      in fold (enqueue_one m now expires) (zip ds (map uuid [0..<length ds])) (db, 0))"

subsection \<open>Claiming\<close>

definition release_lapsed :: "real \<Rightarrow> out_row list \<Rightarrow> out_row list" where
  "release_lapsed now =
     update_where (\<lambda>r. o_status r = OSending \<and> o_lease r \<le> now \<and> o_expires r > now)
       (\<lambda>r. r\<lparr>o_status := OPending, o_lease := 0, o_owner := [], o_updated := now\<rparr>)"

definition fail_row :: "string \<Rightarrow> real \<Rightarrow> out_row \<Rightarrow> out_row" where
  "fail_row why now r =
     r\<lparr>o_status := OFailed, o_lease := 0, o_owner := [],
       o_error := (case o_error r of None \<Rightarrow> Some why | Some e \<Rightarrow> Some e), o_updated := now\<rparr>"

definition fail_expired :: "real \<Rightarrow> out_row list \<Rightarrow> out_row list" where
  "fail_expired now =
     update_where (\<lambda>r. (o_status r = OPending \<or> o_status r = OSending) \<and> o_expires r \<le> now)
       (fail_row ''Benachrichtigung abgelaufen'' now)"

definition unregistered_text :: string where
  "unregistered_text = ''Push-Ger'' @ [CHR 0xC3, CHR 0xA4] @ ''t nicht mehr registriert''"

definition fail_unregistered :: "device_row list \<Rightarrow> real \<Rightarrow> out_row list \<Rightarrow> out_row list" where
  "fail_unregistered ds now =
     update_where (\<lambda>r. o_status r = OPending \<and> o_token r \<notin> d_token ` set ds)
       (fail_row unregistered_text now)"

definition due :: "real \<Rightarrow> out_row \<Rightarrow> bool" where
  "due now r \<longleftrightarrow> o_status r = OPending \<and> o_next r \<le> now \<and> o_expires r > now"

text \<open>\<open>ORDER BY next_attempt_at, id\<close>.\<close>

definition due_order :: "out_row list \<Rightarrow> out_row list" where
  "due_order rs = sort_key o_next (sort_key o_id rs)"

definition claim_row :: "string \<Rightarrow> real \<Rightarrow> real \<Rightarrow> out_row \<Rightarrow> out_row" where
  "claim_row owner lease now r =
     r\<lparr>o_status := OSending, o_attempts := Suc (o_attempts r), o_lease := lease, o_owner := owner, o_updated := now\<rparr>"

definition lease_end :: "int \<Rightarrow> real \<Rightarrow> real" where
  "lease_end lease now = now + of_int (max 10 (min lease 300))"

definition push_outbox_claim_due ::
  "string \<Rightarrow> int \<Rightarrow> int \<Rightarrow> real \<Rightarrow> push_db \<Rightarrow> (push_db \<times> out_row list) result" where
  "push_outbox_claim_due claim_owner lmt lease now db =
     (let owner = py_strip claim_owner in
      if owner = [] then Inl (ValueError ''claim_owner darf nicht leer sein'')
      else (let t = fail_unregistered (devices db) now (fail_expired now (release_lapsed now (outbox db)));
                ids = map o_id (take (limit_of lmt) (due_order (select_where (due now) t)))
            in if ids = [] then Inr (db\<lparr>outbox := t\<rparr>, [])
               else (let t' = update_where (\<lambda>r. o_status r = OPending \<and> o_id r \<in> set ids)
                                (claim_row owner (lease_end lease now) now) t
                     in Inr (db\<lparr>outbox := t'\<rparr>,
                             due_order (select_where (\<lambda>r. o_id r \<in> set ids \<and> o_status r = OSending \<and> o_owner r = owner) t')))))"

definition push_outbox_renew_claims ::
  "nat list \<Rightarrow> string \<Rightarrow> int \<Rightarrow> real \<Rightarrow> push_db \<Rightarrow> (push_db \<times> nat list) result" where
  "push_outbox_renew_claims ids claim_owner lease now db =
     (let owner = py_strip claim_owner;
          mine = (\<lambda>r. o_status r = OSending \<and> o_owner r = owner \<and> o_id r \<in> set ids)
      in if ids = [] then Inr (db, [])
         else if owner = [] then Inl (ValueError ''claim_owner darf nicht leer sein'')
         else Inr (db\<lparr>outbox := update_where mine (\<lambda>r. r\<lparr>o_lease := lease_end lease now, o_updated := now\<rparr>) (outbox db)\<rparr>,
                   sort (map o_id (select_where mine (outbox db)))))"

subsection \<open>Finishing\<close>

datatype finish_outcome = NotOwned | Missing | Ended out_status

record finish_args =
  g_sent :: bool
  g_retry :: bool
  g_delay :: int
  g_error :: string
  g_max :: int

definition finish_out :: "finish_args \<Rightarrow> real \<Rightarrow> device_row list \<Rightarrow> out_row \<Rightarrow> out_row" where
  "finish_out g now ds r =
     (let again = g_retry g \<and> o_token r \<in> d_token ` set ds \<and> int (o_attempts r) < max 1 (g_max g) \<and> o_expires r > now;
          base = r\<lparr>o_lease := 0, o_owner := [], o_updated := now,
                   o_error := (let e = take 1000 (g_error g) in if e = [] then None else Some e)\<rparr>
      in if g_sent g then base\<lparr>o_status := OSent, o_next := now, o_sent := Some now\<rparr>
         else if again then base\<lparr>o_status := OPending, o_next := now + of_int (max 1 (min (g_delay g) 86400)), o_sent := None\<rparr>
         else base\<lparr>o_status := OFailed, o_next := now, o_sent := None\<rparr>)"

definition push_outbox_finish ::
  "nat \<Rightarrow> string \<Rightarrow> finish_args \<Rightarrow> real \<Rightarrow> push_db \<Rightarrow> (push_db \<times> finish_outcome) result" where
  "push_outbox_finish oid claim_owner g now db =
     (let owner = py_strip claim_owner;
          mine = (\<lambda>r. o_id r = oid \<and> o_status r = OSending \<and> o_owner r = owner)
      in if owner = [] then Inl (ValueError ''claim_owner darf nicht leer sein'')
         else case fetch_one mine (outbox db) of
           None \<Rightarrow> Inr (db, if exists_where (\<lambda>r. o_id r = oid) (outbox db) then NotOwned else Missing)
         | Some r \<Rightarrow> Inr (db\<lparr>outbox := update_where mine (finish_out g now (devices db)) (outbox db)\<rparr>,
                         Ended (o_status (finish_out g now (devices db) r))))"

definition push_outbox_prune :: "int \<Rightarrow> real \<Rightarrow> push_db \<Rightarrow> push_db \<times> nat" where
  "push_outbox_prune days now db =
     (let old = (\<lambda>r. (o_status r = OSent \<or> o_status r = OFailed) \<and> o_updated r < now - of_int (max 1 days * 86400))
      in (db\<lparr>outbox := delete_where old (outbox db)\<rparr>, count_where old (outbox db)))"

record outbox_report =
  r_pending :: nat
  r_sent :: nat
  r_failed :: nat
  r_last_error :: "(string \<times> real) option"

definition push_outbox_status :: "push_db \<Rightarrow> outbox_report" where
  "push_outbox_status db =
     \<lparr>r_pending = count_where (\<lambda>r. o_status r = OPending) (outbox db) + count_where (\<lambda>r. o_status r = OSending) (outbox db),
      r_sent = count_where (\<lambda>r. o_status r = OSent) (outbox db),
      r_failed = count_where (\<lambda>r. o_status r = OFailed) (outbox db),
      r_last_error =
        (case order_desc o_updated (select_where (\<lambda>r. o_error r \<noteq> None) (outbox db)) of
           [] \<Rightarrow> None | r # _ \<Rightarrow> map_option (\<lambda>e. (e, o_updated r)) (o_error r))\<rparr>"

subsection \<open>Steps and invariant\<close>

inductive push_step :: "push_db \<Rightarrow> push_db \<Rightarrow> bool" where
  push_register: "push_step db (push_device_upsert token env version lease now db)"
| push_delete: "push_step db (fst (push_device_delete token claim_owner db))"
| push_revoke: "push_step db (fst (push_devices_revoke_all db))"
| push_expire: "push_step db (fst (push_device_prune_expired now db))"
| push_enqueue: "push_step db (fst (push_outbox_enqueue m retention device_limit uuid now db))"
| push_claim: "push_outbox_claim_due claim_owner lmt lease now db = Inr (db', rs) \<Longrightarrow> push_step db db'"
| push_renew: "push_outbox_renew_claims ids claim_owner lease now db = Inr (db', ks) \<Longrightarrow> push_step db db'"
| push_finish: "push_outbox_finish oid claim_owner g now db = Inr (db', out) \<Longrightarrow> push_step db db'"
| push_prune: "push_step db (fst (push_outbox_prune days now db))"

definition reachable_push :: "push_db \<Rightarrow> bool" where
  "reachable_push db \<longleftrightarrow> push_step\<^sup>*\<^sup>* empty_push_db db"

definition open_out :: "out_row \<Rightarrow> bool" where
  "open_out r \<longleftrightarrow> o_status r = OPending \<or> o_status r = OSending"

definition out_key :: "out_row \<Rightarrow> string \<times> string" where
  "out_key r = (o_dedupe r, o_token r)"

definition out_wf :: "push_db \<Rightarrow> bool" where
  "out_wf db \<longleftrightarrow> distinct (map o_id (outbox db)) \<and> distinct (map out_key (outbox db)) \<and>
     (\<forall>r \<in> set (outbox db). o_id r < next_out db)"

lemma out_wf_empty: "out_wf empty_push_db"
  by (simp add: out_wf_def empty_push_db_def)

text \<open>A rewriting of the rows that touches open rows only and keeps every key.\<close>

definition touches_open :: "(out_row \<Rightarrow> out_row) \<Rightarrow> bool" where
  "touches_open g \<longleftrightarrow> (\<forall>r. o_id (g r) = o_id r \<and> out_key (g r) = out_key r \<and> (\<not> open_out r \<longrightarrow> g r = r))"

lemma touches_comp: "touches_open f \<Longrightarrow> touches_open g \<Longrightarrow> touches_open (f \<circ> g)"
  by (simp add: touches_open_def)

lemma touches_if:
  assumes "\<And>r. P r \<Longrightarrow> open_out r" and "\<And>r. o_id (f r) = o_id r" and "\<And>r. out_key (f r) = out_key r"
  shows "touches_open (\<lambda>r. if P r then f r else r)"
  using assms by (auto simp: touches_open_def)

lemma fail_row_simps [simp]:
  "o_id (fail_row why now r) = o_id r" "out_key (fail_row why now r) = out_key r"
  "o_status (fail_row why now r) = OFailed"
  by (simp_all add: fail_row_def out_key_def)

lemma finish_out_simps [simp]:
  "o_id (finish_out g now ds r) = o_id r" "out_key (finish_out g now ds r) = out_key r"
  "o_status (finish_out g now ds r) \<noteq> OSending"
  by (simp_all add: finish_out_def out_key_def Let_def)

lemma claim_row_simps [simp]:
  "o_id (claim_row owner lease now r) = o_id r" "out_key (claim_row owner lease now r) = out_key r"
  "o_status (claim_row owner lease now r) = OSending" "o_owner (claim_row owner lease now r) = owner"
  "o_lease (claim_row owner lease now r) = lease" "o_attempts (claim_row owner lease now r) = Suc (o_attempts r)"
  "o_expires (claim_row owner lease now r) = o_expires r"
  by (simp_all add: claim_row_def out_key_def)

definition sweep_row :: "device_row list \<Rightarrow> real \<Rightarrow> out_row \<Rightarrow> out_row" where
  "sweep_row ds now =
     (\<lambda>r. if o_status r = OPending \<and> o_token r \<notin> d_token ` set ds then fail_row unregistered_text now r else r) \<circ>
     (\<lambda>r. if (o_status r = OPending \<or> o_status r = OSending) \<and> o_expires r \<le> now
          then fail_row ''Benachrichtigung abgelaufen'' now r else r) \<circ>
     (\<lambda>r. if o_status r = OSending \<and> o_lease r \<le> now \<and> o_expires r > now
          then r\<lparr>o_status := OPending, o_lease := 0, o_owner := [], o_updated := now\<rparr> else r)"

lemma sweep_map:
  "fail_unregistered ds now (fail_expired now (release_lapsed now t)) = map (sweep_row ds now) t"
  by (simp add: fail_unregistered_def fail_expired_def release_lapsed_def update_where_def sweep_row_def comp_def)

lemma touches_sweep: "touches_open (sweep_row ds now)"
  unfolding sweep_row_def
  by (intro touches_comp touches_if) (simp_all add: open_out_def, auto simp: out_key_def)

lemma claim_effect:
  assumes "push_outbox_claim_due claim_owner lmt lease now db = Inr (db', rs)"
  obtains ids where
    "ids = map o_id (take (limit_of lmt) (due_order (select_where (due now) (map (sweep_row (devices db) now) (outbox db)))))"
    "outbox db' = map ((\<lambda>r. if o_status r = OPending \<and> o_id r \<in> set ids
       then claim_row (py_strip claim_owner) (lease_end lease now) now r else r) \<circ> sweep_row (devices db) now) (outbox db)"
    "devices db' = devices db" "next_out db' = next_out db"
    "rs = (if ids = [] then [] else due_order (select_where
       (\<lambda>r. o_id r \<in> set ids \<and> o_status r = OSending \<and> o_owner r = py_strip claim_owner) (outbox db')))"
    "py_strip claim_owner \<noteq> []"
proof -
  define ids where "ids = map o_id (take (limit_of lmt) (due_order (select_where (due now) (map (sweep_row (devices db) now) (outbox db)))))"
  from assms have ne: "py_strip claim_owner \<noteq> []"
    by (auto simp: push_outbox_claim_due_def)
  show thesis
  proof (cases "ids = []")
    case True
    with assms ne have "db' = db\<lparr>outbox := map (sweep_row (devices db) now) (outbox db)\<rparr>" "rs = []"
      by (simp_all add: push_outbox_claim_due_def Let_def sweep_map ids_def)
    with True ne show thesis
      by (intro that [of ids]) (simp_all only: ids_def [symmetric], simp_all add: comp_def)
  next
    case False
    with assms ne have "db' = db\<lparr>outbox := update_where (\<lambda>r. o_status r = OPending \<and> o_id r \<in> set ids)
        (claim_row (py_strip claim_owner) (lease_end lease now) now) (map (sweep_row (devices db) now) (outbox db))\<rparr>"
      "rs = due_order (select_where
         (\<lambda>r. o_id r \<in> set ids \<and> o_status r = OSending \<and> o_owner r = py_strip claim_owner) (outbox db'))"
      unfolding push_outbox_claim_due_def Let_def sweep_map ids_def [symmetric] by auto
    with False ne show thesis
      by (intro that [of ids]) (simp_all only: ids_def [symmetric], simp_all add: update_where_def comp_def)
  qed
qed

lemma touches_claim:
  "touches_open ((\<lambda>r. if o_status r = OPending \<and> o_id r \<in> set ids then claim_row owner lease now r else r) \<circ> sweep_row ds now)"
  by (intro touches_comp touches_if touches_sweep) (auto simp: open_out_def)

lemma renew_effect:
  "push_outbox_renew_claims ids claim_owner lease now db = Inr (db', ks) \<Longrightarrow>
   \<exists>g. touches_open g \<and> outbox db' = map g (outbox db) \<and> next_out db' = next_out db"
proof -
  assume a: "push_outbox_renew_claims ids claim_owner lease now db = Inr (db', ks)"
  let ?g = "\<lambda>r. if o_status r = OSending \<and> o_owner r = py_strip claim_owner \<and> o_id r \<in> set ids
    then r\<lparr>o_lease := lease_end lease now, o_updated := now\<rparr> else r"
  show ?thesis
  proof (cases "ids = []")
    case True
    with a have "db' = db" by (simp add: push_outbox_renew_claims_def Let_def)
    then show ?thesis by (intro exI [of _ "\<lambda>r. r"]) (simp add: touches_open_def)
  next
    case False
    with a have "outbox db' = map ?g (outbox db)" "next_out db' = next_out db"
      by (auto simp: push_outbox_renew_claims_def Let_def update_where_def split: if_splits)
    moreover have "touches_open ?g" by (rule touches_if) (auto simp: open_out_def out_key_def)
    ultimately show ?thesis by blast
  qed
qed

lemma finish_effect:
  assumes "push_outbox_finish oid claim_owner g now db = Inr (db', out)"
  obtains (skipped) "db' = db" and "fetch_one (\<lambda>r. o_id r = oid \<and> o_status r = OSending \<and> o_owner r = py_strip claim_owner) (outbox db) = None"
      and "out = (if exists_where (\<lambda>r. o_id r = oid) (outbox db) then NotOwned else Missing)"
  | (ended) r where "fetch_one (\<lambda>r. o_id r = oid \<and> o_status r = OSending \<and> o_owner r = py_strip claim_owner) (outbox db) = Some r"
      and "outbox db' = map (\<lambda>r. if o_id r = oid \<and> o_status r = OSending \<and> o_owner r = py_strip claim_owner
        then finish_out g now (devices db) r else r) (outbox db)"
      and "next_out db' = next_out db" and "out = Ended (o_status (finish_out g now (devices db) r))"
  using assms
  by (auto simp: push_outbox_finish_def Let_def update_where_def split: if_splits option.splits)

lemma touches_finish:
  "touches_open (\<lambda>r. if o_id r = oid \<and> o_status r = OSending \<and> o_owner r = w then finish_out g now ds r else r)"
  by (rule touches_if) (auto simp: open_out_def)

lemma out_wf_map:
  assumes "out_wf db" and "outbox db' = map g (outbox db)" and "touches_open g" and "next_out db' = next_out db"
  shows "out_wf db'"
proof -
  have "map o_id (outbox db') = map o_id (outbox db)" "map out_key (outbox db') = map out_key (outbox db)"
    using assms(2,3) by (simp_all add: touches_open_def)
  moreover have "\<forall>r \<in> set (outbox db'). o_id r < next_out db"
    using assms(1-3) by (auto simp: out_wf_def touches_open_def)
  ultimately show ?thesis using assms(1,4) by (simp add: out_wf_def)
qed

lemma out_wf_delete:
  "out_wf db \<Longrightarrow> outbox db' = delete_where P (outbox db) \<Longrightarrow> next_out db' = next_out db \<Longrightarrow> out_wf db'"
  by (simp add: out_wf_def distinct_delete_where)

lemma new_out_simps [simp]:
  "o_id (new_out m now e oid uuid d) = oid"
  "out_key (new_out m now e oid uuid d) = (take 256 (m_dedupe m), d_token d)"
  "o_dedupe (new_out m now e oid uuid d) = take 256 (m_dedupe m)"
  "o_token (new_out m now e oid uuid d) = d_token d"
  "o_status (new_out m now e oid uuid d) = OPending"
  by (simp_all add: new_out_def out_key_def)

definition has_message :: "message \<Rightarrow> device_row \<Rightarrow> push_db \<Rightarrow> bool" where
  "has_message m d db \<longleftrightarrow> exists_where (\<lambda>r. out_key r = (take 256 (m_dedupe m), d_token d)) (outbox db)"

lemma enqueue_one_eq:
  "enqueue_one m now e du (db, n) =
    (if has_message m (fst du) db then (db, n)
     else (db\<lparr>outbox := outbox db @ [new_out m now e (next_out db) (snd du) (fst du)],
              next_out := Suc (next_out db)\<rparr>, Suc n))"
  by (simp add: enqueue_one_def has_message_def out_key_def)

lemma enqueue_one_effect:
  assumes "enqueue_one m now e du (db, n) = (db', n')" and "out_wf db"
  obtains new where "outbox db' = outbox db @ new" and "n' = n + length new" and "out_wf db'"
    and "devices db' = devices db" and "next_out db \<le> next_out db'"
    and "list_all (\<lambda>r. next_out db \<le> o_id r) new" and "has_message m (fst du) db'"
proof (cases "has_message m (fst du) db")
  case True
  with assms(1) have "db' = db" "n' = n" by (simp_all add: enqueue_one_eq)
  with assms(2) True show thesis by (intro that [of "[]"]) simp_all
next
  case False
  let ?r = "new_out m now e (next_out db) (snd du) (fst du)"
  from False assms(1) have e: "db' = db\<lparr>outbox := outbox db @ [?r], next_out := Suc (next_out db)\<rparr>" "n' = Suc n"
    by (simp_all add: enqueue_one_eq)
  have fresh: "o_id ?r \<notin> o_id ` set (outbox db)" "out_key ?r \<notin> out_key ` set (outbox db)"
    using assms(2) False by (auto simp: out_wf_def has_message_def)
  show thesis
  proof (rule that [of "[?r]"])
    show "out_wf db'" using assms(2) fresh by (auto simp: e out_wf_def)
    show "has_message m (fst du) db'" by (simp add: e has_message_def)
  qed (simp_all add: e)
qed

lemma has_message_more: "has_message m d db \<Longrightarrow> outbox db' = outbox db @ new \<Longrightarrow> has_message m d db'"
  by (auto simp: has_message_def)

lemma enqueue_fold:
  assumes "fold (enqueue_one m now e) dus (db, n) = (db', n')" and "out_wf db"
  shows "\<exists>new. outbox db' = outbox db @ new \<and> n' = n + length new \<and> out_wf db' \<and>
    devices db' = devices db \<and> next_out db \<le> next_out db' \<and>
    list_all (\<lambda>r. next_out db \<le> o_id r) new \<and> (\<forall>du \<in> set dus. has_message m (fst du) db')"
  using assms
proof (induction dus arbitrary: db n)
  case (Cons du dus)
  obtain db1 n1 where 1: "enqueue_one m now e du (db, n) = (db1, n1)" by (cases "enqueue_one m now e du (db, n)")
  obtain new where a: "outbox db1 = outbox db @ new" "n1 = n + length new" "out_wf db1"
    "devices db1 = devices db" "next_out db \<le> next_out db1"
    "list_all (\<lambda>r. next_out db \<le> o_id r) new" "has_message m (fst du) db1"
    by (rule enqueue_one_effect [OF 1 Cons.prems(2)])
  from Cons.IH [of db1 n1] 1 Cons.prems(1) a(3) obtain new' where b: "outbox db' = outbox db1 @ new'"
    "n' = n1 + length new'" "out_wf db'" "devices db' = devices db1" "next_out db1 \<le> next_out db'"
    "list_all (\<lambda>r. next_out db1 \<le> o_id r) new'" "\<forall>du \<in> set dus. has_message m (fst du) db'"
    by auto
  have "list_all (\<lambda>r. next_out db \<le> o_id r) (new @ new')"
    using a(5,6) b(6) by (auto simp: list_all_iff)
  moreover have "has_message m (fst du) db'" by (rule has_message_more [OF a(7) b(1)])
  ultimately show ?case
    using a b by (intro exI [of _ "new @ new'"]) simp
qed simp

lemma enqueue_effect:
  assumes "push_outbox_enqueue m retention lmt uuid now db = (db', n)" and "out_wf db"
  obtains new where "outbox db' = outbox db @ new" and "n = length new" and "out_wf db'"
    and "next_out db \<le> next_out db'" and "list_all (\<lambda>r. next_out db \<le> o_id r) new"
    and "list_all (\<lambda>d. has_message m d db') (push_devices lmt now db)"
proof -
  let ?ds = "push_devices lmt now db"
  let ?dus = "zip ?ds (map uuid [0..<length ?ds])"
  have "map fst ?dus = ?ds" by simp
  then have ds: "fst ` set ?dus = set ?ds" by (metis list.set_map)
  from enqueue_fold [OF assms(1) [unfolded push_outbox_enqueue_def Let_def] assms(2)]
  obtain new where "outbox db' = outbox db @ new" "n = length new" "out_wf db'"
    "next_out db \<le> next_out db'" "list_all (\<lambda>r. next_out db \<le> o_id r) new"
    "\<forall>du \<in> set ?dus. has_message m (fst du) db'"
    by auto
  moreover from this(6) have "list_all (\<lambda>d. has_message m d db') ?ds"
    unfolding list_all_iff ds [symmetric] by blast
  ultimately show thesis by (intro that) simp_all
qed

text \<open>Every step rewrites open rows, deletes rows, or appends rows with fresh ids.\<close>

lemma push_step_cases:
  assumes "push_step db db'" and "out_wf db"
  shows "out_wf db' \<and> next_out db \<le> next_out db' \<and>
    (\<forall>r' \<in> set (outbox db'). next_out db \<le> o_id r' \<or>
       (\<exists>r \<in> set (outbox db). o_id r = o_id r' \<and> (open_out r \<or> r' = r)))"
proof -
  have m: ?thesis if "\<exists>g. touches_open g \<and> outbox db' = map g (outbox db) \<and> next_out db' = next_out db"
  proof -
    from that obtain g where g: "touches_open g" "outbox db' = map g (outbox db)" "next_out db' = next_out db"
      by blast
    have "out_wf db'" by (rule out_wf_map [OF assms(2) g(2,1,3)])
    moreover have "next_out db \<le> next_out db'" by (rule eq_refl) (rule g(3) [symmetric])
    moreover have "\<exists>r \<in> set (outbox db). o_id r = o_id r' \<and> (open_out r \<or> r' = r)" if "r' \<in> set (outbox db')" for r'
    proof -
      from that g(2) obtain r where r: "r \<in> set (outbox db)" "r' = g r" by auto
      have "o_id r = o_id (g r)" "open_out r \<or> g r = r" using g(1) unfolding touches_open_def by (metis, blast)
      then show ?thesis unfolding r(2) using r(1) by blast
    qed
    ultimately show ?thesis by blast
  qed
  have d: ?thesis if "\<exists>P. outbox db' = delete_where P (outbox db)" "next_out db' = next_out db"
    using that assms(2) out_wf_delete by auto
  have d1: "\<exists>P. [] = delete_where P xs" for xs :: "out_row list"
    by (intro exI [of _ "\<lambda>_. True"]) (simp add: delete_where_def)
  have d2: "\<exists>P. xs = delete_where P xs" for xs :: "out_row list"
    by (intro exI [of _ "\<lambda>_. False"]) (simp add: delete_where_def)
  show ?thesis
    using assms(1)
  proof (cases rule: push_step.cases)
    case push_register
    then show ?thesis by (intro d) (simp_all add: push_device_upsert_def Let_def d2)
  next
    case push_delete
    then show ?thesis by (intro d) (auto simp: push_device_delete_def Let_def)
  next
    case push_revoke
    then show ?thesis by (intro d) (simp_all add: push_devices_revoke_all_def d1)
  next
    case push_expire
    then show ?thesis by (intro d) (auto simp: push_device_prune_expired_def Let_def)
  next
    case push_prune
    then show ?thesis by (intro d) (auto simp: push_outbox_prune_def Let_def)
  next
    case (push_enqueue m retention lmt uuid now)
    obtain n where "push_outbox_enqueue m retention lmt uuid now db = (db', n)"
      using push_enqueue by (cases "push_outbox_enqueue m retention lmt uuid now db") simp
    then show ?thesis
      by (rule enqueue_effect [OF _ assms(2)]) (auto simp: list_all_iff)
  next
    case (push_claim claim_owner lmt lease now rs)
    then show ?thesis by (elim claim_effect) (intro m, use touches_claim in blast)
  next
    case (push_renew ids claim_owner lease now ks)
    then show ?thesis by (intro m) (rule renew_effect)
  next
    case (push_finish oid claim_owner g now out)
    then show ?thesis
    proof (cases rule: finish_effect)
      case skipped
      then show ?thesis by (intro d) (simp_all add: d2)
    next
      case (ended r)
      then show ?thesis by (intro m) (use touches_finish in blast)
    qed
  qed
qed

interpretation out_rows: final_rows outbox o_id "\<lambda>db k. k < next_out db" "\<lambda>r. \<not> open_out r" "\<lambda>r. r"
  push_step out_wf
proof unfold_locales
  fix s t k assume "out_wf s" "push_step s t" "k < next_out s"
  then show "k < next_out t" using push_step_cases [of s t] by simp
next
  fix s t r assume "out_wf s" "push_step s t" "r \<in> set (outbox t)" "o_id r < next_out s"
  then show "\<exists>q \<in> set (outbox s). o_id q = o_id r" using push_step_cases [of s t] by fastforce
next
  fix s t q r assume a: "out_wf s" "push_step s t" "q \<in> set (outbox s)" "\<not> open_out q"
    "r \<in> set (outbox t)" "o_id r = o_id q"
  have "o_id q < next_out s" using a(1,3) by (simp add: out_wf_def)
  moreover have "next_out s \<le> o_id r \<or> (\<exists>p \<in> set (outbox s). o_id p = o_id r \<and> (open_out p \<or> r = p))"
    using push_step_cases [OF a(2,1)] a(5) by blast
  ultimately obtain p where p: "p \<in> set (outbox s)" "o_id p = o_id r" "open_out p \<or> r = p"
    using a(6) by auto
  with a(1,3,6) have "p = q" by (auto simp: out_wf_def distinct_map inj_on_def)
  with p a(4) show "\<not> open_out r \<and> r = q" by blast
qed (simp_all add: push_step_cases, simp_all add: out_wf_def)

lemma reachable_out_wf: "reachable_push db \<Longrightarrow> out_wf db"
  unfolding reachable_push_def by (erule out_rows.steps_ok) (rule out_wf_empty)

subsection \<open>Properties\<close>

definition demo_message :: message where
  "demo_message = \<lparr>m_event = ''job'', m_title = ''t'', m_message = ''m'', m_payload = [], m_dedupe = ''k1''\<rparr>"

definition demo_device :: push_db where
  "demo_device = push_device_upsert ''tok'' ''production'' ''1'' 604800 100 empty_push_db"

definition demo_queued :: push_db where
  "demo_queued = fst (push_outbox_enqueue demo_message 3600 128 (\<lambda>_. ''u'') 100 demo_device)"

definition demo_claim :: "push_db \<times> out_row list" where
  "demo_claim = (case push_outbox_claim_due ''w1'' 32 60 110 demo_queued of Inl _ \<Rightarrow> (demo_queued, []) | Inr x \<Rightarrow> x)"

lemma reachable_device: "reachable_push demo_device"
  unfolding reachable_push_def demo_device_def by (rule r_into_rtranclp) (rule push_register)

lemma reachable_queued: "reachable_push demo_queued"
  using reachable_device unfolding reachable_push_def demo_queued_def
  by (rule rtranclp.rtrancl_into_rtrancl) (rule push_enqueue)

lemma device_row: "devices demo_device = [\<lparr>d_token = ''tok'', d_env = ''production'', d_version = ''1'',
    d_created = 100, d_updated = 100, d_expires = 604900\<rparr>]" "outbox demo_device = []" "next_out demo_device = 1"
  by (simp_all add: demo_device_def push_device_upsert_def empty_push_db_def upsert_where_def)

lemma queued_row:
  "devices demo_queued = devices demo_device"
  "outbox demo_queued = [new_out demo_message 100 3700 1 ''u'' (hd (devices demo_device))]"
proof -
  have "push_devices 128 100 demo_device = devices demo_device"
    by (simp add: push_devices_def device_row select_where_def order_desc_def limit_of_def)
  then show "devices demo_queued = devices demo_device"
    "outbox demo_queued = [new_out demo_message 100 3700 1 ''u'' (hd (devices demo_device))]"
    by (simp_all add: demo_queued_def push_outbox_enqueue_def Let_def enqueue_one_eq device_row has_message_def)
qed

lemma claim_ok: "push_outbox_claim_due ''w1'' 32 60 110 demo_queued = Inr demo_claim"
proof -
  have "py_strip ''w1'' = ''w1''" by code_simp
  then have "\<exists>x. push_outbox_claim_due ''w1'' 32 60 110 demo_queued = Inr x"
    by (simp add: push_outbox_claim_due_def Let_def)
  then show ?thesis unfolding demo_claim_def by (elim exE) simp
qed

lemma claim_pair: "push_outbox_claim_due ''w1'' 32 60 110 demo_queued = Inr (fst demo_claim, snd demo_claim)"
  by (simp add: claim_ok)

lemma due_order_set [simp]: "set (due_order rs) = set rs"
  by (simp add: due_order_def)

lemma key_count_one:
  assumes "distinct (map k t)" and "r \<in> set t"
  shows "count_where (\<lambda>q. k q = k r) t = 1"
  using assms
proof (induction t)
  case (Cons a t)
  have none: "k a \<notin> k ` set t \<Longrightarrow> filter (\<lambda>q. k q = k a) t = []"
    by (auto simp: filter_empty_conv image_iff)
  show ?case
  proof (cases "a = r")
    case True
    with none Cons.prems show ?thesis by (simp add: count_where_def)
  next
    case False
    with Cons.prems have "r \<in> set t" "k a \<noteq> k r" by auto
    with Cons show ?thesis by (simp add: count_where_def)
  qed
qed simp

text \<open>Enqueueing is idempotent per device. After an enqueue every device selected (registered,
  not expired, within the limit) has exactly one row for the deduplication key, whether this call
  or an earlier one wrote it; the call reports the rows it added and keeps all earlier rows.\<close>

theorem one_row_per_message_and_device:
  assumes "reachable_push db" and "push_outbox_enqueue m retention lmt uuid now db = (db', n)"
    and "d \<in> set (push_devices lmt now db)"
  shows "count_where (\<lambda>r. o_dedupe r = take 256 (m_dedupe m) \<and> o_token r = d_token d) (outbox db') = 1 \<and>
    take (length (outbox db)) (outbox db') = outbox db \<and> length (outbox db') = length (outbox db) + n"
  using assms(2) reachable_out_wf [OF assms(1)]
proof (rule enqueue_effect)
  fix new
  assume a: "outbox db' = outbox db @ new" "n = length new" "out_wf db'"
    "list_all (\<lambda>d. has_message m d db') (push_devices lmt now db)"
  from a(4) assms(3) obtain r where r: "r \<in> set (outbox db')" "out_key r = (take 256 (m_dedupe m), d_token d)"
    by (auto simp: list_all_iff has_message_def)
  have "count_where (\<lambda>q. out_key q = out_key r) (outbox db') = 1"
    by (rule key_count_one) (use a(3) r(1) in \<open>simp_all add: out_wf_def\<close>)
  moreover have "(\<lambda>q. out_key q = out_key r) =
      (\<lambda>q. o_dedupe q = take 256 (m_dedupe m) \<and> o_token q = d_token d)"
    unfolding r(2) by (simp add: out_key_def)
  ultimately show ?thesis using a(1,2) by simp
qed

theorem one_row_per_message_and_device_witness:
  "\<exists>db' n. push_outbox_enqueue demo_message 3600 128 (\<lambda>_. ''v'') 120 demo_queued = (db', n) \<and>
     count_where (\<lambda>r. o_dedupe r = ''k1'' \<and> o_token r = ''tok'') (outbox db') = 1"
proof -
  obtain db' n where e: "push_outbox_enqueue demo_message 3600 128 (\<lambda>_. ''v'') 120 demo_queued = (db', n)"
    by (cases "push_outbox_enqueue demo_message 3600 128 (\<lambda>_. ''v'') 120 demo_queued")
  have "hd (devices demo_device) \<in> set (push_devices 128 120 demo_queued)"
    by (simp add: push_devices_def queued_row device_row select_where_def order_desc_def limit_of_def)
  from one_row_per_message_and_device [OF reachable_queued e this] e
  show ?thesis by (simp add: device_row demo_message_def)
qed

lemma sweep_leased:
  assumes "o_status r = OSending" and "now < o_lease r"
  shows "sweep_row ds now r = (if now < o_expires r then r else fail_row ''Benachrichtigung abgelaufen'' now r)"
  using assms by (simp add: sweep_row_def)

lemma sweep_pending:
  assumes "o_status (sweep_row ds now r) = OPending"
  shows "o_attempts (sweep_row ds now r) = o_attempts r"
    and "o_status r = OPending \<or> o_status r = OSending \<and> o_lease r \<le> now"
proof -
  show "o_status r = OPending \<or> o_status r = OSending \<and> o_lease r \<le> now"
    using assms by (cases "o_status r") (auto simp: sweep_row_def split: if_splits)
  show "o_attempts (sweep_row ds now r) = o_attempts r"
    by (simp add: sweep_row_def fail_row_def)
qed

lemma claimed_rows:
  assumes "push_outbox_claim_due claim_owner lmt lease now db = Inr (db', rs)" and "r \<in> set rs" and "out_wf db"
  shows "\<exists>q \<in> set (outbox db). o_id q = o_id r \<and> sweep_row (devices db) now q \<in> set (map (sweep_row (devices db) now) (outbox db)) \<and>
      due now (sweep_row (devices db) now q) \<and>
      r = claim_row (py_strip claim_owner) (lease_end lease now) now (sweep_row (devices db) now q)"
  using assms(1)
proof (rule claim_effect)
  fix ids
  let ?s = "sweep_row (devices db) now"
  let ?t = "map ?s (outbox db)"
  assume a: "ids = map o_id (take (limit_of lmt) (due_order (select_where (due now) ?t)))"
    "outbox db' = map ((\<lambda>r. if o_status r = OPending \<and> o_id r \<in> set ids
       then claim_row (py_strip claim_owner) (lease_end lease now) now r else r) \<circ> ?s) (outbox db)"
    "rs = (if ids = [] then [] else due_order (select_where
       (\<lambda>r. o_id r \<in> set ids \<and> o_status r = OSending \<and> o_owner r = py_strip claim_owner) (outbox db')))"
  from assms(2) a(3) have r: "r \<in> set (outbox db')" "o_id r \<in> set ids" by (auto split: if_splits)
  from r(1) a(2) obtain q where q: "q \<in> set (outbox db)"
    "r = (if o_status (?s q) = OPending \<and> o_id (?s q) \<in> set ids
          then claim_row (py_strip claim_owner) (lease_end lease now) now (?s q) else ?s q)" by auto
  have id: "o_id (?s x) = o_id x" for x using touches_sweep by (simp add: touches_open_def)
  have "o_id r = o_id q" by (simp add: q(2) id)
  with r(2) a(1) obtain p where p: "p \<in> set (outbox db)" "due now (?s p)" "o_id p = o_id q"
    by (auto simp: id dest!: in_set_takeD)
  with q(1) assms(3) have "p = q" by (auto simp: out_wf_def distinct_map inj_on_def)
  with p(2) q r(2) \<open>o_id r = o_id q\<close> show ?thesis
    by (intro bexI [of _ q]) (simp_all add: due_def id)
qed

lemma claim_exclusive:
  assumes "reachable_push db" and "push_outbox_claim_due claim_owner lmt lease now db = Inr (db', rs)"
  shows "list_all (\<lambda>r. o_status r = OSending \<and> o_owner r = py_strip claim_owner \<and> now + 10 \<le> o_lease r \<and>
      list_ex (\<lambda>q. o_id q = o_id r \<and> o_attempts r = Suc (o_attempts q) \<and>
        (o_status q = OPending \<or> o_status q = OSending \<and> o_lease q \<le> now)) (outbox db)) rs"
    (is ?got)
    and "\<forall>q \<in> set (outbox db). o_status q = OSending \<and> now < o_lease q \<longrightarrow> o_id q \<notin> o_id ` set rs \<and>
      (if now < o_expires q then q else fail_row ''Benachrichtigung abgelaufen'' now q) \<in> set (outbox db')" (is ?live)
proof -
  have wf: "out_wf db" by (rule reachable_out_wf [OF assms(1)])
  note rows = claimed_rows [OF assms(2) _ wf]
  have lease: "now + 10 \<le> lease_end lease now" by (simp add: lease_end_def)
  show ?got
    unfolding list_all_iff
  proof
    fix r assume "r \<in> set rs"
    from rows [OF this] obtain q where q: "q \<in> set (outbox db)" "o_id q = o_id r"
      "due now (sweep_row (devices db) now q)"
      "r = claim_row (py_strip claim_owner) (lease_end lease now) now (sweep_row (devices db) now q)" by blast
    have p: "o_status (sweep_row (devices db) now q) = OPending" using q(3) by (simp add: due_def)
    have "o_attempts r = Suc (o_attempts q) \<and> (o_status q = OPending \<or> o_status q = OSending \<and> o_lease q \<le> now)"
      using sweep_pending [OF p] by (simp add: q(4))
    with q lease show "o_status r = OSending \<and> o_owner r = py_strip claim_owner \<and> now + 10 \<le> o_lease r \<and>
      list_ex (\<lambda>q. o_id q = o_id r \<and> o_attempts r = Suc (o_attempts q) \<and>
        (o_status q = OPending \<or> o_status q = OSending \<and> o_lease q \<le> now)) (outbox db)"
      unfolding list_ex_iff by (simp add: q(4)) blast
  qed
  show ?live
  proof (intro ballI impI, elim conjE)
    fix q assume q: "q \<in> set (outbox db)" and leased: "o_status q = OSending" "now < o_lease q"
    note s = sweep_leased [OF leased, of "devices db"]
    have np: "o_status (sweep_row (devices db) now q) \<noteq> OPending" using leased(1) by (simp add: s)
    have "sweep_row (devices db) now q \<in> set (outbox db')"
      by (rule claim_effect [OF assms(2)]) (use q np in \<open>auto simp: image_iff intro!: bexI [of _ q]\<close>)
    moreover have "o_id q \<notin> o_id ` set rs"
    proof
      assume "o_id q \<in> o_id ` set rs"
      then obtain r where r: "r \<in> set rs" "o_id r = o_id q" by auto
      from rows [OF r(1)] r(2) obtain p where p: "p \<in> set (outbox db)" "o_id p = o_id q"
        "due now (sweep_row (devices db) now p)" by auto
      with q wf have "p = q" by (auto simp: out_wf_def distinct_map inj_on_def)
      with p(3) np show False by (simp add: due_def)
    qed
    ultimately show "o_id q \<notin> o_id ` set rs \<and>
      (if now < o_expires q then q else fail_row ''Benachrichtigung abgelaufen'' now q) \<in> set (outbox db')"
      by (simp add: s)
  qed
qed

text \<open>C34: claims are exclusive. What a dispatcher gets was due (pending, or claimed by someone whose
  lease has ended) and is now leased to it for at least ten seconds, with one more attempt counted. A
  message whose lease is still running is never handed out, whoever holds it: its row stays exactly as it
  is, and when the life of the message itself is over it is closed as failed with that reason.\<close>

theorem claims_are_exclusive:
  assumes "reachable_push db" and "push_outbox_claim_due claim_owner lmt lease now db = Inr (db', rs)"
  shows "list_all (\<lambda>r. o_status r = OSending \<and> o_owner r = py_strip claim_owner \<and> now + 10 \<le> o_lease r \<and>
      list_ex (\<lambda>q. o_id q = o_id r \<and> o_attempts r = Suc (o_attempts q) \<and>
        (o_status q = OPending \<or> o_status q = OSending \<and> o_lease q \<le> now)) (outbox db)) rs \<and>
    (\<forall>q \<in> set (outbox db). o_status q = OSending \<and> now < o_lease q \<longrightarrow> o_id q \<notin> o_id ` set rs \<and>
      (if now < o_expires q then q else fail_row ''Benachrichtigung abgelaufen'' now q) \<in> set (outbox db'))"
  using claim_exclusive [OF assms] by blast

theorem claims_are_exclusive_witness:
  "list_all (\<lambda>r. o_status r = OSending \<and> o_owner r = py_strip ''w1'' \<and> 120 \<le> o_lease r) (snd demo_claim)"
  using claims_are_exclusive [OF reachable_queued claim_pair]
  by (auto simp: list_all_iff)

lemma fetch_one_mine:
  assumes "distinct (map o_id t)" and "q \<in> set t" and "\<not> P q"
  shows "fetch_one (\<lambda>r. o_id r = o_id q \<and> P r) t = None"
  using assms by (auto simp: fetch_one_None distinct_map inj_on_def)

text \<open>Only the holder of a claim decides about a message. A finish by a dispatcher that does not
  hold the claim, because another one took it over or the message has ended, changes nothing and
  says so.\<close>

theorem finish_needs_the_claim:
  assumes "reachable_push db" and "q \<in> set (outbox db)" and "py_strip claim_owner \<noteq> []"
    and "o_status q \<noteq> OSending \<or> o_owner q \<noteq> py_strip claim_owner"
  shows "push_outbox_finish (o_id q) claim_owner g now db = Inr (db, NotOwned)"
proof -
  have "fetch_one (\<lambda>r. o_id r = o_id q \<and> (o_status r = OSending \<and> o_owner r = py_strip claim_owner)) (outbox db) = None"
    by (rule fetch_one_mine) (use reachable_out_wf [OF assms(1)] assms(2,4) in \<open>auto simp: out_wf_def\<close>)
  with assms(2,3) show ?thesis by (auto simp: push_outbox_finish_def Let_def)
qed

theorem finish_needs_the_claim_witness:
  "\<exists>q. outbox demo_queued = [q] \<and>
     push_outbox_finish (o_id q) ''w2'' \<lparr>g_sent = True, g_retry = False, g_delay = 60, g_error = [], g_max = 8\<rparr> 130 demo_queued =
       Inr (demo_queued, NotOwned)"
proof -
  obtain q where q: "outbox demo_queued = [q]" "o_status q = OPending" by (simp add: queued_row)
  have "py_strip ''w2'' \<noteq> []" by code_simp
  with q finish_needs_the_claim [OF reachable_queued, of q "''w2''"] show ?thesis by simp
qed

text \<open>The end of a message is final. Once a finish by the holder ended a message as sent or failed,
  no later step changes its row, so it is never handed out or sent again.\<close>

theorem ended_message_is_final:
  assumes "reachable_push db" and "push_outbox_finish oid claim_owner g now db = Inr (db1, Ended st)"
    and "st = OSent \<or> st = OFailed" and "push_step\<^sup>*\<^sup>* db1 db2"
    and "r \<in> set (outbox db2)" and "o_id r = oid"
  shows "o_status r = st \<and> r \<in> set (outbox db1)"
  using assms(2)
proof (cases rule: finish_effect)
  case (ended q)
  let ?q = "finish_out g now (devices db) q"
  have q: "q \<in> set (outbox db)" "o_id q = oid" "o_status q = OSending" "o_owner q = py_strip claim_owner"
    using fetch_one_Some [OF ended(1)] by simp_all
  have in1: "?q \<in> set (outbox db1)" unfolding ended(2) using q by (auto simp: image_iff intro!: bexI [of _ q])
  have wf: "out_wf db1"
    using out_wf_map [OF reachable_out_wf [OF assms(1)] ended(2) touches_finish ended(3)] .
  have "\<not> open_out ?q" using ended(4) assms(3) by (auto simp: open_out_def)
  with out_rows.result_is_final [OF assms(4) wf in1, of r] assms(5,6) q(2)
  have "r = ?q" by simp
  with ended(4) in1 show ?thesis by simp
qed (simp split: if_splits)

theorem ended_message_is_final_witness:
  "\<exists>db1. push_outbox_finish 1 ''w1'' \<lparr>g_sent = True, g_retry = False, g_delay = 60, g_error = [], g_max = 8\<rparr> 115
        (fst demo_claim) = Inr (db1, Ended OSent) \<and>
     (\<forall>r \<in> set (outbox (fst (push_outbox_prune 30 200 db1))). o_id r = 1 \<longrightarrow> o_status r = OSent)"
proof -
  let ?g = "\<lparr>g_sent = True, g_retry = False, g_delay = 60, g_error = [], g_max = 8\<rparr>"
  let ?r = "new_out demo_message 100 3700 (Suc 0) ''u'' (hd (devices demo_device))"
  have strip: "py_strip ''w1'' = ''w1''" by code_simp
  have s: "sweep_row (devices demo_queued) 110 ?r = ?r"
    by (simp add: sweep_row_def new_out_def queued_row device_row)
  have d: "due 110 ?r" by (simp add: due_def new_out_def)
  have "fst demo_claim = demo_queued\<lparr>outbox := [claim_row ''w1'' (lease_end 60 110) 110 ?r]\<rparr>"
    by (simp add: demo_claim_def push_outbox_claim_due_def Let_def strip sweep_map queued_row(2) [unfolded One_nat_def] s d
        select_where_def due_order_def limit_of_def update_where_def)
  then have "\<exists>db1. push_outbox_finish 1 ''w1'' ?g 115 (fst demo_claim) = Inr (db1, Ended OSent)"
    by (simp add: push_outbox_finish_def Let_def strip finish_out_def)
  then obtain db1 where f: "push_outbox_finish 1 ''w1'' ?g 115 (fst demo_claim) = Inr (db1, Ended OSent)" by blast
  have reach: "reachable_push (fst demo_claim)"
    using reachable_queued push_claim [OF claim_pair]
    unfolding reachable_push_def by (rule rtranclp.rtrancl_into_rtrancl)
  have "push_step\<^sup>*\<^sup>* db1 (fst (push_outbox_prune 30 200 db1))" by (blast intro: push_prune)
  with ended_message_is_final [OF reach f _ this] f show ?thesis by blast
qed

end
