(* ===== verification/Webauthn_Store.thy ===== *)
theory Webauthn_Store
  imports Sql_Table
begin

text \<open>
  \<open>app/db.py\<close>: the tables behind passkey logins. Credentials with their signature counter,
  challenges, the exchange tokens that hand a browser login over to the native app, and the tokens
  for registering a key from the app. Challenges and tokens are meant to be used once; the locale
  \<open>one_time\<close> states what that needs, and the three tables are its instances.
\<close>

subsection \<open>Tokens that are used once\<close>

locale one_time =
  fixes present :: "'s \<Rightarrow> 'k \<Rightarrow> bool"
    and consume :: "'k \<Rightarrow> 'a \<Rightarrow> 's \<Rightarrow> 's \<times> 'r option"
    and other_step :: "'k \<Rightarrow> 's \<Rightarrow> 's \<Rightarrow> bool"
  assumes consume_removes: "consume k a s = (t, Some r) \<Longrightarrow> \<not> present t k"
    and consume_absent: "\<not> present s k \<Longrightarrow> snd (consume k a s) = None"
    and other_step_absent: "other_step k s t \<Longrightarrow> \<not> present s k \<Longrightarrow> \<not> present t k"
begin

lemma stays_absent: "(other_step k)\<^sup>*\<^sup>* s t \<Longrightarrow> \<not> present s k \<Longrightarrow> \<not> present t k"
  by (induction rule: rtranclp_induct) (auto dest: other_step_absent)

theorem used_once:
  assumes "consume k a s = (t, Some r)" and "(other_step k)\<^sup>*\<^sup>* t u"
  shows "snd (consume k b u) = None"
  using stays_absent [OF assms(2) consume_removes [OF assms(1)]] by (rule consume_absent)

end

subsection \<open>State\<close>

record cred_row =
  k_id :: string
  k_method :: string
  k_public :: string
  k_count :: int
  k_transports :: "string list"
  k_device :: string
  k_backed :: bool
  k_label :: string
  k_created :: real
  k_used :: "real option"
  k_gen :: string

record chal_row =
  q_id :: string
  q_challenge :: string
  q_purpose :: string
  q_method :: string
  q_label :: string
  q_native :: bool
  q_binding :: string
  q_account :: string
  q_expires :: real
  q_created :: real

record exch_row =
  x_token :: string
  x_verifier :: string
  x_user :: string
  x_account :: string
  x_cred :: string
  x_cred_gen :: string
  x_expires :: real
  x_created :: real

record reg_row =
  n_token :: string
  n_verifier :: string
  n_user :: string
  n_method :: string
  n_label :: string
  n_account :: string
  n_expires :: real
  n_created :: real

record wa_db =
  creds :: "cred_row list"
  chals :: "chal_row list"
  exchs :: "exch_row list"
  regs :: "reg_row list"

definition empty_wa_db :: wa_db where
  "empty_wa_db = \<lparr>creds = [], chals = [], exchs = [], regs = []\<rparr>"

definition valid_method :: "string \<Rightarrow> bool" where
  "valid_method m \<longleftrightarrow> m = ''passkey'' \<or> m = ''security_key''"

definition method_error :: pyerr where
  "method_error = ValueError ''WebAuthn-Methode''"

subsection \<open>Credentials\<close>

text \<open>\<open>ORDER BY created_at, credential_id\<close>; ids are compared by their character codes.\<close>

definition cred_order :: "cred_row list \<Rightarrow> cred_row list" where
  "cred_order rs = sort_key k_created (sort_key (\<lambda>r. String.implode (k_id r)) rs)"

definition webauthn_credentials :: "string option \<Rightarrow> wa_db \<Rightarrow> cred_row list result" where
  "webauthn_credentials meth db =
     (case meth of
        None \<Rightarrow> Inr (cred_order (creds db))
      | Some m \<Rightarrow> if valid_method m then Inr (cred_order (select_where (\<lambda>r. k_method r = m) (creds db)))
                  else Inl method_error)"

definition webauthn_credential_get :: "string \<Rightarrow> wa_db \<Rightarrow> cred_row option" where
  "webauthn_credential_get cid db = fetch_one (\<lambda>r. k_id r = cid) (creds db)"

definition webauthn_credential_matches :: "string \<Rightarrow> string \<Rightarrow> wa_db \<Rightarrow> bool" where
  "webauthn_credential_matches cid gen db \<longleftrightarrow>
     cid \<noteq> [] \<and> gen \<noteq> [] \<and> exists_where (\<lambda>r. k_id r = cid \<and> k_gen r = gen) (creds db)"

text \<open>\<open>gen\<close> is the fresh value of \<open>secrets.token_hex(32)\<close>.\<close>

definition webauthn_credential_add ::
  "string \<Rightarrow> string \<Rightarrow> string \<Rightarrow> int \<Rightarrow> string list \<Rightarrow> string \<Rightarrow> bool \<Rightarrow> string \<Rightarrow> string \<Rightarrow> real \<Rightarrow> wa_db \<Rightarrow> wa_db result" where
  "webauthn_credential_add cid meth pubkey cnt transports device backed label gen now db =
     (if \<not> valid_method meth then Inl method_error
      else if exists_where (\<lambda>r. k_id r = cid) (creds db) then Inl IntegrityError
      else Inr (db\<lparr>creds := creds db @
        [\<lparr>k_id = cid, k_method = meth, k_public = pubkey, k_count = max 0 cnt,
          k_transports = rev (remdups (rev transports)), k_device = take 40 device, k_backed = backed,
          k_label = take 80 label, k_created = now, k_used = None, k_gen = gen\<rparr>]\<rparr>))"

definition webauthn_credential_used ::
  "string \<Rightarrow> string \<Rightarrow> int \<Rightarrow> int \<Rightarrow> string \<Rightarrow> bool \<Rightarrow> real \<Rightarrow> wa_db \<Rightarrow> wa_db \<times> bool" where
  "webauthn_credential_used cid gen observed new_cnt device backed now db =
     (if gen = [] \<or> new_cnt < observed \<or> (observed > 0 \<and> new_cnt = observed) then (db, False)
      else (let P = (\<lambda>r. k_id r = cid \<and> k_gen r = gen \<and> k_count r = observed)
            in (db\<lparr>creds := update_where P
                   (\<lambda>r. r\<lparr>k_count := max 0 new_cnt, k_device := take 40 device, k_backed := backed,
                          k_used := Some now\<rparr>) (creds db)\<rparr>, count_where P (creds db) = 1)))"

definition webauthn_credential_delete :: "string \<Rightarrow> wa_db \<Rightarrow> wa_db \<times> bool" where
  "webauthn_credential_delete cid db =
     (db\<lparr>creds := delete_where (\<lambda>r. k_id r = cid) (creds db)\<rparr>, exists_where (\<lambda>r. k_id r = cid) (creds db))"

subsection \<open>Challenges\<close>

record chal_args =
  ca_id :: string
  ca_challenge :: string
  ca_purpose :: string
  ca_method :: string
  ca_label :: string
  ca_native :: bool
  ca_binding :: string
  ca_account :: string
  ca_ttl :: int

definition webauthn_challenge_create :: "chal_args \<Rightarrow> real \<Rightarrow> wa_db \<Rightarrow> wa_db result" where
  "webauthn_challenge_create c now db =
     (let live = delete_where (\<lambda>r. q_expires r < now) (chals db) in
      if count_where (\<lambda>r. q_purpose r = ca_purpose c) live \<ge> 512
      then Inl (ValueError ''Zu viele offene Passkey-Vorgaenge'')
      else if \<not> (ca_purpose c = ''register'' \<or> ca_purpose c = ''authenticate'') \<or> \<not> valid_method (ca_method c) \<or>
              exists_where (\<lambda>r. q_id r = ca_id c) live
      then Inl IntegrityError
      else Inr (db\<lparr>chals := live @
        [\<lparr>q_id = ca_id c, q_challenge = ca_challenge c, q_purpose = ca_purpose c, q_method = ca_method c,
          q_label = take 80 (ca_label c), q_native = ca_native c, q_binding = take 128 (ca_binding c),
          q_account = ca_account c, q_expires = now + of_int (max 30 (min (ca_ttl c) 600)), q_created = now\<rparr>]\<rparr>))"

definition webauthn_challenge_consume ::
  "string \<Rightarrow> string \<times> string \<times> real \<Rightarrow> wa_db \<Rightarrow> wa_db \<times> chal_row option" where
  "webauthn_challenge_consume cid args db =
     (case args of (purpose, account, now) \<Rightarrow>
        (db\<lparr>chals := delete_where (\<lambda>r. q_id r = cid) (chals db)\<rparr>,
         case fetch_one (\<lambda>r. q_id r = cid) (chals db) of
           None \<Rightarrow> None
         | Some r \<Rightarrow> if q_purpose r \<noteq> purpose \<or> q_expires r < now then None
                    else if account = [] \<or> q_account r \<noteq> account then None else Some r))"

subsection \<open>Exchange tokens\<close>

definition keep_newest :: "('r \<Rightarrow> real) \<Rightarrow> nat \<Rightarrow> ('r \<Rightarrow> string) \<Rightarrow> 'r list \<Rightarrow> 'r list" where
  "keep_newest created n key t =
     (let old = map key (drop n (order_desc created t)) in delete_where (\<lambda>r. key r \<in> set old) t)"

record exch_args =
  xa_token :: string
  xa_verifier :: string
  xa_user :: string
  xa_account :: string
  xa_cred :: string
  xa_cred_gen :: string
  xa_ttl :: int

definition new_exch :: "exch_args \<Rightarrow> real \<Rightarrow> exch_row" where
  "new_exch a now =
     \<lparr>x_token = xa_token a, x_verifier = xa_verifier a, x_user = xa_user a, x_account = xa_account a,
      x_cred = xa_cred a, x_cred_gen = xa_cred_gen a,
      x_expires = now + of_int (max 15 (min (xa_ttl a) 120)), x_created = now\<rparr>"

definition native_auth_exchange_create :: "exch_args \<Rightarrow> real \<Rightarrow> wa_db \<Rightarrow> (wa_db \<times> bool) result" where
  "native_auth_exchange_create a now db =
     (if xa_account a = [] \<or> xa_cred a = [] \<or> xa_cred_gen a = [] then Inr (db, False)
      else (let t = keep_newest x_created 1023 x_token (delete_where (\<lambda>r. x_expires r < now) (exchs db));
                n = count_where (\<lambda>r. k_id r = xa_cred a \<and> k_gen r = xa_cred_gen a) (creds db)
            in if n = 0 then Inr (db\<lparr>exchs := t\<rparr>, False)
               else if exists_where (\<lambda>r. x_token r = xa_token a) t then Inl IntegrityError
               else Inr (db\<lparr>exchs := t @ [new_exch a now]\<rparr>, n = 1)))"

definition native_auth_exchange_pending :: "string \<Rightarrow> string \<Rightarrow> real \<Rightarrow> wa_db \<Rightarrow> bool" where
  "native_auth_exchange_pending token verifier now db \<longleftrightarrow>
     (case fetch_one (\<lambda>r. x_token r = token) (exchs db) of
        None \<Rightarrow> False | Some r \<Rightarrow> x_expires r \<ge> now \<and> x_verifier r = verifier)"

definition exch_credential_valid :: "wa_db \<Rightarrow> exch_row \<Rightarrow> bool" where
  "exch_credential_valid db r \<longleftrightarrow>
     x_cred_gen r \<noteq> [] \<and> exists_where (\<lambda>k. k_id k = x_cred r \<and> k_gen k = x_cred_gen r) (creds db)"

definition native_auth_exchange_consume ::
  "string \<Rightarrow> string \<times> string \<times> real \<Rightarrow> wa_db \<Rightarrow> wa_db \<times> string option" where
  "native_auth_exchange_consume token args db =
     (case args of (verifier, account, now) \<Rightarrow>
        (case fetch_one (\<lambda>r. x_token r = token) (exchs db) of
           None \<Rightarrow> (db, None)
         | Some r \<Rightarrow>
             (let cred = exch_credential_valid db r;
                  valid = (cred \<and> x_expires r \<ge> now \<and> x_verifier r = verifier \<and> account \<noteq> [] \<and> x_account r = account)
              in (if valid \<or> x_expires r < now \<or> \<not> cred
                  then db\<lparr>exchs := delete_where (\<lambda>r. x_token r = token) (exchs db)\<rparr> else db,
                  if valid then Some (x_user r) else None))))"

subsection \<open>Registration tokens\<close>

record reg_args =
  ra_token :: string
  ra_verifier :: string
  ra_user :: string
  ra_method :: string
  ra_label :: string
  ra_account :: string
  ra_ttl :: int

definition native_webauthn_registration_create :: "reg_args \<Rightarrow> real \<Rightarrow> wa_db \<Rightarrow> wa_db result" where
  "native_webauthn_registration_create a now db =
     (if \<not> valid_method (ra_method a) then Inl method_error
      else (let t = keep_newest n_created 255 n_token (delete_where (\<lambda>r. n_expires r < now) (regs db))
            in if exists_where (\<lambda>r. n_token r = ra_token a) t then Inl IntegrityError
               else Inr (db\<lparr>regs := t @
                 [\<lparr>n_token = ra_token a, n_verifier = ra_verifier a, n_user = take 128 (ra_user a),
                   n_method = ra_method a, n_label = take 80 (ra_label a), n_account = ra_account a,
                   n_expires = now + of_int (max 30 (min (ra_ttl a) 600)), n_created = now\<rparr>]\<rparr>)))"

definition native_webauthn_registration_consume ::
  "string \<Rightarrow> string \<times> string \<times> real \<Rightarrow> wa_db \<Rightarrow> wa_db \<times> reg_row option" where
  "native_webauthn_registration_consume token args db =
     (case args of (verifier, account, now) \<Rightarrow>
        (case fetch_one (\<lambda>r. n_token r = token) (regs db) of
           None \<Rightarrow> (db, None)
         | Some r \<Rightarrow>
             (let valid = (n_expires r \<ge> now \<and> n_verifier r = verifier \<and> account \<noteq> [] \<and> n_account r = account)
              in (if valid \<or> n_expires r < now
                  then db\<lparr>regs := delete_where (\<lambda>r. n_token r = token) (regs db)\<rparr> else db,
                  if valid then Some r else None))))"

subsection \<open>Steps\<close>

text \<open>Every committed operation. A step indexed by \<open>Some k\<close> makes no new challenge,
  exchange token, registration token or credential generation \<open>k\<close> (these are random values in the
  program), a step indexed by \<open>None\<close> may use any.\<close>

inductive wa_step :: "string option \<Rightarrow> wa_db \<Rightarrow> wa_db \<Rightarrow> bool" for k :: "string option" where
  wa_add: "webauthn_credential_add cid meth pubkey cnt transports device backed label gen now db = Inr db' \<Longrightarrow>
    k \<noteq> Some gen \<Longrightarrow> wa_step k db db'"
| wa_used: "wa_step k db (fst (webauthn_credential_used cid gen observed new_cnt device backed now db))"
| wa_delete: "wa_step k db (fst (webauthn_credential_delete cid db))"
| wa_challenge: "webauthn_challenge_create c now db = Inr db' \<Longrightarrow> k \<noteq> Some (ca_id c) \<Longrightarrow> wa_step k db db'"
| wa_answer: "wa_step k db (fst (webauthn_challenge_consume cid args db))"
| wa_exchange: "native_auth_exchange_create a now db = Inr (db', b) \<Longrightarrow> k \<noteq> Some (xa_token a) \<Longrightarrow> wa_step k db db'"
| wa_redeem: "wa_step k db (fst (native_auth_exchange_consume token args db))"
| wa_register: "native_webauthn_registration_create ra now db = Inr db' \<Longrightarrow> k \<noteq> Some (ra_token ra) \<Longrightarrow> wa_step k db db'"
| wa_enroll: "wa_step k db (fst (native_webauthn_registration_consume token args db))"

definition reachable_wa :: "wa_db \<Rightarrow> bool" where
  "reachable_wa db \<longleftrightarrow> (wa_step None)\<^sup>*\<^sup>* empty_wa_db db"

lemma add_effect:
  assumes "webauthn_credential_add cid meth pubkey cnt transports device backed label gen now db = Inr db'"
  obtains r where "k_id r = cid" "k_gen r = gen" "cid \<notin> k_id ` set (creds db)" "creds db' = creds db @ [r]"
    "chals db' = chals db" "exchs db' = exchs db" "regs db' = regs db"
proof -
  from assms have a: "cid \<notin> k_id ` set (creds db)"
    "db' = db\<lparr>creds := creds db @ [\<lparr>k_id = cid, k_method = meth, k_public = pubkey, k_count = max 0 cnt,
          k_transports = rev (remdups (rev transports)), k_device = take 40 device, k_backed = backed,
          k_label = take 80 label, k_created = now, k_used = None, k_gen = gen\<rparr>]\<rparr>"
    by (auto simp: webauthn_credential_add_def split: if_splits)
  show thesis by (rule that [OF _ _ a(1)]) (simp_all add: a(2))
qed

lemma challenge_effect:
  assumes "webauthn_challenge_create c now db = Inr db'"
  obtains r where "q_id r = ca_id c" "q_purpose r = ca_purpose c"
    "chals db' = delete_where (\<lambda>r. q_expires r < now) (chals db) @ [r]"
    "count_where (\<lambda>r. q_purpose r = ca_purpose c) (delete_where (\<lambda>r. q_expires r < now) (chals db)) < 512"
    "ca_id c \<notin> q_id ` set (delete_where (\<lambda>r. q_expires r < now) (chals db))"
    "creds db' = creds db" "exchs db' = exchs db" "regs db' = regs db"
proof -
  let ?r = "\<lparr>q_id = ca_id c, q_challenge = ca_challenge c, q_purpose = ca_purpose c, q_method = ca_method c,
          q_label = take 80 (ca_label c), q_native = ca_native c, q_binding = take 128 (ca_binding c),
          q_account = ca_account c, q_expires = now + of_int (max 30 (min (ca_ttl c) 600)), q_created = now\<rparr>"
  let ?live = "delete_where (\<lambda>r. q_expires r < now) (chals db)"
  from assms have a: "count_where (\<lambda>r. q_purpose r = ca_purpose c) ?live < 512"
    "\<not> exists_where (\<lambda>r. q_id r = ca_id c) ?live" "db' = db\<lparr>chals := ?live @ [?r]\<rparr>"
    unfolding webauthn_challenge_create_def Let_def by (simp_all split: if_splits)
  then show thesis by (intro that [of ?r]) auto
qed

lemma exchange_effect:
  assumes "native_auth_exchange_create a now db = Inr (db', b)"
  obtains new where "exchs db' = exchs db \<or> exchs db' = keep_newest x_created 1023 x_token
      (delete_where (\<lambda>r. x_expires r < now) (exchs db)) @ new"
    "list_all (\<lambda>r. x_token r = xa_token a) new" "length new \<le> 1"
    "creds db' = creds db" "chals db' = chals db" "regs db' = regs db"
proof -
  let ?t = "keep_newest x_created 1023 x_token (delete_where (\<lambda>r. x_expires r < now) (exchs db))"
  from assms have "db' = db \<or> db' = db\<lparr>exchs := ?t\<rparr> \<or> db' = db\<lparr>exchs := ?t @ [new_exch a now]\<rparr>"
    unfolding native_auth_exchange_create_def Let_def by (simp split: if_splits)
  then show thesis
    using that [of "[]"] that [of "[new_exch a now]"] by (auto simp: new_exch_def)
qed

lemma registration_effect:
  assumes "native_webauthn_registration_create ra now db = Inr db'"
  obtains r where "regs db' = keep_newest n_created 255 n_token (delete_where (\<lambda>r. n_expires r < now) (regs db)) @ [r]"
    "n_token r = ra_token ra" "creds db' = creds db" "chals db' = chals db" "exchs db' = exchs db"
proof -
  from assms show thesis
    unfolding native_webauthn_registration_create_def Let_def
    by (intro that) (auto split: if_splits)
qed

lemma keep_newest_subset: "set (keep_newest cr n key t) \<subseteq> set t"
  by (auto simp: keep_newest_def Let_def)

lemma length_keep_newest: "length (keep_newest cr n key t) \<le> n"
proof -
  let ?ys = "order_desc cr t"
  let ?old = "set (map key (drop n ?ys))"
  have "mset (filter (\<lambda>r. key r \<notin> ?old) t) = mset (filter (\<lambda>r. key r \<notin> ?old) ?ys)"
    by (simp add: order_desc_def)
  then have "length (filter (\<lambda>r. key r \<notin> ?old) t) = length (filter (\<lambda>r. key r \<notin> ?old) ?ys)"
    by (rule mset_eq_length)
  also have "\<dots> = length (filter (\<lambda>r. key r \<notin> ?old) (take n ?ys @ drop n ?ys))" by simp
  also have "\<dots> = length (filter (\<lambda>r. key r \<notin> ?old) (take n ?ys))"
    unfolding filter_append by (simp add: filter_empty_conv)
  also have "\<dots> \<le> length (take n ?ys)" by (rule length_filter_le)
  finally show ?thesis by (simp add: keep_newest_def Let_def delete_where_def)
qed

text \<open>What a consume leaves: fewer rows.\<close>

lemma answer_simps [simp]:
  "chals (fst (webauthn_challenge_consume cid args db)) = delete_where (\<lambda>r. q_id r = cid) (chals db)"
  "creds (fst (webauthn_challenge_consume cid args db)) = creds db"
  "exchs (fst (webauthn_challenge_consume cid args db)) = exchs db"
  "regs (fst (webauthn_challenge_consume cid args db)) = regs db"
  by (simp_all add: webauthn_challenge_consume_def split: prod.split)

lemma redeem_simps:
  "exchs (fst (native_auth_exchange_consume token args db)) = exchs db \<or>
   exchs (fst (native_auth_exchange_consume token args db)) = delete_where (\<lambda>r. x_token r = token) (exchs db)"
  "creds (fst (native_auth_exchange_consume token args db)) = creds db"
  "chals (fst (native_auth_exchange_consume token args db)) = chals db"
  "regs (fst (native_auth_exchange_consume token args db)) = regs db"
  by (auto simp: native_auth_exchange_consume_def Let_def split: prod.split option.split)

lemma enroll_simps:
  "regs (fst (native_webauthn_registration_consume token args db)) = regs db \<or>
   regs (fst (native_webauthn_registration_consume token args db)) = delete_where (\<lambda>r. n_token r = token) (regs db)"
  "creds (fst (native_webauthn_registration_consume token args db)) = creds db"
  "chals (fst (native_webauthn_registration_consume token args db)) = chals db"
  "exchs (fst (native_webauthn_registration_consume token args db)) = exchs db"
  by (auto simp: native_webauthn_registration_consume_def Let_def split: prod.split option.split)

lemma used_simps [simp]:
  "chals (fst (webauthn_credential_used cid gen observed new_cnt device backed now db)) = chals db"
  "exchs (fst (webauthn_credential_used cid gen observed new_cnt device backed now db)) = exchs db"
  "regs (fst (webauthn_credential_used cid gen observed new_cnt device backed now db)) = regs db"
  by (simp_all add: webauthn_credential_used_def Let_def)

lemma delete_simps [simp]:
  "chals (fst (webauthn_credential_delete cid db)) = chals db"
  "exchs (fst (webauthn_credential_delete cid db)) = exchs db"
  "regs (fst (webauthn_credential_delete cid db)) = regs db"
  "creds (fst (webauthn_credential_delete cid db)) = delete_where (\<lambda>r. k_id r = cid) (creds db)"
  by (simp_all add: webauthn_credential_delete_def)

lemma step_chal_ids: "wa_step k db db' \<Longrightarrow> k = Some x \<Longrightarrow> x \<notin> q_id ` set (chals db) \<Longrightarrow> x \<notin> q_id ` set (chals db')"
proof (induction rule: wa_step.induct)
  case (wa_challenge c now db db')
  then show ?case by (elim challenge_effect) auto
qed (auto elim: add_effect exchange_effect registration_effect simp: redeem_simps enroll_simps)

lemma step_exch_ids: "wa_step k db db' \<Longrightarrow> k = Some x \<Longrightarrow> x \<notin> x_token ` set (exchs db) \<Longrightarrow> x \<notin> x_token ` set (exchs db')"
proof (induction rule: wa_step.induct)
  case (wa_exchange a now db db' b)
  then show ?case
    by (elim exchange_effect) (use keep_newest_subset in \<open>fastforce simp: list_all_iff\<close>)
next
  case (wa_redeem db token args)
  then show ?case using redeem_simps(1) [of token args db] by auto
qed (auto elim: add_effect challenge_effect registration_effect simp: enroll_simps)

lemma step_reg_ids: "wa_step k db db' \<Longrightarrow> k = Some x \<Longrightarrow> x \<notin> n_token ` set (regs db) \<Longrightarrow> x \<notin> n_token ` set (regs db')"
proof (induction rule: wa_step.induct)
  case (wa_register ra now db db')
  then show ?case
    by (elim registration_effect) (use keep_newest_subset in fastforce)
next
  case (wa_enroll db token args)
  then show ?case using enroll_simps(1) [of token args db] by auto
qed (auto elim: add_effect challenge_effect exchange_effect simp: redeem_simps)

interpretation challenge: one_time "\<lambda>db k. k \<in> q_id ` set (chals db)" webauthn_challenge_consume "\<lambda>k. wa_step (Some k)"
proof unfold_locales
  show "webauthn_challenge_consume k a s = (t, Some r) \<Longrightarrow> k \<notin> q_id ` set (chals t)" for k a s t r
    by (auto simp: webauthn_challenge_consume_def split: prod.splits)
  show "k \<notin> q_id ` set (chals s) \<Longrightarrow> snd (webauthn_challenge_consume k a s) = None" for k a s
    by (auto simp: webauthn_challenge_consume_def split: prod.split option.split dest!: fetch_one_Some)
qed (rule step_chal_ids, simp_all)

interpretation exchange: one_time "\<lambda>db k. k \<in> x_token ` set (exchs db)" native_auth_exchange_consume "\<lambda>k. wa_step (Some k)"
proof unfold_locales
  show "native_auth_exchange_consume k a s = (t, Some r) \<Longrightarrow> k \<notin> x_token ` set (exchs t)" for k a s t r
    by (auto simp: native_auth_exchange_consume_def Let_def split: prod.splits option.splits if_splits)
  show "k \<notin> x_token ` set (exchs s) \<Longrightarrow> snd (native_auth_exchange_consume k a s) = None" for k a s
    by (auto simp: native_auth_exchange_consume_def Let_def split: prod.split option.split dest!: fetch_one_Some)
qed (rule step_exch_ids, simp_all)

interpretation registration: one_time "\<lambda>db k. k \<in> n_token ` set (regs db)" native_webauthn_registration_consume "\<lambda>k. wa_step (Some k)"
proof unfold_locales
  show "native_webauthn_registration_consume k a s = (t, Some r) \<Longrightarrow> k \<notin> n_token ` set (regs t)" for k a s t r
    by (auto simp: native_webauthn_registration_consume_def Let_def split: prod.splits option.splits if_splits)
  show "k \<notin> n_token ` set (regs s) \<Longrightarrow> snd (native_webauthn_registration_consume k a s) = None" for k a s
    by (auto simp: native_webauthn_registration_consume_def Let_def split: prod.split option.split dest!: fetch_one_Some)
qed (rule step_reg_ids, simp_all)

subsection \<open>The signature counter\<close>

definition spent :: "wa_db \<Rightarrow> string \<Rightarrow> string \<Rightarrow> int \<Rightarrow> bool" where
  "spent db cid gen observed \<longleftrightarrow>
     (\<forall>r \<in> set (creds db). k_id r = cid \<and> k_gen r = gen \<longrightarrow> observed < k_count r)"

definition wa_wf :: "wa_db \<Rightarrow> bool" where
  "wa_wf db \<longleftrightarrow> distinct (map k_id (creds db)) \<and>
     (\<forall>p. count_where (\<lambda>r. q_purpose r = p) (chals db) \<le> 512) \<and>
     length (exchs db) \<le> 1024 \<and> length (regs db) \<le> 256"

lemma used_row:
  assumes "r \<in> set (creds (fst (webauthn_credential_used cid gen observed new_cnt device backed now db)))"
  shows "r \<in> set (creds db) \<and> \<not> (snd (webauthn_credential_used cid gen observed new_cnt device backed now db) \<and>
      k_id r = cid \<and> k_gen r = gen \<and> k_count r = observed) \<or>
    (\<exists>q \<in> set (creds db). k_id q = cid \<and> k_gen q = gen \<and> k_count q = observed \<and>
       k_id r = cid \<and> k_gen r = gen \<and> k_count r = max 0 new_cnt \<and> observed \<le> new_cnt)"
proof (cases "gen = [] \<or> new_cnt < observed \<or> (observed > 0 \<and> new_cnt = observed)")
  case True
  with assms show ?thesis by (simp add: webauthn_credential_used_def)
next
  case False
  with assms have "r \<in> set (update_where (\<lambda>r. k_id r = cid \<and> k_gen r = gen \<and> k_count r = observed)
      (\<lambda>r. r\<lparr>k_count := max 0 new_cnt, k_device := take 40 device, k_backed := backed, k_used := Some now\<rparr>) (creds db))"
    by (simp add: webauthn_credential_used_def Let_def)
  then consider "r \<in> set (creds db)" "\<not> (k_id r = cid \<and> k_gen r = gen \<and> k_count r = observed)"
    | q where "q \<in> set (creds db)" "k_id q = cid" "k_gen q = gen" "k_count q = observed"
        "r = q\<lparr>k_count := max 0 new_cnt, k_device := take 40 device, k_backed := backed, k_used := Some now\<rparr>"
    unfolding in_update_where_cases by blast
  then show ?thesis
  proof cases
    case 1
    then show ?thesis by blast
  next
    case (2 q)
    with False show ?thesis by (intro disjI2 bexI [of _ q]) auto
  qed
qed

lemma spent_step: "wa_step k db db' \<Longrightarrow> k = Some gen \<Longrightarrow> spent db cid gen obs \<Longrightarrow> spent db' cid gen obs"
proof (induction rule: wa_step.induct)
  case (wa_add cid' meth pubkey cnt transports device backed label gen' now db db')
  then show ?case by (elim add_effect) (auto simp: spent_def)
next
  case (wa_used db cid' gen' observed new_cnt device backed now)
  show ?case
    unfolding spent_def
  proof (intro ballI impI, elim conjE)
    fix r assume r: "r \<in> set (creds (fst (webauthn_credential_used cid' gen' observed new_cnt device backed now db)))"
      "k_id r = cid" "k_gen r = gen"
    from used_row [OF r(1)] show "obs < k_count r"
    proof (elim disjE bexE conjE)
      assume "r \<in> set (creds db)"
      with r wa_used.prems(2) show ?thesis by (simp add: spent_def)
    next
      fix q assume "q \<in> set (creds db)" "k_id q = cid'" "k_gen q = gen'" "k_count q = observed"
        "k_id r = cid'" "k_gen r = gen'" "k_count r = max 0 new_cnt" "observed \<le> new_cnt"
      with r wa_used.prems(2) show ?thesis by (fastforce simp: spent_def)
    qed
  qed
next
  case (wa_delete db cid')
  then show ?case by (auto simp: spent_def)
next
  case (wa_challenge c now db db')
  then show ?case by (elim challenge_effect) (simp add: spent_def)
next
  case (wa_exchange a now db db' b)
  then show ?case by (elim exchange_effect) (simp add: spent_def)
next
  case (wa_register ra now db db')
  then show ?case by (elim registration_effect) (simp add: spent_def)
qed (simp_all add: spent_def redeem_simps enroll_simps)

lemma spent_steps: "(wa_step (Some gen))\<^sup>*\<^sup>* db db' \<Longrightarrow> spent db cid gen obs \<Longrightarrow> spent db' cid gen obs"
  by (induction rule: rtranclp_induct) (auto intro: spent_step)

lemma count_delete_le: "count_where P (delete_where Q t) \<le> count_where P t"
  by (induction t) (simp_all add: count_where_def delete_where_def)

lemma count_append: "count_where P (t @ u) = count_where P t + count_where P u"
  by (simp add: count_where_def)

lemma length_delete_where_le: "length (delete_where P t) \<le> length t"
  by (simp add: delete_where_def)

lemma challenge_count:
  assumes "\<forall>p. count_where (\<lambda>r. q_purpose r = p) (chals db) \<le> 512" and "webauthn_challenge_create c now db = Inr db'"
  shows "count_where (\<lambda>r. q_purpose r = p) (chals db') \<le> 512"
  using assms(2)
proof (rule challenge_effect)
  fix r
  let ?live = "delete_where (\<lambda>r. q_expires r < now) (chals db)"
  assume a: "q_purpose r = ca_purpose c" "chals db' = ?live @ [r]"
    "count_where (\<lambda>r. q_purpose r = ca_purpose c) ?live < 512"
  have "count_where (\<lambda>r. q_purpose r = p) ?live \<le> 512"
    using count_delete_le assms(1) by (meson order_trans)
  with a show ?thesis
    unfolding a(2) count_append by (cases "p = ca_purpose c") (simp_all add: count_where_def)
qed

lemma wa_wf_step: "wa_step k db db' \<Longrightarrow> wa_wf db \<Longrightarrow> wa_wf db'"
proof (induction rule: wa_step.induct)
  case (wa_add cid meth pubkey cnt transports device backed label gen now db db')
  then show ?case by (elim add_effect) (simp add: wa_wf_def)
next
  case (wa_used db cid gen observed new_cnt device backed now)
  have "map k_id (creds (fst (webauthn_credential_used cid gen observed new_cnt device backed now db))) = map k_id (creds db)"
    by (simp add: webauthn_credential_used_def Let_def map_update_where)
  with wa_used show ?case by (simp add: wa_wf_def)
next
  case (wa_delete db cid)
  then show ?case by (simp add: wa_wf_def distinct_delete_where)
next
  case (wa_challenge c now db db')
  then have "\<forall>p. count_where (\<lambda>r. q_purpose r = p) (chals db') \<le> 512"
    using challenge_count by (auto simp: wa_wf_def)
  with wa_challenge show ?case by (elim challenge_effect) (simp add: wa_wf_def)
next
  case (wa_answer db cid args)
  then show ?case using count_delete_le order_trans by (simp add: wa_wf_def) blast
next
  case (wa_exchange a now db db' b)
  then show ?case
  proof (elim exchange_effect)
    fix new
    assume "exchs db' = exchs db \<or> exchs db' = keep_newest x_created 1023 x_token
        (delete_where (\<lambda>r. x_expires r < now) (exchs db)) @ new" "length new \<le> 1"
      "creds db' = creds db" "chals db' = chals db" "regs db' = regs db"
    then show ?thesis
      using wa_exchange.prems length_keep_newest [of x_created 1023 x_token "delete_where (\<lambda>r. x_expires r < now) (exchs db)"]
      by (auto simp: wa_wf_def)
  qed
next
  case (wa_redeem db token args)
  then show ?case
    using redeem_simps [of token args db] length_delete_where_le [of "\<lambda>r. x_token r = token" "exchs db"]
    by (auto simp: wa_wf_def)
next
  case (wa_register ra now db db')
  then show ?case
    using length_keep_newest [of n_created 255 n_token "delete_where (\<lambda>r. n_expires r < now) (regs db)"]
    by (elim registration_effect) (simp add: wa_wf_def)
next
  case (wa_enroll db token args)
  then show ?case
    using enroll_simps [of token args db] length_delete_where_le [of "\<lambda>r. n_token r = token" "regs db"]
    by (auto simp: wa_wf_def)
qed

lemma reachable_wa_wf: "reachable_wa db \<Longrightarrow> wa_wf db"
  unfolding reachable_wa_def
proof (induction rule: rtranclp_induct)
  case base
  show ?case by (simp add: wa_wf_def empty_wa_db_def count_where_def)
qed (rule wa_wf_step)

subsection \<open>Properties\<close>

definition demo_key :: cred_row where
  "demo_key = \<lparr>k_id = ''c1'', k_method = ''passkey'', k_public = ''pk'', k_count = 5, k_transports = [],
     k_device = [], k_backed = False, k_label = [], k_created = 10, k_used = None, k_gen = ''g1''\<rparr>"

definition demo_keys :: wa_db where
  "demo_keys = empty_wa_db\<lparr>creds := [demo_key]\<rparr>"

definition demo_challenge :: chal_args where
  "demo_challenge = \<lparr>ca_id = ''q1'', ca_challenge = ''x'', ca_purpose = ''authenticate'', ca_method = ''passkey'',
     ca_label = [], ca_native = False, ca_binding = [], ca_account = ''a1'', ca_ttl = 300\<rparr>"

definition demo_exchange :: exch_args where
  "demo_exchange = \<lparr>xa_token = ''t1'', xa_verifier = ''v1'', xa_user = ''admin'', xa_account = ''a1'',
     xa_cred = ''c1'', xa_cred_gen = ''g1'', xa_ttl = 60\<rparr>"

definition demo_wa :: wa_db where
  "demo_wa = demo_keys\<lparr>exchs := [new_exch demo_exchange 20]\<rparr>"

lemma reachable_keys: "reachable_wa demo_keys"
proof -
  have "webauthn_credential_add ''c1'' ''passkey'' ''pk'' 5 [] [] False [] ''g1'' 10 empty_wa_db = Inr demo_keys"
    by (simp add: webauthn_credential_add_def valid_method_def empty_wa_db_def demo_keys_def demo_key_def)
  then show ?thesis unfolding reachable_wa_def by (blast intro: wa_add)
qed

text \<open>C35: a passkey challenge is answered once. After a successful answer, and any further operations
  that do not draw the same random id again, the same challenge gives nothing, whatever purpose or
  account is claimed.\<close>

theorem challenge_is_used_once:
  assumes "webauthn_challenge_consume cid args db = (db1, Some r)" and "(wa_step (Some cid))\<^sup>*\<^sup>* db1 db2"
  shows "snd (webauthn_challenge_consume cid args' db2) = None"
  using assms by (rule challenge.used_once)

theorem challenge_is_used_once_witness:
  "\<exists>db db1 r. webauthn_challenge_create demo_challenge 20 demo_keys = Inr db \<and>
     webauthn_challenge_consume ''q1'' (''authenticate'', ''a1'', 30) db = (db1, Some r) \<and>
     snd (webauthn_challenge_consume ''q1'' (''authenticate'', ''a1'', 31) db1) = None"
proof -
  obtain db where c: "webauthn_challenge_create demo_challenge 20 demo_keys = Inr db"
    "\<exists>r. fetch_one (\<lambda>r. q_id r = ''q1'') (chals db) = Some r \<and> q_purpose r = ''authenticate'' \<and>
       q_account r = ''a1'' \<and> q_expires r = 320"
    by (simp add: webauthn_challenge_create_def demo_challenge_def demo_keys_def empty_wa_db_def Let_def
        count_where_def delete_where_def valid_method_def)
  then obtain db1 r where a: "webauthn_challenge_consume ''q1'' (''authenticate'', ''a1'', 30) db = (db1, Some r)"
    by (auto simp: webauthn_challenge_consume_def)
  from challenge_is_used_once [OF a rtranclp.rtrancl_refl] a c(1) show ?thesis by blast
qed

text \<open>An exchange token is redeemed once: after a success no later attempt with the token yields a
  user.\<close>

theorem exchange_token_is_used_once:
  assumes "native_auth_exchange_consume token args db = (db1, Some user)" and "(wa_step (Some token))\<^sup>*\<^sup>* db1 db2"
  shows "snd (native_auth_exchange_consume token args' db2) = None"
  using assms by (rule exchange.used_once)

theorem exchange_token_is_used_once_witness:
  "\<exists>db1. native_auth_exchange_consume ''t1'' (''v1'', ''a1'', 30) demo_wa = (db1, Some ''admin'') \<and>
     snd (native_auth_exchange_consume ''t1'' (''v1'', ''a1'', 31) (fst (webauthn_credential_delete ''c9'' db1))) = None"
proof -
  obtain db1 where a: "native_auth_exchange_consume ''t1'' (''v1'', ''a1'', 30) demo_wa = (db1, Some ''admin'')"
    by (simp add: native_auth_exchange_consume_def Let_def demo_wa_def new_exch_def demo_exchange_def
        exch_credential_valid_def demo_keys_def demo_key_def)
  have "(wa_step (Some ''t1''))\<^sup>*\<^sup>* db1 (fst (webauthn_credential_delete ''c9'' db1))" by (blast intro: wa_delete)
  from exchange_token_is_used_once [OF a this] a show ?thesis by blast
qed

text \<open>A registration token is used once.\<close>

theorem registration_token_is_used_once:
  assumes "native_webauthn_registration_consume token args db = (db1, Some r)" and "(wa_step (Some token))\<^sup>*\<^sup>* db1 db2"
  shows "snd (native_webauthn_registration_consume token args' db2) = None"
  using assms by (rule registration.used_once)

theorem registration_token_is_used_once_witness:
  "\<exists>db db1 r. native_webauthn_registration_create \<lparr>ra_token = ''r1'', ra_verifier = ''v'', ra_user = ''admin'',
       ra_method = ''passkey'', ra_label = [], ra_account = ''a1'', ra_ttl = 300\<rparr> 20 empty_wa_db = Inr db \<and>
     native_webauthn_registration_consume ''r1'' (''v'', ''a1'', 30) db = (db1, Some r) \<and>
     snd (native_webauthn_registration_consume ''r1'' (''v'', ''a1'', 31) db1) = None"
proof -
  obtain db where c: "native_webauthn_registration_create \<lparr>ra_token = ''r1'', ra_verifier = ''v'', ra_user = ''admin'',
       ra_method = ''passkey'', ra_label = [], ra_account = ''a1'', ra_ttl = 300\<rparr> 20 empty_wa_db = Inr db"
    "\<exists>r. fetch_one (\<lambda>r. n_token r = ''r1'') (regs db) = Some r \<and> n_verifier r = ''v'' \<and>
       n_account r = ''a1'' \<and> n_expires r = 320"
    by (simp add: native_webauthn_registration_create_def empty_wa_db_def Let_def keep_newest_def delete_where_def
        order_desc_def valid_method_def)
  then obtain db1 r where a: "native_webauthn_registration_consume ''r1'' (''v'', ''a1'', 30) db = (db1, Some r)"
    by (auto simp: native_webauthn_registration_consume_def Let_def)
  from registration_token_is_used_once [OF a rtranclp.rtrancl_refl] a c(1) show ?thesis by blast
qed

text \<open>Who may redeem an exchange token. A stored token yields its user exactly when it has not
  expired, the verifier and the account generation match, and the credential that earned it is
  still registered in the same generation. A wrong guess against a live token leaves the token
  for its owner; deleting the credential makes it worthless.\<close>

theorem exchange_redeem_conditions:
  assumes "fetch_one (\<lambda>r. x_token r = token) (exchs db) = Some r"
  shows "(snd (native_auth_exchange_consume token (verifier, account, now) db) = Some user \<longleftrightarrow>
      user = x_user r \<and> now \<le> x_expires r \<and> x_verifier r = verifier \<and> account \<noteq> [] \<and> x_account r = account \<and>
      x_cred_gen r \<noteq> [] \<and> list_ex (\<lambda>k. k_id k = x_cred r \<and> k_gen k = x_cred_gen r) (creds db)) \<and>
    (now \<le> x_expires r \<and> exch_credential_valid db r \<and> (x_verifier r \<noteq> verifier \<or> x_account r \<noteq> account) \<longrightarrow>
      native_auth_exchange_consume token (verifier, account, now) db = (db, None)) \<and>
    snd (native_auth_exchange_consume token (verifier, account, now) (fst (webauthn_credential_delete (x_cred r) db))) = None"
  using assms
  by (auto simp: native_auth_exchange_consume_def Let_def exch_credential_valid_def list_ex_iff)

theorem exchange_redeem_conditions_witness:
  "native_auth_exchange_consume ''t1'' (''falsch'', ''a1'', 30) demo_wa = (demo_wa, None) \<and>
   snd (native_auth_exchange_consume ''t1'' (''v1'', ''a1'', 30) (fst (webauthn_credential_delete ''c1'' demo_wa))) = None"
proof -
  have r: "fetch_one (\<lambda>r. x_token r = ''t1'') (exchs demo_wa) = Some (new_exch demo_exchange 20)"
    by (simp add: demo_wa_def new_exch_def demo_exchange_def)
  have live: "30 \<le> x_expires (new_exch demo_exchange 20)" "exch_credential_valid demo_wa (new_exch demo_exchange 20)"
    by (simp_all add: new_exch_def demo_exchange_def exch_credential_valid_def demo_wa_def demo_keys_def demo_key_def)
  from exchange_redeem_conditions [OF r, of "''falsch''" "''a1''" 30] exchange_redeem_conditions [OF r, of "''v1''" "''a1''" 30] live
  show ?thesis by (simp add: new_exch_def demo_exchange_def)
qed

text \<open>A signature counter value works once. When an assertion moved the counter of a credential
  beyond the value the server had seen, a second assertion checked against that old value is
  refused, whatever happened in between, as long as no credential is registered with the same
  random generation.\<close>

theorem signature_counter_is_not_replayed:
  assumes "reachable_wa db"
    and "webauthn_credential_used cid gen observed new_cnt device backed now db = (db1, True)"
    and "observed < new_cnt" and "(wa_step (Some gen))\<^sup>*\<^sup>* db1 db2"
  shows "webauthn_credential_used cid gen observed new_cnt' device' backed' now' db2 = (db2, False)"
proof -
  have wf: "distinct (map k_id (creds db1))"
  proof -
    have "wa_step None db db1" using wa_used [of None db cid gen observed new_cnt device backed now] assms(2) by simp
    with wa_wf_step reachable_wa_wf [OF assms(1)] show ?thesis by (auto simp: wa_wf_def)
  qed
  have "spent db1 cid gen observed"
    unfolding spent_def
  proof (intro ballI impI, elim conjE)
    fix r assume r: "r \<in> set (creds db1)" "k_id r = cid" "k_gen r = gen"
    from used_row [of r cid gen observed new_cnt device backed now db] r(1) assms(2)
    consider "r \<in> set (creds db)" "\<not> (k_id r = cid \<and> k_gen r = gen \<and> k_count r = observed)" | "k_count r = max 0 new_cnt"
      by auto
    then show "observed < k_count r"
    proof cases
      case 1
      let ?P = "\<lambda>r. k_id r = cid \<and> k_gen r = gen \<and> k_count r = observed"
      have "count_where ?P (creds db) = 1"
        using assms(2) by (auto simp: webauthn_credential_used_def Let_def split: if_splits)
      then have "filter ?P (creds db) \<noteq> []" by (auto simp: count_where_def)
      then obtain q where q: "q \<in> set (creds db)" "?P q" unfolding filter_empty_conv by blast
      with 1 r have "r = q"
        using reachable_wa_wf [OF assms(1)] by (auto simp: wa_wf_def distinct_map inj_on_def)
      with q 1 show ?thesis by blast
    next
      case 2
      with assms(3) show ?thesis by simp
    qed
  qed
  from spent_steps [OF assms(4) this] have none: "\<not> (k_id r = cid \<and> k_gen r = gen \<and> k_count r = observed)"
    if "r \<in> set (creds db2)" for r using that by (auto simp: spent_def)
  then have "update_where (\<lambda>r. k_id r = cid \<and> k_gen r = gen \<and> k_count r = observed) f (creds db2) = creds db2" for f
    by (intro update_where_False)
  moreover have "count_where (\<lambda>r. k_id r = cid \<and> k_gen r = gen \<and> k_count r = observed) (creds db2) = 0"
    using none by (auto simp: count_where_def filter_empty_conv)
  ultimately show ?thesis by (simp add: webauthn_credential_used_def Let_def)
qed

theorem signature_counter_is_not_replayed_witness:
  "\<exists>db1. webauthn_credential_used ''c1'' ''g1'' 5 6 [] False 40 demo_keys = (db1, True) \<and>
     webauthn_credential_used ''c1'' ''g1'' 5 7 [] False 41 db1 = (db1, False)"
proof -
  obtain db1 where a: "webauthn_credential_used ''c1'' ''g1'' 5 6 [] False 40 demo_keys = (db1, True)"
    by (simp add: webauthn_credential_used_def Let_def demo_keys_def demo_key_def count_where_def)
  from signature_counter_is_not_replayed [OF reachable_keys a _ rtranclp.rtrancl_refl] a show ?thesis by simp
qed

text \<open>Anonymous requests cannot fill or flush the challenge table. In every reachable state each
  purpose has at most 512 challenges, and creating one never removes a challenge that has not
  expired.\<close>

theorem challenges_are_capped_and_kept:
  assumes "reachable_wa db" and "webauthn_challenge_create c now db = Inr db'"
    and "q \<in> set (chals db)" and "now \<le> q_expires q"
  shows "count_where (\<lambda>r. q_purpose r = p) (chals db') \<le> 512 \<and> q \<in> set (chals db')"
proof
  show "count_where (\<lambda>r. q_purpose r = p) (chals db') \<le> 512"
    by (rule challenge_count [OF _ assms(2)]) (use reachable_wa_wf [OF assms(1)] in \<open>simp add: wa_wf_def\<close>)
  show "q \<in> set (chals db')" using assms(2) by (rule challenge_effect) (use assms(3,4) in simp)
qed

theorem challenges_are_capped_and_kept_witness:
  "\<exists>db q db'. webauthn_challenge_create demo_challenge 20 demo_keys = Inr db \<and> chals db = [q] \<and>
     webauthn_challenge_create (demo_challenge\<lparr>ca_id := ''q2''\<rparr>) 25 db = Inr db' \<and> q \<in> set (chals db')"
proof -
  obtain db q where c: "webauthn_challenge_create demo_challenge 20 demo_keys = Inr db" "chals db = [q]"
    "25 \<le> q_expires q" "q_id q = ''q1''"
    by (simp add: webauthn_challenge_create_def demo_challenge_def demo_keys_def empty_wa_db_def Let_def
        count_where_def delete_where_def valid_method_def)
  then obtain db' where c2: "webauthn_challenge_create (demo_challenge\<lparr>ca_id := ''q2''\<rparr>) 25 db = Inr db'"
    by (simp add: webauthn_challenge_create_def demo_challenge_def Let_def count_where_def delete_where_def valid_method_def)
  have "reachable_wa db"
    using reachable_keys wa_challenge [OF c(1), of None] unfolding reachable_wa_def
    by (simp add: rtranclp.rtrancl_into_rtrancl)
  from challenges_are_capped_and_kept [OF this c2, of q] c c2 show ?thesis by auto
qed

end
