(* ===== verification/Restore_Sampling.thy ===== *)
theory Restore_Sampling
  imports Py_Value "HOL-Library.Multiset" "HOL-Library.Sublist"
begin

text \<open>
  \<open>app/jobs/restore_sampling.py\<close>: the files a restore test draws from the shuffled reservoir, under
  a byte budget. The greedy selection in input order is kept when it is large enough; otherwise a
  largest-first heap finds a selection with more files. The heap of \<open>heapq\<close> is a list ordered so that
  its head is what \<open>heappop\<close> returns: the largest file, and among equals the latest.
\<close>

type_synonym candidate = "string \<times> int"

subsection \<open>Eligible candidates\<close>

definition candidate_of :: "int \<Rightarrow> pyval \<Rightarrow> candidate option" where
  "candidate_of budget v =
     (case v of
        PList [PStr path, PInt bytes] \<Rightarrow>
          if path = [] \<or> bytes < 0 \<or> bytes > budget then None else Some (path, bytes)
      | _ \<Rightarrow> None)"

fun eligible_from :: "int \<Rightarrow> string list \<Rightarrow> pyval list \<Rightarrow> candidate list" where
  "eligible_from budget seen [] = []"
| "eligible_from budget seen (v # vs) =
     (case candidate_of budget v of
        None \<Rightarrow> eligible_from budget seen vs
      | Some c \<Rightarrow> if fst c \<in> set seen then eligible_from budget seen vs
                 else c # eligible_from budget (fst c # seen) vs)"

abbreviation eligible :: "int \<Rightarrow> pyval list \<Rightarrow> candidate list" where
  "eligible budget vs \<equiv> eligible_from budget [] vs"

subsection \<open>The greedy selection\<close>

text \<open>The flag says that the loop returned because the requested count was reached.\<close>

fun greedy_loop :: "nat \<Rightarrow> int \<Rightarrow> candidate list \<Rightarrow> candidate list \<Rightarrow> int \<Rightarrow> candidate list \<times> bool" where
  "greedy_loop n budget [] acc bytes = (acc, False)"
| "greedy_loop n budget (c # cs) acc bytes =
     (if bytes + snd c \<le> budget then
        (if Suc (length acc) = n then (acc @ [c], True)
         else greedy_loop n budget cs (acc @ [c]) (bytes + snd c))
      else greedy_loop n budget cs acc bytes)"

subsection \<open>The heap selection\<close>

type_synonym entry = "int \<times> nat"

text \<open>\<open>above a b\<close>: \<open>heapq\<close> returns \<open>a\<close> before \<open>b\<close>.\<close>

fun above :: "entry \<Rightarrow> entry \<Rightarrow> bool" where
  "above (s, i) (t, j) \<longleftrightarrow> t < s \<or> (s = t \<and> j < i)"

fun push :: "entry \<Rightarrow> entry list \<Rightarrow> entry list" where
  "push e [] = [e]"
| "push e (h # hs) = (if above e h then e # h # hs else h # push e hs)"

definition heap_step :: "int \<Rightarrow> entry \<Rightarrow> entry list \<times> int \<Rightarrow> entry list \<times> int" where
  "heap_step budget e st =
     (case st of (heap, bytes) \<Rightarrow>
        (let heap1 = push e heap; bytes1 = bytes + fst e
         in if bytes1 > budget then (tl heap1, bytes1 - fst (hd heap1)) else (heap1, bytes1)))"

fun heap_loop :: "nat \<Rightarrow> int \<Rightarrow> entry list \<Rightarrow> entry list \<times> int \<Rightarrow> entry list \<times> int" where
  "heap_loop n budget [] st = st"
| "heap_loop n budget (e # es) st =
     (let st1 = heap_step budget e st
      in if length (fst st1) = n then st1 else heap_loop n budget es st1)"

definition entries :: "candidate list \<Rightarrow> entry list" where
  "entries cs = zip (map snd cs) [0..<length cs]"

text \<open>The limits are dynamically typed: anything but an integer is refused.\<close>

definition select_budgeted_sample :: "pyval list \<Rightarrow> pyval \<Rightarrow> pyval \<Rightarrow> candidate list result" where
  "select_budgeted_sample candidates sample_size max_total_bytes =
     (case (sample_size, max_total_bytes) of
        (PInt n, PInt budget) \<Rightarrow>
          if n \<le> 0 \<or> budget < 0 then Inr []
          else (let cs = eligible budget candidates in
                case greedy_loop (nat n) budget cs [] 0 of
                  (greedy, True) \<Rightarrow> Inr greedy
                | (greedy, False) \<Rightarrow>
                    (let heap = fst (heap_loop (nat n) budget (entries cs) ([], 0))
                     in if length heap \<le> length greedy then Inr greedy
                        else Inr (map (\<lambda>i. cs ! i) (sort (map snd heap)))))
      | _ \<Rightarrow> Inl (ValueError ''Sample count and byte budget must be integers''))"

subsection \<open>Greedy\<close>

definition total :: "candidate list \<Rightarrow> int" where
  "total cs = sum_list (map snd cs)"

lemma total_append [simp]: "total (a @ b) = total a + total b"
  by (simp add: total_def)

lemma total_single [simp]: "total [c] = snd c"
  by (simp add: total_def)

lemma greedy_sound:
  assumes "greedy_loop n budget cs acc bytes = (r, full)" and "bytes = total acc" and "bytes \<le> budget"
    and "length acc < n"
  shows "\<exists>s. r = acc @ s \<and> subseq s cs \<and> total r \<le> budget \<and> length r \<le> n \<and> (full \<longrightarrow> length r = n)"
  using assms
proof (induction n budget cs acc bytes rule: greedy_loop.induct)
  case (2 n budget c cs acc bytes)
  show ?case
  proof (cases "bytes + snd c \<le> budget")
    case False
    with 2 obtain s where "r = acc @ s \<and> subseq s cs \<and> total r \<le> budget \<and> length r \<le> n \<and> (full \<longrightarrow> length r = n)"
      by auto
    then show ?thesis by (intro exI [of _ s]) auto
  next
    case True
    show ?thesis
    proof (cases "Suc (length acc) = n")
      case N: True
      with 2 True have "r = acc @ [c]" "full" by simp_all
      with 2 True N show ?thesis by (intro exI [of _ "[c]"]) auto
    next
      case False
      with 2 True obtain s where
        "r = (acc @ [c]) @ s \<and> subseq s cs \<and> total r \<le> budget \<and> length r \<le> n \<and> (full \<longrightarrow> length r = n)"
        by auto
      then show ?thesis by (intro exI [of _ "c # s"]) auto
    qed
  qed
qed simp

subsection \<open>Heap order\<close>

lemma above_trans: "above a b \<Longrightarrow> above b c \<Longrightarrow> above a c"
  by (cases a; cases b; cases c) auto

lemma above_irrefl [simp]: "\<not> above a a"
  by (cases a) auto

lemma above_total: "a \<noteq> b \<Longrightarrow> above a b \<or> above b a"
  by (cases a; cases b) auto

lemma above_size: "above a b \<Longrightarrow> fst b \<le> fst a"
  by (cases a; cases b) auto

lemma set_push [simp]: "set (push e h) = insert e (set h)"
  by (induction h) auto

lemma length_push [simp]: "length (push e h) = Suc (length h)"
  by (induction h) auto

lemma push_not_Nil [simp]: "push e h \<noteq> []"
  using length_push [of e h] by (metis length_0_conv nat.distinct(1))

definition heap_ok :: "entry list \<Rightarrow> bool" where
  "heap_ok h \<longleftrightarrow> sorted_wrt above h"

lemma heap_ok_distinct: "heap_ok h \<Longrightarrow> distinct h"
  unfolding heap_ok_def by (induction h) auto

lemma heap_ok_push: "heap_ok h \<Longrightarrow> e \<notin> set h \<Longrightarrow> heap_ok (push e h)"
  unfolding heap_ok_def
proof (induction h)
  case (Cons a h)
  then show ?case using above_trans above_total [of a e] by auto
qed simp

lemma heap_ok_top: "heap_ok (m # h) \<Longrightarrow> e \<in> set h \<Longrightarrow> above m e"
  by (simp add: heap_ok_def)

lemma heap_ok_tl: "heap_ok h \<Longrightarrow> heap_ok (tl h)"
  by (cases h) (simp_all add: heap_ok_def)

subsection \<open>The invariant of the heap\<close>

definition weight :: "entry list \<Rightarrow> int" where
  "weight h = sum_list (map fst h)"

lemma weight_push [simp]: "weight (push e h) = fst e + weight h"
  by (induction h) (auto simp: weight_def)

text \<open>The heap holds the smallest entries seen; any further one would break the budget.\<close>

definition heap_inv :: "int \<Rightarrow> entry set \<Rightarrow> entry list \<times> int \<Rightarrow> bool" where
  "heap_inv budget P st \<longleftrightarrow>
     (case st of (heap, bytes) \<Rightarrow>
        heap_ok heap \<and> set heap \<subseteq> P \<and> bytes = weight heap \<and> bytes \<le> budget \<and>
        (\<forall>b \<in> P - set heap. (\<forall>a \<in> set heap. above b a) \<and> budget < bytes + fst b))"

lemma heap_inv_step:
  assumes inv: "heap_inv budget P st" and e: "e \<notin> P" and pos: "0 \<le> fst e"
  shows "heap_inv budget (insert e P) (heap_step budget e st)"
proof -
  obtain heap bytes where st: "st = (heap, bytes)" by (cases st)
  have h: "heap_ok heap" "set heap \<subseteq> P" "bytes = weight heap" "bytes \<le> budget"
    "\<And>b a. b \<in> P \<Longrightarrow> b \<notin> set heap \<Longrightarrow> a \<in> set heap \<Longrightarrow> above b a"
    "\<And>b. b \<in> P \<Longrightarrow> b \<notin> set heap \<Longrightarrow> budget < bytes + fst b"
    using inv by (auto simp: heap_inv_def st)
  have ok: "heap_ok (push e heap)" by (rule heap_ok_push) (use h(1,2) e in auto)
  show ?thesis
  proof (cases "bytes + fst e > budget")
    case False
    have "above b e \<and> budget < bytes + fst e + fst b" if b: "b \<in> P" "b \<notin> set heap" for b
    proof
      have lt: "fst e < fst b" using h(6) [OF b] False by simp
      then show "above b e" by (cases b; cases e) simp
      show "budget < bytes + fst e + fst b" using h(6) [OF b] pos by simp
    qed
    then have rest: "\<forall>b \<in> insert e P - set (push e heap).
        (\<forall>a \<in> set (push e heap). above b a) \<and> budget < bytes + fst e + fst b"
      using h(5) by auto
    have "set (push e heap) \<subseteq> insert e P" using h(2) by auto
    moreover have "bytes + fst e = weight (push e heap)" by (simp add: h(3))
    ultimately have "heap_inv budget (insert e P) (push e heap, bytes + fst e)"
      unfolding heap_inv_def prod.case
      by (intro conjI ok rest) (use False in simp_all)
    moreover have "heap_step budget e st = (push e heap, bytes + fst e)"
      using False by (simp add: heap_step_def st Let_def)
    ultimately show ?thesis by simp
  next
    case True
    obtain m h' where m: "push e heap = m # h'" by (cases "push e heap") auto
    have sets: "insert e (set heap) = insert m (set h')" using set_push [of e heap] m by simp
    have w: "weight h' = bytes + fst e - fst m"
      using weight_push [of e heap] m by (simp add: h(3) weight_def)
    have ok': "heap_ok h'" "m \<notin> set h'"
      using heap_ok_tl [OF ok] heap_ok_distinct [OF ok] m by simp_all
    have top: "above m a" if "a \<in> set h'" for a using heap_ok_top ok that m by metis
    have me: "fst e \<le> fst m"
    proof (cases "m = e")
      case False
      have "e \<in> insert m (set h')" unfolding sets [symmetric] by simp
      with False have "e \<in> set h'" by simp
      then have "above m e" by (rule top)
      then show ?thesis by (rule above_size)
    qed simp
    have rest: "(\<forall>a \<in> set h'. above b a) \<and> budget < weight h' + fst b" if b: "b \<in> insert e P" "b \<notin> set h'" for b
    proof (cases "b = m")
      case True
      with top w \<open>bytes + fst e > budget\<close> show ?thesis by simp
    next
      case False
      with b sets have b': "b \<in> P" "b \<notin> set heap" "b \<noteq> e" by blast+
      show ?thesis
      proof (cases "m = e")
        case True
        have "e \<notin> set heap" using h(2) e by blast
        with True sets ok'(2) have "set h' = set heap" by (metis Diff_insert_absorb)
        moreover from True w have "weight h' = bytes" by simp
        ultimately show ?thesis using h(5,6) b'(1,2) by simp
      next
        case False
        then have mh: "m \<in> set heap" using sets by blast
        then have bm: "above b m" using h(5) b'(1,2) by blast
        have "above b a" if a: "a \<in> set h'" for a using above_trans [OF bm top [OF a]] .
        moreover have "budget < weight h' + fst b"
          using above_size [OF bm] w \<open>bytes + fst e > budget\<close> by simp
        ultimately show ?thesis by blast
      qed
    qed
    have "set h' \<subseteq> insert e P" using sets h(2) by blast
    moreover have "weight h' \<le> budget" using w me h(4) by simp
    ultimately have "heap_inv budget (insert e P) (h', weight h')"
      using ok' rest by (auto simp: heap_inv_def)
    moreover have "heap_step budget e st = (h', weight h')"
      using True m w by (simp add: heap_step_def st Let_def)
    ultimately show ?thesis by simp
  qed
qed

lemma heap_step_length:
  "length (fst (heap_step budget e st)) \<le> Suc (length (fst st))"
  by (cases st) (auto simp: heap_step_def Let_def)

lemma heap_loop_inv:
  assumes "heap_inv budget P st" and "distinct es" and "P \<inter> set es = {}" and "\<forall>e \<in> set es. 0 \<le> fst e"
    and "length (fst st) < n"
  shows "\<exists>Q. heap_inv budget Q (heap_loop n budget es st) \<and> Q \<subseteq> P \<union> set es \<and>
    length (fst (heap_loop n budget es st)) \<le> n \<and>
    (length (fst (heap_loop n budget es st)) = n \<or> Q = P \<union> set es)"
  using assms
proof (induction es arbitrary: P st)
  case Nil
  then show ?case by auto
next
  case (Cons e es)
  let ?st = "heap_step budget e st"
  have inv: "heap_inv budget (insert e P) ?st"
    by (rule heap_inv_step) (use Cons.prems in auto)
  show ?case
  proof (cases "length (fst ?st) = n")
    case True
    then have "heap_loop n budget (e # es) st = ?st" by simp
    with inv True Cons.prems show ?thesis by (intro exI [of _ "insert e P"]) auto
  next
    case False
    have "length (fst ?st) < n" using heap_step_length [of budget e st] Cons.prems(5) False by simp
    with Cons.IH [OF inv] Cons.prems False show ?thesis by auto
  qed
qed

text \<open>A set of entries that outnumbers the heap exceeds the budget.\<close>

lemma heap_maximal:
  assumes inv: "heap_inv budget P (heap, bytes)" and fin: "finite T" and sub: "T \<subseteq> P"
    and pos: "\<forall>e \<in> P. 0 \<le> fst e" and more: "length heap < card T"
  shows "budget < sum fst T"
proof -
  let ?S = "set heap"
  have h: "heap_ok heap" "bytes = weight heap"
    "\<And>b a. b \<in> P \<Longrightarrow> b \<notin> ?S \<Longrightarrow> a \<in> ?S \<Longrightarrow> above b a"
    "\<And>b. b \<in> P \<Longrightarrow> b \<notin> ?S \<Longrightarrow> budget < bytes + fst b"
    using inv by (auto simp: heap_inv_def)
  have dist: "distinct heap" by (rule heap_ok_distinct [OF h(1)])
  have wS: "weight heap = sum fst ?S"
    using dist by (simp add: weight_def sum_list_distinct_conv_sum_set)
  have cS: "card ?S = length heap" using dist by (rule distinct_card)
  have card: "card (?S - T) < card (T - ?S)"
  proof -
    have "card (?S - T) = card ?S - card (?S \<inter> T)" "card (T - ?S) = card T - card (?S \<inter> T)"
      using fin card_Diff_subset_Int [of ?S T] card_Diff_subset_Int [of T ?S] by (simp_all add: Int_commute)
    moreover have "card (?S \<inter> T) \<le> card ?S" by (rule card_mono) auto
    ultimately show ?thesis using more cS by simp
  qed
  obtain b where b: "b \<in> T - ?S" and bmin: "\<forall>x \<in> T - ?S. fst b \<le> fst x"
  proof -
    have "finite (T - ?S)" "T - ?S \<noteq> {}" using fin card by (simp, metis card.empty not_less_zero)
    from arg_min_if_finite [OF this, of fst] show thesis
      by (intro that [of "arg_min_on fst (T - ?S)"]) (auto simp: not_less)
  qed
  have ge: "sum fst (?S - T) \<le> of_nat (card (?S - T)) * fst b"
  proof (rule sum_bounded_above)
    fix a assume "a \<in> ?S - T"
    with b sub h(3) have "above b a" by blast
    then show "fst a \<le> fst b" by (rule above_size)
  qed
  have le: "of_nat (card (T - ?S)) * fst b \<le> sum fst (T - ?S)"
    by (rule sum_bounded_below) (use bmin in blast)
  have b0: "0 \<le> fst b" using b sub pos by blast
  have "of_nat (card (?S - T)) * fst b + fst b \<le> of_nat (card (T - ?S)) * fst b"
  proof -
    have "(int (card (?S - T)) + 1) * fst b \<le> int (card (T - ?S)) * fst b"
      by (rule mult_right_mono) (use card b0 in auto)
    then show ?thesis by (simp add: algebra_simps)
  qed
  with ge le have "sum fst (?S - T) + fst b \<le> sum fst (T - ?S)" by linarith
  moreover have "sum fst T = sum fst (T \<inter> ?S) + sum fst (T - ?S)"
    using fin by (simp add: sum.Int_Diff [of T fst ?S])
  moreover have "sum fst ?S = sum fst (?S \<inter> T) + sum fst (?S - T)"
    by (simp add: sum.Int_Diff [of ?S fst T])
  ultimately have "weight heap + fst b \<le> sum fst T" by (simp add: wS Int_commute)
  with h(2,4) b sub show ?thesis by fastforce
qed

subsection \<open>The selection\<close>

lemma candidate_of_Some:
  "candidate_of budget v = Some c \<Longrightarrow> 0 \<le> snd c \<and> snd c \<le> budget \<and> fst c \<noteq> []"
  by (auto simp: candidate_of_def split: pyval.splits list.splits if_splits)

lemma eligible_props:
  "distinct (map fst (eligible_from budget seen vs)) \<and>
   (\<forall>c \<in> set (eligible_from budget seen vs). fst c \<notin> set seen \<and> 0 \<le> snd c \<and> snd c \<le> budget)"
proof (induction budget seen vs rule: eligible_from.induct)
  case (2 budget seen v vs)
  show ?case
  proof (cases "candidate_of budget v")
    case None
    with 2 show ?thesis by simp
  next
    case (Some c)
    note c = candidate_of_Some [OF Some]
    show ?thesis
    proof (cases "fst c \<in> set seen")
      case True
      with 2(2) [OF Some True] Some show ?thesis by simp
    next
      case False
      have "fst c \<notin> fst ` set (eligible_from budget (fst c # seen) vs)"
        using 2(3) [OF Some False] by auto
      with 2(3) [OF Some False] Some False c show ?thesis by simp
    qed
  qed
qed simp

lemma eligible_distinct: "distinct (map fst (eligible budget vs))"
  and eligible_size: "c \<in> set (eligible budget vs) \<Longrightarrow> 0 \<le> snd c \<and> snd c \<le> budget"
  using eligible_props [of budget "[]" vs] by auto

lemma nths_filter: "nths cs N = map (\<lambda>i. cs ! i) (filter (\<lambda>i. i \<in> N) [0..<length cs])"
proof (induction cs rule: rev_induct)
  case (snoc c cs)
  have "map (\<lambda>i. (cs @ [c]) ! i) (filter (\<lambda>i. i \<in> N) [0..<length cs]) =
      map (\<lambda>i. cs ! i) (filter (\<lambda>i. i \<in> N) [0..<length cs])"
    by (rule map_cong) (auto simp: nth_append)
  with snoc show ?case by (simp add: nths_append)
qed simp

lemma nths_indices:
  assumes "sorted js" and "distinct js" and "\<forall>i \<in> set js. i < length cs"
  shows "map (\<lambda>i. cs ! i) js = nths cs (set js)"
proof -
  have "filter (\<lambda>i. i \<in> set js) [0..<length cs] = js"
    using assms by (intro sorted_distinct_set_unique) (auto simp: sorted_filter [of id, simplified])
  then show ?thesis by (simp add: nths_filter)
qed

lemma total_nths: "total (nths cs N) = (\<Sum>i \<in> {i. i < length cs \<and> i \<in> N}. snd (cs ! i))"
proof -
  have "total (nths cs N) = sum_list (map (\<lambda>i. snd (cs ! i)) (filter (\<lambda>i. i \<in> N) [0..<length cs]))"
    by (simp add: total_def nths_filter comp_def)
  also have "\<dots> = (\<Sum>i \<in> set (filter (\<lambda>i. i \<in> N) [0..<length cs]). snd (cs ! i))"
    by (rule sum_list_distinct_conv_sum_set) simp
  also have "set (filter (\<lambda>i. i \<in> N) [0..<length cs]) = {i. i < length cs \<and> i \<in> N}" by auto
  finally show ?thesis .
qed

lemma entries_conv: "entries cs = map (\<lambda>i. (snd (cs ! i), i)) [0..<length cs]"
  by (rule nth_equalityI) (simp_all add: entries_def)

lemma entries_mem: "e \<in> set (entries cs) \<longleftrightarrow> snd e < length cs \<and> fst e = snd (cs ! snd e)"
  by (cases e) (auto simp: entries_conv)

lemma entries_distinct: "distinct (entries cs)"
  by (simp add: entries_def distinct_zipI2)

lemma sum_list_permuted: "mset xs = mset ys \<Longrightarrow> sum_list (map f xs) = sum_list (map f ys)" for f :: "'a \<Rightarrow> int"
proof -
  assume "mset xs = mset ys"
  then have "mset (map f xs) = mset (map f ys)" by simp
  then show ?thesis by (metis sum_mset_sum_list)
qed

lemma heap_result:
  assumes "\<forall>c \<in> set cs. 0 \<le> snd c" and "0 < n" and "0 \<le> budget"
  defines "heap \<equiv> fst (heap_loop n budget (entries cs) ([], 0))"
  shows "subseq (map (\<lambda>i. cs ! i) (sort (map snd heap))) cs" and "length heap \<le> n"
    and "total (map (\<lambda>i. cs ! i) (sort (map snd heap))) \<le> budget"
    and "subseq s cs \<Longrightarrow> total s \<le> budget \<Longrightarrow> length s \<le> n \<Longrightarrow> length s \<le> length heap"
proof -
  have pos: "\<forall>e \<in> set (entries cs). 0 \<le> fst e" using assms(1) by (auto simp: entries_mem)
  have "heap_inv budget {} ([], 0)" using assms(3) by (simp add: heap_inv_def heap_ok_def weight_def)
  from heap_loop_inv [OF this entries_distinct _ pos, of n] assms(2)
  obtain Q where Q: "heap_inv budget Q (heap_loop n budget (entries cs) ([], 0))" "Q \<subseteq> set (entries cs)"
    "length heap \<le> n" "length heap = n \<or> Q = set (entries cs)"
    by (auto simp: heap_def)
  obtain bytes where hb: "heap_loop n budget (entries cs) ([], 0) = (heap, bytes)"
    by (cases "heap_loop n budget (entries cs) ([], 0)") (simp add: heap_def)
  have inv: "heap_ok heap" "set heap \<subseteq> set (entries cs)" "weight heap \<le> budget"
    using Q(1,2) by (auto simp: heap_inv_def hb)
  show "length heap \<le> n" by (rule Q(3))
  have idx: "\<forall>i \<in> set (sort (map snd heap)). i < length cs" using inv(2) by (auto simp: entries_mem)
  have inj: "inj_on snd (set heap)"
  proof (rule inj_onI)
    fix x y assume xy: "x \<in> set heap" "y \<in> set heap" "snd x = snd y"
    with inv(2) have "x \<in> set (entries cs)" "y \<in> set (entries cs)" by blast+
    with xy(3) show "x = y" by (simp add: entries_mem prod_eq_iff)
  qed
  then have dist: "distinct (sort (map snd heap))"
    using heap_ok_distinct [OF inv(1)] by (simp add: distinct_map)
  show "subseq (map (\<lambda>i. cs ! i) (sort (map snd heap))) cs"
    unfolding nths_indices [OF _ dist idx, simplified] by (auto simp: subseq_conv_nths)
  have "total (map (\<lambda>i. cs ! i) (sort (map snd heap))) = sum_list (map (\<lambda>i. snd (cs ! i)) (sort (map snd heap)))"
    by (simp add: total_def comp_def)
  also have "\<dots> = sum_list (map (\<lambda>i. snd (cs ! i)) (map snd heap))"
    by (rule sum_list_permuted) simp
  also have "map (\<lambda>i. snd (cs ! i)) (map snd heap) = map fst heap"
  proof -
    have "snd (cs ! snd e) = fst e" if "e \<in> set heap" for e
      using that inv(2) entries_mem [of e cs] by auto
    then show ?thesis by simp
  qed
  finally show "total (map (\<lambda>i. cs ! i) (sort (map snd heap))) \<le> budget" using inv(3) by (simp add: weight_def)
  assume s: "subseq s cs" "total s \<le> budget" "length s \<le> n"
  show "length s \<le> length heap"
  proof (rule ccontr)
    assume more: "\<not> length s \<le> length heap"
    with s(3) Q(4) have all: "Q = set (entries cs)" by auto
    from s(1) obtain N where N: "s = nths cs N" by (auto simp: subseq_conv_nths)
    let ?I = "{i. i < length cs \<and> i \<in> N}"
    let ?T = "(\<lambda>i. (snd (cs ! i), i)) ` ?I"
    have inj: "inj_on (\<lambda>i. (snd (cs ! i), i)) ?I" by (simp add: inj_on_def)
    have "card ?T = length s" by (simp add: card_image [OF inj] N length_nths)
    moreover have "sum fst ?T = total s" by (simp add: sum.reindex [OF inj] N total_nths)
    moreover have "?T \<subseteq> set (entries cs)" by (auto simp: entries_mem)
    moreover have "finite ?T" by simp
    ultimately have "budget < total s"
      using heap_maximal [OF Q(1) [unfolded hb all], of ?T] pos more by simp
    with s(2) show False by simp
  qed
qed

lemma total_nonneg: "\<forall>c \<in> set cs. 0 \<le> snd c \<Longrightarrow> 0 \<le> total cs"
  unfolding total_def by (intro sum_list_nonneg) auto

text \<open>C38: the sample is feasible and as large as possible. With integer limits the selection always
  returns; it consists of distinct eligible candidates in input order, keeps the requested count and
  the byte budget, and no other choice of eligible candidates within these limits has more files.\<close>

theorem sample_is_feasible_and_maximal:
  "\<exists>r. select_budgeted_sample vs (PInt n) (PInt budget) = Inr r \<and> subseq r (eligible budget vs) \<and>
     distinct (map fst r) \<and> total r \<le> max 0 budget \<and> int (length r) \<le> max 0 n \<and>
     (\<forall>s. subseq s (eligible budget vs) \<and> total s \<le> budget \<and> int (length s) \<le> n \<longrightarrow> length s \<le> length r)"
proof (cases "n \<le> 0 \<or> budget < 0")
  case True
  have "s = []" if s: "subseq s (eligible budget vs)" "total s \<le> budget" "int (length s) \<le> n" for s
  proof -
    from s(1) have "set s \<subseteq> set (eligible budget vs)" by (auto simp: subseq_conv_nths dest: in_set_nthsD)
    then have "\<forall>c \<in> set s. 0 \<le> snd c" using eligible_size by blast
    from total_nonneg [OF this] s(2,3) True show ?thesis by (cases s) auto
  qed
  with True show ?thesis by (simp add: select_budgeted_sample_def total_def)
next
  case False
  let ?cs = "eligible budget vs"
  obtain greedy full where g: "greedy_loop (nat n) budget ?cs [] 0 = (greedy, full)"
    by (cases "greedy_loop (nat n) budget ?cs [] 0")
  from greedy_sound [OF g] False have gs: "subseq greedy ?cs" "total greedy \<le> budget" "length greedy \<le> nat n"
    "full \<longrightarrow> length greedy = nat n"
    by (auto simp: total_def)
  have pos: "\<forall>c \<in> set ?cs. 0 \<le> snd c" using eligible_size by blast
  define heap where "heap = fst (heap_loop (nat n) budget (entries ?cs) ([], 0))"
  note h = heap_result [OF pos, of "nat n" budget, folded heap_def]
  define r where "r = (if full \<or> length heap \<le> length greedy then greedy else map (\<lambda>i. ?cs ! i) (sort (map snd heap)))"
  have "select_budgeted_sample vs (PInt n) (PInt budget) = Inr r"
    using False g by (cases full) (simp_all add: select_budgeted_sample_def Let_def r_def heap_def)
  moreover have sub: "subseq r ?cs" using gs(1) h(1) False by (simp add: r_def)
  moreover have "distinct (map fst r)"
    using subseq_map [OF sub, of fst] eligible_distinct by (auto simp: subseq_conv_nths intro: distinct_nthsI)
  moreover have "total r \<le> budget" using gs(2) h(3) False by (simp add: r_def)
  moreover have "length r \<le> nat n" using gs(3) h(2) False by (simp add: r_def)
  moreover have "length s \<le> length r" if "subseq s ?cs" "total s \<le> budget" "int (length s) \<le> n" for s
  proof -
    have "length s \<le> nat n" using that(3) by simp
    with h(4) [OF _ _ that(1,2)] False gs(4) show ?thesis by (auto simp: r_def)
  qed
  ultimately show ?thesis using False by auto
qed

definition demo_files :: "pyval list" where
  "demo_files = [PList [PStr ''a'', PInt 60], PList [PStr ''b'', PInt 30], PList [PStr ''c'', PInt 40], PNone]"

theorem sample_is_feasible_and_maximal_witness:
  "\<exists>r. select_budgeted_sample demo_files (PInt 3) (PInt 70) = Inr r \<and> length [(''b'', 30 :: int), (''c'', 40)] \<le> length r"
proof -
  have e: "eligible 70 demo_files = [(''a'', 60), (''b'', 30), (''c'', 40)]"
    by (simp add: demo_files_def candidate_of_def)
  have "subseq [(''b'', 30 :: int), (''c'', 40)] (eligible 70 demo_files)" by (simp add: e)
  with sample_is_feasible_and_maximal [of demo_files 3 70] show ?thesis
    by (elim exE) (auto simp: total_def)
qed

end
