(* ===== verification/Security_Paths.thy ===== *)
theory Security_Paths
  imports Py_Value
begin

text \<open>
  \<open>app/security.py\<close>: the canonical form of remote paths, the list of hidden remotes, the CSRF check
  and the containment check for local paths. Resolving a local path goes through the file system
  (symbolic links, home directory), so \<open>resolve\<close> is a parameter: the parts of the resolved path, or
  \<open>None\<close> where \<open>pathlib\<close> raises.
\<close>

subsection \<open>Splitting\<close>

text \<open>\<open>s.split(c)\<close>, and \<open>s.split(c, 1)\<close> where \<open>c\<close> occurs.\<close>

fun split_char :: "char \<Rightarrow> string \<Rightarrow> string list" where
  "split_char c [] = [[]]"
| "split_char c (x # xs) =
     (if x = c then [] # split_char c xs
      else (case split_char c xs of [] \<Rightarrow> [[x]] | w # ws \<Rightarrow> (x # w) # ws))"

definition before_char :: "char \<Rightarrow> string \<Rightarrow> string" where
  "before_char c s = takeWhile (\<lambda>x. x \<noteq> c) s"

definition after_char :: "char \<Rightarrow> string \<Rightarrow> string" where
  "after_char c s = drop 1 (dropWhile (\<lambda>x. x \<noteq> c) s)"

abbreviation slash :: char where "slash \<equiv> CHR ''/''"
abbreviation colon :: char where "colon \<equiv> CHR '':''"

subsection \<open>Remote paths\<close>

text \<open>\<open>posixpath.normpath\<close> of a path with one leading slash: the stack of components.\<close>

fun norm_comps :: "string list \<Rightarrow> string list \<Rightarrow> string list" where
  "norm_comps acc [] = acc"
| "norm_comps acc (c # cs) =
     (if c = [] \<or> c = ''.'' then norm_comps acc cs
      else if c = ''..'' then norm_comps (butlast acc) cs
      else norm_comps (acc @ [c]) cs)"

definition slash_join :: "string list \<Rightarrow> string" where
  "slash_join cs = concat (map (\<lambda>c. slash # c) cs)"

definition normpath_rooted :: "string \<Rightarrow> string" where
  "normpath_rooted stripped =
     (let cs = norm_comps [] (split_char slash (slash # stripped))
      in if cs = [] then [slash] else slash_join cs)"

definition normalize_remote_path :: "string \<Rightarrow> string" where
  "normalize_remote_path path =
     (if colon \<notin> set path then rstrip_char slash path
      else (let remote = before_char colon path;
                stripped = rstrip_char slash (lstrip_char slash (after_char colon path))
            in if stripped = [] then remote @ [colon]
               else (let cleaned = normpath_rooted stripped
                     in if cleaned = [slash] then remote @ [colon] else remote @ [colon] @ cleaned)))"

definition default_hidden_remote_paths :: "string list" where
  "default_hidden_remote_paths = [''pcloud:/Crypto Folder'']"

definition hidden_values :: "pyval \<Rightarrow> pyval list" where
  "hidden_values v =
     (case v of PStr s \<Rightarrow> [PStr s] | PList xs \<Rightarrow> xs | _ \<Rightarrow> map PStr default_hidden_remote_paths)"

definition normalize_hidden_remote_paths :: "pyval \<Rightarrow> string list" where
  "normalize_hidden_remote_paths v =
     map (\<lambda>i. py_casefold (normalize_remote_path (py_str i)))
       (filter (\<lambda>i. py_strip (py_str i) \<noteq> [] \<and> colon \<in> set (py_str i)) (hidden_values v))"

definition is_hidden_remote_path :: "string \<Rightarrow> string list \<Rightarrow> bool" where
  "is_hidden_remote_path path hidden \<longleftrightarrow>
     (let n = py_casefold (normalize_remote_path path)
      in list_ex (\<lambda>b. n = b \<or> py_startswith n (rstrip_char slash b @ [slash])) hidden)"

subsection \<open>Cookies, CSRF and local paths\<close>

definition cookie_secure_for_request :: "bool \<Rightarrow> pyval \<Rightarrow> bool" where
  "cookie_secure_for_request request_https configured =
     (let mode = py_lower (py_strip (py_str configured)) in
      if configured = PNone \<or> mode = ''auto'' then request_https
      else mode \<notin> {''false'', ''0'', ''no'', ''off'', ''nein''})"

definition upper_char :: "char \<Rightarrow> char" where
  "upper_char c = (if 97 \<le> code_of c \<and> code_of c \<le> 122 then char_of (code_of c - 32) else c)"

definition csrf_accepts :: "string \<Rightarrow> string option \<Rightarrow> string option \<Rightarrow> bool" where
  "csrf_accepts http_method cookie header \<longleftrightarrow>
     map upper_char http_method \<in> {''GET'', ''HEAD'', ''OPTIONS''} \<or>
     (case (cookie, header) of (Some c, Some h) \<Rightarrow> c \<noteq> [] \<and> h \<noteq> [] \<and> c = h | _ \<Rightarrow> False)"

definition is_relative_to :: "(string \<Rightarrow> string list option) \<Rightarrow> string \<Rightarrow> string \<Rightarrow> bool" where
  "is_relative_to resolve path base \<longleftrightarrow>
     (case (resolve path, resolve base) of
        (Some p, Some r) \<Rightarrow> take (length r) p = r | _ \<Rightarrow> False)"

definition ensure_within :: "(string \<Rightarrow> string list option) \<Rightarrow> string \<Rightarrow> string list \<Rightarrow> string list option" where
  "ensure_within resolve path roots =
     (case resolve path of
        None \<Rightarrow> None
      | Some p \<Rightarrow> if list_ex (\<lambda>base. is_relative_to resolve path base) roots then Some p else None)"

subsection \<open>Lemmas\<close>

lemma norm_comps_append: "norm_comps acc (xs @ ys) = norm_comps (norm_comps acc xs) ys"
  by (induction acc xs rule: norm_comps.induct) simp_all

definition plain :: "string \<Rightarrow> bool" where
  "plain c \<longleftrightarrow> c \<noteq> [] \<and> c \<noteq> ''.'' \<and> c \<noteq> ''..''"

lemma norm_comps_plain: "\<forall>c \<in> set cs. plain c \<Longrightarrow> norm_comps acc cs = acc @ cs"
  by (induction cs arbitrary: acc) (simp_all add: plain_def)

lemma plain_norm_comps: "list_all plain acc \<Longrightarrow> list_all plain (norm_comps acc cs)"
proof (induction acc cs rule: norm_comps.induct)
  case (1 acc)
  then show ?case by simp
next
  case (2 acc c cs)
  consider "c = [] \<or> c = ''.''" | "c = ''..''" | "plain c" by (auto simp: plain_def)
  then show ?case
  proof cases
    case 1
    with 2 show ?thesis by simp
  next
    case c: 2
    have "list_all plain (butlast acc)" using 2(4) by (auto simp: list_all_iff dest: in_set_butlastD)
    with c 2(2) show ?thesis by simp
  next
    case 3
    then have "c \<noteq> []" "c \<noteq> ''.''" "c \<noteq> ''..''" by (simp_all add: plain_def)
    with 2(3,4) 3 show ?thesis by simp
  qed
qed

lemma norm_comps_subset: "set (norm_comps acc cs) \<subseteq> set acc \<union> set cs"
proof (induction acc cs rule: norm_comps.induct)
  case (2 acc c cs)
  then show ?case using in_set_butlastD [of _ acc] by (simp split: if_splits) blast
qed simp

lemma split_char_pieces: "w \<in> set (split_char c s) \<Longrightarrow> c \<notin> set w"
  by (induction c s arbitrary: w rule: split_char.induct) (auto split: if_splits list.splits)

lemma split_char_nonempty [simp]: "split_char c s \<noteq> []"
  by (induction c s rule: split_char.induct) (auto split: list.splits)

lemma split_char_word: "c \<notin> set w \<Longrightarrow> split_char c w = [w]"
  by (induction w) auto

lemma split_char_append: "c \<notin> set w \<Longrightarrow> split_char c (w @ c # s) = w # split_char c s"
  by (induction w) auto

lemma split_slash_join:
  "\<forall>w \<in> set cs. slash \<notin> set w \<Longrightarrow> split_char slash (slash_join cs) = [] # cs"
proof (induction cs)
  case Nil
  then show ?case by (simp add: slash_join_def)
next
  case (Cons c cs)
  have "split_char slash (c @ slash_join cs) = c # cs"
  proof (cases cs)
    case Nil
    with Cons.prems show ?thesis by (simp add: slash_join_def split_char_word)
  next
    case (Cons d ds)
    let ?rest = "d @ slash_join ds"
    have j: "slash_join cs = slash # ?rest" by (simp add: Cons slash_join_def)
    have "split_char slash (slash # ?rest) = [] # cs" using Cons.IH Cons.prems j by simp
    then have "split_char slash ?rest = cs" by simp
    then show ?thesis using Cons.prems by (simp add: j split_char_append)
  qed
  then show ?case by (simp add: slash_join_def)
qed

lemma dropWhile_head: "s \<noteq> [] \<Longrightarrow> hd s \<noteq> c \<Longrightarrow> dropWhile (\<lambda>x. x = c) s = s"
  by (cases s) auto

lemma strip_slashes_join:
  assumes "cs \<noteq> []" and "\<forall>c \<in> set cs. c \<noteq> [] \<and> slash \<notin> set c"
  shows "rstrip_char slash (lstrip_char slash (slash_join cs)) = tl (slash_join cs)"
    and "slash_join cs = slash # tl (slash_join cs)" and "tl (slash_join cs) \<noteq> []"
proof -
  obtain c ds where cs: "cs = c # ds" using assms(1) by (cases cs) auto
  have c: "c \<noteq> []" "slash \<notin> set c" using assms(2) cs by auto
  obtain w where w: "last cs = w" "w \<noteq> []" "slash \<notin> set w" using assms by (meson last_in_set)
  have "slash_join cs = concat (map (\<lambda>c. slash # c) (butlast cs)) @ slash # w"
  proof -
    have "slash_join cs = slash_join (butlast cs @ [w])" using append_butlast_last_id [OF assms(1)] w(1) by simp
    then show ?thesis by (simp add: slash_join_def)
  qed
  then have "last (slash_join cs) = last w" using w(2) by simp
  then have last: "last (slash_join cs) \<noteq> slash" using w(2,3) by (metis last_in_set)
  show j: "slash_join cs = slash # tl (slash_join cs)" by (simp add: cs slash_join_def)
  show ne: "tl (slash_join cs) \<noteq> []" using c by (simp add: cs slash_join_def)
  have hd: "hd (tl (slash_join cs)) \<noteq> slash" using c by (cases c) (auto simp: cs slash_join_def)
  have l: "lstrip_char slash (slash_join cs) = tl (slash_join cs)"
  proof -
    have "lstrip_char slash (slash_join cs) = lstrip_char slash (slash # tl (slash_join cs))" using j by simp
    also have "\<dots> = tl (slash_join cs)" using dropWhile_head [OF ne hd] by (simp add: lstrip_char_def)
    finally show ?thesis .
  qed
  have "last (tl (slash_join cs)) \<noteq> slash" using last j ne by (metis last_ConsR)
  then have "rstrip_char slash (tl (slash_join cs)) = tl (slash_join cs)"
    using ne dropWhile_head [of "rev (tl (slash_join cs))" slash] by (simp add: rstrip_char_def hd_rev)
  with l show "rstrip_char slash (lstrip_char slash (slash_join cs)) = tl (slash_join cs)" by simp
qed

definition remote_comps :: "string \<Rightarrow> string list" where
  "remote_comps rest = norm_comps [] (split_char slash (slash # rstrip_char slash (lstrip_char slash rest)))"

lemma remote_comps_plain: "\<forall>c \<in> set (remote_comps rest). plain c \<and> slash \<notin> set c"
proof
  fix c assume c: "c \<in> set (remote_comps rest)"
  have "c \<in> set (split_char slash (slash # rstrip_char slash (lstrip_char slash rest)))"
    using c norm_comps_subset [of "[]"] by (auto simp: remote_comps_def)
  from split_char_pieces [OF this] c plain_norm_comps [of "[]"] show "plain c \<and> slash \<notin> set c"
    by (auto simp: remote_comps_def list_all_iff)
qed

lemma slash_join_not_root: "\<forall>c \<in> set cs. plain c \<Longrightarrow> slash_join cs \<noteq> [slash]"
  by (cases cs) (auto simp: slash_join_def plain_def)

lemma before_after:
  assumes "colon \<notin> set remote"
  shows "before_char colon (remote @ colon # rest) = remote" "after_char colon (remote @ colon # rest) = rest"
  using assms by (simp_all add: before_char_def after_char_def takeWhile_append dropWhile_append)

lemma normalize_form:
  assumes "colon \<notin> set remote"
  shows "normalize_remote_path (remote @ colon # rest) = remote @ colon # slash_join (remote_comps rest)"
proof -
  let ?st = "rstrip_char slash (lstrip_char slash rest)"
  have none: "?st = [] \<Longrightarrow> remote_comps rest = []" by (simp add: remote_comps_def)
  have ne: "remote_comps rest \<noteq> [] \<Longrightarrow> slash_join (remote_comps rest) \<noteq> [slash]"
    using slash_join_not_root remote_comps_plain by blast
  have "normalize_remote_path (remote @ colon # rest) =
      (if ?st = [] then remote @ [colon]
       else let cleaned = normpath_rooted ?st in if cleaned = [slash] then remote @ [colon] else remote @ [colon] @ cleaned)"
    using before_after [OF assms, of rest] by (simp add: normalize_remote_path_def Let_def)
  also have "\<dots> = remote @ colon # slash_join (remote_comps rest)"
    using none ne by (cases "remote_comps rest = []")
      (auto simp: normpath_rooted_def Let_def remote_comps_def [symmetric] slash_join_def simp del: split_char.simps)
  finally show ?thesis .
qed

lemma remote_comps_join:
  assumes "\<forall>c \<in> set cs. plain c \<and> slash \<notin> set c"
  shows "remote_comps (slash_join cs) = cs"
proof (cases "cs = []")
  case True
  then show ?thesis by (simp add: remote_comps_def slash_join_def rstrip_char_def lstrip_char_def)
next
  case False
  have ok: "\<forall>c \<in> set cs. c \<noteq> [] \<and> slash \<notin> set c" using assms by (auto simp: plain_def)
  note st = strip_slashes_join [OF False ok]
  have "slash # rstrip_char slash (lstrip_char slash (slash_join cs)) = slash_join cs"
    using st(1,2) by simp
  then have "remote_comps (slash_join cs) = norm_comps [] ([] # cs)"
    unfolding remote_comps_def using split_slash_join assms by metis
  then show ?thesis using norm_comps_plain [of cs "[]"] assms by simp
qed

text \<open>Remote paths have one spelling. The canonical form of \<open>remote:rest\<close> keeps the remote and
  has no empty, \<open>.\<close> or \<open>..\<close> component, so no detour leads past a hidden path; normalizing it again
  changes nothing.\<close>

theorem remote_path_is_canonical:
  assumes "colon \<notin> set remote"
  shows "normalize_remote_path (normalize_remote_path (remote @ colon # rest)) =
      normalize_remote_path (remote @ colon # rest) \<and>
    (\<exists>cs. normalize_remote_path (remote @ colon # rest) = remote @ colon # slash_join cs \<and>
       list_all (\<lambda>c. c \<noteq> [] \<and> c \<noteq> ''.'' \<and> c \<noteq> ''..'' \<and> slash \<notin> set c) cs)"
proof -
  note n = normalize_form [OF assms]
  have "normalize_remote_path (normalize_remote_path (remote @ colon # rest)) =
      normalize_remote_path (remote @ colon # rest)"
    unfolding n remote_comps_join [OF remote_comps_plain] by simp
  moreover have "list_all (\<lambda>c. c \<noteq> [] \<and> c \<noteq> ''.'' \<and> c \<noteq> ''..'' \<and> slash \<notin> set c) (remote_comps rest)"
    using remote_comps_plain by (auto simp: list_all_iff plain_def)
  ultimately show ?thesis using n by blast
qed

theorem remote_path_is_canonical_witness:
  "normalize_remote_path ''pcloud:/a/../Crypto Folder//x/'' = ''pcloud:/Crypto Folder/x'' \<and>
   normalize_remote_path (normalize_remote_path ''pcloud:/a/../Crypto Folder//x/'') =
     normalize_remote_path ''pcloud:/a/../Crypto Folder//x/''"
proof
  show "normalize_remote_path ''pcloud:/a/../Crypto Folder//x/'' = ''pcloud:/Crypto Folder/x''" by code_simp
  show "normalize_remote_path (normalize_remote_path ''pcloud:/a/../Crypto Folder//x/'') =
     normalize_remote_path ''pcloud:/a/../Crypto Folder//x/''"
    using remote_path_is_canonical [of "''pcloud''" "''/a/../Crypto Folder//x/''"] by simp
qed

end
