(* ===== verification/Rclone_Args.thy ===== *)
theory Rclone_Args
  imports Security_Paths "HOL-Library.Sublist"
begin

text \<open>
  \<open>app/rclone_args.py\<close>: which extra arguments for rclone are accepted. The tokenizer is the POSIX mode
  of \<open>shlex.split\<close>; text is ASCII.
\<close>

definition max_args :: nat where "max_args = 256"
definition max_arg_length :: nat where "max_arg_length = 4096"

subsection \<open>\<open>shlex.split\<close>\<close>

datatype lex_state = Between | InWord | InQuote char | Escaped lex_state

definition lex_space :: "char \<Rightarrow> bool" where
  "lex_space c \<longleftrightarrow> code_of c \<in> {32, 9, 13, 10}"

definition is_quote :: "char \<Rightarrow> bool" where
  "is_quote c \<longleftrightarrow> code_of c = 39 \<or> code_of c = 34"

definition is_backslash :: "char \<Rightarrow> bool" where
  "is_backslash c \<longleftrightarrow> code_of c = 92"

text \<open>One character: the next state, the token so far, and the finished tokens. A token exists once a
  state other than \<open>Between\<close> was entered, so an empty quoted word is a token.\<close>

fun lex_char :: "char \<Rightarrow> lex_state \<Rightarrow> string \<Rightarrow> lex_state \<times> string \<times> string list" where
  "lex_char c Between w =
     (if lex_space c then (Between, [], [])
      else if is_backslash c then (Escaped InWord, [], [])
      else if is_quote c then (InQuote c, [], [])
      else (InWord, [c], []))"
| "lex_char c InWord w =
     (if lex_space c then (Between, [], [w])
      else if is_quote c then (InQuote c, w, [])
      else if is_backslash c then (Escaped InWord, w, [])
      else (InWord, w @ [c], []))"
| "lex_char c (InQuote q) w =
     (if c = q then (InWord, w, [])
      else if is_backslash c \<and> code_of q = 34 then (Escaped (InQuote q), w, [])
      else (InQuote q, w @ [c], []))"
| "lex_char c (Escaped (InQuote q)) w =
     (InQuote q, (if is_backslash c \<or> c = q then w @ [c] else w @ [char_of (92 :: nat), c]), [])"
| "lex_char c (Escaped st) w = (InWord, w @ [c], [])"

fun lex :: "string \<Rightarrow> lex_state \<Rightarrow> string \<Rightarrow> string list result" where
  "lex [] Between w = Inr []"
| "lex [] InWord w = Inr [w]"
| "lex [] (InQuote q) w = Inl (ValueError ''No closing quotation'')"
| "lex [] (Escaped st) w = Inl (ValueError ''No escaped character'')"
| "lex (c # s) st w =
     (case lex_char c st w of (st1, w1, out) \<Rightarrow>
        (case lex s st1 w1 of Inl e \<Rightarrow> Inl e | Inr ts \<Rightarrow> Inr (out @ ts)))"

definition shlex_split :: "string \<Rightarrow> string list result" where
  "shlex_split s = lex s Between []"

subsection \<open>Tokens\<close>

definition bad_token :: "string \<Rightarrow> bool" where
  "bad_token t \<longleftrightarrow> t = [] \<or> max_arg_length < length t \<or> list_ex (\<lambda>c. code_of c \<in> {0, 13, 10}) t"

definition flag_name :: "string \<Rightarrow> string" where
  "flag_name t = before_char (CHR ''='') t"

text \<open>\<open>str(item)\<close> is only taken of strings; anything else is refused.\<close>

fun parse_items :: "pyval list \<Rightarrow> string list result" where
  "parse_items [] = Inr []"
| "parse_items (v # vs) =
     (case v of
        PStr s \<Rightarrow> (case shlex_split s of
            Inl _ \<Rightarrow> Inl (ValueError ''rclone_args'')
          | Inr ts \<Rightarrow> (case parse_items vs of Inl e \<Rightarrow> Inl e | Inr us \<Rightarrow> Inr (ts @ us)))
      | _ \<Rightarrow> Inl (ValueError ''rclone_args''))"

definition parse_rclone_args :: "pyval \<Rightarrow> string list result" where
  "parse_rclone_args v =
     (if \<not> truthy v then Inr []
      else bind_result (parse_items (case v of PList xs \<Rightarrow> xs | _ \<Rightarrow> [v])) (\<lambda>out.
        if max_args < length out then Inl (ValueError ''Zu viele rclone-Argumente'')
        else if list_ex bad_token out then Inl (ValueError ''rclone-Argument'')
        else Inr out))"

definition value_flags :: "string list" where
  "value_flags = [''--include'', ''--include-from'', ''--exclude'', ''--exclude-from'', ''--filter'',
     ''--filter-from'', ''--filters-file'', ''--files-from'', ''--files-from-raw'', ''--files-from0'']"

text \<open>The regular expression \<open>^-[A-Za-z]*f\<close>.\<close>

definition short_cluster_f :: "string \<Rightarrow> bool" where
  "short_cluster_f t \<longleftrightarrow>
     (case t of [] \<Rightarrow> False
      | c # s \<Rightarrow> c = CHR ''-'' \<and> CHR ''f'' \<in> set (takeWhile is_alpha s))"

definition alias_error :: pyerr where
  "alias_error = UnsafeRcloneArgument ''Kombinierte kurze Filter-Flags''"

fun normalize_filter_aliases :: "string list \<Rightarrow> string list result" where
  "normalize_filter_aliases [] = Inr []"
| "normalize_filter_aliases (t # ts) =
     (if t \<in> set value_flags \<or> t = ''-f'' then
        (let flag = (if t = ''-f'' then ''--filter'' else t) in
         case ts of
           [] \<Rightarrow> Inr [flag]
         | v # us \<Rightarrow> (case normalize_filter_aliases us of Inl e \<Rightarrow> Inl e | Inr out \<Rightarrow> Inr (flag # v # out)))
      else if py_startswith t ''-f='' then
        (case normalize_filter_aliases ts of Inl e \<Rightarrow> Inl e | Inr out \<Rightarrow> Inr ((''--filter='' @ drop 3 t) # out))
      else if py_startswith t ''-f'' then
        (case normalize_filter_aliases ts of Inl e \<Rightarrow> Inl e | Inr out \<Rightarrow> Inr ((''--filter='' @ drop 2 t) # out))
      else if short_cluster_f t \<and> \<not> py_startswith t ''--'' then Inl alias_error
      else (case normalize_filter_aliases ts of Inl e \<Rightarrow> Inl e | Inr out \<Rightarrow> Inr (t # out)))"

subsection \<open>Blocked flags\<close>

definition execution_flags :: "string list" where
  "execution_flags = [''--metadata-mapper'']"

definition exact_blocked :: "string list" where
  "exact_blocked = [''--'', ''--config'', ''--cache-dir'', ''--workdir'', ''--temp-dir'', ''--log-file'', ''--syslog'',
     ''--log-systemd'', ''--password-command'', ''--ask-password'', ''--dry-run'', ''-n'', ''--interactive'', ''-i'',
     ''--filter'', ''--resync'', ''--resync-mode'', ''--backup-dir'', ''--backup-dir1'', ''--backup-dir2'',
     ''--filter-from'', ''--filters-file'', ''--include-from'', ''--exclude-from'', ''--files-from'',
     ''--files-from-raw'', ''--max-delete'', ''--max-delete-size'', ''--delete-excluded'', ''--ignore-errors'',
     ''--copy-dest'', ''--compare-dest'', ''--sftp-ssh'', ''--sftp-key-file'', ''--sftp-known-hosts-file'']"

definition blocked_prefixes :: "string list" where
  "blocked_prefixes = [''--rc'', ''--dump'', ''--config='', ''--cache-dir='', ''--workdir='', ''--temp-dir='',
     ''--log-file='', ''--syslog='', ''--password-command='', ''--backup-dir='', ''--backup-dir1='',
     ''--backup-dir2='', ''--filter-from='', ''--filters-file='', ''--include-from='', ''--exclude-from='',
     ''--files-from='', ''--files-from-raw='', ''--max-delete='', ''--max-delete-size='', ''--copy-dest='',
     ''--compare-dest='', ''--sftp-ssh='', ''--sftp-key-file='', ''--sftp-known-hosts-file='']"

definition blocked_short :: "char list" where
  "blocked_short = [CHR ''n'', CHR ''i'']"

definition short_cluster :: "string \<Rightarrow> bool" where
  "short_cluster flag \<longleftrightarrow>
     py_startswith flag ''-'' \<and> \<not> py_startswith flag ''--'' \<and>
     2 \<le> length (tl flag) \<and> length (tl flag) \<le> 4 \<and> list_all is_alpha (tl flag) \<and>
     list_ex (\<lambda>c. c \<in> set blocked_short) (tl flag)"

definition is_blocked :: "string \<Rightarrow> bool" where
  "is_blocked t \<longleftrightarrow>
     (let flag = py_lower (flag_name t) in
      flag \<in> set exact_blocked \<or> short_cluster flag \<or> list_ex (py_startswith (py_lower t)) blocked_prefixes)"

definition dedup :: "'a list \<Rightarrow> 'a list" where
  "dedup xs = rev (remdups (rev xs))"

definition blocked_arguments :: "string list \<Rightarrow> string list" where
  "blocked_arguments args = dedup (filter is_blocked args)"

definition secret_words :: "string list" where
  "secret_words = [''password'', ''passwd'', ''pass'', ''secret'', ''token'', ''credential'', ''access-key'',
     ''private-key'', ''customer-key'', ''encryption-key'', ''sas-url'', ''header'', ''key'']"

definition flag_char :: "char \<Rightarrow> bool" where
  "flag_char c \<longleftrightarrow> is_alpha c \<or> is_digit c \<or> c = CHR ''-''"

text \<open>Full match of the sensitive flag pattern: one or two dashes, then a letter or digit, then letters,
  digits and dashes, with one of the words inside, in any case.\<close>

definition sensitive_body :: "string \<Rightarrow> bool" where
  "sensitive_body b \<longleftrightarrow>
     b \<noteq> [] \<and> hd b \<noteq> CHR ''-'' \<and> list_all flag_char b \<and> list_ex (\<lambda>w. sublist w (py_lower b)) secret_words"

definition sensitive_flag :: "string \<Rightarrow> bool" where
  "sensitive_flag t \<longleftrightarrow>
     (py_startswith t ''-'' \<and> sensitive_body (drop 1 t)) \<or> (py_startswith t ''--'' \<and> sensitive_body (drop 2 t))"

subsection \<open>Validation\<close>

definition validate_parsed_rclone_args :: "string list \<Rightarrow> bool \<Rightarrow> string list result" where
  "validate_parsed_rclone_args args allow_unsafe =
     (if max_args < length args then Inl (ValueError ''Zu viele rclone-Argumente'')
      else bind_result (normalize_filter_aliases args) (\<lambda>normalized.
        if list_ex bad_token normalized then Inl (ValueError ''rclone-Argument'')
        else if list_ex (\<lambda>t. py_lower (flag_name t) \<in> set execution_flags) normalized
          then Inl (UnsafeRcloneArgument ''externe Programme'')
        else if list_ex (\<lambda>t. sensitive_flag (flag_name t)) normalized
          then Inl (UnsafeRcloneArgument ''Zugangsdaten-Flags'')
        else if blocked_arguments normalized \<noteq> [] \<and> \<not> allow_unsafe
          then Inl (UnsafeRcloneArgument ''rclone-Flags'')
        else Inr normalized))"

definition validate_rclone_args :: "pyval \<Rightarrow> bool \<Rightarrow> string list result" where
  "validate_rclone_args v allow_unsafe =
     bind_result (parse_rclone_args v) (\<lambda>args. validate_parsed_rclone_args args allow_unsafe)"

subsection \<open>The alias rewriting\<close>

lemma filter_alias_shape:
  "\<not> py_startswith (''--filter='' @ r) ''-f''" "\<not> py_startswith (''--filter='' @ r) ''-f=''"
  "\<not> short_cluster_f (''--filter='' @ r)" "''--filter='' @ r \<notin> set value_flags" "''--filter='' @ r \<noteq> ''-f''"
  by (simp_all add: py_startswith_def short_cluster_f_def is_alpha_def code_of_def value_flags_def)

lemma filter_alias_flag: "''--filter'' \<in> set value_flags"
  by (simp add: value_flags_def)

lemma filter_alias_blocked: "is_blocked ''--filter''" "is_blocked (''--filter='' @ r)"
proof -
  show "is_blocked ''--filter''" by code_simp
  have "py_lower (flag_name (''--filter='' @ r)) = ''--filter''"
    by (simp add: flag_name_def) code_simp
  then show "is_blocked (''--filter='' @ r)" by (simp add: is_blocked_def exact_blocked_def)
qed

lemma normalize_length: "normalize_filter_aliases ts = Inr out \<Longrightarrow> length out = length ts"
  by (induction ts arbitrary: out rule: normalize_filter_aliases.induct)
     (auto split: if_splits sum.splits list.splits simp: Let_def)

lemma normalize_idempotent:
  "normalize_filter_aliases ts = Inr out \<Longrightarrow> normalize_filter_aliases out = Inr out"
  by (induction ts arbitrary: out rule: normalize_filter_aliases.induct)
     (auto split: if_splits sum.splits list.splits simp: Let_def filter_alias_shape filter_alias_flag
       simp del: append_Cons)

text \<open>No flag position is left with a spelling of \<open>-f\<close>; the value of a flag may be any text.\<close>

fun no_filter_alias :: "string list \<Rightarrow> bool" where
  "no_filter_alias [] = True"
| "no_filter_alias (t # ts) =
     (if t \<in> set value_flags then (case ts of [] \<Rightarrow> True | v # us \<Rightarrow> no_filter_alias us)
      else \<not> py_startswith t ''-f'' \<and> \<not> short_cluster_f t \<and> no_filter_alias ts)"

lemma long_flag_is_no_cluster: "py_startswith t ''--'' \<Longrightarrow> \<not> short_cluster_f t"
  by (auto simp: py_startswith_iff short_cluster_f_def is_alpha_def code_of_def)

lemma normalize_no_alias: "normalize_filter_aliases ts = Inr out \<Longrightarrow> no_filter_alias out"
  by (induction ts arbitrary: out rule: normalize_filter_aliases.induct)
     (auto split: if_splits sum.splits list.splits dest: long_flag_is_no_cluster
       simp: Let_def filter_alias_shape filter_alias_flag simp del: append_Cons)

text \<open>An alias is only ever rewritten to a flag that the default mode refuses.\<close>

lemma normalize_unblocked_is_identity:
  "normalize_filter_aliases ts = Inr out \<Longrightarrow> list_all (\<lambda>t. \<not> is_blocked t) out \<Longrightarrow> out = ts"
  by (induction ts arbitrary: out rule: normalize_filter_aliases.induct)
     (auto split: if_splits sum.splits list.splits simp: Let_def filter_alias_blocked [simplified])

subsection \<open>What validation lets through\<close>

definition never_allowed :: "string \<Rightarrow> bool" where
  "never_allowed t \<longleftrightarrow> bad_token t \<or> py_lower (flag_name t) \<in> set execution_flags \<or> sensitive_flag (flag_name t)"

lemma dedup_empty_iff: "dedup xs = [] \<longleftrightarrow> xs = []"
  by (simp add: dedup_def)

lemma blocked_arguments_empty: "blocked_arguments args = [] \<longleftrightarrow> list_all (\<lambda>t. \<not> is_blocked t) args"
  by (simp add: blocked_arguments_def dedup_empty_iff filter_empty_conv list_all_iff)

lemma validate_accepts_iff:
  "validate_parsed_rclone_args args u = Inr out \<longleftrightarrow>
     length args \<le> max_args \<and> normalize_filter_aliases args = Inr out \<and>
     list_all (\<lambda>t. \<not> never_allowed t) out \<and> (u \<or> list_all (\<lambda>t. \<not> is_blocked t) out)"
proof (cases "max_args < length args")
  case True
  then show ?thesis by (simp add: validate_parsed_rclone_args_def)
next
  case False
  show ?thesis
  proof (cases "normalize_filter_aliases args")
    case (Inl e)
    then show ?thesis using False by (simp add: validate_parsed_rclone_args_def)
  next
    case (Inr n)
    have split: "list_all (\<lambda>t. \<not> never_allowed t) n \<longleftrightarrow> \<not> list_ex bad_token n \<and>
        \<not> list_ex (\<lambda>t. py_lower (flag_name t) \<in> set execution_flags) n \<and>
        \<not> list_ex (\<lambda>t. sensitive_flag (flag_name t)) n"
      unfolding never_allowed_def list_all_iff list_ex_iff by blast
    show ?thesis
      unfolding validate_parsed_rclone_args_def Inr bind_result.simps if_not_P [OF False] blocked_arguments_empty
      using False split by (simp only: not_less sum.inject split: if_splits) blast
  qed
qed

lemma parse_rclone_args_bounded:
  "parse_rclone_args v = Inr out \<Longrightarrow> length out \<le> max_args \<and> list_all (\<lambda>t. \<not> bad_token t) out"
  by (auto simp: parse_rclone_args_def list_all_iff list_ex_iff split: if_splits sum.splits)

subsection \<open>The protected flags, by what they do\<close>

text \<open>The options the program keeps for itself: where rclone reads its configuration and keeps its files,
  where it logs, how it asks for passwords, whether it really runs, what is filtered, what a run may
  delete, and which other directories and keys it uses.\<close>

definition protected_options :: "string list" where
  "protected_options =
     [''--config'', ''--cache-dir'', ''--workdir'', ''--temp-dir'', ''--log-file'', ''--syslog'', ''--log-systemd''] @
     [''--password-command'', ''--ask-password'', ''--metadata-mapper'', ''--dry-run'', ''--interactive'', ''--''] @
     [''--resync'', ''--resync-mode'', ''--filter'', ''--filter-from'', ''--filters-file'', ''--include-from'',
      ''--exclude-from'', ''--files-from'', ''--files-from-raw''] @
     [''--max-delete'', ''--max-delete-size'', ''--delete-excluded'', ''--ignore-errors'', ''--backup-dir'',
      ''--backup-dir1'', ''--backup-dir2'', ''--copy-dest'', ''--compare-dest''] @
     [''--sftp-ssh'', ''--sftp-key-file'', ''--sftp-known-hosts-file'']"

text \<open>A token gives a long option when it is the option or the option, an equals sign and a value, in any
  case; it gives a short option when it is a dash and at most four letters, with or without a value after
  an equals sign, and the letter is among them, in any case.\<close>

definition gives_long :: "string \<Rightarrow> string \<Rightarrow> bool" where
  "gives_long f t \<longleftrightarrow> py_lower t = f \<or> py_startswith (py_lower t) (f @ ''='')"

definition short_letters :: "string \<Rightarrow> string" where
  "short_letters t = takeWhile (\<lambda>c. c \<noteq> CHR ''='') (tl t)"

definition gives_short :: "char \<Rightarrow> string \<Rightarrow> bool" where
  "gives_short c t \<longleftrightarrow> py_startswith t ''-'' \<and> list_all is_alpha (short_letters t) \<and>
     length (short_letters t) \<le> 4 \<and> c \<in> set (py_lower (short_letters t))"

lemma lower_char_equals [simp]: "lower_char c = CHR ''='' \<longleftrightarrow> c = CHR ''=''"
proof
  assume l: "lower_char c = CHR ''=''"
  show "c = CHR ''=''"
  proof (cases "65 \<le> code_of c \<and> code_of c \<le> 90")
    case True
    with l have "char_of (code_of c + 32) = CHR ''=''" by (simp add: lower_char_def)
    then have "code_of (char_of (code_of c + 32)) = code_of (CHR ''='')" by simp
    with True show ?thesis by (simp add: code_of_def)
  next
    case False
    then have "lower_char c = c" by (auto simp: lower_char_def)
    with l show ?thesis by simp
  qed
qed (simp add: lower_char_def code_of_def)

lemma lower_flag_name: "py_lower (flag_name t) = flag_name (py_lower t)"
  by (simp add: py_lower_def flag_name_def before_char_def takeWhile_map comp_def)

lemma gives_long_name: "CHR ''='' \<notin> set f \<Longrightarrow> gives_long f t \<Longrightarrow> py_lower (flag_name t) = f"
  unfolding lower_flag_name gives_long_def
  by (auto simp: flag_name_def before_char_def py_startswith_iff takeWhile_append takeWhile_eq_all_conv)

lemma protected_option_refused: "f \<in> set protected_options \<Longrightarrow> gives_long f t \<Longrightarrow> never_allowed t \<or> is_blocked t"
proof -
  assume f: "f \<in> set protected_options" and g: "gives_long f t"
  have "list_all (\<lambda>f. CHR ''='' \<notin> set f) protected_options" by code_simp
  with f have "CHR ''='' \<notin> set f" by (simp add: list_all_iff)
  from gives_long_name [OF this g] have n: "py_lower (flag_name t) = f" .
  have "list_all (\<lambda>f. f \<in> set execution_flags \<or> f \<in> set exact_blocked) protected_options" by code_simp
  with f n show ?thesis by (auto simp: list_all_iff never_allowed_def is_blocked_def Let_def)
qed

lemma lower_alpha: "is_alpha c \<Longrightarrow> is_alpha (lower_char c)"
  by (auto simp: is_alpha_def lower_char_def code_of_def)

lemma short_option_refused:
  assumes "gives_short c t" and "c = CHR ''n'' \<or> c = CHR ''i''"
  shows "is_blocked t"
proof -
  obtain s where t: "t = CHR ''-'' # s" using assms(1) by (auto simp: gives_short_def py_startswith_iff)
  define ls where "ls = py_lower (short_letters t)"
  have n: "py_lower (flag_name t) = CHR ''-'' # ls"
    by (simp add: ls_def t flag_name_def before_char_def short_letters_def py_lower_def lower_char_def code_of_def)
  have ls: "list_all is_alpha ls" "length ls \<le> 4" "c \<in> set ls"
    using assms(1) lower_alpha by (auto simp: gives_short_def ls_def py_lower_def list_all_iff)
  show ?thesis
  proof (cases "length ls = 1")
    case True
    with ls(3) have "ls = [c]" by (cases ls) auto
    with n assms(2) show ?thesis by (auto simp: is_blocked_def Let_def exact_blocked_def)
  next
    case False
    with ls(3) have "2 \<le> length ls" by (cases ls; cases "tl ls") auto
    moreover have "\<not> py_startswith (CHR ''-'' # ls) ''--''"
      using ls(1) by (auto simp: py_startswith_iff is_alpha_def code_of_def)
    ultimately have "short_cluster (CHR ''-'' # ls)"
      using ls assms(2) by (auto simp: short_cluster_def blocked_short_def list_ex_iff py_startswith_def)
    then show ?thesis by (simp add: is_blocked_def n)
  qed
qed

lemma remote_control_refused:
  assumes "py_startswith (py_lower t) ''--rc'' \<or> py_startswith (py_lower t) ''--dump''"
  shows "is_blocked t"
  using assms by (auto simp: is_blocked_def blocked_prefixes_def Let_def)

text \<open>C39: without expert mode, \<open>validate_rclone_args\<close> hands on exactly the tokens the value splits into,
  at most 256 of them, none empty, longer than 4096 characters or with a control character. Whatever its
  position and case, no token gives one of the protected long options, alone or with a value after an
  equals sign, none begins with \<open>--rc\<close> or \<open>--dump\<close>, none gives a flag whose name holds a
  word for a credential, and none gives \<open>-n\<close> or \<open>-i\<close>, alone or in a cluster of up to four letters.
  No flag position holds \<open>-f\<close>, glued to a value or in a cluster of any length.\<close>

theorem default_mode_refuses_protected_flags:
  assumes "validate_rclone_args v False = Inr out"
  shows "parse_rclone_args v = Inr out \<and> length out \<le> 256 \<and> no_filter_alias out \<and>
    list_all (\<lambda>t. t \<noteq> [] \<and> length t \<le> 4096 \<and> list_all (\<lambda>c. code_of c \<notin> {0, 13, 10}) t \<and>
      list_all (\<lambda>f. \<not> gives_long f t) protected_options \<and>
      \<not> py_startswith (py_lower t) ''--rc'' \<and> \<not> py_startswith (py_lower t) ''--dump'' \<and>
      \<not> sensitive_flag (flag_name t) \<and>
      \<not> gives_short (CHR ''n'') t \<and> \<not> gives_short (CHR ''i'') t) out"
proof -
  obtain args where args: "parse_rclone_args v = Inr args"
    and ok: "validate_parsed_rclone_args args False = Inr out"
    using assms by (auto simp: validate_rclone_args_def split: sum.splits)
  note acc = ok [unfolded validate_accepts_iff]
  have same: "out = args" using acc normalize_unblocked_is_identity by blast
  have fine: "\<not> never_allowed t" "\<not> is_blocked t" if "t \<in> set out" for t
    using acc that by (auto simp: list_all_iff)
  have "no_filter_alias out" using acc normalize_no_alias by blast
  moreover have "t \<noteq> [] \<and> length t \<le> 4096 \<and> list_all (\<lambda>c. code_of c \<notin> {0, 13, 10}) t \<and>
      list_all (\<lambda>f. \<not> gives_long f t) protected_options \<and>
      \<not> py_startswith (py_lower t) ''--rc'' \<and> \<not> py_startswith (py_lower t) ''--dump'' \<and>
      \<not> sensitive_flag (flag_name t) \<and> \<not> gives_short (CHR ''n'') t \<and> \<not> gives_short (CHR ''i'') t"
    if "t \<in> set out" for t
  proof -
    have "\<not> gives_long f t" if "f \<in> set protected_options" for f
      using fine [OF \<open>t \<in> set out\<close>] protected_option_refused [OF that] by blast
    with fine [OF that] short_option_refused [of _ t] remote_control_refused [of t] show ?thesis
      by (auto simp: never_allowed_def bad_token_def max_arg_length_def list_all_iff list_ex_iff)
  qed
  ultimately show ?thesis using args acc same by (simp add: list_all_iff max_args_def)
qed

theorem default_mode_refuses_protected_flags_witness:
  "parse_rclone_args (PStr (''--transfers 4 --bwlimit='' @ [CHR 0x27] @ ''10M'' @ [CHR 0x27])) = Inr [''--transfers'', ''4'', ''--bwlimit=10M'']"
proof -
  have "validate_rclone_args (PStr (''--transfers 4 --bwlimit='' @ [CHR 0x27] @ ''10M'' @ [CHR 0x27])) False
      = Inr [''--transfers'', ''4'', ''--bwlimit=10M'']" by code_simp
  from default_mode_refuses_protected_flags [OF this] show ?thesis by blast
qed

text \<open>The limit of four letters is real: a longer cluster is not looked at, although rclone reads the
  letters one by one and takes the last one as \<open>-n\<close>, the dry run.\<close>

lemma long_cluster_is_handed_on:
  "validate_rclone_args (PStr ''-vvvn'') False = Inl (UnsafeRcloneArgument ''rclone-Flags'')"
  "validate_rclone_args (PStr ''-vvvvn'') False = Inr [''-vvvvn'']"
  by (code_simp+)

text \<open>Expert mode lifts the protected flags only. Whatever the mode, accepted arguments hold no
  token that is never allowed and number at most 256, one per given argument; and an accepted list is
  stable: validated again in the same mode it is returned unchanged.\<close>

theorem accepted_arguments_are_stable:
  assumes "validate_parsed_rclone_args args unsafe = Inr out"
  shows "list_all (\<lambda>t. \<not> never_allowed t) out \<and> length out = length args \<and> length out \<le> max_args \<and>
    validate_parsed_rclone_args out unsafe = Inr out"
proof -
  note acc = assms [unfolded validate_accepts_iff]
  have "length out = length args" using acc normalize_length by blast
  moreover have "normalize_filter_aliases out = Inr out" using acc normalize_idempotent by blast
  ultimately show ?thesis using acc by (simp add: validate_accepts_iff)
qed

theorem accepted_arguments_are_stable_witness:
  "validate_parsed_rclone_args [''--filter'', ''- *.tmp'', ''--filter=x''] True
     = Inr [''--filter'', ''- *.tmp'', ''--filter=x'']"
proof -
  have "validate_parsed_rclone_args [''-f'', ''- *.tmp'', ''-f=x''] True
      = Inr [''--filter'', ''- *.tmp'', ''--filter=x'']" by code_simp
  from accepted_arguments_are_stable [OF this] show ?thesis by blast
qed

end
