(* ===== verification/Py_Sequence.thy ===== *)
theory Py_Sequence
  imports Restore_Evidence
begin

text \<open>
  Iteration over dynamically typed values, comprehensions whose body may raise, and the
  sections of the configuration that several modules read.
\<close>

text \<open>\<open>for x in v\<close>: a list gives its elements, a text its characters, a dictionary its keys;
  anything else raises.\<close>

fun py_iter :: "pyval \<Rightarrow> pyval list result" where
  "py_iter (PList xs) = Inr xs"
| "py_iter (PStr s) = Inr (map (\<lambda>c. PStr [c]) s)"
| "py_iter (PDict d) = Inr (map (\<lambda>kv. PStr (fst kv)) d)"
| "py_iter _ = Inl TypeError"

definition iter_or_empty :: "pyval \<Rightarrow> pyval list result" where
  "iter_or_empty v = py_iter (py_or v (PList []))"

fun collect :: "('a \<Rightarrow> 'b result) \<Rightarrow> 'a list \<Rightarrow> 'b list result" where
  "collect f [] = Inr []"
| "collect f (x # xs) = bind_result (f x) (\<lambda>y. bind_result (collect f xs) (\<lambda>ys. Inr (y # ys)))"

text \<open>The elements that are dictionaries (\<open>isinstance(item, Mapping)\<close>).\<close>

definition mappings :: "pyval list \<Rightarrow> pydict list" where
  "mappings vs = map as_dict (filter is_dict vs)"

definition section_of :: "pydict \<Rightarrow> string \<Rightarrow> pyval" where
  "section_of cfg k = py_or (py_get cfg k) (PDict [])"

lemma iter_or_empty_list [simp]: "iter_or_empty (PList xs) = Inr xs"
  by (simp add: iter_or_empty_def py_or_def)

lemma iter_or_empty_none [simp]: "iter_or_empty PNone = Inr []"
  by (simp add: iter_or_empty_def py_or_def)

lemma collect_Inr_iff:
  "collect f xs = Inr ys \<longleftrightarrow> list_all2 (\<lambda>x y. f x = Inr y) xs ys"
  by (induction xs arbitrary: ys) (auto simp: list_all2_Cons1)

lemma list_all2_in_right: "list_all2 P xs ys \<Longrightarrow> y \<in> set ys \<Longrightarrow> \<exists>x \<in> set xs. P x y"
  by (induction rule: list_all2_induct) auto

lemma collect_member:
  assumes "collect f xs = Inr ys" and "y \<in> set ys"
  shows "\<exists>x \<in> set xs. f x = Inr y"
  using list_all2_in_right [of "\<lambda>x y. f x = Inr y" xs ys y] assms by (simp add: collect_Inr_iff)

lemma collect_map: "(\<And>x. x \<in> set xs \<Longrightarrow> f x = Inr (g x)) \<Longrightarrow> collect f xs = Inr (map g xs)"
  by (induction xs) auto

lemma collect_length: "collect f xs = Inr ys \<Longrightarrow> length ys = length xs"
  by (auto simp: collect_Inr_iff dest: list_all2_lengthD)

lemma mappings_map [simp]: "mappings (map PDict ds) = ds"
  by (simp add: mappings_def comp_def)

lemma in_mappings: "d \<in> set (mappings vs) \<longleftrightarrow> PDict d \<in> set vs"
  by (auto simp: mappings_def is_dict_conv image_iff)

end
