(* ===== verification/History_Reads.thy ===== *)
theory History_Reads
  imports Job_Store Py_Sequence "HOL-Library.Sublist"
begin

text \<open>
  \<open>app/db.py\<close>: what the pages and the scheduler read from the job tables. A result row is the dictionary
  the code hands out. A column that is NULL reads as \<open>None\<close>. Where the code asks a decoded value for a
  key, the value is read as a dictionary; \<open>LIKE\<close> with an escaped needle is the search for a substring.
\<close>

definition of_str_opt :: "string option \<Rightarrow> pyval" where
  "of_str_opt x = (case x of None \<Rightarrow> PNone | Some s \<Rightarrow> PStr s)"

definition of_real_opt :: "real option \<Rightarrow> pyval" where
  "of_real_opt x = (case x of None \<Rightarrow> PNone | Some r \<Rightarrow> PFloat r)"

definition of_dict_opt :: "pydict option \<Rightarrow> pyval" where
  "of_dict_opt x = (case x of None \<Rightarrow> PNone | Some d \<Rightarrow> PDict d)"

subsection \<open>Jobs\<close>

definition shown_as_warning :: "job_row \<Rightarrow> bool" where
  "shown_as_warning r \<longleftrightarrow> j_kind r = ''restoretest'' \<and> j_status r \<in> {JError, JWarning} \<and>
     is_partial_restore_summary (py_or (case j_summary r of None \<Rightarrow> PNone | Some v \<Rightarrow> v) (PDict []))"

definition row_to_dict :: "job_row \<Rightarrow> pydict" where
  "row_to_dict r =
     [(''id'', PInt (int (j_id r))), (''kind'', PStr (j_kind r)), (''status'', PStr (status_text (j_status r))),
      (''started_at'', PFloat (j_started r)), (''ended_at'', of_real_opt (j_ended r)),
      (''log_file'', of_str_opt (j_log r)), (''definition_id'', of_str_opt (j_def_id r)),
      (''definition_name'', of_str_opt (j_def_name r)), (''config_revision'', of_str_opt (j_revision r)),
      (''scheduled_slot'', of_str_opt (j_slot r)), (''dry_run'', PBool (j_dry r)), (''trigger'', PStr (j_trigger r))] @
     (case j_summary r of None \<Rightarrow> [] | Some v \<Rightarrow> [(''summary'', v)]) @
     (if shown_as_warning r then [(''display_status'', PStr ''warning'')] else [])"

definition job_get :: "nat \<Rightarrow> jobs_db \<Rightarrow> pydict option" where
  "job_get jid db = map_option row_to_dict (job_by_id db jid)"

record job_query =
  f_kind :: "string option"
  f_status :: "string option"
  f_text :: "string option"

definition given :: "string option \<Rightarrow> bool" where
  "given x \<longleftrightarrow> x \<noteq> None \<and> x \<noteq> Some []"

definition status_matches :: "string \<Rightarrow> job_row \<Rightarrow> bool" where
  "status_matches st r \<longleftrightarrow>
     (let w = historical_restore_warning (j_kind r) (j_status r) (j_summary r) in
      if st = ''warning'' then j_status r = JWarning \<or> (j_status r = JError \<and> w)
      else if st = ''error'' then j_status r = JError \<and> \<not> w
      else status_text (j_status r) = st)"

definition text_matches :: "string \<Rightarrow> job_row \<Rightarrow> bool" where
  "text_matches needle r \<longleftrightarrow>
     show_nat (j_id r) = needle \<or>
     list_ex (\<lambda>t. sublist needle (py_lower t))
       [case j_summary r of None \<Rightarrow> [] | Some v \<Rightarrow> json_dumps v, opt_str (j_log r), opt_str (j_def_id r), opt_str (j_def_name r)]"

definition job_filter :: "job_query \<Rightarrow> job_row \<Rightarrow> bool" where
  "job_filter q r \<longleftrightarrow>
     (given (f_kind q) \<longrightarrow> Some (j_kind r) = f_kind q) \<and>
     (given (f_status q) \<longrightarrow> status_matches (opt_str (f_status q)) r) \<and>
     (let needle = py_casefold (py_strip (opt_str (f_text q))) in needle = [] \<or> text_matches needle r)"

text \<open>\<open>ORDER BY started_at DESC, id DESC\<close>.\<close>

definition newest_first :: "job_row list \<Rightarrow> job_row list" where
  "newest_first rs = order_desc j_started (order_desc (\<lambda>r. real (j_id r)) rs)"

definition matching_jobs :: "job_query \<Rightarrow> jobs_db \<Rightarrow> job_row list" where
  "matching_jobs q db = newest_first (select_where (job_filter q) (jobs db))"

definition page :: "nat \<Rightarrow> nat \<Rightarrow> 'a list \<Rightarrow> 'a list" where
  "page limit offset xs = take limit (drop offset xs)"

definition limit_or :: "int \<Rightarrow> int \<Rightarrow> int \<Rightarrow> nat" where
  "limit_or n dflt hi = nat (clamp 1 hi (if n = 0 then dflt else n))"

definition offset_or :: "int \<Rightarrow> nat" where
  "offset_or n = nat (clamp 0 1000000 n)"

definition job_list :: "job_query \<Rightarrow> int \<Rightarrow> int \<Rightarrow> jobs_db \<Rightarrow> pydict list" where
  "job_list q limit offset db =
     map row_to_dict (page (limit_or limit 50 2000) (offset_or offset) (matching_jobs q db))"

text \<open>The generator reads the cursor in batches until a batch is empty.\<close>

function fetch_batches :: "nat \<Rightarrow> 'a list \<Rightarrow> 'a list" where
  "fetch_batches n rows =
     (if rows = [] then [] else take (max 1 n) rows @ fetch_batches n (drop (max 1 n) rows))"
  by pat_completeness auto

termination fetch_batches
  by (relation "measure (\<lambda>(n, rows). length rows)") auto

declare fetch_batches.simps [simp del]

definition job_iter :: "job_query \<Rightarrow> int \<Rightarrow> int \<Rightarrow> jobs_db \<Rightarrow> pydict list" where
  "job_iter q limit batch_size db =
     map row_to_dict (fetch_batches (limit_or batch_size 250 1000)
       (take (limit_or limit 5000 10000) (matching_jobs q db)))"

definition job_count :: "job_query \<Rightarrow> jobs_db \<Rightarrow> nat" where
  "job_count q db = count_where (job_filter q) (jobs db)"

definition job_search :: "job_query \<Rightarrow> int \<Rightarrow> int \<Rightarrow> jobs_db \<Rightarrow> pydict list \<times> nat" where
  "job_search q limit offset db =
     (map row_to_dict (page (limit_or limit 50 200) (offset_or offset) (matching_jobs q db)),
      count_where (job_filter q) (jobs db))"

definition counts_by :: "('r \<Rightarrow> string) \<Rightarrow> 'r list \<Rightarrow> (string \<times> nat) list" where
  "counts_by f rs = map (\<lambda>k. (k, count_where (\<lambda>r. f r = k) rs)) (remdups (map f rs))"

definition display_status :: "job_row \<Rightarrow> string" where
  "display_status r =
     (if historical_restore_warning (j_kind r) (j_status r) (j_summary r) then ''warning'' else status_text (j_status r))"

record job_stats =
  n_total :: nat
  n_status :: "(string \<times> nat) list"
  n_kind :: "(string \<times> nat) list"

definition job_statistics :: "real option \<Rightarrow> jobs_db \<Rightarrow> job_stats" where
  "job_statistics since db =
     (let rs = select_where (\<lambda>r. case since of None \<Rightarrow> True | Some t \<Rightarrow> t \<le> j_started r) (jobs db);
          st = counts_by display_status rs
      in \<lparr>n_total = sum_list (map snd st), n_status = st, n_kind = counts_by j_kind rs\<rparr>)"

subsection \<open>The history of a job definition\<close>

definition wanted_ids :: "string list \<Rightarrow> string list" where
  "wanted_ids ids = rev (remdups (rev (filter (\<lambda>i. i \<noteq> []) (map py_strip ids))))"

definition history_bucket :: "pydict option \<Rightarrow> pydict option \<Rightarrow> pydict" where
  "history_bucket success result = [(''last_success'', of_dict_opt success), (''last_result'', of_dict_opt result)]"

text \<open>A job with the entries of its summary on top.\<close>

definition history_item :: "job_row \<Rightarrow> pydict" where
  "history_item r =
     (let item = row_to_dict r in
      case j_summary r of
        Some (PDict s) \<Rightarrow> py_set (py_merge item s) ''summary'' (PDict s)
      | _ \<Rightarrow> item)"

definition good_item :: "pydict \<Rightarrow> bool" where
  "good_item d \<longleftrightarrow> py_get d ''status'' = PStr ''ok'' \<and> \<not> truthy (py_get d ''dry_run'')"

definition job_definition_history :: "string list \<Rightarrow> jobs_db \<Rightarrow> (string \<times> pydict) list" where
  "job_definition_history definitions db =
     map (\<lambda>i.
       let found = map history_item (newest_first (select_where (\<lambda>r. j_def_id r = Some i) (jobs db)))
       in (i, history_bucket (find good_item found) (case found of [] \<Rightarrow> None | x # _ \<Rightarrow> Some x)))
     (wanted_ids definitions)"

definition schedule_entry ::
  "string \<Rightarrow> string \<Rightarrow> nat \<Rightarrow> string \<Rightarrow> real option \<Rightarrow> real option \<Rightarrow> string option \<Rightarrow> string option \<Rightarrow> pydict" where
  "schedule_entry def_id name jid status started ended trigger slot =
     [(''id'', PInt (int jid)), (''job_id'', PInt (int jid)), (''definition_id'', PStr def_id),
      (''definition_name'', PStr name), (''ok'', PBool (status = ''ok'')), (''status'', PStr status),
      (''started_at'', of_real_opt started), (''ended_at'', of_real_opt ended),
      (''trigger'', PStr (if opt_str trigger = [] then ''manual'' else opt_str trigger)),
      (''scheduled_slot'', of_str_opt slot)]"

definition attempt_entry :: "sched_row \<Rightarrow> pydict option" where
  "attempt_entry r = map_option (\<lambda>jid. schedule_entry (s_def_id r) (s_name r) jid
     (case s_att_status r of None \<Rightarrow> ''error'' | Some st \<Rightarrow> status_text st)
     (s_att_started r) (s_att_at r) (s_att_trigger r) (s_att_slot r)) (s_att_job r)"

definition success_entry :: "sched_row \<Rightarrow> pydict option" where
  "success_entry r = map_option (\<lambda>jid. schedule_entry (s_def_id r) (s_name r) jid ''ok''
     (s_suc_started r) (s_suc_at r) (s_suc_trigger r) (s_suc_slot r)) (s_suc_job r)"

definition job_definition_schedule_state :: "string list \<Rightarrow> jobs_db \<Rightarrow> (string \<times> pydict) list" where
  "job_definition_schedule_state definitions db =
     map (\<lambda>i. (i, case sched_of (sched db) i of
         None \<Rightarrow> history_bucket None None
       | Some r \<Rightarrow> history_bucket (success_entry r) (attempt_entry r)))
     (wanted_ids definitions)"

subsection \<open>The history of a data path\<close>

definition pair_row_to_result :: "pair_row \<Rightarrow> pydict" where
  "pair_row_to_result r =
     [(''ok'', PBool (p_ok r)), (''dry_run'', PBool (p_dry r)), (''status'', PStr (status_text (p_status r))),
      (''started_at'', PFloat (p_started r)),
      (''ended_at'', py_or (of_real_opt (p_ended r)) (PFloat (p_started r))),
      (''pair'', p_result r), (''job_id'', PInt (int (p_job r))), (''history_key'', PStr (p_hist r)),
      (''scheduled_slot'', of_str_opt (p_slot r))]"

text \<open>\<open>ORDER BY COALESCE(ended_at, started_at) DESC, id DESC LIMIT 1\<close>.\<close>

definition latest_run :: "(pair_row \<Rightarrow> bool) \<Rightarrow> pair_row list \<Rightarrow> pair_row option" where
  "latest_run P rs =
     (case order_desc pair_seen (order_desc (\<lambda>r. real (p_id r)) (select_where P rs)) of
        [] \<Rightarrow> None | r # _ \<Rightarrow> Some r)"

definition legacy_run :: "string \<Rightarrow> pair_row \<Rightarrow> bool" where
  "legacy_run name r \<longleftrightarrow> p_name r = name \<and> p_hist r \<in> {[], default_history_key [] name}"

definition terminal_run :: "pair_row \<Rightarrow> bool" where
  "terminal_run r \<longleftrightarrow> p_status r \<noteq> JRunning \<or> p_ended r \<noteq> None"

definition legacy_entry :: "pydict \<Rightarrow> pyval \<Rightarrow> pyval \<Rightarrow> pydict" where
  "legacy_entry job ok pair =
     [(''ok'', ok), (''status'', py_get job ''status''), (''started_at'', py_get job ''started_at''),
      (''ended_at'', py_or (py_get job ''ended_at'') (py_get job ''started_at'')), (''pair'', pair),
      (''job_id'', py_get job ''id'')]"

definition legacy_pair_hit :: "bool \<Rightarrow> string \<Rightarrow> pydict \<Rightarrow> pydict \<Rightarrow> bool" where
  "legacy_pair_hit success_only name summary pair \<longleftrightarrow>
     py_get pair ''name'' = PStr name \<and>
     (\<not> success_only \<or>
      (is_True (py_get pair ''ok'') \<and> \<not> is_True (py_get pair ''dry_run'') \<and> \<not> is_True (py_get summary ''dry_run'')))"

definition legacy_job_result :: "bool \<Rightarrow> string \<Rightarrow> pydict \<Rightarrow> pydict option" where
  "legacy_job_result success_only name job =
     (let summary = as_dict (py_get job ''summary'') in
      case find (legacy_pair_hit success_only name summary) (mappings (as_list (py_get summary ''pairs''))) of
        Some pair \<Rightarrow> Some (legacy_entry job (PBool (is_True (py_get pair ''ok''))) (PDict pair))
      | None \<Rightarrow>
          if \<not> success_only \<and> py_get job ''status'' \<in> {PStr ''error'', PStr ''stale'', PStr ''cancelled''} \<and>
             PStr name \<in> set (as_list (py_get summary ''due''))
          then Some (legacy_entry job (PBool False)
                 (PDict [(''name'', PStr name), (''ok'', PBool False), (''error'', py_get summary ''error'')]))
          else None)"

definition legacy_pair_last_result :: "string \<Rightarrow> bool \<Rightarrow> int \<Rightarrow> jobs_db \<Rightarrow> pydict option" where
  "legacy_pair_last_result name success_only limit db =
     List.find (\<lambda>_. True) (List.map_filter (legacy_job_result success_only name)
       (job_list \<lparr>f_kind = Some ''backup'', f_status = None, f_text = None\<rparr> limit 0 db))"

definition pair_last_result :: "string \<Rightarrow> string \<Rightarrow> int \<Rightarrow> jobs_db \<Rightarrow> pydict option" where
  "pair_last_result name history_key limit db =
     (let found =
        (if history_key \<noteq> [] then
           (case latest_run (\<lambda>r. p_hist r = history_key) (pair_runs db) of
              Some r \<Rightarrow> Some r | None \<Rightarrow> latest_run (legacy_run name) (pair_runs db))
         else latest_run (\<lambda>r. p_name r = name) (pair_runs db))
      in case found of
           Some r \<Rightarrow> Some (pair_row_to_result r)
         | None \<Rightarrow> legacy_pair_last_result name False limit db)"

definition success_view :: "pydict \<Rightarrow> pydict" where
  "success_view d = map (\<lambda>k. (k, py_get d k)) [''started_at'', ''ended_at'', ''pair'', ''job_id'']"

definition pair_last_success :: "string \<Rightarrow> string \<Rightarrow> int \<Rightarrow> jobs_db \<Rightarrow> pydict option" where
  "pair_last_success name history_key limit db =
     (let legacy = map_option success_view (legacy_pair_last_result name True limit db);
          view = (\<lambda>found. case found of
             Some r \<Rightarrow> Some (success_view (pair_row_to_result r)) | None \<Rightarrow> legacy)
      in if history_key \<noteq> [] then
           (case latest_run (\<lambda>r. p_hist r = history_key \<and> pair_good r) (pair_runs db) of
              Some r \<Rightarrow> view (Some r)
            | None \<Rightarrow>
                if exists_where (\<lambda>r. p_hist r = history_key \<and> terminal_run r) (pair_runs db) then None
                else view (latest_run (\<lambda>r. legacy_run name r \<and> pair_good r) (pair_runs db)))
         else view (latest_run (\<lambda>r. p_name r = name \<and> pair_good r) (pair_runs db)))"

text \<open>The bulk read: the stable key decides as soon as it has any attempt, else the old name.\<close>

definition requested_pairs :: "(string \<times> string) list \<Rightarrow> (string \<times> string) list" where
  "requested_pairs identities =
     (let kvs = filter (\<lambda>kv. fst kv \<noteq> [] \<and> snd kv \<noteq> []) (map (\<lambda>(k, n). (py_strip k, py_strip n)) identities)
      in map (\<lambda>k. (k, the (map_of (rev kvs) k))) (rev (remdups (rev (map fst kvs)))))"

definition selected_runs :: "jobs_db \<Rightarrow> string \<Rightarrow> string \<Rightarrow> pair_row option \<times> pair_row option" where
  "selected_runs db key name =
     (case latest_run (\<lambda>r. p_hist r = key) (pair_runs db) of
        Some r \<Rightarrow> (Some r, latest_run (\<lambda>r. p_hist r = key \<and> pair_good r) (pair_runs db))
      | None \<Rightarrow> (latest_run (legacy_run name) (pair_runs db),
                 latest_run (\<lambda>r. legacy_run name r \<and> pair_good r) (pair_runs db)))"

definition path_bucket :: "pair_row option \<Rightarrow> pair_row option \<Rightarrow> pydict" where
  "path_bucket last_row success_row =
     [(''last_result'', of_dict_opt (map_option pair_row_to_result last_row)),
      (''last_success'', of_dict_opt (map_option pair_row_to_result success_row))]"

definition pair_last_history :: "(string \<times> string) list \<Rightarrow> jobs_db \<Rightarrow> (string \<times> pydict) list" where
  "pair_last_history identities db =
     map (\<lambda>(k, n). (k, case selected_runs db k n of (l, s) \<Rightarrow> path_bucket l s)) (requested_pairs identities)"

definition scheduled_drill :: "jobs_db \<Rightarrow> string \<Rightarrow> pair_row \<Rightarrow> bool" where
  "scheduled_drill db key r \<longleftrightarrow> p_hist r = key \<and> \<not> p_dry r \<and>
     exists_where (\<lambda>j. j_id j = p_job r \<and> j_kind j = ''restoretest'' \<and> j_trigger j = ''scheduler'') (jobs db)"

definition restore_test_schedule_history :: "string \<Rightarrow> jobs_db \<Rightarrow> pydict" where
  "restore_test_schedule_history key db =
     path_bucket (latest_run (scheduled_drill db key) (pair_runs db))
       (latest_run (\<lambda>r. scheduled_drill db key r \<and> p_ok r) (pair_runs db))"

definition latest_by_name :: "(pair_row \<Rightarrow> bool) \<Rightarrow> jobs_db \<Rightarrow> (string \<times> pydict) list" where
  "latest_by_name P db =
     map (\<lambda>n. (n, pair_row_to_result (the (latest_run (\<lambda>r. P r \<and> p_name r = n) (pair_runs db)))))
       (remdups (map p_name (select_where P (pair_runs db))))"

definition pair_last_results :: "jobs_db \<Rightarrow> (string \<times> pydict) list" where
  "pair_last_results = latest_by_name (\<lambda>_. True)"

definition pair_last_successes :: "jobs_db \<Rightarrow> (string \<times> pydict) list" where
  "pair_last_successes = latest_by_name pair_good"

subsection \<open>Lemmas\<close>

lemma fetch_batches_all: "fetch_batches n rows = rows"
proof (induction n rows rule: fetch_batches.induct)
  case (1 n rows)
  then show ?case by (subst fetch_batches.simps) auto
qed

lemma length_order_desc [simp]: "length (order_desc f t) = length t"
  by (simp add: order_desc_def)

lemma length_matching: "length (matching_jobs q db) = job_count q db"
  by (simp add: matching_jobs_def newest_first_def job_count_def count_where_def select_where_def)

lemma concat_pages: "concat (map (\<lambda>i. page l (i * l) xs) [0..<n]) = take (n * l) xs"
proof (induction n)
  case (Suc n)
  have "take (Suc n * l) xs = take (n * l) xs @ take l (drop (n * l) xs)"
    unfolding mult_Suc by (subst add.commute) (rule take_add)
  with Suc show ?case by (simp add: page_def)
qed simp

lemma count_by_sum: "sum_list (map snd (counts_by f rs)) = length rs"
proof -
  have "sum_list (map snd (counts_by f rs)) = (\<Sum>k \<in> set (map f rs). length (filter (\<lambda>r. f r = k) rs))"
    by (simp add: counts_by_def count_where_def comp_def sum_list_distinct_conv_sum_set)
  also have "\<dots> = length rs"
  proof (induction rs)
    case (Cons r rs)
    have "(\<Sum>k \<in> set (map f (r # rs)). length (filter (\<lambda>x. f x = k) (r # rs))) =
        (\<Sum>k \<in> insert (f r) (f ` set rs). (if f r = k then 1 else 0) + length (filter (\<lambda>x. f x = k) rs))"
      by (intro sum.cong) auto
    also have "\<dots> = 1 + (\<Sum>k \<in> insert (f r) (f ` set rs). length (filter (\<lambda>x. f x = k) rs))"
      by (simp add: sum.distrib)
    also have "(\<Sum>k \<in> insert (f r) (f ` set rs). length (filter (\<lambda>x. f x = k) rs)) =
        (\<Sum>k \<in> f ` set rs. length (filter (\<lambda>x. f x = k) rs))"
    proof (cases "f r \<in> f ` set rs")
      case False
      then have "filter (\<lambda>x. f x = f r) rs = []" by (auto simp: filter_empty_conv image_iff)
      with False show ?thesis by simp
    qed (simp add: insert_absorb)
    finally show ?case using Cons by simp
  qed simp
  finally show ?thesis .
qed

lemma latest_run_Some: "latest_run P t = Some r \<Longrightarrow> r \<in> set t \<and> P r"
proof -
  let ?l = "order_desc pair_seen (order_desc (\<lambda>r. real (p_id r)) (select_where P t))"
  assume "latest_run P t = Some r"
  then obtain ys where "?l = r # ys" by (auto simp: latest_run_def split: list.splits)
  then have "r \<in> set ?l" by (metis list.set_intros(1))
  then show ?thesis by simp
qed

lemma latest_run_None: "latest_run P t = None \<longleftrightarrow> (\<forall>r \<in> set t. \<not> P r)"
proof -
  let ?l = "order_desc pair_seen (order_desc (\<lambda>r. real (p_id r)) (select_where P t))"
  have "latest_run P t = None \<longleftrightarrow> ?l = []"
    unfolding latest_run_def
    by (simp only: option.distinct refl list.distinct not_False_eq_True simp_thms split: list.split) fastforce
  also have "\<dots> \<longleftrightarrow> select_where P t = []" by simp
  also have "\<dots> \<longleftrightarrow> (\<forall>r \<in> set t. \<not> P r)" by (simp add: select_where_def filter_empty_conv)
  finally show ?thesis .
qed

subsection \<open>Theorems\<close>

text \<open>Turning the pages of the job list loses and repeats nothing: the pages of one size, read one
  after the other from an unchanged store, are the newest-first list of all matching jobs, and
  every page carries the full number of matches.\<close>

theorem job_pages_cover_all:
  assumes "1 \<le> limit" and "limit \<le> 200" and "int n * limit \<le> 1000000"
  shows "concat (map (\<lambda>i. fst (job_search q limit (int i * limit) db)) [0..<Suc n]) =
      map row_to_dict (take (Suc n * nat limit) (matching_jobs q db)) \<and>
    snd (job_search q limit offset db) = length (matching_jobs q db) \<and>
    (length (matching_jobs q db) \<le> Suc n * nat limit \<longrightarrow>
      concat (map (\<lambda>i. fst (job_search q limit (int i * limit) db)) [0..<Suc n]) =
      map row_to_dict (matching_jobs q db))"
proof -
  have off: "offset_or (int i * limit) = i * nat limit" if "i < Suc n" for i
  proof -
    from that have "int i * limit \<le> int n * limit" using assms(1) by (intro mult_right_mono) auto
    with assms(3) have "int i * limit \<le> 1000000" by simp
    with assms(1) have "clamp 0 1000000 (int i * limit) = int i * limit" by (intro clamp_id) simp_all
    then show ?thesis using assms(1) by (simp add: offset_or_def nat_mult_distrib)
  qed
  have lim: "limit_or limit 50 200 = nat limit"
    using assms by (simp add: limit_or_def clamp_id)
  have "map (\<lambda>i. fst (job_search q limit (int i * limit) db)) [0..<Suc n] =
      map (\<lambda>i. map row_to_dict (page (nat limit) (i * nat limit) (matching_jobs q db))) [0..<Suc n]"
    by (intro map_cong refl) (simp add: job_search_def lim off del: upt_Suc)
  then have "concat (map (\<lambda>i. fst (job_search q limit (int i * limit) db)) [0..<Suc n]) =
      map row_to_dict (concat (map (\<lambda>i. page (nat limit) (i * nat limit) (matching_jobs q db)) [0..<Suc n]))"
    by (simp only: map_concat map_map comp_def)
  then have "concat (map (\<lambda>i. fst (job_search q limit (int i * limit) db)) [0..<Suc n]) =
      map row_to_dict (take (Suc n * nat limit) (matching_jobs q db))"
    by (simp only: concat_pages)
  then show ?thesis
    by (simp add: job_search_def length_matching [unfolded job_count_def] del: upt_Suc mult_Suc)
qed

text \<open>The export reads its cursor in batches until one is empty; it ends for every batch size and
  yields the same jobs as one read with the same limit.\<close>

theorem job_iter_is_one_read:
  "job_iter q limit batch_size db = map row_to_dict (take (limit_or limit 5000 10000) (matching_jobs q db)) \<and>
   length (job_iter q limit batch_size db) = min (job_count q db) (limit_or limit 5000 10000)"
  by (simp add: job_iter_def fetch_batches_all length_matching)

text \<open>The statistics add up: the counts by shown status and the counts by kind both sum to the
  number of jobs in the period, which is the total.\<close>

theorem statistics_add_up:
  "n_total (job_statistics since db) =
     count_where (\<lambda>r. case since of None \<Rightarrow> True | Some t \<Rightarrow> t \<le> j_started r) (jobs db) \<and>
   sum_list (map snd (n_status (job_statistics since db))) = n_total (job_statistics since db) \<and>
   sum_list (map snd (n_kind (job_statistics since db))) = n_total (job_statistics since db)"
  by (simp add: job_statistics_def Let_def count_by_sum count_where_def select_where_def)

text \<open>The bulk read against the single reads.\<close>

lemma last_result_found:
  "k \<noteq> [] \<Longrightarrow> fst (selected_runs db k n) = Some r \<Longrightarrow> pair_last_result n k limit db = Some (pair_row_to_result r)"
  by (auto simp: pair_last_result_def selected_runs_def split: option.splits)

lemma last_success_found:
  assumes "k \<noteq> []" and "snd (selected_runs db k n) = Some r"
  shows "pair_last_success n k limit db = Some (success_view (pair_row_to_result r))"
proof (cases "latest_run (\<lambda>r. p_hist r = k) (pair_runs db)")
  case (Some l)
  with assms show ?thesis by (simp add: pair_last_success_def selected_runs_def)
next
  case None
  then have none: "\<not> p_hist x = k" if "x \<in> set (pair_runs db)" for x
    using that by (simp add: latest_run_None)
  then have "latest_run (\<lambda>r. p_hist r = k \<and> pair_good r) (pair_runs db) = None" by (simp add: latest_run_None)
  with None none assms show ?thesis by (auto simp: pair_last_success_def selected_runs_def)
qed

lemma requested_keys:
  "(k, n) \<in> set (requested_pairs ids) \<Longrightarrow> k \<noteq> [] \<and> n \<noteq> []"
proof -
  assume "(k, n) \<in> set (requested_pairs ids)"
  define kvs where "kvs = filter (\<lambda>kv. fst kv \<noteq> [] \<and> snd kv \<noteq> []) (map (\<lambda>(k, n). (py_strip k, py_strip n)) ids)"
  then have k: "k \<in> fst ` set kvs" and n: "n = the (map_of (rev kvs) k)"
    using \<open>(k, n) \<in> set (requested_pairs ids)\<close> by (auto simp: requested_pairs_def Let_def)
  then obtain m where "map_of (rev kvs) k = Some m"
    by (metis image_set map_of_eq_None_iff not_Some_eq set_rev)
  then have "(k, m) \<in> set kvs" using map_of_SomeD by fastforce
  with n \<open>map_of (rev kvs) k = Some m\<close> show ?thesis by (auto simp: kvs_def)
qed

text \<open>The bulk read of the dashboard agrees with the single reads of the scheduler: what it shows as
  the last attempt of a path is the single read's answer, and what it shows as the last success is
  what the single read gives, cut to the fields that read hands out.\<close>

theorem bulk_history_agrees:
  assumes "(k, bucket) \<in> set (pair_last_history ids db)"
  shows "\<exists>n. (k, n) \<in> set (requested_pairs ids) \<and>
    (\<forall>d. py_get bucket ''last_result'' = PDict d \<longrightarrow> pair_last_result n k limit db = Some d) \<and>
    (\<forall>d. py_get bucket ''last_success'' = PDict d \<longrightarrow> pair_last_success n k limit db = Some (success_view d))"
proof -
  from assms obtain n where n: "(k, n) \<in> set (requested_pairs ids)"
    and b: "bucket = path_bucket (fst (selected_runs db k n)) (snd (selected_runs db k n))"
    by (auto simp: pair_last_history_def split_beta)
  from requested_keys [OF n] have k: "k \<noteq> []" by simp
  have "pair_last_result n k limit db = Some d" if "py_get bucket ''last_result'' = PDict d" for d
    using that last_result_found [OF k, of db n]
    by (cases "fst (selected_runs db k n)") (simp_all add: b path_bucket_def of_dict_opt_def py_get_def)
  moreover have "pair_last_success n k limit db = Some (success_view d)"
    if "py_get bucket ''last_success'' = PDict d" for d
    using that last_success_found [OF k, of db n]
    by (cases "snd (selected_runs db k n)") (simp_all add: b path_bucket_def of_dict_opt_def py_get_def)
  ultimately show ?thesis using n by blast
qed

subsection \<open>Concrete stores\<close>

definition demo_row :: "nat \<Rightarrow> real \<Rightarrow> job_row" where
  "demo_row i t = \<lparr>j_id = i, j_kind = ''backup'', j_status = JOk, j_started = t, j_ended = Some (t + 1),
     j_summary = None, j_log = None, j_def_id = None, j_def_name = None, j_revision = None, j_slot = None,
     j_dry = False, j_trigger = ''manual''\<rparr>"

definition demo_jobs :: jobs_db where
  "demo_jobs = empty_jobs_db\<lparr>jobs := [demo_row 1 100, demo_row 2 200]\<rparr>"

definition any_job :: job_query where
  "any_job = \<lparr>f_kind = None, f_status = None, f_text = None\<rparr>"

theorem job_pages_cover_all_witness:
  "\<exists>q db. q = any_job \<and> db = demo_jobs \<and>
     concat (map (\<lambda>i. fst (job_search q 1 (int i * 1) db)) [0..<2]) = map row_to_dict (matching_jobs q db) \<and>
     length (matching_jobs q db) = 2"
proof -
  have "length (matching_jobs any_job demo_jobs) = 2" by code_simp
  with job_pages_cover_all [of 1 1 any_job demo_jobs] show ?thesis
    by (auto simp: numeral_2_eq_2 simp del: upt_Suc)
qed

theorem bulk_history_agrees_witness:
  "\<exists>db r d. db = empty_jobs_db\<lparr>pair_runs := [r]\<rparr> \<and> p_name r = ''daten'' \<and>
     pair_last_result ''daten'' ''rclone:1'' 20 db = Some d"
proof -
  define r where "r = \<lparr>p_id = 1, p_job = 1, p_name = ''daten'', p_hist = ''rclone:1'', p_ok = True,
     p_dry = False, p_status = JOk, p_started = 100, p_ended = Some 200, p_slot = None, p_result = PDict []\<rparr>"
  define db where "db = empty_jobs_db\<lparr>pair_runs := [r]\<rparr>"
  define bucket where "bucket = path_bucket (Some r) (Some r)"
  have req: "requested_pairs [(''rclone:1'', ''daten'')] = [(''rclone:1'', ''daten'')]" by code_simp
  have sel: "selected_runs db ''rclone:1'' ''daten'' = (Some r, Some r)" unfolding db_def r_def by code_simp
  from req sel have "(''rclone:1'', bucket) \<in> set (pair_last_history [(''rclone:1'', ''daten'')] db)"
    by (simp add: pair_last_history_def bucket_def)
  from bulk_history_agrees [OF this, of 20] obtain n where "(''rclone:1'', n) \<in> set [(''rclone:1'', ''daten'')]"
    "\<And>d. py_get bucket ''last_result'' = PDict d \<Longrightarrow> pair_last_result n ''rclone:1'' 20 db = Some d"
    unfolding req by blast
  then have "pair_last_result ''daten'' ''rclone:1'' 20 db = Some (pair_row_to_result r)"
    by (simp add: bucket_def path_bucket_def of_dict_opt_def py_get_def)
  then show ?thesis unfolding db_def r_def by (intro exI conjI) auto
qed

end
