(* ===== verification/Baseline.thy ===== *)
theory Baseline
  imports History_Reads Job_Machine
begin

text \<open>
  \<open>app/db.py\<close>, \<open>pair_baseline_state\<close>: whether an initial resync of a path may run without a person
  looking at it. \<open>BaseNew\<close> is the only verdict that allows it.
\<close>

datatype baseline = BaseNew | BaseSucceeded | BaseAmbiguous

definition marker :: "string \<Rightarrow> jobs_db \<Rightarrow> hist_row option" where
  "marker key db = fetch_one (\<lambda>r. h_key r = key) (pair_hist db)"

definition legacy_marker :: "string \<Rightarrow> string \<Rightarrow> jobs_db \<Rightarrow> hist_row option" where
  "legacy_marker key name db = fetch_one (\<lambda>r. h_key r = key \<and> h_name r = name) (pair_hist db)"

definition baseline_key :: "string \<Rightarrow> string \<Rightarrow> string" where
  "baseline_key name history_key =
     py_strip (if history_key \<noteq> [] then history_key else default_history_key [] name)"

definition record_marker :: "string \<Rightarrow> string \<Rightarrow> real \<Rightarrow> bool \<Rightarrow> real \<Rightarrow> jobs_db \<Rightarrow> jobs_db" where
  "record_marker key name seen terminal success_at db =
     db\<lparr>pair_hist := record_pair_history_state key name seen True terminal (Some success_at) (pair_hist db)\<rparr>"

text \<open>What the old, name-based key still knows about a success.\<close>

definition adopt_legacy :: "string \<Rightarrow> string \<Rightarrow> string \<Rightarrow> jobs_db \<Rightarrow> jobs_db option" where
  "adopt_legacy key name legacy_key db =
     (case legacy_marker legacy_key name db of
        Some m \<Rightarrow>
          (if h_ever m then Some (record_marker key name (h_last m) (h_terminal m) (real_or (h_success m) (h_last m)) db)
           else map_option (\<lambda>r. record_marker key name (pair_seen r) True (pair_seen r) db)
                  (latest_run (\<lambda>r. p_name r = name \<and> p_hist r \<in> {[], legacy_key} \<and> pair_good r) (pair_runs db)))
      | None \<Rightarrow> map_option (\<lambda>r. record_marker key name (pair_seen r) True (pair_seen r) db)
                  (latest_run (\<lambda>r. p_name r = name \<and> p_hist r \<in> {[], legacy_key} \<and> pair_good r) (pair_runs db)))"

definition terminal_known :: "string \<Rightarrow> string \<Rightarrow> string \<Rightarrow> jobs_db \<Rightarrow> bool" where
  "terminal_known key name legacy_key db \<longleftrightarrow>
     (case marker key db of None \<Rightarrow> False | Some m \<Rightarrow> h_terminal m) \<or>
     exists_where (\<lambda>r. p_hist r = key \<and> terminal_run r) (pair_runs db) \<or>
     (key \<noteq> legacy_key \<and> (case legacy_marker legacy_key name db of None \<Rightarrow> False | Some m \<Rightarrow> h_terminal m))"

definition pair_baseline_state :: "string \<Rightarrow> string \<Rightarrow> jobs_db \<Rightarrow> jobs_db \<times> baseline" where
  "pair_baseline_state pair_name history_key db =
     (let name = py_strip pair_name;
          key = baseline_key name history_key;
          legacy_key = default_history_key [] name
      in if name = [] \<or> key = [] then (db, BaseAmbiguous)
         else if (case marker key db of None \<Rightarrow> False | Some m \<Rightarrow> h_ever m) then (db, BaseSucceeded)
         else case latest_run (\<lambda>r. p_hist r = key \<and> pair_good r) (pair_runs db) of
           Some r \<Rightarrow> (record_marker key (if p_name r = [] then name else p_name r) (pair_seen r) True (pair_seen r) db,
                      BaseSucceeded)
         | None \<Rightarrow>
             (case (if key \<noteq> legacy_key then adopt_legacy key name legacy_key db else None) of
                Some db1 \<Rightarrow> (db1, BaseSucceeded)
              | None \<Rightarrow> (db, if terminal_known key name legacy_key db then BaseAmbiguous else BaseNew)))"

subsection \<open>Markers only grow\<close>

definition markers_grow :: "hist_row list \<Rightarrow> hist_row list \<Rightarrow> bool" where
  "markers_grow t t' \<longleftrightarrow>
     (\<forall>c r. fetch_one (\<lambda>r. h_key r = c) t = Some r \<longrightarrow>
        (\<exists>r'. fetch_one (\<lambda>r. h_key r = c) t' = Some r' \<and> (h_ever r \<longrightarrow> h_ever r') \<and> (h_terminal r \<longrightarrow> h_terminal r')))"

lemma markers_grow_refl [simp]: "markers_grow t t"
  by (simp add: markers_grow_def)

lemma markers_grow_trans: "markers_grow a b \<Longrightarrow> markers_grow b c \<Longrightarrow> markers_grow a c"
  unfolding markers_grow_def by meson

lemma record_markers_grow: "markers_grow t (record_pair_history_state k n s ok tm sa t)"
  unfolding markers_grow_def using record_history_grows [of _ t _ k n s ok tm sa] by meson

lemma fold_markers_grow:
  "(\<And>x s. markers_grow (f s) (f (g x s))) \<Longrightarrow> markers_grow (f s) (f (fold g xs s))"
  by (induction xs arbitrary: s) (auto intro: markers_grow_trans)

definition hist_grows :: "jobs_db \<Rightarrow> jobs_db \<Rightarrow> bool" where
  "hist_grows db db' \<longleftrightarrow> markers_grow (pair_hist db) (pair_hist db')"

lemma hist_grows_same: "pair_hist db' = pair_hist db \<Longrightarrow> hist_grows db db'"
  by (simp add: hist_grows_def)

lemma start_attempt_grows: "hist_grows db (start_attempt k j now d db)"
  by (simp add: hist_grows_def start_attempt_def Let_def record_markers_grow)

lemma store_pair_grows: "hist_grows db (store_pair c v db)"
  by (simp add: hist_grows_def store_pair_def Let_def upsert_pair_def record_markers_grow split: pyval.split)

lemma store_due_grows: "hist_grows db (store_due c v db)"
  by (simp add: hist_grows_def store_due_def Let_def upsert_pair_def record_markers_grow)

lemma terminalize_job_grows: "hist_grows db (terminalize_job st e err j db)"
  unfolding hist_grows_def terminalize_job_def
  by (simp) (rule fold_markers_grow [where f = "\<lambda>t. t"], rule record_markers_grow)

lemma fold_grows:
  "(\<And>x s. hist_grows s (g x s)) \<Longrightarrow> hist_grows s (fold g xs s)"
  unfolding hist_grows_def by (rule fold_markers_grow)

lemma hist_grows_trans: "hist_grows a b \<Longrightarrow> hist_grows b c \<Longrightarrow> hist_grows a c"
  unfolding hist_grows_def by (rule markers_grow_trans)

lemma terminalize_grows: "hist_grows db (terminalize_running_attempts js st e err db)"
  unfolding terminalize_running_attempts_def by (rule fold_grows) (rule terminalize_job_grows)

lemma store_results_grows: "hist_grows db (store_pair_results c db)"
proof -
  define db1 where "db1 = fold (store_pair c) (as_list (py_get (c_summary c) ''pairs'')) db"
  define db2 where "db2 = (if c_status c \<in> {JError, JStale, JCancelled}
    then fold (store_due c) (as_list (py_get (c_summary c) ''due'')) db1 else db1)"
  have 1: "hist_grows db db1" unfolding db1_def by (rule fold_grows) (rule store_pair_grows)
  have "hist_grows db1 db2"
    unfolding db2_def by (cases "c_status c \<in> {JError, JStale, JCancelled}")
      (simp_all only: if_True if_False fold_grows store_due_grows hist_grows_same)
  with 1 have 2: "hist_grows db db2" by (rule hist_grows_trans)
  then have 3: "hist_grows db (terminalize_running_attempts ids st e err db2)" for ids st e err
    by (rule hist_grows_trans) (rule terminalize_grows)
  have "store_pair_results c db = (if c_status c \<noteq> JRunning
      then terminalize_running_attempts [c_job c] (unfinished_status (c_status c)) (c_ended c)
        (let err = str_or (py_get (c_summary c) ''error'') [] in if err = [] then None else Some err) db2 else db2)"
    by (simp add: store_pair_results_def db1_def db2_def Let_def)
  with 2 3 show ?thesis by simp
qed

lemma finish_grows:
  assumes "job_finish jid st s now db = Inr (db', b)"
  shows "hist_grows db db'"
proof (cases b)
  case True
  obtain c db1 where "pair_hist db' = pair_hist (store_pair_results c db1)" "pair_hist db1 = pair_hist db"
    using assms True by (auto simp: job_finish_def Let_def split: option.splits if_splits)
  with store_results_grows [of db1 c] show ?thesis by (simp add: hist_grows_def)
next
  case False
  with assms show ?thesis by (auto simp: job_finish_def Let_def hist_grows_same split: option.splits if_splits)
qed

lemma stale_grows: "hist_grows db (fst (mark_rows_stale P sm reason now db))"
  using terminalize_grows [of "db\<lparr>jobs := update_where P (stale_row sm now) (jobs db)\<rparr>"]
  by (simp add: mark_rows_stale_def Let_def hist_grows_def)

lemma batch_hist [simp]:
  "job_batch_create bid specs sn rv dry fj now db = Inr (db1, b1) \<Longrightarrow> pair_hist db1 = pair_hist db"
  "job_batch_item_finish bid pos st err now db = Inr (db1, b2) \<Longrightarrow> pair_hist db1 = pair_hist db"
  "job_batch_item_start bid pos jid now db = Inr (db3, b3) \<Longrightarrow> pair_hist db3 = pair_hist db"
  "pair_hist (fst (job_batch_request_cancel now db)) = pair_hist db"
  "pair_hist (fst (job_batch_recover bid now db)) = pair_hist db"
  by (auto simp: job_batch_create_def job_batch_item_finish_def job_batch_item_start_def
      job_batch_request_cancel_def job_batch_recover_def complete_batch_def Let_def
      split: if_splits option.splits)

lemma step_grows: "job_step db db' \<Longrightarrow> hist_grows db db'"
proof (induction rule: job_step_by.induct)
  case (step_start a now db db' jid)
  then obtain db1 where "pair_hist db' = pair_hist (fold (start_attempt (a_kind a) jid now) (prepared_attempts a) db1)"
    "pair_hist db1 = pair_hist db"
    by (auto simp: job_start_def Let_def split: if_splits option.splits)
  moreover have "hist_grows db1 (fold (start_attempt (a_kind a) jid now) (prepared_attempts a) db1)"
    by (rule fold_grows) (rule start_attempt_grows)
  ultimately show ?case by (simp add: hist_grows_def)
next
  case (step_stale jid reason now db db' b)
  then show ?case using stale_grows by (auto simp: job_mark_stale_def Let_def prod_eq_iff)
next
  case (step_all_stale kinds reason now db db' n)
  then have "db' = fst (jobs_mark_all_running_stale kinds reason now db)" by (metis fst_conv)
  then show ?case by (simp only: jobs_mark_all_running_stale_def Let_def stale_grows)
next
  case (step_old_stale age kind reason now0 now db db' n)
  then have "db' = fst (jobs_mark_stale age kind reason now0 now db)" by (metis fst_conv)
  then show ?case by (simp only: jobs_mark_stale_def Let_def stale_grows)
next
  case (step_apply jid now db db' b)
  then show ?case by (auto simp: apply_finish_def split: option.splits prod.splits if_splits dest: finish_grows)
next
  case (step_stage jid st s now db db')
  then show ?case
    by (intro hist_grows_same) (auto simp: job_terminal_stage_def Let_def split: option.splits if_splits)
next
  case (step_finish jid st s now db db' b)
  then show ?case by (rule finish_grows)
qed (auto intro!: hist_grows_same simp: job_set_log_file_def apply_mark_def
    jobs_delete_failed_def jobs_prune_def delete_jobs_def Let_def)

lemma steps_grow: "job_steps db db' \<Longrightarrow> hist_grows db db'"
  by (induction rule: rtranclp_induct) (auto intro: hist_grows_same step_grows hist_grows_trans)

subsection \<open>The verdict\<close>

definition named_runs :: "jobs_db \<Rightarrow> bool" where
  "named_runs db \<longleftrightarrow> (\<forall>r \<in> set (pair_runs db). py_strip (p_name r) \<noteq> [])"

definition ever_marked :: "string \<Rightarrow> jobs_db \<Rightarrow> bool" where
  "ever_marked key db \<longleftrightarrow> (\<exists>m. marker key db = Some m \<and> h_ever m)"

lemma record_marker_ever:
  assumes "py_strip key = key" and "key \<noteq> []" and "py_strip name \<noteq> []"
  shows "ever_marked key (record_marker key name seen tm sa db)"
  using assms by (auto simp: ever_marked_def marker_def record_marker_def fetch_record_history Let_def
      hist_merge_fields split: option.split)

lemma adopt_legacy_ever:
  assumes "adopt_legacy key name legacy_key db = Some db1" and "py_strip key = key" and "key \<noteq> []"
    and "py_strip name \<noteq> []"
  shows "ever_marked key db1"
  using assms by (auto simp: adopt_legacy_def record_marker_ever split: option.splits if_splits)

text \<open>The verdict by cases, with the names and keys already stripped.\<close>

lemma baseline_cases:
  assumes "pair_baseline_state n k db = (db1, v)" and "name = py_strip n" and "key = baseline_key name k"
  obtains (blank) "name = [] \<or> key = []" "db1 = db" "v = BaseAmbiguous"
  | (ever) m where "name \<noteq> []" "key \<noteq> []" "marker key db = Some m" "h_ever m" "db1 = db" "v = BaseSucceeded"
  | (run) r where "name \<noteq> []" "key \<noteq> []" "latest_run (\<lambda>r. p_hist r = key \<and> pair_good r) (pair_runs db) = Some r"
      "db1 = record_marker key (if p_name r = [] then name else p_name r) (pair_seen r) True (pair_seen r) db"
      "v = BaseSucceeded"
  | (old) "name \<noteq> []" "key \<noteq> []" "adopt_legacy key name (default_history_key [] name) db = Some db1"
      "v = BaseSucceeded"
  | (unknown) "name \<noteq> []" "key \<noteq> []" "\<not> (case marker key db of None \<Rightarrow> False | Some m \<Rightarrow> h_ever m)"
      "latest_run (\<lambda>r. p_hist r = key \<and> pair_good r) (pair_runs db) = None"
      "key \<noteq> default_history_key [] name \<Longrightarrow> adopt_legacy key name (default_history_key [] name) db = None"
      "db1 = db" "v = (if terminal_known key name (default_history_key [] name) db then BaseAmbiguous else BaseNew)"
proof -
  define l where "l = default_history_key [] name"
  define run where "run = latest_run (\<lambda>r. p_hist r = key \<and> pair_good r) (pair_runs db)"
  have eq: "(db1, v) = (if name = [] \<or> key = [] then (db, BaseAmbiguous)
      else if (case marker key db of None \<Rightarrow> False | Some m \<Rightarrow> h_ever m) then (db, BaseSucceeded)
      else case run of
        Some r \<Rightarrow> (record_marker key (if p_name r = [] then name else p_name r) (pair_seen r) True (pair_seen r) db,
                   BaseSucceeded)
      | None \<Rightarrow> (case (if key \<noteq> l then adopt_legacy key name l db else None) of
            Some db1 \<Rightarrow> (db1, BaseSucceeded)
          | None \<Rightarrow> (db, if terminal_known key name l db then BaseAmbiguous else BaseNew)))"
    unfolding assms(1) [symmetric] pair_baseline_state_def Let_def assms(2,3) l_def run_def by (rule refl)
  show ?thesis
  proof (cases "name = [] \<or> key = []")
    case True with eq show ?thesis by (intro that(1)) simp_all
  next
    case ne: False
    show ?thesis
    proof (cases "case marker key db of None \<Rightarrow> False | Some m \<Rightarrow> h_ever m")
      case True
      with ne eq show ?thesis by (cases "marker key db") (auto intro: that(2))
    next
      case nm: False
      show ?thesis
      proof (cases run)
        case (Some r)
        with ne nm eq have "(db1, v) = (record_marker key (if p_name r = [] then name else p_name r)
            (pair_seen r) True (pair_seen r) db, BaseSucceeded)" by simp
        with ne Some show ?thesis by (intro that(3)) (simp_all add: run_def)
      next
        case None
        show ?thesis
        proof (cases "if key \<noteq> l then adopt_legacy key name l db else None")
          case some: (Some d)
          with ne nm None eq have "db1 = d" "v = BaseSucceeded" by simp_all
          with some ne show ?thesis by (intro that(4)) (simp_all add: l_def split: if_splits)
        next
          case none: None
          with ne nm None eq have "db1 = db" "v = (if terminal_known key name l db then BaseAmbiguous else BaseNew)"
            by simp_all
          moreover have "adopt_legacy key name l db = None" if "key \<noteq> l" using none that by simp
          ultimately show ?thesis using ne nm None by (intro that(5)) (simp_all add: l_def run_def)
        qed
      qed
    qed
  qed
qed

lemma baseline_succeeded_ever:
  assumes "pair_baseline_state n k db = (db1, BaseSucceeded)" and "named_runs db"
  shows "py_strip n \<noteq> [] \<and> baseline_key (py_strip n) k \<noteq> [] \<and> ever_marked (baseline_key (py_strip n) k) db1"
proof -
  have strip: "py_strip (baseline_key (py_strip n) k) = baseline_key (py_strip n) k"
    by (simp add: baseline_key_def)
  show ?thesis
    using assms(1) refl refl
  proof (cases rule: baseline_cases)
    case ever then show ?thesis by (simp add: ever_marked_def)
  next
    case (run r)
    with latest_run_Some [OF run(3)] assms(2) have "py_strip (p_name r) \<noteq> []" by (simp add: named_runs_def)
    then have "p_name r \<noteq> []" by (auto simp: py_strip_def)
    with run strip \<open>py_strip (p_name r) \<noteq> []\<close> show ?thesis by (simp add: record_marker_ever)
  next
    case old with strip show ?thesis by (simp add: adopt_legacy_ever)
  qed (simp_all split: if_splits)
qed

lemma ever_marked_grows: "ever_marked key db \<Longrightarrow> hist_grows db db' \<Longrightarrow> ever_marked key db'"
  unfolding ever_marked_def marker_def hist_grows_def markers_grow_def by blast

text \<open>C31: once the store has answered that a path succeeded, no later operation of the job
  store, pruning and deletion of its jobs included, makes it forget: the answer stays, so an
  initial resync is never started a second time by itself.\<close>

theorem success_evidence_survives:
  assumes "pair_baseline_state n k db = (db1, BaseSucceeded)" and "named_runs db" and "job_steps db1 db2"
  shows "pair_baseline_state n k db2 = (db2, BaseSucceeded)"
proof -
  have "ever_marked (baseline_key (py_strip n) k) db2"
    using baseline_succeeded_ever [OF assms(1,2)] steps_grow [OF assms(3)] ever_marked_grows by blast
  with baseline_succeeded_ever [OF assms(1,2)] show ?thesis
    by (auto simp: pair_baseline_state_def Let_def ever_marked_def)
qed

text \<open>The verdict that lets an initial resync run by itself is given only when the store
  holds no success and no finished attempt of the path, neither under its stable key nor under
  the key made from its name; asking changes nothing.\<close>

theorem new_baseline_has_no_history:
  assumes "pair_baseline_state n k db = (db1, BaseNew)"
    and "name = py_strip n" and "key = baseline_key name k"
    and "r \<in> set (pair_runs db)"
    and "p_hist r = key \<or> key \<noteq> default_history_key [] name \<and> p_name r = name \<and>
      p_hist r \<in> {[], default_history_key [] name}"
  shows "db1 = db \<and> \<not> pair_good r \<and> (p_hist r = key \<longrightarrow> p_status r = JRunning \<and> p_ended r = None) \<and>
    (\<forall>m. marker key db = Some m \<longrightarrow> \<not> h_ever m \<and> \<not> h_terminal m)"
  using assms(1-3)
proof (cases rule: baseline_cases)
  case unknown
  define l where "l = default_history_key [] name"
  have nt: "\<not> terminal_known key name l db" using unknown(7) by (auto simp: l_def split: if_splits)
  have "\<not> pair_good r"
  proof (cases "p_hist r = key")
    case True with unknown(4) assms(4) show ?thesis by (simp add: latest_run_None)
  next
    case False
    with assms(5) have r: "key \<noteq> l" "p_name r = name" "p_hist r \<in> {[], l}" by (simp_all add: l_def)
    with unknown(5) have "latest_run (\<lambda>r. p_name r = name \<and> p_hist r \<in> {[], l} \<and> pair_good r) (pair_runs db) = None"
      by (simp add: adopt_legacy_def l_def split: option.splits if_splits)
    with assms(4) r show ?thesis by (auto simp: latest_run_None)
  qed
  moreover have "p_hist r = key \<longrightarrow> p_status r = JRunning \<and> p_ended r = None"
    using nt assms(4) by (auto simp: terminal_known_def terminal_run_def)
  moreover have "\<forall>m. marker key db = Some m \<longrightarrow> \<not> h_ever m \<and> \<not> h_terminal m"
    using nt unknown(3) by (simp add: terminal_known_def split: option.splits)
  ultimately show ?thesis using unknown(6) by blast
qed simp_all

subsection \<open>Concrete stores\<close>

definition demo_attempt :: "bool \<Rightarrow> job_status \<Rightarrow> real option \<Rightarrow> pair_row" where
  "demo_attempt ok st ended = \<lparr>p_id = 1, p_job = 1, p_name = ''daten'', p_hist = ''rclone:1'', p_ok = ok,
     p_dry = False, p_status = st, p_started = 100, p_ended = ended, p_slot = None, p_result = PDict []\<rparr>"

definition demo_good :: jobs_db where
  "demo_good = empty_jobs_db\<lparr>pair_runs := [demo_attempt True JOk (Some 200)]\<rparr>"

theorem success_evidence_survives_witness:
  "\<exists>db1 db2. pair_baseline_state ''daten'' ''rclone:1'' demo_good = (db1, BaseSucceeded) \<and>
     db2 = fst (jobs_prune 30 5 300 db1) \<and> pair_baseline_state ''daten'' ''rclone:1'' db2 = (db2, BaseSucceeded)"
proof -
  define db1 where "db1 = fst (pair_baseline_state ''daten'' ''rclone:1'' demo_good)"
  have "snd (pair_baseline_state ''daten'' ''rclone:1'' demo_good) = BaseSucceeded" by code_simp
  then have v: "pair_baseline_state ''daten'' ''rclone:1'' demo_good = (db1, BaseSucceeded)"
    by (simp add: db1_def prod_eq_iff)
  have n: "named_runs demo_good" by code_simp
  have "job_step db1 (fst (jobs_prune 30 5 300 db1))" by (rule step_prune) (rule prod.collapse [symmetric])
  then have "job_steps db1 (fst (jobs_prune 30 5 300 db1))" by (rule r_into_rtranclp)
  from success_evidence_survives [OF v n this] v show ?thesis by blast
qed

theorem new_baseline_has_no_history_witness:
  "\<exists>db. db = empty_jobs_db\<lparr>pair_runs := [demo_attempt False JRunning None]\<rparr> \<and>
     snd (pair_baseline_state ''daten'' ''rclone:1'' db) = BaseNew \<and> \<not> pair_good (demo_attempt False JRunning None)"
proof -
  define db where "db = empty_jobs_db\<lparr>pair_runs := [demo_attempt False JRunning None]\<rparr>"
  have n: "snd (pair_baseline_state ''daten'' ''rclone:1'' db) = BaseNew" unfolding db_def by code_simp
  then have v: "pair_baseline_state ''daten'' ''rclone:1'' db =
      (fst (pair_baseline_state ''daten'' ''rclone:1'' db), BaseNew)"
    by (simp add: prod_eq_iff)
  have k: "p_hist (demo_attempt False JRunning None) = baseline_key (py_strip ''daten'') ''rclone:1''" by code_simp
  have "demo_attempt False JRunning None \<in> set (pair_runs db)" by (simp add: db_def)
  from new_baseline_has_no_history [OF v refl refl this disjI1 [OF k]] n show ?thesis
    unfolding db_def by blast
qed

end
