(* ===== verification/Job_Definitions.thy ===== *)
theory Job_Definitions
  imports Py_Sequence
begin

text \<open>
  \<open>app/job_definitions.py\<close>: the job definitions of the configuration, their derivation from a
  configuration of the old form, and the data paths they name. A configuration is the
  dictionary that \<open>snapshot()\<close> returns; copying it is the identity here. \<open>uid\<close> stands for
  \<open>uuid.uuid5(NAMESPACE_URL, ..).hex\<close>.
\<close>

definition default_schedule :: string where "default_schedule = ''0 3 * * *''"
definition default_retry_minutes :: int where "default_retry_minutes = 60"

definition disabled_schedules :: "string list" where
  "disabled_schedules = [[], ''off'', ''manual'', ''disabled'', ''none'']"

definition true_words :: "string list" where
  "true_words = [''1'', ''true'', ''yes'', ''on'', ''ja'']"

definition false_words :: "string list" where
  "false_words = [''0'', ''false'', ''no'', ''off'', ''nein'', []]"

definition as_bool :: "pyval \<Rightarrow> bool \<Rightarrow> bool" where
  "as_bool v dflt =
     (case v of
        PBool b \<Rightarrow> b
      | PNone \<Rightarrow> dflt
      | PInt i \<Rightarrow> i \<noteq> 0
      | PFloat r \<Rightarrow> r \<noteq> 0
      | PNonFin _ \<Rightarrow> True
      | _ \<Rightarrow> (let t = py_casefold (py_strip (py_str v)) in
             if t \<in> set true_words then True else if t \<in> set false_words then False else dflt))"

fun snapshot_of :: "pyval \<Rightarrow> pydict" where
  "snapshot_of (PDict d) = d"
| "snapshot_of _ = []"

definition nul :: string where "nul = [char_of (0 :: nat)]"

definition stable_job_id :: "(string \<Rightarrow> string) \<Rightarrow> string \<Rightarrow> string list \<Rightarrow> string" where
  "stable_job_id uid name ids = uid (py_join nul (''rclone-job'' # py_casefold (py_strip name) # ids))"

definition pair_mode :: "pydict \<Rightarrow> string" where
  "pair_mode pair =
     (let direction = direction_of pair in
      if direction = ''bisync'' then ''bisync''
      else py_lower (py_strip (str_or (py_get pair ''mode'') ''copy'')))"

definition stable_data_path_id :: "(string \<Rightarrow> string) \<Rightarrow> pydict \<Rightarrow> string" where
  "stable_data_path_id uid pair =
     (let existing = py_lower (text_of (py_get pair ''id'')) in
      if existing \<noteq> [] then existing
      else uid (py_join nul [''rclone'', py_casefold (text_of (py_get pair ''name'')),
             text_of (py_get pair ''remote''), text_of (py_get pair ''local''),
             direction_of pair, pair_mode pair]))"

subsection \<open>The effective definitions\<close>

text \<open>\<open>int(..)\<close> falls back on \<open>TypeError\<close> and \<open>ValueError\<close>; an overflow is raised.\<close>

definition legacy_retry_minutes :: "pydict \<Rightarrow> int result" where
  "legacy_retry_minutes backup =
     (case py_int (py_or (py_get backup ''scheduler_retry_minutes'') (PInt 60)) of
        Inr i \<Rightarrow> Inr (clamp 1 10080 i)
      | Inl OverflowError \<Rightarrow> Inl OverflowError
      | Inl _ \<Rightarrow> Inr (clamp 1 10080 default_retry_minutes))"

definition legacy_definition :: "(string \<Rightarrow> string) \<Rightarrow> string \<Rightarrow> int \<Rightarrow> pydict \<Rightarrow> pydict" where
  "legacy_definition uid schedule0 retry raw =
     (let pair_id = stable_data_path_id uid raw;
          name = text_of (py_get raw ''name'');
          own = text_of (py_get raw ''schedule'')
      in [(''id'', PStr (stable_job_id uid name [pair_id])),
          (''name'', PStr name),
          (''enabled'', py_get_default raw ''enabled'' (PBool True)),
          (''data_path_ids'', PList [PStr pair_id]),
          (''schedule'', PStr (if own \<noteq> [] then own else schedule0)),
          (''execution_mode'', PStr ''sequential''),
          (''max_parallel'', PInt 1),
          (''retry_minutes'', PInt retry)])"

definition legacy_job_definitions :: "(string \<Rightarrow> string) \<Rightarrow> pydict \<Rightarrow> pydict list result" where
  "legacy_job_definitions uid backup =
     (let schedule0 = py_strip (str_or (py_get backup ''default_schedule'') default_schedule) in
      bind_result (legacy_retry_minutes backup) (\<lambda>retry.
      bind_result (iter_or_empty (py_get backup ''pairs'')) (\<lambda>raws.
        Inr (map (legacy_definition uid schedule0 retry) (mappings raws)))))"

definition effective_job_definitions :: "(string \<Rightarrow> string) \<Rightarrow> pyval \<Rightarrow> pydict list result" where
  "effective_job_definitions uid config =
     (case section_of (snapshot_of config) ''backup'' of
        PDict backup \<Rightarrow>
          (if has_key backup ''jobs'' then
             bind_result (iter_or_empty (py_get backup ''jobs'')) (\<lambda>vs. Inr (mappings vs))
           else legacy_job_definitions uid backup)
      | _ \<Rightarrow> Inr [])"

subsection \<open>Data paths\<close>

definition index_paths :: "(string \<Rightarrow> string) \<Rightarrow> pydict list \<Rightarrow> (string \<times> pydict) list" where
  "index_paths uid pairs = map (\<lambda>p. (stable_data_path_id uid p, p)) pairs"

text \<open>A dictionary built from key-value pairs: the last pair with a key wins.\<close>

definition last_of :: "(string \<times> 'a) list \<Rightarrow> string \<Rightarrow> 'a option" where
  "last_of kvs k = map_of (rev kvs) k"

definition data_paths_by_id :: "(string \<Rightarrow> string) \<Rightarrow> pyval \<Rightarrow> (string \<times> pydict) list result" where
  "data_paths_by_id uid config =
     (case section_of (snapshot_of config) ''backup'' of
        PDict backup \<Rightarrow>
          bind_result (iter_or_empty (py_get backup ''pairs'')) (\<lambda>vs. Inr (index_paths uid (mappings vs)))
      | _ \<Rightarrow> Inr [])"

definition definition_history_key :: "pydict \<Rightarrow> string" where
  "definition_history_key d = ''jobdef:id:'' @ text_of (py_get d ''id'')"

definition path_ids :: "pydict \<Rightarrow> string list result" where
  "path_ids d = bind_result (iter_or_empty (py_get d ''data_path_ids'')) (\<lambda>vs. Inr (map text_of vs))"

definition is_automatic :: "pydict \<Rightarrow> bool" where
  "is_automatic d \<longleftrightarrow>
     as_bool (py_get_default d ''enabled'' (PBool True)) True \<and>
     py_casefold (py_strip (str_or (py_get d ''schedule'') ''manual'')) \<notin> set disabled_schedules"

definition scheduled_data_path_ids :: "(string \<Rightarrow> string) \<Rightarrow> pyval \<Rightarrow> string list result" where
  "scheduled_data_path_ids uid config =
     bind_result (effective_job_definitions uid config) (\<lambda>ds.
       bind_result (collect path_ids (filter is_automatic ds)) (\<lambda>idss.
         Inr (remdups (filter (\<lambda>i. i \<noteq> []) (concat idss)))))"

definition definition_pairs :: "(string \<Rightarrow> string) \<Rightarrow> pyval \<Rightarrow> pydict \<Rightarrow> pydict list result" where
  "definition_pairs uid config d =
     bind_result (data_paths_by_id uid config) (\<lambda>indexed.
       bind_result (path_ids d) (\<lambda>ids.
         Inr (map (\<lambda>i. the (last_of indexed i)) (filter (\<lambda>i. last_of indexed i \<noteq> None) ids))))"

subsection \<open>Lemmas\<close>

lemma is_space_lower [simp]: "is_space (lower_char c) = is_space c"
proof (cases "65 \<le> code_of c \<and> code_of c \<le> 90")
  case True
  then have "code_of (lower_char c) = code_of c + 32"
    by (simp add: lower_char_def code_of_def)
  with True show ?thesis by (simp add: is_space_def)
qed (auto simp: lower_char_def)

lemma py_strip_lower: "py_strip (py_lower s) = py_lower (py_strip s)"
  by (simp add: py_strip_def py_lower_def dropWhile_map rev_map comp_def)

lemma text_of_stripped [simp]: "py_strip (text_of v) = text_of v"
  by (simp add: text_of_def)

text \<open>What the model relies on of the digests \<open>uid\<close>: hexadecimal text has no blanks and is not empty.\<close>

definition blank_free :: "(string \<Rightarrow> string) \<Rightarrow> bool" where
  "blank_free uid \<longleftrightarrow> (\<forall>s. py_strip (uid s) = uid s \<and> uid s \<noteq> [])"

lemma stable_id_stripped:
  "blank_free uid \<Longrightarrow> py_strip (stable_data_path_id uid p) = stable_data_path_id uid p"
  by (simp add: stable_data_path_id_def blank_free_def py_strip_lower Let_def)

lemma stable_id_nonempty: "blank_free uid \<Longrightarrow> stable_data_path_id uid p \<noteq> []"
  by (auto simp: stable_data_path_id_def blank_free_def Let_def)

lemma last_of_distinct:
  "distinct (map fst kvs) \<Longrightarrow> (k, v) \<in> set kvs \<Longrightarrow> last_of kvs k = Some v"
  unfolding last_of_def by (rule map_of_is_SomeI) (simp_all add: rev_map [symmetric])

lemma last_of_Some: "last_of kvs k = Some v \<Longrightarrow> (k, v) \<in> set kvs"
  unfolding last_of_def using map_of_SomeD by fastforce

lemma path_ids_legacy:
  "blank_free uid \<Longrightarrow> path_ids (legacy_definition uid s0 r p) = Inr [stable_data_path_id uid p]"
  by (simp add: path_ids_def legacy_definition_def Let_def py_get_def stable_id_stripped)

lemma scheduled_id_has_definition:
  assumes "scheduled_data_path_ids uid config = Inr ids" and "i \<in> set ids"
  shows "\<exists>ds d is. effective_job_definitions uid config = Inr ds \<and> d \<in> set ds \<and> is_automatic d \<and>
    path_ids d = Inr is \<and> i \<in> set is \<and> i \<noteq> []"
proof -
  obtain ds idss where ds: "effective_job_definitions uid config = Inr ds"
    and idss: "collect path_ids (filter is_automatic ds) = Inr idss"
    and ids: "ids = remdups (filter (\<lambda>i. i \<noteq> []) (concat idss))"
    using assms(1) by (auto simp: scheduled_data_path_ids_def)
  from ids assms(2) obtain xs where xs: "xs \<in> set idss" "i \<in> set xs" "i \<noteq> []" by auto
  from collect_member [OF idss xs(1)] obtain d where "d \<in> set (filter is_automatic ds)" "path_ids d = Inr xs"
    by blast
  with ds xs show ?thesis by auto
qed

text \<open>The migration of a configuration of the old form is faithful. Without a \<open>jobs\<close> key, every
  data path of the configuration gets exactly one job definition, in the same order, and the definition
  resolves to this data path and to no other, as long as the paths have distinct ids.\<close>

theorem legacy_definition_names_its_path:
  assumes "blank_free uid" and "py_get cfg ''backup'' = PDict backup" and "\<not> has_key backup ''jobs''"
    and "py_get backup ''pairs'' = PList vs" and "distinct (map (stable_data_path_id uid) (mappings vs))"
    and "effective_job_definitions uid (PDict cfg) = Inr ds"
  shows "length ds = length (mappings vs) \<and>
    (\<forall>i < length ds. definition_pairs uid (PDict cfg) (ds ! i) = Inr [mappings vs ! i])"
proof -
  have "py_get backup ''pairs'' = PNone" if "backup = []" using that by (simp add: py_get_def)
  then have b: "section_of cfg ''backup'' = PDict backup"
    using assms(2,4) by (auto simp: section_of_def py_or_def)
  obtain s0 r where ds: "ds = map (legacy_definition uid s0 r) (mappings vs)"
    using assms(3,4,6) b
    by (auto simp: effective_job_definitions_def legacy_job_definitions_def Let_def split: if_splits)
  have idx: "data_paths_by_id uid (PDict cfg) = Inr (index_paths uid (mappings vs))"
    using b assms(4) by (simp add: data_paths_by_id_def)
  have "last_of (index_paths uid (mappings vs)) (stable_data_path_id uid (mappings vs ! i)) = Some (mappings vs ! i)"
    if "i < length (mappings vs)" for i
    by (rule last_of_distinct) (use that assms(5) in \<open>auto simp: index_paths_def comp_def\<close>)
  then show ?thesis
    using assms(1) by (simp add: ds definition_pairs_def idx path_ids_legacy)
qed

definition demo_path :: "string \<Rightarrow> pydict" where
  "demo_path name = [(''name'', PStr name), (''remote'', PStr (''cloud:'' @ name)), (''local'', PStr (''/daten/'' @ name))]"

theorem legacy_definition_names_its_path_witness:
  "\<exists>ds. effective_job_definitions (\<lambda>s. ''x'' @ map (\<lambda>c. if is_space c then CHR ''_'' else c) s)
      (PDict [(''backup'', PDict [(''pairs'', PList [PDict (demo_path ''a''), PNone, PDict (demo_path ''b'')])])]) = Inr ds \<and>
    length ds = 2 \<and> definition_pairs (\<lambda>s. ''x'' @ map (\<lambda>c. if is_space c then CHR ''_'' else c) s)
      (PDict [(''backup'', PDict [(''pairs'', PList [PDict (demo_path ''a''), PNone, PDict (demo_path ''b'')])])]) (ds ! 1)
      = Inr [demo_path ''b'']"
proof -
  let ?uid = "\<lambda>s. ''x'' @ map (\<lambda>c. if is_space c then CHR ''_'' else c) s"
  let ?vs = "[PDict (demo_path ''a''), PNone, PDict (demo_path ''b'')]"
  let ?cfg = "[(''backup'', PDict [(''pairs'', PList ?vs)])]"
  have sp: "\<not> is_space (CHR ''_'')" "\<not> is_space (CHR ''x'')"
    by (simp_all add: is_space_def code_of_def)
  have no: "dropWhile is_space xs = xs" if "\<forall>c \<in> set xs. \<not> is_space c" for xs
    using that by (cases xs) auto
  have uid: "blank_free ?uid"
  proof -
    have "\<forall>c \<in> set (?uid t). \<not> is_space c" for t using sp by (auto split: if_splits)
    then have plain: "\<forall>c \<in> set (rev (?uid t)). \<not> is_space c" "\<forall>c \<in> set (?uid t). \<not> is_space c" for t
      unfolding set_rev by blast+
    have "py_strip (?uid t) = ?uid t" for t
      unfolding py_strip_def no [OF plain(2)] no [OF plain(1)] by (rule rev_rev_ident)
    then show ?thesis unfolding blank_free_def by simp
  qed
  have ids: "distinct (map (stable_data_path_id ?uid) (mappings ?vs))" by code_simp
  obtain ds where ds: "effective_job_definitions ?uid (PDict ?cfg) = Inr ds"
    by (simp add: effective_job_definitions_def section_of_def py_or_def py_get_def has_key_def
        legacy_job_definitions_def legacy_retry_minutes_def Let_def)
  have len: "length (mappings ?vs) = 2" "mappings ?vs ! 1 = demo_path ''b''" by (simp_all add: mappings_def)
  from legacy_definition_names_its_path [OF uid _ _ _ ids ds, of "[(''pairs'', PList ?vs)]"] len ds
  show ?thesis by (auto simp: py_get_def has_key_def)
qed

end
