(* ===== verification/Due_Evaluation.thy ===== *)
theory Due_Evaluation
  imports Job_Definitions History_Reads "HOL-Library.List_Lexorder" "HOL-Library.Char_ord"
begin

text \<open>
  \<open>app/jobs/scheduler.py\<close>: when a schedule is due. The cron library, the time zone data base and the
  hash are parameters of the model, gathered in one record; an exception of the cron library is an
  error value. An attribute access on a value of the wrong class is \<open>TypeError\<close> here. A handler
  \<open>except Exception\<close> passes \<open>NonFinite\<close> on, since the model does not compute with infinities.
\<close>

record sched_env =
  env_valid :: "string \<Rightarrow> bool"
  env_zone :: "string \<Rightarrow> bool"
  env_next :: "string \<Rightarrow> string \<Rightarrow> real \<Rightarrow> real result"
  env_prev :: "string \<Rightarrow> string \<Rightarrow> real \<Rightarrow> real result"
  env_wall :: "string \<Rightarrow> real \<Rightarrow> string"
  env_message :: "pyerr \<Rightarrow> string"
  env_digest :: "string \<Rightarrow> string"
  env_uid :: "string \<Rightarrow> string"

definition default_timezone :: string where "default_timezone = ''Europe/Berlin''"

definition is_disabled :: "string \<Rightarrow> bool" where
  "is_disabled schedule \<longleftrightarrow> schedule = [] \<or> py_lower (py_strip schedule) \<in> set disabled_schedules"

definition is_valid_schedule :: "sched_env \<Rightarrow> string \<Rightarrow> bool" where
  "is_valid_schedule env schedule \<longleftrightarrow> length (py_words schedule) = 5 \<and> env_valid env schedule"

definition timezone :: "sched_env \<Rightarrow> string \<Rightarrow> string" where
  "timezone env name =
     (let n = (if name = [] then default_timezone else name)
      in if env_zone env n then n else default_timezone)"

subsection \<open>Stable keys of the history\<close>

fun json_compact :: "pyval \<Rightarrow> string" where
  "json_compact (PList xs) = ''['' @ py_join '','' (map json_compact xs) @ '']''"
| "json_compact (PDict d) =
     ''{'' @ py_join '','' (map (\<lambda>kv. json_string (fst kv) @ '':'' @ json_compact (snd kv)) d) @ ''}''"
| "json_compact v = json_dumps v"

definition digest_identity :: "sched_env \<Rightarrow> string \<Rightarrow> pydict \<Rightarrow> string" where
  "digest_identity env kind payload =
     kind @ '':fp:'' @ env_digest env (json_compact (PDict (sort_key fst payload)))"

definition trimmed :: "pyval \<Rightarrow> string" where
  "trimmed v = rstrip_char (CHR ''/'') (text_of v)"

definition rclone_history_key :: "sched_env \<Rightarrow> pydict \<Rightarrow> string" where
  "rclone_history_key env pair =
     (let stable = text_of (py_get pair ''id'');
          remote = trimmed (py_get pair ''remote'');
          local = trimmed (py_get pair ''local'')
      in if stable \<noteq> [] then ''rclone:id:'' @ stable
         else if remote \<noteq> [] \<or> local \<noteq> [] then
           digest_identity env ''rclone''
             [(''remote'', PStr remote), (''local'', PStr local),
              (''direction'', PStr (py_lower (py_strip (str_or (py_get pair ''direction'') ''bisync'')))),
              (''mode'', PStr (py_lower (py_strip (str_or (py_get pair ''mode'') ''bisync''))))]
         else ''rclone:name:'' @ py_casefold (text_of (py_get pair ''name'')))"

definition target_paths :: "pydict \<Rightarrow> string list result" where
  "target_paths target =
     bind_result (iter_or_empty (py_get target ''paths'')) (\<lambda>vs.
       Inr (sort (map (\<lambda>v. rstrip_char (CHR ''/'') (py_strip (py_str v)))
                  (filter (\<lambda>v. py_strip (py_str v) \<noteq> []) vs))))"

definition own_or_common :: "pydict \<Rightarrow> pydict \<Rightarrow> string \<Rightarrow> string" where
  "own_or_common target settings k = text_of (py_or (py_get target k) (py_get settings k))"

definition pbs_history_key :: "sched_env \<Rightarrow> pydict \<Rightarrow> pydict \<Rightarrow> string result" where
  "pbs_history_key env settings target =
     (let stable = text_of (py_get target ''id'') in
      if stable \<noteq> [] then Inr (''pbs:id:'' @ stable)
      else bind_result (target_paths target) (\<lambda>paths.
        if paths \<noteq> [] then
          Inr (digest_identity env ''pbs''
            [(''repository'', PStr (text_of (py_get settings ''repository''))),
             (''namespace'', PStr (own_or_common target settings ''namespace'')),
             (''backup_id'', PStr (own_or_common target settings ''backup_id'')),
             (''paths'', PList (map PStr paths))])
        else Inr (''pbs:name:'' @ py_casefold (text_of (py_get target ''name'')))))"

subsection \<open>Occurrences and local slots\<close>

definition next_after :: "sched_env \<Rightarrow> string \<Rightarrow> real \<Rightarrow> string \<Rightarrow> real result" where
  "next_after env schedule after tz = env_next env schedule tz after"

definition previous_before :: "sched_env \<Rightarrow> string \<Rightarrow> real \<Rightarrow> string \<Rightarrow> real result" where
  "previous_before env schedule now tz = env_prev env schedule tz now"

definition slot_key :: "sched_env \<Rightarrow> string \<Rightarrow> real \<Rightarrow> string \<Rightarrow> string \<Rightarrow> string" where
  "slot_key env schedule occurrence tz timezone_name =
     ''v1|'' @ timezone_name @ ''|'' @ py_join '' '' (py_words schedule) @ ''|'' @ env_wall env tz occurrence"

record timing =
  g_zone :: string
  g_retry :: int
  g_grace :: int
  g_first :: bool
  g_now :: real

record slot_answer =
  w_due :: bool
  w_slot :: "string option"
  w_at :: "real option"

definition due_slot :: "sched_env \<Rightarrow> timing \<Rightarrow> string \<Rightarrow> real option \<Rightarrow> slot_answer result" where
  "due_slot env g schedule last_run =
     (if \<not> is_valid_schedule env schedule then Inr \<lparr>w_due = False, w_slot = None, w_at = None\<rparr>
      else (let tz = timezone env (g_zone g);
                answer = (\<lambda>due occ. Inr \<lparr>w_due = due,
                  w_slot = (if due then Some (slot_key env schedule occ tz (g_zone g)) else None), w_at = Some occ\<rparr>)
            in case last_run of
                 None \<Rightarrow> bind_result (previous_before env schedule (g_now g + 1) tz) (\<lambda>occ.
                   answer (g_first g \<or> (0 \<le> g_now g - occ \<and> g_now g - occ \<le> of_int (max 1 (g_grace g) * 60))) occ)
               | Some t \<Rightarrow> bind_result (next_after env schedule t tz) (\<lambda>occ. answer (occ \<le> g_now g) occ)))"

definition is_due :: "sched_env \<Rightarrow> timing \<Rightarrow> string \<Rightarrow> real option \<Rightarrow> bool result" where
  "is_due env g schedule last_run =
     (if \<not> is_valid_schedule env schedule then Inr False
      else bind_result (due_slot env g schedule last_run) (\<lambda>a. Inr (w_due a)))"

definition next_run_after :: "sched_env \<Rightarrow> string \<Rightarrow> real \<Rightarrow> string \<Rightarrow> real option result" where
  "next_run_after env schedule after timezone_name =
     (if is_disabled schedule \<or> \<not> is_valid_schedule env schedule then Inr None
      else bind_result (env_next env schedule (timezone env timezone_name) after) (\<lambda>r. Inr (Some r)))"

subsection \<open>One schedule with its history\<close>

definition sub_dict :: "pydict \<Rightarrow> string \<Rightarrow> pydict result" where
  "sub_dict d k = (case py_or (py_get d k) (PDict []) of PDict e \<Rightarrow> Inr e | _ \<Rightarrow> Inl TypeError)"

definition attempt_context :: "pydict \<Rightarrow> pydict" where
  "attempt_context attempt =
     (let s = as_dict (py_or (py_get attempt ''summary'') (PDict []))
      in if s = [] then as_dict (py_or (py_get attempt ''pair'') (PDict [])) else s)"

record attempt_view =
  a_success :: "real option"
  a_attempt :: pydict
  a_ts :: real

definition view_history :: "pydict \<Rightarrow> attempt_view result" where
  "view_history history =
     bind_result (sub_dict history ''last_success'') (\<lambda>success.
     bind_result (sub_dict history ''last_result'') (\<lambda>attempt.
     bind_result (if truthy (py_get success ''ended_at'')
                  then bind_result (py_float (py_get success ''ended_at'')) (\<lambda>r. Inr (Some r)) else Inr None) (\<lambda>ok_at.
     bind_result (py_float (py_or (py_or (py_get attempt ''ended_at'') (py_get attempt ''started_at'')) (PInt 0))) (\<lambda>ts.
       Inr \<lparr>a_success = ok_at, a_attempt = attempt, a_ts = ts\<rparr>))))"

definition by_scheduler :: "pydict \<Rightarrow> bool" where
  "by_scheduler attempt \<longleftrightarrow>
     str_or (py_get attempt ''trigger'') [] = ''scheduler'' \<or>
     py_get (attempt_context attempt) ''trigger'' = PStr ''scheduler'' \<or>
     (truthy (py_get attempt ''definition_id'') \<and> truthy (py_get attempt ''scheduled_slot''))"

definition scheduled_failure :: "attempt_view \<Rightarrow> bool" where
  "scheduled_failure a \<longleftrightarrow>
     a_attempt a \<noteq> [] \<and> \<not> truthy (py_get (a_attempt a) ''ok'') \<and> by_scheduler (a_attempt a) \<and>
     (case a_success a of None \<Rightarrow> 0 | Some t \<Rightarrow> t) < a_ts a"

definition retry_due :: "timing \<Rightarrow> attempt_view \<Rightarrow> bool" where
  "retry_due g a \<longleftrightarrow> scheduled_failure a \<and> of_int (g_retry g) \<le> g_now g - a_ts a"

definition previous_slot :: "pydict \<Rightarrow> string" where
  "previous_slot attempt =
     (let s = str_or (py_get (attempt_context attempt) ''scheduled_slot'') []
      in if s = [] then str_or (py_get attempt ''scheduled_slot'') [] else s)"

text \<open>\<open>f"{r:.6f}"\<close>, rounding half to even.\<close>

definition six_digits :: "real \<Rightarrow> string" where
  "six_digits r =
     (let x = \<bar>r\<bar> * 1000000; k = nat \<lfloor>x\<rfloor>; rest = x - of_nat k;
          n = (if 1 / 2 < rest \<or> (rest = 1 / 2 \<and> odd k) then Suc k else k);
          body = show_nat (n div 1000000) @ ''.'' @ pad_left 6 (show_nat (n mod 1000000))
      in if r < 0 then CHR ''-'' # body else body)"

definition retry_slot :: "string \<Rightarrow> attempt_view \<Rightarrow> string" where
  "retry_slot history_key a =
     ''retry|'' @ history_key @ ''|'' @
       py_str (py_or (py_get (a_attempt a) ''job_id'') (PStr (six_digits (a_ts a))))"

record fold_scan =
  z_at :: real
  z_latest :: real
  z_repeated :: bool

text \<open>The scan over the absolute occurrences of one local slot, at most \<open>n\<close> further ones.\<close>

fun skip_folds :: "sched_env \<Rightarrow> string \<Rightarrow> string \<Rightarrow> string \<Rightarrow> string \<Rightarrow> nat \<Rightarrow> fold_scan \<Rightarrow> fold_scan result" where
  "skip_folds env schedule tz name slot 0 z = Inr z"
| "skip_folds env schedule tz name slot (Suc n) z =
     (if slot_key env schedule (z_at z) tz name \<noteq> slot then Inr z
      else bind_result (next_after env schedule (z_at z) tz) (\<lambda>occ.
        skip_folds env schedule tz name slot n \<lparr>z_at = occ, z_latest = z_at z, z_repeated = True\<rparr>))"

definition distinct_slot :: "sched_env \<Rightarrow> string \<Rightarrow> string \<Rightarrow> string \<Rightarrow> real \<Rightarrow> fold_scan result" where
  "distinct_slot env schedule name slot occ =
     (let tz = timezone env name in
      bind_result (next_after env schedule occ tz) (\<lambda>nx.
        skip_folds env schedule tz name slot 3 \<lparr>z_at = nx, z_latest = occ, z_repeated = False\<rparr>))"

definition retry_answer :: "string \<Rightarrow> attempt_view \<Rightarrow> pydict" where
  "retry_answer history_key a =
     [(''due'', PBool True), (''last_run'', of_real_opt (a_success a)), (''last_attempt'', PFloat (a_ts a)),
      (''scheduled_slot'', PStr (retry_slot history_key a)), (''reason'', PStr ''retry_after_failure'')]"

definition slot_dict :: "attempt_view \<Rightarrow> bool \<Rightarrow> real option \<Rightarrow> string option \<Rightarrow> pydict" where
  "slot_dict a due occ slot =
     [(''due'', PBool due), (''last_run'', of_real_opt (a_success a)), (''scheduled_at'', of_real_opt occ),
      (''scheduled_slot'', of_str_opt slot)] @
     (if a_success a = None \<and> \<not> due then [(''reason'', PStr ''waiting_for_first_schedule'')] else [])"

definition final_answer :: "timing \<Rightarrow> string \<Rightarrow> attempt_view \<Rightarrow> bool \<Rightarrow> real option \<Rightarrow> string option \<Rightarrow> pydict" where
  "final_answer g history_key a due occ slot =
     (if retry_due g a then retry_answer history_key a else slot_dict a due occ slot)"

definition attempted_answer :: "attempt_view \<Rightarrow> real \<Rightarrow> string \<Rightarrow> pydict" where
  "attempted_answer a occ slot =
     [(''due'', PBool False), (''last_run'', of_real_opt (a_success a)), (''last_attempt'', PFloat (a_ts a)),
      (''scheduled_at'', PFloat occ), (''scheduled_slot'', PStr slot), (''reason'', PStr ''slot_already_attempted'')]"

definition backoff_answer :: "timing \<Rightarrow> attempt_view \<Rightarrow> pydict" where
  "backoff_answer g a =
     [(''due'', PBool False), (''last_run'', of_real_opt (a_success a)), (''last_attempt'', PFloat (a_ts a)),
      (''reason'', PStr ''retry_backoff''), (''retry_at'', PFloat (a_ts a + of_int (g_retry g)))]"

definition repeated_slot :: "attempt_view \<Rightarrow> slot_answer \<Rightarrow> (real \<times> string) option" where
  "repeated_slot a w =
     (case (w_slot w, w_at w) of
        (Some slot, Some occ) \<Rightarrow>
          (if w_due w \<and> slot \<noteq> [] \<and> previous_slot (a_attempt a) = slot \<and> a_ts a \<noteq> 0 \<and> occ \<noteq> 0
           then Some (occ, slot) else None)
      | _ \<Rightarrow> None)"

definition after_repeated ::
  "sched_env \<Rightarrow> timing \<Rightarrow> string \<Rightarrow> string \<Rightarrow> attempt_view \<Rightarrow> real \<Rightarrow> string \<Rightarrow> pydict result" where
  "after_repeated env g schedule history_key a occ slot =
     bind_result (distinct_slot env schedule (g_zone g) slot occ) (\<lambda>z.
       if retry_due g a \<and> (\<not> z_repeated z \<or> z_latest z + 60 \<le> g_now g)
       then Inr (final_answer g history_key a False (Some occ) (Some slot))
       else if g_now g < z_at z then Inr (attempted_answer a occ slot)
       else Inr (final_answer g history_key a True (Some (z_at z))
              (Some (slot_key env schedule (z_at z) (timezone env (g_zone g)) (g_zone g)))))"

definition evaluate_due :: "sched_env \<Rightarrow> timing \<Rightarrow> string \<Rightarrow> string \<Rightarrow> pydict \<Rightarrow> pydict result" where
  "evaluate_due env g schedule history_key history =
     bind_result (view_history history) (\<lambda>a.
       if scheduled_failure a \<and> \<not> retry_due g a then Inr (backoff_answer g a)
       else bind_result (due_slot env g schedule (a_success a)) (\<lambda>w.
         case repeated_slot a w of
           Some (occ, slot) \<Rightarrow> after_repeated env g schedule history_key a occ slot
         | None \<Rightarrow> Inr (final_answer g history_key a (w_due w) (w_at w) (w_slot w))))"

end
