(* ===== verification/Due_Jobs.thy ===== *)
theory Due_Jobs
  imports Due_Evaluation
begin

text \<open>
  \<open>app/jobs/scheduler.py\<close>: which job definitions, PBS targets and restore drills are due, with the status
  entry of each. The configuration is the dictionary \<open>cfg\<close>. One entry that cannot be evaluated gets
  its error as its status and does not keep the others from running.
\<close>

text \<open>\<open>except Exception as exc\<close> around one entry.\<close>

fun guarded :: "'a result \<Rightarrow> (pyerr \<Rightarrow> 'a) \<Rightarrow> 'a result" where
  "guarded (Inl (NonFinite n)) h = Inl (NonFinite n)"
| "guarded (Inl e) h = Inr (h e)"
| "guarded (Inr x) h = Inr x"

definition timing_of :: "pydict \<Rightarrow> real \<Rightarrow> int \<Rightarrow> bool \<Rightarrow> timing" where
  "timing_of backup now retry first =
     \<lparr>g_zone = str_or (py_get backup ''timezone'') default_timezone, g_retry = retry,
      g_grace = bounded_int (py_get_default backup ''scheduler_grace_minutes'' (PInt 15)) 15 1 1440,
      g_first = first, g_now = now\<rparr>"

definition common_retry :: "pydict \<Rightarrow> int" where
  "common_retry backup =
     bounded_int (py_get_default backup ''scheduler_retry_minutes'' (PInt 60)) 60 1 10080 * 60"

definition due_dict :: "string \<Rightarrow> pydict" where
  "due_dict reason = [(''due'', PBool False), (''reason'', PStr reason)]"

definition failed_dict :: "sched_env \<Rightarrow> pyerr \<Rightarrow> pydict" where
  "failed_dict env e = [(''due'', PBool False), (''error'', PStr (env_message env e))]"

definition item_due :: "pydict \<Rightarrow> bool" where
  "item_due d \<longleftrightarrow> truthy (py_get d ''due'')"

definition due_names :: "pydict list \<Rightarrow> string list" where
  "due_names status = map (\<lambda>d. py_str (py_get d ''name'')) (filter item_due status)"

subsection \<open>Job definitions\<close>

definition load_job_history :: "jobs_db \<Rightarrow> pydict list \<Rightarrow> (string \<times> pydict) list" where
  "load_job_history db definitions =
     job_definition_schedule_state
       (filter (\<lambda>i. i \<noteq> []) (map (\<lambda>d. str_or (py_get d ''id'') []) definitions)) db"

definition history_for :: "(string \<times> pydict) list \<Rightarrow> string \<Rightarrow> string \<Rightarrow> pydict" where
  "history_for histories def_id key =
     (let own = (case map_of histories def_id of None \<Rightarrow> [] | Some d \<Rightarrow> d) in
      if own \<noteq> [] then own else (case map_of histories key of None \<Rightarrow> [] | Some d \<Rightarrow> d))"

definition job_base :: "pydict \<Rightarrow> pydict \<Rightarrow> pydict result" where
  "job_base backup d =
     bind_result (iter_or_empty (py_get d ''data_path_ids'')) (\<lambda>ids.
     bind_result (py_int (py_or (py_get d ''max_parallel'') (PInt 1))) (\<lambda>parallel.
     bind_result (py_int (py_or (py_or (py_get d ''retry_minutes'') (py_get backup ''scheduler_retry_minutes''))
       (PInt 60))) (\<lambda>retry.
       Inr [(''id'', PStr (text_of (py_get d ''id''))), (''definition_id'', PStr (text_of (py_get d ''id''))),
            (''name'', PStr (str_or (py_get d ''name'') ''?'')),
            (''history_key'', PStr (definition_history_key d)), (''data_path_ids'', PList ids),
            (''execution_mode'', py_get_default d ''execution_mode'' (PStr ''sequential'')),
            (''max_parallel'', PInt parallel), (''retry_minutes'', PInt retry)])))"

text \<open>\<open>paths.get(path_id)\<close>: a list or dictionary cannot be looked up.\<close>

definition path_of :: "(string \<times> pydict) list \<Rightarrow> pyval \<Rightarrow> pydict result" where
  "path_of paths v =
     (case v of
        PStr s \<Rightarrow> Inr (case last_of paths s of None \<Rightarrow> [] | Some p \<Rightarrow> p)
      | PList _ \<Rightarrow> Inl TypeError
      | PDict _ \<Rightarrow> Inl TypeError
      | _ \<Rightarrow> Inr [])"

definition path_enabled :: "pydict \<Rightarrow> bool" where
  "path_enabled p \<longleftrightarrow> p \<noteq> [] \<and> truthy (py_get_default p ''enabled'' (PBool True))"

definition job_retry :: "pydict \<Rightarrow> int" where
  "job_retry base =
     (case py_get base ''retry_minutes'' of PInt i \<Rightarrow> clamp 1 10080 i * 60 | _ \<Rightarrow> 60)"

definition job_item :: "sched_env \<Rightarrow> timing \<Rightarrow> string \<Rightarrow> string \<Rightarrow> pydict \<Rightarrow> pydict \<Rightarrow> pydict result" where
  "job_item env g schedule key history base =
     bind_result (evaluate_due env g schedule key history) (\<lambda>evaluation.
     bind_result (next_run_after env schedule (g_now g) (g_zone g)) (\<lambda>next_run.
       Inr (py_merge (py_merge base [(''schedule'', PStr schedule), (''timezone'', PStr (g_zone g)),
              (''next_run'', of_real_opt next_run)]) evaluation)))"

definition definition_status ::
  "sched_env \<Rightarrow> pydict \<Rightarrow> real \<Rightarrow> (string \<times> pydict) list \<Rightarrow> (string \<times> pydict) list \<Rightarrow> pydict \<Rightarrow> pydict result" where
  "definition_status env backup now paths histories d =
     bind_result (job_base backup d) (\<lambda>base.
       if \<not> truthy (py_get_default d ''enabled'' (PBool True)) then Inr (py_merge base (due_dict ''disabled''))
       else bind_result (collect (path_of paths) (as_list (py_get base ''data_path_ids''))) (\<lambda>referenced.
         let schedule = py_strip (str_or (py_get d ''schedule'') ''manual'') in
         if \<not> list_ex path_enabled referenced then Inr (py_merge base (due_dict ''no_enabled_data_paths''))
         else if is_disabled schedule then Inr (py_merge base (due_dict (''schedule='' @ schedule)))
         else if \<not> is_valid_schedule env schedule
           then Inr (py_merge base (due_dict ''invalid_schedule'' @ [(''error'', PStr schedule)]))
         else guarded
           (job_item env (timing_of backup now (job_retry base) (truthy (py_get_default backup ''run_on_first_tick'' (PBool False))))
              schedule (definition_history_key d)
              (history_for histories (text_of (py_get d ''id'')) (definition_history_key d)) base)
           (\<lambda>e. py_merge base (failed_dict env e))))"

definition find_due_jobs ::
  "sched_env \<Rightarrow> jobs_db \<Rightarrow> pydict \<Rightarrow> real \<Rightarrow> (string list \<times> pydict list) result" where
  "find_due_jobs env db cfg now =
     bind_result (sub_dict cfg ''backup'') (\<lambda>backup.
     bind_result (effective_job_definitions (env_uid env) (PDict cfg)) (\<lambda>definitions.
     bind_result (data_paths_by_id (env_uid env) (PDict cfg)) (\<lambda>paths.
     bind_result (collect (definition_status env backup now paths (load_job_history db definitions)) definitions)
       (\<lambda>status. Inr (due_names status, status)))))"

definition find_due_pairs ::
  "sched_env \<Rightarrow> jobs_db \<Rightarrow> pydict \<Rightarrow> real \<Rightarrow> (string list \<times> pydict list) result" where
  "find_due_pairs = find_due_jobs"

subsection \<open>PBS targets\<close>

definition pair_prefix :: string where "pair_prefix = ''pbs:''"

definition pbs_settings :: "pydict \<Rightarrow> pydict" where
  "pbs_settings cfg = as_dict (section_of cfg ''pbs'')"

definition pbs_targets :: "pydict \<Rightarrow> pydict list result" where
  "pbs_targets settings =
     bind_result (iter_or_empty (py_get settings ''targets'')) (\<lambda>vs.
       Inr (filter (\<lambda>t. truthy (py_get t ''name'')) (mappings vs)))"

definition target_name :: "pydict \<Rightarrow> string" where
  "target_name t = str_or (py_get t ''name'') ''?''"

definition target_base :: "pydict \<Rightarrow> string \<Rightarrow> pydict" where
  "target_base t key = [(''name'', PStr (target_name t)), (''run_name'', PStr (pair_prefix @ target_name t)),
     (''history_key'', PStr key)]"

definition target_status ::
  "sched_env \<Rightarrow> timing \<Rightarrow> (string \<times> pydict) list \<Rightarrow> pydict \<times> string \<Rightarrow> pydict result" where
  "target_status env g histories tk =
     (let t = fst tk; key = snd tk; base = target_base t key;
          schedule = py_strip (str_or (py_get t ''schedule'') ''manual'')
      in if is_disabled schedule then Inr (base @ due_dict (''schedule='' @ schedule))
         else if \<not> is_valid_schedule env schedule then Inr (base @ due_dict ''invalid_schedule'')
         else guarded
           (bind_result (evaluate_due env g schedule key (history_for histories key key)) (\<lambda>evaluation.
              Inr (py_merge (base @ [(''schedule'', PStr schedule), (''timezone'', PStr (g_zone g))]) evaluation)))
           (\<lambda>e. base @ failed_dict env e))"

text \<open>\<open>client_installed\<close>: whether \<open>shutil.which\<close> finds the client program.\<close>

definition find_due_pbs_targets ::
  "sched_env \<Rightarrow> bool \<Rightarrow> jobs_db \<Rightarrow> pydict \<Rightarrow> real \<Rightarrow> (string list \<times> pydict list) result" where
  "find_due_pbs_targets env client_installed db cfg now =
     (let settings = pbs_settings cfg in
      if \<not> truthy (py_get_default settings ''enabled'' (PBool False)) then Inr ([], [])
      else if \<not> client_installed
        then Inr ([], [[(''name'', PStr ''pbs''), (''due'', PBool False), (''reason'', PStr ''client_not_installed'')]])
      else bind_result (sub_dict cfg ''backup'') (\<lambda>backup.
        bind_result (pbs_targets settings) (\<lambda>targets.
        bind_result (collect (\<lambda>t. bind_result (pbs_history_key env settings t) (\<lambda>k. Inr (t, k))) targets) (\<lambda>prepared.
        bind_result (collect (target_status env (timing_of backup now (common_retry backup) False)
            (pair_last_history (map (\<lambda>(t, k). (k, pair_prefix @ target_name t)) prepared) db)) prepared) (\<lambda>status.
          Inr (due_names status, status))))))"

subsection \<open>The restore drill\<close>

definition drill_settings :: "pydict \<Rightarrow> pydict" where
  "drill_settings raw =
     [(''enabled'', PBool (truthy (py_get_default raw ''enabled'' (PBool False)))),
      (''schedule'', PStr (py_strip (str_or (py_get raw ''schedule'') ''manual''))),
      (''sample_files'', PInt (bounded_int (py_get_default raw ''sample_files'' (PInt 20)) 20 1 500)),
      (''max_total_mb'', PInt (bounded_int (py_get_default raw ''max_total_mb'' (PInt 256)) 256 1 51200)),
      (''max_scan_files'', PInt (bounded_int (py_get_default raw ''max_scan_files'' (PInt 20000)) 20000 100 1000000))]"

definition restore_test_settings :: "pydict \<Rightarrow> pydict result" where
  "restore_test_settings cfg =
     bind_result (sub_dict cfg ''backup'') (\<lambda>backup.
       Inr (drill_settings (as_dict (py_get backup ''restore_test''))))"

definition drill_key :: string where "drill_key = ''restoretest:global''"

definition drill_context :: "pydict \<Rightarrow> pyval" where
  "drill_context attempt =
     py_or (py_or (py_get attempt ''summary'') (py_get attempt ''pair'')) (PDict [])"

text \<open>The attempt is a failed, non-dry run of the scheduler, newer than the last success.\<close>

definition open_drill :: "real \<Rightarrow> pydict \<Rightarrow> real \<Rightarrow> real \<Rightarrow> bool" where
  "open_drill now attempt attempt_at success_at \<longleftrightarrow>
     is_False (py_get attempt ''ok'') \<and>
     py_get attempt ''status'' \<in> {PStr ''error'', PStr ''warning''} \<and>
     \<not> truthy (py_get attempt ''dry_run'') \<and> is_dict (drill_context attempt) \<and>
     py_or (py_get attempt ''trigger'') (py_get (as_dict (drill_context attempt)) ''trigger'') = PStr ''scheduler'' \<and>
     success_at < attempt_at \<and> attempt_at \<le> now"

definition drill_summary :: "jobs_db \<Rightarrow> pydict \<Rightarrow> pyval" where
  "drill_summary db attempt =
     (if has_key (as_dict (py_get attempt ''summary'')) ''pairs'' then py_get attempt ''summary''
      else case py_get attempt ''job_id'' of
        PInt i \<Rightarrow>
          (if i \<le> 0 then PNone
           else case job_get (nat i) db of
             None \<Rightarrow> PNone
           | Some job \<Rightarrow>
               (if py_get job ''kind'' = PStr ''restoretest'' \<and>
                   py_get job ''status'' \<in> {PStr ''error'', PStr ''warning''}
                then py_get job ''summary'' else PNone))
      | _ \<Rightarrow> PNone)"

definition partial_drill :: "jobs_db \<Rightarrow> pydict \<Rightarrow> bool" where
  "partial_drill db attempt \<longleftrightarrow>
     is_partial_restore_summary (drill_summary db attempt) \<and>
     py_get (as_dict (drill_summary db attempt)) ''trigger'' \<in> {PNone, PStr ''scheduler''} \<and>
     \<not> truthy (py_get (as_dict (drill_summary db attempt)) ''dry_run'')"

definition partial_note :: "real \<Rightarrow> real \<Rightarrow> pydict \<Rightarrow> pydict" where
  "partial_note success_at attempt_at evaluation =
     (let e1 = py_set evaluation ''last_run'' (if success_at = 0 then PNone else PFloat success_at);
          e2 = py_set e1 ''last_attempt'' (PFloat attempt_at);
          e3 = py_set e2 ''last_scheduled_completion'' (PFloat attempt_at)
      in if truthy (py_get evaluation ''due'') then e3
         else py_set e3 ''reason'' (PStr ''partial_restore_slot_completed''))"

definition drill_evaluation :: "sched_env \<Rightarrow> timing \<Rightarrow> string \<Rightarrow> jobs_db \<Rightarrow> pydict result" where
  "drill_evaluation env g schedule db =
     (let history = restore_test_schedule_history drill_key db in
      bind_result (sub_dict history ''last_result'') (\<lambda>attempt.
      bind_result (sub_dict history ''last_success'') (\<lambda>success.
      bind_result (py_float (py_or (py_get attempt ''ended_at'') (PInt 0))) (\<lambda>attempt_at.
      bind_result (py_float (py_or (py_get success ''ended_at'') (PInt 0))) (\<lambda>success_at.
        if open_drill (g_now g) attempt attempt_at success_at \<and> partial_drill db attempt
        then bind_result (evaluate_due env g schedule drill_key
               (py_set history ''last_success'' (PDict [(''ended_at'', PFloat attempt_at)])))
               (\<lambda>e. Inr (partial_note success_at attempt_at e))
        else evaluate_due env g schedule drill_key history)))))"

definition restore_test_due :: "sched_env \<Rightarrow> jobs_db \<Rightarrow> pydict \<Rightarrow> real \<Rightarrow> pydict result" where
  "restore_test_due env db cfg now =
     bind_result (restore_test_settings cfg) (\<lambda>settings.
       let schedule = py_strip (str_or (py_get settings ''schedule'') ''manual'') in
       if \<not> truthy (py_get settings ''enabled'') then Inr (due_dict ''disabled'')
       else if is_disabled schedule then Inr (due_dict (''schedule='' @ schedule))
       else if \<not> is_valid_schedule env schedule
         then Inr (due_dict ''invalid_schedule'' @ [(''error'', PStr schedule)])
       else bind_result (sub_dict cfg ''backup'') (\<lambda>backup.
         let g = timing_of backup now (common_retry backup) False in
         case drill_evaluation env g schedule db of
           Inl (NonFinite n) \<Rightarrow> Inl (NonFinite n)
         | Inl e \<Rightarrow> Inr (failed_dict env e)
         | Inr evaluation \<Rightarrow>
             bind_result (next_run_after env schedule now (g_zone g)) (\<lambda>next_run.
               Inr (py_merge [(''history_key'', PStr drill_key), (''schedule'', PStr schedule),
                      (''timezone'', PStr (g_zone g)), (''next_run'', of_real_opt next_run)] evaluation))))"

end
