(* ===== verification/Due_Theorems.thy ===== *)
theory Due_Theorems
  imports Due_Jobs Job_Invariants
begin

text \<open>
  What the scheduler promises about the start of jobs: a failed run waits for its retry time and is
  then retried, a slot is not run twice, a successful run waits for the next occurrence, and one
  broken definition does not stop the others.
\<close>

subsection \<open>What is relied on of the cron library\<close>

text \<open>The next occurrence lies in the future, and of five occurrences in a row two differ in their local
  minute (a clock that is set back repeats a local minute only once).\<close>

definition calendar_ok :: "sched_env \<Rightarrow> bool" where
  "calendar_ok env \<longleftrightarrow>
     (\<forall>s z t n. env_next env s z t = Inr n \<longrightarrow> t < n) \<and>
     (\<forall>s z a b c d e. env_next env s z a = Inr b \<longrightarrow> env_next env s z b = Inr c \<longrightarrow>
        env_next env s z c = Inr d \<longrightarrow> env_next env s z d = Inr e \<longrightarrow>
        \<not> (env_wall env z a = env_wall env z b \<and> env_wall env z b = env_wall env z c \<and>
           env_wall env z c = env_wall env z d \<and> env_wall env z d = env_wall env z e))"

text \<open>No local minute is repeated.\<close>

definition no_fold :: "sched_env \<Rightarrow> string \<Rightarrow> string \<Rightarrow> bool" where
  "no_fold env schedule tz \<longleftrightarrow> (\<forall>a b. env_next env schedule tz a = Inr b \<longrightarrow> env_wall env tz a \<noteq> env_wall env tz b)"

definition calendar_total :: "sched_env \<Rightarrow> bool" where
  "calendar_total env \<longleftrightarrow> (\<forall>s z t. (\<exists>n. env_next env s z t = Inr n) \<and> (\<exists>p. env_prev env s z t = Inr p))"

subsection \<open>Lemmas\<close>

lemma slot_key_eq: "slot_key env s a z n = slot_key env s b z n \<longleftrightarrow> env_wall env z a = env_wall env z b"
  by (simp add: slot_key_def)

lemma slot_key_nonempty [simp]: "slot_key env s a z n \<noteq> []"
  by (simp add: slot_key_def)

lemma slot_not_retry: "slot_key env s a z n \<noteq> retry_slot k v"
  by (simp add: slot_key_def retry_slot_def)

lemma distinct_slot_new:
  assumes "calendar_ok env" and "distinct_slot env s name (slot_key env s occ (timezone env name) name) occ = Inr z"
  shows "slot_key env s (z_at z) (timezone env name) name \<noteq> slot_key env s occ (timezone env name) name \<and> occ < z_at z"
proof -
  define tz where "tz = timezone env name"
  have lt: "t < n" if "env_next env s tz t = Inr n" for t n
    using assms(1) that by (auto simp: calendar_ok_def)
  have five: "\<not> (env_wall env tz a = env_wall env tz b \<and> env_wall env tz b = env_wall env tz c \<and>
      env_wall env tz c = env_wall env tz d \<and> env_wall env tz d = env_wall env tz e)"
    if "env_next env s tz a = Inr b" "env_next env s tz b = Inr c" "env_next env s tz c = Inr d"
      "env_next env s tz d = Inr e" for a b c d e
    using assms(1) that unfolding calendar_ok_def by blast
  have "slot_key env s (z_at z) tz name \<noteq> slot_key env s occ tz name"
    using assms(2) unfolding distinct_slot_def Let_def tz_def [symmetric]
    by (auto simp: numeral_3_eq_3 next_after_def slot_key_eq split: if_splits) (metis five)+
  moreover have "occ < z_at z"
    using assms(2) unfolding distinct_slot_def Let_def tz_def [symmetric]
    by (auto simp: numeral_3_eq_3 next_after_def dest!: lt split: if_splits)
  ultimately show ?thesis by (simp add: tz_def)
qed

lemma distinct_slot_no_fold:
  assumes "no_fold env s (timezone env name)" and "env_next env s (timezone env name) occ = Inr n"
  shows "distinct_slot env s name (slot_key env s occ (timezone env name) name) occ =
    Inr \<lparr>z_at = n, z_latest = occ, z_repeated = False\<rparr>"
proof -
  have "env_wall env (timezone env name) n \<noteq> env_wall env (timezone env name) occ"
    using assms unfolding no_fold_def by metis
  with assms(2) show ?thesis by (simp add: distinct_slot_def Let_def next_after_def numeral_3_eq_3 slot_key_eq)
qed

lemma due_slot_total:
  assumes "calendar_total env"
  shows "\<exists>w. due_slot env g s lr = Inr w"
proof (cases "is_valid_schedule env s")
  case True
  define tz where "tz = timezone env (g_zone g)"
  obtain p where p: "env_prev env s tz (g_now g + 1) = Inr p" using assms unfolding calendar_total_def by blast
  show ?thesis
  proof (cases lr)
    case None
    with p True show ?thesis by (simp add: due_slot_def previous_before_def tz_def [symmetric])
  next
    case (Some t)
    obtain n where "env_next env s tz t = Inr n" using assms unfolding calendar_total_def by blast
    with Some True show ?thesis by (simp add: due_slot_def next_after_def tz_def [symmetric])
  qed
qed (simp add: due_slot_def)

lemma due_slot_key:
  assumes "due_slot env g s lr = Inr w" and "w_slot w = Some slot"
  shows "\<exists>occ. w_due w \<and> w_at w = Some occ \<and> slot = slot_key env s occ (timezone env (g_zone g)) (g_zone g) \<and>
    (\<forall>t. lr = Some t \<longrightarrow> env_next env s (timezone env (g_zone g)) t = Inr occ \<and> occ \<le> g_now g)"
  using assms by (auto simp: due_slot_def Let_def next_after_def split: if_splits option.splits)

lemma repeated_slot_Some:
  assumes "due_slot env g s lr = Inr w" and "repeated_slot a w = Some (occ, slot)"
  shows "slot = slot_key env s occ (timezone env (g_zone g)) (g_zone g) \<and> w_due w \<and> w_at w = Some occ \<and>
    w_slot w = Some slot \<and> previous_slot (a_attempt a) = slot"
  using assms(2) due_slot_key [OF assms(1)] by (auto simp: repeated_slot_def split: option.splits if_splits)

lemma repeated_slot_None:
  "repeated_slot a w = None \<Longrightarrow> w_due w \<Longrightarrow> w_slot w = Some slot \<Longrightarrow> w_at w = Some occ \<Longrightarrow> a_ts a \<noteq> 0 \<Longrightarrow>
   occ \<noteq> 0 \<Longrightarrow> slot \<noteq> [] \<Longrightarrow> previous_slot (a_attempt a) \<noteq> slot"
  by (auto simp: repeated_slot_def split: if_splits)

text \<open>The fields of an answer.\<close>

lemma answer_fields:
  "py_get (backoff_answer g a) ''due'' = PBool False"
  "py_get (attempted_answer a occ slot) ''due'' = PBool False"
  "py_get (retry_answer k a) ''due'' = PBool True"
  "py_get (retry_answer k a) ''reason'' = PStr ''retry_after_failure''"
  "py_get (slot_dict a due at' slot') ''due'' = PBool due"
  "py_get (slot_dict a due at' slot') ''scheduled_slot'' = of_str_opt slot'"
  "py_get (slot_dict a due at' slot') ''scheduled_at'' = of_real_opt at'"
  by (simp_all add: backoff_answer_def attempted_answer_def retry_answer_def slot_dict_def py_get_def)

text \<open>Every way an evaluation can end.\<close>

lemma evaluate_cases:
  assumes "evaluate_due env g s k h = Inr d" and "view_history h = Inr a"
  obtains (backoff) "scheduled_failure a" "\<not> retry_due g a" "d = backoff_answer g a"
  | (plain) w where "due_slot env g s (a_success a) = Inr w" "repeated_slot a w = None"
      "scheduled_failure a \<longrightarrow> retry_due g a" "d = final_answer g k a (w_due w) (w_at w) (w_slot w)"
  | (again) w occ slot z where "due_slot env g s (a_success a) = Inr w" "repeated_slot a w = Some (occ, slot)"
      "scheduled_failure a \<longrightarrow> retry_due g a" "distinct_slot env s (g_zone g) slot occ = Inr z"
      "d = (if retry_due g a \<and> (\<not> z_repeated z \<or> z_latest z + 60 \<le> g_now g)
            then final_answer g k a False (Some occ) (Some slot)
            else if g_now g < z_at z then attempted_answer a occ slot
            else final_answer g k a True (Some (z_at z))
              (Some (slot_key env s (z_at z) (timezone env (g_zone g)) (g_zone g))))"
proof (cases "scheduled_failure a \<and> \<not> retry_due g a")
  case True
  with assms show ?thesis by (intro that(1)) (simp_all add: evaluate_due_def)
next
  case False
  with assms obtain w where w: "due_slot env g s (a_success a) = Inr w"
    and d: "(case repeated_slot a w of Some (occ, slot) \<Rightarrow> after_repeated env g s k a occ slot
             | None \<Rightarrow> Inr (final_answer g k a (w_due w) (w_at w) (w_slot w))) = Inr d"
    by (auto simp: evaluate_due_def)
  show ?thesis
  proof (cases "repeated_slot a w")
    case None
    with d have "d = final_answer g k a (w_due w) (w_at w) (w_slot w)" by simp
    with w None False show ?thesis by (intro that(2)) simp_all
  next
    case (Some p)
    then obtain occ slot where p: "repeated_slot a w = Some (occ, slot)" by (cases p) simp
    with d have "after_repeated env g s k a occ slot = Inr d" by simp
    then obtain z where "distinct_slot env s (g_zone g) slot occ = Inr z"
      "d = (if retry_due g a \<and> (\<not> z_repeated z \<or> z_latest z + 60 \<le> g_now g)
            then final_answer g k a False (Some occ) (Some slot)
            else if g_now g < z_at z then attempted_answer a occ slot
            else final_answer g k a True (Some (z_at z))
              (Some (slot_key env s (z_at z) (timezone env (g_zone g)) (g_zone g))))"
      by (auto simp: after_repeated_def split: if_splits)
    with w p False show ?thesis by (intro that(3)) simp_all
  qed
qed

subsection \<open>Theorems\<close>

text \<open>C29: a cron slot is run once. When the scheduler hands out a slot of the schedule after an earlier
  attempt, it is a different slot from the one that attempt had, and its occurrence is not in the future;
  setting the clock back (the same local minute comes twice) does not run the slot again.\<close>

theorem slot_not_handed_out_twice:
  assumes "calendar_ok env" and "view_history h = Inr a" and "a_success a = Some t" and "0 < t" and "a_ts a \<noteq> 0"
    and "evaluate_due env g schedule key h = Inr d"
    and "py_get d ''due'' = PBool True" and "py_get d ''reason'' \<noteq> PStr ''retry_after_failure''"
  shows "\<exists>slot occ. py_get d ''scheduled_slot'' = PStr slot \<and> slot \<noteq> previous_slot (a_attempt a) \<and>
    py_get d ''scheduled_at'' = PFloat occ \<and> t < occ \<and> occ \<le> g_now g"
  using assms(6,2)
proof (cases rule: evaluate_cases)
  case backoff
  with assms(7) show ?thesis by (simp add: answer_fields)
next
  case (plain w)
  then have d: "d = slot_dict a (w_due w) (w_at w) (w_slot w)"
    using assms(8) by (auto simp: final_answer_def answer_fields split: if_splits)
  with assms(7) have due: "w_due w" by (simp add: answer_fields)
  then obtain slot where slot: "w_slot w = Some slot"
    using plain(1) by (auto simp: due_slot_def Let_def split: if_splits option.splits)
  from due_slot_key [OF plain(1) slot] obtain occ where occ: "w_at w = Some occ"
    "slot = slot_key env schedule occ (timezone env (g_zone g)) (g_zone g)"
    "env_next env schedule (timezone env (g_zone g)) t = Inr occ" "occ \<le> g_now g"
    using assms(3) by blast
  have "t < occ" using assms(1) occ(3) by (auto simp: calendar_ok_def)
  moreover from this have "slot \<noteq> previous_slot (a_attempt a)"
    using repeated_slot_None [OF plain(2) due slot occ(1) assms(5)] assms(4) occ(2) by auto
  ultimately show ?thesis using d slot occ by (simp add: answer_fields of_str_opt_def of_real_opt_def)
next
  case (again w occ slot z)
  from repeated_slot_Some [OF again(1,2)]
  have s: "slot = slot_key env schedule occ (timezone env (g_zone g)) (g_zone g)" "w_slot w = Some slot"
    "w_at w = Some occ" "previous_slot (a_attempt a) = slot" by simp_all
  have "t < occ" using due_slot_key [OF again(1) s(2)] assms(1,3) s(3) by (auto simp: calendar_ok_def)
  with distinct_slot_new [OF assms(1) again(4) [unfolded s(1)]] again(5) assms(7,8) s show ?thesis
    by (auto simp: final_answer_def answer_fields of_str_opt_def of_real_opt_def split: if_splits)
qed

text \<open>A failed run of the scheduler is not started again before its retry time, and from then on it
  is, whatever the schedule says: exactly one of the two answers is given, and the change happens
  at the time of the attempt plus the retry interval.\<close>

theorem failed_run_retries_after_backoff:
  assumes "view_history h = Inr a" and "scheduled_failure a" and "calendar_total env"
    and "no_fold env schedule (timezone env (g_zone g))"
  shows "evaluate_due env g schedule key h =
    Inr (if g_now g < a_ts a + of_int (g_retry g) then backoff_answer g a else retry_answer key a)"
proof (cases "retry_due g a")
  case False
  with assms show ?thesis by (simp add: evaluate_due_def retry_due_def)
next
  case True
  define tz where "tz = timezone env (g_zone g)"
  have total: "\<exists>n. env_next env schedule tz t = Inr n" for t
    using assms(3) by (simp add: calendar_total_def)
  from due_slot_total [OF assms(3)] obtain w where w: "due_slot env g schedule (a_success a) = Inr w" by blast
  have fin: "final_answer g key a x y v = retry_answer key a" for x y v
    using True by (simp add: final_answer_def)
  have "evaluate_due env g schedule key h = Inr (retry_answer key a)"
  proof (cases "repeated_slot a w")
    case None
    with assms(1) w True fin show ?thesis by (simp add: evaluate_due_def)
  next
    case (Some p)
    then obtain occ slot where p: "repeated_slot a w = Some (occ, slot)" by (cases p) simp
    from total obtain n where n: "env_next env schedule tz occ = Inr n" by blast
    from repeated_slot_Some [OF w p] distinct_slot_no_fold [OF assms(4) n [unfolded tz_def]]
    have "distinct_slot env schedule (g_zone g) slot occ = Inr \<lparr>z_at = n, z_latest = occ, z_repeated = False\<rparr>"
      by simp
    with assms(1) w p True fin show ?thesis by (simp add: evaluate_due_def after_repeated_def)
  qed
  with True show ?thesis by (simp add: retry_due_def)
qed

subsection \<open>Reading merged dictionaries\<close>

lemma map_of_py_merge: "map_of (py_merge d e) k = (case map_of (rev e) k of None \<Rightarrow> map_of d k | Some v \<Rightarrow> Some v)"
  unfolding py_merge_def
proof (induction e arbitrary: d)
  case (Cons p e)
  obtain a b where p: "p = (a, b)" by (cases p)
  have "map_of (fold (\<lambda>(k, v) acc. py_set acc k v) e (py_set d a b)) k =
      (case map_of (rev e) k of None \<Rightarrow> map_of (py_set d a b) k | Some v \<Rightarrow> Some v)"
    by (rule Cons)
  then show ?case by (auto simp: p map_of_py_set map_add_def split: option.splits)
qed simp

lemma py_get_merge_other: "k \<notin> fst ` set e \<Longrightarrow> py_get (py_merge d e) k = py_get d k"
proof -
  assume "k \<notin> fst ` set e"
  then have "map_of (rev e) k = None" by (simp add: map_of_eq_None_iff)
  then show ?thesis by (simp add: py_get_def map_of_py_merge)
qed

lemma py_get_merge_distinct:
  "distinct (map fst e) \<Longrightarrow> py_get (py_merge d e) k = (if k \<in> fst ` set e then py_get e k else py_get d k)"
proof (cases "k \<in> fst ` set e")
  case False
  then show ?thesis by (simp add: py_get_merge_other)
next
  case True
  assume d: "distinct (map fst e)"
  from True obtain v where v: "map_of e k = Some v" by (metis map_of_eq_None_iff not_Some_eq)
  with d have "map_of (rev e) k = Some v"
    by (intro map_of_is_SomeI) (auto simp: rev_map [symmetric] dest: map_of_SomeD)
  with v True show ?thesis by (simp add: py_get_def map_of_py_merge)
qed

lemma evaluate_keys:
  assumes "evaluate_due env g s k h = Inr d"
  shows "distinct (map fst d) \<and> ''due'' \<in> fst ` set d \<and> fst ` set d \<subseteq>
    {''due'', ''last_run'', ''last_attempt'', ''reason'', ''retry_at'', ''scheduled_slot'', ''scheduled_at''}"
proof -
  have fin: "distinct (map fst (final_answer g k a x y v)) \<and> ''due'' \<in> fst ` set (final_answer g k a x y v) \<and>
      fst ` set (final_answer g k a x y v) \<subseteq> {''due'', ''last_run'', ''last_attempt'', ''reason'', ''retry_at'',
        ''scheduled_slot'', ''scheduled_at''}" for a x y v
    by (cases "a_success a = None \<and> \<not> x") (auto simp: final_answer_def retry_answer_def slot_dict_def)
  from assms obtain a where a: "view_history h = Inr a" by (auto simp: evaluate_due_def)
  from assms a show ?thesis
  proof (cases rule: evaluate_cases)
    case backoff then show ?thesis by (simp add: backoff_answer_def)
  next
    case (plain w) then show ?thesis using fin by simp
  next
    case (again w occ slot z)
    then show ?thesis using fin [of a] by (auto simp: attempted_answer_def)
  qed
qed

lemma map_of_pairs: "map_of (map (\<lambda>i. (i, f i)) xs) k = (if k \<in> set xs then Some (f k) else None)"
  by (induction xs) auto

lemma set_wanted_ids: "set (wanted_ids ids) = py_strip ` set ids - {[]}"
  by (auto simp: wanted_ids_def)

subsection \<open>A finished job and the scheduler\<close>

text \<open>A bucket the store hands out: what the scheduler reads from it.\<close>

definition entry_ts :: "pydict \<Rightarrow> real" where
  "entry_ts e = (case py_float (py_or (py_or (py_get e ''ended_at'') (py_get e ''started_at'')) (PInt 0)) of
     Inl _ \<Rightarrow> 0 | Inr r \<Rightarrow> r)"

lemma view_success_bucket:
  assumes "s_att_job r = Some j" and "s_att_status r = Some JOk" and "s_suc_job r = Some j2"
    and "s_suc_at r = Some t" and "t \<noteq> 0" and "s_att_at r = Some u" and "s_att_started r = Some v"
  shows "\<exists>a. view_history (history_bucket (success_entry r) (attempt_entry r)) = Inr a \<and> a_success a = Some t \<and>
    \<not> scheduled_failure a"
proof -
  have status: "status_text JOk = ''ok''" by simp
  show ?thesis
    using assms by (simp add: view_history_def history_bucket_def success_entry_def attempt_entry_def
        schedule_entry_def of_dict_opt_def of_real_opt_def sub_dict_def py_or_def py_get_def py_float_def
        scheduled_failure_def)
qed

lemma finish_sched:
  assumes "job_finish jid st s now db = Inr (db', True)" and "parse_status st = Some status"
    and "job_by_id db jid = Some r" and "sm = (case s of None \<Rightarrow> [] | Some d \<Rightarrow> d)"
  shows "sched db' = record_schedule_state
    (job_event r status now (finish_trigger r sm) (finish_slot r sm) (finish_dry r sm)) (sched db)"
  using assms by (auto simp: job_finish_def Let_def split: if_splits)

text \<open>The attempt and success columns are not newer than the job.\<close>

definition not_newer :: "sched_row option \<Rightarrow> real \<times> nat \<Rightarrow> bool" where
  "not_newer ro c \<longleftrightarrow> (case ro of None \<Rightarrow> True | Some row \<Rightarrow>
     at_least c (cur_key (s_suc_started row) (s_suc_job row)) \<and> at_least c (cur_key (s_att_started row) (s_att_job row)))"

lemma merged_event:
  assumes "succeeded e" and "scheduler_attempt e" and "not_newer ro (ev_cand e)"
  shows "success_from e (case ro of None \<Rightarrow> sched_insert e | Some r \<Rightarrow> sched_merge e r) \<and>
    attempt_from e (case ro of None \<Rightarrow> sched_insert e | Some r \<Rightarrow> sched_merge e r)"
  using assms by (cases ro)
    (simp_all add: success_from_insert attempt_from_insert sched_merge_success sched_merge_attempt not_newer_def)

lemma finished_bucket:
  assumes "job_finish jid ''ok'' s now db = Inr (db', True)" and "job_by_id db jid = Some r"
    and "sm = (case s of None \<Rightarrow> [] | Some d \<Rightarrow> d)"
    and "j_def_id r = Some i" and "py_strip i = i" and "i \<noteq> []" and "\<not> finish_dry r sm"
    and "finish_trigger r sm = ''scheduler''" and "not_newer (sched_of (sched db) i) (j_started r, j_id r)" and "0 < now"
  shows "\<exists>row a. sched_of (sched db') i = Some row \<and>
    view_history (history_bucket (success_entry row) (attempt_entry row)) = Inr a \<and> a_success a = Some now \<and>
    \<not> scheduled_failure a"
proof -
  define e where "e = job_event r JOk now (finish_trigger r sm) (finish_slot r sm) (finish_dry r sm)"
  have ok: "parse_status ''ok'' = Some JOk" using parse_status_text [of JOk] by simp
  have trig: "norm_trigger ''scheduler'' = ''scheduler''" by code_simp
  have e: "succeeded e" "scheduler_attempt e" "py_strip (e_def_id e) = i" "\<not> e_dry e" "ev_at e = now"
    "ev_cand e = (j_started r, j_id r)" "e_status e = JOk" "e_job e = j_id r" "e_started e = j_started r"
    using assms(4,5,7,8) trig
    by (simp_all add: e_def job_event_def succeeded_def scheduler_attempt_def ev_at_def ev_cand_def opt_str_def)
  have rel: "relevant e" using e assms(6) by (simp add: relevant_def)
  define row where "row = (case sched_of (sched db) i of None \<Rightarrow> sched_insert e | Some r \<Rightarrow> sched_merge e r)"
  have "sched_of (sched db') i = Some row"
    using finish_sched [OF assms(1) ok assms(2,3), folded e_def] rel e(3) by (simp add: sched_of_record row_def)
  moreover have "success_from e row" "attempt_from e row"
    using merged_event [OF e(1,2)] assms(9) e(6) by (simp_all add: row_def)
  ultimately show ?thesis
    using view_success_bucket [of row] assms(10) e
    by (auto simp: success_from_def attempt_from_def)
qed

lemma due_names_of:
  "find_due_jobs env db cfg now = Inr (due, status) \<Longrightarrow> due = due_names status"
  by (auto simp: find_due_jobs_def)

text \<open>An entry that is due was evaluated.\<close>

lemma guarded_Inr: "guarded m f = Inr x \<longleftrightarrow> m = Inr x \<or> (\<exists>e. m = Inl e \<and> (\<forall>n. e \<noteq> NonFinite n) \<and> x = f e)"
  by (cases "(m, f)" rule: guarded.cases) auto

lemma merge_not_due: "py_get e ''due'' = PBool False \<Longrightarrow> distinct (map fst e) \<Longrightarrow> ''due'' \<in> fst ` set e \<Longrightarrow>
    \<not> item_due (py_merge base e)"
  by (simp add: item_due_def py_get_merge_distinct)

lemma due_item_evaluated:
  assumes "definition_status env backup now paths histories d = Inr item" and "item_due item"
  obtains base g schedule where "job_base backup d = Inr base" "schedule = py_strip (str_or (py_get d ''schedule'') ''manual'')"
    "g = timing_of backup now (job_retry base) (truthy (py_get_default backup ''run_on_first_tick'' (PBool False)))"
    "is_valid_schedule env schedule"
    "job_item env g schedule (definition_history_key d)
       (history_for histories (text_of (py_get d ''id'')) (definition_history_key d)) base = Inr item"
proof -
  define schedule where "schedule = py_strip (str_or (py_get d ''schedule'') ''manual'')"
  from assms(1) obtain base where base: "job_base backup d = Inr base" by (auto simp: definition_status_def)
  define g where
    "g = timing_of backup now (job_retry base) (truthy (py_get_default backup ''run_on_first_tick'' (PBool False)))"
  have no: "\<not> item_due (py_merge base (due_dict x))" "\<not> item_due (py_merge base (failed_dict env e))"
    "\<not> item_due (py_merge base (due_dict x @ [(''error'', y)]))" for x y e
    by (rule merge_not_due; simp add: due_dict_def failed_dict_def py_get_def)+
  from assms base no have "is_valid_schedule env schedule \<and> guarded (job_item env g schedule (definition_history_key d)
      (history_for histories (text_of (py_get d ''id'')) (definition_history_key d)) base)
      (\<lambda>e. py_merge base (failed_dict env e)) = Inr item"
    by (auto simp: definition_status_def Let_def schedule_def [symmetric] g_def [symmetric] split: if_splits)
  with no assms(2) base show ?thesis
    by (intro that [OF base schedule_def g_def]) (auto simp: guarded_Inr)
qed

lemma job_item_fields:
  assumes "job_item env g schedule key h base = Inr item"
  obtains e where "evaluate_due env g schedule key h = Inr e" "item_due item \<longleftrightarrow> truthy (py_get e ''due'')"
    "py_get item ''schedule'' = PStr schedule" "py_get item ''definition_id'' = py_get base ''definition_id''"
    "py_get item ''timezone'' = PStr (g_zone g)"
proof -
  from assms obtain e nx where e: "evaluate_due env g schedule key h = Inr e"
    and item: "item = py_merge (py_merge base [(''schedule'', PStr schedule), (''timezone'', PStr (g_zone g)),
      (''next_run'', of_real_opt nx)]) e"
    by (auto simp: job_item_def)
  from evaluate_keys [OF e] have k: "distinct (map fst e)" "''due'' \<in> fst ` set e"
    "''schedule'' \<notin> fst ` set e" "''definition_id'' \<notin> fst ` set e" "''timezone'' \<notin> fst ` set e" by auto
  have "py_get item ''schedule'' = PStr schedule" "py_get item ''definition_id'' = py_get base ''definition_id''"
    "py_get item ''timezone'' = PStr (g_zone g)" "py_get item ''due'' = py_get e ''due''"
    using k by (simp_all add: item py_get_merge_distinct) (simp_all add: py_get_def)
  with e show ?thesis by (intro that) (simp_all add: item_due_def)
qed

lemma job_base_ids:
  "job_base backup d = Inr base \<Longrightarrow> py_get base ''definition_id'' = PStr (text_of (py_get d ''id''))"
  by (auto simp: job_base_def py_get_def)

lemma success_due_after_next:
  assumes "evaluate_due env g s k h = Inr d" and "view_history h = Inr a" and "a_success a = Some t"
    and "\<not> scheduled_failure a" and "truthy (py_get d ''due'')" and "is_valid_schedule env s"
  shows "\<exists>n. env_next env s (timezone env (g_zone g)) t = Inr n \<and> n \<le> g_now g"
proof -
  have nr: "\<not> retry_due g a" using assms(4) by (simp add: retry_due_def)
  from assms(1,2) show ?thesis
  proof (cases rule: evaluate_cases)
    case (plain w)
    with nr assms(5) have "w_due w" by (simp add: final_answer_def answer_fields)
    then obtain slot where "w_slot w = Some slot"
      using plain(1) by (auto simp: due_slot_def Let_def split: if_splits option.splits)
    from due_slot_key [OF plain(1) this] assms(3) show ?thesis by blast
  next
    case (again w occ slot z)
    from repeated_slot_Some [OF again(1,2)] have "w_slot w = Some slot" by simp
    from due_slot_key [OF again(1) this] assms(3) show ?thesis by blast
  qed (use assms(4) in simp)
qed

text \<open>C30: the scheduler and the store together: after a scheduled job of a definition is finished with
  success, the definition is not handed out again before the first occurrence of its schedule after the
  end of that job.\<close>

theorem finished_definition_waits_for_next_occurrence:
  assumes "job_finish jid ''ok'' s now db = Inr (db', True)" and "job_by_id db jid = Some r"
    and "sm = (case s of None \<Rightarrow> [] | Some d \<Rightarrow> d)"
    and "j_def_id r = Some i" and "py_strip i = i" and "i \<noteq> []" and "\<not> finish_dry r sm"
    and "finish_trigger r sm = ''scheduler''" and "not_newer (sched_of (sched db) i) (j_started r, j_id r)" and "0 < now"
    and "find_due_jobs env db' cfg later = Inr (due, status)" and "item \<in> set status"
    and "py_get item ''definition_id'' = PStr i" and "item_due item"
  shows "\<exists>schedule zone n. py_get item ''schedule'' = PStr schedule \<and> py_get item ''timezone'' = PStr zone \<and>
    env_next env schedule (timezone env zone) now = Inr n \<and> n \<le> later"
proof -
  from finished_bucket [OF assms(1-10)] obtain row a where row: "sched_of (sched db') i = Some row"
    and a: "view_history (history_bucket (success_entry row) (attempt_entry row)) = Inr a" "a_success a = Some now"
      "\<not> scheduled_failure a" by blast
  from assms(11) obtain backup ds paths where ds: "effective_job_definitions (env_uid env) (PDict cfg) = Inr ds"
    and st: "collect (definition_status env backup later paths (load_job_history db' ds)) ds = Inr status"
    by (auto simp: find_due_jobs_def)
  from collect_member [OF st assms(12)] obtain d where d: "d \<in> set ds"
    "definition_status env backup later paths (load_job_history db' ds) d = Inr item" by blast
  from due_item_evaluated [OF d(2) assms(14)] obtain base g schedule where e: "job_base backup d = Inr base"
    "g = timing_of backup later (job_retry base) (truthy (py_get_default backup ''run_on_first_tick'' (PBool False)))"
    "is_valid_schedule env schedule"
    "job_item env g schedule (definition_history_key d)
       (history_for (load_job_history db' ds) (text_of (py_get d ''id'')) (definition_history_key d)) base = Inr item"
    by metis
  from job_item_fields [OF e(4)] obtain ev where ev: "evaluate_due env g schedule (definition_history_key d)
      (history_for (load_job_history db' ds) (text_of (py_get d ''id'')) (definition_history_key d)) = Inr ev"
    "item_due item \<longleftrightarrow> truthy (py_get ev ''due'')" "py_get item ''schedule'' = PStr schedule"
    "py_get item ''definition_id'' = py_get base ''definition_id''" "py_get item ''timezone'' = PStr (g_zone g)" by metis
  have i: "text_of (py_get d ''id'') = i" using ev(4) assms(13) job_base_ids [OF e(1)] by simp
  then have "i \<in> set (wanted_ids (filter (\<lambda>i. i \<noteq> []) (map (\<lambda>d. str_or (py_get d ''id'') []) ds)))"
    using d(1) assms(6) by (auto simp: set_wanted_ids text_of_def image_iff py_strip_def)
  then have "map_of (load_job_history db' ds) i = Some (history_bucket (success_entry row) (attempt_entry row))"
    using row by (simp add: load_job_history_def job_definition_schedule_state_def map_of_pairs)
  moreover have "history_bucket (success_entry row) (attempt_entry row) \<noteq> []" by (simp add: history_bucket_def)
  ultimately have h: "history_for (load_job_history db' ds) i (definition_history_key d) =
      history_bucket (success_entry row) (attempt_entry row)"
    by (simp add: history_for_def Let_def)
  have "g_now g = later" by (simp add: e(2) timing_of_def)
  with success_due_after_next [OF ev(1) _ a(2,3) _ e(3)] ev(2,3,5) assms(14) a(1) show ?thesis
    by (auto simp: i h)
qed

subsection \<open>A broken definition\<close>

text \<open>The cron library raises no error of its own that stands for an infinity.\<close>

definition finite_errors :: "sched_env \<Rightarrow> bool" where
  "finite_errors env \<longleftrightarrow>
     (\<forall>s z t n. env_next env s z t \<noteq> Inl (NonFinite n) \<and> env_prev env s z t \<noteq> Inl (NonFinite n))"

lemma view_bucket_total: "\<exists>a. view_history (history_bucket (success_entry r) (attempt_entry r)) = Inr a"
  by (cases "s_suc_job r"; cases "s_att_job r"; cases "s_suc_at r"; cases "s_att_at r"; cases "s_att_started r")
    (simp_all add: view_history_def history_bucket_def success_entry_def attempt_entry_def schedule_entry_def
      of_dict_opt_def of_real_opt_def sub_dict_def py_or_def py_get_def py_float_def)

lemma view_empty_total: "\<exists>a. view_history (history_bucket None None) = Inr a" "\<exists>a. view_history [] = Inr a"
  by (simp_all add: view_history_def history_bucket_def of_dict_opt_def sub_dict_def py_or_def py_get_def py_float_def)

lemma job_history_total: "\<exists>a. view_history (history_for (load_job_history db ds) i key) = Inr a"
proof -
  have one: "\<exists>a. view_history (case map_of (load_job_history db ds) k of None \<Rightarrow> [] | Some d \<Rightarrow> d) = Inr a" for k
    using view_bucket_total view_empty_total
    by (simp add: load_job_history_def job_definition_schedule_state_def map_of_pairs split: option.split)
  show ?thesis using one [of i] one [of key] by (simp add: history_for_def Let_def)
qed

lemma bind_not_nonfin:
  "(\<And>n. m \<noteq> Inl (NonFinite n)) \<Longrightarrow> (\<And>x n. m = Inr x \<Longrightarrow> f x \<noteq> Inl (NonFinite n)) \<Longrightarrow> bind_result m f \<noteq> Inl (NonFinite n)"
  by (cases m) auto

lemma due_slot_finite: "finite_errors env \<Longrightarrow> due_slot env g s lr \<noteq> Inl (NonFinite n)"
  unfolding due_slot_def Let_def next_after_def previous_before_def
  by (auto simp: finite_errors_def bind_result_Inl split: option.splits)

lemma skip_folds_finite: "finite_errors env \<Longrightarrow> skip_folds env s tz nm slot k z \<noteq> Inl (NonFinite n)"
proof (induction k arbitrary: z)
  case (Suc k)
  then show ?case
    by (auto simp: next_after_def finite_errors_def bind_result_Inl)
qed simp

lemma evaluate_finite:
  assumes "finite_errors env" and "view_history h = Inr a"
  shows "evaluate_due env g s k h \<noteq> Inl (NonFinite n)"
proof -
  have "distinct_slot env s z slot occ \<noteq> Inl (NonFinite n)" for z slot occ n
    using assms(1) skip_folds_finite [OF assms(1)] unfolding distinct_slot_def Let_def next_after_def
    by (intro bind_not_nonfin) (auto simp: finite_errors_def)
  then have "after_repeated env g s k a occ slot \<noteq> Inl (NonFinite n)" for occ slot n
    unfolding after_repeated_def by (intro bind_not_nonfin) auto
  with assms(2) show ?thesis
    unfolding evaluate_due_def using due_slot_finite [OF assms(1)]
    by (auto simp: bind_result_Inl split: option.splits)
qed

lemma next_run_finite: "finite_errors env \<Longrightarrow> next_run_after env s t z \<noteq> Inl (NonFinite n)"
  unfolding next_run_after_def by (auto simp: finite_errors_def bind_result_Inl)

lemma job_item_finite:
  "finite_errors env \<Longrightarrow> view_history h = Inr a \<Longrightarrow> job_item env g s k h base \<noteq> Inl (NonFinite n)"
  unfolding job_item_def by (intro bind_not_nonfin evaluate_finite next_run_finite) auto

lemma guarded_total: "(\<And>n. m \<noteq> Inl (NonFinite n)) \<Longrightarrow> \<exists>x. guarded m f = Inr x"
  by (cases "(m, f)" rule: guarded.cases) auto

definition well_formed_job :: "pydict \<Rightarrow> pydict \<Rightarrow> bool" where
  "well_formed_job backup d \<longleftrightarrow>
     (\<exists>base. job_base backup d = Inr base \<and> list_all is_str (as_list (py_get base ''data_path_ids'')))"

lemma well_formed_job_code:
  "well_formed_job backup d = (case job_base backup d of Inl _ \<Rightarrow> False
     | Inr base \<Rightarrow> list_all is_str (as_list (py_get base ''data_path_ids'')))"
  by (cases "job_base backup d") (simp_all add: well_formed_job_def)

lemma definition_status_total:
  assumes "finite_errors env" and "well_formed_job backup d"
  shows "\<exists>item. definition_status env backup now paths (load_job_history db ds) d = Inr item"
proof -
  from assms(2) obtain base where base: "job_base backup d = Inr base"
    and strs: "list_all is_str (as_list (py_get base ''data_path_ids''))"
    by (auto simp: well_formed_job_def)
  have "\<exists>ps. collect (path_of paths) vs = Inr ps" if "list_all is_str vs" for vs
    using that
  proof (induction vs)
    case (Cons v vs)
    then obtain str where "v = PStr str" by (cases v) auto
    with Cons show ?case by (auto simp: path_of_def)
  qed simp
  with strs obtain ps where ps: "collect (path_of paths) (as_list (py_get base ''data_path_ids'')) = Inr ps" by blast
  obtain a where a: "view_history (history_for (load_job_history db ds) (text_of (py_get d ''id''))
      (definition_history_key d)) = Inr a" using job_history_total by blast
  from guarded_total [OF job_item_finite [OF assms(1) a]] base ps show ?thesis
    by (auto simp: definition_status_def Let_def)
qed

lemma definition_status_id:
  assumes "definition_status env backup now paths hs d = Inr item"
  shows "py_get item ''definition_id'' = PStr (text_of (py_get d ''id''))"
proof -
  from assms obtain base where base: "job_base backup d = Inr base" by (auto simp: definition_status_def)
  have plain: "py_get (py_merge base (due_dict x)) ''definition_id'' = py_get base ''definition_id''"
    "py_get (py_merge base (failed_dict env e)) ''definition_id'' = py_get base ''definition_id''"
    "py_get (py_merge base (due_dict x @ [(''error'', y)])) ''definition_id'' = py_get base ''definition_id''" for x y e
    by (rule py_get_merge_other; simp add: due_dict_def failed_dict_def)+
  have "py_get item ''definition_id'' = py_get base ''definition_id''"
    using assms base plain
    by (auto simp: definition_status_def Let_def guarded_Inr elim!: job_item_fields split: if_splits)
  with job_base_ids [OF base] show ?thesis by simp
qed

lemma due_item_no_error:
  assumes "definition_status env backup now paths hs d = Inr item" and "item_due item"
  shows "py_get item ''error'' = PNone"
proof -
  from due_item_evaluated [OF assms] obtain base g schedule where e: "job_base backup d = Inr base"
    "job_item env g schedule (definition_history_key d)
       (history_for hs (text_of (py_get d ''id'')) (definition_history_key d)) base = Inr item" by metis
  then obtain ev nx where ev: "evaluate_due env g schedule (definition_history_key d)
       (history_for hs (text_of (py_get d ''id'')) (definition_history_key d)) = Inr ev"
    and item: "item = py_merge (py_merge base [(''schedule'', PStr schedule), (''timezone'', PStr (g_zone g)),
      (''next_run'', of_real_opt nx)]) ev"
    by (auto simp: job_item_def)
  from evaluate_keys [OF ev] have "''error'' \<notin> fst ` set ev" by auto
  then have "py_get item ''error'' = py_get base ''error''"
    by (simp add: item py_get_merge_other)
  with e(1) show ?thesis by (auto simp: job_base_def py_get_def)
qed

text \<open>An error of the cron library in one definition is contained: the evaluation as a whole returns,
  every definition of the configuration gets its own status entry in the order of the configuration, the
  jobs to start are exactly the entries that are due, and an entry with an error is not among them.\<close>

theorem broken_schedule_is_contained:
  assumes "finite_errors env" and "sub_dict cfg ''backup'' = Inr backup"
    and "effective_job_definitions (env_uid env) (PDict cfg) = Inr ds"
    and "data_paths_by_id (env_uid env) (PDict cfg) = Inr paths"
    and "\<forall>d \<in> set ds. well_formed_job backup d"
  shows "\<exists>status. find_due_jobs env db cfg now = Inr (due_names status, status) \<and> length status = length ds \<and>
    (\<forall>k < length ds. py_get (status ! k) ''definition_id'' = PStr (text_of (py_get (ds ! k) ''id''))) \<and>
    (\<forall>item \<in> set status. item_due item \<longrightarrow> py_get item ''error'' = PNone)"
proof -
  let ?f = "definition_status env backup now paths (load_job_history db ds)"
  have "\<exists>g. \<forall>d \<in> set ds. ?f d = Inr (g d)"
    using definition_status_total [OF assms(1)] assms(5) by (intro bchoice) blast
  then obtain g where g: "\<And>d. d \<in> set ds \<Longrightarrow> ?f d = Inr (g d)" by blast
  then have c: "collect ?f ds = Inr (map g ds)" by (rule collect_map)
  have "py_get (map g ds ! k) ''definition_id'' = PStr (text_of (py_get (ds ! k) ''id''))" if "k < length ds" for k
    using that definition_status_id [OF g] by simp
  moreover have "item_due item \<longrightarrow> py_get item ''error'' = PNone" if "item \<in> set (map g ds)" for item
    using that due_item_no_error [OF g] by auto
  ultimately show ?thesis
    using c assms(2-4) by (intro exI [of _ "map g ds"]) (auto simp: find_due_jobs_def)
qed

subsection \<open>A concrete calendar\<close>

text \<open>An occurrence every minute; the local minute is told apart from its neighbours by one letter.\<close>

definition demo_env :: sched_env where
  "demo_env = \<lparr>env_valid = (\<lambda>_. True), env_zone = (\<lambda>_. True), env_next = (\<lambda>_ _ t. Inr (t + 60)),
     env_prev = (\<lambda>_ _ t. Inr (t - 60)), env_wall = (\<lambda>_ t. if even \<lfloor>t / 60\<rfloor> then ''a'' else ''b''),
     env_message = (\<lambda>_. ''Fehler''), env_digest = (\<lambda>s. s), env_uid = (\<lambda>s. s)\<rparr>"

lemma demo_env_ok: "calendar_ok demo_env" "calendar_total demo_env" "no_fold demo_env s z" "finite_errors demo_env"
  by (auto simp: calendar_ok_def calendar_total_def no_fold_def finite_errors_def demo_env_def add_divide_distrib)

definition demo_timing :: timing where
  "demo_timing = \<lparr>g_zone = ''UTC'', g_retry = 3600, g_grace = 15, g_first = False, g_now = 4000\<rparr>"

definition demo_run :: "bool \<Rightarrow> real \<Rightarrow> pydict" where
  "demo_run ok t = [(''ok'', PBool ok), (''started_at'', PFloat t), (''ended_at'', PFloat t), (''job_id'', PInt 7),
     (''trigger'', PStr ''scheduler''), (''scheduled_slot'', PStr ''v1|UTC|0 3 * * *|a'')]"

definition demo_history :: "bool \<Rightarrow> real \<Rightarrow> pydict" where
  "demo_history ok t = history_bucket (Some (demo_run True 60)) (Some (demo_run ok t))"

theorem slot_not_handed_out_twice_witness:
  "\<exists>d slot. evaluate_due demo_env demo_timing ''0 3 * * *'' ''k'' (demo_history True 60) = Inr d \<and>
     py_get d ''scheduled_slot'' = PStr slot \<and> slot \<noteq> ''v1|UTC|0 3 * * *|a''"
proof -
  have "case view_history (demo_history True 60) of Inl _ \<Rightarrow> False | Inr a \<Rightarrow> a_success a = Some 60 \<and> a_ts a = 60 \<and>
      previous_slot (a_attempt a) = ''v1|UTC|0 3 * * *|a''"
    by code_simp
  then obtain a where a: "view_history (demo_history True 60) = Inr a" "a_success a = Some 60" "a_ts a = 60"
    "previous_slot (a_attempt a) = ''v1|UTC|0 3 * * *|a''"
    by (auto split: sum.splits)
  have "case evaluate_due demo_env demo_timing ''0 3 * * *'' ''k'' (demo_history True 60) of Inl _ \<Rightarrow> False
      | Inr d \<Rightarrow> py_get d ''due'' = PBool True \<and> py_get d ''reason'' = PNone"
    by code_simp
  then obtain d where d: "evaluate_due demo_env demo_timing ''0 3 * * *'' ''k'' (demo_history True 60) = Inr d"
    "py_get d ''due'' = PBool True" "py_get d ''reason'' = PNone"
    by (auto split: sum.splits)
  from slot_not_handed_out_twice [OF demo_env_ok(1) a(1,2) _ _ d(1,2)] a(3,4) d show ?thesis by auto
qed

theorem failed_run_retries_after_backoff_witness:
  "\<exists>a. view_history (demo_history False 120) = Inr a \<and>
     evaluate_due demo_env demo_timing ''0 3 * * *'' ''k'' (demo_history False 120) = Inr (retry_answer ''k'' a)"
proof -
  have "case view_history (demo_history False 120) of Inl _ \<Rightarrow> False | Inr a \<Rightarrow> scheduled_failure a \<and> a_ts a = 120"
    by code_simp
  then obtain a where a: "view_history (demo_history False 120) = Inr a" "scheduled_failure a" "a_ts a = 120"
    by (auto split: sum.splits)
  from failed_run_retries_after_backoff [OF a(1,2) demo_env_ok(2,3), of demo_timing "''0 3 * * *''" "''k''"] a
  show ?thesis by (simp add: demo_timing_def)
qed

text \<open>A configuration with one job on one path, and a store in which this job has just run.\<close>

definition demo_cfg :: pydict where
  "demo_cfg = [(''backup'', PDict [(''jobs'', PList [PDict [(''id'', PStr ''d1''), (''name'', PStr ''nachts''),
       (''data_path_ids'', PList [PStr ''p1'']), (''schedule'', PStr ''0 3 * * *'')]]),
     (''pairs'', PList [PDict [(''id'', PStr ''p1''), (''name'', PStr ''daten'')]])])]"

definition demo_job :: job_row where
  "demo_job = \<lparr>j_id = 1, j_kind = ''backup'', j_status = JRunning, j_started = 100, j_ended = None,
     j_summary = None, j_log = None, j_def_id = Some ''d1'', j_def_name = Some ''nachts'', j_revision = None,
     j_slot = None, j_dry = False, j_trigger = ''scheduler''\<rparr>"

definition demo_running_db :: jobs_db where
  "demo_running_db = empty_jobs_db\<lparr>jobs := [demo_job], next_job := 2\<rparr>"

theorem broken_schedule_is_contained_witness:
  "\<exists>env status. env = demo_env\<lparr>env_next := (\<lambda>_ _ _. Inl (ValueError ''kaputt''))\<rparr> \<and>
     find_due_jobs env demo_running_db demo_cfg 500 = Inr ([], status) \<and> length status = 1 \<and>
     py_get (status ! 0) ''definition_id'' = PStr ''d1''"
proof -
  define env where "env = demo_env\<lparr>env_next := (\<lambda>_ _ _. Inl (ValueError ''kaputt''))\<rparr>"
  have fin: "finite_errors env" by (simp add: finite_errors_def env_def demo_env_def)
  define backup where "backup = as_dict (py_get demo_cfg ''backup'')"
  define ds where "ds = mappings (as_list (py_get backup ''jobs''))"
  have b: "sub_dict demo_cfg ''backup'' = Inr backup" unfolding backup_def by code_simp
  have d: "effective_job_definitions (env_uid env) (PDict demo_cfg) = Inr ds"
    unfolding ds_def backup_def env_def by code_simp
  obtain paths where p: "data_paths_by_id (env_uid env) (PDict demo_cfg) = Inr paths"
    by (simp add: data_paths_by_id_def demo_cfg_def section_of_def py_or_def py_get_def)
  have "list_all (\<lambda>d. case job_base backup d of Inl _ \<Rightarrow> False
      | Inr base \<Rightarrow> list_all is_str (as_list (py_get base ''data_path_ids''))) ds"
    unfolding ds_def backup_def by code_simp
  then have w: "\<forall>d \<in> set ds. well_formed_job backup d"
    by (simp add: list_all_iff [of _ ds] well_formed_job_code)
  have len: "length ds = 1" "text_of (py_get (ds ! 0) ''id'') = ''d1''" unfolding ds_def backup_def by code_simp+
  have none: "case find_due_jobs env demo_running_db demo_cfg 500 of Inl _ \<Rightarrow> False | Inr r \<Rightarrow> fst r = []"
    unfolding env_def by code_simp
  from broken_schedule_is_contained [OF fin b d p w, of demo_running_db 500] len none show ?thesis
    unfolding env_def by auto
qed

theorem finished_definition_waits_for_next_occurrence_witness:
  "\<exists>db' due status item n. job_finish 1 ''ok'' (Some []) 200 demo_running_db = Inr (db', True) \<and>
     find_due_jobs demo_env db' demo_cfg 5000 = Inr (due, status) \<and> item \<in> set status \<and> item_due item \<and>
     py_get item ''definition_id'' = PStr ''d1'' \<and> 200 < n \<and> n \<le> (5000 :: real)"
proof -
  have j: "job_by_id demo_running_db 1 = Some demo_job" "j_def_id demo_job = Some ''d1''" "py_strip ''d1'' = ''d1''"
    "\<not> finish_dry demo_job []" "finish_trigger demo_job [] = ''scheduler''"
    by (code_simp+)
  have ok: "parse_status ''ok'' = Some JOk" using parse_status_text [of JOk] by simp
  have "is_running demo_job" by code_simp
  then obtain db' where f: "job_finish 1 ''ok'' (Some []) 200 demo_running_db = Inr (db', True)"
    using ok j(1) by (simp add: job_finish_def Let_def)
  define e where "e = job_event demo_job JOk 200 (finish_trigger demo_job []) (finish_slot demo_job []) (finish_dry demo_job [])"
  have "sched db' = record_schedule_state e (sched demo_running_db)"
    unfolding e_def by (rule finish_sched [OF f ok j(1)]) simp
  then have same: "find_due_jobs demo_env db' demo_cfg 5000 =
      find_due_jobs demo_env (empty_jobs_db\<lparr>sched := record_schedule_state e []\<rparr>) demo_cfg 5000"
    by (simp add: find_due_jobs_def load_job_history_def [abs_def] job_definition_schedule_state_def
        demo_running_db_def empty_jobs_db_def)
  have "case find_due_jobs demo_env (empty_jobs_db\<lparr>sched := record_schedule_state e []\<rparr>) demo_cfg 5000 of Inl _ \<Rightarrow> False
      | Inr r \<Rightarrow> list_ex (\<lambda>item. item_due item \<and> py_get item ''definition_id'' = PStr ''d1'') (snd r)"
    unfolding e_def by code_simp
  then obtain due status item where g: "find_due_jobs demo_env db' demo_cfg 5000 = Inr (due, status)"
    "item \<in> set status" "item_due item" "py_get item ''definition_id'' = PStr ''d1''"
    unfolding same by (auto simp: list_ex_iff split: sum.splits)
  have o: "not_newer (sched_of (sched demo_running_db) ''d1'') (j_started demo_job, j_id demo_job)"
    by (simp add: not_newer_def sched_of_def demo_running_db_def empty_jobs_db_def)
  from finished_definition_waits_for_next_occurrence [OF f(1) j(1) _ j(2,3) _ j(4,5) o _ g(1,2,4,3)]
  obtain schedule zone n where "env_next demo_env schedule (timezone demo_env zone) 200 = Inr n" "n \<le> 5000" by auto
  then have "200 < n" "n \<le> 5000" by (auto simp: demo_env_def)
  with f g show ?thesis by blast
qed

end
