(* ===== verification/Runtime_Store.thy ===== *)
theory Runtime_Store
  imports Json_Bounded Sql_Table
begin

text \<open>
  \<open>app/db.py\<close>: runtime settings and the audit log, and \<open>app/scheduler_control.py\<close>, which keeps the
  pause of the scheduler in them. The locale \<open>key_value\<close> states what a client of the settings may
  rely on; the pause is proved against it.
\<close>

subsection \<open>A store of settings\<close>

locale key_value =
  fixes lookup :: "'k \<Rightarrow> 's \<Rightarrow> 'v option"
    and insert :: "'k \<Rightarrow> 'v \<Rightarrow> 's \<Rightarrow> 's"
    and remove :: "'k \<Rightarrow> 's \<Rightarrow> 's"
  assumes lookup_insert: "lookup k (insert j v s) = (if k = j then Some v else lookup k s)"
    and lookup_remove: "lookup k (remove j s) = (if k = j then None else lookup k s)"
begin

lemma insert_insert: "lookup k (insert j w (insert j v s)) = lookup k (insert j w s)"
  by (simp add: lookup_insert)

lemma insert_remove: "lookup k (remove j (insert j v s)) = lookup k (remove j s)"
  by (simp add: lookup_insert lookup_remove)

lemma insert_commute: "i \<noteq> j \<Longrightarrow> lookup k (insert i v (insert j w s)) = lookup k (insert j w (insert i v s))"
  by (simp add: lookup_insert)

end

record setting_row =
  v_key :: string
  v_value :: pyval
  v_updated :: real

record audit_row =
  u_id :: nat
  u_type :: string
  u_actor :: string
  u_created :: real
  u_details :: pyval

record runtime_db =
  settings :: "setting_row list"
  audits :: "audit_row list"
  next_audit :: nat

definition empty_runtime_db :: runtime_db where
  "empty_runtime_db = \<lparr>settings = [], audits = [], next_audit = 1\<rparr>"

definition setting_of :: "string \<Rightarrow> runtime_db \<Rightarrow> pyval option" where
  "setting_of key db = map_option v_value (fetch_one (\<lambda>r. v_key r = key) (settings db))"

definition put_setting :: "real \<Rightarrow> string \<Rightarrow> pyval \<Rightarrow> runtime_db \<Rightarrow> runtime_db" where
  "put_setting now key v db =
     db\<lparr>settings := upsert_where (\<lambda>r. v_key r = key) \<lparr>v_key = key, v_value = v, v_updated = now\<rparr>
          (\<lambda>r. r\<lparr>v_value := v, v_updated := now\<rparr>) (settings db)\<rparr>"

definition runtime_delete :: "string \<Rightarrow> runtime_db \<Rightarrow> runtime_db" where
  "runtime_delete key db = db\<lparr>settings := delete_where (\<lambda>r. v_key r = key) (settings db)\<rparr>"

interpretation runtime: key_value setting_of "put_setting now" runtime_delete
proof
  show "setting_of k (put_setting now j v s) = (if k = j then Some v else setting_of k s)" for k j v s
    by (simp add: setting_of_def put_setting_def fetch_one_upsert split: option.split)
  show "setting_of k (runtime_delete j s) = (if k = j then None else setting_of k s)" for k j s
  proof (cases "k = j")
    case True
    then show ?thesis by (simp add: setting_of_def runtime_delete_def fetch_one_delete_key)
  next
    case False
    then have "fetch_one (\<lambda>r. v_key r = k) (delete_where (\<lambda>r. v_key r = j) (settings s)) =
        fetch_one (\<lambda>r. v_key r = k) (settings s)"
      by (intro fetch_one_delete_other) auto
    with False show ?thesis by (simp add: setting_of_def runtime_delete_def)
  qed
qed

subsection \<open>Runtime settings\<close>

definition valid_key :: "string \<Rightarrow> bool" where
  "valid_key key \<longleftrightarrow> key \<noteq> [] \<and> length key \<le> 128"

definition fits :: "pyval \<Rightarrow> bool" where
  "fits v \<longleftrightarrow> length (json_dumps v) \<le> 512 * 1024"

definition runtime_get :: "string \<Rightarrow> pyval \<Rightarrow> runtime_db \<Rightarrow> pyval result" where
  "runtime_get key dflt db =
     (if \<not> valid_key key then Inl (ValueError ''Runtime-Key'')
      else Inr (case setting_of key db of None \<Rightarrow> dflt | Some v \<Rightarrow> v))"

definition runtime_set :: "string \<Rightarrow> pyval \<Rightarrow> real \<Rightarrow> runtime_db \<Rightarrow> runtime_db result" where
  "runtime_set key v now db =
     (if \<not> valid_key key then Inl (ValueError ''Runtime-Key'')
      else if \<not> fits v then Inl (ValueError ''Runtime-Wert ist zu gross'')
      else Inr (put_setting now key v db))"

definition runtime_update ::
  "string \<Rightarrow> (pyval \<Rightarrow> pyval result) \<Rightarrow> pyval \<Rightarrow> real \<Rightarrow> runtime_db \<Rightarrow> (runtime_db \<times> pyval) result" where
  "runtime_update key f dflt now db =
     (if \<not> valid_key key then Inl (ValueError ''Runtime-Key'')
      else bind_result (f (case setting_of key db of None \<Rightarrow> dflt | Some v \<Rightarrow> v)) (\<lambda>v.
        if \<not> fits v then Inl (ValueError ''Runtime-Wert ist zu gross'')
        else Inr (put_setting now key v db, v)))"

subsection \<open>The audit log\<close>

definition audit_note :: pyval where
  "audit_note = PDict [(''note'', PStr (''Details wegen Gr'' @ [CHR 0xC3, CHR 0xB6, CHR 0xC3, CHR 0x9F] @ ''e verworfen''))]"

definition audit_actor :: "string \<Rightarrow> string" where
  "audit_actor actor =
     (let w = take 128 (py_strip (if actor = [] then ''system'' else actor))
      in if w = [] then ''system'' else w)"

definition audit_add :: "string \<Rightarrow> string \<Rightarrow> pydict \<Rightarrow> real \<Rightarrow> runtime_db \<Rightarrow> (runtime_db \<times> nat) result" where
  "audit_add event_type actor details now db =
     (let event = py_strip event_type in
      if event = [] \<or> 80 < length event then Inl (ValueError ''Audit-Ereignistyp'')
      else (let payload = (if 128 * 1024 < length (json_dumps (PDict details)) then audit_note else PDict details)
            in Inr (db\<lparr>audits := audits db @
                 [\<lparr>u_id = next_audit db, u_type = event, u_actor = audit_actor actor, u_created = now, u_details = payload\<rparr>],
                 next_audit := Suc (next_audit db)\<rparr>, next_audit db)))"

text \<open>\<open>ORDER BY created_at DESC, id DESC\<close>.\<close>

definition audit_order :: "audit_row list \<Rightarrow> audit_row list" where
  "audit_order rs = order_desc u_created (sort_key (\<lambda>r. - int (u_id r)) rs)"

definition audit_list :: "int \<Rightarrow> string option \<Rightarrow> runtime_db \<Rightarrow> audit_row list" where
  "audit_list n event_type db =
     (let lmt = nat (clamp 1 1000 (if n = 0 then 100 else n));
          rows = (if opt_str event_type = [] then audits db
                  else select_where (\<lambda>r. u_type r = opt_str event_type) (audits db))
      in take lmt (audit_order rows))"

definition audit_prune :: "int \<Rightarrow> int \<Rightarrow> real \<Rightarrow> runtime_db \<Rightarrow> runtime_db \<times> nat" where
  "audit_prune days keep now db =
     (let cutoff = now - of_int (clamp 1 3650 days * 86400);
          kept = map u_id (take (nat (clamp 100 100000 keep)) (order_desc u_created (audits db)));
          old = (\<lambda>r. u_created r < cutoff \<and> u_id r \<notin> set kept)
      in (db\<lparr>audits := delete_where old (audits db)\<rparr>, count_where old (audits db)))"

subsection \<open>The pause of the scheduler\<close>

definition pause_key :: string where "pause_key = ''scheduler_pause''"

definition max_pause_seconds :: int where "max_pause_seconds = 31 * 24 * 3600"

record pause_state =
  z_paused :: bool
  z_until :: "real option"
  z_remaining :: "int option"
  z_reason :: string
  z_actor :: string
  z_updated :: "real option"

definition some_nonzero :: "real \<Rightarrow> real option" where
  "some_nonzero x = (if x = 0 then None else Some x)"

definition pause_view :: "pydict \<Rightarrow> real \<Rightarrow> real \<Rightarrow> real \<Rightarrow> pause_state" where
  "pause_view raw until updated now =
     (let paused = (truthy (py_get raw ''paused'') \<and> (until \<le> 0 \<or> until > now))
      in \<lparr>z_paused = paused, z_until = some_nonzero until,
          z_remaining = (if paused \<and> until \<noteq> 0 then Some (max 0 (trunc_real (until - now))) else None),
          z_reason = take 300 (text_of (py_get raw ''reason'')),
          z_actor = take 128 (py_strip (str_or (py_get raw ''actor'') ''system'')),
          z_updated = some_nonzero updated\<rparr>)"

definition scheduler_state :: "bool \<Rightarrow> real \<Rightarrow> runtime_db \<Rightarrow> (runtime_db \<times> pause_state) result" where
  "scheduler_state cleanup now db =
     bind_result (runtime_get pause_key (PDict []) db) (\<lambda>v.
       let raw0 = as_dict v in
       bind_result (py_float (py_or (py_get raw0 ''until'') (PInt 0))) (\<lambda>until0.
         let expired = (until0 \<noteq> 0 \<and> until0 \<le> now);
             db1 = (if expired \<and> cleanup then runtime_delete pause_key db else db);
             raw = (if expired then [] else raw0);
             until = (if expired then 0 else until0)
         in bind_result (py_float (py_or (py_get raw ''updated_at'') (PInt 0))) (\<lambda>updated.
              Inr (db1, pause_view raw until updated now))))"

definition pause_payload :: "real \<Rightarrow> string \<Rightarrow> string \<Rightarrow> real \<Rightarrow> pydict" where
  "pause_payload until reason actor now =
     [(''paused'', PBool True), (''until'', PFloat until),
      (''reason'', PStr (take 300 (py_strip (if reason = [] then ''Wartungsfenster'' else reason)))),
      (''actor'', PStr (take 128 (py_strip (if actor = [] then ''system'' else actor)))),
      (''updated_at'', PFloat now)]"

definition pause_end :: "real option \<Rightarrow> int option \<Rightarrow> real \<Rightarrow> real" where
  "pause_end until seconds now =
     (case until of Some u \<Rightarrow> u
      | None \<Rightarrow> now + of_int (max 60 (min (case seconds of None \<Rightarrow> 3600 | Some n \<Rightarrow> if n = 0 then 3600 else n) max_pause_seconds)))"

definition pause_scheduler ::
  "real option \<Rightarrow> int option \<Rightarrow> string \<Rightarrow> string \<Rightarrow> real \<Rightarrow> runtime_db \<Rightarrow> (runtime_db \<times> pause_state) result" where
  "pause_scheduler until seconds reason actor now db =
     (let end_at = pause_end until seconds now;
          payload = pause_payload end_at reason actor now
      in if end_at \<le> now then Inl (ValueError ''Pause-Ende muss in der Zukunft liegen'')
         else if end_at - now > of_int max_pause_seconds then Inl (ValueError ''31 Tage'')
         else bind_result (runtime_set pause_key (PDict payload) now db) (\<lambda>db1.
           bind_result (audit_add ''scheduler_paused'' (py_str (py_get payload ''actor''))
               [(''until'', PFloat end_at), (''reason'', py_get payload ''reason'')] now db1) (\<lambda>(db2, _).
             scheduler_state True now db2)))"

definition resume_scheduler :: "string \<Rightarrow> real \<Rightarrow> runtime_db \<Rightarrow> (runtime_db \<times> pause_state) result" where
  "resume_scheduler actor now db =
     bind_result (scheduler_state True now db) (\<lambda>(db1, previous).
       bind_result (audit_add ''scheduler_resumed'' (take 128 (if actor = [] then ''system'' else actor))
           [(''previous_until'', case z_until previous of None \<Rightarrow> PNone | Some u \<Rightarrow> PFloat u),
            (''reason'', PStr (z_reason previous))] now (runtime_delete pause_key db1)) (\<lambda>(db2, _).
         scheduler_state True now db2))"

subsection \<open>Properties\<close>

lemma setting_of_audit [simp]: "setting_of k (db\<lparr>audits := a, next_audit := n\<rparr>) = setting_of k db"
  by (simp add: setting_of_def)

lemma audit_add_settings: "audit_add ev actor d now db = Inr (db', n) \<Longrightarrow> setting_of k db' = setting_of k db"
  by (auto simp: audit_add_def Let_def split: if_splits)

lemma runtime_set_settings:
  "runtime_set key v now db = Inr db' \<Longrightarrow> setting_of k db' = (if k = key then Some v else setting_of k db)"
  by (auto simp: runtime_set_def runtime.lookup_insert split: if_splits)

lemma pause_key_valid [simp]: "valid_key pause_key"
  by (simp add: valid_key_def pause_key_def)

lemma float_or_zero [simp]: "py_float (py_or (PFloat x) (PInt 0)) = Inr x"
  by (simp add: py_or_def py_float_def)

lemma float_none_or_zero [simp]: "py_float (py_or PNone (PInt 0)) = Inr 0"
  by (simp add: py_or_def py_float_def)

lemma state_of_payload:
  assumes "setting_of pause_key db = Some (PDict (pause_payload until reason actor set_at))" and "0 < until"
  shows "\<exists>db' v. scheduler_state c t db = Inr (db', v) \<and> z_paused v = (t < until) \<and>
    (t < until \<longrightarrow> z_until v = Some until \<and> z_remaining v = Some (max 0 (trunc_real (until - t))) \<and> db' = db) \<and>
    (until \<le> t \<and> c \<longrightarrow> setting_of pause_key db' = None)"
proof (cases "t < until")
  case True
  with assms show ?thesis
    by (simp add: scheduler_state_def runtime_get_def pause_payload_def py_get_def pause_view_def Let_def some_nonzero_def)
next
  case False
  with assms show ?thesis
    by (cases c) (simp_all add: scheduler_state_def runtime_get_def pause_payload_def py_get_def pause_view_def Let_def
        some_nonzero_def runtime.lookup_remove)
qed

lemma pause_effect:
  assumes "pause_scheduler until seconds reason actor now db = Inr (db1, st)" and "0 \<le> now"
  shows "now < pause_end until seconds now" and "pause_end until seconds now - now \<le> of_int max_pause_seconds"
    and "setting_of pause_key db1 = Some (PDict (pause_payload (pause_end until seconds now) reason actor now))"
    and "k \<noteq> pause_key \<Longrightarrow> setting_of k db1 = setting_of k db"
proof -
  let ?e = "pause_end until seconds now"
  let ?p = "pause_payload ?e reason actor now"
  from assms(1) obtain a n b where a: "now < ?e" "?e - now \<le> of_int max_pause_seconds"
    "runtime_set pause_key (PDict (pause_payload ?e reason actor now)) now db = Inr a"
    "audit_add ''scheduler_paused'' (py_str (py_get ?p ''actor''))
       [(''until'', PFloat ?e), (''reason'', py_get ?p ''reason'')] now a = Inr (b, n)"
    "scheduler_state True now b = Inr (db1, st)"
    by (auto simp: pause_scheduler_def Let_def not_le not_less split: if_splits)
  then show "now < ?e" "?e - now \<le> of_int max_pause_seconds" by simp_all
  from a(4) have b: "setting_of k b = setting_of k a" for k by (rule audit_add_settings)
  have key: "setting_of pause_key b = Some (PDict (pause_payload ?e reason actor now))"
    by (simp add: b runtime_set_settings [OF a(3)])
  have "db1 = b"
    using state_of_payload [OF key, of True now] a(1,5) assms(2) by auto
  with key b show "setting_of pause_key db1 = Some (PDict (pause_payload ?e reason actor now))"
    "k \<noteq> pause_key \<Longrightarrow> setting_of k db1 = setting_of k db"
    by (simp_all add: runtime_set_settings [OF a(3)])
qed

text \<open>A pause holds exactly until its end. After a successful pause the scheduler reads as paused at
  every moment before the end and as running from the end on, the end lies at most 31 days ahead,
  and no other runtime setting is touched.\<close>

theorem pause_holds_until_its_end:
  assumes "pause_scheduler until seconds reason actor now db = Inr (db1, st)" and "0 \<le> now"
  shows "now < pause_end until seconds now \<and> pause_end until seconds now \<le> now + 31 * 24 * 3600 \<and>
    (\<exists>db2 v. scheduler_state cleanup t db1 = Inr (db2, v) \<and> z_paused v = (t < pause_end until seconds now)) \<and>
    (k = pause_key \<or> setting_of k db1 = setting_of k db)"
proof -
  note eff = pause_effect [OF assms]
  from eff(1) assms(2) have "0 < pause_end until seconds now" by simp
  from state_of_payload [OF eff(3) this, of cleanup t] eff(1,2) eff(4) [of k]
  show ?thesis by (auto simp: max_pause_seconds_def)
qed

definition demo_pause :: "runtime_db \<times> pause_state" where
  "demo_pause = (case pause_scheduler None (Some 60) [] [] 10 empty_runtime_db of
     Inr x \<Rightarrow> x | Inl _ \<Rightarrow> (empty_runtime_db, pause_view [] 0 0 0))"

lemma demo_pause_ok: "pause_scheduler None (Some 60) [] [] 10 empty_runtime_db = Inr (fst demo_pause, snd demo_pause)"
proof -
  have "length (json_dumps (PDict (pause_payload 70 [] [] 10))) \<le> 200" by code_simp
  then have f: "fits (PDict (pause_payload 70 [] [] 10))" by (simp add: fits_def)
  have e: "pause_end None (Some 60) 10 = 70" by (simp add: pause_end_def max_pause_seconds_def)
  have ev: "py_strip ''scheduler_paused'' = ''scheduler_paused''" by code_simp
  obtain a where a: "runtime_set pause_key (PDict (pause_payload 70 [] [] 10)) 10 empty_runtime_db = Inr a"
    using f by (simp add: runtime_set_def)
  obtain b n where b: "audit_add ''scheduler_paused'' (py_str (py_get (pause_payload 70 [] [] 10) ''actor''))
      [(''until'', PFloat 70), (''reason'', py_get (pause_payload 70 [] [] 10) ''reason'')] 10 a = Inr (b, n)"
    using ev by (simp add: audit_add_def Let_def)
  have "setting_of pause_key b = Some (PDict (pause_payload 70 [] [] 10))"
    using audit_add_settings [OF b] runtime_set_settings [OF a] by simp
  from state_of_payload [OF this, of True 10]
  obtain db' v where "scheduler_state True 10 b = Inr (db', v)" by auto
  with a b have "pause_scheduler None (Some 60) [] [] 10 empty_runtime_db = Inr (db', v)"
    by (simp add: pause_scheduler_def e Let_def max_pause_seconds_def)
  then show ?thesis by (simp add: demo_pause_def)
qed

theorem pause_holds_until_its_end_witness:
  "(\<exists>db v. scheduler_state True 69 (fst demo_pause) = Inr (db, v) \<and> z_paused v) \<and>
   (\<exists>db v. scheduler_state True 70 (fst demo_pause) = Inr (db, v) \<and> \<not> z_paused v)"
  using pause_holds_until_its_end [OF demo_pause_ok, of True 69] pause_holds_until_its_end [OF demo_pause_ok, of True 70]
  by (simp add: pause_end_def max_pause_seconds_def)

text \<open>A resume takes effect at once: after it the scheduler reads as not paused at every moment.\<close>

theorem resume_ends_the_pause:
  assumes "resume_scheduler actor now db = Inr (db1, st)"
  shows "\<not> z_paused st \<and> (\<exists>v. scheduler_state cleanup t db1 = Inr (db1, v) \<and> \<not> z_paused v)"
proof -
  have idle: "\<exists>v. scheduler_state c t d = Inr (d, v) \<and> \<not> z_paused v" if "setting_of pause_key d = None" for c t d
    using that by (simp add: scheduler_state_def runtime_get_def Let_def pause_view_def py_get_def)
  from assms obtain a previous where 1: "scheduler_state True now db = Inr (a, previous)"
    by (auto simp: resume_scheduler_def)
  with assms obtain b n where
    "audit_add ''scheduler_resumed'' (take 128 (if actor = [] then ''system'' else actor))
       [(''previous_until'', case z_until previous of None \<Rightarrow> PNone | Some u \<Rightarrow> PFloat u),
        (''reason'', PStr (z_reason previous))] now (runtime_delete pause_key a) = Inr (b, n)"
    "scheduler_state True now b = Inr (db1, st)"
    by (auto simp: resume_scheduler_def)
  moreover from audit_add_settings [OF this(1)] have "setting_of pause_key b = None"
    by (simp add: runtime.lookup_remove)
  ultimately show ?thesis using idle [of b True now] idle [of b cleanup t] by auto
qed

theorem resume_ends_the_pause_witness:
  "\<exists>db st. resume_scheduler [] 20 (fst demo_pause) = Inr (db, st) \<and> \<not> z_paused st"
proof -
  have ev: "py_strip ''scheduler_resumed'' = ''scheduler_resumed''" by code_simp
  have key: "setting_of pause_key (fst demo_pause) = Some (PDict (pause_payload 70 [] [] 10))"
    using pause_effect(3) [OF demo_pause_ok] by (simp add: pause_end_def max_pause_seconds_def)
  obtain d1 v1 where 1: "scheduler_state True 20 (fst demo_pause) = Inr (d1, v1)"
    using state_of_payload [OF key, of True 20] by auto
  obtain d2 n where 2: "audit_add ''scheduler_resumed'' (take 128 ''system'')
      [(''previous_until'', case z_until v1 of None \<Rightarrow> PNone | Some u \<Rightarrow> PFloat u), (''reason'', PStr (z_reason v1))] 20
      (runtime_delete pause_key d1) = Inr (d2, n)"
    using ev by (simp add: audit_add_def Let_def)
  have "setting_of pause_key d2 = None"
    using audit_add_settings [OF 2] by (simp add: runtime.lookup_remove)
  then obtain st where "scheduler_state True 20 d2 = Inr (d2, st)"
    by (simp add: scheduler_state_def runtime_get_def Let_def py_get_def)
  with 1 2 have r: "resume_scheduler [] 20 (fst demo_pause) = Inr (d2, st)" by (simp add: resume_scheduler_def)
  from resume_ends_the_pause [OF r] r show ?thesis by blast
qed

text \<open>A runtime value is what was last written. A successful set or update is what the next read
  returns, whatever its default, and reads of other keys are unchanged.\<close>

theorem runtime_update_reads_back:
  assumes "runtime_update key f dflt now db = Inr (db1, v)"
  shows "runtime_get key d db1 = Inr v \<and>
    f (case setting_of key db of None \<Rightarrow> dflt | Some w \<Rightarrow> w) = Inr v \<and>
    (\<forall>k. k \<noteq> key \<longrightarrow> runtime_get k d db1 = runtime_get k d db)"
  using assms by (auto simp: runtime_update_def runtime_get_def runtime.lookup_insert split: if_splits)

theorem runtime_update_reads_back_witness:
  "\<exists>db1. runtime_update ''a'' (\<lambda>v. Inr (PBool True)) PNone 10 empty_runtime_db = Inr (db1, PBool True) \<and>
     runtime_get ''a'' PNone db1 = Inr (PBool True)"
proof -
  obtain db1 where u: "runtime_update ''a'' (\<lambda>v. Inr (PBool True)) PNone 10 empty_runtime_db = Inr (db1, PBool True)"
    by (simp add: runtime_update_def valid_key_def fits_def)
  from runtime_update_reads_back [OF u] u show ?thesis by blast
qed

end
