(* ===== verification/Py_Rounding.thy ===== *)
theory Py_Rounding
  imports Py_Sequence
begin

text \<open>
  \<open>round\<close> and the number formats the messages use. Rounding is half to even, of the exact value.
\<close>

definition round_even :: "real \<Rightarrow> int" where
  "round_even x =
     (let k = \<lfloor>x\<rfloor>; rest = x - of_int k
      in if 1 / 2 < rest \<or> (rest = 1 / 2 \<and> odd k) then k + 1 else k)"

definition round_digits :: "nat \<Rightarrow> real \<Rightarrow> real" where
  "round_digits n x = of_int (round_even (x * 10 ^ n)) / 10 ^ n"

definition pow10 :: "int \<Rightarrow> real" where
  "pow10 e = (if 0 \<le> e then 10 ^ nat e else 1 / 10 ^ nat (- e))"

definition exponent10 :: "real \<Rightarrow> int" where
  "exponent10 a = (case find (\<lambda>e. pow10 e \<le> a \<and> a < pow10 (e + 1)) [-330..310] of None \<Rightarrow> 0 | Some e \<Rightarrow> e)"

definition strip_zeros :: "string \<Rightarrow> string" where
  "strip_zeros s = (if CHR ''.'' \<in> set s then rstrip_char (CHR ''.'') (rstrip_char (CHR ''0'') s) else s)"

text \<open>The decimal \<open>n / 10 ^ k\<close>.\<close>

definition fixed_point :: "nat \<Rightarrow> nat \<Rightarrow> string" where
  "fixed_point n k =
     (if k = 0 then show_nat n else show_nat (n div 10 ^ k) @ ''.'' @ pad_left k (show_nat (n mod 10 ^ k)))"

text \<open>\<open>f"{x:g}"\<close>: six significant digits.\<close>

definition format_g :: "real \<Rightarrow> string" where
  "format_g x =
     (if x = 0 then ''0''
      else (let a = \<bar>x\<bar>; e0 = exponent10 a; m0 = nat (round_even (a * pow10 (5 - e0)));
                m = (if m0 = 1000000 then 100000 else m0); e = (if m0 = 1000000 then e0 + 1 else e0);
                body = (if e < -4 \<or> 6 \<le> e
                        then strip_zeros (fixed_point m 5) @ ''e'' @ (if e < 0 then ''-'' else ''+'') @
                             pad_left 2 (show_nat (nat \<bar>e\<bar>))
                        else strip_zeros (fixed_point m (nat (5 - e))))
            in if x < 0 then CHR ''-'' # body else body))"

subsection \<open>Lemmas\<close>

lemma round_even_near: "\<bar>of_int (round_even x) - x\<bar> \<le> 1 / 2"
proof -
  have "of_int \<lfloor>x\<rfloor> \<le> x" "x < of_int \<lfloor>x\<rfloor> + 1" by linarith+
  moreover have "x - of_int \<lfloor>x\<rfloor> < 1 / 2 \<or> x - of_int \<lfloor>x\<rfloor> = 1 / 2 \<or> 1 / 2 < x - of_int \<lfloor>x\<rfloor>" by linarith
  ultimately show ?thesis unfolding round_even_def Let_def by (auto simp: abs_le_iff)
qed

lemma round_even_le: "x \<le> of_int n \<Longrightarrow> round_even x \<le> n"
proof -
  assume x: "x \<le> of_int n"
  then have k: "\<lfloor>x\<rfloor> \<le> n" by linarith
  show ?thesis
  proof (cases "\<lfloor>x\<rfloor> = n")
    case True
    with x have "x = of_int \<lfloor>x\<rfloor>" by linarith
    then show ?thesis using k unfolding round_even_def Let_def by simp
  qed (use k in \<open>auto simp: round_even_def Let_def\<close>)
qed

lemma round_even_ge: "of_int n \<le> x \<Longrightarrow> n \<le> round_even x"
proof -
  assume "of_int n \<le> x"
  then have "n \<le> \<lfloor>x\<rfloor>" by linarith
  then show ?thesis by (auto simp: round_even_def Let_def)
qed

lemma round_even_int [simp]: "round_even (of_int n) = n"
  by (simp add: round_even_def)

lemma round_even_mono: "x \<le> y \<Longrightarrow> round_even x \<le> round_even y"
proof -
  assume xy: "x \<le> y"
  then have k: "\<lfloor>x\<rfloor> \<le> \<lfloor>y\<rfloor>" by linarith
  show ?thesis
  proof (cases "\<lfloor>x\<rfloor> = \<lfloor>y\<rfloor>")
    case True
    with xy show ?thesis by (auto simp: round_even_def Let_def)
  next
    case False
    with k have "\<lfloor>x\<rfloor> + 1 \<le> \<lfloor>y\<rfloor>" by simp
    then show ?thesis by (auto simp: round_even_def Let_def)
  qed
qed

end
