(* ===== verification/Overdue.thy ===== *)
theory Overdue
  imports Due_Jobs Runtime_Store Py_Rounding "HOL-Library.AList"
begin

text \<open>
  \<open>app/overdue.py\<close>: data paths without a recent success. The state that keeps the alarm from being
  repeated at every tick is a runtime setting. Sending the message is the job of another module: here
  it is the last component of the result.
\<close>

definition overdue_key :: string where "overdue_key = ''overdue_alerts''"
definition max_tracked :: nat where "max_tracked = 512"

record alert_config =
  alert_enabled :: bool
  repeat_hours :: int

definition alert_settings :: "pydict \<Rightarrow> alert_config result" where
  "alert_settings cfg =
     bind_result (sub_dict cfg ''backup'') (\<lambda>backup.
       let raw = as_dict (py_get backup ''overdue_alerts'') in
       Inr \<lparr>alert_enabled = truthy (py_get_default raw ''enabled'' (PBool True)),
            repeat_hours = bounded_int (py_get_default raw ''repeat_hours'' (PInt 24)) 24 1 720\<rparr>)"

definition max_age_hours :: "pydict \<Rightarrow> real result" where
  "max_age_hours pair =
     (case py_float (py_or (py_get pair ''max_success_age_hours'') (PInt 0)) of
        Inl TypeError \<Rightarrow> Inr 0
      | Inl (ValueError _) \<Rightarrow> Inr 0
      | r \<Rightarrow> r)"

definition success_age :: "real \<Rightarrow> real option \<Rightarrow> real option" where
  "success_age now last_success = map_option (\<lambda>t. max 0 ((now - t) / 3600)) last_success"

definition is_overdue :: "real \<Rightarrow> real option \<Rightarrow> bool" where
  "is_overdue limit age \<longleftrightarrow> 0 < limit \<and> (case age of None \<Rightarrow> True | Some a \<Rightarrow> limit < a)"

definition evaluate_pair :: "pydict \<Rightarrow> real option \<Rightarrow> real \<Rightarrow> pydict result" where
  "evaluate_pair pair last_success now =
     bind_result (max_age_hours pair) (\<lambda>limit.
       Inr [(''last_success'', of_real_opt last_success),
            (''success_age_hours'', of_real_opt (map_option (round_digits 1) (success_age now last_success))),
            (''max_success_age_hours'', PFloat limit),
            (''overdue'', PBool (is_overdue limit (success_age now last_success)))])"

subsection \<open>What was reported when\<close>

type_synonym alert_state = "(string \<times> real) list"

definition load_entry :: "string \<times> pyval \<Rightarrow> alert_state \<Rightarrow> alert_state result" where
  "load_entry kv acc =
     (case py_float (snd kv) of
        Inr r \<Rightarrow> Inr (AList.update (fst kv) r acc)
      | Inl (NonFinite n) \<Rightarrow> Inl (NonFinite n)
      | Inl _ \<Rightarrow> Inr acc)"

fun load_entries :: "pydict \<Rightarrow> alert_state \<Rightarrow> alert_state result" where
  "load_entries [] acc = Inr acc"
| "load_entries (kv # d) acc = bind_result (load_entry kv acc) (load_entries d)"

definition load_state :: "runtime_db \<Rightarrow> alert_state result" where
  "load_state db =
     bind_result (runtime_get overdue_key (PDict []) db) (\<lambda>raw.
       case raw of PDict d \<Rightarrow> load_entries d [] | _ \<Rightarrow> Inr [])"

definition trimmed_state :: "alert_state \<Rightarrow> alert_state" where
  "trimmed_state state = take max_tracked (sort_key (\<lambda>kv. - snd kv) state)"

definition state_value :: "alert_state \<Rightarrow> pyval" where
  "state_value state = PDict (map (\<lambda>kv. (fst kv, PFloat (snd kv))) state)"

text \<open>A value that is too large for the setting is logged and not stored.\<close>

definition store_state :: "alert_state \<Rightarrow> real \<Rightarrow> runtime_db \<Rightarrow> runtime_db" where
  "store_state state now db =
     (case runtime_set overdue_key (state_value (trimmed_state state)) now db of Inl _ \<Rightarrow> db | Inr db' \<Rightarrow> db')"

subsection \<open>The alarm\<close>

record alarm =
  alarm_event :: string
  alarm_title :: string
  alarm_body :: string
  alarm_names :: "string list"

definition number_of :: "pyval \<Rightarrow> real" where
  "number_of v = (case py_float v of Inl _ \<Rightarrow> 0 | Inr r \<Rightarrow> r)"

definition describe :: "pydict \<Rightarrow> string" where
  "describe item =
     (let name = str_or (py_get item ''name'') ''?''; limit = number_of (py_get item ''max_success_age_hours'')
      in if py_get item ''success_age_hours'' = PNone
         then name @ '': noch kein erfolgreicher Lauf (Frist '' @ format_g limit @ '' Std.)''
         else name @ '': letzter Erfolg vor '' @ format_g (number_of (py_get item ''success_age_hours'')) @
              '' Std. (Frist '' @ format_g limit @ '' Std.)'')"

definition alert_key :: "pydict \<Rightarrow> string" where
  "alert_key item = str_or (py_or (py_get item ''history_key'') (py_get item ''name'')) []"

definition alert_name :: "pydict \<Rightarrow> string" where
  "alert_name item = str_or (py_get item ''name'') (alert_key item)"

definition sent_recently :: "real \<Rightarrow> real \<Rightarrow> alert_state \<Rightarrow> string \<Rightarrow> bool" where
  "sent_recently now repeat_sec state k \<longleftrightarrow>
     (case map_of state k of None \<Rightarrow> False | Some t \<Rightarrow> t \<noteq> 0 \<and> now - t < repeat_sec)"

fun report_items :: "real \<Rightarrow> real \<Rightarrow> pydict list \<Rightarrow> alert_state \<Rightarrow> alert_state \<times> string list" where
  "report_items now repeat_sec [] state = (state, [])"
| "report_items now repeat_sec (item # its) state =
     (if alert_key item = [] \<or> sent_recently now repeat_sec state (alert_key item)
      then report_items now repeat_sec its state
      else (let rest = report_items now repeat_sec its (AList.update (alert_key item) now state)
            in (fst rest, alert_name item # snd rest)))"

definition newline :: string where "newline = [char_of (10 :: nat)]"

definition alarm_for :: "pydict list \<Rightarrow> string list \<Rightarrow> alarm" where
  "alarm_for its reported =
     \<lparr>alarm_event = ''pair_overdue'',
      alarm_title = show_nat (length reported) @ '' Pair(s) ohne frischen erfolgreichen Lauf'',
      alarm_body = py_join newline (map describe
        (filter (\<lambda>item. str_or (py_get item ''name'') [] \<in> set reported) its)),
      alarm_names = reported\<rparr>"

definition notify_overdue ::
  "pydict \<Rightarrow> pydict list \<Rightarrow> real \<Rightarrow> runtime_db \<Rightarrow> (runtime_db \<times> string list \<times> alarm option) result" where
  "notify_overdue cfg its now db =
     bind_result (alert_settings cfg) (\<lambda>settings.
     bind_result (load_state db) (\<lambda>state.
       let current = map alert_key its;
           recovered = filter (\<lambda>k. k \<notin> set current) (map fst state);
           kept = filter (\<lambda>kv. fst kv \<in> set current) state
       in if \<not> alert_enabled settings
          then Inr (if recovered \<noteq> [] then store_state kept now db else db, [], None)
          else (let res = report_items now (of_int (repeat_hours settings * 3600)) its kept;
                    db' = (if snd res \<noteq> [] \<or> recovered \<noteq> [] then store_state (fst res) now db else db)
                in Inr (db', snd res, if snd res \<noteq> [] then Some (alarm_for its (snd res)) else None))))"

definition is_scheduled :: "pydict \<Rightarrow> string \<Rightarrow> bool" where
  "is_scheduled pair default_sched \<longleftrightarrow>
     (let own = text_of (py_get pair ''schedule''); schedule = (if own \<noteq> [] then own else default_sched)
      in py_casefold (py_strip schedule) \<notin> set disabled_schedules)"

subsection \<open>One tick\<close>

definition watched_pairs :: "sched_env \<Rightarrow> string list \<Rightarrow> pydict list \<Rightarrow> pydict list" where
  "watched_pairs env ids pairs =
     filter (\<lambda>p. truthy (py_get_default p ''enabled'' (PBool True)) \<and> stable_data_path_id (env_uid env) p \<in> set ids) pairs"

definition pair_name :: "pydict \<Rightarrow> string" where
  "pair_name p = str_or (py_get p ''name'') []"

definition pair_verdict ::
  "sched_env \<Rightarrow> (string \<times> pydict) list \<Rightarrow> real \<Rightarrow> pydict \<Rightarrow> pydict result" where
  "pair_verdict env histories now p =
     (let key = rclone_history_key env p; history = (case map_of histories key of None \<Rightarrow> [] | Some h \<Rightarrow> h) in
      bind_result (sub_dict history ''last_success'') (\<lambda>success.
      bind_result (if truthy (py_get success ''ended_at'')
                   then bind_result (py_float (py_get success ''ended_at'')) (\<lambda>r. Inr (Some r)) else Inr None) (\<lambda>last_at.
      bind_result (evaluate_pair p last_at now) (\<lambda>verdict.
        Inr ([(''name'', PStr (pair_name p)), (''history_key'', PStr key)] @ verdict)))))"

definition overdue_items ::
  "sched_env \<Rightarrow> jobs_db \<Rightarrow> pydict list \<Rightarrow> real \<Rightarrow> pydict list result" where
  "overdue_items env db pairs now =
     (let named = filter (\<lambda>p. pair_name p \<noteq> []) pairs;
          histories = pair_last_history (map (\<lambda>p. (rclone_history_key env p, pair_name p)) named) db
      in bind_result (collect (pair_verdict env histories now) named) (\<lambda>verdicts.
           Inr (filter (\<lambda>v. truthy (py_get v ''overdue'')) verdicts)))"

definition check_and_notify ::
  "sched_env \<Rightarrow> pydict \<Rightarrow> jobs_db \<Rightarrow> real \<Rightarrow> runtime_db \<Rightarrow> (runtime_db \<times> string list \<times> alarm option) result" where
  "check_and_notify env cfg jdb now db =
     bind_result (sub_dict cfg ''backup'') (\<lambda>backup.
     bind_result (scheduled_data_path_ids (env_uid env) (PDict cfg)) (\<lambda>ids.
     bind_result (iter_or_empty (py_get backup ''pairs'')) (\<lambda>raws.
       let pairs = watched_pairs env ids (mappings raws) in
       if pairs = [] then notify_overdue cfg [] now db
       else bind_result (overdue_items env jdb pairs now) (\<lambda>its. notify_overdue cfg its now db))))"

end
