(* ===== verification/Overdue_Theorems.thy ===== *)
theory Overdue_Theorems
  imports Overdue "HOL-Library.Multiset"
begin

text \<open>
  The alarm about missing successes: it is raised for every path that needs it, once per interval, and
  again at once after a recovery.
\<close>

subsection \<open>The stored state\<close>

lemma alist_update_new: "k \<notin> fst ` set al \<Longrightarrow> AList.update k v al = al @ [(k, v)]"
  by (induction al) auto

lemma load_entries_state:
  "distinct (map fst s) \<Longrightarrow> fst ` set acc \<inter> fst ` set s = {} \<Longrightarrow>
   load_entries (map (\<lambda>kv. (fst kv, PFloat (snd kv))) s) acc = Inr (acc @ s)"
proof (induction s arbitrary: acc)
  case (Cons kv s)
  then have new: "fst kv \<notin> fst ` set acc" by auto
  have "load_entry (fst kv, PFloat (snd kv)) acc = Inr (acc @ [kv])"
    by (simp add: load_entry_def py_float_def alist_update_new [OF new])
  moreover have "load_entries (map (\<lambda>kv. (fst kv, PFloat (snd kv))) s) (acc @ [kv]) = Inr ((acc @ [kv]) @ s)"
    by (rule Cons.IH) (use Cons.prems in auto)
  ultimately show ?case by simp
qed simp

lemma valid_overdue_key [simp]: "valid_key overdue_key"
  by code_simp

lemma load_stored:
  assumes "distinct (map fst s)" and "setting_of overdue_key db = Some (state_value s)"
  shows "load_state db = Inr s"
  using load_entries_state [OF assms(1), of "[]"] assms(2) by (simp add: load_state_def runtime_get_def state_value_def)

lemma store_state_reads_back:
  assumes "fits (state_value (trimmed_state s))" and "distinct (map fst s)"
  shows "load_state (store_state s now db) = Inr (trimmed_state s)"
proof (rule load_stored)
  have "distinct (map fst (sort_key (\<lambda>kv. - snd kv) s))"
    using assms(2) by (metis mset_eq_imp_distinct_iff mset_map mset_sort)
  then show "distinct (map fst (trimmed_state s))"
    unfolding trimmed_state_def take_map [symmetric] by (rule distinct_take)
  show "setting_of overdue_key (store_state s now db) = Some (state_value (trimmed_state s))"
    using assms(1) by (auto simp: store_state_def runtime_set_def runtime.lookup_insert)
qed

lemma sort_key_const: "\<forall>x \<in> set xs. f x = c \<Longrightarrow> sort_key f xs = xs"
proof (induction xs)
  case (Cons x xs)
  then have "sort_key f xs = xs" by simp
  moreover have "insort_key f x xs = x # xs" using Cons.prems by (cases xs) auto
  ultimately show ?case by simp
qed simp

lemma trimmed_const:
  "length ks \<le> max_tracked \<Longrightarrow> trimmed_state (map (\<lambda>k. (k, t)) ks) = map (\<lambda>k. (k, t)) ks"
  unfolding trimmed_state_def by (subst sort_key_const [of _ _ "- t"]) auto

subsection \<open>One round of reports\<close>

lemma map_of_alist_update: "map_of (AList.update k v al) = (map_of al)(k \<mapsto> v)"
  by (rule ext) (simp add: update_conv)

lemma sent_recently_other: "k \<noteq> j \<Longrightarrow> sent_recently t r (AList.update k v s) j = sent_recently t r s j"
  by (simp add: sent_recently_def map_of_alist_update)

lemma report_all:
  assumes "distinct (map alert_key its)"
    and "\<forall>i \<in> set its. alert_key i \<noteq> [] \<and> \<not> sent_recently t r s (alert_key i)"
  shows "report_items t r its s = (fold (\<lambda>i. AList.update (alert_key i) t) its s, map alert_name its)"
  using assms
proof (induction its arbitrary: s)
  case (Cons i its)
  have "\<forall>j \<in> set its. alert_key j \<noteq> [] \<and> \<not> sent_recently t r (AList.update (alert_key i) t s) (alert_key j)"
    using Cons.prems by (auto simp: image_iff) (metis sent_recently_other)
  with Cons show ?case by (simp add: Let_def)
qed simp

lemma fold_update_map:
  "map_of (fold (\<lambda>i. AList.update (alert_key i) t) its s) k =
    (if k \<in> alert_key ` set its then Some t else map_of s k)"
proof (induction its arbitrary: s)
  case (Cons i its)
  then show ?case by (simp add: map_of_alist_update)
qed simp

lemma fold_update_distinct:
  "distinct (map fst s) \<Longrightarrow> distinct (map fst (fold (\<lambda>i. AList.update (alert_key i) t) its s))"
  by (induction its arbitrary: s) (simp_all add: distinct_update)

lemma all_reported_state:
  assumes "distinct (map fst s)" and "fst ` set s \<subseteq> alert_key ` set its" and "distinct (map alert_key its)"
  obtains ks where "fold (\<lambda>i. AList.update (alert_key i) t) its s = map (\<lambda>k. (k, t)) ks"
    "mset ks = mset (map alert_key its)"
proof -
  define r where "r = fold (\<lambda>i. AList.update (alert_key i) t) its s"
  have d: "distinct (map fst r)" unfolding r_def by (rule fold_update_distinct [OF assms(1)])
  have dom: "k \<in> fst ` set r \<longleftrightarrow> k \<in> alert_key ` set its" for k
  proof -
    have "k \<in> fst ` set r \<longleftrightarrow> map_of r k \<noteq> None" by (simp add: map_of_eq_None_iff)
    also have "\<dots> \<longleftrightarrow> k \<in> alert_key ` set its"
      using assms(2) by (auto simp: r_def fold_update_map map_of_eq_None_iff)
    finally show ?thesis .
  qed
  have "snd kv = t" if "kv \<in> set r" for kv
  proof -
    have "map_of r (fst kv) = Some (snd kv)" using d that by (intro map_of_is_SomeI) auto
    moreover have "fst kv \<in> alert_key ` set its" using dom that by auto
    ultimately show ?thesis by (simp add: r_def fold_update_map)
  qed
  then have "r = map (\<lambda>k. (k, t)) (map fst r)"
    by (simp add: comp_def) (rule map_idI [symmetric], metis prod.collapse)
  moreover have "mset (map fst r) = mset (map alert_key its)"
    using d assms(3) dom by (intro iffD1 [OF set_eq_iff_mset_eq_distinct]) auto
  ultimately show ?thesis using that r_def by metis
qed

lemma map_of_const: "map_of (map (\<lambda>k. (k, t)) ks) k = (if k \<in> set ks then Some t else None)"
  by (induction ks) auto

lemma load_entries_distinct: "load_entries d acc = Inr s \<Longrightarrow> distinct (map fst acc) \<Longrightarrow> distinct (map fst s)"
proof (induction d arbitrary: acc)
  case (Cons kv d)
  then obtain acc' where a: "load_entry kv acc = Inr acc'" "load_entries d acc' = Inr s" by auto
  have "distinct (map fst acc')"
    using a(1) Cons.prems(2) by (auto simp: load_entry_def distinct_update split: sum.splits pyerr.splits)
  with Cons.IH a(2) show ?case by blast
qed simp

lemma load_state_distinct: "load_state db = Inr s \<Longrightarrow> distinct (map fst s)"
proof -
  assume "load_state db = Inr s"
  then obtain raw where "(case raw of PDict d \<Rightarrow> load_entries d [] | _ \<Rightarrow> Inr []) = Inr s"
    by (auto simp: load_state_def)
  then show ?thesis by (cases raw) (auto dest: load_entries_distinct)
qed

definition small_keys :: "string list \<Rightarrow> real \<Rightarrow> bool" where
  "small_keys keys t \<longleftrightarrow> length keys \<le> max_tracked \<and>
     (\<forall>ks. mset ks = mset keys \<longrightarrow> fits (state_value (map (\<lambda>k. (k, t)) ks)))"

text \<open>What the round leaves behind when it reports everything.\<close>

lemma notify_all:
  assumes "alert_settings cfg = Inr st" and "alert_enabled st" and "load_state db = Inr s" and "its \<noteq> []"
    and "distinct (map alert_key its)" and "small_keys (map alert_key its) t"
    and "\<forall>i \<in> set its. alert_key i \<noteq> [] \<and> \<not> sent_recently t (of_int (repeat_hours st * 3600)) s (alert_key i)"
  obtains db1 ks where "notify_overdue cfg its t db = Inr (db1, map alert_name its, Some (alarm_for its (map alert_name its)))"
    "load_state db1 = Inr (map (\<lambda>k. (k, t)) ks)" "mset ks = mset (map alert_key its)"
proof -
  define kept where "kept = filter (\<lambda>kv. fst kv \<in> alert_key ` set its) s"
  have kd: "distinct (map fst kept)"
    unfolding kept_def using load_state_distinct [OF assms(3)] by (rule distinct_map_filter)
  have sub: "fst ` set kept \<subseteq> alert_key ` set its" by (auto simp: kept_def)
  have get: "map_of kept k = map_of s k" if "k \<in> alert_key ` set its" for k
    using that unfolding kept_def by (induction s) auto
  have fresh: "\<forall>i \<in> set its. alert_key i \<noteq> [] \<and>
      \<not> sent_recently t (of_int (repeat_hours st * 3600)) kept (alert_key i)"
    using assms(7) get by (simp add: sent_recently_def)
  obtain ks where ks: "fold (\<lambda>i. AList.update (alert_key i) t) its kept = map (\<lambda>k. (k, t)) ks"
    "mset ks = mset (map alert_key its)"
    using all_reported_state [OF kd sub assms(5)] by metis
  define db1 where "db1 = store_state (map (\<lambda>k. (k, t)) ks) t db"
  have len: "length ks \<le> max_tracked"
    using ks(2) assms(6) unfolding small_keys_def by (metis size_mset)
  then have tr: "trimmed_state (map (\<lambda>k. (k, t)) ks) = map (\<lambda>k. (k, t)) ks" by (rule trimmed_const)
  have "distinct ks" using ks(2) assms(5) mset_eq_imp_distinct_iff by blast
  then have "load_state db1 = Inr (map (\<lambda>k. (k, t)) ks)"
    using store_state_reads_back [of "map (\<lambda>k. (k, t)) ks" t db] assms(6) ks(2) tr
    by (simp add: db1_def small_keys_def comp_def)
  moreover have "notify_overdue cfg its t db = Inr (db1, map alert_name its, Some (alarm_for its (map alert_name its)))"
    using assms(1-4) report_all [OF assms(5) fresh]
    by (simp add: notify_overdue_def Let_def kept_def [symmetric] ks(1) db1_def)
  ultimately show ?thesis using ks(2) that by blast
qed

subsection \<open>A sequence of ticks\<close>

text \<open>The scheduler checks at each tick the paths that are overdue then, over one stored state.\<close>

fun alarm_run ::
  "pydict \<Rightarrow> (real \<times> pydict list) list \<Rightarrow> runtime_db \<Rightarrow> (runtime_db \<times> (string list \<times> alarm option) list) result" where
  "alarm_run cfg [] db = Inr (db, [])"
| "alarm_run cfg ((t, its) # ticks) db =
     bind_result (notify_overdue cfg its t db) (\<lambda>(db1, said).
     bind_result (alarm_run cfg ticks db1) (\<lambda>(db2, outs). Inr (db2, said # outs)))"

lemma alarm_run_append:
  "alarm_run cfg (xs @ ys) db = bind_result (alarm_run cfg xs db) (\<lambda>(db1, outs).
     bind_result (alarm_run cfg ys db1) (\<lambda>(db2, more_outs). Inr (db2, outs @ more_outs)))"
proof (induction xs arbitrary: db)
  case Nil
  then show ?case by (cases "alarm_run cfg ys db") (auto split: prod.splits)
next
  case (Cons x xs)
  obtain t its where x: "x = (t, its)" by (cases x)
  show ?case
  proof (cases "notify_overdue cfg its t db")
    case (Inr r)
    obtain db1 said where r: "r = (db1, said)" by (cases r)
    show ?thesis
    proof (cases "alarm_run cfg xs db1")
      case rest: (Inr q)
      obtain db2 outs where q: "q = (db2, outs)" by (cases q)
      show ?thesis by (cases "alarm_run cfg ys db2") (auto simp: x Inr r rest q Cons.IH)
    qed (simp add: x Inr r Cons.IH)
  qed (simp add: x)
qed

definition tick_keys :: "(real \<times> pydict list) list \<Rightarrow> nat \<Rightarrow> string list" where
  "tick_keys ticks j = map alert_key (snd (ticks ! j))"

text \<open>When a path is to be reported, told from the ticks alone: at a tick at which it is overdue, unless an
  earlier report of it is less than the interval ago and it has been overdue at every tick since.\<close>

fun reported_at :: "real \<Rightarrow> (real \<times> pydict list) list \<Rightarrow> string \<Rightarrow> nat \<Rightarrow> bool" where
  "reported_at repeat_sec ticks k j \<longleftrightarrow> k \<in> set (tick_keys ticks j) \<and>
     \<not> (\<exists>m \<in> set [0..<j]. reported_at repeat_sec ticks k m \<and>
          fst (ticks ! j) - fst (ticks ! m) < repeat_sec \<and> (\<forall>n \<in> set [Suc m..<j]. k \<in> set (tick_keys ticks n)))"

declare reported_at.simps [simp del]

text \<open>What the stored state holds of a path before tick \<open>j\<close>.\<close>

definition recent :: "real \<Rightarrow> real \<Rightarrow> real option \<Rightarrow> bool" where
  "recent repeat_sec now u \<longleftrightarrow> (case u of None \<Rightarrow> False | Some t \<Rightarrow> t \<noteq> 0 \<and> now - t < repeat_sec)"

primrec stamp_before :: "real \<Rightarrow> (real \<times> pydict list) list \<Rightarrow> string \<Rightarrow> nat \<Rightarrow> real option" where
  "stamp_before repeat_sec ticks k 0 = None"
| "stamp_before repeat_sec ticks k (Suc j) =
     (if k \<notin> set (tick_keys ticks j) then None
      else if recent repeat_sec (fst (ticks ! j)) (stamp_before repeat_sec ticks k j)
           then stamp_before repeat_sec ticks k j else Some (fst (ticks ! j)))"

lemma sent_recently_recent: "sent_recently now repeat_sec s k \<longleftrightarrow> recent repeat_sec now (map_of s k)"
  by (simp add: sent_recently_def recent_def)

definition stays_overdue :: "(real \<times> pydict list) list \<Rightarrow> string \<Rightarrow> nat \<Rightarrow> nat \<Rightarrow> bool" where
  "stays_overdue ticks k m j \<longleftrightarrow> (\<forall>n \<in> set [Suc m..<j]. k \<in> set (tick_keys ticks n))"

lemma stays_overdue_Suc: "m < j \<Longrightarrow> stays_overdue ticks k m (Suc j) \<longleftrightarrow> stays_overdue ticks k m j \<and> k \<in> set (tick_keys ticks j)"
  by (auto simp: stays_overdue_def less_Suc_eq)

text \<open>The stored stamp is the last report since the path is overdue; it is the latest of them in time.\<close>

lemma stamp_is_last_report:
  assumes "0 < r" and "\<forall>i < j. 0 < fst (ticks ! i)"
  shows "(\<forall>v. stamp_before r ticks k j = Some v \<longrightarrow>
      (\<exists>m < j. v = fst (ticks ! m) \<and> reported_at r ticks k m \<and> stays_overdue ticks k m j)) \<and>
    (\<forall>m < j. reported_at r ticks k m \<and> stays_overdue ticks k m j \<longrightarrow>
      (\<exists>v. stamp_before r ticks k j = Some v \<and> fst (ticks ! m) \<le> v))"
  using assms(2)
proof (induction j)
  case (Suc j)
  let ?t = "fst (ticks ! j)" and ?u = "stamp_before r ticks k j"
  have IH: "\<And>v. ?u = Some v \<Longrightarrow> \<exists>m < j. v = fst (ticks ! m) \<and> reported_at r ticks k m \<and> stays_overdue ticks k m j"
    "\<And>m. m < j \<Longrightarrow> reported_at r ticks k m \<Longrightarrow> stays_overdue ticks k m j \<Longrightarrow>
       \<exists>v. ?u = Some v \<and> fst (ticks ! m) \<le> v"
    using Suc by (simp_all add: less_Suc_eq)
  have now: "recent r ?t ?u \<longleftrightarrow> (\<exists>m < j. reported_at r ticks k m \<and> ?t - fst (ticks ! m) < r \<and> stays_overdue ticks k m j)"
    (is "_ \<longleftrightarrow> ?e")
  proof
    assume "recent r ?t ?u"
    then obtain v where "?u = Some v" "?t - v < r" by (auto simp: recent_def split: option.splits)
    with IH(1) show ?e by blast
  next
    assume ?e
    then obtain m where m: "m < j" "reported_at r ticks k m" "?t - fst (ticks ! m) < r" "stays_overdue ticks k m j" by blast
    with IH(2) obtain v where "?u = Some v" "fst (ticks ! m) \<le> v" by blast
    moreover have "0 < fst (ticks ! m)" using Suc.prems m(1) by simp
    ultimately show "recent r ?t ?u" using m(3) by (simp add: recent_def)
  qed
  have rep: "reported_at r ticks k j \<longleftrightarrow> k \<in> set (tick_keys ticks j) \<and> \<not> recent r ?t ?u"
    by (subst reported_at.simps) (auto simp: now stays_overdue_def)
  show ?case
  proof (cases "k \<in> set (tick_keys ticks j)")
    case False
    have "\<not> reported_at r ticks k m \<or> \<not> stays_overdue ticks k m (Suc j)" if "m < Suc j" for m
      using that False rep by (cases "m = j") (simp_all add: stays_overdue_Suc)
    with False show ?thesis by auto
  next
    case over: True
    have self: "stays_overdue ticks k j (Suc j)" by (simp add: stays_overdue_def)
    have keep: "stays_overdue ticks k m (Suc j) \<longleftrightarrow> stays_overdue ticks k m j" if "m < j" for m
      using that over by (simp add: stays_overdue_Suc)
    show ?thesis
    proof (cases "recent r ?t ?u")
      case True
      with rep have no: "\<not> reported_at r ticks k j" by simp
      from True over have u: "stamp_before r ticks k (Suc j) = ?u" by simp
      show ?thesis unfolding u using IH no keep by (metis less_Suc_eq)
    next
      case False
      with rep over have yes: "reported_at r ticks k j" by simp
      from False over have u: "stamp_before r ticks k (Suc j) = Some ?t" by simp
      have "fst (ticks ! m) \<le> ?t" if m: "m < j" "reported_at r ticks k m" "stays_overdue ticks k m j" for m
      proof -
        have "\<not> ?t - fst (ticks ! m) < r" using False now m by blast
        with assms(1) show ?thesis by simp
      qed
      then show ?thesis unfolding u using yes self keep by (auto simp: less_Suc_eq)
    qed
  qed
qed simp

lemma reported_iff:
  assumes "0 < r" and "\<forall>i \<le> j. 0 < fst (ticks ! i)"
  shows "reported_at r ticks k j \<longleftrightarrow>
    k \<in> set (tick_keys ticks j) \<and> \<not> recent r (fst (ticks ! j)) (stamp_before r ticks k j)"
proof -
  note st = stamp_is_last_report [OF assms(1), of j ticks k]
  have pos: "\<forall>i < j. 0 < fst (ticks ! i)" using assms(2) by simp
  have "recent r (fst (ticks ! j)) (stamp_before r ticks k j) \<longleftrightarrow>
    (\<exists>m < j. reported_at r ticks k m \<and> fst (ticks ! j) - fst (ticks ! m) < r \<and> stays_overdue ticks k m j)" (is "?l = ?e")
  proof
    assume ?l
    then obtain v where "stamp_before r ticks k j = Some v" "fst (ticks ! j) - v < r"
      by (auto simp: recent_def split: option.splits)
    with st pos show ?e by blast
  next
    assume ?e
    then obtain m where m: "m < j" "reported_at r ticks k m" "fst (ticks ! j) - fst (ticks ! m) < r" "stays_overdue ticks k m j" by blast
    with st pos obtain v where v: "stamp_before r ticks k j = Some v" "fst (ticks ! m) \<le> v" by blast
    with m(1,3) pos show ?l by (auto simp: recent_def)
  qed
  then show ?thesis by (subst reported_at.simps) (auto simp: stays_overdue_def)
qed

subsection \<open>One tick over the stored state\<close>

lemma report_some:
  assumes "distinct (map alert_key its)" and "\<forall>i \<in> set its. alert_key i \<noteq> []"
  shows "report_items t r its s =
    (fold (\<lambda>i. AList.update (alert_key i) t) (filter (\<lambda>i. \<not> sent_recently t r s (alert_key i)) its) s,
     map alert_name (filter (\<lambda>i. \<not> sent_recently t r s (alert_key i)) its))"
  using assms
proof (induction its arbitrary: s)
  case (Cons i its)
  show ?case
  proof (cases "sent_recently t r s (alert_key i)")
    case False
    have "sent_recently t r (AList.update (alert_key i) t s) (alert_key j) = sent_recently t r s (alert_key j)"
      if "j \<in> set its" for j
      using Cons.prems(1) that by (intro sent_recently_other) (auto simp: image_iff)
    then have same: "filter (\<lambda>j. \<not> sent_recently t r (AList.update (alert_key i) t s) (alert_key j)) its =
        filter (\<lambda>j. \<not> sent_recently t r s (alert_key j)) its"
      by (intro filter_cong) auto
    from Cons False same show ?thesis by (simp add: Let_def)
  qed (use Cons in simp)
qed simp

text \<open>The record of reports at the given times stays within the 512 entries and the size of a setting.\<close>

definition recordable :: "real set \<Rightarrow> pydict list \<Rightarrow> bool" where
  "recordable ts its \<longleftrightarrow> length its \<le> max_tracked \<and>
     (\<forall>s. distinct (map fst s) \<and> set s \<subseteq> (alert_key ` set its) \<times> ts \<longrightarrow> fits (state_value s))"

lemma map_of_same_set:
  "distinct (map fst xs) \<Longrightarrow> distinct (map fst ys) \<Longrightarrow> set xs = set ys \<Longrightarrow> map_of xs = map_of ys"
  by (simp add: map_of_inject_set)

lemma stored_state:
  assumes "recordable ts its" and "distinct (map fst s)" and "set s \<subseteq> (alert_key ` set its) \<times> ts"
    and "distinct (map alert_key its)"
  obtains s1 where "load_state (store_state s now db) = Inr s1" "map_of s1 = map_of s"
    "distinct (map fst s1)" "set s1 = set s"
proof -
  have "length s = card (fst ` set s)" using assms(2) by (metis distinct_card length_map set_map)
  also have "\<dots> \<le> card (alert_key ` set its)" using assms(3) by (intro card_mono) auto
  also have "\<dots> \<le> max_tracked" using assms(1) card_image_le [of "set its" alert_key] card_length [of its]
    by (simp add: recordable_def)
  finally have tr: "trimmed_state s = sort_key (\<lambda>kv. - snd kv) s" by (simp add: trimmed_state_def)
  have d: "distinct (map fst (trimmed_state s))" using assms(2) unfolding tr
    by (metis mset_eq_imp_distinct_iff mset_map mset_sort)
  have eq: "set (trimmed_state s) = set s" by (simp add: tr)
  have "fits (state_value (trimmed_state s))"
    using assms(1,3) d unfolding recordable_def eq [symmetric] by blast
  from store_state_reads_back [OF this assms(2)] map_of_same_set [OF d assms(2) eq] d eq show ?thesis
    using that by blast
qed

lemma tick_effect:
  assumes "alert_settings cfg = Inr st" and "alert_enabled st" and "load_state db = Inr s"
    and "distinct (map alert_key its)" and "\<forall>i \<in> set its. alert_key i \<noteq> []"
    and "recordable ts its" and "t \<in> ts" and "snd ` set s \<subseteq> ts"
    and r: "r = of_int (repeat_hours st * 3600)"
    and names: "names = map alert_name (filter (\<lambda>i. \<not> recent r t (map_of s (alert_key i))) its)"
  obtains db1 s1 where
    "notify_overdue cfg its t db = Inr (db1, names, if names = [] then None else Some (alarm_for its names))"
    "load_state db1 = Inr s1" "snd ` set s1 \<subseteq> ts"
    "map_of s1 = (\<lambda>k. if k \<notin> alert_key ` set its then None
       else if recent r t (map_of s k) then map_of s k else Some t)"
proof -
  define kept where "kept = filter (\<lambda>kv. fst kv \<in> alert_key ` set its) s"
  define fresh where "fresh = filter (\<lambda>i. \<not> sent_recently t r kept (alert_key i)) its"
  define new where "new = fold (\<lambda>i. AList.update (alert_key i) t) fresh kept"
  have sd: "distinct (map fst s)" by (rule load_state_distinct [OF assms(3)])
  have kd: "distinct (map fst kept)" unfolding kept_def using sd by (rule distinct_map_filter)
  have get: "map_of kept k = (if k \<in> alert_key ` set its then map_of s k else None)" for k
    unfolding kept_def by (induction s) auto
  have named: "names = map alert_name fresh"
    unfolding names fresh_def by (intro arg_cong [where f = "map alert_name"] filter_cong) (auto simp: sent_recently_recent get)
  have rep: "report_items t r its kept = (new, names)"
    unfolding report_some [OF assms(4,5)] named by (simp add: new_def fresh_def)
  have nd: "distinct (map fst new)" unfolding new_def by (rule fold_update_distinct [OF kd])
  have mo: "map_of new = (\<lambda>k. if k \<notin> alert_key ` set its then None
      else if recent r t (map_of s k) then map_of s k else Some t)"
  proof
    fix k
    have "k \<in> alert_key ` set fresh \<longleftrightarrow> k \<in> alert_key ` set its \<and> \<not> recent r t (map_of s k)"
      by (auto simp: fresh_def sent_recently_recent get)
    then show "map_of new k = (if k \<notin> alert_key ` set its then None
        else if recent r t (map_of s k) then map_of s k else Some t)"
      by (simp add: new_def fold_update_map get)
  qed
  have ns: "set new \<subseteq> (alert_key ` set its) \<times> ts"
  proof
    fix kv assume kv: "kv \<in> set new"
    then have "map_of new (fst kv) = Some (snd kv)" using nd by (intro map_of_is_SomeI) auto
    with mo have "fst kv \<in> alert_key ` set its \<and> (snd kv = t \<or> map_of s (fst kv) = Some (snd kv))"
      by (auto split: if_splits)
    moreover have "snd kv \<in> ts" if "map_of s (fst kv) = Some (snd kv)"
      using map_of_SomeD [OF that] assms(8) by force
    ultimately show "kv \<in> (alert_key ` set its) \<times> ts" using assms(7) by (cases kv) auto
  qed
  define gone where "gone = filter (\<lambda>k. k \<notin> set (map alert_key its)) (map fst s)"
  have n: "notify_overdue cfg its t db = Inr (if names \<noteq> [] \<or> gone \<noteq> [] then store_state new t db else db,
      names, if names = [] then None else Some (alarm_for its names))"
    using assms(1-3) rep r by (simp add: notify_overdue_def Let_def kept_def gone_def)
  show ?thesis
  proof (cases "names \<noteq> [] \<or> gone \<noteq> []")
    case True
    obtain s1 where s1: "load_state (store_state new t db) = Inr s1" "map_of s1 = map_of new" "set s1 = set new"
      using stored_state [OF assms(6) nd ns assms(4)] by metis
    show ?thesis by (rule that [of "store_state new t db" s1]) (use n True s1 ns mo in auto)
  next
    case False
    then have "fresh = []" "kept = s"
      using named by (auto simp: gone_def kept_def filter_empty_conv intro!: filter_True)
    then have "new = s" by (simp add: new_def)
    show ?thesis by (rule that [of db s]) (use n False assms(3,8) mo \<open>new = s\<close> in auto)
  qed
qed

subsection \<open>Theorems\<close>

lemma alarm_run_states:
  assumes "alert_settings cfg = Inr st" and "alert_enabled st" and "load_state db = Inr []"
    and r: "r = of_int (repeat_hours st * 3600)"
    and ok: "\<forall>(t, its) \<in> set ticks. distinct (map alert_key its) \<and> (\<forall>i \<in> set its. alert_key i \<noteq> []) \<and>
       recordable (fst ` set ticks) its"
    and "j \<le> length ticks"
  shows "\<exists>db' outs s. alarm_run cfg (take j ticks) db = Inr (db', outs) \<and> length outs = j \<and>
    load_state db' = Inr s \<and> snd ` set s \<subseteq> fst ` set ticks \<and> map_of s = (\<lambda>k. stamp_before r ticks k j) \<and>
    (\<forall>i < j. let names = map alert_name (filter (\<lambda>x.
         \<not> recent r (fst (ticks ! i)) (stamp_before r ticks (alert_key x) i)) (snd (ticks ! i)))
       in outs ! i = (names, if names = [] then None else Some (alarm_for (snd (ticks ! i)) names)))"
  using assms(6)
proof (induction j)
  case 0
  then show ?case using assms(3) by auto
next
  case (Suc j)
  then obtain db1 outs s where p: "alarm_run cfg (take j ticks) db = Inr (db1, outs)" "length outs = j"
    "load_state db1 = Inr s" "snd ` set s \<subseteq> fst ` set ticks" "map_of s = (\<lambda>k. stamp_before r ticks k j)"
    and said: "\<forall>i < j. let names = map alert_name (filter (\<lambda>x.
         \<not> recent r (fst (ticks ! i)) (stamp_before r ticks (alert_key x) i)) (snd (ticks ! i)))
       in outs ! i = (names, if names = [] then None else Some (alarm_for (snd (ticks ! i)) names))" by auto
  obtain t its where tick: "ticks ! j = (t, its)" by (cases "ticks ! j")
  then have inn: "(t, its) \<in> set ticks" using Suc.prems by (metis Suc_le_lessD nth_mem)
  then have k: "distinct (map alert_key its)" "\<forall>i \<in> set its. alert_key i \<noteq> []" "recordable (fst ` set ticks) its"
    "t \<in> fst ` set ticks" using ok by (auto simp: image_iff intro: bexI [of _ "(t, its)"])
  define names where "names = map alert_name (filter (\<lambda>i. \<not> recent r t (map_of s (alert_key i))) its)"
  from tick_effect [OF assms(1,2) p(3) k p(4) r names_def] obtain db2 s2 where
    n: "notify_overdue cfg its t db1 = Inr (db2, names, if names = [] then None else Some (alarm_for its names))"
    "load_state db2 = Inr s2" "snd ` set s2 \<subseteq> fst ` set ticks"
    "map_of s2 = (\<lambda>k. if k \<notin> alert_key ` set its then None
       else if recent r t (map_of s k) then map_of s k else Some t)" .
  let ?new = "(names, if names = [] then None else Some (alarm_for its names))"
  have run: "alarm_run cfg (take (Suc j) ticks) db = Inr (db2, outs @ [?new])"
    using Suc.prems by (simp add: take_Suc_conv_app_nth alarm_run_append p(1) tick n(1))
  have "map_of s2 = (\<lambda>k. stamp_before r ticks k (Suc j))"
    unfolding n(4) p(5) by (rule ext) (simp add: tick_keys_def tick)
  with run n(2,3) show ?case
    using said p(2,5) by (intro exI [of _ db2] exI [of _ "outs @ [?new]"] exI [of _ s2])
      (auto simp: less_Suc_eq nth_append Let_def tick names_def)
qed

text \<open>C40: overdue alarms are neither lost nor repeated. Take any sequence of scheduler ticks, each with the
  paths that are overdue then, over a store that holds no reports at first, with the alarm switched on. At
  each tick the alarm names exactly the overdue paths that are due for a report, in one message, and
  nothing is sent when there is none. A path is due for a report unless an earlier report of it is less
  than the configured interval ago and it has been overdue at every tick since; so one that recovered in
  between is reported again at once. The paths of a tick have different, nonempty keys, there are at most
  512 of them, their record fits into a runtime setting, and the clock is positive.\<close>

theorem alarm_once_per_interval:
  assumes "alert_settings cfg = Inr st" and "alert_enabled st" and "load_state db = Inr []"
    and "\<forall>(t, its) \<in> set ticks. 0 < t \<and> distinct (map alert_key its) \<and> (\<forall>i \<in> set its. alert_key i \<noteq> []) \<and>
       recordable (fst ` set ticks) its"
  shows "\<exists>db' outs. alarm_run cfg ticks db = Inr (db', outs) \<and> length outs = length ticks \<and>
    (\<forall>j < length ticks. let names = map alert_name (filter (\<lambda>x.
         reported_at (of_int (repeat_hours st * 3600)) ticks (alert_key x) j) (snd (ticks ! j)))
       in outs ! j = (names, if names = [] then None else Some (alarm_for (snd (ticks ! j)) names)))"
proof -
  define r :: real where "r = of_int (repeat_hours st * 3600)"
  have "1 \<le> repeat_hours st" using assms(1) bounded_int_bounds [of 1 720 _ 24]
    by (auto simp: alert_settings_def Let_def split: sum.splits)
  then have pos: "0 < r" by (simp add: r_def)
  have ok: "\<forall>(t, its) \<in> set ticks. distinct (map alert_key its) \<and> (\<forall>i \<in> set its. alert_key i \<noteq> []) \<and>
       recordable (fst ` set ticks) its" using assms(4) by auto
  from alarm_run_states [OF assms(1-3) r_def ok order_refl] obtain db' outs where
    o: "alarm_run cfg ticks db = Inr (db', outs)" "length outs = length ticks"
    "\<forall>i < length ticks. let names = map alert_name (filter (\<lambda>x.
         \<not> recent r (fst (ticks ! i)) (stamp_before r ticks (alert_key x) i)) (snd (ticks ! i)))
       in outs ! i = (names, if names = [] then None else Some (alarm_for (snd (ticks ! i)) names))" by auto
  have clock: "0 < fst (ticks ! i)" if "i < length ticks" for i
    using bspec [OF assms(4) nth_mem [OF that]] by (simp add: case_prod_unfold)
  have same: "filter (\<lambda>x. \<not> recent r (fst (ticks ! j)) (stamp_before r ticks (alert_key x) j)) (snd (ticks ! j)) =
      filter (\<lambda>x. reported_at r ticks (alert_key x) j) (snd (ticks ! j))" if "j < length ticks" for j
  proof (rule filter_cong [OF refl])
    fix x assume "x \<in> set (snd (ticks ! j))"
    moreover have "\<forall>i \<le> j. 0 < fst (ticks ! i)" using clock that by simp
    ultimately show "(\<not> recent r (fst (ticks ! j)) (stamp_before r ticks (alert_key x) j)) = reported_at r ticks (alert_key x) j"
      by (simp add: reported_iff [OF pos] tick_keys_def)
  qed
  show ?thesis using o same unfolding r_def [symmetric] by auto
qed

text \<open>A recovery arms the alarm again: after one tick at which a path is not overdue, its next
  failure is reported at once, however recently it had been reported.\<close>

theorem recovery_arms_the_alarm:
  assumes "alert_settings cfg = Inr st" and "alert_enabled st"
    and "notify_overdue cfg [] t db = Inr (db1, names, msg)" and "\<exists>s. load_state db = Inr s"
    and "its \<noteq> []" and "distinct (map alert_key its)" and "small_keys (map alert_key its) later"
    and "\<forall>i \<in> set its. alert_key i \<noteq> []"
  shows "names = [] \<and> msg = None \<and> (\<exists>db2. notify_overdue cfg its later db1 =
    Inr (db2, map alert_name its, Some (alarm_for its (map alert_name its))))"
proof -
  from assms(4) obtain s where s: "load_state db = Inr s" by blast
  have empty: "notify_overdue cfg [] t db = Inr (if s \<noteq> [] then store_state [] t db else db, [], None)"
    by (simp add: notify_overdue_def assms(1,2) s)
  from Inr_inject [OF trans [OF assms(3) [symmetric] empty]]
  have r: "names = []" "msg = None" "db1 = (if s \<noteq> [] then store_state [] t db else db)"
    by blast+
  have "fits (state_value (trimmed_state []))" by (simp add: fits_def state_value_def trimmed_state_def)
  then have "load_state db1 = Inr ([] :: alert_state)"
    using s store_state_reads_back [of "[]" t db] by (simp add: r(3) trimmed_state_def)
  moreover have "\<forall>i \<in> set its. alert_key i \<noteq> [] \<and>
      \<not> sent_recently later (of_int (repeat_hours st * 3600)) [] (alert_key i)"
    using assms(8) by (simp add: sent_recently_def)
  ultimately obtain db2 ks where
    "notify_overdue cfg its later db1 = Inr (db2, map alert_name its, Some (alarm_for its (map alert_name its)))"
    by (rule notify_all [OF assms(1,2) _ assms(5-7)])
  with r show ?thesis by blast
qed

text \<open>When a path is called overdue: only if it has a time limit, and then exactly when it has no
  recorded success or its last one is older than the limit; a success in the future is not overdue.\<close>

theorem overdue_verdict:
  assumes "evaluate_pair pair last_success now = Inr v" and "max_age_hours pair = Inr limit"
  shows "py_get v ''overdue'' = PBool (0 < limit \<and>
    (case last_success of None \<Rightarrow> True | Some t \<Rightarrow> limit * 3600 < now - t))"
  using assms by (auto simp: evaluate_pair_def is_overdue_def success_age_def py_get_def less_max_iff_disj field_simps split: option.split)

subsection \<open>A concrete alarm\<close>

definition demo_item :: pydict where
  "demo_item = [(''name'', PStr ''daten''), (''history_key'', PStr ''rclone:1''), (''success_age_hours'', PNone),
     (''max_success_age_hours'', PFloat 24)]"

lemma demo_settings: "alert_settings [] = Inr \<lparr>alert_enabled = True, repeat_hours = 24\<rparr>"
  by code_simp

lemma demo_keys: "small_keys (map alert_key [demo_item]) 10" "small_keys (map alert_key [demo_item]) 30"
proof -
  have k: "map alert_key [demo_item] = [''rclone:1'']" by code_simp
  have "length (json_dumps (state_value [(''rclone:1'', 10)])) \<le> 64"
    "length (json_dumps (state_value [(''rclone:1'', 30)])) \<le> 64" by (code_simp+)
  then have f: "fits (state_value [(''rclone:1'', 10)])" "fits (state_value [(''rclone:1'', 30)])"
    by (simp_all add: fits_def)
  have one: "ks = [''rclone:1'']" if "mset ks = {#''rclone:1''#}" for ks
    using that by (cases ks) auto
  show "small_keys (map alert_key [demo_item]) 10" "small_keys (map alert_key [demo_item]) 30"
    unfolding small_keys_def k using f by (auto simp: max_tracked_def dest!: one)
qed

definition demo_ticks :: "(real \<times> pydict list) list" where
  "demo_ticks = [(10, [demo_item]), (20, [demo_item]), (30, []), (40, [demo_item])]"

lemma demo_recordable: "recordable {10, 20, 30, 40} [demo_item]" "recordable {10, 20, 30, 40} []"
proof -
  have k: "alert_key demo_item = ''rclone:1''" by code_simp
  have "length (json_dumps (state_value [])) \<le> 64" "length (json_dumps (state_value [(''rclone:1'', 10)])) \<le> 64"
    "length (json_dumps (state_value [(''rclone:1'', 20)])) \<le> 64"
    "length (json_dumps (state_value [(''rclone:1'', 30)])) \<le> 64"
    "length (json_dumps (state_value [(''rclone:1'', 40)])) \<le> 64" by (code_simp+)
  then have f: "fits (state_value [])" "fits (state_value [(''rclone:1'', 10)])" "fits (state_value [(''rclone:1'', 20)])"
    "fits (state_value [(''rclone:1'', 30)])" "fits (state_value [(''rclone:1'', 40)])"
    by (simp_all add: fits_def)
  have one: "s = [] \<or> (\<exists>u \<in> {10, 20, 30, 40}. s = [(''rclone:1'', u)])"
    if "distinct (map fst s)" "set s \<subseteq> {''rclone:1''} \<times> {10, 20, 30, 40 :: real}" for s
  proof (cases s)
    case (Cons a b)
    show ?thesis
    proof (cases b)
      case Nil
      with Cons that show ?thesis by auto
    next
      case (Cons c d)
      with \<open>s = a # b\<close> that show ?thesis by auto
    qed
  qed simp
  show "recordable {10, 20, 30, 40} [demo_item]"
    unfolding recordable_def using f k by (auto simp: max_tracked_def dest!: one)
  show "recordable {10, 20, 30, 40} []" by (simp add: recordable_def f(1))
qed

theorem alarm_once_per_interval_witness:
  "\<exists>db' a b. alarm_run [] demo_ticks empty_runtime_db =
     Inr (db', [([''daten''], Some a), ([], None), ([], None), ([''daten''], Some b)])"
proof -
  define st where "st = \<lparr>alert_enabled = True, repeat_hours = 24\<rparr>"
  have s: "alert_settings [] = Inr st" "alert_enabled st" by (simp_all add: demo_settings st_def)
  have l: "load_state empty_runtime_db = Inr []" by code_simp
  have k: "alert_key demo_item = ''rclone:1''" "alert_name demo_item = ''daten''" by (code_simp+)
  have ts: "fst ` set demo_ticks = {10, 20, 30, 40}" by (auto simp: demo_ticks_def)
  have ok: "\<forall>(t, its) \<in> set demo_ticks. 0 < t \<and> distinct (map alert_key its) \<and> (\<forall>i \<in> set its. alert_key i \<noteq> []) \<and>
      recordable (fst ` set demo_ticks) its"
    unfolding ts using demo_recordable k(1) by (auto simp: demo_ticks_def)
  have r: "of_int (repeat_hours st * 3600) = (86400 :: real)" by (simp add: st_def)
  have keys: "tick_keys demo_ticks 0 = [''rclone:1'']" "tick_keys demo_ticks 1 = [''rclone:1'']"
    "tick_keys demo_ticks 2 = []" "tick_keys demo_ticks 3 = [''rclone:1'']"
    by (simp_all add: tick_keys_def demo_ticks_def k(1))
  have rep: "reported_at 86400 demo_ticks ''rclone:1'' 0" "\<not> reported_at 86400 demo_ticks ''rclone:1'' 1"
    "reported_at 86400 demo_ticks ''rclone:1'' 3"
  proof -
    show z: "reported_at 86400 demo_ticks ''rclone:1'' 0" by (subst reported_at.simps) (simp add: keys)
    show o1: "\<not> reported_at 86400 demo_ticks ''rclone:1'' 1"
      by (subst reported_at.simps) (use z in \<open>simp add: demo_ticks_def\<close>)
    have t2: "\<not> reported_at 86400 demo_ticks ''rclone:1'' 2" by (subst reported_at.simps) (simp add: keys)
    have only: "m \<noteq> 0 \<Longrightarrow> \<not> reported_at 86400 demo_ticks ''rclone:1'' m" if "m < 3" for m
      using that o1 t2 by (cases "m = 1"; cases "m = 2") auto
    have "\<not> (\<exists>m < 3. reported_at 86400 demo_ticks ''rclone:1'' m \<and>
        (\<forall>n \<in> set [Suc m..<3]. ''rclone:1'' \<in> set (tick_keys demo_ticks n)))"
    proof
      assume "\<exists>m < 3. reported_at 86400 demo_ticks ''rclone:1'' m \<and>
        (\<forall>n \<in> set [Suc m..<3]. ''rclone:1'' \<in> set (tick_keys demo_ticks n))"
      then obtain m where m: "m < 3" "reported_at 86400 demo_ticks ''rclone:1'' m"
        "\<forall>n \<in> set [Suc m..<3]. ''rclone:1'' \<in> set (tick_keys demo_ticks n)" by blast
      from only m(1,2) have "m = 0" by blast
      with bspec [OF m(3), of 2] keys(3) show False by simp
    qed
    then show "reported_at 86400 demo_ticks ''rclone:1'' 3"
      by (subst reported_at.simps) (auto simp: keys)
  qed
  from alarm_once_per_interval [OF s l ok] obtain db' outs where
    o: "alarm_run [] demo_ticks empty_runtime_db = Inr (db', outs)" "length outs = 4"
    "\<forall>j < 4. let names = map alert_name (filter (\<lambda>x. reported_at 86400 demo_ticks (alert_key x) j) (snd (demo_ticks ! j)))
       in outs ! j = (names, if names = [] then None else Some (alarm_for (snd (demo_ticks ! j)) names))"
    unfolding r by (auto simp: demo_ticks_def)
  have "outs = [outs ! 0, outs ! 1, outs ! 2, outs ! 3]"
    using o(2) by (intro nth_equalityI) (auto simp: less_Suc_eq numeral_eq_Suc)
  moreover have "outs ! 0 = ([''daten''], Some (alarm_for [demo_item] [''daten'']))"
    using o(3) [rule_format, of 0] rep(1) by (simp add: demo_ticks_def Let_def k)
  moreover have "outs ! 1 = ([], None)"
    using o(3) [rule_format, of 1] rep(2) by (simp add: demo_ticks_def Let_def k)
  moreover have "outs ! 2 = ([], None)"
    using o(3) [rule_format, of 2] by (simp add: demo_ticks_def Let_def)
  moreover have "outs ! 3 = ([''daten''], Some (alarm_for [demo_item] [''daten'']))"
    using o(3) [rule_format, of 3] rep(3) by (simp add: demo_ticks_def Let_def k)
  ultimately show ?thesis using o(1) by metis
qed

theorem recovery_arms_the_alarm_witness:
  "\<exists>db1 db2 msg. notify_overdue [] [] 20 (store_state [(''rclone:1'', 10)] 10 empty_runtime_db) = Inr (db1, [], None) \<and>
     notify_overdue [] [demo_item] 30 db1 = Inr (db2, [''daten''], Some msg)"
proof -
  define db where "db = store_state [(''rclone:1'', 10)] 10 empty_runtime_db"
  have f: "fits (state_value (trimmed_state [(''rclone:1'', 10)]))"
    using demo_keys(1) by (simp add: small_keys_def trimmed_state_def max_tracked_def alert_key_def demo_item_def
      py_get_def py_or_def str_or_def)
  have l: "\<exists>s. load_state db = Inr s" using store_state_reads_back [OF f] by (auto simp: db_def)
  then obtain db1 where n: "notify_overdue [] [] 20 db = Inr (db1, [], None)"
    by (auto simp: notify_overdue_def demo_settings)
  have k: "\<forall>i \<in> set [demo_item]. alert_key i \<noteq> []" "map alert_name [demo_item] = [''daten'']" by (code_simp+)
  from recovery_arms_the_alarm [OF demo_settings _ n l _ _ demo_keys(2) k(1)] obtain db2 where
    "notify_overdue [] [demo_item] 30 db1 =
       Inr (db2, map alert_name [demo_item], Some (alarm_for [demo_item] (map alert_name [demo_item])))"
    by auto
  with n k(2) show ?thesis unfolding db_def by metis
qed

theorem overdue_verdict_witness:
  "\<exists>v. evaluate_pair [(''max_success_age_hours'', PInt 2)] (Some 0) 10000 = Inr v \<and> py_get v ''overdue'' = PBool True"
proof -
  have m: "max_age_hours [(''max_success_age_hours'', PInt 2)] = Inr 2" by code_simp
  then obtain v where v: "evaluate_pair [(''max_success_age_hours'', PInt 2)] (Some 0) 10000 = Inr v"
    by (simp add: evaluate_pair_def)
  from overdue_verdict [OF v m] v show ?thesis by auto
qed

end
