(* ===== verification/Pair_Planner.thy ===== *)
theory Pair_Planner
  imports Security_Paths "HOL-Library.Multiset"
begin

text \<open>
  \<open>app/jobs/pair_planner.py\<close>: which data paths may run in parallel. Two paths conflict when one of
  their ends lies inside one of the other's. \<open>resolve\<close> stands for \<open>Path(..).resolve().parts\<close>, \<open>None\<close>
  where it raises; unclear identities count as conflicts.
\<close>

definition is_remote :: "string \<Rightarrow> bool" where
  "is_remote path \<longleftrightarrow>
     path \<noteq> [] \<and> \<not> py_startswith path ''/'' \<and> \<not> py_startswith path ''-'' \<and> colon \<in> set path"

definition canonical_remote :: "string \<Rightarrow> string" where
  "canonical_remote v =
     py_casefold (before_char colon v) @ [colon] @
     rstrip_char slash (slash # lstrip_char slash (after_char colon v))"

definition parts_overlap :: "string list \<Rightarrow> string list \<Rightarrow> bool" where
  "parts_overlap a b \<longleftrightarrow>
     (let aa = map py_casefold a; bb = map py_casefold b
      in aa = bb \<or> take (length bb) aa = bb \<or> take (length aa) bb = aa)"

definition paths_overlap :: "(string \<Rightarrow> string list option) \<Rightarrow> string \<Rightarrow> string \<Rightarrow> bool" where
  "paths_overlap resolve a b =
     (if a = [] \<or> b = [] \<or> is_remote a \<noteq> is_remote b then False
      else if is_remote a then
        (let aa = canonical_remote a; bb = canonical_remote b
         in aa = bb \<or> py_startswith aa (bb @ [slash]) \<or> py_startswith bb (aa @ [slash]))
      else (case (resolve a, resolve b) of (Some p, Some q) \<Rightarrow> parts_overlap p q | _ \<Rightarrow> True))"

definition path_ends :: "pydict \<Rightarrow> string list" where
  "path_ends pair = map (\<lambda>k. str_or (py_get pair k) []) [''local'', ''remote'']"

definition pairs_conflict :: "(string \<Rightarrow> string list option) \<Rightarrow> pydict \<Rightarrow> pydict \<Rightarrow> bool" where
  "pairs_conflict resolve first second \<longleftrightarrow>
     list_ex (\<lambda>a. list_ex (paths_overlap resolve a) (path_ends second)) (path_ends first)"

fun has_overlapping_pairs :: "(string \<Rightarrow> string list option) \<Rightarrow> pydict list \<Rightarrow> bool" where
  "has_overlapping_pairs resolve [] = False"
| "has_overlapping_pairs resolve (p # ps) =
     (list_ex (pairs_conflict resolve p) ps \<or> has_overlapping_pairs resolve ps)"

subsection \<open>Lemmas\<close>

lemma parts_overlap_sym: "parts_overlap a b = parts_overlap b a"
  by (auto simp: parts_overlap_def Let_def)

lemma paths_overlap_sym: "paths_overlap resolve a b = paths_overlap resolve b a"
  by (auto simp: paths_overlap_def Let_def parts_overlap_sym split: option.split)

lemma pairs_conflict_sym: "pairs_conflict resolve p q = pairs_conflict resolve q p"
  unfolding pairs_conflict_def list_ex_iff using paths_overlap_sym [of resolve] by blast

lemma no_overlap_iff:
  "\<not> has_overlapping_pairs resolve ps \<longleftrightarrow> sorted_wrt (\<lambda>p q. \<not> pairs_conflict resolve p q) ps"
  by (induction ps) (auto simp: list_ex_iff)

lemma sorted_wrt_nth_sym:
  assumes "sorted_wrt R ps" and "\<And>p q. R p q \<Longrightarrow> R q p" and "i < length ps" "j < length ps" "i \<noteq> j"
  shows "R (ps ! i) (ps ! j)"
  using assms by (cases "i < j") (auto simp: sorted_wrt_iff_nth_less)

lemma sorted_wrt_perm:
  assumes sym: "\<And>p q. R p q \<Longrightarrow> R q p"
  shows "mset ps = mset qs \<Longrightarrow> sorted_wrt R ps \<Longrightarrow> sorted_wrt R qs"
proof (induction ps arbitrary: qs)
  case (Cons p ps)
  from Cons.prems(1) have "p \<in> set qs" by (metis list.set_intros(1) set_mset_mset)
  then obtain us vs where qs: "qs = us @ p # vs" by (auto simp: in_set_conv_decomp)
  with Cons.prems(1) have m: "mset ps = mset (us @ vs)" by simp
  have "sorted_wrt R (us @ vs)" using Cons.IH [OF m] Cons.prems(2) by simp
  moreover have "\<forall>q \<in> set (us @ vs). R p q"
    using Cons.prems(2) mset_eq_setD [OF m] by simp
  ultimately show ?case using sym by (auto simp: qs sorted_wrt_append)
qed simp

text \<open>The decision to run in parallel does not depend on the order of the configuration, and when
  it is made, no two different paths of the list conflict, whichever is looked at first.\<close>

theorem parallel_plan_is_conflict_free:
  assumes "mset ps = mset qs"
  shows "has_overlapping_pairs resolve qs = has_overlapping_pairs resolve ps \<and>
    (has_overlapping_pairs resolve ps \<or>
     (\<forall>i < length qs. \<forall>j < length qs. i \<noteq> j \<longrightarrow> \<not> pairs_conflict resolve (qs ! i) (qs ! j)))"
proof -
  let ?R = "\<lambda>p q. \<not> pairs_conflict resolve p q"
  have sym: "?R p q \<Longrightarrow> ?R q p" for p q by (simp add: pairs_conflict_sym)
  have eq: "sorted_wrt ?R ps = sorted_wrt ?R qs"
    using sorted_wrt_perm [of ?R, OF sym assms] sorted_wrt_perm [of ?R, OF sym assms [symmetric]] by blast
  then have "has_overlapping_pairs resolve qs = has_overlapping_pairs resolve ps"
    using no_overlap_iff [of resolve ps] no_overlap_iff [of resolve qs] by blast
  moreover have "?R (qs ! i) (qs ! j)" if "\<not> has_overlapping_pairs resolve ps" "i < length qs" "j < length qs" "i \<noteq> j" for i j
  proof -
    have "sorted_wrt ?R qs" using that(1) eq no_overlap_iff [of resolve ps] by blast
    from sorted_wrt_nth_sym [OF this sym that(2-4)] show ?thesis .
  qed
  ultimately show ?thesis by blast
qed

definition demo_pair :: "string \<Rightarrow> string \<Rightarrow> pydict" where
  "demo_pair l r = [(''local'', PStr l), (''remote'', PStr r)]"

theorem parallel_plan_is_conflict_free_witness:
  "has_overlapping_pairs (\<lambda>p. Some (split_char slash p)) [demo_pair ''/b'' ''r:y'', demo_pair ''/a'' ''r:x''] = False \<and>
   \<not> pairs_conflict (\<lambda>p. Some (split_char slash p)) (demo_pair ''/a'' ''r:x'') (demo_pair ''/b'' ''r:y'')"
proof -
  have n: "\<not> has_overlapping_pairs (\<lambda>p. Some (split_char slash p)) [demo_pair ''/a'' ''r:x'', demo_pair ''/b'' ''r:y'']"
    by code_simp
  have m: "mset [demo_pair ''/a'' ''r:x'', demo_pair ''/b'' ''r:y''] = mset [demo_pair ''/b'' ''r:y'', demo_pair ''/a'' ''r:x'']"
    by simp
  from parallel_plan_is_conflict_free [OF m, of "\<lambda>p. Some (split_char slash p)"] n
  have "has_overlapping_pairs (\<lambda>p. Some (split_char slash p)) [demo_pair ''/b'' ''r:y'', demo_pair ''/a'' ''r:x''] = False"
    "\<forall>i < 2. \<forall>j < 2. i \<noteq> j \<longrightarrow> \<not> pairs_conflict (\<lambda>p. Some (split_char slash p))
       ([demo_pair ''/b'' ''r:y'', demo_pair ''/a'' ''r:x''] ! i) ([demo_pair ''/b'' ''r:y'', demo_pair ''/a'' ''r:x''] ! j)"
    by auto
  from this(1) spec [OF this(2), of 1] show ?thesis by (auto dest: spec [of _ 0])
qed

end
