(* ===== verification/Protection.thy ===== *)
theory Protection
  imports Due_Jobs Runtime_Store Pair_Planner Py_Rounding
begin

text \<open>
  \<open>app/protection.py\<close>: the guard against unexpected losses of source data (baselines, quarantines),
  the protection score and the protection calendar. The state of the guard is one runtime setting that
  is changed by atomic read-modify-write steps. \<open>v_hash\<close> stands for the first 32 hexadecimal digits of
  SHA-256, \<open>v_resolve\<close> and \<open>v_parts\<close> for \<open>Path(..).resolve()\<close> as text and as parts (\<open>None\<close> where it
  raises), \<open>v_day\<close> for the local date of a time stamp, and a run of \<open>rclone size\<close> is an input. Umlauts of
  messages are written in ASCII.
\<close>

record guard_env = sched_env +
  v_hash :: "string \<Rightarrow> string"
  v_resolve :: "string \<Rightarrow> string option"
  v_parts :: "string \<Rightarrow> string list option"
  v_day :: "string \<Rightarrow> real \<Rightarrow> string"

definition base_env :: "guard_env \<Rightarrow> sched_env" where
  "base_env env = sched_env.truncate env"

definition anomaly_key :: string where "anomaly_key = ''anomaly_guard:v1''"
definition max_quarantines :: nat where "max_quarantines = 256"

definition is_destructive :: "pydict \<Rightarrow> bool" where
  "is_destructive pair \<longleftrightarrow>
     py_casefold (str_or (py_get pair ''direction'') []) = ''bisync'' \<or>
     py_casefold (str_or (py_get pair ''mode'') []) = ''sync''"

record guard_config =
  guard_enabled :: bool
  file_drop :: real
  size_drop :: real
  min_files :: int
  measure_timeout :: int

definition guard_settings :: "pydict \<Rightarrow> pydict \<Rightarrow> guard_config result" where
  "guard_settings backup pair =
     (let common = as_dict (py_get backup ''anomaly_guard''); own = as_dict (py_get pair ''anomaly_guard'');
          val = (\<lambda>name dflt. py_get_default own name (py_get_default common name dflt))
      in bind_result (py_float (val ''file_drop_percent'' (PInt 35))) (\<lambda>fd.
         bind_result (py_float (val ''size_drop_percent'' (PInt 35))) (\<lambda>sd.
         bind_result (py_int (val ''min_baseline_files'' (PInt 100))) (\<lambda>mf.
         bind_result (py_int (val ''measurement_timeout_seconds'' (PInt 180))) (\<lambda>mt.
           Inr \<lparr>guard_enabled = truthy (val ''enabled'' (PBool True)), file_drop = fd, size_drop = sd,
                min_files = mf, measure_timeout = mt\<rparr>)))))"

subsection \<open>The state of the guard\<close>

record guard_state =
  baselines :: pydict
  quarantines :: pydict

definition state_key :: "guard_env \<Rightarrow> pydict \<Rightarrow> string" where
  "state_key env pair = v_hash env (rclone_history_key (base_env env) pair)"

definition normalize_state :: "pyval \<Rightarrow> guard_state" where
  "normalize_state raw =
     (case raw of
        PDict d \<Rightarrow> \<lparr>baselines = as_dict (py_get d ''baselines''), quarantines = as_dict (py_get d ''quarantines'')\<rparr>
      | _ \<Rightarrow> \<lparr>baselines = [], quarantines = []\<rparr>)"

definition raw_state :: "runtime_db \<Rightarrow> pyval" where
  "raw_state db = (case setting_of anomaly_key db of None \<Rightarrow> PDict [] | Some v \<Rightarrow> v)"

definition load_guard :: "runtime_db \<Rightarrow> guard_state" where
  "load_guard db = normalize_state (raw_state db)"

definition guard_value :: "guard_state \<Rightarrow> pyval" where
  "guard_value st = PDict [(''baselines'', PDict (baselines st)), (''quarantines'', PDict (quarantines st))]"

definition endpoint :: "guard_env \<Rightarrow> pydict \<Rightarrow> string \<Rightarrow> string" where
  "endpoint env pair field =
     (let v = normalize_remote_path (str_or (py_get pair field) [])
      in if v \<noteq> [] \<and> \<not> is_remote v then (case v_resolve env v of None \<Rightarrow> v | Some p \<Rightarrow> p) else v)"

definition quarantine_endpoints :: "guard_env \<Rightarrow> pydict \<Rightarrow> pydict" where
  "quarantine_endpoints env pair =
     [(''local'', PStr (endpoint env pair ''local'')), (''remote'', PStr (endpoint env pair ''remote''))]"

text \<open>A stored quarantine that is bound to endpoints overlapping those of the pair.\<close>

definition covers :: "guard_env \<Rightarrow> pydict \<Rightarrow> pyval \<Rightarrow> bool" where
  "covers env current v \<longleftrightarrow>
     (case v of
        PDict q \<Rightarrow> (case py_get q ''endpoints'' of PDict e \<Rightarrow> pairs_conflict (v_parts env) current e | _ \<Rightarrow> False)
      | _ \<Rightarrow> False)"

definition has_quarantine :: "guard_env \<Rightarrow> runtime_db \<Rightarrow> pydict \<Rightarrow> bool" where
  "has_quarantine env db pair \<longleftrightarrow>
     (let q = quarantines (load_guard db)
      in is_dict (py_get q (state_key env pair)) \<or>
         list_ex (covers env (quarantine_endpoints env pair)) (map snd q))"

definition quarantine_view :: "pydict \<Rightarrow> pydict" where
  "quarantine_view q =
     py_merge q [(''blocked'', PBool True), (''enabled'', PBool True), (''quarantine'', PDict q)]"

text \<open>Records from before the endpoints were stored apply through the pair that is still configured.\<close>

definition configured_hit :: "guard_env \<Rightarrow> pydict \<Rightarrow> pydict \<Rightarrow> pydict \<Rightarrow> pydict option" where
  "configured_hit env q current configured =
     (case py_get q (state_key env configured) of
        PDict old \<Rightarrow> (if pairs_conflict (v_parts env) current (quarantine_endpoints env configured) then Some old else None)
      | _ \<Rightarrow> None)"

definition first_some :: "('a \<Rightarrow> 'b option) \<Rightarrow> 'a list \<Rightarrow> 'b option" where
  "first_some f xs = (case List.map_filter f xs of [] \<Rightarrow> None | y # _ \<Rightarrow> Some y)"

definition active_quarantine :: "guard_env \<Rightarrow> runtime_db \<Rightarrow> pydict \<Rightarrow> pydict list \<Rightarrow> pydict option" where
  "active_quarantine env db pair configured =
     (if \<not> is_destructive pair then None
      else (let q = quarantines (load_guard db); current = quarantine_endpoints env pair
            in case py_get q (state_key env pair) of
                 PDict own \<Rightarrow> Some (quarantine_view own)
               | _ \<Rightarrow>
                   (case find (covers env current) (map snd q) of
                      Some v \<Rightarrow> Some (quarantine_view (as_dict v))
                    | None \<Rightarrow> map_option quarantine_view (first_some (configured_hit env q current) configured))))"

definition measured_at :: "string \<times> pyval \<Rightarrow> real result" where
  "measured_at kv =
     (case py_or (snd kv) (PDict []) of
        PDict b \<Rightarrow> py_float (py_or (py_get b ''measured_at'') (PInt 0))
      | _ \<Rightarrow> Inl TypeError)"

definition bounded_state :: "guard_state \<Rightarrow> guard_state result" where
  "bounded_state st =
     (if length (baselines st) \<le> max_quarantines then Inr st
      else bind_result (collect (\<lambda>kv. bind_result (measured_at kv) (\<lambda>t. Inr (t, kv))) (baselines st)) (\<lambda>timed.
        Inr (st\<lparr>baselines := map snd (take max_quarantines (sort_key (\<lambda>tk. - fst tk) timed))\<rparr>)))"

subsection \<open>Measuring the source\<close>

datatype size_run =
    SizeTimeout
  | SizeOsError string
  | SizeExit int string string "pyval result"

definition size_command :: "string list \<Rightarrow> string \<Rightarrow> string list" where
  "size_command filter_args path = [''rclone'', ''size'', ''--json''] @ filter_args @ [''--'', path]"

definition size_timeout :: "int \<Rightarrow> int" where
  "size_timeout seconds = max 10 (min seconds 900)"

definition size_field :: "pyval \<Rightarrow> string \<Rightarrow> int result" where
  "size_field payload k =
     (case payload of
        PDict d \<Rightarrow> (if has_key d k then py_int (py_get d k) else Inl (ValueError k))
      | _ \<Rightarrow> Inl TypeError)"

definition size_error :: "string \<Rightarrow> pydict" where
  "size_error text = [(''ok'', PBool False), (''error'', PStr text)]"

definition measure_path :: "guard_env \<Rightarrow> real \<Rightarrow> size_run \<Rightarrow> pydict result" where
  "measure_path env now run =
     (case run of
        SizeTimeout \<Rightarrow> Inr (size_error ''Groessenmessung hat das Zeitlimit ueberschritten'')
      | SizeOsError e \<Rightarrow> Inr (size_error e)
      | SizeExit code err out parsed \<Rightarrow>
          (if code \<noteq> 0
           then Inr (size_error (take 500 (py_strip
                  (if err \<noteq> [] then err else if out \<noteq> [] then out else ''exit '' @ show_int code))))
           else case bind_result parsed (\<lambda>p. bind_result (size_field p ''count'') (\<lambda>c.
                  bind_result (size_field p ''bytes'') (\<lambda>b. Inr (c, b)))) of
             Inl OverflowError \<Rightarrow> Inl OverflowError
           | Inl e \<Rightarrow> Inr (size_error (''Ungueltige Groessenantwort: '' @ env_message env e))
           | Inr (c, b) \<Rightarrow>
               if c < 0 \<or> b < 0 then Inr (size_error ''Groessenmessung enthaelt negative Werte'')
               else Inr [(''ok'', PBool True), (''count'', PInt c), (''bytes'', PInt b), (''measured_at'', PFloat now)]))"

definition int_or_zero :: "pydict \<Rightarrow> string \<Rightarrow> int result" where
  "int_or_zero d k = bind_result (py_int (py_or (py_get d k) (PInt 0))) (\<lambda>i. Inr (max 0 i))"

definition drop_percent :: "int \<Rightarrow> int \<Rightarrow> real" where
  "drop_percent old new = 100 * of_int (max 0 (old - new)) / of_int (max 1 old)"

definition limit_of :: "real \<Rightarrow> real" where
  "limit_of r = (if r = 0 then 35 else r)"

definition min_baseline :: "guard_config \<Rightarrow> int" where
  "min_baseline c = max 1 (if min_files c = 0 then 100 else min_files c)"

definition drop_blocked :: "guard_config \<Rightarrow> int \<Rightarrow> int \<Rightarrow> int \<Rightarrow> int \<Rightarrow> bool" where
  "drop_blocked c oc ob nc nb \<longleftrightarrow>
     limit_of (file_drop c) \<le> drop_percent oc nc \<or> limit_of (size_drop c) \<le> drop_percent ob nb"

definition drop_report :: "guard_config \<Rightarrow> int \<Rightarrow> int \<Rightarrow> int \<Rightarrow> int \<Rightarrow> pydict" where
  "drop_report c oc ob nc nb =
     [(''blocked'', PBool (drop_blocked c oc ob nc nb)), (''measured'', PBool True),
      (''previous_count'', PInt oc), (''current_count'', PInt nc),
      (''previous_bytes'', PInt ob), (''current_bytes'', PInt nb),
      (''file_drop_percent'', PFloat (round_digits 2 (drop_percent oc nc))),
      (''size_drop_percent'', PFloat (round_digits 2 (drop_percent ob nb))),
      (''file_drop_limit'', PFloat (limit_of (file_drop c))), (''size_drop_limit'', PFloat (limit_of (size_drop c))),
      (''reason'', PStr (if drop_blocked c oc ob nc nb then ''unexpected_source_drop'' else ''within_limits''))]"

definition unblocked :: "string \<Rightarrow> pydict" where
  "unblocked reason = [(''blocked'', PBool False), (''measured'', PBool True), (''reason'', PStr reason)]"

definition evaluate_anomaly :: "pyval \<Rightarrow> pydict \<Rightarrow> guard_config \<Rightarrow> pydict result" where
  "evaluate_anomaly baseline measurement c =
     (if \<not> truthy (py_get measurement ''ok'')
      then Inr [(''blocked'', PBool False), (''measured'', PBool False), (''error'', py_get measurement ''error'')]
      else if \<not> truthy baseline then Inr (unblocked ''baseline_created'')
      else case baseline of
        PDict b \<Rightarrow>
          bind_result (int_or_zero b ''count'') (\<lambda>oc. bind_result (int_or_zero b ''bytes'') (\<lambda>ob.
          bind_result (int_or_zero measurement ''count'') (\<lambda>nc. bind_result (int_or_zero measurement ''bytes'') (\<lambda>nb.
            if oc < min_baseline c then Inr (unblocked ''baseline_too_small'')
            else Inr (drop_report c oc ob nc nb)))))
      | _ \<Rightarrow> Inl TypeError)"

subsection \<open>The check before a destructive run\<close>

definition without_keys :: "string list \<Rightarrow> pydict \<Rightarrow> pydict" where
  "without_keys ks d = filter (\<lambda>kv. fst kv \<notin> set ks) d"

record guard_outcome =
  o_state :: guard_state
  o_finding :: pydict
  o_created :: "pydict option"

definition new_quarantine :: "guard_env \<Rightarrow> pydict \<Rightarrow> real \<Rightarrow> pydict \<Rightarrow> pydict" where
  "new_quarantine env pair now finding =
     py_merge (without_keys [''source'', ''measurement''] finding)
       [(''detected_at'', PFloat now), (''acknowledged'', PBool False),
        (''endpoints'', PDict (quarantine_endpoints env pair))]"

text \<open>The callback of the update: it decides on the state it is given, not on the one read before
  the measurement.\<close>

definition guard_update ::
  "guard_env \<Rightarrow> guard_config \<Rightarrow> pydict \<Rightarrow> string \<Rightarrow> pydict \<Rightarrow> real \<Rightarrow> pyval \<Rightarrow> guard_outcome result" where
  "guard_update env c pair source measurement now raw =
     (let st = normalize_state raw; key = state_key env pair
      in case py_get (quarantines st) key of
           PDict old \<Rightarrow> Inr \<lparr>o_state = st, o_finding = quarantine_view old, o_created = None\<rparr>
         | _ \<Rightarrow> bind_result (evaluate_anomaly (py_get (baselines st) key) measurement c) (\<lambda>found.
             let finding = py_merge found [(''enabled'', PBool True), (''pair'', PStr (str_or (py_get pair ''name'') [])),
                   (''history_key'', PStr (rclone_history_key (base_env env) pair)), (''source'', PStr source),
                   (''measurement'', PDict measurement)];
                 q = new_quarantine env pair now finding
             in if truthy (py_get finding ''blocked'')
                then bind_result (bounded_state (st\<lparr>quarantines := py_set (quarantines st) key (PDict q)\<rparr>)) (\<lambda>st'.
                       Inr \<lparr>o_state = st', o_finding = py_set finding ''quarantine'' (PDict q), o_created = Some q\<rparr>)
                else bind_result (bounded_state st) (\<lambda>st'.
                       Inr \<lparr>o_state = st', o_finding = finding, o_created = None\<rparr>)))"

definition guard_commit ::
  "guard_env \<Rightarrow> guard_config \<Rightarrow> pydict \<Rightarrow> string \<Rightarrow> pydict \<Rightarrow> real \<Rightarrow> runtime_db \<Rightarrow> (runtime_db \<times> pydict) result" where
  "guard_commit env c pair source measurement now db =
     bind_result (guard_update env c pair source measurement now (raw_state db)) (\<lambda>out.
     bind_result (runtime_update anomaly_key
         (\<lambda>raw. bind_result (guard_update env c pair source measurement now raw) (\<lambda>r. Inr (guard_value (o_state r))))
         (PDict []) now db) (\<lambda>res.
       case o_created out of
         None \<Rightarrow> Inr (fst res, o_finding out)
       | Some q \<Rightarrow> bind_result (audit_add ''anomaly_quarantined'' ''system'' (without_keys [''source'', ''endpoints''] q)
                      now (fst res)) (\<lambda>a. Inr (fst a, o_finding out))))"

definition disabled_finding :: pydict where
  "disabled_finding = [(''blocked'', PBool False), (''enabled'', PBool False)]"

text \<open>\<open>db0\<close> is the store when the check begins, \<open>db1\<close> the store after the measurement.\<close>

definition preflight_anomaly_guard ::
  "guard_env \<Rightarrow> pydict \<Rightarrow> pydict \<Rightarrow> string \<Rightarrow> size_run \<Rightarrow> real \<Rightarrow> runtime_db \<Rightarrow> runtime_db \<Rightarrow> (runtime_db \<times> pydict) result" where
  "preflight_anomaly_guard env pair backup source run now db0 db1 =
     bind_result (iter_or_empty (py_get backup ''pairs'')) (\<lambda>configured.
       case active_quarantine env db0 pair (mappings configured) of
         Some view \<Rightarrow> Inr (db0, view)
       | None \<Rightarrow> bind_result (guard_settings backup pair) (\<lambda>c.
           if \<not> guard_enabled c \<or> \<not> is_destructive pair then Inr (db0, disabled_finding)
           else bind_result (measure_path env now run) (\<lambda>measurement.
             guard_commit env c pair source measurement now db1)))"

subsection \<open>After a run\<close>

definition new_baseline :: "guard_env \<Rightarrow> pydict \<Rightarrow> pydict \<Rightarrow> real \<Rightarrow> pydict result" where
  "new_baseline env pair measurement now =
     bind_result (py_int (py_or (py_get measurement ''count'') (PInt 0))) (\<lambda>c.
     bind_result (py_int (py_or (py_get measurement ''bytes'') (PInt 0))) (\<lambda>b.
     bind_result (py_float (py_or (py_get measurement ''measured_at'') (PFloat now))) (\<lambda>t.
       Inr [(''pair'', PStr (str_or (py_get pair ''name'') [])),
            (''history_key'', PStr (rclone_history_key (base_env env) pair)),
            (''count'', PInt c), (''bytes'', PInt b), (''measured_at'', PFloat t)])))"

definition record_anomaly_baseline ::
  "guard_env \<Rightarrow> pydict \<Rightarrow> pydict \<Rightarrow> real \<Rightarrow> runtime_db \<Rightarrow> runtime_db result" where
  "record_anomaly_baseline env pair measurement now db =
     (if \<not> truthy (py_get measurement ''ok'') then Inr db
      else bind_result (new_baseline env pair measurement now) (\<lambda>b.
        bind_result (runtime_update anomaly_key (\<lambda>raw.
            let st = normalize_state raw in
            bind_result (bounded_state (st\<lparr>baselines := py_set (baselines st) (state_key env pair) (PDict b)\<rparr>))
              (\<lambda>st'. Inr (guard_value st'))) (PDict []) now db) (\<lambda>res. Inr (fst res))))"

definition anomaly_items :: "guard_env \<Rightarrow> pydict list \<Rightarrow> runtime_db \<Rightarrow> pydict list" where
  "anomaly_items env pairs db =
     map (\<lambda>kv. without_keys [''source'', ''measurement'', ''endpoints''] (as_dict (snd kv)))
       (filter (\<lambda>kv. is_dict (snd kv) \<and>
          (fst kv \<in> state_key env ` set pairs \<or> is_dict (py_get (as_dict (snd kv)) ''endpoints'')))
          (quarantines (load_guard db)))"

definition anomaly_status :: "guard_env \<Rightarrow> pydict list \<Rightarrow> runtime_db \<Rightarrow> (nat \<times> pydict list) result" where
  "anomaly_status env pairs db =
     bind_result (collect (\<lambda>d. bind_result (py_float (py_or (py_get d ''detected_at'') (PInt 0))) (\<lambda>t. Inr (t, d)))
         (anomaly_items env pairs db)) (\<lambda>timed.
       Inr (length timed, map snd (sort_key (\<lambda>td. - fst td) timed)))"

definition released :: "guard_env \<Rightarrow> pydict \<Rightarrow> string \<times> pyval \<Rightarrow> bool" where
  "released env pair kv \<longleftrightarrow> fst kv = state_key env pair \<or> covers env (quarantine_endpoints env pair) (snd kv)"

definition acknowledge_update :: "guard_env \<Rightarrow> pydict \<Rightarrow> pyval \<Rightarrow> pyval result" where
  "acknowledge_update env pair raw =
     (let st = normalize_state raw in
      bind_result (bounded_state (st\<lparr>quarantines := filter (\<lambda>kv. \<not> released env pair kv) (quarantines st)\<rparr>))
        (\<lambda>st'. Inr (guard_value st')))"

definition acknowledge_quarantine ::
  "guard_env \<Rightarrow> pydict \<Rightarrow> real \<Rightarrow> runtime_db \<Rightarrow> (runtime_db \<times> bool) result" where
  "acknowledge_quarantine env pair now db =
     bind_result (runtime_update anomaly_key (acknowledge_update env pair) (PDict []) now db) (\<lambda>res.
       if \<not> list_ex (released env pair) (quarantines (load_guard db)) then Inr (fst res, False)
       else bind_result (audit_add ''anomaly_quarantine_acknowledged'' ''web''
              [(''pair'', PStr (str_or (py_get pair ''name'') []))] now (fst res)) (\<lambda>a. Inr (fst a, True)))"

end
