(* ===== verification/Protection_Theorems.thy ===== *)
theory Protection_Theorems
  imports Protection
begin

text \<open>
  The guard as a state machine over the runtime settings: every committed change of its state is a step,
  labelled with the path that was acknowledged, if any. A quarantine only disappears by an acknowledgement
  that names its path or one that overlaps it.
\<close>

inductive guard_step :: "guard_env \<Rightarrow> runtime_db \<Rightarrow> pydict list \<Rightarrow> runtime_db \<Rightarrow> bool" for env where
  gs_commit: "guard_commit env c pair source m now db = Inr (db', f) \<Longrightarrow> guard_step env db [] db'"
| gs_baseline: "record_anomaly_baseline env pair m now db = Inr db' \<Longrightarrow> guard_step env db [] db'"
| gs_ack: "acknowledge_quarantine env pair now db = Inr (db', b) \<Longrightarrow> guard_step env db [pair] db'"
| gs_other: "setting_of anomaly_key db' = setting_of anomaly_key db \<Longrightarrow> guard_step env db [] db'"

inductive guard_run :: "guard_env \<Rightarrow> runtime_db \<Rightarrow> pydict list \<Rightarrow> runtime_db \<Rightarrow> bool" for env where
  run_none: "guard_run env db [] db"
| run_more: "guard_run env db acks db1 \<Longrightarrow> guard_step env db1 ack db2 \<Longrightarrow> guard_run env db (acks @ ack) db2"

definition quarantine_of :: "runtime_db \<Rightarrow> string \<Rightarrow> pydict option" where
  "quarantine_of db k = (case py_get (quarantines (load_guard db)) k of PDict q \<Rightarrow> Some q | _ \<Rightarrow> None)"

subsection \<open>Lemmas\<close>

lemma quarantine_of_Some: "quarantine_of db k = Some q \<longleftrightarrow> py_get (quarantines (load_guard db)) k = PDict q"
  by (auto simp: quarantine_of_def split: pyval.split)

lemma normalize_guard_value [simp]: "normalize_state (guard_value st) = st"
  by (simp add: normalize_state_def guard_value_def py_get_def)

lemma anomaly_key_valid [simp]: "valid_key anomaly_key"
  by (simp add: valid_key_def anomaly_key_def)

lemma bounded_quarantines: "bounded_state st = Inr st' \<Longrightarrow> quarantines st' = quarantines st"
  by (auto simp: bounded_state_def split: if_splits)

lemma guard_update_effect:
  assumes "runtime_update anomaly_key f (PDict []) now db = Inr (db', v)"
  shows "f (raw_state db) = Inr v \<and> raw_state db' = v"
  using assms by (auto simp: runtime_update_def raw_state_def runtime.lookup_insert split: if_splits)

lemma raw_state_audit: "audit_add ev actor d now db = Inr (db', n) \<Longrightarrow> raw_state db' = raw_state db"
  by (simp add: raw_state_def audit_add_settings)

lemma map_of_filter_keep:
  "map_of d k = Some v \<Longrightarrow> P (k, v) \<Longrightarrow> map_of (filter P d) k = Some v"
  by (induction d) (auto split: if_splits)

lemma py_get_dict: "py_get d k = PDict q \<longleftrightarrow> map_of d k = Some (PDict q)"
  by (auto simp: py_get_def split: option.splits)

lemma commit_state:
  assumes "guard_commit env c pair source m now db = Inr (db', f)"
  obtains out where "guard_update env c pair source m now (raw_state db) = Inr out"
    "load_guard db' = o_state out" "f = o_finding out"
proof -
  from assms obtain out res where out: "guard_update env c pair source m now (raw_state db) = Inr out"
    and res: "runtime_update anomaly_key
         (\<lambda>raw. bind_result (guard_update env c pair source m now raw) (\<lambda>r. Inr (guard_value (o_state r))))
         (PDict []) now db = Inr res"
    and rest: "(case o_created out of None \<Rightarrow> Inr (fst res, o_finding out)
       | Some q \<Rightarrow> bind_result (audit_add ''anomaly_quarantined'' ''system'' (without_keys [''source'', ''endpoints''] q)
                      now (fst res)) (\<lambda>a. Inr (fst a, o_finding out))) = Inr (db', f)"
    by (auto simp: guard_commit_def)
  have "raw_state (fst res) = guard_value (o_state out)"
    using guard_update_effect [of _ now db "fst res" "snd res", unfolded prod.collapse, OF res] out by simp
  moreover have "raw_state db' = raw_state (fst res) \<and> f = o_finding out"
    using rest raw_state_audit by (auto split: option.splits)
  ultimately show ?thesis using that out by (simp add: load_guard_def)
qed

lemma guard_update_keeps:
  assumes "guard_update env c pair source m now raw = Inr out"
    and "py_get (quarantines (normalize_state raw)) k = PDict q"
  shows "py_get (quarantines (o_state out)) k = PDict q"
proof (cases "py_get (quarantines (normalize_state raw)) (state_key env pair)")
  case (PDict old)
  with assms show ?thesis by (auto simp: guard_update_def Let_def)
qed (use assms in \<open>auto simp: guard_update_def Let_def dest!: bounded_quarantines split: if_splits\<close>)

lemma acknowledge_effect:
  assumes "acknowledge_quarantine env pair now db = Inr (db', b)"
  shows "quarantines (load_guard db') = filter (\<lambda>kv. \<not> released env pair kv) (quarantines (load_guard db))"
proof -
  from assms obtain res where u: "runtime_update anomaly_key (acknowledge_update env pair) (PDict []) now db = Inr res"
    and same: "raw_state db' = raw_state (fst res)"
    using raw_state_audit by (auto simp: acknowledge_quarantine_def split: if_splits)
  have "acknowledge_update env pair (raw_state db) = Inr (raw_state db')"
    using guard_update_effect [of "acknowledge_update env pair" now db "fst res" "snd res"] u same by simp
  then obtain st' where "guard_value st' = raw_state db'"
    "quarantines st' = filter (\<lambda>kv. \<not> released env pair kv) (quarantines (load_guard db))"
    by (auto simp: acknowledge_update_def Let_def load_guard_def dest!: bounded_quarantines)
  then show ?thesis by (simp add: load_guard_def flip: \<open>guard_value st' = _\<close>)
qed

text \<open>One step keeps a quarantine, unless it acknowledges it.\<close>

lemma step_keeps_quarantine:
  assumes "guard_step env db acks db'" and "quarantine_of db k = Some q"
    and "\<forall>p \<in> set acks. \<not> released env p (k, PDict q)"
  shows "quarantine_of db' k = Some q"
  using assms
proof (cases rule: guard_step.cases)
  case (gs_commit c pair source m now f)
  from gs_commit(2) obtain out where out: "guard_update env c pair source m now (raw_state db) = Inr out"
    "load_guard db' = o_state out"
    by (rule commit_state)
  from guard_update_keeps [OF out(1)] assms(2) out(2) show ?thesis
    by (simp add: quarantine_of_Some load_guard_def)
next
  case (gs_baseline pair m now)
  show ?thesis
  proof (cases "truthy (py_get m ''ok'')")
    case True
    then obtain b v where u: "runtime_update anomaly_key (\<lambda>raw.
            let st = normalize_state raw in
            bind_result (bounded_state (st\<lparr>baselines := py_set (baselines st) (state_key env pair) (PDict b)\<rparr>))
              (\<lambda>st'. Inr (guard_value st'))) (PDict []) now db = Inr (db', v)"
      using gs_baseline(2) by (auto simp: record_anomaly_baseline_def)
    from guard_update_effect [OF u] obtain st' where "raw_state db' = guard_value st'"
      "quarantines st' = quarantines (load_guard db)"
      by (auto simp: Let_def load_guard_def dest!: bounded_quarantines) metis
    with assms(2) show ?thesis by (simp add: quarantine_of_Some load_guard_def)
  next
    case False
    with gs_baseline(2) assms(2) show ?thesis by (simp add: record_anomaly_baseline_def)
  qed
next
  case (gs_ack pair now b)
  note st' = acknowledge_effect [OF gs_ack(2)]
  have "\<not> released env pair (k, PDict q)" using assms(3) gs_ack(1) by simp
  with assms(2) st' show ?thesis
    by (auto simp: quarantine_of_Some py_get_dict intro: map_of_filter_keep)
next
  case gs_other
  with assms(2) show ?thesis by (simp add: quarantine_of_def load_guard_def raw_state_def)
qed

lemma run_keeps_quarantine:
  assumes "guard_run env db acks db'" and "quarantine_of db k = Some q"
    and "\<forall>p \<in> set acks. \<not> released env p (k, PDict q)"
  shows "quarantine_of db' k = Some q"
  using assms
proof (induction rule: guard_run.induct)
  case (run_more db acks db1 ack db2)
  then show ?case by (intro step_keeps_quarantine [OF run_more(2)]) auto
qed simp

lemma view_blocked: "py_get (quarantine_view q) ''blocked'' = PBool True"
  by (simp add: quarantine_view_def py_merge_def)

lemma own_quarantine_active:
  "is_destructive pair \<Longrightarrow> quarantine_of db (state_key env pair) = Some q \<Longrightarrow>
   active_quarantine env db pair configured = Some (quarantine_view q)"
  by (simp add: active_quarantine_def quarantine_of_Some)

lemma commit_creates:
  assumes "guard_commit env c pair source m now db = Inr (db', f)" and "truthy (py_get f ''blocked'')"
  shows "\<exists>q. quarantine_of db' (state_key env pair) = Some q"
  using assms(1)
proof (rule commit_state)
  fix out assume o: "guard_update env c pair source m now (raw_state db) = Inr out" "load_guard db' = o_state out"
    "f = o_finding out"
  show ?thesis
  proof (cases "py_get (quarantines (normalize_state (raw_state db))) (state_key env pair)")
    case (PDict old)
    with o show ?thesis by (auto simp: guard_update_def Let_def quarantine_of_Some)
  qed (use o assms(2) in \<open>auto simp: guard_update_def Let_def quarantine_of_Some dest!: bounded_quarantines split: if_splits\<close>)
qed

subsection \<open>Theorems\<close>

lemma covered_active:
  assumes "is_destructive pair" and "quarantine_of db k = Some q" and "covers env (quarantine_endpoints env pair) (PDict q)"
  shows "\<exists>view. active_quarantine env db pair configured = Some view \<and> py_get view ''blocked'' = PBool True"
proof -
  have "PDict q \<in> set (map snd (quarantines (load_guard db)))"
    using assms(2) by (force simp: quarantine_of_Some py_get_dict dest: map_of_SomeD)
  then have "find (covers env (quarantine_endpoints env pair)) (map snd (quarantines (load_guard db))) \<noteq> None"
    using assms(3) unfolding find_None_iff by blast
  then show ?thesis using assms(1) by (auto simp: active_quarantine_def Let_def view_blocked split: pyval.split)
qed

text \<open>C32: A quarantine lasts. When the measurement of a check reports an unexpected loss on a path, a quarantine is
  recorded under the key of the path. From then on every check of a destructive path with this key, or with ends
  that overlap the recorded ones, reports it blocked and leaves the store alone, whatever a new measurement would
  say and whatever other checks, new baselines and settings come in between, until an acknowledgement names the
  quarantined path or one that overlaps its recorded ends. This is about the recorded quarantine: an
  acknowledgement of a path that only overlaps another one it had blocked does not count.\<close>

theorem blocked_path_stays_blocked:
  assumes "guard_commit env c origin source m now db = Inr (db1, f)" and "truthy (py_get f ''blocked'')"
  shows "\<exists>q. quarantine_of db1 (state_key env origin) = Some q \<and>
    (\<forall>acks db2 pair backup configured. guard_run env db1 acks db2 \<and> is_destructive pair \<and>
      (\<forall>p \<in> set acks. \<not> released env p (state_key env origin, PDict q)) \<and>
      (state_key env pair = state_key env origin \<or> covers env (quarantine_endpoints env pair) (PDict q)) \<and>
      iter_or_empty (py_get backup ''pairs'') = Inr configured \<longrightarrow>
      (\<exists>view. preflight_anomaly_guard env pair backup source2 run now2 db2 db3 = Inr (db2, view) \<and>
        py_get view ''blocked'' = PBool True))"
proof -
  from commit_creates [OF assms(1,2)] obtain q where q: "quarantine_of db1 (state_key env origin) = Some q" by blast
  have "\<exists>view. preflight_anomaly_guard env pair backup source2 run now2 db2 db3 = Inr (db2, view) \<and> py_get view ''blocked'' = PBool True"
    if a: "guard_run env db1 acks db2" "is_destructive pair" "\<forall>p \<in> set acks. \<not> released env p (state_key env origin, PDict q)"
      "state_key env pair = state_key env origin \<or> covers env (quarantine_endpoints env pair) (PDict q)"
      "iter_or_empty (py_get backup ''pairs'') = Inr configured" for acks db2 pair backup configured
  proof -
    have kept: "quarantine_of db2 (state_key env origin) = Some q" by (rule run_keeps_quarantine [OF a(1) q a(3)])
    have "\<exists>view. active_quarantine env db2 pair (mappings configured) = Some view \<and> py_get view ''blocked'' = PBool True"
      using a(4) own_quarantine_active [OF a(2)] covered_active [OF a(2) kept] kept view_blocked by auto
    then show ?thesis using a(5) by (auto simp: preflight_anomaly_guard_def)
  qed
  with q show ?thesis by blast
qed

text \<open>A quarantine covers aliases: a destructive run on any path whose ends overlap the ends stored
  with a quarantine is blocked as well, under whatever name or id it is configured.\<close>

theorem quarantine_covers_overlapping_paths:
  assumes "quarantine_of db k = Some q" and "py_get q ''endpoints'' = PDict e"
    and "pairs_conflict (v_parts env) (quarantine_endpoints env pair) e" and "is_destructive pair"
  shows "\<exists>view. active_quarantine env db pair configured = Some view \<and> py_get view ''blocked'' = PBool True"
  by (rule covered_active [OF assms(4,1)]) (simp add: covers_def assms(2,3))

text \<open>An acknowledgement releases the path completely: afterwards nothing in the state holds it, neither
  under its own key nor through overlapping ends.\<close>

theorem acknowledge_releases:
  assumes "acknowledge_quarantine env pair now db = Inr (db', b)"
  shows "\<not> has_quarantine env db' pair \<and>
    (\<forall>k q. quarantine_of db k = Some q \<and> \<not> released env pair (k, PDict q) \<longrightarrow> quarantine_of db' k = Some q)"
proof -
  note l = acknowledge_effect [OF assms]
  have "map_of (quarantines (load_guard db')) (state_key env pair) = None"
    unfolding l map_of_eq_None_iff by (auto simp: released_def)
  moreover have "\<not> list_ex (covers env (quarantine_endpoints env pair)) (map snd (quarantines (load_guard db')))"
    unfolding l by (auto simp: released_def list_ex_iff)
  ultimately have "\<not> has_quarantine env db' pair"
    by (simp add: has_quarantine_def Let_def py_get_def)
  moreover have "quarantine_of db' k = Some q" if "quarantine_of db k = Some q" "\<not> released env pair (k, PDict q)" for k q
    using step_keeps_quarantine [OF gs_ack [OF assms] that(1)] that(2) by simp
  ultimately show ?thesis by blast
qed

text \<open>A failed measurement is never read as an empty source: it blocks nothing and creates no
  quarantine; a path is blocked exactly when a baseline of sufficient size exists and the number of
  files or bytes has dropped by at least the configured percentage of it.\<close>

theorem anomaly_verdict:
  assumes "evaluate_anomaly baseline m c = Inr f"
  shows "truthy (py_get f ''blocked'') \<longleftrightarrow>
    truthy (py_get m ''ok'') \<and> (\<exists>b oc ob nc nb. baseline = PDict b \<and> b \<noteq> [] \<and>
      int_or_zero b ''count'' = Inr oc \<and> int_or_zero b ''bytes'' = Inr ob \<and>
      int_or_zero m ''count'' = Inr nc \<and> int_or_zero m ''bytes'' = Inr nb \<and> min_baseline c \<le> oc \<and>
      (limit_of (file_drop c) * of_int (max 1 oc) \<le> 100 * of_int (max 0 (oc - nc)) \<or>
       limit_of (size_drop c) * of_int (max 1 ob) \<le> 100 * of_int (max 0 (ob - nb))))"
proof -
  have drop: "l \<le> drop_percent old new \<longleftrightarrow> l * of_int (max 1 old) \<le> 100 * of_int (max 0 (old - new))" for l old new
  proof -
    have "(0 :: real) < of_int (max 1 old)" by simp
    then show ?thesis unfolding drop_percent_def by (rule pos_le_divide_eq)
  qed
  have no: "\<not> truthy (py_get (unblocked r) ''blocked'')" for r by (simp add: unblocked_def py_get_def)
  have rep: "truthy (py_get (drop_report c oc ob nc nb) ''blocked'') = drop_blocked c oc ob nc nb" for oc ob nc nb
    by (simp add: drop_report_def py_get_def)
  show ?thesis
  proof (cases "truthy (py_get m ''ok'') \<and> truthy baseline")
    case False
    with assms no show ?thesis
      by (auto simp: evaluate_anomaly_def py_get_def split: if_splits)
  next
    case True
    with assms obtain b where b: "baseline = PDict b" "b \<noteq> []"
      by (cases baseline) (auto simp: evaluate_anomaly_def)
    with True assms obtain oc ob nc nb where i: "int_or_zero b ''count'' = Inr oc" "int_or_zero b ''bytes'' = Inr ob"
      "int_or_zero m ''count'' = Inr nc" "int_or_zero m ''bytes'' = Inr nb"
      "f = (if oc < min_baseline c then unblocked ''baseline_too_small'' else drop_report c oc ob nc nb)"
      by (auto simp: evaluate_anomaly_def split: if_splits)
    with True b show ?thesis by (auto simp: no rep drop_blocked_def drop)
  qed
qed

subsection \<open>A concrete guard\<close>

definition demo_guard :: guard_env where
  "demo_guard = \<lparr>env_valid = (\<lambda>_. True), env_zone = (\<lambda>_. True), env_next = (\<lambda>_ _ t. Inr (t + 60)),
     env_prev = (\<lambda>_ _ t. Inr (t - 60)), env_wall = (\<lambda>_ _. ''a''), env_message = (\<lambda>_. ''Fehler''),
     env_digest = (\<lambda>s. s), env_uid = (\<lambda>s. s), v_hash = (\<lambda>s. s), v_resolve = (\<lambda>p. Some p),
     v_parts = (\<lambda>p. Some (split_char slash p)), v_day = (\<lambda>_ _. ''2024-01-01'')\<rparr>"

definition demo_sync :: "string \<Rightarrow> pydict" where
  "demo_sync l = [(''id'', PStr l), (''local'', PStr l), (''remote'', PStr (''cloud:'' @ l)), (''mode'', PStr ''sync'')]"

definition demo_limits :: guard_config where
  "demo_limits = \<lparr>guard_enabled = True, file_drop = 35, size_drop = 35, min_files = 1, measure_timeout = 60\<rparr>"

definition demo_size :: "int \<Rightarrow> pydict" where
  "demo_size n = [(''ok'', PBool True), (''count'', PInt n), (''bytes'', PInt n), (''measured_at'', PFloat 5)]"

definition demo_guard_state :: guard_state where
  "demo_guard_state = \<lparr>baselines = [(state_key demo_guard (demo_sync ''/a''), PDict (demo_size 10))], quarantines = []\<rparr>"

definition demo_guard_db :: runtime_db where
  "demo_guard_db = put_setting 1 anomaly_key (guard_value demo_guard_state) empty_runtime_db"

lemma demo_raw: "raw_state demo_guard_db = guard_value demo_guard_state"
  by (simp add: raw_state_def demo_guard_db_def runtime.lookup_insert)

lemma demo_commit:
  "\<exists>db1 f. guard_commit demo_guard demo_limits (demo_sync ''/a'') ''/a'' (demo_size 1) 9 demo_guard_db = Inr (db1, f) \<and>
     truthy (py_get f ''blocked'')"
proof -
  have "case guard_update demo_guard demo_limits (demo_sync ''/a'') ''/a'' (demo_size 1) 9 (guard_value demo_guard_state) of
      Inl _ \<Rightarrow> False
    | Inr out \<Rightarrow> length (json_dumps (guard_value (o_state out))) \<le> 2000 \<and> truthy (py_get (o_finding out) ''blocked'')"
    by code_simp
  then obtain out where out: "guard_update demo_guard demo_limits (demo_sync ''/a'') ''/a'' (demo_size 1) 9
      (raw_state demo_guard_db) = Inr out" "length (json_dumps (guard_value (o_state out))) \<le> 2000"
    "truthy (py_get (o_finding out) ''blocked'')"
    by (auto simp: demo_raw split: sum.splits)
  then have f: "fits (guard_value (o_state out))" by (simp add: fits_def)
  obtain db1 where u: "runtime_update anomaly_key (\<lambda>raw. bind_result
      (guard_update demo_guard demo_limits (demo_sync ''/a'') ''/a'' (demo_size 1) 9 raw)
      (\<lambda>r. Inr (guard_value (o_state r)))) (PDict []) 9 demo_guard_db = Inr (db1, guard_value (o_state out))"
    using out(1) f by (simp add: runtime_update_def raw_state_def)
  have "\<exists>db2 n. audit_add ''anomaly_quarantined'' ''system'' d 9 db1 = Inr (db2, n)" for d
  proof -
    have e: "py_strip ''anomaly_quarantined'' = ''anomaly_quarantined''" by code_simp
    show ?thesis by (simp add: audit_add_def Let_def e)
  qed
  with out u show ?thesis by (cases "o_created out") (auto simp: guard_commit_def)
qed

theorem blocked_path_stays_blocked_witness:
  "\<exists>db1 view. guard_run demo_guard demo_guard_db [] db1 \<and>
     preflight_anomaly_guard demo_guard (demo_sync ''/a'') [] ''/a'' SizeTimeout 20 db1 db1 = Inr (db1, view) \<and>
     py_get view ''blocked'' = PBool True"
proof -
  obtain db1 f where c: "guard_commit demo_guard demo_limits (demo_sync ''/a'') ''/a'' (demo_size 1) 9 demo_guard_db = Inr (db1, f)"
    "truthy (py_get f ''blocked'')" using demo_commit by blast
  have d: "is_destructive (demo_sync ''/a'')" by code_simp
  have r: "guard_run demo_guard demo_guard_db [] db1"
    using run_more [OF run_none gs_commit [OF c(1)]] by simp
  have i: "iter_or_empty (py_get [] ''pairs'') = Inr []" by (simp add: py_get_def)
  have "guard_run demo_guard db1 [] db1" by (rule run_none)
  with blocked_path_stays_blocked [OF c, of "''/a''" SizeTimeout 20 db1] d i r show ?thesis by force
qed

definition demo_quarantine :: pydict where
  "demo_quarantine = [(''blocked'', PBool True), (''endpoints'', PDict (quarantine_endpoints demo_guard (demo_sync ''/a'')))]"

definition demo_held :: runtime_db where
  "demo_held = put_setting 1 anomaly_key (guard_value \<lparr>baselines = [],
     quarantines = [(''alt'', PDict demo_quarantine), (''fremd'', PDict [])]\<rparr>) empty_runtime_db"

lemma demo_held_of: "quarantine_of demo_held ''alt'' = Some demo_quarantine"
  by (simp add: quarantine_of_Some load_guard_def raw_state_def demo_held_def runtime.lookup_insert py_get_def)

theorem quarantine_covers_overlapping_paths_witness:
  "\<exists>view. active_quarantine demo_guard demo_held (demo_sync ''/a/b'') [] = Some view \<and> py_get view ''blocked'' = PBool True"
proof -
  have e: "py_get demo_quarantine ''endpoints'' = PDict (quarantine_endpoints demo_guard (demo_sync ''/a''))"
    by (simp add: demo_quarantine_def py_get_def)
  have c: "pairs_conflict (v_parts demo_guard) (quarantine_endpoints demo_guard (demo_sync ''/a/b''))
      (quarantine_endpoints demo_guard (demo_sync ''/a''))" by code_simp
  have d: "is_destructive (demo_sync ''/a/b'')" by code_simp
  show ?thesis by (rule quarantine_covers_overlapping_paths [OF demo_held_of e c d])
qed

theorem acknowledge_releases_witness:
  "\<exists>db'. acknowledge_quarantine demo_guard (demo_sync ''/a'') 30 demo_held = Inr (db', True) \<and>
     \<not> has_quarantine demo_guard db' (demo_sync ''/a'') \<and> quarantine_of db' ''fremd'' = Some []"
proof -
  have raw: "raw_state demo_held = guard_value \<lparr>baselines = [],
      quarantines = [(''alt'', PDict demo_quarantine), (''fremd'', PDict [])]\<rparr>"
    by (simp add: raw_state_def demo_held_def runtime.lookup_insert)
  have rel: "released demo_guard (demo_sync ''/a'') (''alt'', PDict demo_quarantine)"
    "\<not> released demo_guard (demo_sync ''/a'') (''fremd'', PDict [])" by (code_simp+)
  have a: "acknowledge_update demo_guard (demo_sync ''/a'') (raw_state demo_held) =
      Inr (guard_value \<lparr>baselines = [], quarantines = [(''fremd'', PDict [])]\<rparr>)"
    using rel by (simp add: acknowledge_update_def raw bounded_state_def)
  have "length (json_dumps (guard_value \<lparr>baselines = [], quarantines = [(''fremd'', PDict [])]\<rparr>)) \<le> 100" by code_simp
  then have f: "fits (guard_value \<lparr>baselines = [], quarantines = [(''fremd'', PDict [])]\<rparr>)" by (simp add: fits_def)
  have e: "py_strip ''anomaly_quarantine_acknowledged'' = ''anomaly_quarantine_acknowledged''" by code_simp
  obtain db' where d: "acknowledge_quarantine demo_guard (demo_sync ''/a'') 30 demo_held = Inr (db', True)"
    using a f rel(1) by (auto simp: acknowledge_quarantine_def runtime_update_def raw_state_def [symmetric] load_guard_def raw
        audit_add_def Let_def e)
  have "quarantine_of demo_held ''fremd'' = Some []"
    by (simp add: quarantine_of_Some load_guard_def raw py_get_def)
  with acknowledge_releases [OF d] d rel(2) show ?thesis by blast
qed

theorem anomaly_verdict_witness:
  "\<exists>f. evaluate_anomaly (PDict (demo_size 10)) (demo_size 1) demo_limits = Inr f \<and> truthy (py_get f ''blocked'')"
proof -
  have "case evaluate_anomaly (PDict (demo_size 10)) (demo_size 1) demo_limits of Inl _ \<Rightarrow> False | Inr f \<Rightarrow> True" by code_simp
  then obtain f where f: "evaluate_anomaly (PDict (demo_size 10)) (demo_size 1) demo_limits = Inr f"
    by (auto split: sum.splits)
  have "int_or_zero (demo_size 10) ''count'' = Inr 10" "int_or_zero (demo_size 10) ''bytes'' = Inr 10"
    "int_or_zero (demo_size 1) ''count'' = Inr 1" "int_or_zero (demo_size 1) ''bytes'' = Inr 1"
    "min_baseline demo_limits \<le> 10" "limit_of (file_drop demo_limits) = 35" "truthy (py_get (demo_size 1) ''ok'')"
    "demo_size 10 \<noteq> []" by (code_simp+)
  with anomaly_verdict [OF f] f show ?thesis by auto
qed

end
