(* ===== verification/Protection_Score.thy ===== *)
theory Protection_Score
  imports Protection_Theorems
begin

text \<open>
  \<open>app/protection.py\<close>: the protection score (at most 100 points in five parts) and the calendar that sums
  up the jobs of each local day.
\<close>

subsection \<open>Score\<close>

definition weighted :: "int \<Rightarrow> int \<Rightarrow> int \<Rightarrow> int" where
  "weighted v denominator maximum =
     (if denominator \<le> 0 then 0
      else round_even (of_int (min (max v 0) denominator) / of_int denominator * of_int maximum))"

definition fresh_item :: "pydict \<Rightarrow> bool" where
  "fresh_item item \<longleftrightarrow> \<not> truthy (py_get item ''overdue'') \<and>
     py_casefold (str_or (py_get item ''last_status'') []) \<in> {''ok'', ''success''}"

definition restored_item :: "pydict \<Rightarrow> bool" where
  "restored_item item \<longleftrightarrow>
     (case py_get item ''restore_evidence'' of
        PDict e \<Rightarrow> py_get e ''state'' = PStr ''passed'' \<and> is_True (py_get e ''valid'')
      | _ \<Rightarrow> False)"

definition unlimited_delete :: "pyval \<Rightarrow> bool" where
  "unlimited_delete v \<longleftrightarrow> v \<in> {PNone, PStr [], PInt (- 1), PFloat (- 1), PStr ''-1''}"

definition shield_unit :: "pydict \<Rightarrow> real" where
  "shield_unit pair =
     (if \<not> is_destructive pair \<or> \<not> truthy (py_get pair ''allow_delete'') then 1
      else if \<not> unlimited_delete (py_get pair ''max_delete'')
        then (if text_of (py_get pair ''backup_dir'') \<noteq> [] then 1 else 3 / 4)
      else 0)"

definition shield_points :: "pydict list \<Rightarrow> int" where
  "shield_points pairs =
     (if pairs = [] then 0
      else round_even (sum_list (map shield_unit pairs) / of_nat (length pairs) * 15))"

record component =
  comp_id :: string
  comp_points :: int
  comp_maximum :: int

record score_result =
  sc_score :: int
  sc_state :: string
  sc_components :: "component list"

definition score_state :: "int \<Rightarrow> string" where
  "score_state n = (if 85 \<le> n then ''ready'' else if 60 \<le> n then ''review'' else ''risk'')"

definition score_of :: "int \<Rightarrow> int \<Rightarrow> int \<Rightarrow> pydict list \<Rightarrow> pydict list \<Rightarrow> pydict list \<Rightarrow> component list" where
  "score_of known enabled scheduled health storage pairs =
     [\<lparr>comp_id = ''active'', comp_points = weighted enabled known 15, comp_maximum = 15\<rparr>,
      \<lparr>comp_id = ''scheduled'', comp_points = weighted scheduled enabled 15, comp_maximum = 15\<rparr>,
      \<lparr>comp_id = ''freshness'', comp_points = weighted (int (length (filter fresh_item health))) enabled 25,
       comp_maximum = 25\<rparr>,
      \<lparr>comp_id = ''restore'', comp_points = weighted (int (length (filter restored_item storage))) known 30,
       comp_maximum = 30\<rparr>,
      \<lparr>comp_id = ''shield'', comp_points = shield_points pairs, comp_maximum = 15\<rparr>]"

definition enabled_pairs :: "pyval list \<Rightarrow> pydict list" where
  "enabled_pairs vs = filter (\<lambda>p. truthy (py_get_default p ''enabled'' (PBool True))) (mappings vs)"

definition score_components :: "pydict \<Rightarrow> pydict \<Rightarrow> pydict \<Rightarrow> score_result result" where
  "score_components overview storage config =
     bind_result (sub_dict overview ''pairs'') (\<lambda>summary.
     bind_result (int_or_zero summary ''total'') (\<lambda>known.
     bind_result (int_or_zero summary ''enabled'') (\<lambda>enabled.
     bind_result (iter_or_empty (py_get summary ''health'')) (\<lambda>health.
     bind_result (iter_or_empty (py_get storage ''pairs'')) (\<lambda>stored.
     bind_result (sub_dict config ''backup'') (\<lambda>backup.
     bind_result (iter_or_empty (py_get backup ''pairs'')) (\<lambda>configured.
     bind_result (py_int (py_or (py_get summary ''scheduled'') (PInt 0))) (\<lambda>scheduled.
       let cs = score_of known enabled scheduled (mappings health) (mappings stored) (enabled_pairs configured);
           score = sum_list (map comp_points cs)
       in Inr \<lparr>sc_score = score, sc_state = score_state score, sc_components = cs\<rparr>))))))))"

subsection \<open>Calendar\<close>

record day_bucket =
  d_date :: string
  d_total :: nat
  d_successful :: nat
  d_failed :: nat
  d_cancelled :: nat
  d_warnings :: nat
  d_restore :: nat

definition empty_day :: "string \<Rightarrow> day_bucket" where
  "empty_day day = \<lparr>d_date = day, d_total = 0, d_successful = 0, d_failed = 0, d_cancelled = 0, d_warnings = 0, d_restore = 0\<rparr>"

definition job_shown :: "pydict \<Rightarrow> string" where
  "job_shown job =
     (let status = py_casefold (str_or (py_get job ''status'') []) in
      if py_get job ''kind'' = PStr ''restoretest'' \<and> status \<in> {''error'', ''warning''} \<and>
         is_partial_restore_summary (py_or (py_get job ''summary'') (PDict []))
      then ''warning'' else status)"

definition count_job :: "pydict \<Rightarrow> day_bucket \<Rightarrow> day_bucket" where
  "count_job job b =
     (let status = job_shown job;
          b1 = b\<lparr>d_total := Suc (d_total b)\<rparr>;
          b2 = (if status = ''ok'' then b1\<lparr>d_successful := Suc (d_successful b1)\<rparr>
                else if status = ''cancelled'' then b1\<lparr>d_cancelled := Suc (d_cancelled b1)\<rparr>
                else if status = ''warning'' then b1\<lparr>d_warnings := Suc (d_warnings b1)\<rparr>
                else if status \<noteq> ''running'' then b1\<lparr>d_failed := Suc (d_failed b1)\<rparr>
                else b1)
      in if str_or (py_get job ''kind'') [] = ''restoretest'' then b2\<lparr>d_restore := Suc (d_restore b2)\<rparr> else b2)"

definition day_state :: "day_bucket \<Rightarrow> string" where
  "day_state b =
     (if d_failed b \<noteq> 0 then ''error''
      else if d_cancelled b \<noteq> 0 \<or> d_warnings b \<noteq> 0 then ''warning''
      else if d_successful b \<noteq> 0 then ''ok'' else ''empty'')"

text \<open>\<open>buckets.setdefault(day, ..)\<close> and the counting of one job.\<close>

fun count_day :: "string \<Rightarrow> pydict \<Rightarrow> day_bucket list \<Rightarrow> day_bucket list" where
  "count_day day job [] = [count_job job (empty_day day)]"
| "count_day day job (b # bs) = (if d_date b = day then count_job job b # bs else b # count_day day job bs)"

definition job_start_time :: "pydict \<Rightarrow> real" where
  "job_start_time job = (case py_float (py_or (py_get job ''started_at'') (PInt 0)) of Inl _ \<Rightarrow> 0 | Inr t \<Rightarrow> t)"

text \<open>The scan stops at the first job that is older than the period; the jobs come newest first.\<close>

fun count_days :: "(real \<Rightarrow> string) \<Rightarrow> real \<Rightarrow> pydict list \<Rightarrow> day_bucket list \<Rightarrow> day_bucket list" where
  "count_days day_of cutoff [] bs = bs"
| "count_days day_of cutoff (job # js) bs =
     (if job_start_time job < cutoff then bs
      else count_days day_of cutoff js (count_day (day_of (job_start_time job)) job bs))"

definition calendar_zone :: "guard_env \<Rightarrow> string \<Rightarrow> string" where
  "calendar_zone env name = (if env_zone env name then name else ''UTC'')"

definition calendar_cutoff :: "int \<Rightarrow> real \<Rightarrow> real" where
  "calendar_cutoff days now = now - of_int (max 7 (min days 366) * 86400)"

definition all_jobs :: job_query where
  "all_jobs = \<lparr>f_kind = None, f_status = None, f_text = None\<rparr>"

definition protection_calendar :: "guard_env \<Rightarrow> jobs_db \<Rightarrow> int \<Rightarrow> string \<Rightarrow> real \<Rightarrow> (day_bucket \<times> string) list" where
  "protection_calendar env db days zone now =
     map (\<lambda>b. (b, day_state b))
       (rev (sort_key d_date
         (count_days (v_day env (calendar_zone env zone)) (calendar_cutoff days now) (job_iter all_jobs 10000 250 db) [])))"

subsection \<open>Lemmas\<close>

lemma weighted_bounds: "0 \<le> m \<Longrightarrow> 0 \<le> weighted v d m \<and> weighted v d m \<le> m"
proof (cases "d \<le> 0")
  case False
  assume m: "0 \<le> m"
  let ?x = "of_int (min (max v 0) d) / of_int d :: real"
  from False have x: "0 \<le> ?x" "?x \<le> 1" by (simp_all add: divide_le_eq)
  have "?x * of_int m \<le> 1 * of_int m" using x(2) m by (intro mult_right_mono) auto
  then have "round_even (?x * of_int m) \<le> m" by (intro round_even_le) simp
  moreover have "0 \<le> ?x * of_int m" using x(1) m by (intro mult_nonneg_nonneg) auto
  then have "0 \<le> round_even (?x * of_int m)" by (intro round_even_ge) simp
  ultimately have "round_even (?x * of_int m) \<le> m" "0 \<le> round_even (?x * of_int m)" by auto
  with False show ?thesis by (simp add: weighted_def)
qed (simp add: weighted_def)

lemma shield_sum: "0 \<le> sum_list (map shield_unit ps) \<and> sum_list (map shield_unit ps) \<le> of_nat (length ps)"
proof (induction ps)
  case (Cons p ps)
  have "0 \<le> shield_unit p" "shield_unit p \<le> 1" by (simp_all add: shield_unit_def)
  with Cons show ?case by simp
qed simp

lemma shield_bounds: "0 \<le> shield_points ps \<and> shield_points ps \<le> 15"
proof (cases "ps = []")
  case False
  define x where "x = sum_list (map shield_unit ps) / of_nat (length ps)"
  have "0 \<le> x" "x \<le> 1" using shield_sum [of ps] False by (simp_all add: x_def divide_le_eq)
  then have "round_even (x * 15) \<le> 15" "0 \<le> round_even (x * 15)"
    using round_even_le [of "x * 15" 15] round_even_ge [of 0 "x * 15"] by simp_all
  with False show ?thesis by (simp add: shield_points_def x_def)
qed (simp add: shield_points_def)

text \<open>The score is a number from 0 to 100, every part lies between 0 and its maximum, the parts add up
  to the score, and the state follows from it: at least 85 points for ready, at least 60 for review.\<close>

theorem score_within_bounds:
  assumes "score_components overview storage config = Inr r"
  shows "0 \<le> sc_score r \<and> sc_score r \<le> 100 \<and> sc_score r = sum_list (map comp_points (sc_components r)) \<and>
    (\<forall>c \<in> set (sc_components r). 0 \<le> comp_points c \<and> comp_points c \<le> comp_maximum c) \<and>
    sum_list (map comp_maximum (sc_components r)) = 100 \<and>
    (sc_state r = ''ready'' \<longleftrightarrow> 85 \<le> sc_score r) \<and> (sc_state r = ''risk'' \<longleftrightarrow> sc_score r < 60)"
proof -
  from assms obtain t e s h st p where r: "sc_components r = score_of t e s h st p"
    "sc_score r = sum_list (map comp_points (score_of t e s h st p))" "sc_state r = score_state (sc_score r)"
    by (auto simp: score_components_def Let_def)
  have b: "\<forall>c \<in> set (score_of t e s h st p). 0 \<le> comp_points c \<and> comp_points c \<le> comp_maximum c"
    using weighted_bounds [of 15] weighted_bounds [of 25] weighted_bounds [of 30] shield_bounds
    by (simp add: score_of_def)
  have m: "sum_list (map comp_maximum (score_of t e s h st p)) = 100" by (simp add: score_of_def)
  have "0 \<le> sum_list (map comp_points (score_of t e s h st p))"
    using b by (intro sum_list_nonneg) auto
  moreover have "sum_list (map comp_points (score_of t e s h st p)) \<le> sum_list (map comp_maximum (score_of t e s h st p))"
    using b by (intro sum_list_mono) blast
  ultimately show ?thesis using r b m by (simp add: score_state_def)
qed

subsection \<open>Counting the jobs of a day\<close>

lemma count_job_fields:
  "d_date (count_job j b) = d_date b" "d_total (count_job j b) = Suc (d_total b)"
  by (simp_all add: count_job_def Let_def)

lemma count_job_parts:
  assumes "d_successful b + d_failed b + d_cancelled b + d_warnings b \<le> d_total b"
  shows "d_successful (count_job j b) + d_failed (count_job j b) + d_cancelled (count_job j b) + d_warnings (count_job j b)
    \<le> d_total (count_job j b)"
  using assms by (simp add: count_job_def Let_def)

definition day_ok :: "day_bucket \<Rightarrow> bool" where
  "day_ok b \<longleftrightarrow> 0 < d_total b \<and> d_successful b + d_failed b + d_cancelled b + d_warnings b \<le> d_total b"

lemma count_job_ok:
  "d_successful b + d_failed b + d_cancelled b + d_warnings b \<le> d_total b \<Longrightarrow> day_ok (count_job j b)"
  unfolding day_ok_def using count_job_parts by (simp add: count_job_fields(2))

lemma count_day_dates: "d_date ` set (count_day day j bs) = insert day (d_date ` set bs)"
  by (induction bs) (auto simp: count_job_fields(1) empty_day_def)

lemma count_day_inv:
  assumes "distinct (map d_date bs)" and "\<forall>b \<in> set bs. day_ok b"
  shows "distinct (map d_date (count_day day j bs)) \<and> (\<forall>b \<in> set (count_day day j bs). day_ok b) \<and>
    sum_list (map d_total (count_day day j bs)) = Suc (sum_list (map d_total bs))"
  using assms
proof (induction bs)
  case Nil
  have "day_ok (count_job j (empty_day day))" by (rule count_job_ok) (simp add: empty_day_def)
  then show ?case by (simp add: count_job_fields(2)) (simp add: empty_day_def)
next
  case (Cons b bs)
  then show ?case
  proof (cases "d_date b = day")
    case True
    have "day_ok (count_job j b)" using Cons.prems(2) by (intro count_job_ok) (simp add: day_ok_def)
    with Cons.prems True show ?thesis by (simp add: count_job_fields)
  next
    case False
    with Cons count_day_dates [of day j bs] show ?thesis by (auto simp: image_iff)
  qed
qed

lemma count_days_inv:
  assumes "distinct (map d_date bs)" and "\<forall>b \<in> set bs. day_ok b"
  shows "distinct (map d_date (count_days f cutoff js bs)) \<and> (\<forall>b \<in> set (count_days f cutoff js bs). day_ok b) \<and>
    sum_list (map d_total (count_days f cutoff js bs)) =
      length (takeWhile (\<lambda>j. cutoff \<le> job_start_time j) js) + sum_list (map d_total bs)"
  using assms
proof (induction js arbitrary: bs)
  case (Cons j js)
  show ?case
  proof (cases "job_start_time j < cutoff")
    case False
    from count_day_inv [OF Cons.prems, of "f (job_start_time j)" j]
      Cons.IH [of "count_day (f (job_start_time j)) j bs"] False
    show ?thesis by simp
  qed (use Cons.prems in simp)
qed simp

lemma takeWhile_sorted: "sorted_wrt (\<lambda>x y. (f y :: real) \<le> f x) xs \<Longrightarrow>
    takeWhile (\<lambda>x. c \<le> f x) xs = filter (\<lambda>x. c \<le> f x) xs"
proof (induction xs)
  case (Cons x xs)
  show ?case
  proof (cases "c \<le> f x")
    case False
    with Cons.prems have "filter (\<lambda>x. c \<le> f x) xs = []" by (auto simp: filter_empty_conv)
    with False show ?thesis by simp
  qed (use Cons in simp)
qed simp

lemma row_start_time: "job_start_time (row_to_dict r) = j_started r"
  by (simp add: job_start_time_def row_to_dict_def py_get_def py_or_def py_float_def)

lemma newest_sorted: "sorted_wrt (\<lambda>x y. j_started y \<le> j_started x) (newest_first rs)"
  using sorted_order_desc [of j_started "order_desc (\<lambda>r. real (j_id r)) rs"]
  by (simp add: newest_first_def sorted_wrt_map)

lemma filter_order_length: "length (filter P (order_desc f rs)) = length (filter P rs)"
proof -
  have "mset (filter P (order_desc f rs)) = mset (filter P rs)" by (simp add: order_desc_def)
  then show ?thesis by (rule mset_eq_length)
qed

text \<open>The calendar accounts for every job of the period: it has one entry per local day, latest day
  first, and while the store holds at most 10000 jobs the entries add up to the number of jobs
  that were started in the period; no day counts more outcomes than jobs.\<close>

theorem calendar_accounts_for_every_job:
  assumes "length (jobs db) \<le> 10000"
  shows "let bs = map fst (protection_calendar env db days zone now) in
    distinct (map d_date bs) \<and> sorted_wrt (\<ge>) (map d_date bs) \<and>
    sum_list (map d_total bs) = count_where (\<lambda>r. calendar_cutoff days now \<le> j_started r) (jobs db) \<and>
    (\<forall>b \<in> set bs. 0 < d_total b \<and> d_successful b + d_failed b + d_cancelled b + d_warnings b \<le> d_total b)"
proof -
  define c where "c = calendar_cutoff days now"
  define bs0 where "bs0 = count_days (v_day env (calendar_zone env zone)) c (job_iter all_jobs 10000 250 db) []"
  have bs: "map fst (protection_calendar env db days zone now) = rev (sort_key d_date bs0)"
    by (simp add: protection_calendar_def bs0_def c_def comp_def)
  have all: "select_where (job_filter all_jobs) (jobs db) = jobs db"
    by (simp add: select_where_def job_filter_def all_jobs_def given_def opt_str_def py_strip_def py_casefold_def)
  have it: "job_iter all_jobs 10000 250 db = map row_to_dict (newest_first (jobs db))"
  proof -
    have "limit_or 10000 5000 10000 = 10000" by (simp add: limit_or_def clamp_def)
    with assms show ?thesis
      by (simp add: job_iter_is_one_read matching_jobs_def all newest_first_def)
  qed
  have "takeWhile (\<lambda>j. c \<le> job_start_time j) (map row_to_dict (newest_first (jobs db))) =
      map row_to_dict (filter (\<lambda>r. c \<le> j_started r) (newest_first (jobs db)))"
    using takeWhile_sorted [OF newest_sorted, of c "jobs db"] by (simp add: takeWhile_map comp_def row_start_time)
  then have len: "length (takeWhile (\<lambda>j. c \<le> job_start_time j) (job_iter all_jobs 10000 250 db)) =
      count_where (\<lambda>r. c \<le> j_started r) (jobs db)"
    by (simp add: it newest_first_def filter_order_length count_where_def)
  have inv: "distinct (map d_date bs0)" "\<forall>b \<in> set bs0. day_ok b"
    "sum_list (map d_total bs0) = count_where (\<lambda>r. c \<le> j_started r) (jobs db)"
    using count_days_inv [of "[]"] len by (simp_all add: bs0_def)
  have "mset (map f (rev (sort_key d_date bs0))) = mset (map f bs0)" for f :: "day_bucket \<Rightarrow> 'b"
    by simp
  then have "distinct (map d_date (rev (sort_key d_date bs0)))"
    "sum_list (map d_total (rev (sort_key d_date bs0))) = sum_list (map d_total bs0)"
    using inv(1) mset_eq_imp_distinct_iff by (blast, metis sum_mset_sum_list)
  moreover have "sorted_wrt (\<ge>) (map d_date (rev (sort_key d_date bs0)))"
    by (simp add: rev_map [symmetric] sorted_wrt_rev)
  ultimately show ?thesis
    using inv unfolding Let_def bs c_def [symmetric] by (auto simp: day_ok_def)
qed

theorem score_within_bounds_witness:
  "\<exists>r. score_components [] [] [] = Inr r \<and> 0 \<le> sc_score r \<and> sc_score r \<le> 100 \<and> sc_state r = ''risk''"
proof -
  have "case score_components [] [] [] of Inl _ \<Rightarrow> False | Inr r \<Rightarrow> sc_state r = ''risk''" by code_simp
  then obtain r where r: "score_components [] [] [] = Inr r" "sc_state r = ''risk''" by (auto split: sum.splits)
  from score_within_bounds [OF r(1)] r show ?thesis by blast
qed

theorem calendar_accounts_for_every_job_witness:
  "\<exists>bs. bs = map fst (protection_calendar demo_guard demo_jobs 7 ''UTC'' 300) \<and> sum_list (map d_total bs) = 2"
proof -
  have l: "length (jobs demo_jobs) \<le> 10000" by (simp add: demo_jobs_def)
  have "count_where (\<lambda>r. calendar_cutoff 7 300 \<le> j_started r) (jobs demo_jobs) = 2"
    by (simp add: calendar_cutoff_def count_where_def demo_jobs_def demo_row_def)
  with calendar_accounts_for_every_job [OF l, of demo_guard 7 "''UTC''" 300] show ?thesis
    by (simp add: Let_def)
qed

end
