(* ===== verification/Config_Basics.thy ===== *)
theory Config_Basics
  imports Job_Definitions Rclone_Args Pair_Planner
begin

text \<open>
  \<open>app/config_validation.py\<close>: the helpers of the validation, and the vocabulary its sections
  are written in. A section of the configuration is a dictionary that is rewritten key by key. One
  assignment \<open>section[key] = ..\<close> with the checks around it is a \<open>field\<close>: the key, and a function of
  the dictionary as it is then that gives the update of this key and the messages, or raises.

  A message is a place and a complaint, one constructor per text of the code with the values put
  into it; the wording is not modelled. \<open>config_env\<close> gathers what comes from outside: the
  cron library, the time zone data, home directories and symbolic links, \<open>ipaddress\<close>, \<open>urlsplit\<close> and
  \<open>uuid5\<close>.
\<close>

subsection \<open>Messages\<close>

datatype complaint =
    Must_be_mapping
  | Must_be_list
  | Must_be_text_or_list
  | Must_be_absolute
  | Must_be_absolute_path string
  | Must_be_remote_or_absolute
  | Must_be_inside_data_dir
  | Must_be_safe_relative
  | Must_be_required
  | Must_be_set_together
  | Must_be_true_for_webauthn
  | Must_be_dns_name
  | Must_be_https_origin
  | Must_match_origin
  | Must_be_printable
  | Must_contain_paths string
  | Is_unsupported string
  | Is_invalid
  | Is_invalid_value string
  | Is_missing
  | Is_duplicate
  | Is_duplicate_value string
  | Is_unknown string
  | Is_unusual
  | Is_empty
  | Is_too_long nat
  | Is_too_large
  | Is_too_short
  | Is_repeating
  | Is_low_entropy
  | Is_no_longer_supported
  | Is_not_a_pair_option
  | Is_uncheckable
  | Is_reserved_name
  | Is_hidden_target
  | Is_relative_version_dir
  | Is_without_versions
  | Is_unprotected
  | Is_now_protected
  | Is_locked_until_allowed
  | Is_locked_without_limit
  | Has_control_characters
  | Has_parent_component
  | Has_identical_ends
  | Has_nested_ends
  | Has_contradiction
  | Has_bad_arguments
  | Overlaps string
  | Overlaps_data_path
  | Overlaps_vault
  | Overlaps_snapshots
  | Overlaps_pbs
  | Covers_vault_target string
  | Runs_serially string
  | Was_removed
  | Needs_colon string

datatype issue = Error string complaint | Warning string complaint

fun is_error :: "issue \<Rightarrow> bool" where
  "is_error (Error _ _) = True"
| "is_error (Warning _ _) = False"

definition accepted :: "issue list \<Rightarrow> bool" where
  "accepted es \<longleftrightarrow> list_all (\<lambda>i. \<not> is_error i) es"

lemma accepted_simps [simp]:
  "accepted []" "accepted (x # es) \<longleftrightarrow> \<not> is_error x \<and> accepted es"
  "accepted (es @ es') \<longleftrightarrow> accepted es \<and> accepted es'"
  by (auto simp: accepted_def)

definition error_if :: "bool \<Rightarrow> string \<Rightarrow> complaint \<Rightarrow> issue list" where
  "error_if b place c = (if b then [Error place c] else [])"

definition warn_if :: "bool \<Rightarrow> string \<Rightarrow> complaint \<Rightarrow> issue list" where
  "warn_if b place c = (if b then [Warning place c] else [])"

lemma accepted_error_if [simp]: "accepted (error_if b p c) \<longleftrightarrow> \<not> b"
  by (simp add: error_if_def)

lemma accepted_warn_if [simp]: "accepted (warn_if b p c)"
  by (simp add: warn_if_def)

subsection \<open>Outside of the program\<close>

record origin =
  o_scheme :: string
  o_host :: "string option"
  o_user :: "string option"
  o_password :: "string option"
  o_path :: string
  o_query :: string
  o_fragment :: string

record config_env =
  v_cron :: "string \<Rightarrow> bool"
  v_zone :: "string \<Rightarrow> bool"
  v_expand :: "string \<Rightarrow> string option"
  v_resolve :: "string \<Rightarrow> string list option"
  v_network :: "string \<Rightarrow> string option"
  v_origin :: "string \<Rightarrow> origin option"
  v_uid :: "string \<Rightarrow> string"

text \<open>\<open>Path(p).expanduser().resolve()\<close> as the parts of the path.\<close>

definition real_parts :: "config_env \<Rightarrow> string \<Rightarrow> string list option" where
  "real_parts env p = Option.bind (v_expand env p) (v_resolve env)"

definition inside :: "string list \<Rightarrow> string list \<Rightarrow> bool" where
  "inside p base \<longleftrightarrow> take (length base) p = base"

subsection \<open>Numbers and truth values\<close>

text \<open>\<open>_number\<close>. The handler covers \<open>TypeError\<close> and \<open>ValueError\<close>, not the overflow of \<open>int(inf)\<close> or
  of \<open>float\<close> on an integer beyond the doubles. With \<open>float\<close> a NaN loses every comparison, so \<open>min\<close> answers the maximum.\<close>

definition number_int :: "pyval \<Rightarrow> int \<Rightarrow> int \<Rightarrow> int \<Rightarrow> int result" where
  "number_int v dflt minimum maximum =
     (case py_int v of
        Inr i \<Rightarrow> Inr (clamp minimum maximum i)
      | Inl OverflowError \<Rightarrow> Inl OverflowError
      | Inl _ \<Rightarrow> Inr (clamp minimum maximum dflt))"

definition number_float :: "pyval \<Rightarrow> real \<Rightarrow> real \<Rightarrow> real \<Rightarrow> real result" where
  "number_float v dflt minimum maximum =
     (case py_float_any v of
        Inl OverflowError \<Rightarrow> Inl OverflowError
      | Inl _ \<Rightarrow> Inr (clamp minimum maximum dflt)
      | Inr (Inr r) \<Rightarrow> Inr (clamp minimum maximum r)
      | Inr (Inl NegInf) \<Rightarrow> Inr (clamp minimum maximum minimum)
      | Inr (Inl _) \<Rightarrow> Inr (clamp minimum maximum maximum))"

definition boolean :: "pyval \<Rightarrow> bool \<Rightarrow> bool" where
  "boolean v dflt =
     (case v of
        PBool b \<Rightarrow> b
      | PNone \<Rightarrow> dflt
      | PInt i \<Rightarrow> i \<noteq> 0
      | PFloat r \<Rightarrow> r \<noteq> 0
      | PNonFin _ \<Rightarrow> True
      | _ \<Rightarrow> (let t = py_lower (py_strip (py_str v)) in
             if t \<in> set true_words then True else if t \<in> set false_words then False else dflt))"

lemma number_int_bounds:
  "number_int v d lo hi = Inr i \<Longrightarrow> lo \<le> hi \<Longrightarrow> lo \<le> i \<and> i \<le> hi"
  by (auto simp: number_int_def clamp_def split: sum.splits pyerr.splits)

lemma number_float_bounds: "number_float v d lo hi = Inr r \<Longrightarrow> lo \<le> hi \<Longrightarrow> lo \<le> r \<and> r \<le> hi"
  unfolding number_float_def by (auto split: sum.splits pyerr.splits nonfin.splits dest: clamp_bounds)

subsection \<open>Text and paths\<close>

definition has_any :: "nat list \<Rightarrow> string \<Rightarrow> bool" where
  "has_any codes s \<longleftrightarrow> list_ex (\<lambda>c. code_of c \<in> set codes) s"

abbreviation line_codes :: "nat list" where "line_codes \<equiv> [0, 13, 10]"

definition clean_path :: "pyval \<Rightarrow> string result" where
  "clean_path v = (let t = text_of v in if has_any line_codes t then Inl (ValueError ''Steuerzeichen'') else Inr t)"

text \<open>The regular expression \<open>^[A-Za-z0-9][A-Za-z0-9_. -]{0,127}:.*$\<close>: the name ends at the first colon, and what
  follows is one line, possibly with its line end.\<close>

definition remote_name_char :: "char \<Rightarrow> bool" where
  "remote_name_char c \<longleftrightarrow> is_alpha c \<or> is_digit c \<or> c \<in> set ''_. -''"

definition one_line :: "string \<Rightarrow> bool" where
  "one_line s \<longleftrightarrow> CHR 0x0A \<notin> set (if s \<noteq> [] \<and> last s = CHR 0x0A then butlast s else s)"

definition remote_shape :: "string \<Rightarrow> bool" where
  "remote_shape s \<longleftrightarrow>
     (let name = before_char colon s in
      colon \<in> set s \<and> name \<noteq> [] \<and> (is_alpha (hd name) \<or> is_digit (hd name)) \<and>
      list_all remote_name_char name \<and> length name \<le> 128 \<and> one_line (after_char colon s))"

definition is_config_remote :: "string \<Rightarrow> bool" where
  "is_config_remote path \<longleftrightarrow>
     path \<noteq> [] \<and> \<not> py_startswith path ''/'' \<and> remote_shape path \<and> \<not> py_startswith path ''-''"

definition is_absolute_local :: "string \<Rightarrow> bool" where
  "is_absolute_local path \<longleftrightarrow> py_startswith path ''/''"

text \<open>\<open>str.splitlines\<close>; empty lines are dropped by every caller, so a pair of carriage return
  and line feed needs no special care.\<close>

definition line_break :: "char \<Rightarrow> bool" where
  "line_break c \<longleftrightarrow> code_of c \<in> {10, 11, 12, 13, 28, 29, 30}"

fun split_lines :: "string \<Rightarrow> string list" where
  "split_lines [] = [[]]"
| "split_lines (c # s) =
     (if line_break c then [] # split_lines s
      else (case split_lines s of [] \<Rightarrow> [[c]] | w # ws \<Rightarrow> (c # w) # ws))"

definition stripped_nonempty :: "string list \<Rightarrow> string list" where
  "stripped_nonempty xs = filter (\<lambda>s. s \<noteq> []) (map py_strip xs)"

definition normalize_string_list :: "pyval \<Rightarrow> string list result" where
  "normalize_string_list v =
     (case v of
        PNone \<Rightarrow> Inr []
      | PStr s \<Rightarrow> Inr (stripped_nonempty (split_lines s))
      | PList xs \<Rightarrow> Inr (stripped_nonempty (map py_str xs))
      | _ \<Rightarrow> Inl (ValueError ''Text oder Liste''))"

text \<open>\<open>_paths_overlap\<close> and \<open>_strict_path_ancestor\<close>: an error while a path is resolved counts as no.\<close>

definition config_paths_overlap :: "config_env \<Rightarrow> string \<Rightarrow> string \<Rightarrow> bool" where
  "config_paths_overlap env a b =
     (if a = [] \<or> b = [] \<or> is_config_remote a \<noteq> is_config_remote b then False
      else if is_config_remote a then
        (let aa = rstrip_char slash a; bb = rstrip_char slash b
         in aa = bb \<or> py_startswith aa (bb @ [slash]) \<or> py_startswith bb (aa @ [slash]))
      else (case (real_parts env a, real_parts env b) of
              (Some p, Some q) \<Rightarrow> p = q \<or> inside p q \<or> inside q p
            | _ \<Rightarrow> False))"

definition strict_path_ancestor :: "config_env \<Rightarrow> string \<Rightarrow> string \<Rightarrow> bool" where
  "strict_path_ancestor env ancestor child =
     (if ancestor = [] \<or> child = [] \<or> is_config_remote ancestor \<noteq> is_config_remote child then False
      else if is_config_remote ancestor then
        (let base = rstrip_char slash ancestor
         in rstrip_char slash child \<noteq> base \<and>
            py_startswith child (base @ (if base \<noteq> [] \<and> last base = colon then [] else [slash])))
      else (case (real_parts env ancestor, real_parts env child) of
              (Some p, Some q) \<Rightarrow> p \<noteq> q \<and> inside q p
            | _ \<Rightarrow> False))"

definition valid_cron :: "config_env \<Rightarrow> string \<Rightarrow> bool" where
  "valid_cron env expression \<longleftrightarrow> length (py_words expression) = 5 \<and> v_cron env expression"

text \<open>\<open>Path(s).parts\<close> without the root.\<close>

definition path_components :: "string \<Rightarrow> string list" where
  "path_components s = filter (\<lambda>c. c \<noteq> [] \<and> c \<noteq> ''.'') (split_char slash s)"

text \<open>The patterns \<open>_NAME_RE\<close>, \<open>_STABLE_ID_RE\<close>, \<open>_PBS_BACKUP_ID_RE\<close> and \<open>_DURATION_RE\<close> on stripped text.\<close>

definition name_ok :: "string \<Rightarrow> bool" where
  "name_ok s \<longleftrightarrow> s \<noteq> [] \<and> length s \<le> 80 \<and> list_all (\<lambda>c. 32 \<le> code_of c \<and> c \<noteq> slash \<and> c \<noteq> CHR 0x5C) s"

definition hex_lower :: "char \<Rightarrow> bool" where
  "hex_lower c \<longleftrightarrow> is_digit c \<or> (97 \<le> code_of c \<and> code_of c \<le> 102)"

definition stable_id_ok :: "string \<Rightarrow> bool" where
  "stable_id_ok s \<longleftrightarrow> length s = 32 \<and> list_all hex_lower s"

definition pbs_backup_id_ok :: "string \<Rightarrow> bool" where
  "pbs_backup_id_ok s \<longleftrightarrow>
     s \<noteq> [] \<and> (is_alpha (hd s) \<or> is_digit (hd s)) \<and> length s \<le> 80 \<and>
     list_all (\<lambda>c. is_alpha c \<or> is_digit c \<or> c \<in> set ''._-'') s"

definition duration_unit :: "string \<Rightarrow> bool" where
  "duration_unit s \<longleftrightarrow> s \<in> {[], ''ms'', ''s'', ''m'', ''h'', ''d'', ''w''}"

definition duration_ok :: "string \<Rightarrow> bool" where
  "duration_ok s \<longleftrightarrow>
     (let a = takeWhile is_digit s; t = dropWhile is_digit s in
      a \<noteq> [] \<and>
      (duration_unit t \<or>
       (case t of
          [] \<Rightarrow> False
        | c # u \<Rightarrow> c = CHR ''.'' \<and> takeWhile is_digit u \<noteq> [] \<and> duration_unit (dropWhile is_digit u))))"

subsection \<open>Strength of an explicit session secret\<close>

definition secret_placeholder :: string where
  "secret_placeholder = ''change-this-to-random-string-32chars-min''"

definition repeats :: "string \<Rightarrow> nat \<Rightarrow> bool" where
  "repeats raw period \<longleftrightarrow>
     length raw mod period = 0 \<and> raw = concat (replicate (length raw div period) (take period raw))"

definition entropy_bits :: "string \<Rightarrow> real" where
  "entropy_bits raw =
     - (\<Sum>c\<leftarrow>remdups raw. real (count_list raw c) / real (length raw) *
          log 2 (real (count_list raw c) / real (length raw))) * real (length raw)"

definition low_entropy :: "string \<Rightarrow> bool" where
  "low_entropy raw \<longleftrightarrow> entropy_bits raw < 128"

definition secret_strength_error :: "string \<Rightarrow> complaint option" where
  "secret_strength_error raw =
     (if raw = [] \<or> raw = secret_placeholder then None
      else if length raw < 32 then Some Is_too_short
      else if list_ex (repeats raw) [1..<min 16 (length raw div 2) + 1] then Some Is_repeating
      else if low_entropy raw then Some Is_low_entropy
      else None)"

text \<open>The comparison with 128 bits without logarithms: \<open>n^n < 2^128\<close> times the product of \<open>c^c\<close> over the
  numbers \<open>c\<close> of occurrences.\<close>

lemma entropy_bits_eq:
  assumes "raw \<noteq> []"
  shows "entropy_bits raw = real (length raw) * log 2 (length raw) -
    (\<Sum>c\<in>set raw. real (count_list raw c) * log 2 (count_list raw c))"
proof -
  let ?n = "real (length raw)" and ?k = "\<lambda>c. real (count_list raw c)"
  have n: "0 < ?n" using assms by simp
  have pos: "0 < ?k c" if "c \<in> set raw" for c
    using that by (metis count_list_0_iff not_gr_zero of_nat_0_less_iff)
  have "(\<Sum>c\<leftarrow>remdups raw. ?k c / ?n * log 2 (?k c / ?n)) * ?n = (\<Sum>c\<in>set raw. ?k c * log 2 (?k c / ?n))"
    using n by (simp add: sum_list_distinct_conv_sum_set sum_distrib_right)
  also have "\<dots> = (\<Sum>c\<in>set raw. ?k c * log 2 (?k c) - ?k c * log 2 ?n)"
    by (rule sum.cong) (use n pos in \<open>auto simp: log_divide right_diff_distrib\<close>)
  also have "\<dots> = (\<Sum>c\<in>set raw. ?k c * log 2 (?k c)) - (\<Sum>c\<in>set raw. ?k c) * log 2 ?n"
    by (simp add: sum_subtractf sum_distrib_right)
  also have "(\<Sum>c\<in>set raw. ?k c) = ?n"
    using sum_count_set [of raw "set raw"] by (metis List.finite_set of_nat_sum subset_refl)
  finally show ?thesis unfolding entropy_bits_def by simp
qed

lemma low_entropy_code [code]:
  "low_entropy raw \<longleftrightarrow>
     int (length raw) ^ length raw < 2 ^ 128 * (\<Prod>c\<leftarrow>remdups raw. int (count_list raw c) ^ count_list raw c)"
proof (cases "raw = []")
  case True
  then show ?thesis by (simp add: low_entropy_def entropy_bits_def)
next
  case False
  let ?n = "real (length raw)" and ?k = "\<lambda>c. real (count_list raw c)"
  let ?P = "\<Prod>c\<in>set raw. ?k c ^ count_list raw c"
  have n: "0 < ?n" using False by simp
  have pos: "0 < ?k c" if "c \<in> set raw" for c
    using that by (metis count_list_0_iff not_gr_zero of_nat_0_less_iff)
  have P: "0 < ?P" using pos by (intro prod_pos) simp
  have log_P: "log 2 ?P = (\<Sum>c\<in>set raw. ?k c * log 2 (?k c))"
  proof -
    have "ln ?P = (\<Sum>c\<in>set raw. ln (?k c ^ count_list raw c))"
      using pos by (intro ln_prod) auto
    also have "\<dots> = (\<Sum>c\<in>set raw. ?k c * ln (?k c))"
      using pos by (intro sum.cong) (auto simp: ln_realpow)
    finally show ?thesis by (simp add: log_def sum_divide_distrib)
  qed
  have mult: "log 2 (2 ^ 128 * q) = 128 + log 2 q" if "0 < q" for q :: real
    using that log_nat_power [of 2 2 128] by (simp add: log_mult)
  have "log 2 (2 ^ 128 * ?P) = 128 + log 2 ?P" by (rule mult [OF P])
  moreover have "log 2 (?n ^ length raw) = ?n * log 2 ?n"
    using log_nat_power [of ?n 2 "length raw"] n by simp
  ultimately have "low_entropy raw \<longleftrightarrow> log 2 (?n ^ length raw) < log 2 (2 ^ 128 * ?P)"
    unfolding low_entropy_def entropy_bits_eq [OF False] log_P by linarith
  also have "\<dots> \<longleftrightarrow> ?n ^ length raw < 2 ^ 128 * ?P"
    by (intro log_less_cancel_iff) (use n P in \<open>simp_all only: zero_less_power mult_pos_pos zero_less_numeral one_less_numeral_iff semiring_norm\<close>)
  also have "\<dots> \<longleftrightarrow> real_of_int (int (length raw) ^ length raw) <
      real_of_int (2 ^ 128 * (\<Prod>c\<leftarrow>remdups raw. int (count_list raw c) ^ count_list raw c))"
    by (simp add: prod.distinct_set_conv_list [of "remdups raw", symmetric, simplified])
  finally show ?thesis by (simp only: of_int_less_iff)
qed

end
