(* ===== verification/Config_Fields.thy ===== *)
theory Config_Fields
  imports Config_Basics
begin

text \<open>
  The vocabulary of the sections of \<open>validate_config\<close>: fields, lists of fields run in order on a
  dictionary, and the types their values have. A field reads the dictionary as the earlier fields
  left it. The lemmas reduce a statement on a whole section to one on each of its fields.
\<close>

datatype update = Put pyval | Keep | Drop

fun apply_update :: "string \<Rightarrow> update \<Rightarrow> pydict \<Rightarrow> pydict" where
  "apply_update k (Put v) d = py_set d k v"
| "apply_update k Keep d = d"
| "apply_update k Drop d = py_pop d k"

type_synonym answer = "(update \<times> issue list) result"
type_synonym field = "string \<times> (pydict \<Rightarrow> answer)"

fun run_fields :: "field list \<Rightarrow> pydict \<Rightarrow> (pydict \<times> issue list) result" where
  "run_fields [] d = Inr (d, [])"
| "run_fields ((k, f) # fs) d =
     bind_result (f d) (\<lambda>(u, es).
       bind_result (run_fields fs (apply_update k u d)) (\<lambda>(d', es'). Inr (d', es @ es')))"

subsection \<open>Answers\<close>

definition put :: "pyval \<Rightarrow> answer" where
  "put v = Inr (Put v, [])"

definition put_with :: "pyval \<Rightarrow> issue list \<Rightarrow> answer" where
  "put_with v es = Inr (Put v, es)"

definition texts :: "string list \<Rightarrow> pyval" where
  "texts xs = PList (map PStr xs)"

definition read_int :: "pydict \<Rightarrow> string \<Rightarrow> int \<Rightarrow> int \<Rightarrow> int \<Rightarrow> answer" where
  "read_int src k dflt lo hi =
     bind_result (number_int (py_get_default src k (PInt dflt)) dflt lo hi) (\<lambda>i. put (PInt i))"

definition read_float :: "pydict \<Rightarrow> string \<Rightarrow> real \<Rightarrow> real \<Rightarrow> real \<Rightarrow> answer" where
  "read_float src k dflt lo hi =
     bind_result (number_float (py_get_default src k (PFloat dflt)) dflt lo hi) (\<lambda>r. put (PFloat r))"

definition read_bool :: "pydict \<Rightarrow> string \<Rightarrow> bool \<Rightarrow> bool \<Rightarrow> answer" where
  "read_bool src k absent dflt = put (PBool (boolean (py_get_default src k (PBool absent)) dflt))"

text \<open>The same on the dictionary that is rewritten.\<close>

definition int_field :: "string \<Rightarrow> int \<Rightarrow> int \<Rightarrow> int \<Rightarrow> field" where
  "int_field k dflt lo hi = (k, \<lambda>d. read_int d k dflt lo hi)"

definition float_field :: "string \<Rightarrow> real \<Rightarrow> real \<Rightarrow> real \<Rightarrow> field" where
  "float_field k dflt lo hi = (k, \<lambda>d. read_float d k dflt lo hi)"

definition bool_field :: "string \<Rightarrow> bool \<Rightarrow> bool \<Rightarrow> field" where
  "bool_field k absent dflt = (k, \<lambda>d. read_bool d k absent dflt)"

text \<open>\<open>if d.get(k) not in (None, "")\<close>: a number that may be left out.\<close>

definition is_blank :: "pyval \<Rightarrow> bool" where
  "is_blank v \<longleftrightarrow> v = PNone \<or> v = PStr []"

definition optional_int :: "string \<Rightarrow> int \<Rightarrow> int \<Rightarrow> int \<Rightarrow> field" where
  "optional_int k dflt lo hi = (k, \<lambda>d.
     if is_blank (py_get d k) then Inr (Keep, [])
     else bind_result (number_int (py_get d k) dflt lo hi) (\<lambda>i. put (PInt i)))"

text \<open>A section: \<open>cfg.setdefault(name, {})\<close>, replaced by an empty one when it is not a mapping.\<close>

definition open_section :: "pydict \<Rightarrow> string \<Rightarrow> string \<Rightarrow> pydict \<times> issue list" where
  "open_section cfg k place =
     (case py_get_default cfg k (PDict []) of
        PDict d \<Rightarrow> (d, [])
      | _ \<Rightarrow> ([], [Error place Must_be_mapping]))"

definition run_section :: "field list \<Rightarrow> pydict \<Rightarrow> string \<Rightarrow> (pydict \<times> issue list) result" where
  "run_section fs cfg k =
     (let (d, es) = open_section cfg k k in
      bind_result (run_fields fs d) (\<lambda>(d', es'). Inr (d', es @ es')))"

subsection \<open>Types of values\<close>

datatype ftype =
    TAny
  | TBool
  | TText
  | TPath
  | TId
  | TName
  | TInt int int
  | TFloat real real
  | TNumber real real
  | TOneOf "string list"
  | TTexts
  | TAbsent
  | TOptional ftype
  | TListOf ftype
  | TDict "(string \<times> ftype) list"

fun has_type :: "ftype \<Rightarrow> pyval \<Rightarrow> bool" where
  "has_type TAny v = True"
| "has_type TBool v = (case v of PBool _ \<Rightarrow> True | _ \<Rightarrow> False)"
| "has_type TText v = (case v of PStr _ \<Rightarrow> True | _ \<Rightarrow> False)"
| "has_type TPath v = (case v of PStr s \<Rightarrow> is_absolute_local s | _ \<Rightarrow> False)"
| "has_type TId v = (case v of PStr s \<Rightarrow> stable_id_ok s | _ \<Rightarrow> False)"
| "has_type TName v = (case v of PStr s \<Rightarrow> name_ok s | _ \<Rightarrow> False)"
| "has_type (TInt lo hi) v = (case v of PInt i \<Rightarrow> lo \<le> i \<and> i \<le> hi | _ \<Rightarrow> False)"
| "has_type (TFloat lo hi) v = (case v of PFloat r \<Rightarrow> lo \<le> r \<and> r \<le> hi | _ \<Rightarrow> False)"
| "has_type (TNumber lo hi) v =
     (case v of PFloat r \<Rightarrow> lo \<le> r \<and> r \<le> hi | PInt i \<Rightarrow> lo \<le> of_int i \<and> of_int i \<le> hi | _ \<Rightarrow> False)"
| "has_type (TOneOf ws) v = (case v of PStr s \<Rightarrow> s \<in> set ws | _ \<Rightarrow> False)"
| "has_type TTexts v = (case v of PList vs \<Rightarrow> list_all is_str vs | _ \<Rightarrow> False)"
| "has_type TAbsent v = (v = PNone)"
| "has_type (TOptional t) v = (is_blank v \<or> has_type t v)"
| "has_type (TListOf t) v = (case v of PList vs \<Rightarrow> list_all (has_type t) vs | _ \<Rightarrow> False)"
| "has_type (TDict fs) v = (case v of PDict d \<Rightarrow> list_all (\<lambda>(k, t). has_type t (py_get d k)) fs | _ \<Rightarrow> False)"

declare has_type.simps [simp del]

lemma has_type_values [simp]:
  "has_type TAny v" "has_type TBool (PBool b)" "has_type TText (PStr s)"
  "has_type TPath (PStr s) \<longleftrightarrow> is_absolute_local s" "has_type TId (PStr s) \<longleftrightarrow> stable_id_ok s"
  "has_type TName (PStr s) \<longleftrightarrow> name_ok s" "has_type (TInt lo hi) (PInt i) \<longleftrightarrow> lo \<le> i \<and> i \<le> hi"
  "has_type (TFloat l h) (PFloat r) \<longleftrightarrow> l \<le> r \<and> r \<le> h" "has_type (TOneOf ws) (PStr s) \<longleftrightarrow> s \<in> set ws"
  "has_type TAbsent v \<longleftrightarrow> v = PNone" "has_type TTexts (texts xs)"
  "has_type (TListOf t) (PList vs) \<longleftrightarrow> list_all (has_type t) vs"
  "has_type (TDict fs) (PDict d) \<longleftrightarrow> list_all (\<lambda>(k, t). has_type t (py_get d k)) fs"
  by (simp_all add: has_type.simps texts_def list_all_iff)

lemma has_type_TOptional: "has_type (TOptional t) v \<longleftrightarrow> is_blank v \<or> has_type t v"
  by (simp add: has_type.simps)

text \<open>What a schema, a list of keys with types, asks of a key.\<close>

definition type_at :: "(string \<times> ftype) list \<Rightarrow> string \<Rightarrow> ftype" where
  "type_at schema k = (case map_of schema k of Some t \<Rightarrow> t | None \<Rightarrow> TAny)"

subsection \<open>Fields with a type\<close>

named_theorems typed_fields \<open>fields whose value has a type unless they report an error\<close>

text \<open>An answer leaves a value of the type at the key when it reports no error; \<open>old\<close> is the value before.\<close>

fun after_update :: "pyval \<Rightarrow> update \<Rightarrow> pyval" where
  "after_update old (Put v) = v"
| "after_update old Keep = old"
| "after_update old Drop = PNone"

definition typed_answer :: "ftype \<Rightarrow> pyval \<Rightarrow> answer \<Rightarrow> bool" where
  "typed_answer t old a \<longleftrightarrow>
     (\<forall>u es. a = Inr (u, es) \<longrightarrow> accepted es \<longrightarrow> has_type t (after_update old u))"

definition typed_field :: "field \<Rightarrow> ftype \<Rightarrow> bool" where
  "typed_field kf t \<longleftrightarrow> (\<forall>d. typed_answer t (py_get d (fst kf)) (snd kf d))"

lemma typed_fieldI:
  "(\<And>d u es. f d = Inr (u, es) \<Longrightarrow> accepted es \<Longrightarrow> has_type t (after_update (py_get d k) u)) \<Longrightarrow>
   typed_field (k, f) t"
  by (simp add: typed_field_def typed_answer_def)

lemma typed_answer_put [simp]: "typed_answer t old (put v) \<longleftrightarrow> has_type t v"
  by (auto simp: typed_answer_def put_def)

lemma typed_answer_put_with [simp]: "typed_answer t old (put_with v es) \<longleftrightarrow> (accepted es \<longrightarrow> has_type t v)"
  by (auto simp: typed_answer_def put_with_def)

lemma typed_answer_Inr [simp]:
  "typed_answer t old (Inr (u, es)) \<longleftrightarrow> (accepted es \<longrightarrow> has_type t (after_update old u))"
  by (auto simp: typed_answer_def)

lemma typed_read_int [simp]: "lo \<le> hi \<Longrightarrow> typed_answer (TInt lo hi) old (read_int src k dflt lo hi)"
  using number_int_bounds by (fastforce simp: typed_answer_def read_int_def put_def)

lemma typed_read_float [simp]: "lo \<le> hi \<Longrightarrow> typed_answer (TFloat lo hi) old (read_float src k dflt lo hi)"
  using number_float_bounds by (fastforce simp: typed_answer_def read_float_def put_def)

lemma typed_read_bool [simp]: "typed_answer TBool old (read_bool src k absent dflt)"
  by (simp add: typed_answer_def read_bool_def put_def)

lemma typed_int_field [typed_fields]: "lo \<le> hi \<Longrightarrow> typed_field (int_field k dflt lo hi) (TInt lo hi)"
  by (simp add: typed_field_def int_field_def)

lemma typed_float_field [typed_fields]: "lo \<le> hi \<Longrightarrow> typed_field (float_field k dflt lo hi) (TFloat lo hi)"
  by (simp add: typed_field_def float_field_def)

lemma typed_bool_field [typed_fields]: "typed_field (bool_field k absent dflt) TBool"
  by (simp add: typed_field_def bool_field_def)

lemma typed_optional_int [typed_fields]:
  "lo \<le> hi \<Longrightarrow> typed_field (optional_int k dflt lo hi) (TOptional (TInt lo hi))"
  using number_int_bounds by (fastforce simp: typed_field_def typed_answer_def optional_int_def put_def has_type_TOptional)

lemma typed_any [simp]: "typed_field kf TAny"
  by (simp add: typed_field_def typed_answer_def)

lemma field_keys [simp]:
  "fst (int_field k i lo hi) = k" "fst (float_field k r l h) = k" "fst (bool_field k a b) = k"
  "fst (optional_int k i lo hi) = k"
  by (simp_all add: int_field_def float_field_def bool_field_def optional_int_def)

subsection \<open>Running fields\<close>

lemma run_fields_Cons:
  "run_fields ((k, f) # fs) d = Inr (d', es) \<longleftrightarrow>
     (\<exists>u es1 es2. f d = Inr (u, es1) \<and> run_fields fs (apply_update k u d) = Inr (d', es2) \<and> es = es1 @ es2)"
proof (cases "f d")
  case (Inr a)
  obtain u es1 where f: "f d = Inr (u, es1)" using Inr by (cases a) simp
  show ?thesis
    by (cases "run_fields fs (apply_update k u d)") (auto simp: f)
qed simp

declare run_fields.simps(2) [simp del]

lemma py_get_apply_update:
  "py_get (apply_update k u d) k' = (if k' = k then after_update (py_get d k) u else py_get d k')"
  by (cases u) auto

lemma run_fields_frame:
  "run_fields fs d = Inr (d', es) \<Longrightarrow> k \<notin> fst ` set fs \<Longrightarrow> py_get d' k = py_get d k"
proof (induction fs arbitrary: d es)
  case (Cons kf fs)
  obtain j f where "kf = (j, f)" by (cases kf)
  with Cons show ?case by (fastforce simp: run_fields_Cons py_get_apply_update)
qed simp

lemma run_fields_append:
  "run_fields (fs @ gs) d = Inr (d', es) \<longleftrightarrow>
     (\<exists>d1 es1 es2. run_fields fs d = Inr (d1, es1) \<and> run_fields gs d1 = Inr (d', es2) \<and> es = es1 @ es2)"
proof (induction fs arbitrary: d es)
  case (Cons kf fs)
  obtain j f where "kf = (j, f)" by (cases kf)
  then show ?case unfolding append_Cons by (simp only: run_fields_Cons Cons.IH) (fastforce simp: append_assoc)
qed simp

text \<open>One field inside a run: what it answered, on which dictionary, and that the rest does not touch its key.\<close>

lemma run_fields_at:
  assumes "run_fields (fs @ (k, f) # gs) d = Inr (d', es)" and "k \<notin> fst ` set gs"
  obtains d0 u es0 where "f d0 = Inr (u, es0)" and "py_get d' k = after_update (py_get d0 k) u"
    and "set es0 \<subseteq> set es" and "\<And>j. j \<notin> fst ` set fs \<Longrightarrow> py_get d0 j = py_get d j"
    and "\<And>j. j \<noteq> k \<Longrightarrow> j \<notin> fst ` set gs \<Longrightarrow> py_get d0 j = py_get d' j"
proof -
  obtain d0 es1 es2 u es0 where run: "run_fields fs d = Inr (d0, es1)" "f d0 = Inr (u, es0)"
      "run_fields gs (apply_update k u d0) = Inr (d', es2)" and es: "es = es1 @ es0 @ es2"
    using assms(1) unfolding run_fields_append run_fields_Cons by blast
  have later: "py_get d' j = (if j = k then after_update (py_get d0 k) u else py_get d0 j)"
    if "j \<notin> fst ` set gs" for j
    using run_fields_frame [OF run(3) that] by (simp add: py_get_apply_update)
  show thesis
  proof (rule that [OF run(2)])
    show "py_get d' k = after_update (py_get d0 k) u" using later [OF assms(2)] by simp
    show "set es0 \<subseteq> set es" using es by auto
    show "py_get d0 j = py_get d j" if "j \<notin> fst ` set fs" for j
      by (rule run_fields_frame [OF run(1) that])
    show "py_get d0 j = py_get d' j" if "j \<noteq> k" "j \<notin> fst ` set gs" for j
      using later [OF that(2)] that(1) by simp
  qed
qed

text \<open>The same for a field given by its position.\<close>

lemma run_field_nth:
  assumes "run_fields fs d = Inr (d', es)" and "accepted es" and "fs ! i = (k, f)" and "i < length fs"
    and "k \<notin> set (map fst (drop (Suc i) fs))"
  obtains d0 u es0 where "f d0 = Inr (u, es0)" and "accepted es0" and "py_get d' k = after_update (py_get d0 k) u"
    and "\<And>j. j \<notin> set (map fst (take i fs)) \<Longrightarrow> py_get d0 j = py_get d j"
    and "\<And>j. j \<notin> set (map fst (drop i fs)) \<Longrightarrow> py_get d0 j = py_get d' j"
proof -
  have fs: "fs = take i fs @ (k, f) # drop (Suc i) fs" and tl: "drop i fs = (k, f) # drop (Suc i) fs"
    using id_take_nth_drop [OF assms(4)] Cons_nth_drop_Suc [OF assms(4)] assms(3) by simp_all
  have run: "run_fields (take i fs @ (k, f) # drop (Suc i) fs) d = Inr (d', es)" using fs assms(1) by simp
  have free: "k \<notin> fst ` set (drop (Suc i) fs)" using assms(5) by simp
  show thesis
  proof (rule run_fields_at [OF run free])
    fix d0 u es0
    assume f: "f d0 = Inr (u, es0)" "py_get d' k = after_update (py_get d0 k) u" and es0: "set es0 \<subseteq> set es"
      and before: "\<And>j. j \<notin> fst ` set (take i fs) \<Longrightarrow> py_get d0 j = py_get d j"
      and behind: "\<And>j. j \<noteq> k \<Longrightarrow> j \<notin> fst ` set (drop (Suc i) fs) \<Longrightarrow> py_get d0 j = py_get d' j"
    show thesis
    proof (rule that [OF f(1) _ f(2)])
      show "accepted es0" using es0 assms(2) by (auto simp: accepted_def list_all_iff)
      show "py_get d0 j = py_get d j" if "j \<notin> set (map fst (take i fs))" for j
        using that by (intro before) simp
      show "py_get d0 j = py_get d' j" if "j \<notin> set (map fst (drop i fs))" for j
        using that tl by (intro behind) auto
    qed
  qed
qed

text \<open>Fields that do not look at the dictionary.\<close>

lemma run_constant_fields:
  assumes "run_fields (map (\<lambda>(k, a). (k, \<lambda>_. a)) kas) d = Inr (d', es)" and "accepted es"
    and "distinct (map fst kas)" and "(k, a) \<in> set kas"
  shows "\<exists>u es0. a = Inr (u, es0) \<and> accepted es0 \<and> py_get d' k = after_update (py_get d k) u"
  using assms
proof (induction kas arbitrary: d es)
  case (Cons kb kas)
  obtain j b where kb: "kb = (j, b)" by (cases kb)
  obtain u es1 es2 where run: "b = Inr (u, es1)" "es = es1 @ es2"
      "run_fields (map (\<lambda>(k, a). (k, \<lambda>_. a)) kas) (apply_update j u d) = Inr (d', es2)"
    using Cons.prems(1) unfolding kb by (auto simp: run_fields_Cons)
  show ?case
  proof (cases "(k, a) = (j, b)")
    case True
    then have "py_get d' k = py_get (apply_update j u d) k"
      using Cons.prems(3) kb by (intro run_fields_frame [OF run(3)]) (auto simp: image_image split_beta)
    with True run Cons.prems(2) show ?thesis by (auto simp: py_get_apply_update)
  next
    case False
    then have "(k, a) \<in> set kas" using Cons.prems(4) kb by auto
    moreover from this have "k \<noteq> j" using Cons.prems(3) kb by (force simp: image_iff)
    ultimately show ?thesis
      using Cons.IH [OF run(3)] Cons.prems(2,3) run(2) by (simp add: py_get_apply_update)
  qed
qed simp

text \<open>A dictionary written by typed fields has the types of their schema.\<close>

lemma run_fields_typed:
  assumes "run_fields fs d = Inr (d', es)" and "accepted es"
    and "\<forall>kf \<in> set fs. typed_field kf (T (fst kf))" and "k \<in> fst ` set fs"
  shows "has_type (T k) (py_get d' k)"
  using assms
proof (induction fs arbitrary: d es)
  case (Cons kf fs)
  obtain j f where kf: "kf = (j, f)" by (cases kf)
  obtain u es1 es2 where run: "f d = Inr (u, es1)" "run_fields fs (apply_update j u d) = Inr (d', es2)"
      "es = es1 @ es2"
    using Cons.prems(1) unfolding kf run_fields_Cons by blast
  show ?case
  proof (cases "k \<in> fst ` set fs")
    case True
    then show ?thesis using Cons.IH [OF run(2)] Cons.prems(2,3) run(3) by simp
  next
    case False
    then have "k = j" using Cons.prems(4) kf by auto
    moreover have "has_type (T j) (after_update (py_get d j) u)"
      using Cons.prems(2,3) run kf by (auto simp: typed_field_def typed_answer_def)
    ultimately show ?thesis
      using run_fields_frame [OF run(2) False] by (simp add: py_get_apply_update)
  qed
qed simp

text \<open>A key that is assigned once more, by fields that keep its type.\<close>

definition keeps_type :: "field \<Rightarrow> ftype \<Rightarrow> bool" where
  "keeps_type kf t \<longleftrightarrow>
     (\<forall>d. has_type t (py_get d (fst kf)) \<longrightarrow> typed_answer t (py_get d (fst kf)) (snd kf d))"

lemma run_fields_kept:
  assumes "run_fields fs d = Inr (d', es)" and "accepted es" and "has_type t (py_get d k)"
    and "list_all (\<lambda>kf. fst kf = k \<longrightarrow> keeps_type kf t) fs"
  shows "has_type t (py_get d' k)"
  using assms
proof (induction fs arbitrary: d es)
  case (Cons kf fs)
  obtain j f where kf: "kf = (j, f)" by (cases kf)
  obtain u es1 es2 where run: "f d = Inr (u, es1)" "run_fields fs (apply_update j u d) = Inr (d', es2)"
      "es = es1 @ es2"
    using Cons.prems(1) unfolding kf run_fields_Cons by blast
  have "has_type t (py_get (apply_update j u d) k)"
    using Cons.prems(2-4) run kf by (auto simp: py_get_apply_update keeps_type_def typed_answer_def)
  then show ?case using Cons.IH [OF run(2)] Cons.prems(2,4) run(3) by simp
qed simp

text \<open>The premises of the rule are computed: the keys of the fields, and that the schema has no key twice and
  none that is not written.\<close>

lemma type_at_simps [simp]:
  "type_at [] j = TAny" "type_at ((k, t) # schema) j = (if j = k then t else type_at schema j)"
  by (simp_all add: type_at_def)

definition covers_keys :: "string list \<Rightarrow> (string \<times> ftype) list \<Rightarrow> bool" where
  "covers_keys ks schema \<longleftrightarrow> distinct (map fst schema) \<and> list_all (\<lambda>kt. fst kt \<in> set ks) schema"

lemma section_typed:
  assumes "run_fields fs d = Inr (d', es)" and "accepted es"
    and "map fst fs = ks" and "covers_keys ks schema"
    and "list_all (\<lambda>kf. typed_field kf (type_at schema (fst kf))) fs"
  shows "has_type (TDict schema) (PDict d')"
proof -
  have "has_type t (py_get d' k)" if "(k, t) \<in> set schema" for k t
  proof -
    have "type_at schema k = t" using that assms(4) by (simp add: type_at_def covers_keys_def)
    moreover have "k \<in> fst ` set fs"
      using that assms(3,4) by (auto simp: list_all_iff covers_keys_def)
    ultimately show ?thesis
      using run_fields_typed [OF assms(1,2), of "type_at schema" k] assms(5) by (auto simp: list_all_iff)
  qed
  then show ?thesis by (auto simp: list_all_iff)
qed

end
