(* ===== verification/Config_Web.thy ===== *)
theory Config_Web
  imports Config_Fields
begin

text \<open>
  \<open>validate_config\<close>, sections \<open>web\<close> and \<open>paths\<close>. The loops over list entries only report or keep an
  entry, so they are a filter and a list of messages, in the order of the entries.
\<close>

subsection \<open>web\<close>

definition default_hosts :: "string list" where
  "default_hosts = [''localhost'', ''127.0.0.1'', ''::1'']"

definition default_roots :: "string list" where
  "default_roots = [''/mnt'', ''/media'', ''/srv'', ''/opt/rclone-sync/data'']"

text \<open>\<open>try: _normalize_string_list(..) except ValueError\<close> with a message and a substitute.\<close>

definition listed :: "pyval \<Rightarrow> string list \<Rightarrow> string \<Rightarrow> string list \<times> issue list" where
  "listed v dflt place =
     (case normalize_string_list v of
        Inr xs \<Rightarrow> (xs, [])
      | Inl _ \<Rightarrow> (dflt, [Error place Must_be_text_or_list]))"

definition username_field :: field where
  "username_field = (''username'', \<lambda>d.
     let name = py_strip (str_or (py_get d ''username'') ''admin'')
     in put_with (PStr (if name = [] then ''admin'' else name))
          (error_if (name = [] \<or> 128 < length name \<or> has_any line_codes name) ''web.username'' Is_invalid))"

definition secret_key_field :: field where
  "secret_key_field = (''secret_key'', \<lambda>d.
     let secret = str_or (py_get d ''secret_key'') []
     in put_with (PStr secret)
          (case secret_strength_error secret of None \<Rightarrow> [] | Some c \<Rightarrow> [Error ''web.secret_key'' c]))"

definition cookie_words :: "string list" where
  "cookie_words = [''1'', ''0'', ''true'', ''false'', ''yes'', ''no'', ''on'', ''off'', ''ja'', ''nein'']"

fun is_bool :: "pyval \<Rightarrow> bool" where
  "is_bool (PBool _) = True"
| "is_bool _ = False"

definition lowered :: "pyval \<Rightarrow> string" where
  "lowered v = py_lower (py_strip (py_str v))"

definition secure_cookie_field :: field where
  "secure_cookie_field = (''secure_cookie'', \<lambda>d.
     let raw = py_get_default d ''secure_cookie'' (PStr ''auto'');
         v = (if raw = PNone then PStr ''auto'' else raw)
     in if is_str v \<and> lowered v = ''auto'' then put (PStr ''auto'')
        else put_with (PBool (boolean v False))
          (error_if (\<not> is_bool v \<and> lowered v \<notin> set cookie_words) ''web.secure_cookie'' Is_invalid))"

definition bad_host :: "string \<Rightarrow> bool" where
  "bad_host host \<longleftrightarrow> 255 < length host \<or> has_any [47, 92, 0, 13, 10] host"

definition allowed_hosts_field :: field where
  "allowed_hosts_field = (''allowed_hosts'', \<lambda>d.
     let (hosts, es) = listed (py_get_default d ''allowed_hosts'' (texts default_hosts)) default_hosts ''web.allowed_hosts'';
         clean = map py_casefold (filter (\<lambda>h. \<not> bad_host h) hosts)
     in put_with (texts (dedup (if clean = [] then default_hosts else clean)))
          (es @ map (\<lambda>h. Error ''web.allowed_hosts'' (Is_invalid_value h)) (filter bad_host hosts)))"

definition rp_id_field :: field where
  "rp_id_field = (''webauthn_rp_id'', \<lambda>d. put (PStr (py_casefold (text_of (py_get d ''webauthn_rp_id'')))))"

definition dns_name :: "string \<Rightarrow> bool" where
  "dns_name s \<longleftrightarrow>
     s \<noteq> [] \<and> length s \<le> 253 \<and>
     list_all (\<lambda>c. (97 \<le> code_of c \<and> code_of c \<le> 122) \<or> is_digit c \<or> c = CHR ''.'' \<or> c = CHR ''-'') s"

definition bad_origin :: "origin \<Rightarrow> string \<Rightarrow> bool" where
  "bad_origin p host \<longleftrightarrow>
     host = [] \<or> o_user p \<noteq> None \<or> o_password p \<noteq> None \<or> o_path p \<notin> {[], ''/''} \<or>
     o_query p \<noteq> [] \<or> o_fragment p \<noteq> [] \<or>
     o_scheme p \<notin> (if host = ''localhost'' then {''http'', ''https''} else {''https''})"

definition ends_with :: "string \<Rightarrow> string \<Rightarrow> bool" where
  "ends_with s t \<longleftrightarrow> length t \<le> length s \<and> drop (length s - length t) s = t"

definition origin_issues :: "config_env \<Rightarrow> string \<Rightarrow> string \<Rightarrow> issue list" where
  "origin_issues env rp text =
     (case v_origin env text of
        None \<Rightarrow> [Error ''web.webauthn_origin'' Must_be_https_origin]
      | Some p \<Rightarrow>
          (let host = py_casefold (opt_str (o_host p)) in
           if bad_origin p host then [Error ''web.webauthn_origin'' Must_be_https_origin]
           else error_if (\<not> (host = rp \<or> ends_with host (CHR ''.'' # rp))) ''web.webauthn_rp_id'' Must_match_origin))"

text \<open>The checks on both WebAuthn settings, with the normalized \<open>webauthn_rp_id\<close> already in place.\<close>

definition origin_field :: "config_env \<Rightarrow> field" where
  "origin_field env = (''webauthn_origin'', \<lambda>d.
     let rp = py_casefold (text_of (py_get d ''webauthn_rp_id''));
         text = rstrip_char slash (text_of (py_get d ''webauthn_origin''))
     in put_with (PStr text)
          (error_if ((rp \<noteq> []) \<noteq> (text \<noteq> [])) ''web.webauthn_origin'' Must_be_set_together @
           (if rp = [] then []
            else error_if (py_get d ''secure_cookie'' \<noteq> PBool True) ''web.secure_cookie'' Must_be_true_for_webauthn @
              error_if (\<not> dns_name rp) ''web.webauthn_rp_id'' Must_be_dns_name @ origin_issues env rp text)))"

definition proxies_field :: "config_env \<Rightarrow> field" where
  "proxies_field env = (''trusted_proxy_ips'', \<lambda>d.
     let (values, es) = listed (py_get_default d ''trusted_proxy_ips'' (PList [])) [] ''web.trusted_proxy_ips''
     in put_with (texts (dedup (List.map_filter (v_network env) values)))
          (es @ map (\<lambda>x. Error ''web.trusted_proxy_ips'' (Is_invalid_value x)) (filter (\<lambda>x. v_network env x = None) values)))"

definition root_issues :: "string \<Rightarrow> issue list" where
  "root_issues r =
     (case clean_path (PStr r) of
        Inl _ \<Rightarrow> [Error ''web.local_browse_roots'' Has_control_characters]
      | Inr p \<Rightarrow> error_if (\<not> is_absolute_local p) ''web.local_browse_roots'' (Must_be_absolute_path p))"

definition clean_root :: "string \<Rightarrow> string option" where
  "clean_root r =
     (case clean_path (PStr r) of
        Inl _ \<Rightarrow> None
      | Inr p \<Rightarrow> if is_absolute_local p then Some (let t = rstrip_char slash p in if t = [] then ''/'' else t) else None)"

definition roots_field :: field where
  "roots_field = (''local_browse_roots'', \<lambda>d.
     let (roots, es) = listed (py_get_default d ''local_browse_roots'' (texts default_roots)) [] ''web.local_browse_roots''
     in put_with (texts (dedup (List.map_filter clean_root roots))) (es @ concat (map root_issues roots)))"

definition hidden_field :: field where
  "hidden_field = (''hidden_remote_paths'', \<lambda>d.
     let (entries, es) = listed (py_get_default d ''hidden_remote_paths'' (texts default_hidden_remote_paths))
           default_hidden_remote_paths ''web.hidden_remote_paths''
     in put_with (texts (dedup (map normalize_remote_path (filter (\<lambda>e. colon \<in> set e) entries))))
          (es @ map (\<lambda>e. Error ''web.hidden_remote_paths'' (Needs_colon e)) (filter (\<lambda>e. colon \<notin> set e) entries)))"

definition web_fields :: "config_env \<Rightarrow> field list" where
  "web_fields env =
     [username_field, secret_key_field, secure_cookie_field,
      int_field ''session_version'' 1 1 2147483647,
      int_field ''session_max_age_seconds'' 604800 300 2592000,
      int_field ''login_window_seconds'' 300 60 86400,
      int_field ''login_max_failures'' 10 3 100,
      int_field ''login_lock_seconds'' 900 60 86400,
      int_field ''hsts_seconds'' 0 0 63072000,
      allowed_hosts_field, rp_id_field, origin_field env, proxies_field env, roots_field, hidden_field]"

subsection \<open>paths\<close>

definition default_data_dir :: string where "default_data_dir = ''/opt/rclone-sync/data''"

definition data_dir :: "pydict \<Rightarrow> string" where
  "data_dir paths = str_or (py_get paths ''data_dir'') default_data_dir"

text \<open>\<open>(Path(base) / leaf).as_posix()\<close>: two leading slashes are kept, three or more are one.\<close>

definition posix_root :: "string \<Rightarrow> string" where
  "posix_root s =
     (if py_startswith s ''//'' \<and> \<not> py_startswith s ''///'' then ''//''
      else if py_startswith s ''/'' then ''/'' else [])"

definition posix_join :: "string \<Rightarrow> string \<Rightarrow> string" where
  "posix_join base leaf = posix_root base @ py_join ''/'' (path_components base @ [leaf])"

definition path_entry :: "string \<Rightarrow> (pydict \<Rightarrow> string) \<Rightarrow> field" where
  "path_entry k dflt = (k, \<lambda>d.
     (case clean_path (py_get_default d k (PStr (dflt d))) of
        Inl _ \<Rightarrow> Inr (Keep, [Error (''paths.'' @ k) Has_control_characters])
      | Inr p \<Rightarrow>
          (let v = (if p = [] then dflt d else p)
           in put_with (PStr v) (error_if (\<not> is_absolute_local v) (''paths.'' @ k) Must_be_absolute))))"

definition paths_fields :: "field list" where
  "paths_fields =
     [path_entry ''data_dir'' (\<lambda>_. default_data_dir),
      path_entry ''logs_dir'' (\<lambda>_. ''/opt/rclone-sync/logs''),
      path_entry ''temp_dir'' (\<lambda>_. ''/opt/rclone-sync/temp''),
      path_entry ''recovery_dir'' (\<lambda>d. posix_join (data_dir d) ''recovery''),
      path_entry ''recovery_snapshots_dir'' (\<lambda>d. posix_join (data_dir d) ''recovery-snapshots''),
      path_entry ''device_vault_dir'' (\<lambda>_. ''/opt/rclone-sync/data/device-vault'')]"

subsection \<open>Types\<close>

definition web_schema :: "(string \<times> ftype) list" where
  "web_schema =
     [(''username'', TText), (''secret_key'', TText), (''session_version'', TInt 1 2147483647),
      (''session_max_age_seconds'', TInt 300 2592000), (''login_window_seconds'', TInt 60 86400),
      (''login_max_failures'', TInt 3 100), (''login_lock_seconds'', TInt 60 86400),
      (''hsts_seconds'', TInt 0 63072000), (''allowed_hosts'', TTexts), (''webauthn_rp_id'', TText),
      (''webauthn_origin'', TText), (''trusted_proxy_ips'', TTexts), (''local_browse_roots'', TTexts),
      (''hidden_remote_paths'', TTexts)]"

definition paths_schema :: "(string \<times> ftype) list" where
  "paths_schema =
     map (\<lambda>k. (k, TPath)) [''data_dir'', ''logs_dir'', ''temp_dir'', ''recovery_dir'', ''recovery_snapshots_dir'',
       ''device_vault_dir'']"

lemma typed_web_texts [typed_fields]:
  "typed_field username_field TText" "typed_field secret_key_field TText"
  "typed_field rp_id_field TText" "typed_field (origin_field env) TText"
  by (simp_all add: typed_field_def username_field_def secret_key_field_def rp_id_field_def origin_field_def Let_def)

lemma typed_web_lists [typed_fields]:
  "typed_field allowed_hosts_field TTexts" "typed_field (proxies_field env) TTexts"
  "typed_field roots_field TTexts" "typed_field hidden_field TTexts"
  by (simp_all add: typed_field_def allowed_hosts_field_def proxies_field_def roots_field_def hidden_field_def
      Let_def split_beta)

lemma typed_path_field [typed_fields]: "typed_field (path_entry k dflt) TPath"
  unfolding path_entry_def typed_field_def
  by (auto simp: Let_def split: sum.splits)

lemma web_keys [simp]:
  "fst username_field = ''username''" "fst secret_key_field = ''secret_key''"
  "fst secure_cookie_field = ''secure_cookie''" "fst allowed_hosts_field = ''allowed_hosts''"
  "fst rp_id_field = ''webauthn_rp_id''" "fst (origin_field env) = ''webauthn_origin''"
  "fst (proxies_field env) = ''trusted_proxy_ips''" "fst roots_field = ''local_browse_roots''"
  "fst hidden_field = ''hidden_remote_paths''" "fst (path_entry k dflt) = k"
  by (simp_all add: username_field_def secret_key_field_def secure_cookie_field_def allowed_hosts_field_def
      rp_id_field_def origin_field_def proxies_field_def roots_field_def hidden_field_def path_entry_def)

lemma web_section_typed:
  assumes "run_fields (web_fields env) d = Inr (d', es)" and "accepted es"
  shows "has_type (TDict web_schema) (PDict d')"
proof (rule section_typed [OF assms])
  show "map fst (web_fields env) =
    [''username'', ''secret_key'', ''secure_cookie'', ''session_version'', ''session_max_age_seconds'',
     ''login_window_seconds'', ''login_max_failures'', ''login_lock_seconds'', ''hsts_seconds'', ''allowed_hosts'',
     ''webauthn_rp_id'', ''webauthn_origin'', ''trusted_proxy_ips'', ''local_browse_roots'', ''hidden_remote_paths'']"
    by (simp add: web_fields_def)
qed (code_simp, simp add: web_fields_def web_schema_def typed_fields)

lemma paths_section_typed:
  assumes "run_fields paths_fields d = Inr (d', es)" and "accepted es"
  shows "has_type (TDict paths_schema) (PDict d')"
proof (rule section_typed [OF assms])
  show "map fst paths_fields =
    [''data_dir'', ''logs_dir'', ''temp_dir'', ''recovery_dir'', ''recovery_snapshots_dir'', ''device_vault_dir'']"
    by (simp add: paths_fields_def)
qed (code_simp, simp add: paths_fields_def paths_schema_def typed_fields)

end
