(* ===== verification/Config_Backup.thy ===== *)
theory Config_Backup
  imports Config_Web
begin

text \<open>
  \<open>validate_config\<close>, section \<open>backup\<close> up to the data paths: global switches and limits, the settings of
  the guard, of the overdue alarm and of the restore test, the tuning, global rclone arguments and the filter file.
\<close>

subsection \<open>Pieces that the data paths use as well\<close>

text \<open>A dictionary that is built anew, key by key.\<close>

definition built :: "(string \<times> answer) list \<Rightarrow> answer" where
  "built kas = bind_result (run_fields (map (\<lambda>(k, a). (k, \<lambda>_. a)) kas) []) (\<lambda>(d, es). Inr (Put (PDict d), es))"

definition off_schedule :: "string \<Rightarrow> bool" where
  "off_schedule s \<longleftrightarrow> py_lower s \<in> set disabled_schedules"

definition guard_answer :: "pydict \<Rightarrow> real \<Rightarrow> real \<Rightarrow> int \<Rightarrow> int \<Rightarrow> answer" where
  "guard_answer src file_drop size_drop files seconds = built
     [(''enabled'', read_bool src ''enabled'' True True),
      (''file_drop_percent'', read_float src ''file_drop_percent'' file_drop 5 100),
      (''size_drop_percent'', read_float src ''size_drop_percent'' size_drop 5 100),
      (''min_baseline_files'', read_int src ''min_baseline_files'' files 1 10000000),
      (''measurement_timeout_seconds'', read_int src ''measurement_timeout_seconds'' seconds 10 900)]"

definition arguments_answer :: "pyval \<Rightarrow> bool \<Rightarrow> string \<Rightarrow> answer" where
  "arguments_answer v allow_unsafe place =
     (case normalize_string_list v of
        Inl _ \<Rightarrow> Inr (Keep, [Error place Has_bad_arguments])
      | Inr xs \<Rightarrow> put_with (texts xs)
          (case validate_rclone_args (texts xs) allow_unsafe of
             Inl _ \<Rightarrow> [Error place Has_bad_arguments] | Inr _ \<Rightarrow> []))"

text \<open>The check of a filter file; every exception of it is reported as invalid.\<close>

definition filter_file_issues :: "config_env \<Rightarrow> pydict \<Rightarrow> bool \<Rightarrow> string \<Rightarrow> string \<Rightarrow> issue list" where
  "filter_file_issues env paths allow_external place value =
     (if value = [] then []
      else (case Option.bind (case clean_path (PStr value) of Inl _ \<Rightarrow> None | Inr p \<Rightarrow> Some p)
                  (\<lambda>p. map_option (Pair p) (v_expand env p)) of
          None \<Rightarrow> [Error place Is_invalid]
        | Some (p, expanded) \<Rightarrow>
            if \<not> is_absolute_local p then [Error place Must_be_absolute]
            else if allow_external then []
            else (case (real_parts env (data_dir paths), v_resolve env expanded) of
                (Some base, Some r) \<Rightarrow> error_if (r \<noteq> base \<and> \<not> inside r base) place Must_be_inside_data_dir
              | _ \<Rightarrow> [Error place Is_invalid])))"

subsection \<open>The section\<close>

definition max_lock_field :: field where
  "max_lock_field = (''max_lock'', \<lambda>d.
     let t = py_strip (str_or (py_get d ''max_lock'') ''2m'')
     in put_with (PStr t) (error_if (\<not> duration_ok t) ''backup.max_lock'' Is_invalid))"

definition conflict_words :: "string list" where
  "conflict_words = [''auto'', ''newer'', ''older'', ''larger'', ''smaller'', ''path1'', ''path2'', ''none'']"

definition conflict_field :: field where
  "conflict_field = (''conflict_resolve'', \<lambda>d.
     let t = py_lower (py_strip (str_or (py_get d ''conflict_resolve'') ''auto''))
     in if t \<in> set conflict_words then put (PStr t)
        else put_with (PStr ''auto'') [Error ''backup.conflict_resolve'' Is_invalid])"

definition overdue_field :: field where
  "overdue_field = (''overdue_alerts'', \<lambda>d.
     let src = as_dict (py_get d ''overdue_alerts'')
     in built [(''enabled'', read_bool src ''enabled'' True False),
               (''repeat_hours'', read_int src ''repeat_hours'' 24 1 720)])"

definition guard_field :: field where
  "guard_field = (''anomaly_guard'', \<lambda>d. guard_answer (as_dict (py_get d ''anomaly_guard'')) 35 35 100 180)"

definition restore_schedule_answer :: "config_env \<Rightarrow> pydict \<Rightarrow> answer" where
  "restore_schedule_answer env src =
     (let t = py_strip (str_or (py_get src ''schedule'') ''manual'')
      in put_with (PStr (if t = [] then ''manual'' else t))
           (error_if (t \<noteq> [] \<and> \<not> off_schedule t \<and> \<not> valid_cron env t)
              ''backup.restore_test.schedule'' (Is_invalid_value t)))"

definition restore_test_field :: "config_env \<Rightarrow> field" where
  "restore_test_field env = (''restore_test'', \<lambda>d.
     let src = as_dict (py_get d ''restore_test'')
     in built [(''enabled'', read_bool src ''enabled'' False False),
               (''schedule'', restore_schedule_answer env src),
               (''sample_files'', read_int src ''sample_files'' 20 1 500),
               (''max_total_mb'', read_int src ''max_total_mb'' 256 1 51200),
               (''max_scan_files'', read_int src ''max_scan_files'' 20000 100 1000000)])"

definition timezone_field :: "config_env \<Rightarrow> field" where
  "timezone_field env = (''timezone'', \<lambda>d.
     let t = py_strip (str_or (py_get d ''timezone'') ''Europe/Berlin'')
     in put_with (PStr t) (error_if (\<not> v_zone env t) ''backup.timezone'' (Is_invalid_value t)))"

definition default_schedule_field :: "config_env \<Rightarrow> field" where
  "default_schedule_field env = (''default_schedule'', \<lambda>d.
     let t = py_strip (str_or (py_get d ''default_schedule'') ''manual'')
     in put_with (PStr t)
          (error_if (\<not> off_schedule t \<and> \<not> valid_cron env t) ''backup.default_schedule'' (Is_invalid_value t)))"

text \<open>In the tuning every exception is reported, the overflow of an infinite number too.\<close>

definition tuning_int :: "string \<Rightarrow> int \<Rightarrow> int \<Rightarrow> field" where
  "tuning_int k lo hi = (k, \<lambda>d.
     if is_blank (py_get d k) then Inr (Keep, [])
     else (case number_int (py_get d k) lo lo hi of
        Inr i \<Rightarrow> put (PInt i)
      | Inl _ \<Rightarrow> Inr (Keep, [Error (''backup.tuning.'' @ k) Is_invalid])))"

definition stats_interval_field :: field where
  "stats_interval_field = (''stats_interval'', \<lambda>d.
     let t = py_strip (str_or (py_get d ''stats_interval'') ''10s'')
     in put_with (PStr t) (error_if (\<not> duration_ok t) ''backup.tuning.stats_interval'' Is_invalid))"

definition tuning_fields :: "field list" where
  "tuning_fields =
     [stats_interval_field, tuning_int ''transfers'' 1 128, tuning_int ''checkers'' 1 256,
      tuning_int ''retries'' 0 100, tuning_int ''low_level_retries'' 0 1000, tuning_int ''max_delete'' (- 1) 10000000]"

text \<open>A subsection that is rewritten in place.\<close>

definition nested :: "string \<Rightarrow> string \<Rightarrow> field list \<Rightarrow> field" where
  "nested k place fs = (k, \<lambda>d.
     let (sub, es) = open_section d k place in
     bind_result (run_fields fs sub) (\<lambda>(sub', es'). Inr (Put (PDict sub'), es @ es')))"

definition global_arguments_field :: field where
  "global_arguments_field = (''rclone_args'', \<lambda>d.
     arguments_answer (py_get d ''rclone_args'') (truthy (py_get d ''allow_unsafe_rclone_args'')) ''backup.rclone_args'')"

definition global_filter_field :: "config_env \<Rightarrow> pydict \<Rightarrow> field" where
  "global_filter_field env paths = (''filter_file'', \<lambda>d.
     let t = text_of (py_get d ''filter_file'')
     in put_with (PStr t)
          (filter_file_issues env paths (truthy (py_get d ''allow_external_filter_files'')) ''backup.filter_file'' t))"

definition backup_fields :: "config_env \<Rightarrow> pydict \<Rightarrow> field list" where
  "backup_fields env paths =
     [bool_field ''enabled'' True True,
      int_field ''recovery_staging_max_mb'' 51200 1 1048576,
      int_field ''recovery_snapshot_retention_days'' 90 1 3650,
      int_field ''max_parallel'' 2 1 16,
      float_field ''timeout_hours'' 4 (1 / 10) 168,
      float_field ''max_runtime_hours'' 0 0 720,
      bool_field ''collect_pre_post_stats'' False False,
      bool_field ''auto_resync'' False False,
      bool_field ''auto_resync_first_run'' True True,
      bool_field ''recover'' True True,
      bool_field ''resilient'' True True,
      bool_field ''allow_unsafe_rclone_args'' False False,
      bool_field ''allow_external_filter_files'' False False,
      bool_field ''require_delete_confirmation'' True True,
      bool_field ''require_max_delete_for_sync'' True True,
      max_lock_field, conflict_field,
      bool_field ''run_on_first_tick'' False False,
      int_field ''scheduler_retry_minutes'' 60 1 10080,
      int_field ''scheduler_grace_minutes'' 15 1 1440,
      overdue_field, guard_field, restore_test_field env, timezone_field env, default_schedule_field env,
      nested ''tuning'' ''backup.tuning'' tuning_fields,
      global_arguments_field, global_filter_field env paths]"

subsection \<open>Types\<close>

definition guard_schema :: "(string \<times> ftype) list" where
  "guard_schema =
     [(''enabled'', TBool), (''file_drop_percent'', TFloat 5 100), (''size_drop_percent'', TFloat 5 100),
      (''min_baseline_files'', TInt 1 10000000), (''measurement_timeout_seconds'', TInt 10 900)]"

definition tuning_schema :: "(string \<times> ftype) list" where
  "tuning_schema =
     [(''stats_interval'', TText), (''transfers'', TOptional (TInt 1 128)), (''checkers'', TOptional (TInt 1 256)),
      (''retries'', TOptional (TInt 0 100)), (''low_level_retries'', TOptional (TInt 0 1000)),
      (''max_delete'', TOptional (TInt (- 1) 10000000))]"

definition backup_schema :: "(string \<times> ftype) list" where
  "backup_schema =
     map (\<lambda>k. (k, TBool)) [''enabled'', ''collect_pre_post_stats'', ''auto_resync'', ''auto_resync_first_run'',
       ''recover'', ''resilient'', ''allow_unsafe_rclone_args'', ''allow_external_filter_files'',
       ''require_delete_confirmation'', ''require_max_delete_for_sync'', ''run_on_first_tick''] @
     [(''recovery_staging_max_mb'', TInt 1 1048576), (''recovery_snapshot_retention_days'', TInt 1 3650),
      (''max_parallel'', TInt 1 16), (''timeout_hours'', TFloat (1 / 10) 168), (''max_runtime_hours'', TFloat 0 720),
      (''max_lock'', TText), (''conflict_resolve'', TOneOf conflict_words),
      (''scheduler_retry_minutes'', TInt 1 10080), (''scheduler_grace_minutes'', TInt 1 1440),
      (''overdue_alerts'', TDict [(''enabled'', TBool), (''repeat_hours'', TInt 1 720)]),
      (''anomaly_guard'', TDict guard_schema),
      (''restore_test'', TDict [(''enabled'', TBool), (''schedule'', TText), (''sample_files'', TInt 1 500),
         (''max_total_mb'', TInt 1 51200), (''max_scan_files'', TInt 100 1000000)]),
      (''timezone'', TText), (''default_schedule'', TText), (''tuning'', TDict tuning_schema),
      (''rclone_args'', TTexts), (''filter_file'', TText)]"

lemma backup_keys [simp]:
  "fst max_lock_field = ''max_lock''" "fst conflict_field = ''conflict_resolve''"
  "fst overdue_field = ''overdue_alerts''" "fst guard_field = ''anomaly_guard''"
  "fst (restore_test_field env) = ''restore_test''" "fst (timezone_field env) = ''timezone''"
  "fst (default_schedule_field env) = ''default_schedule''" "fst (tuning_int k lo hi) = k"
  "fst stats_interval_field = ''stats_interval''" "fst (nested k place fs) = k"
  "fst global_arguments_field = ''rclone_args''" "fst (global_filter_field env paths) = ''filter_file''"
  by (simp_all add: max_lock_field_def conflict_field_def overdue_field_def guard_field_def restore_test_field_def
      timezone_field_def default_schedule_field_def tuning_int_def stats_interval_field_def nested_def
      global_arguments_field_def global_filter_field_def)

lemma typed_built:
  assumes "map fst kas = ks" and "covers_keys ks schema"
    and "list_all (\<lambda>ka. \<forall>old. typed_answer (type_at schema (fst ka)) old (snd ka)) kas"
  shows "typed_answer (TDict schema) old (built kas)"
proof -
  have "has_type (TDict schema) (PDict d')"
    if run: "run_fields (map (\<lambda>(k, a). (k, \<lambda>_. a)) kas) [] = Inr (d', es)" "accepted es" for d' es
  proof (rule section_typed [OF run _ assms(2)])
    show "map fst (map (\<lambda>(k, a). (k, \<lambda>_. a)) kas) = ks" using assms(1) by auto
    show "list_all (\<lambda>kf. typed_field kf (type_at schema (fst kf))) (map (\<lambda>(k, a). (k, \<lambda>_. a)) kas)"
      using assms(3) by (auto simp: list_all_iff typed_field_def)
  qed
  then show ?thesis by (auto simp: typed_answer_def built_def)
qed

lemma typed_guard_answer [simp]: "typed_answer (TDict guard_schema) old (guard_answer src fd sd n s)"
  unfolding guard_answer_def by (rule typed_built [OF refl]) (simp, code_simp, simp add: guard_schema_def)

lemma typed_arguments [simp]: "typed_answer TTexts old (arguments_answer v allow place)"
  unfolding arguments_answer_def by (simp split: sum.split)

lemma typed_backup_texts [typed_fields]:
  "typed_field max_lock_field TText" "typed_field conflict_field (TOneOf conflict_words)"
  "typed_field (timezone_field env) TText" "typed_field (default_schedule_field env) TText"
  "typed_field stats_interval_field TText" "typed_field global_arguments_field TTexts"
  "typed_field (global_filter_field env paths) TText"
  by (auto simp: typed_field_def max_lock_field_def conflict_field_def timezone_field_def default_schedule_field_def
      stats_interval_field_def global_arguments_field_def global_filter_field_def Let_def)

lemma typed_backup_parts [typed_fields]:
  "typed_field overdue_field (TDict [(''enabled'', TBool), (''repeat_hours'', TInt 1 720)])"
  "typed_field guard_field (TDict guard_schema)"
  "typed_field (restore_test_field env) (TDict [(''enabled'', TBool), (''schedule'', TText), (''sample_files'', TInt 1 500),
     (''max_total_mb'', TInt 1 51200), (''max_scan_files'', TInt 100 1000000)])"
  unfolding typed_field_def overdue_field_def guard_field_def restore_test_field_def Let_def
  by (simp_all, rule allI, rule typed_built [OF refl], simp, code_simp, simp)
     (rule allI, rule typed_built [OF refl], simp, code_simp, simp add: restore_schedule_answer_def Let_def)

lemma typed_tuning_int [typed_fields]: "lo \<le> hi \<Longrightarrow> typed_field (tuning_int k lo hi) (TOptional (TInt lo hi))"
  using number_int_bounds by (fastforce simp: typed_field_def tuning_int_def has_type_TOptional put_def split: sum.splits)

lemma typed_nested:
  assumes "\<And>d d' es. run_fields fs d = Inr (d', es) \<Longrightarrow> accepted es \<Longrightarrow> has_type (TDict schema) (PDict d')"
  shows "typed_field (nested k place fs) (TDict schema)"
  unfolding typed_field_def nested_def typed_answer_def using assms by (auto simp: split_beta Let_def)

lemma typed_tuning [typed_fields]: "typed_field (nested k place tuning_fields) (TDict tuning_schema)"
proof (rule typed_nested)
  show "has_type (TDict tuning_schema) (PDict d')" if "run_fields tuning_fields d = Inr (d', es)" "accepted es" for d d' es
    by (rule section_typed [OF that refl]) (simp add: tuning_fields_def, code_simp, simp add: tuning_fields_def tuning_schema_def typed_fields)
qed

lemma backup_section_typed:
  assumes "run_fields (backup_fields env paths) d = Inr (d', es)" and "accepted es"
  shows "has_type (TDict backup_schema) (PDict d')"
proof (rule section_typed [OF assms])
  show "map fst (backup_fields env paths) =
    [''enabled'', ''recovery_staging_max_mb'', ''recovery_snapshot_retention_days'', ''max_parallel'', ''timeout_hours'',
     ''max_runtime_hours'', ''collect_pre_post_stats'', ''auto_resync'', ''auto_resync_first_run'', ''recover'',
     ''resilient'', ''allow_unsafe_rclone_args'', ''allow_external_filter_files'', ''require_delete_confirmation'',
     ''require_max_delete_for_sync'', ''max_lock'', ''conflict_resolve'', ''run_on_first_tick'',
     ''scheduler_retry_minutes'', ''scheduler_grace_minutes'', ''overdue_alerts'', ''anomaly_guard'', ''restore_test'',
     ''timezone'', ''default_schedule'', ''tuning'', ''rclone_args'', ''filter_file'']"
    by (simp add: backup_fields_def)
qed (code_simp, simp add: backup_fields_def backup_schema_def typed_fields)

end
