(* ===== verification/Config_Pairs.thy ===== *)
theory Config_Pairs
  imports Config_Backup
begin

text \<open>
  \<open>validate_config\<close>, the loop over \<open>backup.pairs\<close>. One data path is rewritten by \<open>pair_fields\<close>; the loop
  carries the names and the ids seen so far. Local variables of the loop body that are assigned to a key (\<open>name\<close>,
  \<open>remote\<close>, \<open>local\<close>, \<open>direction\<close>, \<open>mode\<close>) are read back from that key. A key that the code assigns, and corrects
  further down, occurs twice.
\<close>

record pair_context =
  x_env :: config_env
  x_backup :: pydict
  x_paths :: pydict
  x_hidden :: "string list"

definition str_at :: "pydict \<Rightarrow> string \<Rightarrow> string" where
  "str_at d k = (case py_get d k of PStr s \<Rightarrow> s | _ \<Rightarrow> [])"

fun real_of :: "pyval \<Rightarrow> real" where
  "real_of (PFloat r) = r"
| "real_of (PInt i) = of_int i"
| "real_of _ = 0"

fun int_of :: "pyval \<Rightarrow> int" where
  "int_of (PInt i) = i"
| "int_of _ = 0"

definition dotted :: "string \<Rightarrow> string \<Rightarrow> string" where
  "dotted label k = label @ ''.'' @ k"

subsection \<open>Name and ends\<close>

definition config_name :: "pydict \<Rightarrow> string" where
  "config_name raw = text_of (py_get raw ''name'')"

definition pair_name_issues :: "string \<Rightarrow> string list \<Rightarrow> string \<Rightarrow> issue list" where
  "pair_name_issues label seen name =
     (if \<not> name_ok name then [Error (dotted label ''name'') Is_invalid]
      else error_if (CHR '','' \<in> set name \<or> py_startswith (py_casefold name) ''pbs:'') (dotted label ''name'') Is_reserved_name) @
     error_if (py_casefold name \<in> set seen) label (Is_duplicate_value name)"

definition pair_name_field :: "string \<Rightarrow> string list \<Rightarrow> field" where
  "pair_name_field label seen = (''name'', \<lambda>d.
     let name = config_name d in put_with (PStr name) (pair_name_issues label seen name))"

definition options_field :: "string \<Rightarrow> field" where
  "options_field label = (''options'', \<lambda>d.
     Inr (Drop, error_if (py_get d ''options'' \<notin> {PNone, PDict []}) (dotted label ''options'') Is_no_longer_supported))"

text \<open>Both ends are read in one \<open>try\<close> block: a control character in either empties both.\<close>

definition pair_ends :: "pydict \<Rightarrow> (string \<times> string) option" where
  "pair_ends raw =
     (case (clean_path (py_get raw ''remote''), clean_path (py_get raw ''local'')) of
        (Inr r, Inr l) \<Rightarrow> Some (r, l) | _ \<Rightarrow> None)"

definition ends_issues :: "config_env \<Rightarrow> string \<Rightarrow> string \<Rightarrow> string \<Rightarrow> issue list" where
  "ends_issues env label remote local =
     error_if (\<not> is_config_remote remote \<and> \<not> is_absolute_local remote) (dotted label ''remote'') Must_be_remote_or_absolute @
     (if local = [] then [Error (dotted label ''local'') Is_missing]
      else error_if (\<not> is_config_remote local \<and> \<not> is_absolute_local local) (dotted label ''local'') Must_be_absolute) @
     (if remote \<noteq> [] \<and> local \<noteq> [] \<and> rstrip_char slash remote = rstrip_char slash local
      then [Error label Has_identical_ends]
      else error_if (is_absolute_local remote \<and> is_absolute_local local \<and> config_paths_overlap env remote local)
             label Has_nested_ends)"

definition remote_field :: "config_env \<Rightarrow> string \<Rightarrow> pydict \<Rightarrow> field" where
  "remote_field env label raw = (''remote'', \<lambda>d.
     (case pair_ends raw of
        None \<Rightarrow> put_with (PStr []) (Error label Has_control_characters # ends_issues env label [] [])
      | Some (r, l) \<Rightarrow> put_with (PStr r) (ends_issues env label r l)))"

definition local_field :: "pydict \<Rightarrow> field" where
  "local_field raw = (''local'', \<lambda>d. put (PStr (case pair_ends raw of None \<Rightarrow> [] | Some (r, l) \<Rightarrow> l)))"

subsection \<open>Direction, mode, failure domains\<close>

definition direction_words :: "string list" where
  "direction_words = [''bisync'', ''pull'', ''push'']"

definition direction_field :: "string \<Rightarrow> field" where
  "direction_field label = (''direction'', \<lambda>d.
     let t = py_strip (py_lower (str_or (py_get d ''direction'') ''bisync''))
     in if t \<in> set direction_words then put (PStr t)
        else put_with (PStr ''bisync'') [Error (dotted label ''direction'') Is_invalid])"

definition mode_field :: "string \<Rightarrow> field" where
  "mode_field label = (''mode'', \<lambda>d.
     let bisync = (str_at d ''direction'' = ''bisync'');
         t = py_strip (py_lower (str_or (py_get d ''mode'') (if bisync then ''bisync'' else ''copy'')))
     in if bisync then put (PStr ''bisync'')
        else if t \<in> {''copy'', ''sync''} then put (PStr t)
        else put_with (PStr ''copy'') [Error (dotted label ''mode'') Is_invalid])"

definition destructive :: "pydict \<Rightarrow> bool" where
  "destructive d \<longleftrightarrow> str_at d ''mode'' = ''sync'' \<or> str_at d ''direction'' = ''bisync''"

definition domain_ok :: "string \<Rightarrow> bool" where
  "domain_ok s \<longleftrightarrow> length s \<le> 128 \<and> list_all (\<lambda>c. 32 \<le> code_of c) s"

definition domain_field :: "string \<Rightarrow> string \<Rightarrow> (pydict \<Rightarrow> string \<Rightarrow> issue list) \<Rightarrow> field" where
  "domain_field label k check = (k, \<lambda>d.
     if \<not> has_key d k then Inr (Keep, [])
     else (let t = text_of (py_get d k); v = (if domain_ok t then t else [])
           in put_with (PStr v) (error_if (\<not> domain_ok t) (dotted label k) Must_be_printable @ check d v)))"

definition domains_agree :: "string \<Rightarrow> pydict \<Rightarrow> string \<Rightarrow> issue list" where
  "domains_agree label d location =
     (let domain = str_at d ''failure_domain''
      in error_if (domain \<noteq> [] \<and> location \<noteq> [] \<and> py_casefold domain \<noteq> py_casefold location) label Has_contradiction)"

subsection \<open>Version directories\<close>

text \<open>\<open>s.replace(old, new)\<close> for a nonempty \<open>old\<close>.\<close>

fun replace_from :: "nat \<Rightarrow> string \<Rightarrow> string \<Rightarrow> string \<Rightarrow> string" where
  "replace_from skip old new [] = []"
| "replace_from (Suc n) old new (c # s) = replace_from n old new s"
| "replace_from 0 old new (c # s) =
     (if py_startswith (c # s) old then new @ replace_from (length old - 1) old new s
      else c # replace_from 0 old new s)"

definition py_replace :: "string \<Rightarrow> string \<Rightarrow> string \<Rightarrow> string" where
  "py_replace old new s = replace_from 0 old new s"

definition probe_of :: "string \<Rightarrow> string" where
  "probe_of spec = py_replace ''{date}'' ''0000-00-00T00-00-00'' spec"

definition version_overlap :: "config_env \<Rightarrow> pydict \<Rightarrow> string \<Rightarrow> string option" where
  "version_overlap env d probe =
     find (\<lambda>k. str_at d k \<noteq> [] \<and> config_paths_overlap env probe (str_at d k)) [''remote'', ''local'']"

definition version_answer :: "config_env \<Rightarrow> string \<Rightarrow> string \<Rightarrow> pydict \<Rightarrow> string \<times> issue list" where
  "version_answer env label k d =
     (let spec = text_of (py_get d k); probe = probe_of spec in
      if spec = [] then ([], [])
      else if has_any line_codes spec then ([], [Error (dotted label k) Has_control_characters])
      else if ''..'' \<in> set (path_components (py_replace ''{date}'' ''x'' spec))
        then ([], [Error (dotted label k) Has_parent_component])
      else if is_config_remote probe \<or> is_absolute_local probe then
        (spec, (case version_overlap env d probe of None \<Rightarrow> [] | Some e \<Rightarrow> [Error (dotted label k) (Overlaps e)]))
      else (spec, warn_if (destructive d) (str_at d ''name'') Is_relative_version_dir))"

definition version_field :: "config_env \<Rightarrow> string \<Rightarrow> string \<Rightarrow> field" where
  "version_field env label k = (k, \<lambda>d.
     let (spec, es) = version_answer env label k d in put_with (PStr spec) es)"

text \<open>The third directory, followed by the warning that a destructive path keeps no versions at all.\<close>

definition last_version_field :: "config_env \<Rightarrow> string \<Rightarrow> field" where
  "last_version_field env label = (''backup_dir2'', \<lambda>d.
     let (spec, es) = version_answer env label ''backup_dir2'' d
     in put_with (PStr spec)
          (es @ warn_if (destructive d \<and> truthy (py_get d ''enabled'') \<and> spec = [] \<and>
                         \<not> truthy (py_get d ''backup_dir'') \<and> \<not> truthy (py_get d ''backup_dir1''))
                  (str_at d ''name'') Is_without_versions))"

subsection \<open>Identity and schedule\<close>

definition pair_identity :: "config_env \<Rightarrow> pydict \<Rightarrow> string" where
  "pair_identity env d =
     v_uid env (py_join nul [''rclone'', py_casefold (str_at d ''name''), str_at d ''remote'', str_at d ''local'',
       str_at d ''direction'', str_at d ''mode''])"

definition id_field :: "string \<Rightarrow> string list \<Rightarrow> (pydict \<Rightarrow> string) \<Rightarrow> field" where
  "id_field label seen identity = (''id'', \<lambda>d.
     let given = py_lower (text_of (py_get d ''id''));
         v = (if given = [] then identity d else given)
     in put_with (PStr v)
          (error_if (given \<noteq> [] \<and> \<not> stable_id_ok given) (dotted label ''id'') Is_invalid @
           error_if (v \<in> set seen) (dotted label ''id'') Is_duplicate))"

definition dropped_schedule_field :: "config_env \<Rightarrow> string \<Rightarrow> field" where
  "dropped_schedule_field env label = (''schedule'', \<lambda>d.
     let t = text_of (py_get d ''schedule'')
     in Inr (Drop, error_if (t \<noteq> [] \<and> \<not> off_schedule t \<and> \<not> valid_cron env t) (dotted label ''schedule'') (Is_invalid_value t)))"

subsection \<open>Protection of targets and mount points\<close>

definition allow_empty_field :: "string list \<Rightarrow> field" where
  "allow_empty_field hidden = (''allow_empty_remote_target'', \<lambda>d.
     put_with (PBool (boolean (py_get_default d ''allow_empty_remote_target'' (PBool False)) False))
       (warn_if (truthy (py_get d ''enabled'') \<and> hidden \<noteq> [] \<and> is_hidden_remote_path (str_at d ''remote'') hidden)
          (str_at d ''name'') Is_hidden_target))"

text \<open>A local directory in the \<open>remote\<close> field that is written to: an unmounted target shows as empty, so at
  least one file is asked for unless the user allows an empty target.\<close>

definition unprotected_target :: "pydict \<Rightarrow> bool" where
  "unprotected_target d \<longleftrightarrow>
     truthy (py_get d ''enabled'') \<and> is_absolute_local (str_at d ''remote'') \<and>
     str_at d ''direction'' \<in> {''push'', ''bisync''} \<and> py_get d ''min_remote_files'' = PInt 0"

definition mount_drop_field :: field where
  "mount_drop_field = (''min_remote_files'', \<lambda>d.
     if \<not> unprotected_target d then Inr (Keep, [])
     else if truthy (py_get d ''allow_empty_remote_target'')
       then Inr (Keep, [Warning (str_at d ''name'') Is_unprotected])
     else put_with (PInt 1) [Warning (str_at d ''name'') Is_now_protected])"

definition mountpoint_issues :: "config_env \<Rightarrow> string \<Rightarrow> string \<Rightarrow> string \<Rightarrow> issue list" where
  "mountpoint_issues env label local mountpoint =
     (if mountpoint = [] then []
      else (case clean_path (PStr mountpoint) of
          Inl _ \<Rightarrow> [Error (dotted label ''mountpoint'') Has_control_characters]
        | Inr m \<Rightarrow>
            if \<not> is_absolute_local m then [Error (dotted label ''mountpoint'') Must_be_absolute]
            else if local = [] \<or> is_config_remote local then []
            else (case (real_parts env local, real_parts env m) of
                (Some l, Some r) \<Rightarrow> error_if (l \<noteq> r \<and> \<not> inside l r) (dotted label ''mountpoint'') (Must_contain_paths local)
              | _ \<Rightarrow> [Error (dotted label ''mountpoint'') Is_uncheckable])))"

definition mountpoint_field :: "config_env \<Rightarrow> string \<Rightarrow> field" where
  "mountpoint_field env label = (''mountpoint'', \<lambda>d.
     let t = text_of (py_get d ''mountpoint'')
     in put_with (PStr t) (mountpoint_issues env label (str_at d ''local'') t))"

definition pair_guard_field :: "pydict \<Rightarrow> string \<Rightarrow> field" where
  "pair_guard_field backup label = (''anomaly_guard'', \<lambda>d.
     let v = py_get d ''anomaly_guard''; common = as_dict (py_get backup ''anomaly_guard'') in
     if v = PNone then Inr (Keep, [])
     else bind_result (guard_answer (as_dict v)
              (real_of (py_get common ''file_drop_percent'')) (real_of (py_get common ''size_drop_percent''))
              (int_of (py_get common ''min_baseline_files'')) (int_of (py_get common ''measurement_timeout_seconds'')))
            (\<lambda>(u, es). Inr (u, error_if (\<not> is_dict v) (dotted label ''anomaly_guard'') Must_be_mapping @ es)))"

definition bad_sentinel :: "string \<Rightarrow> bool" where
  "bad_sentinel s \<longleftrightarrow> s \<noteq> [] \<and> (is_absolute_local s \<or> ''..'' \<in> set (path_components s) \<or> has_any line_codes s)"

definition sentinel_field :: "string \<Rightarrow> field" where
  "sentinel_field label = (''sentinel_file'', \<lambda>d.
     let t = text_of (py_get d ''sentinel_file'')
     in put_with (PStr t) (error_if (bad_sentinel t) (dotted label ''sentinel_file'') Must_be_safe_relative))"

subsection \<open>Options of the rclone run\<close>

definition forbidden_field :: "string \<Rightarrow> string \<Rightarrow> field" where
  "forbidden_field label k = (k, \<lambda>d.
     Inr (Drop, error_if (boolean (py_get_default d k (PBool False)) False) (dotted label k) Is_not_a_pair_option))"

definition present_bool :: "string \<Rightarrow> field" where
  "present_bool k = (k, \<lambda>d. if has_key d k then put (PBool (boolean (py_get d k) False)) else Inr (Keep, []))"

definition present_text :: "string \<Rightarrow> string \<Rightarrow> field" where
  "present_text label k = (k, \<lambda>d.
     if \<not> has_key d k then Inr (Keep, [])
     else (let t = text_of (py_get d k)
           in put_with (PStr t) (error_if (64 < length t \<or> has_any line_codes t) (dotted label k) Is_invalid)))"

definition log_levels :: "string list" where
  "log_levels = [''DEBUG'', ''INFO'', ''NOTICE'', ''ERROR'']"

definition log_level_field :: "string \<Rightarrow> field" where
  "log_level_field label = (''log_level'', \<lambda>d.
     if \<not> has_key d ''log_level'' then Inr (Keep, [])
     else (let t = map upper_char (text_of (py_get d ''log_level''))
           in put_with (PStr t) (error_if (t \<notin> set log_levels) (dotted label ''log_level'') Is_invalid)))"

definition pair_arguments_field :: "pydict \<Rightarrow> string \<Rightarrow> field" where
  "pair_arguments_field backup label = (''rclone_args'', \<lambda>d.
     arguments_answer (py_get d ''rclone_args'') (truthy (py_get backup ''allow_unsafe_rclone_args'')) (dotted label ''rclone_args''))"

definition filter_file_field :: "pair_context \<Rightarrow> string \<Rightarrow> string \<Rightarrow> field" where
  "filter_file_field x label k = (k, \<lambda>d.
     let t = text_of (py_get d k)
     in put_with (PStr t)
          (filter_file_issues (x_env x) (x_paths x) (truthy (py_get (x_backup x) ''allow_external_filter_files''))
             (dotted label k) t))"

text \<open>Why a destructive path will not run yet.\<close>

definition effective_max_delete :: "pydict \<Rightarrow> pydict \<Rightarrow> pyval" where
  "effective_max_delete backup d =
     py_get_default d ''max_delete'' (py_get (as_dict (py_or (py_get backup ''tuning'') (PDict []))) ''max_delete'')"

definition lock_warnings :: "pydict \<Rightarrow> pydict \<Rightarrow> issue list" where
  "lock_warnings backup d =
     (if destructive d \<and> truthy (py_get d ''enabled'') then
        warn_if (truthy (py_get backup ''require_delete_confirmation'') \<and> \<not> truthy (py_get d ''allow_delete''))
          (str_at d ''name'') Is_locked_until_allowed @
        warn_if (truthy (py_get backup ''require_max_delete_for_sync'') \<and>
                 effective_max_delete backup d \<in> {PNone, PStr [], PInt (- 1), PStr ''-1''})
          (str_at d ''name'') Is_locked_without_limit
      else [])"

definition rules_text :: "pyval \<Rightarrow> string" where
  "rules_text v =
     str_or (case v of PList xs \<Rightarrow> PStr (py_join [CHR 0x0A] (map py_str xs)) | _ \<Rightarrow> v) []"

definition rules_field :: "string \<Rightarrow> string \<Rightarrow> (pydict \<Rightarrow> issue list) \<Rightarrow> field" where
  "rules_field label k earlier = (k, \<lambda>d.
     let t = rules_text (py_get_default d k (PStr []))
     in put_with (PStr t) (earlier d @ error_if (524288 < int (length t)) (dotted label k) Is_too_large))"

subsection \<open>One data path\<close>

definition pair_fields :: "pair_context \<Rightarrow> string \<Rightarrow> string list \<Rightarrow> string list \<Rightarrow> pydict \<Rightarrow> field list" where
  "pair_fields x label seen_names seen_ids raw =
     (let env = x_env x in
     [pair_name_field label seen_names,
      bool_field ''enabled'' True True,
      bool_field ''recovery_snapshots'' False False,
      int_field ''recovery_snapshot_max_mb'' 5120 1 51200,
      options_field label, remote_field env label raw, local_field raw,
      direction_field label, mode_field label,
      domain_field label ''failure_domain'' (\<lambda>_ _. []), domain_field label ''location_id'' (domains_agree label),
      version_field env label ''backup_dir'', version_field env label ''backup_dir1'', last_version_field env label,
      id_field label seen_ids (pair_identity env), dropped_schedule_field env label,
      int_field ''min_local_files'' 1 0 10000000,
      int_field ''min_remote_files'' 0 0 10000000,
      allow_empty_field (x_hidden x), mount_drop_field,
      float_field ''min_free_gb'' 0 0 1000000,
      float_field ''max_success_age_hours'' 0 0 8760,
      bool_field ''require_mountpoint'' False False, mountpoint_field env label,
      bool_field ''allow_delete'' False False,
      pair_guard_field (x_backup x) label, sentinel_field label,
      optional_int ''max_delete'' 100 (- 1) 10000000,
      forbidden_field label ''ignore_errors'', forbidden_field label ''allow_unsafe_flags'',
      optional_int ''transfers'' 1 1 128, optional_int ''checkers'' 1 1 256, optional_int ''retries'' 0 0 100,
      optional_int ''low_level_retries'' 0 0 1000, optional_int ''tpslimit'' 0 0 1000000,
      optional_int ''tpslimit_burst'' 0 0 1000000,
      present_bool ''delete_excluded'', present_bool ''fast_list'', present_bool ''track_renames'',
      present_bool ''metadata'', present_bool ''create_empty_src_dirs'', present_bool ''ignore_existing'',
      present_bool ''drive_acknowledge_abuse'',
      present_text label ''max_transfer'', present_text label ''max_duration'', present_text label ''contimeout'',
      present_text label ''timeout'', present_text label ''bwlimit'', present_text label ''max_delete_size'',
      log_level_field label, pair_arguments_field (x_backup x) label,
      filter_file_field x label ''include_file'', filter_file_field x label ''exclude_file'',
      filter_file_field x label ''filter_file'',
      rules_field label ''include'' (lock_warnings (x_backup x)), rules_field label ''exclude'' (\<lambda>_. []),
      rules_field label ''filter'' (\<lambda>_. [])])"

definition normalize_pair ::
  "pair_context \<Rightarrow> string \<Rightarrow> string list \<Rightarrow> string list \<Rightarrow> pydict \<Rightarrow> (pydict \<times> issue list) result" where
  "normalize_pair x label seen_names seen_ids raw = run_fields (pair_fields x label seen_names seen_ids raw) raw"

definition indexed :: "string \<Rightarrow> nat \<Rightarrow> string" where
  "indexed place i = place @ ''['' @ show_nat i @ '']''"

fun normalize_pairs ::
  "pair_context \<Rightarrow> nat \<Rightarrow> string list \<Rightarrow> string list \<Rightarrow> pyval list \<Rightarrow> (pydict list \<times> issue list) result" where
  "normalize_pairs x i seen_names seen_ids [] = Inr ([], [])"
| "normalize_pairs x i seen_names seen_ids (v # vs) =
     (case v of
        PDict raw \<Rightarrow>
          bind_result (normalize_pair x (indexed ''backup.pairs'' i) seen_names seen_ids raw) (\<lambda>(pair, es).
          bind_result (normalize_pairs x (Suc i) (py_casefold (config_name raw) # seen_names) (str_at pair ''id'' # seen_ids) vs)
            (\<lambda>(pairs, es'). Inr (pair # pairs, es @ es')))
      | _ \<Rightarrow>
          bind_result (normalize_pairs x (Suc i) seen_names seen_ids vs)
            (\<lambda>(pairs, es'). Inr (pairs, Error (indexed ''backup.pairs'' i) Must_be_mapping # es')))"

definition max_pairs :: nat where "max_pairs = 256"

text \<open>The entry of the configuration before the loop.\<close>

definition raw_pairs :: "pydict \<Rightarrow> pyval list \<times> issue list" where
  "raw_pairs backup =
     (case py_or (py_get backup ''pairs'') (PList []) of
        PList vs \<Rightarrow>
          if max_pairs < length vs then (take max_pairs vs, [Error ''backup.pairs'' (Is_too_long max_pairs)]) else (vs, [])
      | _ \<Rightarrow> ([], [Error ''backup.pairs'' Must_be_list]))"

end
