(* ===== verification/Config_Jobs.thy ===== *)
theory Config_Jobs
  imports Config_Pairs
begin

text \<open>
  \<open>validate_config\<close> after the loop over the data paths: what the recovery directories must not touch, the job
  definitions with their migration from the old form, nested targets, and paths that run one after the other.
\<close>

subsection \<open>Recovery directories\<close>

definition text_at :: "pydict \<Rightarrow> string \<Rightarrow> string" where
  "text_at d k = str_or (py_get d k) []"

definition recovery_keys :: "string list" where
  "recovery_keys = [''recovery_dir'', ''recovery_snapshots_dir'']"

definition end_keys :: "string list" where
  "end_keys = [''local'', ''remote'']"

definition recovery_end_issues :: "config_env \<Rightarrow> pydict \<Rightarrow> string \<Rightarrow> pydict list \<Rightarrow> issue list" where
  "recovery_end_issues env paths key pairs =
     concat (map (\<lambda>pair. concat (map (\<lambda>k.
         error_if (is_absolute_local (text_at pair k) \<and> config_paths_overlap env (text_at paths key) (text_at pair k))
           (''paths.'' @ key) Overlaps_data_path) end_keys)) pairs)"

definition recovery_issues :: "config_env \<Rightarrow> pydict \<Rightarrow> pydict list \<Rightarrow> issue list" where
  "recovery_issues env paths pairs =
     concat (map (\<lambda>key. recovery_end_issues env paths key pairs @
         error_if (config_paths_overlap env (text_at paths key) (text_at paths ''device_vault_dir'')) (''paths.'' @ key) Overlaps_vault)
       recovery_keys) @
     error_if (config_paths_overlap env (text_at paths ''recovery_dir'') (text_at paths ''recovery_snapshots_dir''))
       ''paths.recovery_dir'' Overlaps_snapshots"

subsection \<open>Job definitions\<close>

record job_context =
  y_env :: config_env
  y_retry :: int
  y_known :: "string list"

definition job_name_issues :: "string \<Rightarrow> string list \<Rightarrow> string \<Rightarrow> issue list" where
  "job_name_issues label seen name =
     error_if (\<not> name_ok name) (dotted label ''name'') Is_invalid @
     error_if (py_casefold name \<in> set seen) label (Is_duplicate_value name)"

definition job_path_ids :: "pydict \<Rightarrow> string list" where
  "job_path_ids job = map (\<lambda>v. py_lower (text_of v)) (as_list (py_get job ''data_path_ids''))"

definition path_ids_issues :: "string \<Rightarrow> string list \<Rightarrow> pydict \<Rightarrow> issue list" where
  "path_ids_issues label known job =
     (let ids = job_path_ids job; unknown = filter (\<lambda>i. i \<notin> set known) ids; place = dotted label ''data_path_ids'' in
      error_if (\<not> is_list (py_get job ''data_path_ids'')) place Must_be_list @
      error_if (ids = []) place Is_missing @
      error_if (\<not> distinct ids) place Is_duplicate @
      error_if (unknown \<noteq> []) place (Is_unknown (py_join '', '' unknown)))"

definition job_schedule :: "pydict \<Rightarrow> string" where
  "job_schedule job =
     (let t = py_strip (str_or (py_get job ''schedule'') ''manual'') in if t = [] then ''manual'' else t)"

definition job_mode :: "pydict \<Rightarrow> string" where
  "job_mode job = py_casefold (str_or (py_get job ''execution_mode'') ''sequential'')"

definition execution_modes :: "string list" where
  "execution_modes = [''sequential'', ''parallel'']"

definition job_fields :: "job_context \<Rightarrow> string \<Rightarrow> string list \<Rightarrow> string list \<Rightarrow> pydict \<Rightarrow> (string \<times> answer) list" where
  "job_fields y label seen_names seen_ids job =
     (let env = y_env y; name = config_name job; ids = job_path_ids job;
          given = py_lower (text_of (py_get job ''id''));
          jid = (if given = [] then stable_job_id (v_uid env) name ids else given);
          schedule = job_schedule job;
          mode = (if job_mode job \<in> set execution_modes then job_mode job else ''sequential'')
      in [(''id'', put_with (PStr jid)
             (job_name_issues label seen_names name @ path_ids_issues label (y_known y) job @
              error_if (given \<noteq> [] \<and> \<not> stable_id_ok given) (dotted label ''id'') Is_invalid @
              error_if (jid \<in> set seen_ids) (dotted label ''id'') Is_duplicate)),
          (''name'', put (PStr name)),
          (''enabled'', read_bool job ''enabled'' True True),
          (''data_path_ids'', put (texts ids)),
          (''schedule'', put_with (PStr schedule)
             (error_if (\<not> off_schedule schedule \<and> \<not> valid_cron env schedule) (dotted label ''schedule'') (Is_invalid_value schedule))),
          (''execution_mode'', put_with (PStr mode)
             (error_if (job_mode job \<notin> set execution_modes) (dotted label ''execution_mode'') Is_invalid)),
          (''max_parallel'', bind_result (read_int job ''max_parallel'' 1 1 16) (\<lambda>a.
             if mode = ''sequential'' then put (PInt 1) else Inr a)),
          (''retry_minutes'', read_int job ''retry_minutes'' (y_retry y) 1 10080)])"

definition normalize_job ::
  "job_context \<Rightarrow> string \<Rightarrow> string list \<Rightarrow> string list \<Rightarrow> pydict \<Rightarrow> (pydict \<times> issue list) result" where
  "normalize_job y label seen_names seen_ids job =
     run_fields (map (\<lambda>(k, a). (k, \<lambda>_. a)) (job_fields y label seen_names seen_ids job)) []"

fun normalize_jobs ::
  "job_context \<Rightarrow> nat \<Rightarrow> string list \<Rightarrow> string list \<Rightarrow> pyval list \<Rightarrow> (pydict list \<times> issue list) result" where
  "normalize_jobs y i seen_names seen_ids [] = Inr ([], [])"
| "normalize_jobs y i seen_names seen_ids (v # vs) =
     (case v of
        PDict raw \<Rightarrow>
          bind_result (normalize_job y (indexed ''backup.jobs'' i) seen_names seen_ids raw) (\<lambda>(job, es).
          bind_result (normalize_jobs y (Suc i) (py_casefold (config_name raw) # seen_names) (str_at job ''id'' # seen_ids) vs)
            (\<lambda>(jobs, es'). Inr (job # jobs, es @ es')))
      | _ \<Rightarrow>
          bind_result (normalize_jobs y (Suc i) seen_names seen_ids vs)
            (\<lambda>(jobs, es'). Inr (jobs, Error (indexed ''backup.jobs'' i) Must_be_mapping # es')))"

definition max_jobs :: nat where "max_jobs = 256"

text \<open>A \<open>jobs\<close> key that is present is taken as it is, even when it is empty; otherwise the jobs are derived from
  the data paths.\<close>

definition raw_jobs :: "bool \<Rightarrow> pyval \<Rightarrow> pydict list \<Rightarrow> pyval list \<times> issue list" where
  "raw_jobs explicit given migrated =
     (case (if explicit then given else PList (map PDict migrated)) of
        PList vs \<Rightarrow>
          if max_jobs < length vs then (take max_jobs vs, [Error ''backup.jobs'' (Is_too_long max_jobs)]) else (vs, [])
      | _ \<Rightarrow> ([], [Error ''backup.jobs'' Must_be_list]))"

subsection \<open>Nested and overlapping data paths\<close>

definition vault_target :: "pydict \<Rightarrow> string" where
  "vault_target pair = text_at pair (if py_get pair ''direction'' = PStr ''pull'' then ''local'' else ''remote'')"

definition vault_issues :: "config_env \<Rightarrow> pydict list \<Rightarrow> issue list" where
  "vault_issues env pairs =
     concat (map (\<lambda>i. concat (map (\<lambda>j.
         error_if (j \<noteq> i \<and> list_ex (\<lambda>k. strict_path_ancestor env (text_at (pairs ! j) k) (vault_target (pairs ! i))) end_keys)
           (py_str (py_get (pairs ! j) ''name'')) (Covers_vault_target (py_str (py_get (pairs ! i) ''name''))))
       [0..<length pairs])) [0..<length pairs])"

definition overlapping_ends :: "config_env \<Rightarrow> pydict \<Rightarrow> pydict \<Rightarrow> (string \<times> string) option" where
  "overlapping_ends env p q =
     find (\<lambda>(k, l). config_paths_overlap env (text_at p k) (text_at q l)) (List.product end_keys end_keys)"

fun serial_warnings :: "config_env \<Rightarrow> pydict list \<Rightarrow> issue list" where
  "serial_warnings env [] = []"
| "serial_warnings env (p # ps) =
     concat (map (\<lambda>q. case overlapping_ends env p q of
         None \<Rightarrow> []
       | Some (k, l) \<Rightarrow> [Warning (dotted (py_str (py_get p ''name'')) k) (Runs_serially (dotted (py_str (py_get q ''name'')) l))]) ps)
     @ serial_warnings env ps"

subsection \<open>The section with its data paths and jobs\<close>

definition backup_paths :: "config_env \<Rightarrow> pydict \<Rightarrow> string list \<Rightarrow> pydict \<Rightarrow> (pydict list \<times> issue list) result" where
  "backup_paths env paths hidden backup =
     (let (vs, es) = raw_pairs backup in
      bind_result (normalize_pairs \<lparr>x_env = env, x_backup = backup, x_paths = paths, x_hidden = hidden\<rparr> 0 [] [] vs)
        (\<lambda>(pairs, es'). Inr (pairs, es @ es' @ recovery_issues env paths pairs)))"

definition backup_jobs ::
  "config_env \<Rightarrow> bool \<Rightarrow> pydict list \<Rightarrow> pydict list \<Rightarrow> pydict \<Rightarrow> (pydict list \<times> issue list) result" where
  "backup_jobs env explicit migrated pairs backup =
     (let (vs, es) = raw_jobs explicit (py_get backup ''jobs'') migrated in
      bind_result (normalize_jobs \<lparr>y_env = env, y_retry = int_of (py_get backup ''scheduler_retry_minutes''),
          y_known = map (\<lambda>p. text_at p ''id'') pairs\<rparr> 0 [] [] vs)
        (\<lambda>(jobs, es'). Inr (jobs, es @ es' @ vault_issues env pairs @ serial_warnings env pairs)))"

text \<open>The whole section; \<open>raw\<close> is the section as it came, which tells whether it names its jobs.\<close>

definition backup_section ::
  "config_env \<Rightarrow> pydict \<Rightarrow> string list \<Rightarrow> pydict \<Rightarrow> (pydict \<times> issue list) result" where
  "backup_section env paths hidden raw =
     bind_result (run_fields (backup_fields env paths) raw) (\<lambda>(backup, es1).
     bind_result (legacy_job_definitions (v_uid env) (py_set backup ''pairs'' (PList (fst (raw_pairs backup))))) (\<lambda>migrated.
     bind_result (backup_paths env paths hidden backup) (\<lambda>(pairs, es2).
     let backup' = py_set backup ''pairs'' (PList (map PDict pairs)) in
     bind_result (backup_jobs env (has_key raw ''jobs'') migrated pairs backup') (\<lambda>(jobs, es3).
       Inr (py_set backup' ''jobs'' (PList (map PDict jobs)), es1 @ es2 @ es3)))))"

end
