(* ===== verification/Config_Services.thy ===== *)
theory Config_Services
  imports Config_Pairs "HOL-Library.List_Lexorder" "HOL-Library.Char_ord"
begin

text \<open>
  \<open>validate_config\<close>, sections \<open>notifications\<close>, \<open>maintenance\<close> and \<open>pbs\<close>, with \<open>pbs_identity.py\<close>.
\<close>

subsection \<open>notifications\<close>

definition upper_digit :: "char \<Rightarrow> bool" where
  "upper_digit c \<longleftrightarrow> (65 \<le> code_of c \<and> code_of c \<le> 90) \<or> is_digit c"

definition apns_identifier_ok :: "string \<Rightarrow> bool" where
  "apns_identifier_ok s \<longleftrightarrow> length s = 10 \<and> list_all upper_digit s"

definition apns_topic_ok :: "string \<Rightarrow> bool" where
  "apns_topic_ok s \<longleftrightarrow>
     3 \<le> length s \<and> length s \<le> 255 \<and> list_all (\<lambda>c. is_alpha c \<or> is_digit c \<or> c = CHR ''.'' \<or> c = CHR ''-'') s"

definition notification_events :: "string list" where
  "notification_events =
     [''sync_started'', ''sync_ok'', ''sync_error'', ''conflict'', ''mount_check_failed'', ''cancelled'', ''pair_overdue'',
      ''restore_test_ok'', ''restore_test_error'', ''restore_test_warning'', ''anomaly_blocked'', ''recovery_ready'',
      ''recovery_error'']"

definition default_events :: "string list" where
  "default_events = [''sync_error'', ''mount_check_failed'', ''pair_overdue'', ''restore_test_error'']"

definition upper_field :: "string \<Rightarrow> field" where
  "upper_field k = (k, \<lambda>d. put (PStr (map upper_char (text_of (py_get d k)))))"

text \<open>The only \<open>_clean_path\<close> outside a handler: its \<open>ValueError\<close> leaves the validation.\<close>

definition key_file_field :: field where
  "key_file_field = (''key_file'', \<lambda>d. bind_result (clean_path (py_get d ''key_file'')) (\<lambda>p. put (PStr p)))"

definition topic_field :: field where
  "topic_field = (''topic'', \<lambda>d.
     put (PStr (py_strip (str_or (py_get d ''topic'') ''de.oliverzimmermann.rclonesync''))))"

definition events_field :: field where
  "events_field = (''events'', \<lambda>d.
     let v = py_or (py_get d ''events'') (texts default_events); named = map py_str (as_list v);
         unknown = filter (\<lambda>e. e \<notin> set notification_events) named
     in put_with (texts (dedup (filter (\<lambda>e. e \<in> set notification_events) named)))
          (error_if (\<not> is_list v) ''notifications.apns.events'' Must_be_list @
           error_if (unknown \<noteq> []) ''notifications.apns.events'' (Is_unknown (py_join '', '' unknown))))"

definition key_file_issues :: "config_env \<Rightarrow> pydict \<Rightarrow> string \<Rightarrow> issue list result" where
  "key_file_issues env paths file =
     (if file = [] \<or> \<not> is_absolute_local file then Inr [Error ''notifications.apns.key_file'' Must_be_absolute]
      else (case (v_resolve env file, v_resolve env (data_dir paths)) of
          (Some p, Some base) \<Rightarrow> Inr (error_if (\<not> inside p base) ''notifications.apns.key_file'' Must_be_inside_data_dir)
        | _ \<Rightarrow> Inl (RuntimeError ''Symlink loop'')))"

text \<open>The last number, followed by the checks that only apply when the delivery is enabled.\<close>

definition enabled_apns_issues :: "config_env \<Rightarrow> pydict \<Rightarrow> pydict \<Rightarrow> issue list result" where
  "enabled_apns_issues env paths d =
     (if \<not> truthy (py_get d ''enabled'') then Inr []
      else bind_result (key_file_issues env paths (str_at d ''key_file'')) (\<lambda>es. Inr
        (error_if (\<not> apns_identifier_ok (str_at d ''team_id'')) ''notifications.apns.team_id'' Is_invalid @
         error_if (\<not> apns_identifier_ok (str_at d ''key_id'')) ''notifications.apns.key_id'' Is_invalid @
         es @
         error_if (\<not> apns_topic_ok (str_at d ''topic'')) ''notifications.apns.topic'' Is_invalid @
         error_if (py_get d ''events'' = PList []) ''notifications.apns.events'' Is_missing)))"

definition lease_field :: "config_env \<Rightarrow> pydict \<Rightarrow> field" where
  "lease_field env paths = (''device_lease_days'', \<lambda>d.
     bind_result (read_int d ''device_lease_days'' 7 1 90) (\<lambda>(u, es).
     bind_result (enabled_apns_issues env paths d) (\<lambda>es'. Inr (u, es @ es'))))"

definition apns_fields :: "config_env \<Rightarrow> pydict \<Rightarrow> field list" where
  "apns_fields env paths =
     [bool_field ''enabled'' False False, upper_field ''team_id'', upper_field ''key_id'', key_file_field, topic_field,
      events_field, float_field ''timeout_seconds'' 10 1 30, float_field ''retention_hours'' 24 1 168,
      int_field ''max_attempts'' 8 1 20, lease_field env paths]"

definition dropped_field :: "string \<Rightarrow> field" where
  "dropped_field k = (k, \<lambda>_. Inr (Drop, []))"

definition webhooks_field :: field where
  "webhooks_field = (''webhooks'', \<lambda>d. Inr (Drop, warn_if (truthy (py_get d ''webhooks'')) ''notifications.webhooks'' Was_removed))"

definition apns_field :: "config_env \<Rightarrow> pydict \<Rightarrow> field" where
  "apns_field env paths = (''apns'', \<lambda>d.
     let v = py_or (py_get d ''apns'') (PDict []) in
     bind_result (run_fields (apns_fields env paths) (as_dict v)) (\<lambda>(apns, es).
       Inr (Put (PDict apns), error_if (\<not> is_dict v) ''notifications.apns'' Must_be_mapping @ es)))"

definition notification_fields :: "config_env \<Rightarrow> pydict \<Rightarrow> field list" where
  "notification_fields env paths =
     [webhooks_field, dropped_field ''allow_http'', dropped_field ''allow_private_targets'',
      dropped_field ''timeout_seconds'', dropped_field ''max_parallel'', apns_field env paths]"

subsection \<open>maintenance\<close>

definition maintenance_fields :: "field list" where
  "maintenance_fields =
     [bool_field ''auto_prune'' True True, int_field ''job_retention_days'' 180 1 3650,
      int_field ''keep_latest_jobs'' 500 10 100000, int_field ''log_retention_days'' 90 1 3650]"

subsection \<open>pbs\<close>

text \<open>The pattern \<open>^[^\s@]+@[^\s@!]+(?:![^\s@:]+)?@[^\s:]+:\S+$\<close>; every separator ends the part before it.\<close>

definition datastore_ok :: "string \<Rightarrow> bool" where
  "datastore_ok t \<longleftrightarrow> colon \<in> set t \<and> before_char colon t \<noteq> [] \<and> after_char colon t \<noteq> []"

definition repository_ok :: "string \<Rightarrow> bool" where
  "repository_ok s \<longleftrightarrow>
     (let user = before_char (CHR ''@'') s; r = after_char (CHR ''@'') s;
          stop = (\<lambda>cs c. c \<notin> set cs); realm = takeWhile (stop ''@!'') r; rest = dropWhile (stop ''@!'') r
      in list_all (\<lambda>c. \<not> is_space c) s \<and> CHR ''@'' \<in> set s \<and> user \<noteq> [] \<and> realm \<noteq> [] \<and>
         (case rest of
            [] \<Rightarrow> False
          | c # t \<Rightarrow>
              if c = CHR ''@'' then datastore_ok t
              else (let token = takeWhile (stop ''@:'') t; u = dropWhile (stop ''@:'') t
                    in token \<noteq> [] \<and> (case u of [] \<Rightarrow> False | e # w \<Rightarrow> e = CHR ''@'' \<and> datastore_ok w))))"

definition repository_field :: field where
  "repository_field = (''repository'', \<lambda>d.
     let t = text_of (py_get d ''repository'')
     in put_with (PStr t)
          (error_if (truthy (py_get d ''enabled'') \<and> t = []) ''pbs.repository'' Must_be_required @
           warn_if (t \<noteq> [] \<and> \<not> repository_ok t) ''pbs.repository'' Is_unusual))"

definition stripped_field :: "string \<Rightarrow> field" where
  "stripped_field k = (k, \<lambda>d. put (PStr (text_of (py_get d k))))"

definition backup_id_field :: "string \<Rightarrow> field" where
  "backup_id_field place = (''backup_id'', \<lambda>d.
     let t = text_of (py_get d ''backup_id'')
     in put_with (PStr t) (error_if (t \<noteq> [] \<and> \<not> pbs_backup_id_ok t) place Is_invalid))"

definition hex_digit :: "char \<Rightarrow> bool" where
  "hex_digit c \<longleftrightarrow> hex_lower c \<or> (65 \<le> code_of c \<and> code_of c \<le> 70)"

definition fingerprint_ok :: "string \<Rightarrow> bool" where
  "fingerprint_ok s \<longleftrightarrow>
     length (split_char colon s) = 32 \<and> list_all (\<lambda>w. length w = 2 \<and> list_all hex_digit w) (split_char colon s)"

definition fingerprint_field :: field where
  "fingerprint_field = (''fingerprint'', \<lambda>d.
     let t = text_of (py_get d ''fingerprint'')
     in put_with (PStr t) (error_if (t \<noteq> [] \<and> \<not> fingerprint_ok t) ''pbs.fingerprint'' Is_invalid))"

definition password_field :: field where
  "password_field = (''password'', \<lambda>d.
     let t = str_or (py_get d ''password'') []
     in put_with (PStr t) (warn_if (truthy (py_get d ''enabled'') \<and> t = []) ''pbs.password'' Is_empty))"

text \<open>The limit is not converted: at the upper end it is the integer of the code.\<close>

definition pbs_timeout_field :: field where
  "pbs_timeout_field = (''timeout_hours'', \<lambda>d.
     bind_result (number_float (py_get_default d ''timeout_hours'' (PInt 4)) 4 (1 / 10) 168) (\<lambda>r.
     put (if r = 168 then PInt 168 else PFloat r)))"

definition keep_field :: "string \<Rightarrow> field" where
  "keep_field k = (k, \<lambda>d.
     if is_blank (py_get d k) then put (PInt 0)
     else bind_result (number_int (py_get d k) 0 0 3650) (\<lambda>i. put (PInt i)))"

definition keep_fields :: "field list" where
  "keep_fields = map keep_field [''keep_last'', ''keep_daily'', ''keep_weekly'', ''keep_monthly'', ''keep_yearly'']"

definition pbs_fields :: "field list" where
  "pbs_fields =
     [bool_field ''enabled'' False False, repository_field, stripped_field ''namespace'', backup_id_field ''pbs.backup_id'',
      fingerprint_field, password_field, pbs_timeout_field, nested ''keep'' ''pbs.keep'' keep_fields]"

subsection \<open>PBS targets\<close>

definition max_pbs_paths :: nat where "max_pbs_paths = 64"

definition target_name_field :: "string \<Rightarrow> string list \<Rightarrow> field" where
  "target_name_field label seen = (''name'', \<lambda>d.
     let name = config_name d
     in put_with (PStr name)
          ((if \<not> name_ok name then [Error (dotted label ''name'') Is_invalid]
            else error_if (CHR '','' \<in> set name) (dotted label ''name'') Is_reserved_name) @
           error_if (py_casefold name \<in> set seen) (dotted label ''name'') (Is_duplicate_value name)))"

definition target_path_issues :: "string \<Rightarrow> string \<Rightarrow> issue list" where
  "target_path_issues label v =
     (case clean_path (PStr v) of
        Inl _ \<Rightarrow> [Error label Has_control_characters]
      | Inr p \<Rightarrow> error_if (\<not> is_absolute_local p) label (Must_be_absolute_path p))"

definition clean_target_path :: "string \<Rightarrow> string option" where
  "clean_target_path v = (case clean_path (PStr v) of Inl _ \<Rightarrow> None | Inr p \<Rightarrow> Some p)"

definition target_paths_field :: "string \<Rightarrow> field" where
  "target_paths_field label = (''paths'', \<lambda>d.
     let (given, es) = listed (py_get d ''paths'') [] (dotted label ''paths'');
         vs = take max_pbs_paths given
     in put_with (texts (List.map_filter clean_target_path vs))
          (es @ error_if (given = []) (dotted label ''paths'') Is_missing @
           error_if (max_pbs_paths < length given) (dotted label ''paths'') (Is_too_long max_pbs_paths) @
           concat (map (target_path_issues label) vs)))"

text \<open>The texts of a normalized list.\<close>

definition texts_at :: "pydict \<Rightarrow> string \<Rightarrow> string list" where
  "texts_at d k = map py_str (as_list (py_get d k))"

definition own_or_general :: "pydict \<Rightarrow> pydict \<Rightarrow> string \<Rightarrow> string" where
  "own_or_general target pbs k = text_of (py_or (py_get target k) (py_get pbs k))"

definition target_identity :: "config_env \<Rightarrow> pydict \<Rightarrow> pydict \<Rightarrow> string" where
  "target_identity env pbs d =
     v_uid env (py_join nul ([''pbs'', str_at pbs ''repository'', own_or_general d pbs ''namespace'',
       own_or_general d pbs ''backup_id''] @ sort (texts_at d ''paths'')))"

definition target_schedule_field :: "config_env \<Rightarrow> string \<Rightarrow> field" where
  "target_schedule_field env label = (''schedule'', \<lambda>d.
     let t = py_strip (str_or (py_get d ''schedule'') ''manual'')
     in put_with (PStr t) (error_if (\<not> off_schedule t \<and> \<not> valid_cron env t) (dotted label ''schedule'') (Is_invalid_value t)))"

text \<open>The loop over the paths ends at the first one that cannot be resolved.\<close>

fun mounted_issues :: "config_env \<Rightarrow> string \<Rightarrow> string list \<Rightarrow> string list \<Rightarrow> issue list" where
  "mounted_issues env place mount [] = []"
| "mounted_issues env place mount (p # ps) =
     (if \<not> is_absolute_local p then mounted_issues env place mount ps
      else (case real_parts env p of
          None \<Rightarrow> [Error place Is_uncheckable]
        | Some r \<Rightarrow> error_if (r \<noteq> mount \<and> \<not> inside r mount) place (Must_contain_paths p) @ mounted_issues env place mount ps))"

definition target_mount_issues :: "config_env \<Rightarrow> string \<Rightarrow> string list \<Rightarrow> string \<Rightarrow> issue list" where
  "target_mount_issues env place paths mountpoint =
     (if mountpoint = [] then []
      else (case clean_path (PStr mountpoint) of
          Inl _ \<Rightarrow> [Error place Is_uncheckable]
        | Inr m \<Rightarrow>
            if \<not> is_absolute_local m then [Error place Must_be_absolute]
            else (case real_parts env m of
                None \<Rightarrow> [Error place Is_uncheckable]
              | Some r \<Rightarrow> mounted_issues env place r paths)))"

definition target_mount_field :: "config_env \<Rightarrow> string \<Rightarrow> field" where
  "target_mount_field env label = (''mountpoint'', \<lambda>d.
     let t = text_of (py_get d ''mountpoint'')
     in put_with (PStr t) (target_mount_issues env (dotted label ''mountpoint'') (texts_at d ''paths'') t))"

definition target_fields :: "config_env \<Rightarrow> pydict \<Rightarrow> string \<Rightarrow> string list \<Rightarrow> string list \<Rightarrow> field list" where
  "target_fields env pbs label seen_names seen_ids =
     [target_name_field label seen_names, target_paths_field label, stripped_field ''namespace'',
      backup_id_field (dotted label ''backup_id''), id_field label seen_ids (target_identity env pbs),
      target_schedule_field env label, bool_field ''require_mountpoint'' False False, target_mount_field env label,
      sentinel_field label, int_field ''min_files'' 1 0 10000000]"

text \<open>A target that is no mapping stays in the list; the error refuses the configuration.\<close>

fun normalize_targets ::
  "config_env \<Rightarrow> pydict \<Rightarrow> nat \<Rightarrow> string list \<Rightarrow> string list \<Rightarrow> pyval list \<Rightarrow> (pyval list \<times> issue list) result" where
  "normalize_targets env pbs i seen_names seen_ids [] = Inr ([], [])"
| "normalize_targets env pbs i seen_names seen_ids (v # vs) =
     (case v of
        PDict raw \<Rightarrow>
          bind_result (run_fields (target_fields env pbs (indexed ''pbs.targets'' i) seen_names seen_ids) raw) (\<lambda>(target, es).
          bind_result (normalize_targets env pbs (Suc i) (py_casefold (config_name raw) # seen_names)
              (str_at target ''id'' # seen_ids) vs)
            (\<lambda>(targets, es'). Inr (PDict target # targets, es @ es')))
      | _ \<Rightarrow>
          bind_result (normalize_targets env pbs (Suc i) seen_names seen_ids vs)
            (\<lambda>(targets, es'). Inr (v # targets, Error (indexed ''pbs.targets'' i) Must_be_mapping # es')))"

subsubsection \<open>Backup ids of several targets\<close>

text \<open>\<open>re.sub(r"[^A-Za-z0-9_.-]+", "_", ..)\<close>: a run of other characters becomes one underscore.\<close>

definition plain_id_char :: "char \<Rightarrow> bool" where
  "plain_id_char c \<longleftrightarrow> is_alpha c \<or> is_digit c \<or> c \<in> set ''_.-''"

fun squeeze :: "bool \<Rightarrow> string \<Rightarrow> string" where
  "squeeze inside_run [] = []"
| "squeeze inside_run (c # s) =
     (if plain_id_char c then c # squeeze False s
      else if inside_run then squeeze True s else CHR ''_'' # squeeze True s)"

definition strip_chars :: "char list \<Rightarrow> string \<Rightarrow> string" where
  "strip_chars cs s = rev (dropWhile (\<lambda>c. c \<in> set cs) (rev (dropWhile (\<lambda>c. c \<in> set cs) s)))"

definition canonical_pbs_backup_id :: "string \<Rightarrow> string" where
  "canonical_pbs_backup_id v =
     (let t = take 80 (strip_chars ''._'' (squeeze False (if v = [] then ''host'' else v)))
      in if t = [] then ''host'' else t)"

definition group_id :: "pydict \<Rightarrow> string" where
  "group_id target = py_casefold (canonical_pbs_backup_id (text_of (py_get target ''backup_id'')))"

fun backup_id_issues :: "nat \<Rightarrow> string list \<Rightarrow> pyval list \<Rightarrow> issue list" where
  "backup_id_issues i seen [] = []"
| "backup_id_issues i seen (v # vs) =
     (case v of
        PDict target \<Rightarrow>
          (let bid = text_of (py_get target ''backup_id''); place = dotted (indexed ''pbs.targets'' i) ''backup_id'' in
           if bid = [] then Error place Must_be_required # backup_id_issues (Suc i) seen vs
           else error_if (group_id target \<in> set seen) place (Is_duplicate_value bid) @
                backup_id_issues (Suc i) (group_id target # seen) vs)
      | _ \<Rightarrow> backup_id_issues (Suc i) seen vs)"

definition pbs_overlap_issues :: "config_env \<Rightarrow> pydict \<Rightarrow> pyval list \<Rightarrow> issue list" where
  "pbs_overlap_issues env paths targets =
     concat (map (\<lambda>target. concat (map (\<lambda>p. concat (map (\<lambda>key.
         error_if (is_absolute_local p \<and> config_paths_overlap env p (str_or (py_get paths key) [])) (''paths.'' @ key) Overlaps_pbs)
       [''recovery_dir'', ''recovery_snapshots_dir'']))
       (texts_at target ''paths''))) (mappings targets))"

definition max_pbs_targets :: nat where "max_pbs_targets = 128"

definition raw_targets :: "pydict \<Rightarrow> pyval list \<times> issue list" where
  "raw_targets pbs =
     (case py_get_default pbs ''targets'' (PList []) of
        PList vs \<Rightarrow>
          if max_pbs_targets < length vs
          then (take max_pbs_targets vs, [Error ''pbs.targets'' (Is_too_long max_pbs_targets)]) else (vs, [])
      | _ \<Rightarrow> ([], [Error ''pbs.targets'' Must_be_list]))"

definition pbs_section :: "config_env \<Rightarrow> pydict \<Rightarrow> pydict \<Rightarrow> (pydict \<times> issue list) result" where
  "pbs_section env paths raw =
     bind_result (run_fields pbs_fields raw) (\<lambda>(pbs, es1).
     let (vs, es2) = raw_targets pbs in
     bind_result (normalize_targets env pbs 0 [] [] vs) (\<lambda>(targets, es3).
       Inr (py_set pbs ''targets'' (PList targets),
            es1 @ es2 @ es3 @ (if 1 < length targets then backup_id_issues 0 [] targets else []) @
            pbs_overlap_issues env paths targets @
            warn_if (truthy (py_get pbs ''enabled'') \<and> targets = []) ''pbs.targets'' Is_empty)))"

end
