(* ===== verification/Config_Validation.thy ===== *)
theory Config_Validation
  imports Config_Jobs Config_Services
begin

text \<open>
  \<open>validate_config\<close> as a whole. It ends in one of three ways: another exception leaves it (\<open>Inl\<close>), it raises
  \<open>ConfigValidationError\<close> with its messages (\<open>Inr (Inl ..)\<close>), or it returns the normalized configuration
  and the warnings.
\<close>

type_synonym verdict = "(issue list + (pydict \<times> issue list)) result"

definition schema_latest :: int where "schema_latest = 3"

text \<open>\<open>int(cfg.get("schema_version", 1) or 1)\<close>; an overflow is not handled.\<close>

definition schema_version :: "pydict \<Rightarrow> int result" where
  "schema_version cfg =
     (case py_int (py_or (py_get_default cfg ''schema_version'' (PInt 1)) (PInt 1)) of
        Inr i \<Rightarrow> Inr i
      | Inl OverflowError \<Rightarrow> Inl OverflowError
      | Inl _ \<Rightarrow> Inr 0)"

definition schema_issues :: "int \<Rightarrow> issue list" where
  "schema_issues n = error_if (n < 1 \<or> schema_latest < n) ''schema_version'' (Is_unsupported (show_int n))"

definition known_sections :: "string list" where
  "known_sections = [''web'', ''paths'', ''backup'', ''notifications'', ''pbs'', ''maintenance'', ''schema_version'']"

definition known_web_keys :: "string list" where
  "known_web_keys =
     [''username'', ''password'', ''password_hash'', ''secret_key'', ''session_version'', ''session_max_age_seconds'',
      ''allowed_hosts'', ''trusted_proxy_ips'', ''local_browse_roots'', ''hidden_remote_paths'', ''secure_cookie'',
      ''hsts_seconds'', ''login_window_seconds'', ''login_max_failures'', ''login_lock_seconds'', ''webauthn_rp_id'',
      ''webauthn_origin'']"

definition unknown_keys :: "string \<Rightarrow> string list \<Rightarrow> pydict \<Rightarrow> issue list" where
  "unknown_keys place known d =
     map (\<lambda>k. Warning place (Is_unknown k)) (filter (\<lambda>k. k \<notin> set known) (sort (map fst d)))"

text \<open>A section that is more than a list of fields.\<close>

definition with_section ::
  "pydict \<Rightarrow> string \<Rightarrow> (pydict \<Rightarrow> (pydict \<times> issue list) result) \<Rightarrow> (pydict \<times> issue list) result" where
  "with_section cfg k body =
     (let (d, es) = open_section cfg k k in
      bind_result (body d) (\<lambda>(d', es'). Inr (d', es @ es')))"

record sections =
  s_web :: pydict
  s_paths :: pydict
  s_backup :: pydict
  s_notifications :: pydict
  s_maintenance :: pydict
  s_pbs :: pydict

definition run_sections :: "config_env \<Rightarrow> pydict \<Rightarrow> (sections \<times> issue list) result" where
  "run_sections env cfg =
     bind_result (with_section cfg ''web'' (run_fields (web_fields env))) (\<lambda>(web, e1).
     bind_result (with_section cfg ''paths'' (run_fields paths_fields)) (\<lambda>(paths, e2).
     bind_result (with_section cfg ''backup''
       (backup_section env paths (normalize_hidden_remote_paths (py_get web ''hidden_remote_paths'')))) (\<lambda>(backup, e3).
     bind_result (with_section cfg ''notifications'' (run_fields (notification_fields env paths))) (\<lambda>(notifications, e4).
     bind_result (with_section cfg ''maintenance'' (run_fields maintenance_fields)) (\<lambda>(maintenance, e5).
     bind_result (with_section cfg ''pbs'' (pbs_section env paths)) (\<lambda>(pbs, e6).
       Inr (\<lparr>s_web = web, s_paths = paths, s_backup = backup, s_notifications = notifications,
             s_maintenance = maintenance, s_pbs = pbs\<rparr>, e1 @ e2 @ e3 @ e4 @ e5 @ e6)))))))"

definition put_sections :: "pydict \<Rightarrow> sections \<Rightarrow> pydict" where
  "put_sections cfg s =
     fold (\<lambda>(k, d) c. py_set c k (PDict d))
       [(''web'', s_web s), (''paths'', s_paths s), (''backup'', s_backup s), (''notifications'', s_notifications s),
        (''maintenance'', s_maintenance s), (''pbs'', s_pbs s)]
       (py_set cfg ''schema_version'' (PInt schema_latest))"

definition validate_mapping :: "config_env \<Rightarrow> pydict \<Rightarrow> verdict" where
  "validate_mapping env data =
     bind_result (schema_version data) (\<lambda>n.
     bind_result (run_sections env data) (\<lambda>(s, es1).
     let cfg = put_sections data s;
         es = schema_issues n @ es1 @ unknown_keys ''config'' known_sections cfg @ unknown_keys ''web'' known_web_keys (s_web s)
     in Inr (if accepted es then Inr (cfg, dedup es) else Inl (filter is_error es))))"

definition validate_config :: "config_env \<Rightarrow> pyval \<Rightarrow> verdict" where
  "validate_config env v =
     (case v of PDict data \<Rightarrow> validate_mapping env data | _ \<Rightarrow> Inr (Inl [Error ''config'' Must_be_mapping]))"

end
