(* ===== verification/Config_Typing.thy ===== *)
theory Config_Typing
  imports Config_Validation
begin

text \<open>
  The schema of a validated configuration and the proof that \<open>validate_config\<close> only returns
  configurations of this schema: every field of every section leaves a value of its type unless it reports an error.
  The digests are assumed to be what \<open>uuid5(..).hex\<close> is, 32 lower-case hexadecimal digits.
\<close>

definition hex_uid :: "config_env \<Rightarrow> bool" where
  "hex_uid env \<longleftrightarrow> (\<forall>s. stable_id_ok (v_uid env s))"

subsection \<open>Data paths\<close>

definition pair_schema :: "(string \<times> ftype) list" where
  "pair_schema = (''min_remote_files'', TInt 0 10000000) #
     [(''name'', TName), (''id'', TId), (''enabled'', TBool), (''recovery_snapshots'', TBool),
      (''recovery_snapshot_max_mb'', TInt 1 51200), (''options'', TAbsent), (''remote'', TText), (''local'', TText),
      (''direction'', TOneOf direction_words), (''mode'', TOneOf [''bisync'', ''copy'', ''sync'']),
      (''backup_dir'', TText), (''backup_dir1'', TText), (''backup_dir2'', TText), (''schedule'', TAbsent),
      (''min_local_files'', TInt 0 10000000),
      (''allow_empty_remote_target'', TBool), (''min_free_gb'', TFloat 0 1000000),
      (''max_success_age_hours'', TFloat 0 8760), (''require_mountpoint'', TBool), (''mountpoint'', TText),
      (''allow_delete'', TBool), (''anomaly_guard'', TOptional (TDict guard_schema)), (''sentinel_file'', TText),
      (''max_delete'', TOptional (TInt (- 1) 10000000)), (''ignore_errors'', TAbsent), (''allow_unsafe_flags'', TAbsent),
      (''transfers'', TOptional (TInt 1 128)), (''checkers'', TOptional (TInt 1 256)),
      (''retries'', TOptional (TInt 0 100)), (''low_level_retries'', TOptional (TInt 0 1000)),
      (''tpslimit'', TOptional (TInt 0 1000000)), (''tpslimit_burst'', TOptional (TInt 0 1000000)),
      (''log_level'', TOptional (TOneOf log_levels)), (''rclone_args'', TTexts), (''include_file'', TText),
      (''exclude_file'', TText), (''filter_file'', TText), (''include'', TText), (''exclude'', TText), (''filter'', TText)]"

lemma pair_keys [simp]:
  "fst (pair_name_field l s) = ''name''" "fst (options_field l) = ''options''" "fst (remote_field e l r) = ''remote''"
  "fst (local_field r) = ''local''" "fst (direction_field l) = ''direction''" "fst (mode_field l) = ''mode''"
  "fst (domain_field l k c) = k" "fst (version_field e l k) = k" "fst (last_version_field e l) = ''backup_dir2''"
  "fst (id_field l s i) = ''id''" "fst (dropped_schedule_field e l) = ''schedule''"
  "fst (allow_empty_field h) = ''allow_empty_remote_target''" "fst mount_drop_field = ''min_remote_files''"
  "fst (mountpoint_field e l) = ''mountpoint''" "fst (pair_guard_field b l) = ''anomaly_guard''"
  "fst (sentinel_field l) = ''sentinel_file''" "fst (forbidden_field l k) = k" "fst (present_bool k) = k"
  "fst (present_text l k) = k" "fst (log_level_field l) = ''log_level''" "fst (pair_arguments_field b l) = ''rclone_args''"
  "fst (filter_file_field x l k) = k" "fst (rules_field l k f) = k"
  by (simp_all add: pair_name_field_def options_field_def remote_field_def local_field_def direction_field_def
      mode_field_def domain_field_def version_field_def last_version_field_def id_field_def dropped_schedule_field_def
      allow_empty_field_def mount_drop_field_def mountpoint_field_def pair_guard_field_def sentinel_field_def
      forbidden_field_def present_bool_def present_text_def log_level_field_def pair_arguments_field_def
      filter_file_field_def rules_field_def)

lemma typed_pair_texts [typed_fields]:
  "typed_field (remote_field e l r) TText" "typed_field (local_field r) TText" "typed_field (version_field e l k) TText"
  "typed_field (last_version_field e l) TText" "typed_field (mountpoint_field e l) TText"
  "typed_field (sentinel_field l) TText" "typed_field (filter_file_field x l k) TText"
  "typed_field (rules_field l k f) TText" "typed_field (pair_arguments_field b l) TTexts"
  by (auto simp: typed_field_def remote_field_def local_field_def version_field_def last_version_field_def
      mountpoint_field_def sentinel_field_def filter_file_field_def rules_field_def pair_arguments_field_def
      Let_def split_beta split: option.split)

lemma typed_pair_words [typed_fields]:
  "typed_field (pair_name_field l s) TName" "typed_field (direction_field l) (TOneOf direction_words)"
  "typed_field (mode_field l) (TOneOf [''bisync'', ''copy'', ''sync''])"
  "typed_field (log_level_field l) (TOptional (TOneOf log_levels))"
  by (auto simp: typed_field_def pair_name_field_def pair_name_issues_def direction_field_def direction_words_def
      mode_field_def log_level_field_def has_type_TOptional is_blank_def Let_def py_get_missing split: if_splits)

lemma typed_pair_switches [typed_fields]:
  "typed_field (allow_empty_field h) TBool" "typed_field (options_field l) TAbsent"
  "typed_field (dropped_schedule_field e l) TAbsent" "typed_field (forbidden_field l k) TAbsent"
  by (auto simp: typed_field_def allow_empty_field_def options_field_def
      dropped_schedule_field_def forbidden_field_def Let_def)

lemma typed_id_field:
  assumes "\<And>d. stable_id_ok (identity d)"
  shows "typed_field (id_field l s identity) TId"
  using assms by (simp add: typed_field_def id_field_def Let_def)

lemma typed_pair_guard [typed_fields]: "typed_field (pair_guard_field b l) (TOptional (TDict guard_schema))"
proof -
  have "has_type (TDict guard_schema) (after_update old u)" if "guard_answer src a b m n = Inr (u, es)" "accepted es"
    for src a b m n u es old
    using that typed_guard_answer [of old src a b m n] unfolding typed_answer_def by blast
  then show ?thesis
    by (auto simp: typed_field_def pair_guard_field_def typed_answer_def has_type_TOptional is_blank_def Let_def
        split: if_splits)
qed

lemma mount_drop_keeps: "keeps_type mount_drop_field (TInt 0 10000000)"
  by (simp add: keeps_type_def mount_drop_field_def)

text \<open>The fields before and after the first assignment of \<open>min_remote_files\<close>.\<close>

lemma pair_fields_split:
  obtains pre post where "pair_fields x l sn si raw = pre @ int_field ''min_remote_files'' 0 0 10000000 # post"
    and "list_all (\<lambda>kf. fst kf = ''min_remote_files'' \<longrightarrow> kf = mount_drop_field) post"
proof -
  have "list_all (\<lambda>kf. fst kf = ''min_remote_files'' \<longrightarrow> kf = mount_drop_field) (drop 18 (pair_fields x l sn si raw))"
    by (simp add: pair_fields_def Let_def)
  moreover have "pair_fields x l sn si raw ! 17 = int_field ''min_remote_files'' 0 0 10000000"
      "17 < length (pair_fields x l sn si raw)"
    by (simp_all add: pair_fields_def Let_def)
  then have "pair_fields x l sn si raw =
      take 17 (pair_fields x l sn si raw) @ int_field ''min_remote_files'' 0 0 10000000 # drop 18 (pair_fields x l sn si raw)"
    using id_take_nth_drop [of 17 "pair_fields x l sn si raw"] by simp
  ultimately show thesis using that by blast
qed

definition pair_keys_list :: "string list" where
  "pair_keys_list =
      [''name'', ''enabled'', ''recovery_snapshots'', ''recovery_snapshot_max_mb'', ''options'', ''remote'', ''local'',
       ''direction'', ''mode'', ''failure_domain'', ''location_id'', ''backup_dir'', ''backup_dir1'', ''backup_dir2'', ''id'',
       ''schedule'', ''min_local_files'', ''min_remote_files'', ''allow_empty_remote_target'', ''min_remote_files'',
       ''min_free_gb'', ''max_success_age_hours'', ''require_mountpoint'', ''mountpoint'', ''allow_delete'', ''anomaly_guard'',
       ''sentinel_file'', ''max_delete'', ''ignore_errors'', ''allow_unsafe_flags'', ''transfers'', ''checkers'', ''retries'',
       ''low_level_retries'', ''tpslimit'', ''tpslimit_burst'', ''delete_excluded'', ''fast_list'', ''track_renames'',
       ''metadata'', ''create_empty_src_dirs'', ''ignore_existing'', ''drive_acknowledge_abuse'', ''max_transfer'',
       ''max_duration'', ''contimeout'', ''timeout'', ''bwlimit'', ''max_delete_size'', ''log_level'', ''rclone_args'',
       ''include_file'', ''exclude_file'', ''filter_file'', ''include'', ''exclude'', ''filter'']"

lemma pair_field_keys: "map fst (pair_fields x l sn si raw) = pair_keys_list"
  by (simp add: pair_fields_def pair_keys_list_def Let_def)

lemma min_remote_typed:
  assumes "normalize_pair x l sn si raw = Inr (pair, es)" and "accepted es"
  shows "has_type (TInt 0 10000000) (py_get pair ''min_remote_files'')"
proof -
  have run: "run_fields (pair_fields x l sn si raw) raw = Inr (pair, es)"
    using assms(1) by (simp add: normalize_pair_def)
  obtain pre post where fs: "pair_fields x l sn si raw = pre @ int_field ''min_remote_files'' 0 0 10000000 # post"
    and post: "list_all (\<lambda>kf. fst kf = ''min_remote_files'' \<longrightarrow> kf = mount_drop_field) post"
    by (rule pair_fields_split)
  obtain d0 u es0 es1 es2 where f: "read_int d0 ''min_remote_files'' 0 0 10000000 = Inr (u, es0)"
    and rest: "run_fields post (apply_update ''min_remote_files'' u d0) = Inr (pair, es1)" and es: "es = es2 @ es0 @ es1"
    using run unfolding fs int_field_def run_fields_append run_fields_Cons by blast
  have "has_type (TInt 0 10000000) (py_get (apply_update ''min_remote_files'' u d0) ''min_remote_files'')"
    using typed_read_int [of 0 10000000] f es assms(2) by (auto simp: py_get_apply_update typed_answer_def)
  from run_fields_kept [OF rest _ this] show ?thesis
    using post assms(2) mount_drop_keeps es by (auto simp: list_all_iff)
qed

lemma normalize_pair_typed:
  assumes "hex_uid (x_env x)" and "normalize_pair x l sn si raw = Inr (pair, es)" and "accepted es"
  shows "has_type (TDict pair_schema) (PDict pair)"
proof -
  have run: "run_fields (pair_fields x l sn si raw) raw = Inr (pair, es)"
    using assms(2) by (simp add: normalize_pair_def)
  have "has_type (TDict (tl pair_schema)) (PDict pair)"
  proof (rule section_typed [OF run assms(3)])
    show "map fst (pair_fields x l sn si raw) = pair_keys_list" by (rule pair_field_keys)
    have "typed_field (id_field l si (pair_identity (x_env x))) TId"
      by (rule typed_id_field) (use assms(1) in \<open>simp add: pair_identity_def hex_uid_def\<close>)
    then show "list_all (\<lambda>kf. typed_field kf (type_at (tl pair_schema) (fst kf))) (pair_fields x l sn si raw)"
      by (simp add: pair_fields_def pair_schema_def Let_def typed_fields)
  qed code_simp
  then show ?thesis
    using min_remote_typed [OF assms(2,3)] by (simp add: pair_schema_def)
qed

subsection \<open>Job definitions\<close>

definition job_schema :: "(string \<times> ftype) list" where
  "job_schema =
     [(''id'', TId), (''name'', TName), (''enabled'', TBool), (''data_path_ids'', TTexts), (''schedule'', TText),
      (''execution_mode'', TOneOf execution_modes), (''max_parallel'', TInt 1 16), (''retry_minutes'', TInt 1 10080)]"

text \<open>The name is checked where the id is written, so its type needs the errors of the whole definition.\<close>

lemma normalize_job_typed:
  assumes "hex_uid (y_env y)" and "normalize_job y l sn si job = Inr (job', es)" and "accepted es"
  shows "has_type (TDict job_schema) (PDict job')"
proof -
  let ?kas = "job_fields y l sn si job"
  have run: "run_fields (map (\<lambda>(k, a). (k, \<lambda>_. a)) ?kas) [] = Inr (job', es)"
    using assms(2) by (simp add: normalize_job_def)
  have name: "name_ok (config_name job)"
  proof -
    have "\<exists>u es0. snd (hd ?kas) = Inr (u, es0) \<and> accepted es0"
      using run assms(3) by (auto simp: job_fields_def Let_def run_fields_Cons put_with_def)
    then show ?thesis
      by (auto simp: job_fields_def Let_def put_with_def job_name_issues_def)
  qed
  show ?thesis
  proof (rule section_typed [OF run assms(3)])
    show "map fst (map (\<lambda>(k, a). (k, \<lambda>_. a)) ?kas) =
        [''id'', ''name'', ''enabled'', ''data_path_ids'', ''schedule'', ''execution_mode'', ''max_parallel'', ''retry_minutes'']"
      by (simp add: job_fields_def Let_def)
    have uid: "stable_id_ok (stable_job_id (v_uid (y_env y)) n ids)" for n ids
      using assms(1) by (simp add: stable_job_id_def hex_uid_def)
    have par: "typed_answer (TInt 1 16) old (bind_result (read_int job ''max_parallel'' 1 1 16) (\<lambda>a. if b then put (PInt 1) else Inr a))"
      for old b
      using typed_read_int [of 1 16 old job "''max_parallel''" 1] by (auto simp: typed_answer_def put_def)
    show "list_all (\<lambda>kf. typed_field kf (type_at job_schema (fst kf))) (map (\<lambda>(k, a). (k, \<lambda>_. a)) ?kas)"
      by (simp add: job_fields_def job_schema_def Let_def typed_field_def name uid par execution_modes_def)
  qed code_simp
qed

subsection \<open>Services\<close>

definition apns_schema :: "(string \<times> ftype) list" where
  "apns_schema =
     [(''enabled'', TBool), (''team_id'', TText), (''key_id'', TText), (''key_file'', TText), (''topic'', TText),
      (''events'', TTexts), (''timeout_seconds'', TFloat 1 30), (''retention_hours'', TFloat 1 168),
      (''max_attempts'', TInt 1 20), (''device_lease_days'', TInt 1 90)]"

definition notification_schema :: "(string \<times> ftype) list" where
  "notification_schema =
     [(''webhooks'', TAbsent), (''allow_http'', TAbsent), (''allow_private_targets'', TAbsent),
      (''timeout_seconds'', TAbsent), (''max_parallel'', TAbsent), (''apns'', TDict apns_schema)]"

definition maintenance_schema :: "(string \<times> ftype) list" where
  "maintenance_schema =
     [(''auto_prune'', TBool), (''job_retention_days'', TInt 1 3650), (''keep_latest_jobs'', TInt 10 100000),
      (''log_retention_days'', TInt 1 3650)]"

definition keep_schema :: "(string \<times> ftype) list" where
  "keep_schema =
     map (\<lambda>k. (k, TInt 0 3650)) [''keep_last'', ''keep_daily'', ''keep_weekly'', ''keep_monthly'', ''keep_yearly'']"

definition target_schema :: "(string \<times> ftype) list" where
  "target_schema =
     [(''name'', TName), (''paths'', TTexts), (''namespace'', TText), (''backup_id'', TText), (''id'', TId),
      (''schedule'', TText), (''require_mountpoint'', TBool), (''mountpoint'', TText), (''sentinel_file'', TText),
      (''min_files'', TInt 0 10000000)]"

definition pbs_schema :: "(string \<times> ftype) list" where
  "pbs_schema =
     [(''enabled'', TBool), (''repository'', TText), (''namespace'', TText), (''backup_id'', TText),
      (''fingerprint'', TText), (''password'', TText), (''timeout_hours'', TNumber (1 / 10) 168),
      (''keep'', TDict keep_schema)]"

lemma service_keys [simp]:
  "fst (upper_field k) = k" "fst key_file_field = ''key_file''" "fst topic_field = ''topic''" "fst events_field = ''events''"
  "fst (lease_field e p) = ''device_lease_days''" "fst (dropped_field k) = k" "fst webhooks_field = ''webhooks''"
  "fst (apns_field e p) = ''apns''" "fst repository_field = ''repository''" "fst (stripped_field k) = k"
  "fst (backup_id_field l) = ''backup_id''" "fst fingerprint_field = ''fingerprint''" "fst password_field = ''password''"
  "fst pbs_timeout_field = ''timeout_hours''" "fst (keep_field k) = k" "fst (target_name_field l s) = ''name''"
  "fst (target_paths_field l) = ''paths''" "fst (target_schedule_field e l) = ''schedule''"
  "fst (target_mount_field e l) = ''mountpoint''"
  by (simp_all add: upper_field_def key_file_field_def topic_field_def events_field_def lease_field_def dropped_field_def
      webhooks_field_def apns_field_def repository_field_def stripped_field_def backup_id_field_def fingerprint_field_def
      password_field_def pbs_timeout_field_def keep_field_def target_name_field_def target_paths_field_def
      target_schedule_field_def target_mount_field_def)

lemma typed_key_file [typed_fields]: "typed_field key_file_field TText"
  by (auto simp: typed_field_def key_file_field_def typed_answer_def put_def)

lemma typed_service_texts [typed_fields]:
  "typed_field (upper_field k) TText" "typed_field topic_field TText"
  "typed_field repository_field TText" "typed_field (stripped_field k) TText" "typed_field (backup_id_field l) TText"
  "typed_field fingerprint_field TText" "typed_field password_field TText" "typed_field (target_schedule_field e l) TText"
  "typed_field (target_mount_field e l) TText" "typed_field events_field TTexts" "typed_field (target_paths_field l) TTexts"
  "typed_field (dropped_field k) TAbsent" "typed_field webhooks_field TAbsent"
  by (auto simp: typed_field_def upper_field_def topic_field_def repository_field_def stripped_field_def
      backup_id_field_def fingerprint_field_def password_field_def target_schedule_field_def target_mount_field_def
      events_field_def target_paths_field_def dropped_field_def webhooks_field_def Let_def split_beta)

lemma typed_service_numbers [typed_fields]:
  "typed_field (lease_field e p) (TInt 1 90)" "typed_field pbs_timeout_field (TNumber (1 / 10) 168)"
  "typed_field (keep_field k) (TInt 0 3650)"
proof -
  show "typed_field (lease_field e p) (TInt 1 90)"
    using typed_read_int [of 1 90 _ _ "''device_lease_days''" 7]
    by (fastforce simp: typed_field_def lease_field_def typed_answer_def)
  show "typed_field pbs_timeout_field (TNumber (1 / 10) 168)"
    using number_float_bounds [where lo = "1 / 10" and hi = 168]
    by (fastforce simp: typed_field_def pbs_timeout_field_def typed_answer_def put_def has_type.simps)
  show "typed_field (keep_field k) (TInt 0 3650)"
    using number_int_bounds [of _ 0 0 3650] by (auto simp: typed_field_def keep_field_def typed_answer_def put_def)
qed

lemma apns_typed:
  assumes "run_fields (apns_fields e p) d = Inr (d', es)" and "accepted es"
  shows "has_type (TDict apns_schema) (PDict d')"
  by (rule section_typed [OF assms refl])
    (simp add: apns_fields_def, code_simp, simp add: apns_fields_def apns_schema_def typed_fields)

lemma typed_apns [typed_fields]: "typed_field (apns_field e p) (TDict apns_schema)"
  using apns_typed by (auto simp: typed_field_def apns_field_def typed_answer_def Let_def simp del: has_type_values)

lemma notifications_typed:
  assumes "run_fields (notification_fields e p) d = Inr (d', es)" and "accepted es"
  shows "has_type (TDict notification_schema) (PDict d')"
  by (rule section_typed [OF assms refl])
    (simp add: notification_fields_def, code_simp, simp add: notification_fields_def notification_schema_def typed_fields)

lemma maintenance_typed:
  assumes "run_fields maintenance_fields d = Inr (d', es)" and "accepted es"
  shows "has_type (TDict maintenance_schema) (PDict d')"
  by (rule section_typed [OF assms refl])
    (simp add: maintenance_fields_def, code_simp, simp add: maintenance_fields_def maintenance_schema_def typed_fields)

lemma typed_keep [typed_fields]: "typed_field (nested k place keep_fields) (TDict keep_schema)"
proof (rule typed_nested)
  show "has_type (TDict keep_schema) (PDict d')" if "run_fields keep_fields d = Inr (d', es)" "accepted es" for d d' es
    by (rule section_typed [OF that refl])
      (simp add: keep_fields_def, code_simp, simp add: keep_fields_def keep_schema_def typed_fields)
qed

lemma pbs_fields_typed:
  assumes "run_fields pbs_fields d = Inr (d', es)" and "accepted es"
  shows "has_type (TDict pbs_schema) (PDict d')"
  by (rule section_typed [OF assms refl])
    (simp add: pbs_fields_def, code_simp, simp add: pbs_fields_def pbs_schema_def typed_fields)

lemma target_typed:
  assumes "hex_uid env" and "run_fields (target_fields env pbs l sn si) d = Inr (d', es)" and "accepted es"
  shows "has_type (TDict target_schema) (PDict d')"
proof -
  have [typed_fields]: "typed_field (id_field l si (target_identity env pbs)) TId"
    by (rule typed_id_field) (use assms(1) in \<open>simp add: target_identity_def hex_uid_def\<close>)
  have [typed_fields]: "typed_field (target_name_field l sn) TName"
    by (simp add: typed_field_def target_name_field_def Let_def)
  show ?thesis
    by (rule section_typed [OF assms(2,3) refl])
      (simp add: target_fields_def, code_simp, simp add: target_fields_def target_schema_def typed_fields)
qed

subsection \<open>The loops\<close>

lemma normalize_pairs_typed:
  assumes "hex_uid (x_env x)" and "normalize_pairs x i sn si vs = Inr (pairs, es)" and "accepted es"
  shows "list_all (\<lambda>p. has_type (TDict pair_schema) (PDict p)) pairs"
  using assms(2,3)
proof (induction vs arbitrary: i sn si pairs es)
  case (Cons v vs)
  then show ?case
    using normalize_pair_typed [OF assms(1)] by (cases v) (fastforce simp del: has_type_values)+
qed simp

lemma normalize_jobs_typed:
  assumes "hex_uid (y_env y)" and "normalize_jobs y i sn si vs = Inr (jobs, es)" and "accepted es"
  shows "list_all (\<lambda>j. has_type (TDict job_schema) (PDict j)) jobs"
  using assms(2,3)
proof (induction vs arbitrary: i sn si jobs es)
  case (Cons v vs)
  then show ?case
    using normalize_job_typed [OF assms(1)] by (cases v) (fastforce simp del: has_type_values)+
qed simp

lemma normalize_targets_typed:
  assumes "hex_uid env" and "normalize_targets env pbs i sn si vs = Inr (targets, es)" and "accepted es"
  shows "list_all (has_type (TDict target_schema)) targets"
  using assms(2,3)
proof (induction vs arbitrary: i sn si targets es)
  case (Cons v vs)
  then show ?case
    using target_typed [OF assms(1)] by (cases v) (fastforce simp del: has_type_values)+
qed simp

end
