(* ===== verification/Config_Theorems.thy ===== *)
theory Config_Theorems
  imports Config_Typing
begin

text \<open>
  What an accepted configuration guarantees, over \<open>validate_config\<close> as a whole: its schema, references
  that resolve, directories that stay apart, protected targets, arguments the runner accepts, and
  the migration of configurations of the old form.
\<close>

subsection \<open>The sections of an accepted configuration\<close>

definition section_in :: "pydict \<Rightarrow> string \<Rightarrow> pydict" where
  "section_in cfg k = as_dict (py_get cfg k)"

definition mappings_in :: "pydict \<Rightarrow> string \<Rightarrow> string \<Rightarrow> pydict list" where
  "mappings_in cfg k l = mappings (as_list (py_get (section_in cfg k) l))"

lemma with_section_accepted:
  assumes "with_section cfg k body = Inr (d', es)" and "accepted es"
  obtains d es' where "body d = Inr (d', es')" and "accepted es'" and "py_get_default cfg k (PDict []) = PDict d"
    and "es = es'"
  using assms by (auto simp: with_section_def open_section_def split: pyval.splits)

lemma accepted_config:
  assumes "validate_config env v = Inr (Inr (cfg, ws))"
  obtains data s es where "v = PDict data" and "run_sections env data = Inr (s, es)" and "accepted es"
    and "cfg = put_sections data s"
  using assms by (cases v) (auto simp: validate_config_def validate_mapping_def Let_def split: if_splits)

lemma put_sections_at [simp]:
  "py_get (put_sections d s) ''web'' = PDict (s_web s)" "py_get (put_sections d s) ''paths'' = PDict (s_paths s)"
  "py_get (put_sections d s) ''backup'' = PDict (s_backup s)"
  "py_get (put_sections d s) ''notifications'' = PDict (s_notifications s)"
  "py_get (put_sections d s) ''maintenance'' = PDict (s_maintenance s)"
  "py_get (put_sections d s) ''pbs'' = PDict (s_pbs s)"
  "py_get (put_sections d s) ''schema_version'' = PInt schema_latest"
  by (simp_all add: put_sections_def)

text \<open>How each section of an accepted configuration came about.\<close>

lemma accepted_sections:
  assumes "validate_config env v = Inr (Inr (cfg, ws))"
  obtains data raw_web raw_paths raw_backup raw_notifications raw_maintenance raw_pbs e1 e2 e3 e4 e5 e6
    hidden where
    "v = PDict data" and "py_get cfg ''schema_version'' = PInt schema_latest"
    and "py_get cfg ''web'' = PDict (section_in cfg ''web'')"
    and "py_get cfg ''paths'' = PDict (section_in cfg ''paths'')"
    and "py_get cfg ''backup'' = PDict (section_in cfg ''backup'')"
    and "py_get cfg ''notifications'' = PDict (section_in cfg ''notifications'')"
    and "py_get cfg ''maintenance'' = PDict (section_in cfg ''maintenance'')"
    and "py_get cfg ''pbs'' = PDict (section_in cfg ''pbs'')"
    and "run_fields (web_fields env) raw_web = Inr (section_in cfg ''web'', e1)" and "accepted e1"
    and "run_fields paths_fields raw_paths = Inr (section_in cfg ''paths'', e2)" and "accepted e2"
    and "backup_section env (section_in cfg ''paths'') hidden raw_backup = Inr (section_in cfg ''backup'', e3)"
    and "accepted e3" and "py_get_default data ''backup'' (PDict []) = PDict raw_backup"
    and "run_fields (notification_fields env (section_in cfg ''paths'')) raw_notifications =
           Inr (section_in cfg ''notifications'', e4)" and "accepted e4"
    and "run_fields maintenance_fields raw_maintenance = Inr (section_in cfg ''maintenance'', e5)" and "accepted e5"
    and "pbs_section env (section_in cfg ''paths'') raw_pbs = Inr (section_in cfg ''pbs'', e6)" and "accepted e6"
proof -
  obtain data s es where data: "v = PDict data" "run_sections env data = Inr (s, es)" "accepted es"
      "cfg = put_sections data s"
    by (rule accepted_config [OF assms])
  obtain web paths backup notifications maintenance pbs e1 e2 e3 e4 e5 e6 where
    web: "with_section data ''web'' (run_fields (web_fields env)) = Inr (web, e1)"
    and paths: "with_section data ''paths'' (run_fields paths_fields) = Inr (paths, e2)"
    and backup: "with_section data ''backup''
       (backup_section env paths (normalize_hidden_remote_paths (py_get web ''hidden_remote_paths''))) = Inr (backup, e3)"
    and notifications: "with_section data ''notifications'' (run_fields (notification_fields env paths)) = Inr (notifications, e4)"
    and maintenance: "with_section data ''maintenance'' (run_fields maintenance_fields) = Inr (maintenance, e5)"
    and pbs: "with_section data ''pbs'' (pbs_section env paths) = Inr (pbs, e6)"
    and s: "s = \<lparr>s_web = web, s_paths = paths, s_backup = backup, s_notifications = notifications,
             s_maintenance = maintenance, s_pbs = pbs\<rparr>" and es: "es = e1 @ e2 @ e3 @ e4 @ e5 @ e6"
    using data(2) by (auto simp: run_sections_def)
  have acc: "accepted e1" "accepted e2" "accepted e3" "accepted e4" "accepted e5" "accepted e6"
    using data(3) es by simp_all
  note at = section_in_def data(4) s put_sections_at as_dict.simps sections.select_convs
  obtain dw where w: "run_fields (web_fields env) dw = Inr (web, e1)"
    by (rule with_section_accepted [OF web acc(1)]) simp
  obtain dp where p: "run_fields paths_fields dp = Inr (paths, e2)"
    by (rule with_section_accepted [OF paths acc(2)]) simp
  obtain db where b: "backup_section env paths (normalize_hidden_remote_paths (py_get web ''hidden_remote_paths'')) db =
      Inr (backup, e3)" "py_get_default data ''backup'' (PDict []) = PDict db"
    by (rule with_section_accepted [OF backup acc(3)]) simp
  obtain dn where n: "run_fields (notification_fields env paths) dn = Inr (notifications, e4)"
    by (rule with_section_accepted [OF notifications acc(4)]) simp
  obtain dm where m: "run_fields maintenance_fields dm = Inr (maintenance, e5)"
    by (rule with_section_accepted [OF maintenance acc(5)]) simp
  obtain dq where q: "pbs_section env paths dq = Inr (pbs, e6)"
    by (rule with_section_accepted [OF pbs acc(6)]) simp
  show thesis
    by (rule that [of data dw e1 dp e2
          "normalize_hidden_remote_paths (py_get web ''hidden_remote_paths'')" db e3 dn e4 dm e5 dq e6]) (simp_all add: at data(1) acc w p b n m q)
qed

subsection \<open>Schema\<close>

definition config_type :: ftype where
  "config_type = TDict
     [(''schema_version'', TInt 3 3), (''web'', TDict web_schema), (''paths'', TDict paths_schema),
      (''backup'', TDict (backup_schema @
         [(''pairs'', TListOf (TDict pair_schema)), (''jobs'', TListOf (TDict job_schema))])),
      (''notifications'', TDict notification_schema), (''maintenance'', TDict maintenance_schema),
      (''pbs'', TDict (pbs_schema @ [(''targets'', TListOf (TDict target_schema))]))]"

lemma backup_section_parts:
  assumes "backup_section env paths hidden raw = Inr (b, es)" and "accepted es"
  obtains d pairs jobs migrated es1 es2 es3 where
    "run_fields (backup_fields env paths) raw = Inr (d, es1)" and "accepted es1"
    and "legacy_job_definitions (v_uid env) (py_set d ''pairs'' (PList (fst (raw_pairs d)))) = Inr migrated"
    and "backup_paths env paths hidden d = Inr (pairs, es2)" and "accepted es2"
    and "backup_jobs env (has_key raw ''jobs'') migrated pairs (py_set d ''pairs'' (PList (map PDict pairs))) = Inr (jobs, es3)"
    and "accepted es3"
    and "b = py_set (py_set d ''pairs'' (PList (map PDict pairs))) ''jobs'' (PList (map PDict jobs))"
  using assms by (auto simp: backup_section_def Let_def)

lemma type_append:
  "has_type (TDict s) (PDict d) \<Longrightarrow> has_type (TDict s') (PDict d) \<Longrightarrow> has_type (TDict (s @ s')) (PDict d)"
  by (auto simp: list_all_iff)

lemma type_unchanged:
  assumes "has_type (TDict s) (PDict d)" and "list_all (\<lambda>kt. py_get d' (fst kt) = py_get d (fst kt)) s"
  shows "has_type (TDict s) (PDict d')"
  using assms by (fastforce simp: list_all_iff)

lemma type_dict_step:
  "has_type (TDict []) (PDict d)"
  "has_type (TDict ((k, t) # s)) (PDict d) \<longleftrightarrow> has_type t (py_get d k) \<and> has_type (TDict s) (PDict d)"
  by simp_all

lemma backup_part_typed:
  assumes "hex_uid env" and "backup_section env paths hidden raw = Inr (b, es)" and "accepted es"
  shows "has_type (TDict (backup_schema @ [(''pairs'', TListOf (TDict pair_schema)), (''jobs'', TListOf (TDict job_schema))])) (PDict b)"
proof -
  obtain d pairs jobs migrated es1 es2 es3 where
    d: "run_fields (backup_fields env paths) raw = Inr (d, es1)" "accepted es1"
    and pairs: "backup_paths env paths hidden d = Inr (pairs, es2)" "accepted es2"
    and jobs: "backup_jobs env (has_key raw ''jobs'') migrated pairs (py_set d ''pairs'' (PList (map PDict pairs))) = Inr (jobs, es3)"
      "accepted es3"
    and b: "b = py_set (py_set d ''pairs'' (PList (map PDict pairs))) ''jobs'' (PList (map PDict jobs))"
    by (rule backup_section_parts [OF assms(2,3)])
  have "list_all (\<lambda>p. has_type (TDict pair_schema) (PDict p)) pairs"
    using pairs by (auto simp: backup_paths_def Let_def split_beta simp del: has_type_values
        intro: normalize_pairs_typed [where x = "\<lparr>x_env = env, x_backup = d, x_paths = paths, x_hidden = hidden\<rparr>", simplified, OF assms(1)])
  moreover have "list_all (\<lambda>j. has_type (TDict job_schema) (PDict j)) jobs"
    using jobs by (auto simp: backup_jobs_def Let_def split_beta simp del: has_type_values
        intro: normalize_jobs_typed [of "\<lparr>y_env = env, y_retry = _, y_known = _\<rparr>", simplified, OF assms(1)])
  moreover have "has_type (TDict backup_schema) (PDict b)"
    by (rule type_unchanged [OF backup_section_typed [OF d]]) (simp add: b backup_schema_def)
  ultimately show ?thesis
    by (intro type_append) (simp_all add: b list_all_iff del: has_type_values(11))
qed

lemma pbs_part_typed:
  assumes "hex_uid env" and "pbs_section env paths raw = Inr (b, es)" and "accepted es"
  shows "has_type (TDict (pbs_schema @ [(''targets'', TListOf (TDict target_schema))])) (PDict b)"
proof -
  obtain d targets es1 es3 where d: "run_fields pbs_fields raw = Inr (d, es1)" "accepted es1"
    and targets: "normalize_targets env d 0 [] [] (fst (raw_targets d)) = Inr (targets, es3)" "accepted es3"
    and b: "b = py_set d ''targets'' (PList targets)"
    using assms(2,3) by (auto simp: pbs_section_def Let_def split_beta)
  have "has_type (TDict pbs_schema) (PDict b)"
    by (rule type_unchanged [OF pbs_fields_typed [OF d]]) (simp add: b pbs_schema_def)
  then show ?thesis
    using normalize_targets_typed [OF assms(1) targets] by (intro type_append) (simp_all add: b)
qed

text \<open>C25: A configuration that \<open>validate_config\<close> accepts conforms to the schema \<open>config_type\<close>: every number is an integer
  or a float inside its bounds, every switch is a boolean, directories are absolute, names and ids are well formed,
  keys of the old form are gone, down to each data path, job definition and PBS target.\<close>

theorem accepted_config_has_schema:
  assumes "hex_uid env" and "validate_config env v = Inr (Inr (cfg, ws))"
  shows "has_type config_type (PDict cfg)"
  unfolding config_type_def type_dict_step
  by (rule accepted_sections [OF assms(2)])
    (simp add: schema_latest_def web_section_typed paths_section_typed backup_part_typed [OF assms(1)]
      notifications_typed maintenance_typed pbs_part_typed [OF assms(1)] type_dict_step(1) del: has_type_values(13))

subsection \<open>Facts on one data path\<close>

text \<open>\<open>pair\<close> came from \<open>raw\<close> without an error.\<close>

definition pair_from :: "pair_context \<Rightarrow> string list \<Rightarrow> string list \<Rightarrow> pydict \<Rightarrow> pydict \<Rightarrow> bool" where
  "pair_from x sn si raw pair \<longleftrightarrow> (\<exists>l es. normalize_pair x l sn si raw = Inr (pair, es) \<and> accepted es)"

definition pair_slot :: "string \<Rightarrow> nat \<Rightarrow> bool" where
  "pair_slot k i \<longleftrightarrow> i < length pair_keys_list \<and> k \<notin> set (drop (Suc i) pair_keys_list)"

definition written_before :: "nat \<Rightarrow> string \<Rightarrow> bool" where
  "written_before i j \<longleftrightarrow> j \<in> set (take i pair_keys_list)"

definition written_from :: "nat \<Rightarrow> string \<Rightarrow> bool" where
  "written_from i j \<longleftrightarrow> j \<in> set (drop i pair_keys_list)"

lemma pair_field_result:
  assumes "normalize_pair x l sn si raw = Inr (pair, es)" and "accepted es"
    and "pair_fields x l sn si raw ! i = (k, f)" and "pair_slot k i"
  obtains d0 u es0 where "f d0 = Inr (u, es0)" and "accepted es0" and "py_get pair k = after_update (py_get d0 k) u"
    and "\<And>j. \<not> written_before i j \<Longrightarrow> py_get d0 j = py_get raw j"
    and "\<And>j. \<not> written_from i j \<Longrightarrow> py_get d0 j = py_get pair j"
proof -
  have run: "run_fields (pair_fields x l sn si raw) raw = Inr (pair, es)"
    using assms(1) by (simp add: normalize_pair_def)
  have len: "i < length (pair_fields x l sn si raw)"
    using assms(4) unfolding pair_slot_def by (metis length_map pair_field_keys)
  have free: "k \<notin> set (map fst (drop (Suc i) (pair_fields x l sn si raw)))"
    using assms(4) unfolding pair_slot_def by (metis drop_map pair_field_keys)
  show thesis
  proof (rule run_field_nth [OF run assms(2,3) len free])
    fix d0 u es0
    assume f: "f d0 = Inr (u, es0)" "accepted es0" "py_get pair k = after_update (py_get d0 k) u"
      and before: "\<And>j. j \<notin> set (map fst (take i (pair_fields x l sn si raw))) \<Longrightarrow> py_get d0 j = py_get raw j"
      and behind: "\<And>j. j \<notin> set (map fst (drop i (pair_fields x l sn si raw))) \<Longrightarrow> py_get d0 j = py_get pair j"
    show thesis
      by (rule that [OF f]) (use before behind in \<open>simp_all only: take_map [symmetric] drop_map [symmetric] pair_field_keys written_before_def written_from_def\<close>)
  qed
qed

lemma pair_name_result:
  assumes "pair_from x sn si raw pair"
  shows "py_get pair ''name'' = PStr (config_name raw) \<and> py_casefold (config_name raw) \<notin> set sn"
proof -
  obtain l es where n: "normalize_pair x l sn si raw = Inr (pair, es)" "accepted es"
    using assms by (auto simp: pair_from_def)
  have at: "pair_fields x l sn si raw ! 0 = (''name'', \<lambda>d.
      let name = config_name d in put_with (PStr name) (pair_name_issues l sn name))"
    by (simp add: pair_fields_def pair_name_field_def Let_def)
  have slot: "pair_slot ''name'' 0" and first: "\<not> written_before 0 ''name''" by code_simp+
  show ?thesis
  proof (rule pair_field_result [OF n at slot])
    fix d0 u es0
    assume f: "(let name = config_name d0 in put_with (PStr name) (pair_name_issues l sn name)) = Inr (u, es0)"
      and acc: "accepted es0" and final: "py_get pair ''name'' = after_update (py_get d0 ''name'') u"
      and before: "\<And>j. \<not> written_before 0 j \<Longrightarrow> py_get d0 j = py_get raw j"
    have "config_name d0 = config_name raw" using before [OF first] by (simp add: config_name_def)
    with f acc final show ?thesis by (auto simp: put_with_def pair_name_issues_def Let_def)
  qed
qed

text \<open>The position of a field, and what it read: the keys written before it are already those of the result.\<close>

lemma pair_id_result:
  assumes "pair_from x sn si raw pair"
  shows "str_at pair ''id'' \<notin> set si \<and> py_get pair ''id'' = PStr
    (let given = py_lower (text_of (py_get raw ''id'')) in if given = [] then pair_identity (x_env x) pair else given)"
proof -
  obtain l es where n: "normalize_pair x l sn si raw = Inr (pair, es)" "accepted es"
    using assms by (auto simp: pair_from_def)
  have at: "pair_fields x l sn si raw ! 14 = (''id'', snd (id_field l si (pair_identity (x_env x))))"
    by (simp add: pair_fields_def id_field_def Let_def)
  have slot: "pair_slot ''id'' 14" and first: "\<not> written_before 14 ''id''"
    and same: "\<not> list_ex (written_from 14) [''name'', ''remote'', ''local'', ''direction'', ''mode'']" by code_simp+
  show ?thesis
  proof (rule pair_field_result [OF n at slot])
    fix d0 u es0
    assume f: "snd (id_field l si (pair_identity (x_env x))) d0 = Inr (u, es0)"
      and acc: "accepted es0" and final: "py_get pair ''id'' = after_update (py_get d0 ''id'') u"
      and before: "\<And>j. \<not> written_before 14 j \<Longrightarrow> py_get d0 j = py_get raw j"
      and behind: "\<And>j. \<not> written_from 14 j \<Longrightarrow> py_get d0 j = py_get pair j"
    have "pair_identity (x_env x) d0 = pair_identity (x_env x) pair"
      using behind same by (simp add: pair_identity_def str_at_def)
    with f acc final before [OF first] show ?thesis
      by (auto simp: id_field_def put_with_def str_at_def Let_def split: if_splits)
  qed
qed

lemma pair_arguments_result:
  assumes "pair_from x sn si raw pair"
  shows "\<exists>args. validate_rclone_args (py_get pair ''rclone_args'')
    (truthy (py_get (x_backup x) ''allow_unsafe_rclone_args'')) = Inr args"
proof -
  obtain l es where n: "normalize_pair x l sn si raw = Inr (pair, es)" "accepted es"
    using assms by (auto simp: pair_from_def)
  have at: "pair_fields x l sn si raw ! 50 = (''rclone_args'', snd (pair_arguments_field (x_backup x) l))"
    by (simp add: pair_fields_def pair_arguments_field_def Let_def)
  have slot: "pair_slot ''rclone_args'' 50" by code_simp
  show ?thesis
    by (rule pair_field_result [OF n at slot])
      (auto simp: pair_arguments_field_def arguments_answer_def put_with_def split: sum.splits)
qed

lemma pair_target_result:
  assumes "pair_from x sn si raw pair"
  shows "unprotected_target pair \<longrightarrow> truthy (py_get pair ''allow_empty_remote_target'')"
proof -
  obtain l es where n: "normalize_pair x l sn si raw = Inr (pair, es)" "accepted es"
    using assms by (auto simp: pair_from_def)
  have at: "pair_fields x l sn si raw ! 19 = (''min_remote_files'', snd mount_drop_field)"
    by (simp add: pair_fields_def mount_drop_field_def Let_def)
  have slot: "pair_slot ''min_remote_files'' 19"
    and same: "\<not> list_ex (written_from 19) [''enabled'', ''remote'', ''direction'', ''allow_empty_remote_target'']"
    by code_simp+
  show ?thesis
  proof (rule pair_field_result [OF n at slot])
    fix d0 u es0
    assume f: "snd mount_drop_field d0 = Inr (u, es0)"
      and final: "py_get pair ''min_remote_files'' = after_update (py_get d0 ''min_remote_files'') u"
      and behind: "\<And>j. \<not> written_from 19 j \<Longrightarrow> py_get d0 j = py_get pair j"
    have eq: "py_get d0 ''enabled'' = py_get pair ''enabled''" "py_get d0 ''remote'' = py_get pair ''remote''"
      "py_get d0 ''direction'' = py_get pair ''direction''"
      "py_get d0 ''allow_empty_remote_target'' = py_get pair ''allow_empty_remote_target''"
      using same by (intro behind; simp)+
    show ?thesis
    proof (cases "unprotected_target d0 \<and> \<not> truthy (py_get d0 ''allow_empty_remote_target'')")
      case True
      with f have "u = Put (PInt 1)" by (simp add: mount_drop_field_def put_with_def)
      with final show ?thesis by (simp add: unprotected_target_def)
    next
      case False
      with f have "u = Keep" by (auto simp: mount_drop_field_def split: if_splits)
      with final have "unprotected_target pair = unprotected_target d0"
        by (simp add: unprotected_target_def str_at_def eq)
      with False eq(4) show ?thesis by simp
    qed
  qed
qed

lemma pair_direction_result:
  assumes "pair_from x sn si raw pair"
  shows "py_get pair ''direction'' = PStr (direction_of raw)"
proof -
  obtain l es where n: "normalize_pair x l sn si raw = Inr (pair, es)" "accepted es"
    using assms by (auto simp: pair_from_def)
  have at: "pair_fields x l sn si raw ! 7 = (''direction'', snd (direction_field l))"
    by (simp add: pair_fields_def direction_field_def Let_def)
  have slot: "pair_slot ''direction'' 7" and first: "\<not> written_before 7 ''direction''" by code_simp+
  show ?thesis
  proof (rule pair_field_result [OF n at slot])
    fix d0 u es0
    assume f: "snd (direction_field l) d0 = Inr (u, es0)" and acc: "accepted es0"
      and final: "py_get pair ''direction'' = after_update (py_get d0 ''direction'') u"
      and before: "\<And>j. \<not> written_before 7 j \<Longrightarrow> py_get d0 j = py_get raw j"
    from f acc final before [OF first] show ?thesis
      by (auto simp: direction_field_def put_def put_with_def direction_of_def py_strip_lower Let_def split: if_splits)
  qed
qed

lemma pair_mode_result:
  assumes "pair_from x sn si raw pair"
  shows "py_get pair ''mode'' = PStr (pair_mode raw)"
proof -
  obtain l es where n: "normalize_pair x l sn si raw = Inr (pair, es)" "accepted es"
    using assms by (auto simp: pair_from_def)
  have at: "pair_fields x l sn si raw ! 8 = (''mode'', snd (mode_field l))"
    by (simp add: pair_fields_def mode_field_def Let_def)
  have slot: "pair_slot ''mode'' 8" and first: "\<not> written_before 8 ''mode''"
    and same: "\<not> written_from 8 ''direction''" by code_simp+
  show ?thesis
  proof (rule pair_field_result [OF n at slot])
    fix d0 u es0
    assume f: "snd (mode_field l) d0 = Inr (u, es0)" and acc: "accepted es0"
      and final: "py_get pair ''mode'' = after_update (py_get d0 ''mode'') u"
      and before: "\<And>j. \<not> written_before 8 j \<Longrightarrow> py_get d0 j = py_get raw j"
      and behind: "\<And>j. \<not> written_from 8 j \<Longrightarrow> py_get d0 j = py_get pair j"
    have "py_get d0 ''direction'' = PStr (direction_of raw)"
      using behind [OF same] pair_direction_result [OF assms] by simp
    with f acc final before [OF first] show ?thesis
      by (auto simp: mode_field_def put_def put_with_def pair_mode_def str_at_def py_strip_lower Let_def split: if_splits)
  qed
qed

lemma pair_ends_result:
  assumes "pair_from x sn si raw pair"
  shows "py_get pair ''remote'' = PStr (text_of (py_get raw ''remote''))
    \<and> py_get pair ''local'' = PStr (text_of (py_get raw ''local''))"
proof -
  obtain l es where n: "normalize_pair x l sn si raw = Inr (pair, es)" "accepted es"
    using assms by (auto simp: pair_from_def)
  have remote: "pair_fields x l sn si raw ! 5 = (''remote'', snd (remote_field (x_env x) l raw))"
    and local: "pair_fields x l sn si raw ! 6 = (''local'', snd (local_field raw))"
    by (simp_all add: pair_fields_def remote_field_def local_field_def Let_def)
  have slots: "pair_slot ''remote'' 5" "pair_slot ''local'' 6" by code_simp+
  have r: "\<exists>rl. pair_ends raw = Some rl \<and> py_get pair ''remote'' = PStr (fst rl)"
    by (rule pair_field_result [OF n remote slots(1)])
      (auto simp: remote_field_def put_with_def split: option.splits)
  moreover have "py_get pair ''local'' = PStr (case pair_ends raw of None \<Rightarrow> [] | Some (r, l) \<Rightarrow> l)"
    by (rule pair_field_result [OF n local slots(2)]) (auto simp: local_field_def put_def)
  ultimately show ?thesis
    by (auto simp: pair_ends_def clean_path_def Let_def split: sum.splits if_splits)
qed

text \<open>The id of an accepted path is the one the migration and the scheduler compute from the path as it came.\<close>

lemma pair_id_is_stable:
  assumes "pair_from x sn si raw pair"
  shows "str_at pair ''id'' = stable_data_path_id (v_uid (x_env x)) raw"
  using pair_id_result [OF assms] pair_name_result [OF assms] pair_ends_result [OF assms]
    pair_direction_result [OF assms] pair_mode_result [OF assms]
  by (auto simp: str_at_def stable_data_path_id_def pair_identity_def config_name_def Let_def)

end
