(* ===== verification/Config_Guarantees.thy ===== *)
theory Config_Guarantees
  imports Config_Theorems
begin

text \<open>
  Guarantees of an accepted configuration over all its data paths, job definitions and PBS targets: names and ids
  are unique, jobs name known paths, recovery directories stay outside of the data, targets on local disks are
  protected, arguments are those the runner accepts, and job definitions derived from the old form fit their paths.
\<close>

subsection \<open>The loops\<close>

lemma normalize_pairs_each:
  assumes "normalize_pairs x i sn si vs = Inr (pairs, es)" and "accepted es"
  shows "\<exists>raws. vs = map PDict raws \<and> list_all2 (\<lambda>raw pair. \<exists>sn si. pair_from x sn si raw pair) raws pairs \<and>
    distinct (map (\<lambda>r. py_casefold (config_name r)) raws) \<and>
    (\<forall>r \<in> set raws. py_casefold (config_name r) \<notin> set sn) \<and>
    distinct (map (\<lambda>p. str_at p ''id'') pairs) \<and> (\<forall>p \<in> set pairs. str_at p ''id'' \<notin> set si)"
  using assms
proof (induction vs arbitrary: i sn si pairs es)
  case (Cons v vs)
  show ?case
  proof (cases v)
    case (PDict raw)
    then obtain pair es1 rest es2 where
      n: "normalize_pair x (indexed ''backup.pairs'' i) sn si raw = Inr (pair, es1)"
      and r: "normalize_pairs x (Suc i) (py_casefold (config_name raw) # sn) (str_at pair ''id'' # si) vs = Inr (rest, es2)"
      and pairs: "pairs = pair # rest" "es = es1 @ es2"
      using Cons.prems(1) by auto
    have p: "pair_from x sn si raw pair" using n pairs Cons.prems(2) by (auto simp: pair_from_def)
    obtain raws where IH: "vs = map PDict raws"
        "list_all2 (\<lambda>raw pair. \<exists>sn si. pair_from x sn si raw pair) raws rest"
        "distinct (map (\<lambda>r. py_casefold (config_name r)) raws)"
        "\<forall>r \<in> set raws. py_casefold (config_name r) \<notin> set (py_casefold (config_name raw) # sn)"
        "distinct (map (\<lambda>p. str_at p ''id'') rest)" "\<forall>p \<in> set rest. str_at p ''id'' \<notin> set (str_at pair ''id'' # si)"
      using Cons.IH [OF r] Cons.prems(2) pairs by auto
    have fresh: "py_casefold (config_name raw) \<notin> py_casefold ` config_name ` set raws"
        "str_at pair ''id'' \<notin> (\<lambda>p. str_at p ''id'') ` set rest"
      using IH(4,6) by auto
    show ?thesis
      by (rule exI [of _ "raw # raws"])
        (use IH fresh p pair_name_result [OF p] pair_id_result [OF p] PDict pairs in \<open>auto simp: image_image\<close>)
  qed (use Cons.prems in auto)
qed simp

text \<open>What an accepted job definition states.\<close>

lemma normalize_job_result:
  assumes "normalize_job y l sn si job = Inr (job', es)" and "accepted es"
  shows "py_get job' ''name'' = PStr (config_name job) \<and> py_casefold (config_name job) \<notin> set sn \<and>
    py_get job' ''data_path_ids'' = texts (job_path_ids job) \<and> job_path_ids job \<noteq> [] \<and> distinct (job_path_ids job) \<and>
    set (job_path_ids job) \<subseteq> set (y_known y) \<and> str_at job' ''id'' \<notin> set si"
proof -
  let ?kas = "job_fields y l sn si job"
  let ?given = "py_lower (text_of (py_get job ''id''))"
  let ?jid = "if ?given = [] then stable_job_id (v_uid (y_env y)) (config_name job) (job_path_ids job) else ?given"
  have run: "run_fields (map (\<lambda>(k, a). (k, \<lambda>_. a)) ?kas) [] = Inr (job', es)"
    using assms(1) by (simp add: normalize_job_def)
  have keys: "distinct (map fst ?kas)" by (simp add: job_fields_def Let_def)
  note at = run_constant_fields [OF run assms(2) keys]
  have "(''name'', put (PStr (config_name job))) \<in> set ?kas" "(''data_path_ids'', put (texts (job_path_ids job))) \<in> set ?kas"
    by (simp_all add: job_fields_def Let_def)
  from this [THEN at] have put: "py_get job' ''name'' = PStr (config_name job)"
      "py_get job' ''data_path_ids'' = texts (job_path_ids job)"
    by (auto simp: put_def)
  have "(''id'', put_with (PStr ?jid) (job_name_issues l sn (config_name job) @ path_ids_issues l (y_known y) job @
        error_if (?given \<noteq> [] \<and> \<not> stable_id_ok ?given) (dotted l ''id'') Is_invalid @
        error_if (?jid \<in> set si) (dotted l ''id'') Is_duplicate)) \<in> set ?kas"
    by (simp only: job_fields_def Let_def) simp
  from at [OF this] have "py_get job' ''id'' = PStr ?jid" and acc: "accepted (job_name_issues l sn (config_name job))"
      "accepted (path_ids_issues l (y_known y) job)" "?jid \<notin> set si"
    by (simp_all add: put_with_def)
  moreover have "set (job_path_ids job) \<subseteq> set (y_known y)"
    using acc(2) by (auto simp: path_ids_issues_def Let_def filter_empty_conv)
  ultimately show ?thesis
    using put by (simp add: job_name_issues_def path_ids_issues_def Let_def str_at_def)
qed

definition job_from :: "job_context \<Rightarrow> pydict \<Rightarrow> pydict \<Rightarrow> bool" where
  "job_from y raw job \<longleftrightarrow> (\<exists>l sn si es. normalize_job y l sn si raw = Inr (job, es) \<and> accepted es)"

lemma normalize_jobs_each:
  assumes "normalize_jobs y i sn si vs = Inr (jobs, es)" and "accepted es"
  shows "\<exists>raws. vs = map PDict raws \<and> list_all2 (job_from y) raws jobs \<and>
    distinct (map (\<lambda>r. py_casefold (config_name r)) raws) \<and>
    (\<forall>r \<in> set raws. py_casefold (config_name r) \<notin> set sn) \<and>
    distinct (map (\<lambda>j. str_at j ''id'') jobs) \<and> (\<forall>j \<in> set jobs. str_at j ''id'' \<notin> set si)"
  using assms
proof (induction vs arbitrary: i sn si jobs es)
  case (Cons v vs)
  show ?case
  proof (cases v)
    case (PDict raw)
    then obtain job es1 rest es2 where
      n: "normalize_job y (indexed ''backup.jobs'' i) sn si raw = Inr (job, es1)"
      and r: "normalize_jobs y (Suc i) (py_casefold (config_name raw) # sn) (str_at job ''id'' # si) vs = Inr (rest, es2)"
      and jobs: "jobs = job # rest" "es = es1 @ es2"
      using Cons.prems(1) by auto
    have acc: "accepted es1" using jobs Cons.prems(2) by simp
    have p: "job_from y raw job" using n acc by (auto simp: job_from_def)
    obtain raws where IH: "vs = map PDict raws" "list_all2 (job_from y) raws rest"
        "distinct (map (\<lambda>r. py_casefold (config_name r)) raws)"
        "\<forall>r \<in> set raws. py_casefold (config_name r) \<notin> set (py_casefold (config_name raw) # sn)"
        "distinct (map (\<lambda>j. str_at j ''id'') rest)" "\<forall>j \<in> set rest. str_at j ''id'' \<notin> set (str_at job ''id'' # si)"
      using Cons.IH [OF r] Cons.prems(2) jobs by auto
    have fresh: "py_casefold (config_name raw) \<notin> py_casefold ` config_name ` set raws"
        "str_at job ''id'' \<notin> (\<lambda>j. str_at j ''id'') ` set rest"
      using IH(4,6) by auto
    show ?thesis
      by (rule exI [of _ "raw # raws"])
        (use IH fresh p normalize_job_result [OF n acc] PDict jobs in \<open>auto simp: image_image\<close>)
  qed (use Cons.prems in auto)
qed simp

subsection \<open>The backup section\<close>

text \<open>Everything an accepted configuration says of its data paths and jobs, in one place.\<close>

lemma mappings_in_set:
  assumes "py_get cfg k = PDict (section_in cfg k)" and "section_in cfg k = d" and "py_get d l = PList (map PDict ps)"
  shows "mappings_in cfg k l = ps"
  using assms by (simp add: mappings_in_def)

lemma accepted_backup:
  assumes "validate_config env v = Inr (Inr (cfg, ws))"
  obtains data raw d migrated raws hidden y pairs jobs where
    "v = PDict data" and "py_get_default data ''backup'' (PDict []) = PDict raw"
    and "mappings_in cfg ''backup'' ''pairs'' = pairs" and "mappings_in cfg ''backup'' ''jobs'' = jobs"
    and "py_get d ''pairs'' = py_get raw ''pairs''" and "py_get d ''jobs'' = py_get raw ''jobs''"
    and "accepted (snd (raw_pairs d))" and "fst (raw_pairs d) = map PDict raws"
    and "legacy_job_definitions (v_uid env) (py_set d ''pairs'' (PList (map PDict raws))) = Inr migrated"
    and "\<And>k. k \<notin> set [''pairs'', ''jobs''] \<Longrightarrow> py_get (section_in cfg ''backup'') k = py_get d k"
    and "list_all2 (\<lambda>raw pair. \<exists>sn si. pair_from \<lparr>x_env = env, x_backup = d, x_paths = section_in cfg ''paths'',
           x_hidden = hidden\<rparr> sn si raw pair) raws pairs"
    and "distinct (map (\<lambda>r. py_casefold (config_name r)) raws)" and "distinct (map (\<lambda>p. str_at p ''id'') pairs)"
    and "y_env y = env" and "y_known y = map (\<lambda>p. text_at p ''id'') pairs"
    and "accepted (snd (raw_jobs (has_key raw ''jobs'') (py_get d ''jobs'') migrated))"
    and "\<exists>raw_js. fst (raw_jobs (has_key raw ''jobs'') (py_get d ''jobs'') migrated) = map PDict raw_js \<and>
           list_all2 (job_from y) raw_js jobs \<and> distinct (map (\<lambda>r. py_casefold (config_name r)) raw_js)"
    and "distinct (map (\<lambda>j. str_at j ''id'') jobs)"
    and "accepted (recovery_issues env (section_in cfg ''paths'') pairs)" and "accepted (vault_issues env pairs)"
proof -
  obtain data raw e3 hidden where data: "v = PDict data" "py_get_default data ''backup'' (PDict []) = PDict raw"
    and b: "backup_section env (section_in cfg ''paths'') hidden raw = Inr (section_in cfg ''backup'', e3)" "accepted e3"
    by (rule accepted_sections [OF assms])
  obtain d pairs jobs migrated es1 es2 es3 where
    fields: "run_fields (backup_fields env (section_in cfg ''paths'')) raw = Inr (d, es1)" and migrated: "legacy_job_definitions (v_uid env) (py_set d ''pairs'' (PList (fst (raw_pairs d)))) = Inr migrated"
    and pairs: "backup_paths env (section_in cfg ''paths'') hidden d = Inr (pairs, es2)" "accepted es2"
    and jobs: "backup_jobs env (has_key raw ''jobs'') migrated pairs (py_set d ''pairs'' (PList (map PDict pairs))) = Inr (jobs, es3)"
      "accepted es3"
    and sec: "section_in cfg ''backup'' = py_set (py_set d ''pairs'' (PList (map PDict pairs))) ''jobs'' (PList (map PDict jobs))"
    by (rule backup_section_parts [OF b])
  let ?x = "\<lparr>x_env = env, x_backup = d, x_paths = section_in cfg ''paths'', x_hidden = hidden\<rparr>"
  obtain ep where np: "normalize_pairs ?x 0 [] [] (fst (raw_pairs d)) = Inr (pairs, ep)" "accepted ep"
    and rp: "accepted (snd (raw_pairs d))" "accepted (recovery_issues env (section_in cfg ''paths'') pairs)"
    using pairs by (auto simp: backup_paths_def split_beta)
  let ?y = "\<lparr>y_env = env, y_retry = int_of (py_get d ''scheduler_retry_minutes''), y_known = map (\<lambda>p. text_at p ''id'') pairs\<rparr>"
  obtain ej where nj: "normalize_jobs ?y 0 [] [] (fst (raw_jobs (has_key raw ''jobs'') (py_get d ''jobs'') migrated)) = Inr (jobs, ej)"
      "accepted ej" and rj: "accepted (snd (raw_jobs (has_key raw ''jobs'') (py_get d ''jobs'') migrated))"
      "accepted (vault_issues env pairs)"
    using jobs by (auto simp: backup_jobs_def split_beta)
  obtain raws where raws: "fst (raw_pairs d) = map PDict raws"
      "list_all2 (\<lambda>raw pair. \<exists>sn si. pair_from ?x sn si raw pair) raws pairs"
      "distinct (map (\<lambda>r. py_casefold (config_name r)) raws)" "distinct (map (\<lambda>p. str_at p ''id'') pairs)"
    using normalize_pairs_each [OF np] by blast
  have js: "\<exists>raw_js. fst (raw_jobs (has_key raw ''jobs'') (py_get d ''jobs'') migrated) = map PDict raw_js \<and>
      list_all2 (job_from ?y) raw_js jobs \<and> distinct (map (\<lambda>r. py_casefold (config_name r)) raw_js)"
      "distinct (map (\<lambda>j. str_at j ''id'') jobs)"
    using normalize_jobs_each [OF nj] by blast+
  have at: "mappings_in cfg ''backup'' ''pairs'' = pairs" "mappings_in cfg ''backup'' ''jobs'' = jobs"
    by (simp_all add: mappings_in_def sec)
  have same: "py_get d k = py_get raw k" if "k = ''pairs'' \<or> k = ''jobs''" for k
    by (rule run_fields_frame [OF fields]) (use that in \<open>auto simp: backup_fields_def\<close>)
  show thesis
    by (rule that [of data raw pairs jobs d raws migrated hidden ?y])
      (use data at rp raws migrated js rj in \<open>simp_all add: sec same\<close>)
qed

lemma all2_in_second: "list_all2 P xs ys \<Longrightarrow> y \<in> set ys \<Longrightarrow> \<exists>x \<in> set xs. P x y"
  by (induction rule: list_all2_induct) auto

lemma accepted_concat [simp]: "accepted (concat ess) \<longleftrightarrow> (\<forall>es \<in> set ess. accepted es)"
  by (induction ess) auto

lemma pair_from_names:
  assumes "list_all2 (\<lambda>raw pair. \<exists>sn si. pair_from x sn si raw pair) raws pairs"
  shows "map (\<lambda>p. f (str_at p ''name'')) pairs = map (\<lambda>r. f (config_name r)) raws"
  using assms by (induction rule: list_all2_induct) (auto simp: str_at_def dest: pair_name_result)

lemma job_from_names:
  assumes "list_all2 (job_from y) raws jobs"
  shows "map (\<lambda>j. f (str_at j ''name'')) jobs = map (\<lambda>r. f (config_name r)) raws"
  using assms by (induction rule: list_all2_induct) (auto simp: str_at_def job_from_def dest: normalize_job_result)

lemma texts_at_texts [simp]: "py_get d k = texts xs \<Longrightarrow> texts_at d k = xs"
  by (simp add: texts_at_def texts_def comp_def)

subsection \<open>References\<close>

text \<open>In an accepted configuration no two data paths have the same name (ignoring case) or the same id, no two job
  definitions have the same name or id, and every job names at least one data path, none of them twice,
  and only paths of this configuration.\<close>

theorem accepted_references_resolve:
  assumes "validate_config env v = Inr (Inr (cfg, ws))"
  shows "distinct (map (\<lambda>p. py_casefold (str_at p ''name'')) (mappings_in cfg ''backup'' ''pairs'')) \<and>
    distinct (map (\<lambda>p. str_at p ''id'') (mappings_in cfg ''backup'' ''pairs'')) \<and>
    distinct (map (\<lambda>j. py_casefold (str_at j ''name'')) (mappings_in cfg ''backup'' ''jobs'')) \<and>
    distinct (map (\<lambda>j. str_at j ''id'') (mappings_in cfg ''backup'' ''jobs'')) \<and>
    (\<forall>job \<in> set (mappings_in cfg ''backup'' ''jobs'').
       texts_at job ''data_path_ids'' \<noteq> [] \<and> distinct (texts_at job ''data_path_ids'') \<and>
       set (texts_at job ''data_path_ids'') \<subseteq> (\<lambda>p. str_at p ''id'') ` set (mappings_in cfg ''backup'' ''pairs''))"
proof (rule accepted_backup [OF assms], goal_cases)
  case (1 data raw d migrated raws hidden y pairs jobs)
  obtain raw_js where js: "list_all2 (job_from y) raw_js jobs" "distinct (map (\<lambda>r. py_casefold (config_name r)) raw_js)"
    using 1 by blast
  have pn: "map (\<lambda>p. py_casefold (str_at p ''name'')) pairs = map (\<lambda>r. py_casefold (config_name r)) raws"
    by (rule pair_from_names) (use 1 in blast)
  have jn: "map (\<lambda>j. py_casefold (str_at j ''name'')) jobs = map (\<lambda>r. py_casefold (config_name r)) raw_js"
    by (rule job_from_names [OF js(1)])
  have known: "text_at p ''id'' = str_at p ''id''" if "p \<in> set pairs" for p
  proof -
    obtain r sn si where "pair_from \<lparr>x_env = env, x_backup = d, x_paths = section_in cfg ''paths'', x_hidden = hidden\<rparr> sn si r p"
      using all2_in_second [of _ raws pairs p] 1 \<open>p \<in> set pairs\<close> by blast
    from pair_id_result [OF this] show ?thesis by (auto simp: text_at_def str_at_def str_or_def)
  qed
  have "texts_at j ''data_path_ids'' \<noteq> [] \<and> distinct (texts_at j ''data_path_ids'') \<and>
      set (texts_at j ''data_path_ids'') \<subseteq> (\<lambda>p. str_at p ''id'') ` set pairs" if "j \<in> set jobs" for j
  proof -
    obtain r l sn si es where "normalize_job y l sn si r = Inr (j, es)" "accepted es"
      using all2_in_second [OF js(1) \<open>j \<in> set jobs\<close>] by (auto simp: job_from_def)
    from normalize_job_result [OF this] 1 known show ?thesis by (auto simp: image_def)
  qed
  then show ?case using 1 js(2) pn jn by simp
qed

subsection \<open>Directories\<close>

lemma absolute_is_no_remote: "is_absolute_local p \<Longrightarrow> \<not> is_config_remote p"
  by (simp add: is_absolute_local_def is_config_remote_def)

text \<open>Two local paths that do not overlap resolve to places of which neither contains the other.\<close>

lemma apart_places:
  assumes "\<not> config_paths_overlap env a b" and "is_absolute_local a" and "is_absolute_local b"
    and "real_parts env a = Some p" and "real_parts env b = Some q"
  shows "\<not> inside p q \<and> \<not> inside q p"
proof -
  have "a \<noteq> []" "b \<noteq> []" using assms(2,3) by (auto simp: is_absolute_local_def py_startswith_def)
  then show ?thesis
    using assms absolute_is_no_remote by (auto simp: config_paths_overlap_def)
qed

definition apart :: "config_env \<Rightarrow> string \<Rightarrow> string \<Rightarrow> bool" where
  "apart env a b \<longleftrightarrow>
     (case (real_parts env a, real_parts env b) of (Some p, Some q) \<Rightarrow> \<not> inside p q \<and> \<not> inside q p | _ \<Rightarrow> True)"

lemma apartI:
  "\<not> config_paths_overlap env a b \<Longrightarrow> is_absolute_local a \<Longrightarrow> is_absolute_local b \<Longrightarrow> apart env a b"
  using apart_places by (auto simp: apart_def split: option.split)

lemma apart_sym: "apart env a b = apart env b a"
  by (auto simp: apart_def split: option.split)

lemma accepted_directories:
  assumes "validate_config env v = Inr (Inr (cfg, ws))"
    and "k \<in> set [''data_dir'', ''logs_dir'', ''temp_dir'', ''recovery_dir'', ''recovery_snapshots_dir'', ''device_vault_dir'']"
  shows "is_absolute_local (text_at (section_in cfg ''paths'') k)"
proof (rule accepted_sections [OF assms(1)], goal_cases)
  case (1 data raw_web raw_paths raw_backup raw_notifications raw_maintenance raw_pbs e1 e2 e3 e4 e5 e6 hidden)
  have "has_type (TDict paths_schema) (PDict (section_in cfg ''paths''))"
    using 1 paths_section_typed by blast
  then have "has_type TPath (py_get (section_in cfg ''paths'') k)"
    using assms(2) by (auto simp: paths_schema_def)
  then show ?case
    by (auto simp: has_type.simps text_at_def str_or_def is_absolute_local_def py_startswith_def split: pyval.splits)
qed

lemma accepted_pbs:
  assumes "validate_config env v = Inr (Inr (cfg, ws))"
  obtains pbs targets vs es where
    "normalize_targets env pbs 0 [] [] vs = Inr (targets, es)" and "accepted es"
    and "py_get (section_in cfg ''pbs'') ''targets'' = PList targets"
    and "1 < length targets \<Longrightarrow> accepted (backup_id_issues 0 [] targets)"
    and "accepted (pbs_overlap_issues env (section_in cfg ''paths'') targets)"
proof (rule accepted_sections [OF assms], goal_cases)
  case (1 data raw_web raw_paths raw_backup raw_notifications raw_maintenance raw_pbs e1 e2 e3 e4 e5 e6 hidden)
  obtain pbs targets es1 es where pbs: "normalize_targets env pbs 0 [] [] (fst (raw_targets pbs)) = Inr (targets, es)"
      "section_in cfg ''pbs'' = py_set pbs ''targets'' (PList targets)"
    and e6: "e6 = es1 @ snd (raw_targets pbs) @ es @ (if 1 < length targets then backup_id_issues 0 [] targets else []) @
      pbs_overlap_issues env (section_in cfg ''paths'') targets @
      warn_if (truthy (py_get pbs ''enabled'') \<and> targets = []) ''pbs.targets'' Is_empty"
    using 1(21) by (auto simp: pbs_section_def split_beta Let_def)
  show ?case
    by (rule that [OF pbs(1)]) (use 1(22) e6 pbs(2) in \<open>auto split: if_splits\<close>)
qed

text \<open>C24: In an accepted configuration the directories of recovery staging and of recovery snapshots contain no local
  end of a data path and no path of a PBS target and lie inside of none, wherever symbolic links lead, and
  the same holds for the two directories and the device vault among each other.\<close>

theorem recovery_directories_stay_apart:
  assumes "validate_config env v = Inr (Inr (cfg, ws))" and "key \<in> set recovery_keys"
  shows "(\<forall>pair \<in> set (mappings_in cfg ''backup'' ''pairs''). \<forall>k \<in> set end_keys.
      is_absolute_local (text_at pair k) \<longrightarrow> apart env (text_at (section_in cfg ''paths'') key) (text_at pair k)) \<and>
    (\<forall>target \<in> set (mappings_in cfg ''pbs'' ''targets''). \<forall>p \<in> set (texts_at target ''paths'').
      is_absolute_local p \<longrightarrow> apart env (text_at (section_in cfg ''paths'') key) p) \<and>
    apart env (text_at (section_in cfg ''paths'') key) (text_at (section_in cfg ''paths'') ''device_vault_dir'') \<and>
    apart env (text_at (section_in cfg ''paths'') ''recovery_dir'') (text_at (section_in cfg ''paths'') ''recovery_snapshots_dir'')"
proof -
  have dirs: "is_absolute_local (text_at (section_in cfg ''paths'') k)"
    if "k \<in> {key, ''device_vault_dir'', ''recovery_dir'', ''recovery_snapshots_dir''}" for k
    by (rule accepted_directories [OF assms(1)]) (use that assms(2) in \<open>auto simp: recovery_keys_def\<close>)
  let ?p = "section_in cfg ''paths''"
  have ok: "accepted (recovery_issues env ?p (mappings_in cfg ''backup'' ''pairs''))"
    by (rule accepted_backup [OF assms(1)]) simp
  have pairs: "\<forall>pair \<in> set (mappings_in cfg ''backup'' ''pairs''). \<forall>k \<in> set end_keys.
      is_absolute_local (text_at pair k) \<longrightarrow> \<not> config_paths_overlap env (text_at ?p key) (text_at pair k)"
    using ok assms(2) by (auto simp: recovery_issues_def recovery_end_issues_def)
  have dirs_apart: "\<not> config_paths_overlap env (text_at ?p key) (text_at ?p ''device_vault_dir'')"
      "\<not> config_paths_overlap env (text_at ?p ''recovery_dir'') (text_at ?p ''recovery_snapshots_dir'')"
    using ok assms(2) by (auto simp: recovery_issues_def)
  have targets: "\<forall>target \<in> set (mappings_in cfg ''pbs'' ''targets''). \<forall>p \<in> set (texts_at target ''paths'').
      is_absolute_local p \<longrightarrow> \<not> config_paths_overlap env p (text_at ?p key)"
    by (rule accepted_pbs [OF assms(1)])
      (use assms(2) in \<open>auto simp: mappings_in_def pbs_overlap_issues_def text_at_def recovery_keys_def\<close>)
  show ?thesis
    using pairs targets dirs_apart dirs apartI apart_sym by (metis insertI1 insertI2)
qed

subsection \<open>Protection of local targets\<close>

text \<open>In an accepted configuration an enabled data path that writes to a local directory named in its \<open>remote\<close>
  field asks for at least one file in that directory, so an unmounted disk stops the run, unless the
  user explicitly allowed an empty target.\<close>

theorem local_targets_are_guarded:
  assumes "validate_config env v = Inr (Inr (cfg, ws))" and "pair \<in> set (mappings_in cfg ''backup'' ''pairs'')"
    and "truthy (py_get pair ''enabled'')" and "is_absolute_local (str_at pair ''remote'')"
    and "str_at pair ''direction'' \<in> {''push'', ''bisync''}"
  shows "truthy (py_get pair ''allow_empty_remote_target'') \<or> (\<exists>n. py_get pair ''min_remote_files'' = PInt n \<and> 1 \<le> n)"
proof (rule accepted_backup [OF assms(1)], goal_cases)
  case (1 data raw d migrated raws hidden y pairs jobs)
  obtain r sn si where p: "pair_from \<lparr>x_env = env, x_backup = d, x_paths = section_in cfg ''paths'', x_hidden = hidden\<rparr> sn si r pair"
    using all2_in_second [of _ raws pairs pair] 1 assms(2) by blast
  have "has_type (TInt 0 10000000) (py_get pair ''min_remote_files'')"
    using p min_remote_typed by (auto simp: pair_from_def)
  then show ?case
    using pair_target_result [OF p] assms(3-5) by (auto simp: unprotected_target_def has_type.simps split: pyval.splits)
qed

subsection \<open>Arguments\<close>

text \<open>The rclone arguments of every data path of an accepted configuration pass the validation the runner repeats,
  with the same switch for expert mode, and without expert mode none of their tokens is a protected, executing or
  credential flag.\<close>

theorem accepted_arguments_are_safe:
  assumes "validate_config env v = Inr (Inr (cfg, ws))" and "pair \<in> set (mappings_in cfg ''backup'' ''pairs'')"
  shows "\<exists>args. validate_rclone_args (py_get pair ''rclone_args'')
      (truthy (py_get (section_in cfg ''backup'') ''allow_unsafe_rclone_args'')) = Inr args \<and>
    list_all (\<lambda>t. \<not> never_allowed t) args \<and>
    (truthy (py_get (section_in cfg ''backup'') ''allow_unsafe_rclone_args'') \<or> list_all (\<lambda>t. \<not> is_blocked t) args)"
proof (rule accepted_backup [OF assms(1)], goal_cases)
  case (1 data raw d migrated raws hidden y pairs jobs)
  obtain r sn si where p: "pair_from \<lparr>x_env = env, x_backup = d, x_paths = section_in cfg ''paths'', x_hidden = hidden\<rparr> sn si r pair"
    using all2_in_second [of _ raws pairs pair] 1 assms(2) by blast
  have "py_get (section_in cfg ''backup'') ''allow_unsafe_rclone_args'' = py_get d ''allow_unsafe_rclone_args''"
    using 1 by simp
  with pair_arguments_result [OF p] show ?case
    by (auto simp: validate_rclone_args_def validate_accepts_iff)
qed

end
