(* ===== verification/Config_Outcome.thy ===== *)
theory Config_Outcome
  imports Config_Guarantees
begin

text \<open>
  Further guarantees of an accepted configuration: job definitions derived from a configuration of the old form,
  the origin of passkeys, and the snapshot groups of PBS targets.
\<close>

subsection \<open>Migration\<close>

lemma stable_id_fixed:
  assumes "stable_id_ok s"
  shows "py_lower (py_strip s) = s"
proof -
  have hex: "\<not> is_space c \<and> lower_char c = c" if "c \<in> set s" for c
    using that assms by (auto simp: stable_id_ok_def list_all_iff hex_lower_def is_digit_def is_space_def lower_char_def)
  have "dropWhile is_space xs = xs" if "set xs \<subseteq> set s" for xs
    using that hex by (cases xs) auto
  then have "py_strip s = s" by (simp add: py_strip_def)
  moreover have "py_lower s = s" using hex by (simp add: py_lower_def map_idI)
  ultimately show ?thesis by simp
qed

lemma job_schedule_result:
  assumes "job_from y raw job"
  shows "py_get job ''schedule'' = PStr (job_schedule raw)"
proof -
  obtain l sn si es where n: "normalize_job y l sn si raw = Inr (job, es)" "accepted es"
    using assms by (auto simp: job_from_def)
  have run: "run_fields (map (\<lambda>(k, a). (k, \<lambda>_. a)) (job_fields y l sn si raw)) [] = Inr (job, es)"
    using n(1) by (simp add: normalize_job_def)
  have keys: "distinct (map fst (job_fields y l sn si raw))" by (simp add: job_fields_def Let_def)
  have "(''schedule'', put_with (PStr (job_schedule raw)) (error_if (\<not> off_schedule (job_schedule raw) \<and>
      \<not> valid_cron (y_env y) (job_schedule raw)) (dotted l ''schedule'') (Is_invalid_value (job_schedule raw))))
      \<in> set (job_fields y l sn si raw)"
    by (simp add: job_fields_def Let_def)
  from run_constant_fields [OF run n(2) keys this] show ?thesis by (auto simp: put_with_def)
qed

lemma migrated_jobs:
  assumes "legacy_job_definitions uid (py_set d ''pairs'' (PList (map PDict raws))) = Inr migrated"
  shows "\<exists>s0 r. migrated = map (legacy_definition uid s0 r) raws"
  using assms by (auto simp: legacy_job_definitions_def Let_def)

lemma raw_jobs_migrated:
  assumes "accepted (snd (raw_jobs False given migrated))"
  shows "fst (raw_jobs False given migrated) = map PDict migrated"
  using assms by (auto simp: raw_jobs_def split: if_splits)

lemma legacy_definition_reads:
  "config_name (legacy_definition uid s0 r raw) = config_name raw"
  "job_path_ids (legacy_definition uid s0 r raw) = [py_lower (py_strip (stable_data_path_id uid raw))]"
  "text_of (py_get raw ''schedule'') \<noteq> [] \<Longrightarrow>
     job_schedule (legacy_definition uid s0 r raw) = text_of (py_get raw ''schedule'')"
  by (simp_all add: config_name_def job_path_ids_def job_schedule_def legacy_definition_def py_get_def str_or_def Let_def)

lemma raw_pairs_list:
  assumes "py_get d ''pairs'' = PList vs" and "accepted (snd (raw_pairs d))"
  shows "fst (raw_pairs d) = vs"
  using assms by (cases vs) (auto simp: raw_pairs_def py_or_def split: if_splits)

lemma pair_id_well_formed:
  assumes "hex_uid (x_env x)" and "pair_from x sn si raw pair"
  shows "stable_id_ok (str_at pair ''id'')"
proof -
  have "has_type (TDict pair_schema) (PDict pair)"
    using assms normalize_pair_typed by (auto simp: pair_from_def simp del: has_type_values)
  moreover have "(''id'', TId) \<in> set pair_schema" by (simp add: pair_schema_def)
  ultimately have "has_type TId (py_get pair ''id'')" by (auto simp: list_all_iff)
  then show ?thesis by (simp add: has_type.simps str_at_def split: pyval.splits)
qed

text \<open>A configuration of the old form, without a \<open>jobs\<close> key, is migrated without loss: when it is accepted, there is
  one job per data path, in the same order and of the same name, that names exactly the id this path has after
  normalization, and it runs at the schedule the path had.\<close>

theorem migrated_jobs_match_paths:
  assumes "hex_uid env" and "validate_config env (PDict data) = Inr (Inr (cfg, ws))"
    and "py_get data ''backup'' = PDict raw" and "\<not> has_key raw ''jobs''" and "py_get raw ''pairs'' = PList vs"
  shows "length (mappings_in cfg ''backup'' ''pairs'') = length vs \<and> length (mappings_in cfg ''backup'' ''jobs'') = length vs \<and>
    (\<forall>i < length vs.
       texts_at (mappings_in cfg ''backup'' ''jobs'' ! i) ''data_path_ids'' = [str_at (mappings_in cfg ''backup'' ''pairs'' ! i) ''id''] \<and>
       str_at (mappings_in cfg ''backup'' ''jobs'' ! i) ''name'' = str_at (mappings_in cfg ''backup'' ''pairs'' ! i) ''name'' \<and>
       (text_of (py_get (as_dict (vs ! i)) ''schedule'') \<noteq> [] \<longrightarrow>
          str_at (mappings_in cfg ''backup'' ''jobs'' ! i) ''schedule'' = text_of (py_get (as_dict (vs ! i)) ''schedule'')))"
proof (rule accepted_backup [OF assms(2)], goal_cases)
  case (1 data' raw' d migrated raws hidden y pairs jobs)
  have raw: "raw' = raw"
  proof -
    have "map_of data ''backup'' = Some (PDict raw)" using assms(3) by (auto simp: py_get_def split: option.splits)
    with 1(1,2) show ?thesis by (simp add: py_get_default_def)
  qed
  have explicit: "has_key raw ''jobs'' = False" using assms(4) by simp
  have "py_get d ''pairs'' = PList vs" using 1 raw assms(5) by simp
  moreover have "accepted (snd (raw_pairs d))" "fst (raw_pairs d) = map PDict raws" by fact+
  ultimately have vs: "vs = map PDict raws" using raw_pairs_list by simp
  have "legacy_job_definitions (v_uid env) (py_set d ''pairs'' (PList (map PDict raws))) = Inr migrated" by fact
  from migrated_jobs [OF this] obtain s0 r where migrated: "migrated = map (legacy_definition (v_uid env) s0 r) raws"
    by blast
  have "accepted (snd (raw_jobs (has_key raw' ''jobs'') (py_get d ''jobs'') migrated))" by fact
  then have "fst (raw_jobs (has_key raw' ''jobs'') (py_get d ''jobs'') migrated) = map PDict migrated"
    unfolding raw explicit by (rule raw_jobs_migrated)
  with 1(17) obtain raw_js where js: "map PDict migrated = map PDict raw_js" "list_all2 (job_from y) raw_js jobs"
    by auto
  from js(1) have js_eq: "raw_js = migrated" using inj_map_eq_map [of PDict] by (auto simp: inj_def)
  have len: "length pairs = length vs" "length jobs = length vs"
    using list_all2_lengthD [OF 1(11)] list_all2_lengthD [OF js(2)] js_eq vs migrated by simp_all
  have each: "texts_at (jobs ! i) ''data_path_ids'' = [str_at (pairs ! i) ''id''] \<and>
       str_at (jobs ! i) ''name'' = str_at (pairs ! i) ''name'' \<and>
       (text_of (py_get (as_dict (vs ! i)) ''schedule'') \<noteq> [] \<longrightarrow>
          str_at (jobs ! i) ''schedule'' = text_of (py_get (as_dict (vs ! i)) ''schedule''))" if "i < length vs" for i
  proof -
    let ?raw = "raws ! i"
    have "i < length raws" using that vs by simp
    then obtain sn si where p: "pair_from \<lparr>x_env = env, x_backup = d, x_paths = section_in cfg ''paths'', x_hidden = hidden\<rparr>
        sn si ?raw (pairs ! i)"
      using list_all2_nthD [OF 1(11)] by blast
    have j: "job_from y (legacy_definition (v_uid env) s0 r ?raw) (jobs ! i)"
      using list_all2_nthD [OF js(2), of i] \<open>i < length raws\<close> js_eq migrated by simp
    have "stable_id_ok (str_at (pairs ! i) ''id'')"
      using pair_id_well_formed [OF _ p] assms(1) by simp
    then have "job_path_ids (legacy_definition (v_uid env) s0 r ?raw) = [str_at (pairs ! i) ''id'']"
      using pair_id_is_stable [OF p] by (simp add: legacy_definition_reads stable_id_fixed)
    moreover obtain l sn' si' es where "normalize_job y l sn' si' (legacy_definition (v_uid env) s0 r ?raw) = Inr (jobs ! i, es)"
        "accepted es"
      using j by (auto simp: job_from_def)
    note normalize_job_result [OF this]
    ultimately show ?thesis
      using pair_name_result [OF p] job_schedule_result [OF j] vs that
      by (auto simp: str_at_def legacy_definition_reads)
  qed
  show ?case using len each 1(3,4) by simp
qed

subsection \<open>Passkeys\<close>

definition origin_secure :: "origin \<Rightarrow> string \<Rightarrow> bool" where
  "origin_secure p rp \<longleftrightarrow>
     (let host = py_casefold (opt_str (o_host p)) in
      (o_scheme p = ''https'' \<or> o_scheme p = ''http'' \<and> host = ''localhost'') \<and>
      (host = rp \<or> ends_with host (CHR ''.'' # rp)) \<and> o_user p = None \<and> o_password p = None \<and> o_path p \<in> {[], ''/''})"

lemma casefold_text_fixed [simp]: "py_casefold (py_strip (py_casefold (py_strip s))) = py_casefold (py_strip s)"
proof -
  have "py_strip (py_casefold (py_strip s)) = py_casefold (py_strip s)"
    using py_strip_lower [of "py_strip s"] by (simp add: py_casefold_def py_lower_def)
  then show ?thesis by simp
qed

text \<open>When an accepted configuration enables passkeys (a non-empty \<open>web.webauthn_rp_id\<close>), cookies are always secure,
  the id is a DNS name, and the origin parses as an HTTPS origin (HTTP only for localhost) without user, password
  or path, whose host is this name or a subdomain of it.\<close>

theorem passkey_origin_is_secure:
  assumes "validate_config env v = Inr (Inr (cfg, ws))" and "str_at (section_in cfg ''web'') ''webauthn_rp_id'' \<noteq> []"
  shows "py_get (section_in cfg ''web'') ''secure_cookie'' = PBool True \<and>
    dns_name (str_at (section_in cfg ''web'') ''webauthn_rp_id'') \<and>
    (\<exists>p. v_origin env (str_at (section_in cfg ''web'') ''webauthn_origin'') = Some p \<and>
       origin_secure p (str_at (section_in cfg ''web'') ''webauthn_rp_id''))"
proof (rule accepted_sections [OF assms(1)], goal_cases)
  case (1 data raw_web raw_paths raw_backup raw_notifications raw_maintenance raw_pbs e1 e2 e3 e4 e5 e6 hidden)
  let ?web = "section_in cfg ''web''"
  have run: "run_fields (web_fields env) raw_web = Inr (?web, e1)" "accepted e1" by fact+
  have rp: "\<exists>t. py_get ?web ''webauthn_rp_id'' = PStr (py_casefold (text_of t))"
    by (rule run_field_nth [OF run, of 10 "''webauthn_rp_id''" "snd rp_id_field"])
      (auto simp: web_fields_def rp_id_field_def put_def)
  show ?case
  proof (rule run_field_nth [OF run, of 11 "''webauthn_origin''" "snd (origin_field env)"], goal_cases)
    case (4 d0 u es0)
    have same: "py_get d0 ''webauthn_rp_id'' = py_get ?web ''webauthn_rp_id''"
        "py_get d0 ''secure_cookie'' = py_get ?web ''secure_cookie''"
      by (rule 4; simp add: web_fields_def)+
    obtain t where t: "py_get ?web ''webauthn_rp_id'' = PStr (py_casefold (py_strip t))"
      using rp by (auto simp: text_of_def)
    have "str_at ?web ''webauthn_rp_id'' = py_casefold (text_of (py_get d0 ''webauthn_rp_id''))"
      by (simp add: same t str_at_def)
    with 4(1-3) assms(2) same show ?case
      by (auto simp: origin_field_def put_with_def origin_issues_def bad_origin_def origin_secure_def str_at_def Let_def
          split: option.splits if_splits)
  qed (simp_all add: web_fields_def origin_field_def)
qed

subsection \<open>PBS targets\<close>

lemma normalize_targets_each:
  assumes "normalize_targets env pbs i sn si vs = Inr (targets, es)" and "accepted es"
  shows "\<exists>ts. targets = map PDict ts"
  using assms
proof (induction vs arbitrary: i sn si targets es)
  case (Cons v vs)
  then show ?case by (cases v) (fastforce simp: Cons_eq_map_conv)+
qed simp

lemma backup_ids_distinct:
  assumes "accepted (backup_id_issues i seen (map PDict ts))"
  shows "distinct (map group_id ts) \<and> (\<forall>t \<in> set ts. group_id t \<notin> set seen \<and> text_of (py_get t ''backup_id'') \<noteq> [])"
  using assms
proof (induction ts arbitrary: i seen)
  case (Cons t ts)
  have "text_of (py_get t ''backup_id'') \<noteq> []" "group_id t \<notin> set seen"
      "accepted (backup_id_issues (Suc i) (group_id t # seen) (map PDict ts))"
    using Cons.prems by (auto simp: Let_def split: if_splits)
  with Cons.IH [of "Suc i" "group_id t # seen"] show ?case by auto
qed simp

text \<open>In an accepted configuration with several PBS targets every target has a backup id of its own, and no two of
  them are mapped by \<open>canonical_pbs_backup_id\<close> to the same snapshot group, ignoring case.\<close>

theorem pbs_groups_are_distinct:
  assumes "validate_config env v = Inr (Inr (cfg, ws))" and "2 \<le> length (mappings_in cfg ''pbs'' ''targets'')"
  shows "distinct (map group_id (mappings_in cfg ''pbs'' ''targets'')) \<and>
    (\<forall>target \<in> set (mappings_in cfg ''pbs'' ''targets''). text_of (py_get target ''backup_id'') \<noteq> [])"
proof (rule accepted_pbs [OF assms(1)], goal_cases)
  case (1 pbs targets vs es)
  obtain ts where ts: "targets = map PDict ts" using normalize_targets_each 1(1,2) by blast
  then have "mappings_in cfg ''pbs'' ''targets'' = ts" using 1(3) by (simp add: mappings_in_def)
  with 1(4) ts assms(2) backup_ids_distinct show ?case by auto
qed

end
