(* ===== verification/Config_Progress.thy ===== *)
theory Config_Progress
  imports Config_Outcome
begin

text \<open>
  When \<open>validate_config\<close> answers. Apart from \<open>ConfigValidationError\<close> only two exceptions can leave it: the
  overflow of \<open>int(inf)\<close> or of \<open>float\<close> on a huge integer, and what the check of the APNs key file raises. Without
  such numbers, and with a
  key file that is one line and can be resolved, every field of every section gives an answer.
\<close>

fun finite_value :: "pyval \<Rightarrow> bool" where
  "finite_value (PInt i) = float_fits i"
| "finite_value (PNonFin n) = (n = NotANum)"
| "finite_value (PList vs) = list_all finite_value vs"
| "finite_value (PDict d) = list_all (\<lambda>kv. finite_value (snd kv)) d"
| "finite_value _ = True"

definition finite_dict :: "pydict \<Rightarrow> bool" where
  "finite_dict d \<longleftrightarrow> list_all (\<lambda>kv. finite_value (snd kv)) d"

lemma finite_value_PDict: "finite_value (PDict d) \<longleftrightarrow> finite_dict d"
  by (simp add: finite_dict_def)

declare finite_value.simps(4) [simp del]
declare finite_value_PDict [simp]

lemma finite_dict_Nil [simp]: "finite_dict []"
  by (simp add: finite_dict_def)

lemma finite_dict_lookup: "finite_dict d \<Longrightarrow> map_of d k = Some v \<Longrightarrow> finite_value v"
  using map_of_SomeD [of d k v] by (auto simp: finite_dict_def list_all_iff)

lemma finite_get [simp]: "finite_dict d \<Longrightarrow> finite_value (py_get d k)"
  by (auto simp: py_get_def split: option.split intro: finite_dict_lookup)

lemma finite_get_default [simp]: "finite_dict d \<Longrightarrow> finite_value v \<Longrightarrow> finite_value (py_get_default d k v)"
  by (auto simp: py_get_default_def split: option.split intro: finite_dict_lookup)

lemma finite_set [simp]: "finite_dict d \<Longrightarrow> finite_value v \<Longrightarrow> finite_dict (py_set d k v)"
  by (induction d k v rule: py_set.induct) (simp_all add: finite_dict_def)

lemma finite_pop [simp]: "finite_dict d \<Longrightarrow> finite_dict (py_pop d k)"
  by (simp add: finite_dict_def py_pop_def list_all_iff)

lemma finite_as_dict [simp]: "finite_value v \<Longrightarrow> finite_dict (as_dict v)"
  by (cases v) simp_all

lemma finite_texts [simp]: "finite_value (texts xs)"
  by (simp add: texts_def list_all_iff)

lemma finite_or [simp]: "finite_value a \<Longrightarrow> finite_value b \<Longrightarrow> finite_value (py_or a b)"
  by (simp add: py_or_def)

subsection \<open>Answers\<close>

fun finite_update :: "update \<Rightarrow> bool" where
  "finite_update (Put v) = finite_value v"
| "finite_update _ = True"

definition answers :: "answer \<Rightarrow> bool" where
  "answers a \<longleftrightarrow> (case a of Inl _ \<Rightarrow> False | Inr (u, _) \<Rightarrow> finite_update u)"

lemma answers_put [simp]: "answers (put v) \<longleftrightarrow> finite_value v"
  by (simp add: answers_def put_def)

lemma answers_put_with [simp]: "answers (put_with v es) \<longleftrightarrow> finite_value v"
  by (simp add: answers_def put_with_def)

lemma answers_Inr [simp]: "answers (Inr (u, es)) \<longleftrightarrow> finite_update u"
  by (simp add: answers_def)

lemma answersD: "answers a \<Longrightarrow> \<exists>u es. a = Inr (u, es) \<and> finite_update u"
  by (auto simp: answers_def split: sum.splits)

lemma answers_map: "answers a \<Longrightarrow> answers (bind_result a (\<lambda>(u, es). Inr (u, f es)))"
  by (auto dest!: answersD)

lemma float_fits_clamp: "float_fits lo \<Longrightarrow> float_fits hi \<Longrightarrow> float_fits (clamp lo hi i)"
  using float_fits_between [of lo hi i] by (auto simp: clamp_def max_def min_def)

lemma no_overflow: "finite_value v \<Longrightarrow> py_int v \<noteq> Inl OverflowError"
  by (cases v rule: py_int.cases) (auto split: option.split)

lemma not_infinite: "py_int v \<noteq> Inl OverflowError \<Longrightarrow> \<exists>i. number_int v dflt lo hi = Inr (clamp lo hi i)"
  by (auto simp: number_int_def split: sum.split pyerr.split)

lemma answers_number:
  assumes "finite_value v" and "float_fits lo" and "float_fits hi"
  shows "answers (bind_result (number_int v dflt lo hi) (\<lambda>i. put (PInt i)))"
  using not_infinite [OF no_overflow [OF assms(1)], of dflt lo hi] assms(2,3) by (auto simp: float_fits_clamp)

lemma answers_read_int [simp]:
  assumes "finite_dict src" and "float_fits lo" and "float_fits hi"
  shows "answers (read_int src k dflt lo hi)"
proof -
  have "py_int (py_get_default src k (PInt dflt)) \<noteq> Inl OverflowError"
    using no_overflow finite_dict_lookup [OF assms(1)] by (auto simp: py_get_default_def split: option.split)
  from not_infinite [OF this, of dflt lo hi] assms(2,3) show ?thesis by (auto simp: read_int_def float_fits_clamp)
qed

lemma finite_float: "finite_value v \<Longrightarrow> \<exists>r. number_float v dflt lo hi = Inr r"
  by (cases v) (auto simp: number_float_def split: sum.split option.split nonfin.split)

lemma answers_read_float [simp]: "finite_dict src \<Longrightarrow> answers (read_float src k dflt' lo hi)"
  using finite_float [of "py_get_default src k (PFloat dflt')" dflt' lo hi] by (auto simp: read_float_def)

lemma answers_read_bool [simp]: "answers (read_bool src k b c)"
  by (simp add: read_bool_def)

subsection \<open>Fields and runs of fields\<close>

named_theorems progress \<open>fields that give an answer on every finite dictionary\<close>

definition runs :: "field \<Rightarrow> bool" where
  "runs kf \<longleftrightarrow> (\<forall>d. finite_dict d \<longrightarrow> answers (snd kf d))"

lemma finite_apply_update: "finite_dict d \<Longrightarrow> finite_update u \<Longrightarrow> finite_dict (apply_update k u d)"
  by (cases u) simp_all

lemma run_fields_progress:
  "list_all runs fs \<Longrightarrow> finite_dict d \<Longrightarrow> \<exists>d' es. run_fields fs d = Inr (d', es) \<and> finite_dict d'"
proof (induction fs arbitrary: d)
  case (Cons kf fs)
  obtain k f where kf: "kf = (k, f)" by (cases kf)
  obtain u es where f: "f d = Inr (u, es)" "finite_update u"
    using Cons.prems answersD [of "f d"] by (auto simp: runs_def kf)
  obtain d' es' where "run_fields fs (apply_update k u d) = Inr (d', es')" "finite_dict d'"
    using Cons.IH [of "apply_update k u d"] Cons.prems f(2) finite_apply_update by auto
  then show ?case by (auto simp: kf run_fields_Cons f(1))
qed simp

lemma answers_built: "list_all (\<lambda>ka. answers (snd ka)) kas \<Longrightarrow> answers (built kas)"
proof -
  assume kas: "list_all (\<lambda>ka. answers (snd ka)) kas"
  have "list_all runs (map (\<lambda>(k, a). (k, \<lambda>_. a)) kas)"
    using kas by (auto simp: list_all_iff runs_def)
  from run_fields_progress [OF this, of "[]"] show ?thesis by (auto simp: built_def)
qed

lemma answers_guard [simp]: "finite_dict src \<Longrightarrow> answers (guard_answer src a b m n)"
  unfolding guard_answer_def by (rule answers_built) simp

lemma answers_arguments [simp]: "answers (arguments_answer v allow place)"
  by (simp add: arguments_answer_def split: sum.split)

lemma answers_section:
  assumes "list_all runs fs" and "finite_dict d"
  shows "answers (bind_result (run_fields fs d) (\<lambda>(d', es). Inr (Put (PDict d'), f es)))"
  using run_fields_progress [OF assms] by auto

lemma runs_generic [progress]:
  "float_fits lo \<Longrightarrow> float_fits hi \<Longrightarrow> runs (int_field k i lo hi)" "runs (float_field k r l h)" "runs (bool_field k a b)"
  "float_fits lo \<Longrightarrow> float_fits hi \<Longrightarrow> runs (optional_int k i lo hi)"
  by (simp_all add: runs_def int_field_def float_field_def bool_field_def optional_int_def answers_number)

lemma finite_open_section: "finite_dict d \<Longrightarrow> finite_dict (fst (open_section d k place))"
  using finite_get_default [of d "PDict []" k] by (cases "py_get_default d k (PDict [])") (auto simp: open_section_def)

lemma runs_nested: "list_all runs fs \<Longrightarrow> runs (nested k place fs)"
proof -
  assume fs: "list_all runs fs"
  have "answers (snd (nested k place fs) d)" if "finite_dict d" for d
    using answers_section [OF fs finite_open_section [OF that]] by (simp add: nested_def split_beta Let_def)
  then show ?thesis by (simp add: runs_def)
qed

subsection \<open>The sections\<close>

lemma runs_web: "list_all runs (web_fields env)" and runs_paths: "list_all runs paths_fields"
  by (simp_all add: web_fields_def paths_fields_def progress)
    (simp_all add: runs_def username_field_def secret_key_field_def secure_cookie_field_def allowed_hosts_field_def
      rp_id_field_def origin_field_def proxies_field_def roots_field_def hidden_field_def path_entry_def Let_def split_beta
      split: sum.split)

lemma runs_tuning_int [progress]: "float_fits lo \<Longrightarrow> float_fits hi \<Longrightarrow> runs (tuning_int k lo hi)"
  using number_int_bounds
  by (auto simp: runs_def tuning_int_def number_int_def float_fits_clamp split: sum.splits pyerr.splits)

lemma runs_stats_interval [progress]: "runs stats_interval_field"
  by (simp add: runs_def stats_interval_field_def Let_def)

lemma runs_tuning [progress]: "runs (nested k place tuning_fields)"
  by (rule runs_nested) (simp add: tuning_fields_def progress)

lemma runs_backup: "list_all runs (backup_fields env paths)"
  by (simp add: backup_fields_def progress)
    (auto simp: runs_def max_lock_field_def conflict_field_def overdue_field_def guard_field_def restore_test_field_def
      restore_schedule_answer_def timezone_field_def default_schedule_field_def global_arguments_field_def
      global_filter_field_def Let_def intro!: answers_built)

lemma runs_pair: "list_all runs (pair_fields x l sn si raw)"
proof -
  have guard: "runs (pair_guard_field b l)" for b l
    using answers_map [OF answers_guard] by (simp add: runs_def pair_guard_field_def Let_def)
  show ?thesis
    by (simp add: pair_fields_def Let_def progress guard)
      (auto simp: runs_def pair_name_field_def options_field_def remote_field_def local_field_def direction_field_def
        mode_field_def domain_field_def version_field_def last_version_field_def id_field_def dropped_schedule_field_def
        allow_empty_field_def mount_drop_field_def mountpoint_field_def sentinel_field_def forbidden_field_def
        present_bool_def present_text_def log_level_field_def pair_arguments_field_def filter_file_field_def
        rules_field_def Let_def split_beta split: option.split)
qed

lemma normalize_pairs_progress:
  "list_all finite_value vs \<Longrightarrow> \<exists>pairs es. normalize_pairs x i sn si vs = Inr (pairs, es)"
proof (induction vs arbitrary: i sn si)
  case (Cons v vs)
  show ?case
  proof (cases v)
    case (PDict raw)
    obtain pair es where pair: "normalize_pair x (indexed ''backup.pairs'' i) sn si raw = Inr (pair, es)"
      using run_fields_progress [OF runs_pair [of x "indexed ''backup.pairs'' i" sn si raw], of raw] Cons.prems PDict
      by (auto simp: normalize_pair_def)
    have "list_all finite_value vs" using Cons.prems by simp
    from Cons.IH [OF this, of "Suc i" "py_casefold (config_name raw) # sn" "str_at pair ''id'' # si"] show ?thesis
      by (auto simp: PDict pair)
  qed (use Cons.IH [of "Suc i" sn si] Cons.prems in auto)
qed simp

lemma job_fields_answer: "finite_dict job \<Longrightarrow> list_all (\<lambda>ka. answers (snd ka)) (job_fields y l sn si job)"
proof -
  assume job: "finite_dict job"
  have "answers (bind_result (read_int job ''max_parallel'' 1 1 16) (\<lambda>a. if b then put (PInt 1) else Inr a))" for b
    using answersD [OF answers_read_int [OF job, of 1 16 "''max_parallel''" 1]] by auto
  then show ?thesis using job by (simp add: job_fields_def Let_def)
qed

lemma normalize_jobs_progress:
  "list_all finite_value vs \<Longrightarrow> \<exists>jobs es. normalize_jobs y i sn si vs = Inr (jobs, es)"
proof (induction vs arbitrary: i sn si)
  case (Cons v vs)
  show ?case
  proof (cases v)
    case (PDict raw)
    have "list_all runs (map (\<lambda>(k, a). (k, \<lambda>_. a)) (job_fields y (indexed ''backup.jobs'' i) sn si raw))"
      using job_fields_answer [of raw y "indexed ''backup.jobs'' i" sn si] Cons.prems PDict
      by (auto simp: list_all_iff runs_def)
    from run_fields_progress [OF this, of "[]"]
    obtain job es where job: "normalize_job y (indexed ''backup.jobs'' i) sn si raw = Inr (job, es)"
      by (auto simp: normalize_job_def)
    have "list_all finite_value vs" using Cons.prems by simp
    from Cons.IH [OF this, of "Suc i" "py_casefold (config_name raw) # sn" "str_at job ''id'' # si"] show ?thesis
      by (auto simp: PDict job)
  qed (use Cons.IH [of "Suc i" sn si] Cons.prems in auto)
qed simp

lemma legacy_progress:
  assumes "finite_dict d" and "list_all finite_value vs"
  shows "\<exists>js. legacy_job_definitions uid (py_set d ''pairs'' (PList vs)) = Inr js \<and> list_all finite_value (map PDict js)"
proof -
  let ?b = "py_set d ''pairs'' (PList vs)"
  have "finite_value (py_or (py_get ?b ''scheduler_retry_minutes'') (PInt 60))"
    using assms(1) by (intro finite_or) simp_all
  then have "\<exists>i. legacy_retry_minutes ?b = Inr (clamp 1 10080 i)"
    using no_overflow by (auto simp: legacy_retry_minutes_def split: sum.split pyerr.split)
  then obtain r where "legacy_retry_minutes ?b = Inr r" and fits: "float_fits r" using float_fits_clamp [of 1 10080] by auto
  moreover have "finite_dict raw" if "raw \<in> set (mappings vs)" for raw
    using that assms(2) by (auto simp: in_mappings list_all_iff)
  then have "finite_value (PDict (legacy_definition uid s0 r raw))" if "raw \<in> set (mappings vs)" for s0 raw
    using that fits by (simp add: legacy_definition_def Let_def finite_dict_def [of "_ # _"])
  ultimately show ?thesis using \<open>legacy_retry_minutes ?b = Inr r\<close> by (auto simp: legacy_job_definitions_def Let_def list_all_iff)
qed

lemma raw_lists_finite:
  assumes "finite_dict d"
  shows "list_all finite_value (fst (raw_pairs d))"
    and "list_all finite_value (map PDict migrated) \<Longrightarrow> list_all finite_value (fst (raw_jobs e (py_get d k) migrated))"
    and "list_all finite_value (fst (raw_targets d))"
proof -
  have part: "list_all finite_value (take n vs)" if "finite_value (PList vs)" for n vs
    using that by (auto simp: list_all_iff dest: in_set_takeD)
  have "finite_value (py_or (py_get d ''pairs'') (PList []))" using assms by simp
  then show "list_all finite_value (fst (raw_pairs d))"
    using part by (cases "py_or (py_get d ''pairs'') (PList [])") (auto simp: raw_pairs_def)
  show "list_all finite_value (fst (raw_jobs e (py_get d k) migrated))" if "list_all finite_value (map PDict migrated)"
  proof -
    have "finite_value (if e then py_get d k else PList (map PDict migrated))" using assms that by simp
    then show ?thesis
      using part by (cases "if e then py_get d k else PList (map PDict migrated)") (auto simp: raw_jobs_def)
  qed
  have "finite_value (py_get_default d ''targets'' (PList []))" using assms by simp
  then show "list_all finite_value (fst (raw_targets d))"
    using part by (cases "py_get_default d ''targets'' (PList [])") (auto simp: raw_targets_def)
qed

lemma backup_progress:
  assumes "finite_dict raw"
  shows "\<exists>b es. backup_section env paths hidden raw = Inr (b, es)"
proof -
  obtain d es1 where d: "run_fields (backup_fields env paths) raw = Inr (d, es1)" "finite_dict d"
    using run_fields_progress [OF runs_backup assms] by blast
  obtain js where js: "legacy_job_definitions (v_uid env) (py_set d ''pairs'' (PList (fst (raw_pairs d)))) = Inr js"
      "list_all finite_value (map PDict js)"
    using legacy_progress [OF d(2) raw_lists_finite(1) [OF d(2)]] by blast
  obtain pairs es2 where pairs: "backup_paths env paths hidden d = Inr (pairs, es2)"
    using normalize_pairs_progress [OF raw_lists_finite(1) [OF d(2)], of _ 0 "[]" "[]"]
    by (auto simp: backup_paths_def split_beta) (metis prod.collapse)
  obtain jobs es3 where "backup_jobs env (has_key raw ''jobs'') js pairs (py_set d ''pairs'' (PList (map PDict pairs))) = Inr (jobs, es3)"
    using normalize_jobs_progress [OF raw_lists_finite(2) [OF d(2) js(2)], of _ 0 "[]" "[]"]
    by (auto simp: backup_jobs_def split_beta) (metis prod.collapse)
  then show ?thesis by (auto simp: backup_section_def d(1) js(1) pairs Let_def)
qed

lemma runs_maintenance: "list_all runs maintenance_fields"
  by (simp add: maintenance_fields_def progress)

lemma runs_service_texts [progress]:
  "runs (upper_field k)" "runs topic_field" "runs events_field" "runs (dropped_field k)" "runs webhooks_field"
  "runs repository_field" "runs (stripped_field k)" "runs (backup_id_field l)" "runs fingerprint_field"
  "runs password_field" "runs (keep_field k)"
  by (auto simp: runs_def upper_field_def topic_field_def events_field_def dropped_field_def webhooks_field_def
      repository_field_def stripped_field_def backup_id_field_def fingerprint_field_def password_field_def
      keep_field_def Let_def answers_number)

lemma runs_pbs_timeout [progress]: "runs pbs_timeout_field"
proof -
  have "answers (snd pbs_timeout_field d)" if "finite_dict d" for d
    using finite_float [of "py_get_default d ''timeout_hours'' (PInt 4)" 4 "1 / 10" 168] that
    by (auto simp: pbs_timeout_field_def)
  then show ?thesis by (simp add: runs_def)
qed

lemma runs_pbs: "list_all runs pbs_fields"
proof -
  have "runs (nested k place keep_fields)" for k place
    by (rule runs_nested) (simp add: keep_fields_def progress)
  then show ?thesis by (simp add: pbs_fields_def progress)
qed

lemma runs_target: "list_all runs (target_fields env pbs l sn si)"
  by (simp add: target_fields_def progress)
    (auto simp: runs_def target_name_field_def target_paths_field_def id_field_def target_schedule_field_def
      target_mount_field_def sentinel_field_def Let_def split_beta)

lemma normalize_targets_progress:
  "list_all finite_value vs \<Longrightarrow> \<exists>ts es. normalize_targets env pbs i sn si vs = Inr (ts, es)"
proof (induction vs arbitrary: i sn si)
  case (Cons v vs)
  show ?case
  proof (cases v)
    case (PDict raw)
    obtain target es where target: "run_fields (target_fields env pbs (indexed ''pbs.targets'' i) sn si) raw = Inr (target, es)"
      using run_fields_progress [OF runs_target [of env pbs "indexed ''pbs.targets'' i" sn si], of raw] Cons.prems PDict by auto
    have "list_all finite_value vs" using Cons.prems by simp
    from Cons.IH [OF this, of "Suc i" "py_casefold (config_name raw) # sn" "str_at target ''id'' # si"] show ?thesis
      by (auto simp: PDict target)
  qed (use Cons.IH [of "Suc i" sn si] Cons.prems in auto)
qed simp

lemma pbs_progress:
  assumes "finite_dict raw"
  shows "\<exists>b es. pbs_section env paths raw = Inr (b, es)"
proof -
  obtain d es1 where d: "run_fields pbs_fields raw = Inr (d, es1)" "finite_dict d"
    using run_fields_progress [OF runs_pbs assms] by blast
  obtain ts es2 where "normalize_targets env d 0 [] [] (fst (raw_targets d)) = Inr (ts, es2)"
    using normalize_targets_progress [OF raw_lists_finite(3) [OF d(2)]] by blast
  then show ?thesis by (auto simp: pbs_section_def d(1) split_beta Let_def)
qed

text \<open>The APNs settings: the key file is read before it is overwritten.\<close>

definition key_file_of :: "pyval \<Rightarrow> string" where
  "key_file_of v =
     text_of (py_get (as_dict (py_or (py_get (as_dict (py_get (as_dict v) ''notifications'')) ''apns'') (PDict []))) ''key_file'')"

lemma apns_progress:
  assumes "finite_dict d" and "\<not> has_any line_codes (text_of (py_get d ''key_file''))" and "\<forall>p. v_resolve env p \<noteq> None"
  shows "\<exists>d' es. run_fields (apns_fields env paths) d = Inr (d', es) \<and> finite_dict d'"
proof -
  let ?pre = "[bool_field ''enabled'' False False, upper_field ''team_id'', upper_field ''key_id'']"
  let ?post = "[topic_field, events_field, float_field ''timeout_seconds'' 10 1 30, float_field ''retention_hours'' 24 1 168,
      int_field ''max_attempts'' 8 1 20, lease_field env paths]"
  have split: "apns_fields env paths = ?pre @ (''key_file'', snd key_file_field) # ?post"
    by (simp add: apns_fields_def key_file_field_def)
  have pre: "list_all runs ?pre" by (simp add: progress)
  obtain d1 es1 where d1: "run_fields ?pre d = Inr (d1, es1)" "finite_dict d1"
    using run_fields_progress [OF pre assms(1)] by blast
  have same: "py_get d1 ''key_file'' = py_get d ''key_file''"
    by (rule run_fields_frame [OF d1(1)]) simp
  obtain kf where key: "snd key_file_field d1 = Inr (Put (PStr kf), [])"
    using assms(2) same by (auto simp: key_file_field_def clean_path_def put_def Let_def)
  have issues: "\<exists>es. enabled_apns_issues env paths d2 = Inr es" for d2
  proof -
    obtain p q where "v_resolve env (str_at d2 ''key_file'') = Some p" "v_resolve env (data_dir paths) = Some q"
      using assms(3) by blast
    then show ?thesis by (simp add: enabled_apns_issues_def key_file_issues_def)
  qed
  have "answers (snd (lease_field env paths) d2)" if fin: "finite_dict d2" for d2
  proof -
    obtain u es where "read_int d2 ''device_lease_days'' 7 1 90 = Inr (u, es)" "finite_update u"
      using answersD [OF answers_read_int [OF fin, of 1 90 "''device_lease_days''" 7]] by auto
    moreover obtain es' where "enabled_apns_issues env paths d2 = Inr es'" using issues by blast
    ultimately show ?thesis by (simp add: lease_field_def)
  qed
  then have post: "list_all runs ?post" by (simp add: progress) (simp add: runs_def)
  have "finite_dict (apply_update ''key_file'' (Put (PStr kf)) d1)" using d1(2) by simp
  from run_fields_progress [OF post this] show ?thesis
    unfolding split run_fields_append run_fields_Cons using d1(1) key by blast
qed

lemma notifications_progress:
  assumes "finite_dict d" and "\<not> has_any line_codes (text_of (py_get (as_dict (py_or (py_get d ''apns'') (PDict []))) ''key_file''))"
    and "\<forall>p. v_resolve env p \<noteq> None"
  shows "\<exists>d' es. run_fields (notification_fields env paths) d = Inr (d', es)"
proof -
  let ?pre = "[webhooks_field, dropped_field ''allow_http'', dropped_field ''allow_private_targets'',
      dropped_field ''timeout_seconds'', dropped_field ''max_parallel'']"
  have split: "notification_fields env paths = ?pre @ [(''apns'', snd (apns_field env paths))]"
    by (simp add: notification_fields_def apns_field_def)
  have pre: "list_all runs ?pre" by (simp add: progress)
  obtain d1 es1 where d1: "run_fields ?pre d = Inr (d1, es1)" "finite_dict d1"
    using run_fields_progress [OF pre assms(1)] by blast
  have same: "py_get d1 ''apns'' = py_get d ''apns''"
    by (rule run_fields_frame [OF d1(1)]) simp
  have fin: "finite_dict (as_dict (py_or (py_get d ''apns'') (PDict [])))" using assms(1) by simp
  obtain u es where "snd (apns_field env paths) d1 = Inr (u, es)"
    using apns_progress [OF fin assms(2,3), of paths] by (auto simp: apns_field_def same Let_def)
  then show ?thesis
    unfolding split run_fields_append using d1(1) by (simp add: run_fields_Cons)
qed

subsection \<open>The whole validation\<close>

lemma with_section_progress:
  assumes "finite_dict cfg"
    and "\<And>d. finite_dict d \<Longrightarrow> (py_get_default cfg k (PDict []) = PDict d \<or> d = []) \<Longrightarrow> \<exists>d' es. body d = Inr (d', es)"
  shows "\<exists>d' es. with_section cfg k body = Inr (d', es)"
proof -
  have "py_get_default cfg k (PDict []) = PDict (fst (open_section cfg k k)) \<or> fst (open_section cfg k k) = []"
    by (auto simp: open_section_def split: pyval.split)
  with assms(2) [OF finite_open_section [OF assms(1)]] show ?thesis
    by (auto simp: with_section_def split_beta)
qed

text \<open>C26: \<open>validate_config\<close> answers, with a configuration or with its list of errors, for every value without infinite
  numbers and integers too large for a double, whatever its shape, provided the APNs key file is text of one line and paths can be resolved. No
  other exception leaves it.\<close>

theorem validation_answers:
  assumes "finite_value v" and "\<not> has_any line_codes (key_file_of v)" and "\<forall>p. v_resolve env p \<noteq> None"
  shows "\<exists>verdict. validate_config env v = Inr verdict"
proof (cases v)
  case (PDict data)
  have fin: "finite_dict data" using assms(1) PDict by simp
  have "finite_value (py_or (py_get_default data ''schema_version'' (PInt 1)) (PInt 1))" using fin by simp
  from no_overflow [OF this] have "\<exists>n. schema_version data = Inr n"
    by (auto simp: schema_version_def split: sum.split pyerr.split)
  then obtain n where n: "schema_version data = Inr n" by blast
  note step = with_section_progress [OF fin]
  obtain web e1 where web: "with_section data ''web'' (run_fields (web_fields env)) = Inr (web, e1)"
    using step run_fields_progress [OF runs_web] by meson
  obtain paths e2 where paths: "with_section data ''paths'' (run_fields paths_fields) = Inr (paths, e2)"
    using step run_fields_progress [OF runs_paths] by meson
  obtain backup e3 where backup: "with_section data ''backup''
      (backup_section env paths (normalize_hidden_remote_paths (py_get web ''hidden_remote_paths''))) = Inr (backup, e3)"
    using step backup_progress by meson
  have key: "\<not> has_any line_codes (text_of (py_get (as_dict (py_or (py_get d ''apns'') (PDict []))) ''key_file''))"
    if "py_get_default data ''notifications'' (PDict []) = PDict d \<or> d = []" for d
    using that assms(2)
    by (auto simp: key_file_of_def PDict py_get_def py_get_default_def py_or_def has_any_def split: option.splits)
  obtain notifications e4 where notifications:
      "with_section data ''notifications'' (run_fields (notification_fields env paths)) = Inr (notifications, e4)"
    using step notifications_progress [OF _ key assms(3)] by meson
  obtain maintenance e5 where maintenance: "with_section data ''maintenance'' (run_fields maintenance_fields) = Inr (maintenance, e5)"
    using step run_fields_progress [OF runs_maintenance] by meson
  obtain pbs e6 where pbs: "with_section data ''pbs'' (pbs_section env paths) = Inr (pbs, e6)"
    using step pbs_progress by meson
  have "\<exists>s es. run_sections env data = Inr (s, es)"
    by (simp add: run_sections_def web paths backup notifications maintenance pbs)
  then show ?thesis by (auto simp: PDict validate_config_def validate_mapping_def n Let_def)
qed (simp_all add: validate_config_def)

end
