(* ===== verification/Config_Demo.thy ===== *)
theory Config_Demo
  imports Config_Progress
begin

text \<open>A small configuration of the old form on which the facts about accepted configurations are exercised: one data
  path that writes to a mounted disk, passkeys, and two PBS targets. It is evaluated once; the witnesses below
  apply each theorem to the result. The library functions are instances that answer for this configuration. The
  last part shows the two exceptions that leave the validation when the conditions of \<open>validation_answers\<close> are
  dropped.\<close>

definition demo_origin :: origin where
  "demo_origin = \<lparr>o_scheme = ''https'', o_host = Some ''backup.example.org'', o_user = None, o_password = None,
     o_path = [], o_query = [], o_fragment = []\<rparr>"

definition demo_config_env :: config_env where
  "demo_config_env = \<lparr>v_cron = (\<lambda>_. True), v_zone = (\<lambda>_. True), v_expand = Some,
     v_resolve = (\<lambda>p. Some (path_components p)), v_network = Some, v_origin = (\<lambda>_. Some demo_origin),
     v_uid = (\<lambda>_. replicate 32 (CHR ''a''))\<rparr>"

definition demo_path :: pydict where
  "demo_path = [(''name'', PStr ''Bilder''), (''remote'', PStr ''/mnt/usb/bilder''), (''local'', PStr ''/daten/bilder''),
     (''direction'', PStr ''push''), (''schedule'', PStr ''0 3 * * *''), (''min_remote_files'', PInt 1)]"

definition demo_target :: "string \<Rightarrow> string \<Rightarrow> char \<Rightarrow> pydict" where
  "demo_target name path c = [(''name'', PStr name), (''id'', PStr (replicate 32 c)), (''paths'', PList [PStr path]),
     (''backup_id'', PStr name)]"

definition demo_backup :: pydict where
  "demo_backup = [(''pairs'', PList [PDict demo_path])]"

definition demo_config :: pydict where
  "demo_config = [(''backup'', PDict demo_backup),
     (''web'', PDict [(''webauthn_rp_id'', PStr ''backup.example.org''),
        (''webauthn_origin'', PStr ''https://backup.example.org''), (''secure_cookie'', PBool True)]),
     (''pbs'', PDict [(''targets'', PList [PDict (demo_target ''fotos'' ''/srv/fotos'' (CHR ''b'')),
        PDict (demo_target ''musik'' ''/srv/musik'' (CHR ''c''))])])]"

text \<open>What the witnesses need to know of the result.\<close>

definition demo_facts :: "pydict \<Rightarrow> bool" where
  "demo_facts cfg \<longleftrightarrow>
     (case mappings_in cfg ''backup'' ''pairs'' of
        [pair] \<Rightarrow> truthy (py_get pair ''enabled'') \<and> is_absolute_local (str_at pair ''remote'') \<and>
          str_at pair ''direction'' = ''push''
      | _ \<Rightarrow> False) \<and>
     str_at (section_in cfg ''web'') ''webauthn_rp_id'' \<noteq> [] \<and>
     length (mappings_in cfg ''pbs'' ''targets'') = 2"

lemma demo_verdict:
  "case validate_config demo_config_env (PDict demo_config) of Inr (Inr (cfg, ws)) \<Rightarrow> demo_facts cfg | _ \<Rightarrow> False"
  by code_simp


lemma demo_accepted:
  obtains cfg ws pair where "validate_config demo_config_env (PDict demo_config) = Inr (Inr (cfg, ws))"
    "mappings_in cfg ''backup'' ''pairs'' = [pair]" "truthy (py_get pair ''enabled'')"
    "is_absolute_local (str_at pair ''remote'')" "str_at pair ''direction'' = ''push''"
    "str_at (section_in cfg ''web'') ''webauthn_rp_id'' \<noteq> []" "length (mappings_in cfg ''pbs'' ''targets'') = 2"
proof -
  obtain cfg ws where "validate_config demo_config_env (PDict demo_config) = Inr (Inr (cfg, ws))" "demo_facts cfg"
    using demo_verdict by (auto split: sum.splits)
  moreover from this(2) obtain pair where "mappings_in cfg ''backup'' ''pairs'' = [pair]" "truthy (py_get pair ''enabled'')"
      "is_absolute_local (str_at pair ''remote'')" "str_at pair ''direction'' = ''push''"
    unfolding demo_facts_def by (auto split: list.splits)
  moreover have "str_at (section_in cfg ''web'') ''webauthn_rp_id'' \<noteq> []" "length (mappings_in cfg ''pbs'' ''targets'') = 2"
    using \<open>demo_facts cfg\<close> unfolding demo_facts_def by blast+
  ultimately show ?thesis using that by blast
qed

lemma demo_uid_ok: "stable_id_ok (replicate 32 (CHR ''a''))"
  by code_simp

lemma demo_hex_uid: "hex_uid demo_config_env"
  using demo_uid_ok by (simp add: hex_uid_def demo_config_env_def)

section \<open>Witnesses\<close>

lemma accepted_config_has_schema_witness:
  "\<exists>cfg ws. validate_config demo_config_env (PDict demo_config) = Inr (Inr (cfg, ws)) \<and> has_type config_type (PDict cfg)"
  using accepted_config_has_schema [OF demo_hex_uid] demo_accepted by metis

lemma accepted_references_resolve_witness:
  "\<exists>cfg ws. validate_config demo_config_env (PDict demo_config) = Inr (Inr (cfg, ws)) \<and>
     distinct (map (\<lambda>p. str_at p ''id'') (mappings_in cfg ''backup'' ''pairs''))"
proof -
  obtain cfg ws where "validate_config demo_config_env (PDict demo_config) = Inr (Inr (cfg, ws))" using demo_accepted by metis
  with accepted_references_resolve [OF this] show ?thesis by blast
qed

lemma recovery_directories_stay_apart_witness:
  "\<exists>cfg ws. validate_config demo_config_env (PDict demo_config) = Inr (Inr (cfg, ws)) \<and>
     apart demo_config_env (text_at (section_in cfg ''paths'') ''recovery_dir'')
       (text_at (section_in cfg ''paths'') ''device_vault_dir'')"
proof -
  obtain cfg ws where ok: "validate_config demo_config_env (PDict demo_config) = Inr (Inr (cfg, ws))"
    using demo_accepted by metis
  have "''recovery_dir'' \<in> set recovery_keys" by (simp add: recovery_keys_def)
  with recovery_directories_stay_apart [OF ok this] ok show ?thesis by blast
qed

lemma local_targets_are_guarded_witness:
  "\<exists>cfg ws pair. validate_config demo_config_env (PDict demo_config) = Inr (Inr (cfg, ws)) \<and>
     mappings_in cfg ''backup'' ''pairs'' = [pair] \<and>
     (truthy (py_get pair ''allow_empty_remote_target'') \<or> (\<exists>n. py_get pair ''min_remote_files'' = PInt n \<and> 1 \<le> n))"
proof -
  obtain cfg ws pair where p: "validate_config demo_config_env (PDict demo_config) = Inr (Inr (cfg, ws))"
    "mappings_in cfg ''backup'' ''pairs'' = [pair]" "truthy (py_get pair ''enabled'')"
    "is_absolute_local (str_at pair ''remote'')" "str_at pair ''direction'' = ''push''"
    using demo_accepted by metis
  have "pair \<in> set (mappings_in cfg ''backup'' ''pairs'')" "str_at pair ''direction'' \<in> {''push'', ''bisync''}"
    using p by simp_all
  from local_targets_are_guarded [OF p(1) this(1) p(3,4) this(2)] p(1,2) show ?thesis by blast
qed

lemma accepted_arguments_are_safe_witness:
  "\<exists>cfg ws pair args. validate_config demo_config_env (PDict demo_config) = Inr (Inr (cfg, ws)) \<and>
     mappings_in cfg ''backup'' ''pairs'' = [pair] \<and>
     validate_rclone_args (py_get pair ''rclone_args'')
       (truthy (py_get (section_in cfg ''backup'') ''allow_unsafe_rclone_args'')) = Inr args"
proof -
  obtain cfg ws pair where p: "validate_config demo_config_env (PDict demo_config) = Inr (Inr (cfg, ws))"
    "mappings_in cfg ''backup'' ''pairs'' = [pair]"
    using demo_accepted by metis
  have "pair \<in> set (mappings_in cfg ''backup'' ''pairs'')" using p by simp
  from accepted_arguments_are_safe [OF p(1) this] p show ?thesis by blast
qed

lemma migrated_jobs_match_paths_witness:
  "\<exists>cfg ws. validate_config demo_config_env (PDict demo_config) = Inr (Inr (cfg, ws)) \<and>
     length (mappings_in cfg ''backup'' ''jobs'') = 1"
proof -
  obtain cfg ws where ok: "validate_config demo_config_env (PDict demo_config) = Inr (Inr (cfg, ws))"
    using demo_accepted by metis
  have "py_get demo_config ''backup'' = PDict demo_backup" "\<not> has_key demo_backup ''jobs''"
    "py_get demo_backup ''pairs'' = PList [PDict demo_path]"
    by (simp_all add: demo_config_def demo_backup_def py_get_def has_key_def)
  from migrated_jobs_match_paths [OF demo_hex_uid ok this] ok show ?thesis by auto
qed

lemma passkey_origin_is_secure_witness:
  "\<exists>cfg ws. validate_config demo_config_env (PDict demo_config) = Inr (Inr (cfg, ws)) \<and>
     py_get (section_in cfg ''web'') ''secure_cookie'' = PBool True"
proof -
  obtain cfg ws where ok: "validate_config demo_config_env (PDict demo_config) = Inr (Inr (cfg, ws))"
    "str_at (section_in cfg ''web'') ''webauthn_rp_id'' \<noteq> []"
    using demo_accepted by metis
  from passkey_origin_is_secure [OF this] ok(1) show ?thesis by blast
qed

lemma pbs_groups_are_distinct_witness:
  "\<exists>cfg ws. validate_config demo_config_env (PDict demo_config) = Inr (Inr (cfg, ws)) \<and>
     length (mappings_in cfg ''pbs'' ''targets'') = 2 \<and> distinct (map group_id (mappings_in cfg ''pbs'' ''targets''))"
proof -
  obtain cfg ws where ok: "validate_config demo_config_env (PDict demo_config) = Inr (Inr (cfg, ws))"
    "length (mappings_in cfg ''pbs'' ''targets'') = 2"
    using demo_accepted by metis
  then have "2 \<le> length (mappings_in cfg ''pbs'' ''targets'')" by simp
  from pbs_groups_are_distinct [OF ok(1) this] ok show ?thesis by blast
qed

lemma demo_config_finite: "finite_value (PDict demo_config) \<and> \<not> has_any line_codes (key_file_of (PDict demo_config))"
  by code_simp

lemma demo_env_resolves: "\<forall>p. v_resolve demo_config_env p \<noteq> None"
  by (simp add: demo_config_env_def)

lemma validation_answers_witness: "\<exists>verdict. validate_config demo_config_env (PDict demo_config) = Inr verdict"
  using validation_answers [of "PDict demo_config" demo_config_env] demo_config_finite demo_env_resolves by blast

section \<open>Exceptions that leave the validation\<close>

text \<open>An infinite number, which YAML and JSON both can express, ends in the \<open>OverflowError\<close> of \<open>int\<close>.\<close>

lemma infinite_number_escapes:
  "validate_config demo_config_env (PDict [(''web'', PDict [(''session_version'', PNonFin PosInf)])]) = Inl OverflowError"
  by code_simp

text \<open>A line break in the APNs key file ends in the \<open>ValueError\<close> of \<open>_clean_path\<close>.\<close>

definition escaped_value_error :: "verdict \<Rightarrow> bool" where
  "escaped_value_error r = (case r of Inl (ValueError _) \<Rightarrow> True | _ \<Rightarrow> False)"

lemma key_file_error_escapes:
  "escaped_value_error (validate_config demo_config_env
     (PDict [(''notifications'', PDict [(''apns'', PDict [(''key_file'', PStr (''a'' @ CHR 0x0A # ''b''))])])]))"
  by code_simp

text \<open>A number that is not a number becomes the largest allowed one.\<close>

lemma nan_becomes_the_maximum: "lo \<le> hi \<Longrightarrow> number_float (PNonFin NotANum) dflt lo hi = Inr hi"
  by (simp add: number_float_def clamp_def)

end
