(* ===== verification/Pair_Command.thy ===== *)
theory Pair_Command
  imports Rclone_Args Pair_Planner Config_Pairs
begin

text \<open>
  \<open>jobs/rclone_sync.py\<close>: from a data path to the rclone command line. Filters of every kind are compiled into one
  ordered list of rules that starts with the exclusion of the vault and recovery directories; a productive run
  that can delete needs the consent of the data path and a limit. The record \<open>command_env\<close> carries the
  files the code looks at, the clock and SHA-256.
\<close>

record command_env =
  c_cache :: string
  c_stamp :: string
  c_is_file :: "string \<Rightarrow> bool"
  c_size :: "string \<Rightarrow> nat"
  c_read :: "string \<Rightarrow> string result"
  c_sha256 :: "string \<Rightarrow> string"

subsection \<open>Reading the configuration\<close>

text \<open>\<open>_SnapshotConfig.get\<close>.\<close>

fun snapshot_get :: "pyval \<Rightarrow> string list \<Rightarrow> pyval \<Rightarrow> pyval" where
  "snapshot_get v [] dflt = v"
| "snapshot_get (PDict d) (k # ks) dflt = (case map_of d k of None \<Rightarrow> dflt | Some v \<Rightarrow> snapshot_get v ks dflt)"
| "snapshot_get v (k # ks) dflt = dflt"

text \<open>\<open>cfg.get("backup", default={}) or {}\<close>, which is then read with \<open>.get\<close>.\<close>

definition dict_or_empty :: "pyval \<Rightarrow> pydict result" where
  "dict_or_empty v = (case py_or v (PDict []) of PDict d \<Rightarrow> Inr d | _ \<Rightarrow> Inl AttributeError)"

definition backup_of :: "pydict \<Rightarrow> pydict result" where
  "backup_of cfg = dict_or_empty (snapshot_get (PDict cfg) [''backup''] (PDict []))"

definition required_text :: "pydict \<Rightarrow> string \<Rightarrow> string result" where
  "required_text d k = (case map_of d k of None \<Rightarrow> Inl (KeyError k) | Some v \<Rightarrow> Inr (py_str v))"

text \<open>\<open>str(pair.get(k) or dflt).lower().strip()\<close>.\<close>

definition word_at :: "pydict \<Rightarrow> string \<Rightarrow> string \<Rightarrow> string" where
  "word_at d k dflt = py_strip (py_lower (str_or (py_get d k) dflt))"

definition split_list :: "pyval \<Rightarrow> string list" where
  "split_list v =
     (if \<not> truthy v then []
      else filter (\<lambda>s. s \<noteq> [] \<and> \<not> py_startswith s ''#'')
             (map py_strip (case v of PList xs \<Rightarrow> map py_str xs | _ \<Rightarrow> split_lines (py_str v))))"

subsection \<open>Settings as flags\<close>

definition value_settings :: "(string \<times> string) list" where
  "value_settings = [(''transfers'', ''--transfers''), (''checkers'', ''--checkers''), (''retries'', ''--retries''),
     (''low_level_retries'', ''--low-level-retries''), (''tpslimit'', ''--tpslimit''),
     (''tpslimit_burst'', ''--tpslimit-burst''), (''max_transfer'', ''--max-transfer''),
     (''max_duration'', ''--max-duration''), (''contimeout'', ''--contimeout''), (''timeout'', ''--timeout''),
     (''bwlimit'', ''--bwlimit''), (''log_level'', ''--log-level'')]"

definition switch_settings :: "(string \<times> string) list" where
  "switch_settings = [(''fast_list'', ''--fast-list''), (''track_renames'', ''--track-renames''),
     (''metadata'', ''--metadata''), (''create_empty_src_dirs'', ''--create-empty-src-dirs''),
     (''ignore_existing'', ''--ignore-existing''), (''drive_acknowledge_abuse'', ''--drive-acknowledge-abuse'')]"

definition value_arg :: "pydict \<Rightarrow> string \<times> string \<Rightarrow> string list" where
  "value_arg d kf = (let v = py_get d (fst kf) in if is_blank v then [] else [snd kf @ ''='' @ py_str v])"

definition switch_arg :: "pydict \<Rightarrow> string \<times> string \<Rightarrow> string list" where
  "switch_arg d kf = (if truthy (py_get d (fst kf)) then [snd kf] else [])"

definition delete_args :: "pydict \<Rightarrow> string list" where
  "delete_args d = value_arg d (''max_delete'', ''--max-delete'') @ value_arg d (''max_delete_size'', ''--max-delete-size'') @
     switch_arg d (''delete_excluded'', ''--delete-excluded'')"

definition structured_args :: "pydict \<Rightarrow> string \<Rightarrow> string list" where
  "structured_args d verb =
     concat (map (value_arg d) value_settings) @
     (if verb \<in> {''sync'', ''bisync''} then delete_args d else []) @
     concat (map (switch_arg d) switch_settings) @
     (if truthy (py_get d ''ignore_errors'') \<and> truthy (py_get d ''allow_unsafe_flags'') then [''--ignore-errors''] else [])"

text \<open>\<open>_structured_rclone_args\<close> of a value that need not be a mapping.\<close>

definition structured_rclone_args :: "pyval \<Rightarrow> string \<Rightarrow> string list" where
  "structured_rclone_args v verb = (case v of PDict d \<Rightarrow> structured_args d verb | _ \<Rightarrow> [])"

definition global_verb_args :: "pydict \<Rightarrow> string \<Rightarrow> string list" where
  "global_verb_args backup verb =
     (let bwlimit = text_of (py_get backup ''bwlimit'');
          conflict = py_lower (py_strip (str_or (py_get backup ''conflict_resolve'') ''auto''));
          max_lock = py_strip (str_or (py_get backup ''max_lock'') ''2m'')
      in (if bwlimit \<noteq> [] then [''--bwlimit'', bwlimit] else []) @
         switch_arg backup (''immutable'', ''--immutable'') @
         (if verb = ''bisync'' then
            (if conflict \<notin> {[], ''auto'', ''none''} then [''--conflict-resolve'', conflict] else []) @
            (if truthy (py_get_default backup ''resilient'' (PBool True)) then [''--resilient''] else []) @
            (if truthy (py_get_default backup ''recover'' (PBool True)) then [''--recover''] else []) @
            (if max_lock \<noteq> [] then [''--max-lock'', max_lock] else [])
          else []))"

subsection \<open>Backup directories\<close>

definition resolve_backup_path :: "string \<Rightarrow> string \<Rightarrow> string \<Rightarrow> string" where
  "resolve_backup_path base spec stamp =
     (let resolved = py_replace ''{date}'' stamp spec in
      if is_remote resolved \<or> py_startswith resolved ''/'' then resolved
      else if base \<noteq> [] \<and> last base \<in> {slash, colon} then base @ resolved
      else base @ [slash] @ resolved)"

text \<open>\<open>str(pair.get(k) or backup.get(k) or "").strip()\<close>.\<close>

definition own_or_global :: "pydict \<Rightarrow> pydict \<Rightarrow> string \<Rightarrow> string" where
  "own_or_global pair backup k = py_strip (str_or (py_or (py_get pair k) (py_get backup k)) [])"

definition backup_dir_args :: "command_env \<Rightarrow> pydict \<Rightarrow> pydict \<Rightarrow> string \<Rightarrow> string \<Rightarrow> string \<Rightarrow> string list" where
  "backup_dir_args env backup pair verb src dst =
     (let generic = own_or_global pair backup ''backup_dir'';
          shared = (if generic \<noteq> [] \<and> \<not> (is_remote generic \<or> py_startswith generic ''/'') then generic else []);
          dir1 = own_or_global pair backup ''backup_dir1''; dir2 = own_or_global pair backup ''backup_dir2'';
          d1 = (if dir1 = [] then shared else dir1); d2 = (if dir2 = [] then shared else dir2)
      in if verb = ''bisync'' then
           (if d1 \<noteq> [] then [''--backup-dir1'', resolve_backup_path src d1 (c_stamp env)] else []) @
           (if d2 \<noteq> [] then [''--backup-dir2'', resolve_backup_path dst d2 (c_stamp env)] else [])
         else if generic \<noteq> [] then [''--backup-dir'', resolve_backup_path dst generic (c_stamp env)]
         else [])"

subsection \<open>Flags that take one value\<close>

definition single_value_flags :: "string list" where
  "single_value_flags = [''--bwlimit'', ''--checkers'', ''--conflict-resolve'', ''--contimeout'', ''--log-level'',
     ''--low-level-retries'', ''--max-delete'', ''--max-delete-size'', ''--max-duration'', ''--max-lock'',
     ''--max-transfer'', ''--retries'', ''--timeout'', ''--tpslimit'', ''--tpslimit-burst'', ''--transfers'']"

text \<open>The tokens in chunks: a flag with its value, or a token of its own.\<close>

fun chunks :: "string list \<Rightarrow> (string option \<times> string list) list" where
  "chunks [] = []"
| "chunks [t] = [(if flag_name t \<in> set single_value_flags then Some (flag_name t) else None, [t])]"
| "chunks (t # u # ts) =
     (if flag_name t \<notin> set single_value_flags then (None, [t]) # chunks (u # ts)
      else if CHR ''='' \<in> set t then (Some (flag_name t), [t]) # chunks (u # ts)
      else (Some (flag_name t), [t, u]) # chunks ts)"

fun last_chunks :: "(string option \<times> string list) list \<Rightarrow> string list" where
  "last_chunks [] = []"
| "last_chunks ((f, ts) # cs) = (if f \<noteq> None \<and> f \<in> set (map fst cs) then last_chunks cs else ts @ last_chunks cs)"

definition dedupe_args :: "string list \<Rightarrow> string list" where
  "dedupe_args args = last_chunks (chunks args)"

subsection \<open>Filters\<close>

definition reserved_rules :: "string list" where
  "reserved_rules = [''- /Sicherpfad/**'', ''- /.sicherpfad-snapshots/**'', ''- /.rclone-versions/**'']"

definition filter_groups :: "string list" where
  "filter_groups = [''--include'', ''--include-from'', ''--exclude'', ''--exclude-from'', ''--filter'', ''--filter-from'']"

definition from_groups :: "string list" where
  "from_groups = [''--include-from'', ''--exclude-from'', ''--filter-from'']"

definition files_from_flags :: "string list" where
  "files_from_flags = [''--files-from'', ''--files-from-raw'', ''--files-from0'']"

definition rule_lines :: "string \<Rightarrow> string list" where
  "rule_lines s = filter (\<lambda>l. l \<noteq> [] \<and> \<not> py_startswith l ''#'' \<and> \<not> py_startswith l '';'') (map py_strip (split_lines s))"

text \<open>The values one filter flag contributes: its own, or the lines of its file.\<close>

definition group_values :: "command_env \<Rightarrow> string \<Rightarrow> string \<Rightarrow> string list result" where
  "group_values env grp v =
     (if grp \<in> set from_groups then
        (if v = ''-'' \<or> \<not> c_is_file env v \<or> 1048576 < c_size env v then Inl (ValueError ''Filterdatei'')
         else bind_result (c_read env v) (\<lambda>s. Inr (rule_lines s)))
      else Inr [py_strip v])"

definition forbidden_filter :: "string \<Rightarrow> bool" where
  "forbidden_filter t \<longleftrightarrow>
     flag_name t \<in> set files_from_flags \<or>
     flag_name t = ''--delete-excluded'' \<and> (CHR ''='' \<notin> set t \<or> py_lower (after_char (CHR ''='') t) \<notin> {''false'', ''0''})"

definition group_of :: "string \<Rightarrow> string" where
  "group_of t = (if flag_name t = ''--filters-file'' then ''--filter-from'' else flag_name t)"

type_synonym scanned = "(string \<times> string) list \<times> string list"

definition add_values :: "string \<Rightarrow> string list \<Rightarrow> scanned \<Rightarrow> scanned" where
  "add_values grp vs r = (map (Pair grp) vs @ fst r, snd r)"

text \<open>The scan over the arguments: the values of each group in order, and the tokens that are no filters.\<close>

fun scan_filters :: "command_env \<Rightarrow> string list \<Rightarrow> scanned result" where
  "scan_filters env [] = Inr ([], [])"
| "scan_filters env (t # ts) =
     (if forbidden_filter t then Inl (ValueError ''Vault-Schutz'')
      else if group_of t \<notin> set filter_groups then bind_result (scan_filters env ts) (\<lambda>r. Inr (fst r, t # snd r))
      else if CHR ''='' \<in> set t then
        bind_result (group_values env (group_of t) (after_char (CHR ''='') t)) (\<lambda>vs.
        bind_result (scan_filters env ts) (\<lambda>r. Inr (add_values (group_of t) vs r)))
      else (case ts of
          [] \<Rightarrow> Inl (ValueError ''Wert fehlt'')
        | v # us \<Rightarrow> bind_result (group_values env (group_of t) v) (\<lambda>vs.
            bind_result (scan_filters env us) (\<lambda>r. Inr (add_values (group_of t) vs r)))))"

definition values_of :: "string \<Rightarrow> (string \<times> string) list \<Rightarrow> string list" where
  "values_of grp vs = map snd (filter (\<lambda>gv. fst gv = grp) vs)"

definition ordered_groups :: "string list" where
  "ordered_groups = [''--exclude'', ''--exclude-from'', ''--filter'', ''--filter-from'', ''--include'', ''--include-from'']"

definition rule_of :: "string \<Rightarrow> string \<Rightarrow> string" where
  "rule_of grp v =
     (if py_startswith grp ''--filter'' then v
      else if py_startswith grp ''--include'' then ''+ '' @ v else ''- '' @ v)"

definition user_rules :: "(string \<times> string) list \<Rightarrow> string list" where
  "user_rules vs = concat (map (\<lambda>g. map (rule_of g) (values_of g vs)) ordered_groups)"

definition resets_filters :: "(string \<times> string) list \<Rightarrow> bool" where
  "resets_filters vs \<longleftrightarrow> list_ex (\<lambda>gv. py_startswith (fst gv) ''--filter'' \<and> snd gv = ''!'') vs"

definition compiled_rules :: "(string \<times> string) list \<Rightarrow> string list" where
  "compiled_rules vs =
     dedup (reserved_rules @ user_rules vs @
       (if values_of ''--include'' vs \<noteq> [] \<or> values_of ''--include-from'' vs \<noteq> [] then [''- **''] else []))"

definition filter_flags :: "string list \<Rightarrow> string list" where
  "filter_flags rules = concat (map (\<lambda>r. [''--filter'', r]) rules)"

definition protected_filter_args :: "command_env \<Rightarrow> string list \<Rightarrow> string list result" where
  "protected_filter_args env args =
     bind_result (normalize_filter_aliases args) (\<lambda>ts.
     bind_result (scan_filters env ts) (\<lambda>r.
       if resets_filters (fst r) then Inl (ValueError ''Filter-Reset'')
       else Inr (snd r @ filter_flags (compiled_rules (fst r)))))"

text \<open>\<open>_filter_args\<close>: the filters of the data path; its filter file replaces the global one.\<close>

definition sign_stripped :: "string \<Rightarrow> string \<Rightarrow> string" where
  "sign_stripped sign p = (if py_startswith p sign then py_strip (drop 2 p) else p)"

definition listed_filters :: "pydict \<Rightarrow> string list" where
  "listed_filters pair =
     concat (map (\<lambda>p. [''--include'', sign_stripped ''+ '' p]) (split_list (py_get pair ''include''))) @
     concat (map (\<lambda>p. [''--exclude'', sign_stripped ''- '' p]) (split_list (py_get pair ''exclude''))) @
     concat (map (\<lambda>r. [''--filter'', r]) (split_list (py_get pair ''filter'')))"

definition file_filter :: "command_env \<Rightarrow> string \<Rightarrow> string \<Rightarrow> string list result" where
  "file_filter env flag v =
     (if v = [] then Inr [] else if \<not> c_is_file env v then Inl (ValueError ''nicht gefunden'') else Inr [flag, v])"

definition filter_args :: "command_env \<Rightarrow> pydict \<Rightarrow> pydict \<Rightarrow> string \<Rightarrow> string list result" where
  "filter_args env cfg pair verb =
     bind_result (file_filter env ''--include-from'' (text_of (py_get pair ''include_file''))) (\<lambda>a.
     bind_result (file_filter env ''--exclude-from'' (text_of (py_get pair ''exclude_file''))) (\<lambda>b.
     bind_result (file_filter env (if verb = ''bisync'' then ''--filters-file'' else ''--filter-from'')
         (text_of (py_or (py_get pair ''filter_file'') (snapshot_get (PDict cfg) [''backup'', ''filter_file''] (PStr []))))) (\<lambda>c.
       protected_filter_args env (listed_filters pair @ a @ b @ c))))"

subsection \<open>The rules file of a bisync\<close>

fun take_rules :: "string list \<Rightarrow> (string list \<times> string list) result" where
  "take_rules [] = Inr ([], [])"
| "take_rules (t # ts) =
     (if t = ''--filter'' then
        (case ts of [] \<Rightarrow> Inl IndexError
         | r # us \<Rightarrow> bind_result (take_rules us) (\<lambda>q. Inr (r # fst q, snd q)))
      else bind_result (take_rules ts) (\<lambda>q. Inr (fst q, t # snd q)))"

record rules_file =
  rf_path :: string
  rf_content :: string

definition filter_snapshot :: "command_env \<Rightarrow> pydict \<Rightarrow> string list \<Rightarrow> (string list \<times> rules_file) result" where
  "filter_snapshot env cfg args =
     bind_result (take_rules args) (\<lambda>q.
       let content = py_join [CHR 0x0A] (fst q) @ [CHR 0x0A];
           dir = posix_join (py_str (snapshot_get (PDict cfg) [''paths'', ''data_dir''] (PStr ''/opt/rclone-sync/data''))) ''.protected-filters'';
           path = posix_join dir (c_sha256 env content @ ''.txt'')
       in Inr (snd q @ [''--filters-file'', path], \<lparr>rf_path = path, rf_content = content\<rparr>))"

subsection \<open>The command\<close>

definition cache_args :: "command_env \<Rightarrow> string \<Rightarrow> string list" where
  "cache_args env verb =
     [''--cache-dir'', c_cache env] @
     (if verb = ''bisync'' then [''--workdir'', posix_join (c_cache env) ''bisync''] else [])"

definition copy_verb :: "string \<Rightarrow> string" where
  "copy_verb mode = (if mode = ''sync'' then ''sync'' else ''copy'')"

text \<open>Verb, source, target and mode.\<close>

definition plan_of :: "string \<Rightarrow> string \<Rightarrow> string \<Rightarrow> string \<Rightarrow> (string \<times> string \<times> string \<times> string) result" where
  "plan_of direction mode remote local =
     (if direction = ''bisync'' then Inr (''bisync'', remote, local, ''bisync'')
      else if direction = ''pull'' then Inr (copy_verb mode, remote, local, mode)
      else if direction = ''push'' then Inr (copy_verb mode, local, remote, mode)
      else Inl (ValueError ''direction''))"

definition unlimited :: "pyval \<Rightarrow> bool" where
  "unlimited v \<longleftrightarrow> is_blank v \<or> v = PInt (- 1) \<or> v = PFloat (- 1) \<or> v = PStr ''-1''"

text \<open>A productive run that can delete.\<close>

definition delete_guard :: "pydict \<Rightarrow> pydict \<Rightarrow> unit result" where
  "delete_guard backup pair =
     (if truthy (py_get_default backup ''require_delete_confirmation'' (PBool True)) \<and> \<not> truthy (py_get pair ''allow_delete'')
        then Inl (ValueError ''allow_delete fehlt'')
      else bind_result (dict_or_empty (py_get backup ''tuning'')) (\<lambda>tuning.
        if truthy (py_get_default backup ''require_max_delete_for_sync'' (PBool True)) \<and>
            unlimited (py_get_default pair ''max_delete'' (py_get tuning ''max_delete''))
        then Inl (ValueError ''max_delete fehlt'') else Inr ()))"

record rclone_command =
  k_cmd :: "string list"
  k_verb :: string
  k_direction :: string
  k_mode :: string
  k_rules :: "rules_file option"

definition may_delete :: "string \<Rightarrow> bool" where
  "may_delete verb \<longleftrightarrow> verb \<in> {''sync'', ''bisync''}"

text \<open>The arguments before the filters are compiled.\<close>

definition effective_args ::
  "command_env \<Rightarrow> pydict \<Rightarrow> pydict \<Rightarrow> pydict \<Rightarrow> string list \<Rightarrow> string \<Rightarrow> string \<Rightarrow> string \<Rightarrow> string list result" where
  "effective_args env cfg backup pair base verb src dst =
     (let unsafe = truthy (py_get backup ''allow_unsafe_rclone_args'') in
      bind_result (validate_parsed_rclone_args base unsafe) (\<lambda>checked.
      bind_result (filter_args env cfg pair verb) (\<lambda>filters.
      bind_result (validate_rclone_args (py_get pair ''rclone_args'') unsafe) (\<lambda>own.
        Inr (dedupe_args (checked @ global_verb_args backup verb @
          structured_rclone_args (py_or (py_get backup ''tuning'') (PDict [])) verb @ structured_args pair verb @
          filters @ own @ backup_dir_args env backup pair verb src dst))))))"

definition stats_interval_of :: "pydict \<Rightarrow> string result" where
  "stats_interval_of backup =
     bind_result (dict_or_empty (py_get backup ''tuning'')) (\<lambda>tuning. Inr (str_or (py_get tuning ''stats_interval'') ''10s''))"

definition build_pair_command :: "command_env \<Rightarrow> pydict \<Rightarrow> pydict \<Rightarrow> string list \<Rightarrow> bool \<Rightarrow> rclone_command result" where
  "build_pair_command env cfg pair base dry =
     bind_result (required_text pair ''remote'') (\<lambda>remote.
     bind_result (required_text pair ''local'') (\<lambda>local.
     bind_result (backup_of cfg) (\<lambda>backup.
     let direction = word_at pair ''direction'' ''bisync'' in
     bind_result (plan_of direction (word_at pair ''mode'' ''bisync'') remote local) (\<lambda>(verb, src, dst, mode).
     bind_result (if may_delete verb \<and> \<not> dry then delete_guard backup pair else Inr ()) (\<lambda>_.
     bind_result (effective_args env cfg backup pair base verb src dst) (\<lambda>args0.
     bind_result (protected_filter_args env args0) (\<lambda>args1.
     bind_result (if verb = ''bisync'' then bind_result (filter_snapshot env cfg args1) (\<lambda>(a, f). Inr (a, Some f))
                  else Inr (args1, None)) (\<lambda>(args, rules).
     bind_result (stats_interval_of backup) (\<lambda>interval.
       let cmd = [''rclone'', verb] @ cache_args env verb @ [''--stats'', interval, ''--stats-one-line''] @ args
       in Inr \<lparr>k_cmd = cmd @ (if dry \<and> ''--dry-run'' \<notin> set cmd then [''--dry-run''] else []) @ [''--'', src, dst],
               k_verb = verb, k_direction = direction, k_mode = mode, k_rules = rules\<rparr>)))))))))"

end
