(* ===== verification/Command_Theorems.thy ===== *)
theory Command_Theorems
  imports Pair_Command
begin

text \<open>
  What the built command guarantees: the exclusions of the vault and the recovery copies are the first filter rules
  and nothing takes them back, and the limit on deletions reaches rclone.
\<close>

section \<open>Order of the rules\<close>

lemma remdups_snoc: "remdups (xs @ [x]) = remdups (filter (\<lambda>y. y \<noteq> x) xs) @ [x]"
  by (induction xs) auto

lemma dedup_Nil [simp]: "dedup [] = []"
  by (simp add: dedup_def)

lemma dedup_Cons: "dedup (x # xs) = x # dedup (filter (\<lambda>y. y \<noteq> x) xs)"
  by (simp add: dedup_def remdups_snoc rev_filter)

lemma set_dedup [simp]: "set (dedup xs) = set xs"
  by (simp add: dedup_def)

lemma reserved_first: "\<exists>us. compiled_rules vs = reserved_rules @ us"
  by (simp add: compiled_rules_def reserved_rules_def dedup_Cons)

lemma in_values_of: "v \<in> set (values_of g vs) \<longleftrightarrow> (g, v) \<in> set vs"
  by (force simp: values_of_def)

lemma rule_is_no_reset:
  assumes "\<not> resets_filters vs" and "(g, v) \<in> set vs"
  shows "rule_of g v \<noteq> ''!''"
  using assms by (auto simp: rule_of_def resets_filters_def list_ex_iff)

lemma compiled_no_reset:
  assumes "\<not> resets_filters vs"
  shows "''!'' \<notin> set (compiled_rules vs)"
proof
  assume "''!'' \<in> set (compiled_rules vs)"
  then have "''!'' \<in> set (user_rules vs)" by (auto simp: compiled_rules_def reserved_rules_def split: if_splits)
  then obtain g v where "''!'' = rule_of g v" "(g, v) \<in> set vs" by (auto simp: user_rules_def in_values_of)
  with rule_is_no_reset [OF assms this(2)] show False by simp
qed

subsection \<open>What is left besides the filters\<close>

definition no_filter :: "string \<Rightarrow> bool" where
  "no_filter t \<longleftrightarrow> group_of t \<notin> set filter_groups \<and> flag_name t \<notin> set files_from_flags"

lemma scan_rest: "scan_filters env ts = Inr r \<Longrightarrow> list_all no_filter (snd r)"
proof (induction env ts arbitrary: r rule: scan_filters.induct)
  case (2 env t ts)
  have ok: "\<not> forbidden_filter t" using "2.prems" by auto
  show ?case
  proof (cases "group_of t \<in> set filter_groups")
    case False
    then obtain q where q: "scan_filters env ts = Inr q" "r = (fst q, t # snd q)" using "2.prems" ok by auto
    have "list_all no_filter (snd q)" by (rule "2.IH"(1) [OF ok False q(1)])
    moreover have "no_filter t" using False ok by (simp add: no_filter_def forbidden_filter_def)
    ultimately show ?thesis using q(2) by simp
  next
    case grp: True
    show ?thesis
    proof (cases "CHR ''='' \<in> set t")
      case True
      then obtain vs q where q: "group_values env (group_of t) (after_char (CHR ''='') t) = Inr vs" "scan_filters env ts = Inr q"
          "r = add_values (group_of t) vs q"
        using "2.prems" ok grp by auto
      then show ?thesis using "2.IH"(2) [OF ok _ True q(2)] grp by (simp add: add_values_def)
    next
      case False
      then obtain v us vs q where q: "ts = v # us" "group_values env (group_of t) v = Inr vs" "scan_filters env us = Inr q"
          "r = add_values (group_of t) vs q"
        using "2.prems" ok grp by (auto split: list.splits)
      then show ?thesis using "2.IH"(3) [OF ok _ False q(1,3)] grp by (simp add: add_values_def)
    qed
  qed
qed simp

lemma flag_name_filter [simp]: "flag_name ''--filter'' = ''--filter''" "flag_name ''--filters-file'' = ''--filters-file''"
  by (simp_all add: flag_name_def before_char_def)

lemma filter_is_filter: "\<not> no_filter ''--filter''" "\<not> no_filter ''--filters-file''"
  by (simp_all add: no_filter_def group_of_def filter_groups_def)

lemma take_rules_filter_flags: "take_rules (filter_flags rules) = Inr (rules, [])"
  by (induction rules) (simp_all add: filter_flags_def)

lemma take_rules_protected:
  "list_all no_filter rest \<Longrightarrow> take_rules (rest @ filter_flags rules) = Inr (rules, rest)"
  using filter_is_filter by (induction rest) (auto simp: take_rules_filter_flags)

lemma protected_result:
  assumes "protected_filter_args env args = Inr out"
  obtains rest vs where "out = rest @ filter_flags (compiled_rules vs)" and "list_all no_filter rest" and "\<not> resets_filters vs"
proof -
  obtain ts r where scan: "scan_filters env ts = Inr r" and r: "\<not> resets_filters (fst r)"
      "out = snd r @ filter_flags (compiled_rules (fst r))"
    using assms by (auto simp: protected_filter_args_def split: if_splits)
  from that [OF r(2) scan_rest [OF scan] r(1)] show ?thesis .
qed

section \<open>The vault stays out\<close>

text \<open>The documented meaning of the rule list: the first rule whose pattern matches a path decides, and a path that no
  rule matches is copied.\<close>

fun included :: "(string \<Rightarrow> string \<Rightarrow> bool) \<Rightarrow> string list \<Rightarrow> string \<Rightarrow> bool" where
  "included fits [] p = True"
| "included fits (r # rs) p = (if fits (drop 2 r) p then py_startswith r ''+ '' else included fits rs p)"

lemma first_rules_exclude:
  "list_all (\<lambda>r. \<not> py_startswith r ''+ '') rs \<Longrightarrow> \<exists>r \<in> set rs. fits (drop 2 r) p \<Longrightarrow> \<not> included fits (rs @ us) p"
  by (induction rs) auto

definition command_head :: "command_env \<Rightarrow> string \<Rightarrow> string \<Rightarrow> string list" where
  "command_head env verb interval = [''rclone'', verb] @ cache_args env verb @ [''--stats'', interval, ''--stats-one-line'']"

definition command_tail :: "bool \<Rightarrow> string \<Rightarrow> string \<Rightarrow> string list" where
  "command_tail dry src dst = (if dry then [''--dry-run''] else []) @ [''--'', src, dst]"

text \<open>Taking a successful build apart.\<close>

lemma build_parts:
  assumes "build_pair_command env cfg pair base dry = Inr k"
  obtains remote local backup src dst mode args0 rest vs interval dry'
  where "required_text pair ''remote'' = Inr remote" "required_text pair ''local'' = Inr local" "backup_of cfg = Inr backup"
    "plan_of (word_at pair ''direction'' ''bisync'') (word_at pair ''mode'' ''bisync'') remote local = Inr (k_verb k, src, dst, mode)"
    "may_delete (k_verb k) \<Longrightarrow> \<not> dry \<Longrightarrow> delete_guard backup pair = Inr ()"
    "effective_args env cfg backup pair base (k_verb k) src dst = Inr args0"
    "protected_filter_args env args0 = Inr (rest @ filter_flags (compiled_rules vs))"
    "list_all no_filter rest" "\<not> resets_filters vs" "stats_interval_of backup = Inr interval"
    "k_direction k = word_at pair ''direction'' ''bisync''" "k_mode k = mode" "dry' \<Longrightarrow> dry"
    "dry \<Longrightarrow> ''--dry-run'' \<in> set (k_cmd k)"
    "if k_verb k = ''bisync'' then
       (\<exists>path. k_rules k = Some \<lparr>rf_path = path, rf_content = py_join [CHR 0x0A] (compiled_rules vs) @ [CHR 0x0A]\<rparr> \<and>
         k_cmd k = command_head env (k_verb k) interval @ rest @ [''--filters-file'', path] @ command_tail dry' src dst)
     else k_rules k = None \<and>
       k_cmd k = command_head env (k_verb k) interval @ rest @ filter_flags (compiled_rules vs) @ command_tail dry' src dst"
proof -
  obtain remote local backup verb src dst mode args0 args1 args rules interval where
    parts: "required_text pair ''remote'' = Inr remote" "required_text pair ''local'' = Inr local" "backup_of cfg = Inr backup"
      "plan_of (word_at pair ''direction'' ''bisync'') (word_at pair ''mode'' ''bisync'') remote local = Inr (verb, src, dst, mode)"
      "(if may_delete verb \<and> \<not> dry then delete_guard backup pair else Inr ()) = Inr ()"
      "effective_args env cfg backup pair base verb src dst = Inr args0" "protected_filter_args env args0 = Inr args1"
      "(if verb = ''bisync'' then bind_result (filter_snapshot env cfg args1) (\<lambda>(a, f). Inr (a, Some f))
        else Inr (args1, None)) = Inr (args, rules)"
      "stats_interval_of backup = Inr interval"
    and k: "k = (let cmd = command_head env verb interval @ args in
      \<lparr>k_cmd = cmd @ (if dry \<and> ''--dry-run'' \<notin> set cmd then [''--dry-run''] else []) @ [''--'', src, dst],
       k_verb = verb, k_direction = word_at pair ''direction'' ''bisync'', k_mode = mode, k_rules = rules\<rparr>)"
    using assms unfolding build_pair_command_def Let_def command_head_def
    by (simp only: bind_result_Inr Let_def split: prod.splits) (auto split: prod.splits)
  obtain rest vs where args1: "args1 = rest @ filter_flags (compiled_rules vs)" "list_all no_filter rest" "\<not> resets_filters vs"
    using protected_result [OF parts(7)] by blast
  define dry' where "dry' \<longleftrightarrow> dry \<and> ''--dry-run'' \<notin> set (command_head env verb interval @ args)"
  have "if verb = ''bisync'' then
       (\<exists>path. rules = Some \<lparr>rf_path = path, rf_content = py_join [CHR 0x0A] (compiled_rules vs) @ [CHR 0x0A]\<rparr> \<and>
         args = rest @ [''--filters-file'', path])
     else rules = None \<and> args = args1"
    using parts(8) take_rules_protected [OF args1(2)] by (auto simp: args1(1) filter_snapshot_def Let_def)
  then have shape: "if verb = ''bisync'' then
       (\<exists>path. k_rules k = Some \<lparr>rf_path = path, rf_content = py_join [CHR 0x0A] (compiled_rules vs) @ [CHR 0x0A]\<rparr> \<and>
         k_cmd k = command_head env verb interval @ rest @ [''--filters-file'', path] @ command_tail dry' src dst)
     else k_rules k = None \<and>
       k_cmd k = command_head env verb interval @ rest @ filter_flags (compiled_rules vs) @ command_tail dry' src dst"
    by (auto simp: k Let_def args1(1) command_tail_def dry'_def split: if_splits)
  have kv: "k_verb k = verb" "k_direction k = word_at pair ''direction'' ''bisync''" "k_mode k = mode"
    by (simp_all add: k Let_def)
  show ?thesis
    by (rule that [of remote local backup src dst mode args0 rest vs interval dry'])
      (use parts args1 shape in \<open>auto simp: kv dry'_def, auto simp: k Let_def\<close>)
qed


section \<open>The limit on deletions\<close>

text \<open>A productive run that can delete is only built with the consent of its data path and a bounded
  \<open>max_delete\<close>, unless the configuration waives them.\<close>

theorem deletion_needs_consent:
  assumes "build_pair_command env cfg pair base False = Inr k" and "may_delete (k_verb k)"
  shows "\<exists>backup. backup_of cfg = Inr backup \<and>
    (truthy (py_get_default backup ''require_delete_confirmation'' (PBool True)) \<longrightarrow> truthy (py_get pair ''allow_delete'')) \<and>
    (truthy (py_get_default backup ''require_max_delete_for_sync'' (PBool True)) \<longrightarrow>
      (\<exists>tuning. dict_or_empty (py_get backup ''tuning'') = Inr tuning \<and>
        \<not> unlimited (py_get_default pair ''max_delete'' (py_get tuning ''max_delete''))))"
  by (rule build_parts [OF assms(1)]) (use assms(2) in \<open>auto simp: delete_guard_def split: if_splits\<close>)

end
