(* ===== verification/Delete_Limit.thy ===== *)
theory Delete_Limit
  imports Command_Theorems
begin

text \<open>
  The limit on deletions reaches rclone: of the several places that can set \<open>--max-delete\<close> the right one survives the
  removal of doubled flags, and no flag in front of it takes it for its value. The latter needs arguments in which every
  flag that waits for a value has one; the last lemma shows what a dangling flag does.
\<close>

text \<open>A token that takes the next one as its value.\<close>

definition bare_flag :: "string \<Rightarrow> bool" where
  "bare_flag t \<longleftrightarrow> t \<in> set single_value_flags \<or> t \<in> set value_flags \<or> t = ''-f''"

definition names_limit :: "string \<Rightarrow> bool" where
  "names_limit t \<longleftrightarrow> flag_name t = ''--max-delete''"

definition limit_arg :: "pyval \<Rightarrow> string" where
  "limit_arg v = ''--max-delete='' @ py_str v"

subsection \<open>Tokens\<close>

lemma flag_name_glued: "CHR ''='' \<notin> set f \<Longrightarrow> flag_name (f @ ''='' @ s) = f"
  by (induction f) (auto simp: flag_name_def before_char_def)

lemma flag_name_plain: "CHR ''='' \<notin> set t \<Longrightarrow> flag_name t = t"
  by (induction t) (auto simp: flag_name_def before_char_def)

lemma bare_flags_unglued: "list_all (\<lambda>t. CHR ''='' \<notin> set t) (single_value_flags @ value_flags @ [''-f''])"
  by code_simp

lemma glued_not_bare: "CHR ''='' \<in> set t \<Longrightarrow> \<not> bare_flag t"
  using bare_flags_unglued by (auto simp: bare_flag_def list_all_iff)

lemma names_limit_arg [simp]: "names_limit (limit_arg v)"
  using flag_name_glued [of "''--max-delete''"] by (simp add: names_limit_def limit_arg_def)

lemma limit_is_blocked: "names_limit t \<Longrightarrow> is_blocked t"
proof -
  have "py_lower ''--max-delete'' \<in> set exact_blocked" by code_simp
  then show "names_limit t \<Longrightarrow> is_blocked t" by (simp add: names_limit_def is_blocked_def Let_def)
qed

lemma limit_is_no_filter: "names_limit t \<Longrightarrow> group_of t \<notin> set filter_groups \<and> \<not> forbidden_filter t"
  by (simp add: names_limit_def group_of_def filter_groups_def forbidden_filter_def files_from_flags_def)

subsection \<open>Settled arguments\<close>

text \<open>Every flag that waits for a value has one, and the value does not look like a flag itself.\<close>

fun settled_args :: "string list \<Rightarrow> bool" where
  "settled_args [] = True"
| "settled_args (t # ts) =
     (if bare_flag t then (case ts of [] \<Rightarrow> False | u # us \<Rightarrow> \<not> py_startswith u ''-'' \<and> settled_args us)
      else settled_args ts)"

lemma bare_flags_dashed: "list_all (\<lambda>t. py_startswith t ''-'') (single_value_flags @ value_flags @ [''-f''])"
  by code_simp

lemma no_dash_plain:
  assumes "\<not> py_startswith w ''-''"
  shows "\<not> bare_flag w" and "\<not> names_limit w"
proof -
  show "\<not> bare_flag w" using assms bare_flags_dashed by (auto simp: bare_flag_def list_all_iff)
  show "\<not> names_limit w"
  proof
    assume "names_limit w"
    then have "takeWhile (\<lambda>c. c \<noteq> CHR ''='') w = ''--max-delete''" by (simp add: names_limit_def flag_name_def before_char_def)
    then show False using assms by (cases w) (auto simp: py_startswith_def split: if_splits)
  qed
qed

lemma flag_name_dashed: "py_startswith (flag_name w) ''-'' \<Longrightarrow> py_startswith w ''-''"
  by (cases w) (auto simp: py_startswith_def flag_name_def before_char_def split: if_splits)

lemma no_dash_single: "\<not> py_startswith w ''-'' \<Longrightarrow> flag_name w \<notin> set single_value_flags"
  using bare_flags_dashed flag_name_dashed by (auto simp: list_all_iff)

lemma settled_append: "settled_args xs \<Longrightarrow> settled_args ys \<Longrightarrow> settled_args (xs @ ys)"
  by (induction xs rule: settled_args.induct) (auto split: list.splits if_splits)

lemma settled_unbare: "list_all (\<lambda>t. \<not> bare_flag t) ts \<Longrightarrow> settled_args ts"
  by (induction ts) simp_all

lemma single_chunk: "\<not> bare_flag t \<Longrightarrow>
    chunks (t # ys) = (if flag_name t \<in> set single_value_flags then Some (flag_name t) else None, [t]) # chunks ys"
  using flag_name_plain [of t] by (cases ys) (auto simp: bare_flag_def)

lemma bare_chunks:
  assumes "bare_flag t" and "\<not> py_startswith u ''-''"
  shows "chunks (t # u # ys) = (if t \<in> set single_value_flags then [(Some t, [t, u])] else [(None, [t]), (None, [u])]) @ chunks ys"
proof -
  have name: "flag_name t = t" "CHR ''='' \<notin> set t"
    using assms(1) glued_not_bare flag_name_plain by blast+
  have "chunks (u # ys) = (None, [u]) # chunks ys"
    using single_chunk [OF no_dash_plain(1) [OF assms(2)]] no_dash_single [OF assms(2)] by simp
  with name show ?thesis by simp
qed

lemma chunk_flags: "Some f \<in> fst ` set (chunks ts) \<Longrightarrow> \<exists>t \<in> set ts. flag_name t = f"
  by (induction ts rule: chunks.induct) (auto split: if_splits)

lemma chunk_tokens: "(f, us) \<in> set (chunks ts) \<Longrightarrow> set us \<subseteq> set ts"
  by (induction ts rule: chunks.induct) (auto split: if_splits)

lemma last_chunks_tokens: "t \<in> set (last_chunks cs) \<Longrightarrow> \<exists>c \<in> set cs. t \<in> set (snd c)"
  by (induction cs rule: last_chunks.induct) (auto split: if_splits)

text \<open>What is left of settled arguments in front of the last limit: settled, and without a limit of their own.\<close>

definition leftover :: "string list \<Rightarrow> string list \<Rightarrow> bool" where
  "leftover xs us \<longleftrightarrow> set us \<subseteq> set xs \<and> settled_args us \<and> list_all (\<lambda>t. \<not> names_limit t) us"

lemma bare_names_no_limit: "bare_flag t \<Longrightarrow> t \<noteq> ''--max-delete'' \<Longrightarrow> \<not> names_limit t"
  using glued_not_bare [of t] flag_name_plain [of t] by (cases "CHR ''='' \<in> set t") (simp_all add: names_limit_def)

lemma bare_value_flag: "bare_flag t \<Longrightarrow> t \<notin> set single_value_flags \<Longrightarrow> t \<noteq> ''--max-delete''"
  by (auto simp: bare_flag_def value_flags_def)

lemma leftover_settled:
  assumes none: "Some ''--max-delete'' \<notin> fst ` set ds"
  shows "settled_args xs \<Longrightarrow>
    \<exists>us. last_chunks (chunks xs @ (Some ''--max-delete'', ts) # ds) = us @ ts @ last_chunks ds \<and> leftover xs us"
proof (induction xs rule: settled_args.induct)
  case 1
  show ?case using none by (intro exI [of _ "[]"]) (simp add: leftover_def image_iff)
next
  case (2 t ts')
  show ?case
  proof (cases "bare_flag t")
    case False
    with 2 obtain us where us: "last_chunks (chunks ts' @ (Some ''--max-delete'', ts) # ds) = us @ ts @ last_chunks ds"
      "leftover ts' us" by auto
    let ?f = "if flag_name t \<in> set single_value_flags then Some (flag_name t) else None"
    let ?later = "?f \<noteq> None \<and> ?f \<in> set (map fst (chunks ts' @ (Some ''--max-delete'', ts) # ds))"
    have step: "last_chunks (chunks (t # ts') @ (Some ''--max-delete'', ts) # ds) = (if ?later then us else t # us) @ ts @ last_chunks ds"
      using us(1) by (simp add: single_chunk [OF False])
    have "\<not> names_limit t" if "\<not> ?later"
      using that by (auto simp: names_limit_def single_value_flags_def)
    then have "leftover (t # ts') (if ?later then us else t # us)"
      using us(2) False by (auto simp: leftover_def)
    with step show ?thesis by blast
  next
    case True
    with 2(3) obtain u us' where ts': "ts' = u # us'" "\<not> py_startswith u ''-''" "settled_args us'"
      by (auto split: list.splits)
    with 2(1) True obtain us where us: "last_chunks (chunks us' @ (Some ''--max-delete'', ts) # ds) = us @ ts @ last_chunks ds"
      "leftover us' us" by blast
    have cs: "chunks (t # ts') = (if t \<in> set single_value_flags then [(Some t, [t, u])] else [(None, [t]), (None, [u])]) @ chunks us'"
      unfolding ts'(1) by (rule bare_chunks [OF True ts'(2)])
    let ?later = "t \<in> set single_value_flags \<and> Some t \<in> set (map fst (chunks us' @ (Some ''--max-delete'', ts) # ds))"
    have step: "last_chunks (chunks (t # ts') @ (Some ''--max-delete'', ts) # ds) = (if ?later then us else t # u # us) @ ts @ last_chunks ds"
      using us(1) by (simp add: cs)
    have "\<not> names_limit t" if "\<not> ?later"
      using that bare_names_no_limit [OF True] bare_value_flag [OF True] by auto
    then have "leftover (t # ts') (if ?later then us else t # u # us)"
      using us(2) True ts' no_dash_plain [OF ts'(2)] by (auto simp: leftover_def)
    with step show ?thesis by blast
  qed
qed

lemma chunks_settled: "settled_args xs \<Longrightarrow> chunks (xs @ ys) = chunks xs @ chunks ys"
proof (induction xs rule: settled_args.induct)
  case (2 t ts)
  then show ?case
    by (cases "bare_flag t") (auto simp: single_chunk bare_chunks simp del: chunks.simps(3) split: list.splits)
qed simp

lemma dedupe_keeps_limit:
  assumes "settled_args xs" and "list_all (\<lambda>t. \<not> names_limit t) ys" and "names_limit d" and "\<not> bare_flag d"
  obtains us ws where "dedupe_args (xs @ d # ys) = us @ d # ws" and "leftover xs us" and "set ws \<subseteq> set ys"
proof -
  have single: "''--max-delete'' \<in> set single_value_flags" by (simp add: single_value_flags_def)
  have cs: "chunks (xs @ d # ys) = chunks xs @ (Some ''--max-delete'', [d]) # chunks ys"
    using assms(3) single by (simp add: chunks_settled [OF assms(1)] single_chunk [OF assms(4)] names_limit_def)
  have none: "Some ''--max-delete'' \<notin> fst ` set (chunks ys)"
    using chunk_flags assms(2) by (fastforce simp: names_limit_def list_all_iff)
  obtain us where us: "dedupe_args (xs @ d # ys) = us @ d # last_chunks (chunks ys)" "leftover xs us"
    using leftover_settled [OF none assms(1), of "[d]"] by (auto simp: dedupe_args_def cs)
  moreover have "set (last_chunks (chunks ys)) \<subseteq> set ys"
  proof
    fix t assume "t \<in> set (last_chunks (chunks ys))"
    then obtain f vs where "(f, vs) \<in> set (chunks ys)" "t \<in> set vs" using last_chunks_tokens by fastforce
    then show "t \<in> set ys" using chunk_tokens by blast
  qed
  ultimately show ?thesis using that by blast
qed

subsection \<open>The filters leave it alone\<close>

lemma limit_no_alias:
  assumes "names_limit d"
  shows "d \<notin> set value_flags" "d \<noteq> ''-f''" "\<not> py_startswith d ''-f''" "\<not> py_startswith d ''-f=''" "\<not> short_cluster_f d"
proof -
  obtain s where d: "d = ''--max-delete'' @ s"
    using assms takeWhile_dropWhile_id [of "\<lambda>c. c \<noteq> CHR ''=''" d]
    by (metis names_limit_def flag_name_def before_char_def)
  show "\<not> py_startswith d ''-f''" "\<not> py_startswith d ''-f=''" "\<not> short_cluster_f d" "d \<noteq> ''-f''" "d \<notin> set value_flags"
    by (simp_all add: d py_startswith_def short_cluster_f_def is_alpha_def code_of_def value_flags_def)
qed

lemma no_dash_no_alias:
  assumes "\<not> py_startswith w ''-''"
  shows "w \<notin> set value_flags" "w \<noteq> ''-f''" "\<not> py_startswith w ''-f''" "\<not> py_startswith w ''-f=''" "\<not> short_cluster_f w"
    "group_of w \<notin> set filter_groups"
proof -
  show "w \<notin> set value_flags" "w \<noteq> ''-f''" using no_dash_plain(1) [OF assms] by (auto simp: bare_flag_def)
  show "\<not> py_startswith w ''-f''" "\<not> py_startswith w ''-f=''" "\<not> short_cluster_f w"
    using assms by (cases w; auto simp: py_startswith_def short_cluster_f_def)+
  have "list_all (\<lambda>g. py_startswith g ''-'') filter_groups" by code_simp
  moreover have "group_of w \<in> set filter_groups \<Longrightarrow> py_startswith (group_of w) ''-'' \<Longrightarrow> False"
    using assms flag_name_dashed [of w] by (auto simp: group_of_def split: if_splits) (simp add: py_startswith_def)
  ultimately show "group_of w \<notin> set filter_groups" by (auto simp: list_all_iff)
qed

lemma glued_filter: "\<not> bare_flag (''--filter='' @ r)" "\<not> names_limit (''--filter='' @ r)"
  using glued_not_bare [of "''--filter='' @ r"] flag_name_glued [of "''--filter''" r] by (simp_all add: names_limit_def)

definition clean_args :: "string list \<Rightarrow> bool" where
  "clean_args us \<longleftrightarrow> settled_args us \<and> list_all (\<lambda>t. \<not> names_limit t) us"

lemma normalize_word:
  "\<not> py_startswith u ''-'' \<Longrightarrow>
    normalize_filter_aliases (u # ts) = (case normalize_filter_aliases ts of Inl e \<Rightarrow> Inl e | Inr out \<Rightarrow> Inr (u # out))"
  using no_dash_no_alias by (subst normalize_filter_aliases.simps) (simp del: normalize_filter_aliases.simps)

lemma normalize_keeps_limit:
  assumes d: "names_limit d"
  shows "clean_args us \<Longrightarrow> normalize_filter_aliases (us @ d # ws) = Inr out \<Longrightarrow>
    \<exists>us' ws'. out = us' @ d # ws' \<and> clean_args us' \<and> normalize_filter_aliases ws = Inr ws'"
proof (induction us arbitrary: out rule: settled_args.induct)
  case 1
  then show ?case using limit_no_alias [OF d] by (auto simp: clean_args_def split: sum.splits)
next
  case (2 t ts)
  show ?case
  proof (cases "bare_flag t")
    case False
    then have plain: "t \<notin> set value_flags" "t \<noteq> ''-f''" by (auto simp: bare_flag_def)
    obtain t' out' where out': "normalize_filter_aliases (ts @ d # ws) = Inr out'" "out = t' # out'"
      "t' = t \<or> (\<exists>r. t' = ''--filter='' @ r)"
    proof -
      have "normalize_filter_aliases (t # (ts @ d # ws)) = Inr out" using 2(4) by simp
      then show ?thesis using that plain by (auto split: if_splits sum.splits simp del: append_Cons)
    qed
    have "clean_args ts" using 2(3) False by (simp add: clean_args_def)
    from 2(2) [OF False this out'(1)] obtain us' ws' where
      u: "out' = us' @ d # ws'" "clean_args us'" "normalize_filter_aliases ws = Inr ws'" by blast
    have "clean_args (t' # us')" using out'(3) u(2) False glued_filter 2(3) by (auto simp: clean_args_def)
    with u out'(2) show ?thesis by (intro exI [of _ "t' # us'"] exI [of _ ws']) simp
  next
    case True
    with 2(3) obtain u us where ts: "ts = u # us" "\<not> py_startswith u ''-''" "clean_args us"
      by (auto simp: clean_args_def split: list.splits)
    let ?t = "if t = ''-f'' then ''--filter'' else t"
    obtain out' where out': "normalize_filter_aliases (us @ d # ws) = Inr out'" "out = ?t # u # out'"
    proof (cases "t \<in> set value_flags \<or> t = ''-f''")
      case True
      with 2(4) ts show ?thesis using that by (auto split: sum.splits)
    next
      case False
      with \<open>bare_flag t\<close> have "t \<in> set single_value_flags" by (simp add: bare_flag_def)
      moreover have "list_all (\<lambda>t. \<not> py_startswith t ''-f'' \<and> \<not> py_startswith t ''-f='' \<and> \<not> short_cluster_f t) single_value_flags"
        by code_simp
      ultimately have "\<not> py_startswith t ''-f''" "\<not> py_startswith t ''-f=''" "\<not> short_cluster_f t" by (auto simp: list_all_iff)
      moreover have "normalize_filter_aliases (t # u # us @ d # ws) = Inr out" using 2(4) ts(1) by simp
      ultimately show ?thesis using that False
        by (subst (asm) normalize_filter_aliases.simps)
          (auto simp: normalize_word [OF ts(2)] split: sum.splits simp del: normalize_filter_aliases.simps)
    qed
    from 2(1) [OF True ts(1) ts(3) out'(1)] obtain us' ws' where
      v: "out' = us' @ d # ws'" "clean_args us'" "normalize_filter_aliases ws = Inr ws'" by blast
    have "bare_flag ?t" using True filter_alias_flag by (auto simp: bare_flag_def)
    moreover have "\<not> names_limit ?t" using 2(3) by (auto simp: clean_args_def names_limit_def flag_name_def before_char_def)
    ultimately have "clean_args (?t # u # us')" using v(2) ts(2) no_dash_plain(2) by (auto simp: clean_args_def)
    with v out'(2) show ?thesis by (intro exI [of _ "?t # u # us'"] exI [of _ ws']) simp
  qed
qed

lemma normalize_names_no_limit:
  "normalize_filter_aliases ts = Inr out \<Longrightarrow> t \<in> set out \<Longrightarrow> names_limit t \<Longrightarrow> t \<in> set ts"
proof (induction ts arbitrary: out rule: normalize_filter_aliases.induct)
  case (2 u us)
  have "\<not> names_limit ''--filter''" "\<not> names_limit (''--filter='' @ s)" for s
    using flag_name_glued [of "''--filter''" s] by (simp_all add: names_limit_def)
  with 2 show ?case by (auto split: if_splits sum.splits list.splits simp: Let_def simp del: append_Cons) blast+
qed simp

lemma bare_group: "CHR ''='' \<notin> set t \<Longrightarrow> group_of t \<in> set filter_groups \<Longrightarrow> bare_flag t"
  by (auto simp: group_of_def flag_name_plain filter_groups_def value_flags_def bare_flag_def split: if_splits)

lemma scan_word:
  "\<not> py_startswith u ''-'' \<Longrightarrow> scan_filters env (u # ts) = Inr r \<Longrightarrow>
    \<exists>q. scan_filters env ts = Inr q \<and> snd r = u # snd q"
  using no_dash_no_alias(6) by (auto split: if_splits)

lemma scan_keeps_limit:
  assumes d: "names_limit d"
  shows "clean_args us \<Longrightarrow> scan_filters env (us @ d # ws) = Inr r \<Longrightarrow>
    \<exists>us' q. scan_filters env ws = Inr q \<and> snd r = us' @ d # snd q \<and> list_all (\<lambda>t. \<not> names_limit t) us'"
proof (induction us arbitrary: r rule: settled_args.induct)
  case 1
  then show ?case using limit_is_no_filter [OF d] by (intro exI [of _ "[]"]) auto
next
  case (2 t ts)
  have here: "\<not> names_limit t" using 2(3) by (simp add: clean_args_def)
  show ?case
  proof (cases "bare_flag t")
    case False
    then have glued: "group_of t \<in> set filter_groups \<Longrightarrow> CHR ''='' \<in> set t" using bare_group by blast
    obtain q us' where "scan_filters env (ts @ d # ws) = Inr q" "snd r = us' @ snd q" "set us' \<subseteq> {t}"
      using 2(4) glued by (auto simp: add_values_def split: if_splits)
    moreover have "clean_args ts" using 2(3) False by (simp add: clean_args_def)
    ultimately show ?thesis using 2(2) [OF False] here
      by (metis (no_types, lifting) append.assoc list_all_append list_all_iff singletonD subsetD)
  next
    case True
    with 2(3) obtain u us where ts: "ts = u # us" "\<not> py_startswith u ''-''" "clean_args us"
      by (auto simp: clean_args_def split: list.splits)
    have "scan_filters env (t # u # us @ d # ws) = Inr r" using 2(4) ts(1) by simp
    then obtain q us' where "scan_filters env (us @ d # ws) = Inr q" "snd r = us' @ snd q" "set us' \<subseteq> {t, u}"
    proof (cases "group_of t \<in> set filter_groups \<and> CHR ''='' \<notin> set t")
      case True
      with \<open>scan_filters env (t # u # us @ d # ws) = Inr r\<close> that [of _ "[]"] show ?thesis
        by (auto simp: add_values_def split: if_splits)
    next
      case False
      then obtain p where p: "scan_filters env (u # us @ d # ws) = Inr p" "snd r = t # snd p \<or> snd r = snd p"
        using \<open>scan_filters env (t # u # us @ d # ws) = Inr r\<close> by (auto simp: add_values_def split: if_splits)
      from scan_word [OF ts(2) p(1)] p(2) that [of _ "[t, u]"] that [of _ "[u]"] show ?thesis by auto
    qed
    moreover have "\<not> names_limit u" by (rule no_dash_plain(2) [OF ts(2)])
    ultimately show ?thesis using 2(1) [OF True ts(1) ts(3)] here
      by (metis (no_types, lifting) append.assoc list_all_append list_all_iff insertE singletonD subsetD)
  qed
qed

lemma scan_rest_tokens: "scan_filters env ts = Inr r \<Longrightarrow> set (snd r) \<subseteq> set ts"
proof (induction env ts arbitrary: r rule: scan_filters.induct)
  case (2 env t ts)
  then show ?case by (fastforce simp: add_values_def split: if_splits list.splits)
qed simp

subsection \<open>The parts of the command\<close>

definition harmless :: "string \<Rightarrow> bool" where
  "harmless t \<longleftrightarrow> \<not> bare_flag t \<and> \<not> names_limit t"

lemma harmless_glued: "CHR ''='' \<notin> set f \<Longrightarrow> f \<noteq> ''--max-delete'' \<Longrightarrow> harmless (f @ CHR ''='' # s)"
  using flag_name_glued [of f s] glued_not_bare [of "f @ CHR ''='' # s"] by (simp add: harmless_def names_limit_def)

lemma value_settings_flags: "list_all (\<lambda>kf. CHR ''='' \<notin> set (snd kf) \<and> snd kf \<noteq> ''--max-delete'') value_settings"
  by code_simp

lemma switch_settings_flags: "list_all (\<lambda>kf. harmless (snd kf)) switch_settings"
  by code_simp

lemma harmless_value_args: "list_all harmless (concat (map (value_arg d) value_settings))"
  using value_settings_flags harmless_glued by (auto simp: list_all_iff value_arg_def Let_def)

lemma harmless_switch_args: "list_all harmless (concat (map (switch_arg d) switch_settings))"
  using switch_settings_flags by (auto simp: list_all_iff switch_arg_def)

lemma harmless_delete_rest:
  "list_all harmless (value_arg d (''max_delete_size'', ''--max-delete-size'') @ switch_arg d (''delete_excluded'', ''--delete-excluded''))"
proof -
  have "harmless ''--delete-excluded''" by code_simp
  then show ?thesis using harmless_glued [of "''--max-delete-size''"] by (simp add: value_arg_def switch_arg_def Let_def)
qed

lemma harmless_ignore_errors: "harmless ''--ignore-errors''"
  by code_simp

lemma structured_split:
  assumes "may_delete verb"
  obtains us ws where "structured_args d verb = us @ value_arg d (''max_delete'', ''--max-delete'') @ ws"
    and "list_all harmless us" and "list_all harmless ws"
proof (rule that)
  let ?rest = "value_arg d (''max_delete_size'', ''--max-delete-size'') @ switch_arg d (''delete_excluded'', ''--delete-excluded'')"
  let ?ws = "?rest @ concat (map (switch_arg d) switch_settings) @
     (if truthy (py_get d ''ignore_errors'') \<and> truthy (py_get d ''allow_unsafe_flags'') then [''--ignore-errors''] else [])"
  show "structured_args d verb = concat (map (value_arg d) value_settings) @ value_arg d (''max_delete'', ''--max-delete'') @ ?ws"
    using assms by (simp add: structured_args_def delete_args_def may_delete_def)
  show "list_all harmless ?ws"
    using harmless_delete_rest [of d] harmless_switch_args [of d] harmless_ignore_errors by simp
qed (rule harmless_value_args)

text \<open>The settings that are handed on as a token of their own.\<close>

definition setting_words :: "pydict \<Rightarrow> string list" where
  "setting_words backup = [text_of (py_get backup ''bwlimit''),
     py_lower (py_strip (str_or (py_get backup ''conflict_resolve'') ''auto'')),
     py_strip (str_or (py_get backup ''max_lock'') ''2m'')]"

lemma global_args_clean:
  assumes "list_all (\<lambda>w. \<not> py_startswith w ''-'') (setting_words backup)"
  shows "clean_args (global_verb_args backup verb)"
proof -
  have flags: "list_all bare_flag [''--bwlimit'', ''--conflict-resolve'', ''--max-lock'']"
    "list_all (\<lambda>t. \<not> bare_flag t) [''--immutable'', ''--resilient'', ''--recover'']"
    "list_all (\<lambda>t. \<not> names_limit t)
      [''--immutable'', ''--resilient'', ''--recover'', ''--bwlimit'', ''--conflict-resolve'', ''--max-lock'']"
    by code_simp+
  have pairs: "clean_args [f, w]" if "f \<in> {''--bwlimit'', ''--conflict-resolve'', ''--max-lock''}" "\<not> py_startswith w ''-''" for f w
    using that flags no_dash_plain(2) by (auto simp: clean_args_def)
  have singles: "clean_args [t]" if "t \<in> {''--immutable'', ''--resilient'', ''--recover''}" for t
    using that flags by (auto simp: clean_args_def)
  have append: "clean_args xs \<Longrightarrow> clean_args ys \<Longrightarrow> clean_args (xs @ ys)" for xs ys
    by (simp add: clean_args_def settled_append)
  have words: "\<not> py_startswith (text_of (py_get backup ''bwlimit'')) ''-''"
    "\<not> py_startswith (py_lower (py_strip (str_or (py_get backup ''conflict_resolve'') ''auto''))) ''-''"
    "\<not> py_startswith (py_strip (str_or (py_get backup ''max_lock'') ''2m'')) ''-''"
    using assms by (simp_all add: setting_words_def)
  have "clean_args []" by (simp add: clean_args_def)
  then show ?thesis
    unfolding global_verb_args_def switch_arg_def Let_def
    by (intro append) (simp_all add: pairs singles append words)
qed

lemma backup_path_plain:
  assumes "\<not> py_startswith base ''-''"
  shows "\<not> names_limit (resolve_backup_path base spec stamp)"
proof (rule no_dash_plain(2))
  show "\<not> py_startswith (resolve_backup_path base spec stamp) ''-''"
    using assms by (cases base) (auto simp: resolve_backup_path_def Let_def is_remote_def py_startswith_def)
qed

lemma backup_dir_plain:
  assumes "\<not> py_startswith src ''-''" and "\<not> py_startswith dst ''-''"
  shows "list_all (\<lambda>t. \<not> names_limit t) (backup_dir_args env backup pair verb src dst)"
proof -
  have "list_all (\<lambda>t. \<not> names_limit t) [''--backup-dir1'', ''--backup-dir2'', ''--backup-dir'']" by code_simp
  then show ?thesis using backup_path_plain [OF assms(1)] backup_path_plain [OF assms(2)]
    by (simp add: backup_dir_args_def Let_def)
qed

lemma unlimited_blank: "\<not> unlimited v \<Longrightarrow> \<not> is_blank v"
  by (simp add: unlimited_def)

lemma default_mode_args:
  assumes "validate_parsed_rclone_args args False = Inr out"
  shows "out = args" and "list_all (\<lambda>t. \<not> names_limit t) out"
  using assms [unfolded validate_accepts_iff] normalize_unblocked_is_identity limit_is_blocked
  by (auto simp: list_all_iff)

lemma compiled_start: "filter_flags (compiled_rules vs) \<noteq> [] \<and> hd (filter_flags (compiled_rules vs)) = ''--filter''"
  using reserved_first [of vs] by (auto simp: reserved_rules_def filter_flags_def)

text \<open>The limit survives in the argument list, and it is the only one.\<close>

lemma limit_survives:
  assumes shape: "args0 = dedupe_args (xs @ d # ys)" and "settled_args xs"
    and "list_all (\<lambda>t. \<not> names_limit t) ys" and d: "names_limit d" "\<not> bare_flag d"
    and out: "protected_filter_args env args0 = Inr (rest @ filter_flags (compiled_rules vs))" "list_all no_filter rest"
  shows "filter names_limit rest = [d]"
proof -
  obtain us ws where args0: "args0 = us @ d # ws" "leftover xs us" "set ws \<subseteq> set ys"
    using dedupe_keeps_limit [OF assms(2,3) d] shape by metis
  obtain ts r where ts: "normalize_filter_aliases args0 = Inr ts" and r: "scan_filters env ts = Inr r"
      "rest @ filter_flags (compiled_rules vs) = snd r @ filter_flags (compiled_rules (fst r))"
    using out(1) by (auto simp: protected_filter_args_def split: if_splits)
  have rest: "rest = snd r"
    using arg_cong [OF r(2), of take_rules] take_rules_protected [OF out(2)] take_rules_protected [OF scan_rest [OF r(1)]]
    by simp
  have "clean_args us" using args0(2) by (simp add: leftover_def clean_args_def)
  from normalize_keeps_limit [OF d(1) this] ts args0(1) obtain us' ws'
    where n: "ts = us' @ d # ws'" "clean_args us'" "normalize_filter_aliases ws = Inr ws'" by metis
  from scan_keeps_limit [OF d(1) n(2)] r(1) n(1) obtain us'' q
    where q: "scan_filters env ws' = Inr q" "snd r = us'' @ d # snd q" "list_all (\<lambda>t. \<not> names_limit t) us''" by metis
  have "\<not> names_limit t" if "t \<in> set (snd q)" for t
    using normalize_names_no_limit [OF n(3)] scan_rest_tokens [OF q(1)] that args0(3) assms(3)
    by (auto simp: list_all_iff)
  then have "filter names_limit (snd q) = []" "filter names_limit us'' = []"
    using q(3) by (simp_all add: filter_empty_conv list_all_iff)
  then show ?thesis using d(1) by (simp add: rest q(2))
qed


subsection \<open>One command\<close>

definition demo_command_env :: command_env where
  "demo_command_env = \<lparr>c_cache = ''/cache'', c_stamp = ''2026-01-01T00-00-00'', c_is_file = (\<lambda>_. False), c_size = (\<lambda>_. 0),
     c_read = (\<lambda>_. Inr []), c_sha256 = (\<lambda>_. ''abc'')\<rparr>"

definition demo_sync_path :: pydict where
  "demo_sync_path = [(''remote'', PStr ''cloud:a''), (''local'', PStr ''/a''), (''direction'', PStr ''push''), (''mode'', PStr ''sync''),
     (''allow_delete'', PBool True), (''timeout'', PStr ''1m''), (''include'', PStr ''*.jpg'')]"

definition demo_sync_config :: pydict where
  "demo_sync_config = [(''backup'', PDict [(''tuning'', PDict [(''max_delete'', PInt 100)])])]"

definition demo_backup_section :: pydict where
  "demo_backup_section = [(''tuning'', PDict [(''max_delete'', PInt 100)])]"

lemma demo_sync_command:
  "case build_pair_command demo_command_env demo_sync_config demo_sync_path [''--fast-list''] False of
     Inr k \<Rightarrow> k_verb k = ''sync'' | Inl _ \<Rightarrow> False"
  by code_simp

lemma demo_sync_built:
  obtains k where "build_pair_command demo_command_env demo_sync_config demo_sync_path [''--fast-list''] False = Inr k"
    and "k_verb k = ''sync''"
  using demo_sync_command by (auto split: sum.splits)


lemma deletion_needs_consent_witness:
  "\<exists>k. build_pair_command demo_command_env demo_sync_config demo_sync_path [''--fast-list''] False = Inr k \<and>
     may_delete (k_verb k) \<and> truthy (py_get demo_sync_path ''allow_delete'')"
proof (rule demo_sync_built)
  fix k assume k: "build_pair_command demo_command_env demo_sync_config demo_sync_path [''--fast-list''] False = Inr k"
    "k_verb k = ''sync''"
  have del: "may_delete (k_verb k)" using k(2) by (simp add: may_delete_def)
  have "backup_of demo_sync_config = Inr demo_backup_section"
    by (simp add: backup_of_def demo_sync_config_def demo_backup_section_def dict_or_empty_def py_or_def)
  with deletion_needs_consent [OF k(1) del] k(1) del show ?thesis
    by (auto simp: demo_backup_section_def py_get_default_def)
qed


text \<open>A global argument that waits for its value, here a final \<open>--timeout\<close>, takes the limit for it; when the data path sets
  a timeout of its own, the older flag is removed as doubled together with the limit, and the run that deletes starts
  without any limit.\<close>

lemma dangling_flag_drops_limit:
  "case build_pair_command demo_command_env demo_sync_config demo_sync_path [''--timeout''] False of
     Inr k \<Rightarrow> k_verb k = ''sync'' \<and> list_all (\<lambda>t. \<not> names_limit t) (k_cmd k) | Inl _ \<Rightarrow> False"
  by code_simp

end
