(* ===== verification/Run_Pool.thy ===== *)
theory Run_Pool
  imports Pair_Command Due_Evaluation Py_Rounding "HOL-Library.AList"
begin

text \<open>
  \<open>run_job\<close> of \<open>jobs/rclone_sync.py\<close>: what is checked before a run, the loop that hands data paths to workers, and the
  summary. One iteration of the loop is a \<open>round\<close>: what \<open>is_cancelled\<close> answers at its start, and which workers
  \<open>wait\<close> finds finished with which outcome. \<open>p_submitted\<close> lists the calls of \<open>executor.submit\<close>.
\<close>

section \<open>Selection\<close>

text \<open>An entry of the list that is no mapping has no \<open>get\<close>.\<close>

definition as_mapping :: "pyval \<Rightarrow> pydict result" where
  "as_mapping v = (case v of PDict d \<Rightarrow> Inr d | _ \<Rightarrow> Inl AttributeError)"

definition path_enabled :: "pydict \<Rightarrow> bool" where
  "path_enabled pair \<longleftrightarrow> truthy (py_get_default pair ''enabled'' (PBool True))"

definition path_index :: "pydict list \<Rightarrow> (string \<times> pydict) list" where
  "path_index pairs = fold (\<lambda>p. AList.update (str_or (py_get p ''name'') []) p) pairs []"

definition selected_pairs :: "pyval \<Rightarrow> string list \<Rightarrow> pydict list result" where
  "selected_pairs pairs chosen =
     bind_result (iter_or_empty pairs) (\<lambda>vs. bind_result (collect as_mapping vs) (\<lambda>ps.
       let enabled = filter path_enabled ps in
       Inr (if chosen = [] then enabled
            else List.map_filter (map_of (path_index enabled)) (filter (\<lambda>n. n \<noteq> []) (map py_strip chosen)))))"

section \<open>The loop\<close>

datatype worker_outcome = Answered pydict | Raised string

record pool_state =
  p_pending :: "pydict list"
  p_running :: "pydict list"
  p_submitted :: "pydict list"
  p_results :: "(string \<times> pydict) list"

record pool_round =
  r_cancelled :: bool
  r_finished :: "pydict \<Rightarrow> worker_outcome option"

type_synonym resolver = "string \<Rightarrow> string list option"

fun next_runnable_pair_index :: "resolver \<Rightarrow> pydict list \<Rightarrow> pydict list \<Rightarrow> nat option" where
  "next_runnable_pair_index resolve [] active = None"
| "next_runnable_pair_index resolve (p # ps) active =
     (if \<not> list_ex (pairs_conflict resolve p) active then Some 0
      else map_option Suc (next_runnable_pair_index resolve ps active))"

lemma next_runnable_bound: "next_runnable_pair_index resolve ps active = Some i \<Longrightarrow> i < length ps"
  by (induction resolve ps active arbitrary: i rule: next_runnable_pair_index.induct) (auto split: if_splits)

lemma next_runnable_free:
  "next_runnable_pair_index resolve ps active = Some i \<Longrightarrow> \<not> list_ex (pairs_conflict resolve (ps ! i)) active"
  by (induction resolve ps active arbitrary: i rule: next_runnable_pair_index.induct) (auto split: if_splits)

definition drop_index :: "nat \<Rightarrow> 'a list \<Rightarrow> 'a list" where
  "drop_index i xs = take i xs @ drop (Suc i) xs"

text \<open>\<open>while pending and len(running) < max_parallel\<close>.\<close>

function start_workers :: "resolver \<Rightarrow> nat \<Rightarrow> pydict list \<Rightarrow> pydict list \<Rightarrow> pydict list \<times> pydict list" where
  "start_workers resolve limit pending running =
     (if pending = [] \<or> limit \<le> length running then (pending, running)
      else (case next_runnable_pair_index resolve pending running of
          None \<Rightarrow> (pending, running)
        | Some i \<Rightarrow> start_workers resolve limit (drop_index i pending) (running @ [pending ! i])))"
  by pat_completeness auto
termination
  by (relation "measure (\<lambda>(_, _, pending, _). length pending)") (auto simp: drop_index_def dest: next_runnable_bound)

declare start_workers.simps [simp del]

definition path_key :: "pydict \<Rightarrow> string" where
  "path_key pair = py_str (py_get pair ''name'')"

definition cancelled_result :: "string \<Rightarrow> pydict \<Rightarrow> pydict" where
  "cancelled_result trigger pair =
     [(''name'', PStr (str_or (py_get pair ''name'') ''?'')), (''ok'', PBool False), (''cancelled'', PBool True),
      (''skipped'', PBool True), (''error'', PStr ''Vor Start abgebrochen''), (''trigger'', PStr trigger)]"

definition py_setdefault :: "pydict \<Rightarrow> string \<Rightarrow> pyval \<Rightarrow> pydict" where
  "py_setdefault d k v = (if has_key d k then d else py_set d k v)"

definition worker_result :: "string \<Rightarrow> pydict \<Rightarrow> worker_outcome \<Rightarrow> pydict" where
  "worker_result trigger pair outcome =
     py_setdefault
       (case outcome of
          Answered d \<Rightarrow> d
        | Raised e \<Rightarrow> [(''name'', py_get_default pair ''name'' (PStr ''?'')), (''ok'', PBool False), (''error'', PStr e)])
       ''trigger'' (PStr trigger)"

definition cancel_pending :: "string \<Rightarrow> bool \<Rightarrow> pool_state \<Rightarrow> pool_state" where
  "cancel_pending trigger cancelled s =
     (if cancelled \<and> p_pending s \<noteq> [] then
        s\<lparr>p_pending := [],
          p_results := fold (\<lambda>p. AList.update (str_or (py_get p ''name'') ''?'') (cancelled_result trigger p))
            (p_pending s) (p_results s)\<rparr>
      else s)"

definition submit_workers :: "resolver \<Rightarrow> nat \<Rightarrow> pool_state \<Rightarrow> pool_state" where
  "submit_workers resolve limit s =
     (case start_workers resolve limit (p_pending s) (p_running s) of (pending, running) \<Rightarrow>
        s\<lparr>p_pending := pending, p_running := running,
          p_submitted := p_submitted s @ drop (length (p_running s)) running\<rparr>)"

definition collect_finished :: "string \<Rightarrow> (pydict \<Rightarrow> worker_outcome option) \<Rightarrow> pool_state \<Rightarrow> pool_state" where
  "collect_finished trigger finished s =
     s\<lparr>p_running := filter (\<lambda>p. finished p = None) (p_running s),
       p_results := fold (\<lambda>p res. case finished p of None \<Rightarrow> res
           | Some q \<Rightarrow> AList.update (path_key p) (worker_result trigger p q) res) (p_running s) (p_results s)\<rparr>"

definition working :: "resolver \<Rightarrow> nat \<Rightarrow> string \<Rightarrow> pool_round \<Rightarrow> pool_state \<Rightarrow> pool_state" where
  "working resolve limit trigger r s = submit_workers resolve limit (cancel_pending trigger (r_cancelled r) s)"

definition pool_step :: "resolver \<Rightarrow> nat \<Rightarrow> string \<Rightarrow> pool_round \<Rightarrow> pool_state \<Rightarrow> pool_state" where
  "pool_step resolve limit trigger r s = collect_finished trigger (r_finished r) (working resolve limit trigger r s)"

definition pool_done :: "pool_state \<Rightarrow> bool" where
  "pool_done s \<longleftrightarrow> p_pending s = [] \<and> p_running s = []"

fun pool_run :: "resolver \<Rightarrow> nat \<Rightarrow> string \<Rightarrow> pool_round list \<Rightarrow> pool_state \<Rightarrow> pool_state" where
  "pool_run resolve limit trigger [] s = s"
| "pool_run resolve limit trigger (r # rs) s =
     (if pool_done s then s else pool_run resolve limit trigger rs (pool_step resolve limit trigger r s))"

definition pool_start :: "pydict list \<Rightarrow> pool_state" where
  "pool_start pairs = \<lparr>p_pending = pairs, p_running = [], p_submitted = [], p_results = []\<rparr>"

section \<open>Before the run\<close>

record run_request =
  q_dry_run :: bool
  q_pairs :: "string list"
  q_trigger :: pyval
  q_job_id :: pyval
  q_mode :: pyval
  q_parallel :: pyval
  q_definition_id :: pyval
  q_definition_name :: pyval
  q_revision :: string
  q_slot :: pyval

record run_plan =
  n_pairs :: "pydict list"
  n_args :: "string list"
  n_trigger :: string
  n_mode :: string
  n_parallel :: nat
  n_timeout :: int
  n_max_runtime :: "int option"

definition run_trigger :: "pyval \<Rightarrow> string" where
  "run_trigger v = (let t = take 32 (py_lower (py_strip (str_or v ''manual''))) in if t = [] then ''manual'' else t)"

definition refusal :: "string \<Rightarrow> pydict" where
  "refusal e = [(''enabled'', PBool True), (''ok'', PBool False), (''error'', PStr e)]"

definition run_mode :: "pyval \<Rightarrow> string" where
  "run_mode v = py_casefold (str_or v ''parallel'')"

definition run_workers :: "pydict \<Rightarrow> run_request \<Rightarrow> nat \<Rightarrow> nat" where
  "run_workers backup q n =
     (let general = trunc_real (bounded_number (py_get_default backup ''max_parallel'' (PInt 2)) 2 1 16);
          own = (if q_parallel q \<noteq> PNone then trunc_real (bounded_number (q_parallel q) 1 1 16) else general);
          workers = (if run_mode (q_mode q) = ''sequential'' then 1 else own)
      in min (nat workers) n)"

definition stall_timeout :: "pydict \<Rightarrow> int" where
  "stall_timeout backup = trunc_real (bounded_number (py_get_default backup ''timeout_hours'' (PInt 4)) 4 (1 / 10) 168 * 3600)"

definition hard_timeout :: "pydict \<Rightarrow> int option" where
  "hard_timeout backup =
     (let hours = bounded_number (py_get_default backup ''max_runtime_hours'' (PInt 0)) 0 0 720
      in if 0 < hours then Some (max 1 (trunc_real (hours * 3600))) else None)"

definition duplicate_names :: "pydict list \<Rightarrow> bool" where
  "duplicate_names pairs \<longleftrightarrow> \<not> distinct (map (\<lambda>p. py_casefold (text_of (py_get p ''name''))) pairs)"

text \<open>An answer without a run, or the plan of the run.\<close>

definition prepare_run :: "pydict \<Rightarrow> run_request \<Rightarrow> (pydict + run_plan) result" where
  "prepare_run snapshot q =
     bind_result (dict_or_empty (py_get snapshot ''backup'')) (\<lambda>backup.
       if \<not> truthy (py_get_default backup ''enabled'' (PBool True))
       then Inr (Inl [(''enabled'', PBool False), (''ok'', PBool True)])
       else bind_result (selected_pairs (py_get backup ''pairs'') (q_pairs q)) (\<lambda>pairs.
         if pairs = [] then Inr (Inl (refusal ''Keine aktiven Sync-Paare passend zur Auswahl''))
         else if list_ex (\<lambda>p. text_of (py_get p ''name'') = []) pairs then Inr (Inl (refusal ''Aktives Pair ohne Namen gefunden''))
         else if duplicate_names pairs then Inr (Inl (refusal ''Doppelte aktive Pair-Namen gefunden''))
         else bind_result (validate_rclone_args (py_get backup ''rclone_args'') (truthy (py_get backup ''allow_unsafe_rclone_args''))) (\<lambda>args.
           bind_result (dict_or_empty (py_get snapshot ''paths'')) (\<lambda>_.
             Inr (Inr \<lparr>n_pairs = pairs, n_args = args, n_trigger = run_trigger (q_trigger q), n_mode = run_mode (q_mode q),
               n_parallel = run_workers backup q (length pairs), n_timeout = stall_timeout backup,
               n_max_runtime = hard_timeout backup\<rparr>)))))"

section \<open>After the run\<close>

definition missing_result :: "pydict \<Rightarrow> pydict" where
  "missing_result pair = [(''name'', py_get pair ''name''), (''ok'', PBool False), (''error'', PStr ''Kein Ergebnis'')]"

definition path_result :: "sched_env \<Rightarrow> pool_state \<Rightarrow> pydict \<Rightarrow> pydict" where
  "path_result env s pair =
     py_setdefault (case map_of (p_results s) (path_key pair) of Some r \<Rightarrow> r | None \<Rightarrow> missing_result pair)
       ''history_key'' (PStr (rclone_history_key env pair))"

definition text_or_none :: "pyval \<Rightarrow> pyval" where
  "text_or_none v = (let t = str_or v [] in if t = [] then PNone else PStr t)"

definition overlap_warnings :: "resolver \<Rightarrow> pydict list \<Rightarrow> pyval list" where
  "overlap_warnings resolve pairs =
     (if has_overlapping_pairs resolve pairs
      then [PStr ''Ueberlappende Pair-Pfade erkannt; nur aktuell kollidierende Pairs werden serialisiert.''] else [])"

text \<open>What the clock and the runtime state contribute.\<close>

record run_facts =
  f_started_at :: string
  f_duration :: real
  f_run_id :: string
  f_cancelled :: bool

definition ok_count :: "pydict list \<Rightarrow> nat" where
  "ok_count results = length (filter (\<lambda>r. truthy (py_get r ''ok'')) results)"

definition run_ok :: "run_plan \<Rightarrow> run_facts \<Rightarrow> pydict list \<Rightarrow> bool" where
  "run_ok n f results \<longleftrightarrow> ok_count results = length (n_pairs n) \<and> \<not> f_cancelled f"

definition run_summary :: "resolver \<Rightarrow> run_request \<Rightarrow> run_plan \<Rightarrow> run_facts \<Rightarrow> pydict list \<Rightarrow> pydict" where
  "run_summary resolve q n f results =
     [(''enabled'', PBool True), (''ok'', PBool (run_ok n f results)), (''started_at'', PStr (f_started_at f)),
      (''duration_sec'', PFloat (round_digits 1 (f_duration f))), (''dry_run'', PBool (q_dry_run q)),
      (''pairs'', PList (map PDict results)), (''ok_count'', PInt (int (ok_count results))),
      (''total_pairs'', PInt (int (length (n_pairs n)))), (''cancelled'', PBool (f_cancelled f)),
      (''warnings'', PList (overlap_warnings resolve (n_pairs n))), (''run_id'', PStr (f_run_id f)),
      (''job_id'', q_job_id q), (''trigger'', PStr (n_trigger n)), (''definition_id'', text_or_none (q_definition_id q)),
      (''definition_name'', text_or_none (q_definition_name q)),
      (''config_revision'', if q_revision q = [] then PNone else PStr (q_revision q)),
      (''scheduled_slot'', text_or_none (q_slot q)), (''execution_mode'', PStr (n_mode n)),
      (''max_parallel'', PInt (int (n_parallel n)))]"

text \<open>The state \<open>finish_run\<close> records, and the events that are announced.\<close>

definition run_state :: "run_plan \<Rightarrow> run_facts \<Rightarrow> pydict list \<Rightarrow> string" where
  "run_state n f results = (if f_cancelled f then ''cancelled'' else if run_ok n f results then ''ok'' else ''error'')"

definition run_notices :: "run_request \<Rightarrow> run_plan \<Rightarrow> run_facts \<Rightarrow> pydict list \<Rightarrow> string list" where
  "run_notices q n f results =
     (if q_dry_run q then []
      else ''sync_started'' #
        (if run_ok n f results then [''sync_ok''] else if \<not> f_cancelled f then [''sync_error''] else []))"

text \<open>\<open>None\<close> while the loop has not ended.\<close>

definition run_job :: "sched_env \<Rightarrow> resolver \<Rightarrow> pydict \<Rightarrow> run_request \<Rightarrow> pool_round list \<Rightarrow> run_facts \<Rightarrow> pydict option result" where
  "run_job env resolve snapshot q rounds f =
     bind_result (prepare_run snapshot q) (\<lambda>x.
       case x of
         Inl answer \<Rightarrow> Inr (Some answer)
       | Inr n \<Rightarrow>
           let s = pool_run resolve (n_parallel n) (n_trigger n) rounds (pool_start (n_pairs n)) in
           Inr (if pool_done s then Some (run_summary resolve q n f (map (path_result env s) (n_pairs n))) else None))"

end
