(* ===== verification/Run_Theorems.thy ===== *)
theory Run_Theorems
  imports Run_Pool
begin

text \<open>
  The loop of \<open>run_job\<close>: workers that run at the same time never touch overlapping paths, the loop ends, and every
  selected data path ends with exactly one result, that of its worker or that of a cancellation before the start.
\<close>

section \<open>One pass over the pending paths\<close>

lemma mset_drop_index: "i < length xs \<Longrightarrow> add_mset (xs ! i) (mset (drop_index i xs)) = mset xs"
  unfolding drop_index_def by (metis id_take_nth_drop mset.simps(2) mset_append union_mset_add_mset_right)

text \<open>What a pass does: it moves paths from the pending to the running ones.\<close>

lemma start_workers_moves:
  "start_workers resolve limit pending running = (pending', running') \<Longrightarrow>
    \<exists>started. running' = running @ started \<and> mset pending = mset pending' + mset started"
proof (induction resolve limit pending running arbitrary: pending' running' rule: start_workers.induct)
  case (1 resolve limit pending running)
  show ?case
  proof (cases "pending = [] \<or> limit \<le> length running")
    case True
    then show ?thesis using "1.prems" by (subst (asm) start_workers.simps) auto
  next
    case go: False
    show ?thesis
    proof (cases "next_runnable_pair_index resolve pending running")
      case None
      then show ?thesis using "1.prems" go by (subst (asm) start_workers.simps) auto
    next
      case (Some i)
      have "start_workers resolve limit (drop_index i pending) (running @ [pending ! i]) = (pending', running')"
        using "1.prems" go Some by (subst (asm) start_workers.simps) auto
      then obtain st where "running' = (running @ [pending ! i]) @ st" "mset (drop_index i pending) = mset pending' + mset st"
        using "1.IH" [OF go Some] by blast
      moreover have "add_mset (pending ! i) (mset (drop_index i pending)) = mset pending"
        by (rule mset_drop_index) (rule next_runnable_bound [OF Some])
      ultimately show ?thesis by (intro exI [of _ "(pending ! i) # st"]) auto
    qed
  qed
qed

definition apart_all :: "resolver \<Rightarrow> pydict list \<Rightarrow> bool" where
  "apart_all resolve ps \<longleftrightarrow> sorted_wrt (\<lambda>p q. \<not> pairs_conflict resolve p q) ps"

lemma start_workers_apart:
  "start_workers resolve limit pending running = (pending', running') \<Longrightarrow>
    apart_all resolve running \<Longrightarrow> length running \<le> limit \<Longrightarrow> apart_all resolve running' \<and> length running' \<le> limit"
proof (induction resolve limit pending running arbitrary: pending' running' rule: start_workers.induct)
  case (1 resolve limit pending running)
  show ?case
  proof (cases "pending = [] \<or> limit \<le> length running")
    case True
    then show ?thesis using "1.prems" by (subst (asm) start_workers.simps) auto
  next
    case go: False
    show ?thesis
    proof (cases "next_runnable_pair_index resolve pending running")
      case None
      then show ?thesis using "1.prems" go by (subst (asm) start_workers.simps) auto
    next
      case (Some i)
      have "start_workers resolve limit (drop_index i pending) (running @ [pending ! i]) = (pending', running')"
        using "1.prems"(1) go Some by (subst (asm) start_workers.simps) auto
      moreover have "apart_all resolve (running @ [pending ! i])"
        using "1.prems"(2) next_runnable_free [OF Some] pairs_conflict_sym [of resolve]
        by (auto simp: apart_all_def sorted_wrt_append list_ex_iff)
      ultimately show ?thesis using "1.IH" [OF go Some] go by simp
    qed
  qed
qed

text \<open>A pass with nothing running starts something.\<close>

lemma start_workers_starts:
  assumes "start_workers resolve limit pending [] = (pending', running')" and "pending \<noteq> []" and "0 < limit"
  shows "running' \<noteq> []"
proof -
  obtain i where i: "next_runnable_pair_index resolve pending [] = Some i"
    using assms(2) by (cases pending) auto
  then have "start_workers resolve limit (drop_index i pending) [pending ! i] = (pending', running')"
    using assms by (subst (asm) start_workers.simps) auto
  from start_workers_moves [OF this] show ?thesis by auto
qed

section \<open>No two workers on overlapping paths\<close>

lemma apart_filter: "apart_all resolve ps \<Longrightarrow> apart_all resolve (filter P ps)"
  by (simp add: apart_all_def sorted_wrt_filter)

lemma working_running:
  assumes "working resolve limit trigger r s = s'"
  shows "\<exists>started. p_running s' = p_running s @ started \<and> p_submitted s' = p_submitted s @ started"
    and "start_workers resolve limit (p_pending (cancel_pending trigger (r_cancelled r) s)) (p_running s)
      = (p_pending s', p_running s')"
    and "p_results s' = p_results (cancel_pending trigger (r_cancelled r) s)"
proof -
  let ?c = "cancel_pending trigger (r_cancelled r) s"
  have c: "p_running ?c = p_running s" "p_submitted ?c = p_submitted s" by (simp_all add: cancel_pending_def)
  obtain pending running where go: "start_workers resolve limit (p_pending ?c) (p_running s) = (pending, running)"
    by (cases "start_workers resolve limit (p_pending ?c) (p_running s)")
  have s': "s' = ?c\<lparr>p_pending := pending, p_running := running, p_submitted := p_submitted s @ drop (length (p_running s)) running\<rparr>"
    using assms go c by (simp add: working_def submit_workers_def)
  show "\<exists>started. p_running s' = p_running s @ started \<and> p_submitted s' = p_submitted s @ started"
    using start_workers_moves [OF go] s' by auto
  show "start_workers resolve limit (p_pending ?c) (p_running s) = (p_pending s', p_running s')"
    using go s' by simp
  show "p_results s' = p_results ?c" using s' by simp
qed

definition pool_safe :: "resolver \<Rightarrow> nat \<Rightarrow> pool_state \<Rightarrow> bool" where
  "pool_safe resolve limit s \<longleftrightarrow> apart_all resolve (p_running s) \<and> length (p_running s) \<le> limit"

lemma working_safe: "pool_safe resolve limit s \<Longrightarrow> pool_safe resolve limit (working resolve limit trigger r s)"
  using start_workers_apart [OF working_running(2) [OF refl]] by (simp add: pool_safe_def)

lemma collect_safe: "pool_safe resolve limit s \<Longrightarrow> pool_safe resolve limit (collect_finished trigger f s)"
  by (auto simp: pool_safe_def collect_finished_def apart_filter intro: le_trans [OF length_filter_le])

lemma run_safe: "pool_safe resolve limit s \<Longrightarrow> pool_safe resolve limit (pool_run resolve limit trigger rs s)"
  by (induction rs arbitrary: s) (simp_all add: pool_step_def working_safe collect_safe)

text \<open>C16: At every moment of the loop of \<open>run_job\<close>, after any number of rounds and whatever workers finish or are
  cancelled, at most \<open>max_parallel\<close> data paths are being synchronised, and no two of them have overlapping ends.\<close>

theorem running_paths_never_overlap:
  "length (p_running (working resolve limit trigger r (pool_run resolve limit trigger rs (pool_start pairs)))) \<le> limit \<and>
   sorted_wrt (\<lambda>p q. \<not> pairs_conflict resolve p q)
     (p_running (working resolve limit trigger r (pool_run resolve limit trigger rs (pool_start pairs))))"
proof -
  have "pool_safe resolve limit (pool_start pairs)" by (simp add: pool_safe_def pool_start_def apart_all_def)
  from working_safe [OF run_safe [OF this]] show ?thesis by (simp add: pool_safe_def apart_all_def)
qed

section \<open>The loop ends with one result per path\<close>

text \<open>\<open>wait(.., FIRST_COMPLETED)\<close> returns with a finished worker.\<close>

fun waits :: "resolver \<Rightarrow> nat \<Rightarrow> string \<Rightarrow> pool_round list \<Rightarrow> pool_state \<Rightarrow> bool" where
  "waits resolve limit trigger [] s = True"
| "waits resolve limit trigger (r # rs) s =
     (pool_done s \<or>
      (list_ex (\<lambda>p. r_finished r p \<noteq> None) (p_running (working resolve limit trigger r s)) \<or>
         p_running (working resolve limit trigger r s) = []) \<and>
      waits resolve limit trigger rs (pool_step resolve limit trigger r s))"

definition pool_load :: "pool_state \<Rightarrow> nat" where
  "pool_load s = length (p_pending s) + length (p_running s)"

lemma working_load:
  "pool_load (working resolve limit trigger r s) + length (p_pending s) =
   pool_load s + length (p_pending (cancel_pending trigger (r_cancelled r) s))"
proof -
  let ?s = "working resolve limit trigger r s"
  obtain st where st: "p_running ?s = p_running s @ st"
      "mset (p_pending (cancel_pending trigger (r_cancelled r) s)) = mset (p_pending ?s) + mset st"
    using start_workers_moves [OF working_running(2) [OF refl]] by blast
  from arg_cong [OF st(2), of size] st(1) show ?thesis by (simp add: pool_load_def)
qed

lemma step_load:
  assumes "\<not> pool_done s" and "0 < limit"
    and "list_ex (\<lambda>p. r_finished r p \<noteq> None) (p_running (working resolve limit trigger r s)) \<or>
      p_running (working resolve limit trigger r s) = []"
  shows "pool_load (pool_step resolve limit trigger r s) < pool_load s"
proof -
  let ?c = "cancel_pending trigger (r_cancelled r) s" and ?s = "working resolve limit trigger r s"
  have le: "length (p_pending ?c) \<le> length (p_pending s)" by (simp add: cancel_pending_def)
  show ?thesis
  proof (cases "p_running ?s = []")
    case True
    then have "p_running s = []" using working_running(1) [OF refl, of resolve limit trigger r s] by auto
    then have "p_pending s \<noteq> []" using assms(1) by (simp add: pool_done_def)
    have "p_pending ?c = []"
      using start_workers_starts working_running(2) [OF refl, of resolve limit trigger r s] True \<open>p_running s = []\<close> assms(2) by metis
    with working_load [of resolve limit trigger r s] \<open>p_pending s \<noteq> []\<close> True show ?thesis
      by (simp add: pool_step_def collect_finished_def pool_load_def)
  next
    case False
    then obtain p where "p \<in> set (p_running ?s)" "r_finished r p \<noteq> None" using assms(3) by (auto simp: list_ex_iff)
    then have "length (filter (\<lambda>p. r_finished r p = None) (p_running ?s)) < length (p_running ?s)"
      by (rule length_filter_less)
    then show ?thesis using working_load [of resolve limit trigger r s] le
      by (simp add: pool_step_def collect_finished_def pool_load_def)
  qed
qed

lemma run_ends:
  "waits resolve limit trigger rs s \<Longrightarrow> 0 < limit \<Longrightarrow> pool_load s \<le> length rs \<Longrightarrow> pool_done (pool_run resolve limit trigger rs s)"
proof (induction rs arbitrary: s)
  case Nil
  then show ?case by (simp add: pool_load_def pool_done_def)
next
  case (Cons r rs)
  show ?case
  proof (cases "pool_done s")
    case False
    from step_load [OF False Cons.prems(2)] Cons.prems False
    have "pool_load (pool_step resolve limit trigger r s) < pool_load s" by auto
    then show ?thesis using Cons.IH [of "pool_step resolve limit trigger r s"] Cons.prems False by simp
  qed simp
qed

subsection \<open>Results\<close>

definition put_results :: "('a \<Rightarrow> 'b option) \<Rightarrow> ('a \<Rightarrow> string) \<Rightarrow> 'a list \<Rightarrow> (string \<times> 'b) list \<Rightarrow> (string \<times> 'b) list" where
  "put_results g k ps res = fold (\<lambda>p acc. case g p of None \<Rightarrow> acc | Some y \<Rightarrow> AList.update (k p) y acc) ps res"

lemma put_results_other:
  "(\<And>p. p \<in> set ps \<Longrightarrow> g p \<noteq> None \<Longrightarrow> k p \<noteq> x) \<Longrightarrow> map_of (put_results g k ps res) x = map_of res x"
proof (induction ps arbitrary: res)
  case (Cons a ps)
  have "map_of (put_results g k (a # ps) res) x = map_of (case g a of None \<Rightarrow> res | Some y \<Rightarrow> AList.update (k a) y res) x"
    using Cons by (simp add: put_results_def)
  then show ?case using Cons.prems [of a] by (simp add: update_conv' split: option.splits)
qed (simp add: put_results_def)

lemma put_results_here:
  assumes "inj_on k (set ps)" and "p \<in> set ps" and "g p = Some y"
  shows "map_of (put_results g k ps res) (k p) = Some y"
  using assms
proof (induction ps arbitrary: res)
  case (Cons a ps)
  show ?case
  proof (cases "p \<in> set ps")
    case True
    with Cons show ?thesis by (simp add: put_results_def split: option.split)
  next
    case False
    then have a: "a = p" using Cons.prems(2) by simp
    have "k q \<noteq> k p" if "q \<in> set ps" for q
      using Cons.prems(1) that False a by (auto simp: inj_on_def)
    then have "map_of (put_results g k ps (AList.update (k p) y res)) (k p) = map_of (AList.update (k p) y res) (k p)"
      by (intro put_results_other) auto
    then show ?thesis using Cons.prems(3) a by (simp add: put_results_def update_conv')
  qed
qed simp

lemma cancelled_results:
  "p_results (cancel_pending trigger c s) = (if c then put_results (\<lambda>p. Some (cancelled_result trigger p))
     (\<lambda>p. str_or (py_get p ''name'') ''?'') (p_pending s) (p_results s) else p_results s)"
  by (simp add: cancel_pending_def put_results_def)

lemma finished_results:
  "p_results (collect_finished trigger f s) =
     put_results (\<lambda>p. map_option (worker_result trigger p) (f p)) path_key (p_running s) (p_results s)"
  unfolding collect_finished_def put_results_def
  by (simp add: option.case_eq_if map_option_is_None option.map_sel cong: if_cong)

definition path_named :: "pydict \<Rightarrow> bool" where
  "path_named pair \<longleftrightarrow> text_of (py_get pair ''name'') \<noteq> []"

lemma named_key: "path_named p \<Longrightarrow> str_or (py_get p ''name'') ''?'' = path_key p"
  by (cases "truthy (py_get p ''name'')") (auto simp: path_named_def text_of_def str_or_def path_key_def py_strip_def)

definition proper_paths :: "pydict list \<Rightarrow> bool" where
  "proper_paths pairs \<longleftrightarrow> list_all path_named pairs \<and> distinct (map path_key pairs)"

definition path_settled :: "pool_round list \<Rightarrow> string \<Rightarrow> pool_state \<Rightarrow> pydict \<Rightarrow> bool" where
  "path_settled rs trigger s p \<longleftrightarrow>
     (if p \<in> set (p_submitted s)
      then (\<exists>r \<in> set rs. \<exists>q. r_finished r p = Some q \<and> map_of (p_results s) (path_key p) = Some (worker_result trigger p q))
      else map_of (p_results s) (path_key p) = Some (cancelled_result trigger p))"

definition pool_wf :: "pool_round list \<Rightarrow> string \<Rightarrow> pydict list \<Rightarrow> pool_state \<Rightarrow> bool" where
  "pool_wf rs trigger pairs s \<longleftrightarrow>
     distinct (p_pending s @ p_running s) \<and> distinct (p_submitted s) \<and>
     set (p_running s) \<subseteq> set (p_submitted s) \<and> set (p_submitted s) \<subseteq> set pairs \<and> set (p_pending s) \<subseteq> set pairs \<and>
     set (p_pending s) \<inter> set (p_submitted s) = {} \<and>
     (\<forall>p \<in> set pairs. p \<notin> set (p_pending s @ p_running s) \<longrightarrow> path_settled rs trigger s p)"

lemma proper_inj: "proper_paths pairs \<Longrightarrow> ps \<subseteq> set pairs \<Longrightarrow> inj_on path_key ps"
  unfolding proper_paths_def distinct_map by (blast intro: inj_on_subset)

lemma proper_keys: "proper_paths pairs \<Longrightarrow> p \<in> set pairs \<Longrightarrow> q \<in> set pairs \<Longrightarrow> path_key p = path_key q \<Longrightarrow> p = q"
  unfolding proper_paths_def distinct_map by (auto dest: inj_onD)

lemma cancel_wf:
  assumes "proper_paths pairs" and "pool_wf rs trigger pairs s"
  shows "pool_wf rs trigger pairs (cancel_pending trigger c s)"
proof (cases "c \<and> p_pending s \<noteq> []")
  case True
  let ?s = "cancel_pending trigger c s"
  let ?k = "\<lambda>p. str_or (py_get p ''name'') ''?''"
  have sub: "set (p_pending s) \<subseteq> set pairs" using assms(2) by (simp add: pool_wf_def)
  have key: "?k p = path_key p" if "p \<in> set pairs" for p
    using assms(1) that by (simp add: proper_paths_def list_all_iff named_key)
  have "inj_on ?k (set (p_pending s)) = inj_on path_key (set (p_pending s))"
    by (rule inj_on_cong) (use key sub in blast)
  then have inj: "inj_on ?k (set (p_pending s))" using proper_inj [OF assms(1) sub] by simp
  have rest: "p_running ?s = p_running s" "p_submitted ?s = p_submitted s" "p_pending ?s = []"
    using True by (simp_all add: cancel_pending_def)
  have "path_settled rs trigger ?s p" if p: "p \<in> set pairs" "p \<notin> set (p_running s)" for p
  proof (cases "p \<in> set (p_pending s)")
    case pend: True
    then have "p \<notin> set (p_submitted s)" using assms(2) by (auto simp: pool_wf_def)
    moreover have "map_of (p_results ?s) (?k p) = Some (cancelled_result trigger p)"
      using put_results_here [OF inj pend, of "\<lambda>p. Some (cancelled_result trigger p)"] True by (simp add: cancelled_results)
    ultimately show ?thesis using key [OF p(1)] by (simp add: path_settled_def rest)
  next
    case False
    have "?k q \<noteq> path_key p" if "q \<in> set (p_pending s)" for q
      using proper_keys [OF assms(1) _ p(1), of q] sub that False key [of q] by auto
    then have "map_of (p_results ?s) (path_key p) = map_of (p_results s) (path_key p)"
      by (simp add: cancelled_results put_results_other)
    then show ?thesis using assms(2) p False by (simp add: pool_wf_def path_settled_def rest)
  qed
  then show ?thesis using assms(2) by (simp add: pool_wf_def rest)
qed (use assms(2) in \<open>auto simp: cancel_pending_def\<close>)

lemma submit_wf:
  assumes "pool_wf rs trigger pairs s"
  shows "pool_wf rs trigger pairs (submit_workers resolve limit s)"
proof -
  obtain pending running where go: "start_workers resolve limit (p_pending s) (p_running s) = (pending, running)"
    by (cases "start_workers resolve limit (p_pending s) (p_running s)")
  obtain st where st: "running = p_running s @ st" "mset (p_pending s) = mset pending + mset st"
    using start_workers_moves [OF go] by blast
  let ?s = "submit_workers resolve limit s"
  have s': "p_pending ?s = pending" "p_running ?s = p_running s @ st" "p_submitted ?s = p_submitted s @ st" "p_results ?s = p_results s"
    by (simp_all add: submit_workers_def go st(1))
  have eq: "mset (p_pending s) = mset (pending @ st)" using st(2) by simp
  then have sets: "set (p_pending s) = set pending \<union> set st" using mset_eq_setD [OF eq] by simp
  have dist: "distinct (pending @ st)" using assms mset_eq_imp_distinct_iff [OF eq] by (simp add: pool_wf_def)
  have "path_settled rs trigger ?s p" if "p \<in> set pairs" "p \<notin> set pending \<union> set (p_running s) \<union> set st" for p
    using assms that sets by (auto simp: pool_wf_def path_settled_def s')
  then show ?thesis using assms dist sets by (auto simp: pool_wf_def s')
qed

lemma collect_wf:
  assumes "proper_paths pairs" and "pool_wf rs trigger pairs s" and "r \<in> set rs"
  shows "pool_wf rs trigger pairs (collect_finished trigger (r_finished r) s)"
proof -
  let ?s = "collect_finished trigger (r_finished r) s"
  have rest: "p_pending ?s = p_pending s" "p_submitted ?s = p_submitted s"
      "p_running ?s = filter (\<lambda>p. r_finished r p = None) (p_running s)"
    by (simp_all add: collect_finished_def)
  have sub: "set (p_running s) \<subseteq> set pairs" "set (p_running s) \<subseteq> set (p_submitted s)" using assms(2) by (auto simp: pool_wf_def)
  have "path_settled rs trigger ?s p"
    if p: "p \<in> set pairs" "p \<notin> set (p_pending s)" "p \<notin> set (p_running ?s)" for p
  proof (cases "p \<in> set (p_running s)")
    case True
    then obtain q where q: "r_finished r p = Some q" using p(3) rest(3) by auto
    have "map_of (p_results ?s) (path_key p) = Some (worker_result trigger p q)"
      unfolding finished_results
      by (rule put_results_here [OF proper_inj [OF assms(1) sub(1)] True]) (simp add: q)
    then show ?thesis using q assms(3) True sub(2) rest(2) by (auto simp: path_settled_def)
  next
    case False
    have "path_key q \<noteq> path_key p" if "q \<in> set (p_running s)" for q
      using proper_keys [OF assms(1) _ p(1)] sub(1) that False by blast
    then have "map_of (p_results ?s) (path_key p) = map_of (p_results s) (path_key p)"
      by (simp add: finished_results put_results_other)
    then show ?thesis using assms(2) p(1,2) False rest(2) by (simp add: pool_wf_def path_settled_def)
  qed
  then show ?thesis using assms(2) by (auto simp: pool_wf_def rest)
qed

lemma run_wf:
  assumes "proper_paths pairs"
  shows "set rs \<subseteq> set all \<Longrightarrow> pool_wf all trigger pairs s \<Longrightarrow> pool_wf all trigger pairs (pool_run resolve limit trigger rs s)"
proof (induction rs arbitrary: s)
  case (Cons r rs)
  have "pool_wf all trigger pairs (pool_step resolve limit trigger r s)"
    unfolding pool_step_def working_def using Cons.prems
    by (intro collect_wf [OF assms] submit_wf cancel_wf [OF assms]) auto
  then show ?case using Cons by simp
qed simp

lemma start_wf: "proper_paths pairs \<Longrightarrow> pool_wf rs trigger pairs (pool_start pairs)"
  by (auto simp: pool_wf_def pool_start_def proper_paths_def distinct_map)

lemma named_text: "path_named p \<Longrightarrow> text_of (py_get p ''name'') = py_strip (path_key p)"
  by (cases "truthy (py_get p ''name'')") (auto simp: path_named_def text_of_def str_or_def path_key_def py_strip_def)

lemma worker_number: "0 < trunc_real (bounded_number v d 1 16) \<and> trunc_real (bounded_number v d 1 16) \<le> 16"
proof -
  have "1 \<le> bounded_number v d 1 16 \<and> bounded_number v d 1 16 \<le> 16"
    using clamp_bounds [of 1 16 d] by (auto simp: bounded_number_def clamp_def split: sum.split nonfin.split)
  then show ?thesis by (auto simp: trunc_real_def le_floor_iff floor_le_iff)
qed

lemma worker_bound: "0 < n \<Longrightarrow> 0 < run_workers backup q n \<and> run_workers backup q n \<le> 16"
proof -
  define k where "k = (if run_mode (q_mode q) = ''sequential'' then 1
    else if q_parallel q \<noteq> PNone then trunc_real (bounded_number (q_parallel q) 1 1 16)
    else trunc_real (bounded_number (py_get_default backup ''max_parallel'' (PInt 2)) 2 1 16))"
  have "0 < k \<and> k \<le> 16" using worker_number by (simp add: k_def)
  moreover have "run_workers backup q n = min (nat k) n" by (simp add: run_workers_def Let_def k_def)
  ultimately show "0 < n \<Longrightarrow> 0 < run_workers backup q n \<and> run_workers backup q n \<le> 16" by auto
qed

lemma prepared_run:
  assumes "prepare_run snapshot q = Inr (Inr n)"
  shows "proper_paths (n_pairs n)" and "0 < n_parallel n" and "n_parallel n \<le> 16"
proof -
  obtain backup pairs where p: "pairs \<noteq> []" "\<not> list_ex (\<lambda>p. text_of (py_get p ''name'') = []) pairs" "\<not> duplicate_names pairs"
      "n_pairs n = pairs" "n_parallel n = run_workers backup q (length pairs)"
    using assms by (auto simp: prepare_run_def split: if_splits)
  have named: "list_all path_named pairs" using p(2) by (simp add: list_all_iff list_ex_iff path_named_def)
  then have "map (\<lambda>p. py_casefold (text_of (py_get p ''name''))) pairs = map (\<lambda>k. py_casefold (py_strip k)) (map path_key pairs)"
    by (auto simp: list_all_iff named_text)
  then have "distinct (map (\<lambda>k. py_casefold (py_strip k)) (map path_key pairs))" using p(3) by (simp only: duplicate_names_def not_not)
  then have "distinct (map path_key pairs)" by (rule distinct_map [THEN iffD1, THEN conjunct1])
  with named show "proper_paths (n_pairs n)" by (simp add: proper_paths_def p(4))
  show "0 < n_parallel n" "n_parallel n \<le> 16" using worker_bound [of "length pairs" backup q] p(1,5) by auto
qed

text \<open>C17: When the workers of a prepared run keep finishing, the loop of \<open>run_job\<close> ends after at most as many rounds as
  there are data paths. Then every selected path was given to a worker at most once and has exactly one result: that
  of its worker if it was started, that of a cancellation if it was not.\<close>

theorem every_path_ends_with_its_result:
  assumes "prepare_run snapshot q = Inr (Inr n)" and "length (n_pairs n) \<le> length rs"
    and "waits resolve (n_parallel n) trigger rs (pool_start (n_pairs n))"
  shows "\<exists>s. pool_run resolve (n_parallel n) trigger rs (pool_start (n_pairs n)) = s \<and> pool_done s \<and> distinct (p_submitted s) \<and>
    set (p_submitted s) \<subseteq> set (n_pairs n) \<and> (\<forall>p \<in> set (n_pairs n). path_settled rs trigger s p)"
proof -
  note n = prepared_run [OF assms(1)]
  let ?s = "pool_run resolve (n_parallel n) trigger rs (pool_start (n_pairs n))"
  have load: "pool_load (pool_start (n_pairs n)) \<le> length rs" using assms(2) by (simp add: pool_load_def pool_start_def)
  have fin: "pool_done ?s" by (rule run_ends [OF assms(3) n(2) load])
  have wf: "pool_wf rs trigger (n_pairs n) ?s" by (rule run_wf [OF n(1) subset_refl start_wf [OF n(1)]])
  have "p_pending ?s = []" "p_running ?s = []" using fin by (simp_all add: pool_done_def)
  with wf fin show ?thesis by (auto simp: pool_wf_def)
qed

section \<open>The summary\<close>

lemma setdefault_get: "k' \<noteq> k \<Longrightarrow> py_get (py_setdefault d k v) k' = py_get d k'"
  by (simp add: py_setdefault_def)

lemma worker_ok:
  assumes "truthy (py_get (worker_result trigger p q) ''ok'')"
  shows "\<exists>d. q = Answered d \<and> truthy (py_get d ''ok'')"
proof (cases q)
  case (Raised e)
  then have "py_get (worker_result trigger p q) ''ok'' = PBool False"
    by (simp add: worker_result_def setdefault_get) (simp add: py_get_def)
  with assms show ?thesis by simp
qed (use assms in \<open>simp add: worker_result_def setdefault_get\<close>)

lemma settled_ok:
  assumes "path_settled rs trigger s p" and "truthy (py_get (path_result env s p) ''ok'')"
  shows "\<exists>r \<in> set rs. \<exists>d. r_finished r p = Some (Answered d) \<and> truthy (py_get d ''ok'')"
proof (cases "p \<in> set (p_submitted s)")
  case True
  then obtain r q where r: "r \<in> set rs" "r_finished r p = Some q" "map_of (p_results s) (path_key p) = Some (worker_result trigger p q)"
    using assms(1) by (auto simp: path_settled_def)
  then have "truthy (py_get (worker_result trigger p q) ''ok'')" using assms(2) by (simp add: path_result_def setdefault_get)
  then show ?thesis using r worker_ok by blast
next
  case False
  then have "py_get (path_result env s p) ''ok'' = py_get (cancelled_result trigger p) ''ok''"
    using assms(1) by (simp add: path_settled_def path_result_def setdefault_get)
  then show ?thesis using assms(2) by (simp add: cancelled_result_def) (simp add: py_get_def)
qed

lemma all_ok: "ok_count rs = length rs \<longleftrightarrow> list_all (\<lambda>r. truthy (py_get r ''ok'')) rs"
proof
  assume "ok_count rs = length rs"
  then have "\<not> (x \<in> set rs \<and> \<not> truthy (py_get x ''ok''))" for x
    using length_filter_less [of x rs "\<lambda>r. truthy (py_get r ''ok'')"] by (auto simp: ok_count_def)
  then show "list_all (\<lambda>r. truthy (py_get r ''ok'')) rs" by (auto simp: list_all_iff)
next
  assume "list_all (\<lambda>r. truthy (py_get r ''ok'')) rs"
  then have "filter (\<lambda>r. truthy (py_get r ''ok'')) rs = rs" by (simp add: list_all_iff filter_id_conv)
  then show "ok_count rs = length rs" by (simp add: ok_count_def)
qed

text \<open>A run of \<open>run_job\<close> is reported as successful only when every selected data path was started and its worker
  answered with success, and nothing was cancelled.\<close>

theorem successful_run_covers_every_path:
  assumes "prepare_run snapshot q = Inr (Inr n)" and "run_job env resolve snapshot q rounds f = Inr (Some summary)"
    and "py_get summary ''ok'' = PBool True"
  shows "\<not> f_cancelled f \<and>
    (\<forall>p \<in> set (n_pairs n). \<exists>r \<in> set rounds. \<exists>d. r_finished r p = Some (Answered d) \<and> truthy (py_get d ''ok''))"
proof -
  note n = prepared_run [OF assms(1)]
  let ?s = "pool_run resolve (n_parallel n) (n_trigger n) rounds (pool_start (n_pairs n))"
  let ?results = "map (path_result env ?s) (n_pairs n)"
  have fin: "pool_done ?s" and summary: "summary = run_summary resolve q n f ?results"
    using assms(1,2) by (auto simp: run_job_def Let_def split: if_splits)
  have ok: "run_ok n f ?results" using assms(3) by (simp add: summary run_summary_def py_get_def)
  have "pool_wf rounds (n_trigger n) (n_pairs n) ?s" by (rule run_wf [OF n(1) subset_refl start_wf [OF n(1)]])
  then have settled: "path_settled rounds (n_trigger n) ?s p" if "p \<in> set (n_pairs n)" for p
    using that fin by (simp add: pool_wf_def pool_done_def)
  have "list_all (\<lambda>r. truthy (py_get r ''ok'')) ?results" using ok all_ok [of ?results] by (simp add: run_ok_def)
  with settled settled_ok ok show ?thesis by (fastforce simp: run_ok_def list_all_iff)
qed

section \<open>One run\<close>

definition demo_run_path :: "string \<Rightarrow> string \<Rightarrow> pydict" where
  "demo_run_path name local = [(''name'', PStr name), (''remote'', PStr (''cloud:'' @ name)), (''local'', PStr local)]"

definition demo_run_snapshot :: pydict where
  "demo_run_snapshot = [(''backup'', PDict [(''pairs'', PList [PDict (demo_run_path ''a'' ''/a''), PDict (demo_run_path ''b'' ''/a/b'')])])]"

definition demo_request :: run_request where
  "demo_request = \<lparr>q_dry_run = False, q_pairs = [], q_trigger = PNone, q_job_id = PNone, q_mode = PNone, q_parallel = PNone,
     q_definition_id = PNone, q_definition_name = PNone, q_revision = [], q_slot = PNone\<rparr>"

definition demo_round :: pool_round where
  "demo_round = \<lparr>r_cancelled = False, r_finished = (\<lambda>_. Some (Answered [(''ok'', PBool True)]))\<rparr>"

definition demo_resolve :: resolver where
  "demo_resolve p = Some (path_components p)"

definition demo_facts_of_run :: run_facts where
  "demo_facts_of_run = \<lparr>f_started_at = [], f_duration = 1, f_run_id = ''r'', f_cancelled = False\<rparr>"

definition demo_sched :: sched_env where
  "demo_sched = \<lparr>env_valid = (\<lambda>_. True), env_zone = (\<lambda>_. True), env_next = (\<lambda>_ _ t. Inr t), env_prev = (\<lambda>_ _ t. Inr t),
     env_wall = (\<lambda>_ _. []), env_message = (\<lambda>_. []), env_digest = (\<lambda>s. s), env_uid = (\<lambda>s. s)\<rparr>"

lemma demo_prepared:
  "case prepare_run demo_run_snapshot demo_request of
     Inr (Inr n) \<Rightarrow> n_pairs n = [demo_run_path ''a'' ''/a'', demo_run_path ''b'' ''/a/b''] \<and> n_parallel n = 2 \<and> n_trigger n = ''manual''
   | _ \<Rightarrow> False"
  by code_simp

lemma demo_plan:
  obtains n where "prepare_run demo_run_snapshot demo_request = Inr (Inr n)"
    and "n_pairs n = [demo_run_path ''a'' ''/a'', demo_run_path ''b'' ''/a/b'']" and "n_parallel n = 2" and "n_trigger n = ''manual''"
  using demo_prepared by (auto split: sum.splits)

lemma every_path_ends_with_its_result_witness:
  "\<exists>s. pool_run demo_resolve 2 ''manual'' [demo_round, demo_round]
       (pool_start [demo_run_path ''a'' ''/a'', demo_run_path ''b'' ''/a/b'']) = s \<and> pool_done s \<and>
     path_settled [demo_round, demo_round] ''manual'' s (demo_run_path ''b'' ''/a/b'')"
proof (rule demo_plan)
  fix n assume n: "prepare_run demo_run_snapshot demo_request = Inr (Inr n)"
    "n_pairs n = [demo_run_path ''a'' ''/a'', demo_run_path ''b'' ''/a/b'']" "n_parallel n = 2" "n_trigger n = ''manual''"
  have "waits demo_resolve 2 ''manual'' [demo_round, demo_round] (pool_start [demo_run_path ''a'' ''/a'', demo_run_path ''b'' ''/a/b''])"
    by code_simp
  with every_path_ends_with_its_result [OF n(1), of "[demo_round, demo_round]" demo_resolve "''manual''"] n show ?thesis by auto
qed

lemma demo_run_succeeds:
  "case run_job demo_sched demo_resolve demo_run_snapshot demo_request [demo_round, demo_round] demo_facts_of_run of
     Inr (Some summary) \<Rightarrow> py_get summary ''ok'' = PBool True | _ \<Rightarrow> False"
  by code_simp

lemma successful_run_covers_every_path_witness:
  "\<exists>r \<in> set [demo_round, demo_round]. \<exists>d. r_finished r (demo_run_path ''b'' ''/a/b'') = Some (Answered d) \<and> truthy (py_get d ''ok'')"
proof (rule demo_plan)
  fix n assume n: "prepare_run demo_run_snapshot demo_request = Inr (Inr n)"
    "n_pairs n = [demo_run_path ''a'' ''/a'', demo_run_path ''b'' ''/a/b'']"
  obtain summary where "run_job demo_sched demo_resolve demo_run_snapshot demo_request [demo_round, demo_round] demo_facts_of_run
      = Inr (Some summary)" "py_get summary ''ok'' = PBool True"
    using demo_run_succeeds by (auto split: sum.splits option.splits)
  from successful_run_covers_every_path [OF n(1) this] n(2) show ?thesis by simp
qed

end
