(* ===== verification/Endpoint_Guards.thy ===== *)
theory Endpoint_Guards
  imports Pair_Command
begin

unbundle bit_operations_syntax

text \<open>
  The guards on local directories in \<open>jobs/rclone_sync.py\<close>: what is checked before a run, what is remembered of the
  ends of a data path, and what is checked again right before rclone is started. The record \<open>fs\<close> is the file system at
  one moment; the identity of a path is what \<open>resolve(strict=True)\<close> and \<open>stat\<close> answer, \<open>None\<close> where they raise.
  A check answers \<open>None\<close> when it passes, and otherwise why it does not.
\<close>

record file_info =
  i_dir :: bool
  i_link :: bool
  i_uid :: int
  i_mode :: nat

datatype lookup = Missing | Unreadable | Found file_info

record identity =
  d_resolved :: string
  d_device :: int
  d_inode :: int

record fs =
  f_posix :: bool
  f_euid :: int
  f_cwd :: string
  f_lstat :: "string \<Rightarrow> lookup"
  f_exists :: "string \<Rightarrow> bool"
  f_is_dir :: "string \<Rightarrow> bool"
  f_is_file :: "string \<Rightarrow> bool"
  f_symlink :: "string \<Rightarrow> bool"
  f_mounted :: "string \<Rightarrow> bool"
  f_resolve :: "string \<Rightarrow> string list option"
  f_identity :: "string \<Rightarrow> identity option"
  f_files :: "string \<Rightarrow> nat list"
  f_free :: "string \<Rightarrow> int"

subsection \<open>Ends and settings\<close>

definition local_endpoint_fields :: "pydict \<Rightarrow> (string \<times> string) list" where
  "local_endpoint_fields pair =
     filter (\<lambda>kv. snd kv \<noteq> [] \<and> \<not> is_remote (snd kv)) (map (\<lambda>k. (k, str_or (py_get pair k) [])) [''remote'', ''local''])"

record endpoint_settings =
  g_require_mount :: bool
  g_mountpoint :: string
  g_sentinel :: string
  g_min_files :: int
  g_check_files :: bool
  g_destination :: bool

definition guard_direction :: "pydict \<Rightarrow> string" where
  "guard_direction pair = py_lower (str_or (py_get pair ''direction'') ''bisync'')"

definition min_files_value :: "string \<Rightarrow> pyval \<Rightarrow> int result" where
  "min_files_value k v =
     (case py_int (if v \<noteq> PNone then v else PInt 0) of
        Inr n \<Rightarrow> Inr (max 0 n)
      | Inl (ValueError _) \<Rightarrow> Inr (if k = ''remote'' then 0 else 1)
      | Inl TypeError \<Rightarrow> Inr (if k = ''remote'' then 0 else 1)
      | Inl e \<Rightarrow> Inl e)"

definition endpoint_guard_settings :: "pydict \<Rightarrow> string \<Rightarrow> string \<Rightarrow> endpoint_settings result" where
  "endpoint_guard_settings pair k path =
     (let direction = guard_direction pair in
      if k = ''remote'' then
        bind_result (min_files_value k (py_get_default pair ''min_remote_files'' (PInt 0))) (\<lambda>n.
          Inr \<lparr>g_require_mount = False, g_mountpoint = path, g_sentinel = [], g_min_files = n,
            g_check_files = direction \<in> {''pull'', ''bisync''} \<or> 0 < n, g_destination = direction \<in> {''push'', ''bisync''}\<rparr>)
      else
        bind_result (min_files_value k (py_get_default pair ''min_local_files'' (PInt 1))) (\<lambda>n.
          Inr \<lparr>g_require_mount = truthy (py_get pair ''require_mountpoint''),
            g_mountpoint = str_or (py_get pair ''mountpoint'') path, g_sentinel = text_of (py_get pair ''sentinel_file''),
            g_min_files = n, g_check_files = True, g_destination = direction \<in> {''pull'', ''bisync''}\<rparr>))"

subsection \<open>Ancestors\<close>

text \<open>\<open>Path.parents\<close>.\<close>

definition path_parents :: "string \<Rightarrow> string list" where
  "path_parents p =
     (let cs = path_components p in
      map (\<lambda>n. let t = posix_root p @ py_join ''/'' (take n cs) in if t = [] then ''.'' else t) (rev [0..<length cs]))"

definition absolute_path :: "fs \<Rightarrow> string \<Rightarrow> string" where
  "absolute_path fs p = (if py_startswith p ''/'' then p else posix_join (f_cwd fs) p)"

definition join_path :: "string \<Rightarrow> string \<Rightarrow> string" where
  "join_path base leaf = (if py_startswith leaf ''/'' then leaf else posix_join base leaf)"

definition allowed_owners :: "fs \<Rightarrow> int list" where
  "allowed_owners fs = [0, f_euid fs]"

text \<open>An ancestor others may write to is only safe as a sticky directory of root above a child of our own.\<close>

definition sticky_owned :: "fs \<Rightarrow> file_info \<Rightarrow> string \<Rightarrow> bool" where
  "sticky_owned fs i child \<longleftrightarrow>
     (case f_lstat fs child of
        Found c \<Rightarrow> i_uid i = 0 \<and> i_mode i AND 512 \<noteq> 0 \<and> i_uid c \<in> set (allowed_owners fs) \<and> \<not> i_link c
      | _ \<Rightarrow> False)"

definition ancestor_safe :: "fs \<Rightarrow> file_info \<Rightarrow> string \<Rightarrow> bool" where
  "ancestor_safe fs i child \<longleftrightarrow>
     i_dir i \<and> i_uid i \<in> set (allowed_owners fs) \<and> (i_mode i AND 18 = 0 \<or> sticky_owned fs i child)"

fun ancestors_safe :: "fs \<Rightarrow> string \<Rightarrow> string list \<Rightarrow> bool" where
  "ancestors_safe fs child [] = True"
| "ancestors_safe fs child (p # ps) =
     (case f_lstat fs p of
        Missing \<Rightarrow> ancestors_safe fs p ps
      | Unreadable \<Rightarrow> False
      | Found i \<Rightarrow> ancestor_safe fs i child \<and> ancestors_safe fs p ps)"

definition parent_guard :: "fs \<Rightarrow> string \<Rightarrow> string option" where
  "parent_guard fs path =
     (if \<not> f_posix fs then None
      else if \<not> ancestors_safe fs (absolute_path fs path) (path_parents (absolute_path fs path))
        then Some ''Unsicherer oder fremder Pfadvorfahr''
      else if f_symlink fs path then Some ''Lokale Endpunkte duerfen keine symbolischen Links sein''
      else None)"

subsection \<open>One end\<close>

fun count_files :: "int \<Rightarrow> int \<Rightarrow> nat list \<Rightarrow> int" where
  "count_files limit n [] = n"
| "count_files limit n (k # ks) = (if limit \<le> n + int k then n + int k else count_files limit (n + int k) ks)"

definition count_files_up_to :: "fs \<Rightarrow> string \<Rightarrow> int \<Rightarrow> int" where
  "count_files_up_to fs path limit = (if limit \<le> 0 then 0 else count_files limit 0 (f_files fs path))"

definition nearest_existing_path :: "fs \<Rightarrow> string \<Rightarrow> string option" where
  "nearest_existing_path fs path = find (f_exists fs) (path # path_parents path)"

definition under :: "fs \<Rightarrow> string \<Rightarrow> string \<Rightarrow> bool" where
  "under fs path base \<longleftrightarrow>
     (case (f_resolve fs path, f_resolve fs base) of (Some p, Some b) \<Rightarrow> inside p b | _ \<Rightarrow> False)"

definition mount_check :: "fs \<Rightarrow> endpoint_settings \<Rightarrow> string \<Rightarrow> string option" where
  "mount_check fs g path =
     (if \<not> g_require_mount g then None
      else if \<not> f_exists fs (g_mountpoint g) \<or> \<not> f_mounted fs (g_mountpoint g) then Some ''Erwarteter Mountpoint ist nicht eingehaengt''
      else if \<not> under fs path (g_mountpoint g) then Some ''liegt nicht unter dem Mountpoint''
      else None)"

definition sentinel_check :: "fs \<Rightarrow> endpoint_settings \<Rightarrow> string \<Rightarrow> string option" where
  "sentinel_check fs g path =
     (if g_sentinel g \<noteq> [] \<and> \<not> f_is_file fs (join_path path (g_sentinel g)) then Some ''Sentinel-Datei fehlt'' else None)"

text \<open>\<open>max(0.0, float(.. or 0))\<close>; \<open>None\<close> is an infinite amount.\<close>

definition min_free_gb :: "pydict \<Rightarrow> real option result" where
  "min_free_gb pair =
     (case py_float_any (py_or (py_get_default pair ''min_free_gb'' (PInt 0)) (PInt 0)) of
        Inr (Inr r) \<Rightarrow> Inr (Some (max 0 r))
      | Inr (Inl PosInf) \<Rightarrow> Inr None
      | Inr (Inl _) \<Rightarrow> Inr (Some 0)
      | Inl (ValueError _) \<Rightarrow> Inr (Some 0)
      | Inl TypeError \<Rightarrow> Inr (Some 0)
      | Inl e \<Rightarrow> Inl e)"

definition enough_space :: "real option \<Rightarrow> int \<Rightarrow> bool" where
  "enough_space needed free = (case needed of None \<Rightarrow> False | Some r \<Rightarrow> r \<le> real_of_int free / 1024 ^ 3)"

definition space_check :: "fs \<Rightarrow> pydict \<Rightarrow> endpoint_settings \<Rightarrow> string \<Rightarrow> string option result" where
  "space_check fs pair g path =
     (if \<not> g_destination g then Inr None
      else bind_result (min_free_gb pair) (\<lambda>needed.
        Inr (if needed = Some 0 then None
             else case nearest_existing_path fs path of
                 None \<Rightarrow> Some ''Freier Speicher konnte nicht bestimmt werden''
               | Some p \<Rightarrow> if enough_space needed (f_free fs p) then None else Some ''Zu wenig freier Speicher'')))"

definition files_check :: "fs \<Rightarrow> endpoint_settings \<Rightarrow> string \<Rightarrow> string option" where
  "files_check fs g path =
     (if \<not> g_check_files g \<or> g_min_files g \<le> 0 then None
      else if \<not> f_exists fs path then Some ''fehlt''
      else if count_files_up_to fs path (g_min_files g) < g_min_files g then Some ''Mount-Drop vermutet''
      else None)"

definition or_else :: "string option \<Rightarrow> string option result \<Rightarrow> string option result" where
  "or_else c rest = (case c of Some m \<Rightarrow> Inr (Some m) | None \<Rightarrow> rest)"

definition check_local_endpoint :: "fs \<Rightarrow> pydict \<Rightarrow> string \<Rightarrow> string \<Rightarrow> bool \<Rightarrow> bool \<Rightarrow> string option result" where
  "check_local_endpoint fs pair k path counts free =
     or_else (parent_guard fs path)
       (bind_result (endpoint_guard_settings pair k path) (\<lambda>g.
          or_else (mount_check fs g path) (or_else (sentinel_check fs g path)
            (bind_result (if free then space_check fs pair g path else Inr None) (\<lambda>c.
              or_else c (Inr (if counts then files_check fs g path else None)))))))"

subsection \<open>Remembering the ends\<close>

record endpoint_guard =
  e_identity :: identity
  e_mount :: "identity option"
  e_sentinel :: "identity option"

definition path_identity :: "fs \<Rightarrow> string \<Rightarrow> identity result" where
  "path_identity fs p = (case f_identity fs p of None \<Rightarrow> Inl (OSError ''stat'') | Some i \<Rightarrow> Inr i)"

definition optional_identity :: "fs \<Rightarrow> bool \<Rightarrow> string \<Rightarrow> identity option result" where
  "optional_identity fs wanted p = (if wanted then bind_result (path_identity fs p) (\<lambda>i. Inr (Some i)) else Inr None)"

definition capture_endpoint :: "fs \<Rightarrow> pydict \<Rightarrow> string \<times> string \<Rightarrow> (string \<times> endpoint_guard) result" where
  "capture_endpoint fs pair kp =
     bind_result (endpoint_guard_settings pair (fst kp) (snd kp)) (\<lambda>g.
     bind_result (path_identity fs (snd kp)) (\<lambda>i.
     bind_result (optional_identity fs (g_require_mount g) (g_mountpoint g)) (\<lambda>m.
     bind_result (optional_identity fs (g_sentinel g \<noteq> []) (join_path (snd kp) (g_sentinel g))) (\<lambda>s.
       Inr (fst kp, \<lparr>e_identity = i, e_mount = m, e_sentinel = s\<rparr>)))))"

definition capture_endpoint_guards :: "fs \<Rightarrow> pydict \<Rightarrow> (string \<times> endpoint_guard) list result" where
  "capture_endpoint_guards fs pair = collect (capture_endpoint fs pair) (local_endpoint_fields pair)"

text \<open>The directories that are created before the identities are taken.\<close>

definition new_destinations :: "fs \<Rightarrow> pydict \<Rightarrow> string list result" where
  "new_destinations fs pair =
     bind_result (collect (\<lambda>kp. bind_result (endpoint_guard_settings pair (fst kp) (snd kp)) (\<lambda>g.
         Inr (g_destination g \<and> \<not> f_exists fs (snd kp), snd kp))) (local_endpoint_fields pair)) (\<lambda>ps.
       Inr (map snd (filter fst ps)))"

definition same_identity :: "fs \<Rightarrow> string \<Rightarrow> identity option \<Rightarrow> bool" where
  "same_identity fs p known \<longleftrightarrow> f_identity fs p \<noteq> None \<and> f_identity fs p = known"

text \<open>The inner try: an identity that cannot be taken refuses the start as well.\<close>

definition recheck_endpoint :: "fs \<Rightarrow> pydict \<Rightarrow> (string \<times> endpoint_guard) list \<Rightarrow> string \<times> string \<Rightarrow> string option result" where
  "recheck_endpoint fs pair guards kp =
     bind_result (check_local_endpoint fs pair (fst kp) (snd kp) False False) (\<lambda>c.
       case c of Some m \<Rightarrow> Inr (Some m)
       | None \<Rightarrow> (case map_of guards (fst kp) of
            None \<Rightarrow> Inr (Some ''Kein Identitaets-Snapshot vorhanden'')
          | Some e \<Rightarrow>
              if \<not> same_identity fs (snd kp) (Some (e_identity e)) then Inr (Some ''Pfadidentitaet hat sich geaendert'')
              else bind_result (endpoint_guard_settings pair (fst kp) (snd kp)) (\<lambda>g.
                Inr (if g_require_mount g \<and> \<not> same_identity fs (g_mountpoint g) (e_mount e)
                     then Some ''Mountpoint-Identitaet hat sich geaendert''
                     else if g_sentinel g \<noteq> [] \<and> \<not> same_identity fs (join_path (snd kp) (g_sentinel g)) (e_sentinel e)
                     then Some ''Sentinel-Identitaet hat sich geaendert''
                     else None))))"

fun recheck_fields :: "fs \<Rightarrow> pydict \<Rightarrow> (string \<times> endpoint_guard) list \<Rightarrow> (string \<times> string) list \<Rightarrow> string option result" where
  "recheck_fields fs pair guards [] = Inr None"
| "recheck_fields fs pair guards (kp # kps) =
     bind_result (recheck_endpoint fs pair guards kp) (\<lambda>c. or_else c (recheck_fields fs pair guards kps))"

definition recheck_endpoint_guards :: "fs \<Rightarrow> pydict \<Rightarrow> (string \<times> endpoint_guard) list \<Rightarrow> string option result" where
  "recheck_endpoint_guards fs pair guards = recheck_fields fs pair guards (local_endpoint_fields pair)"

subsection \<open>Before the run\<close>

text \<open>What running \<open>rclone lsjson --stat\<close> and \<open>rclone size\<close> on a remote path led to.\<close>

datatype probe = Exited int string | Not_run string

record remote_probes =
  b_stat :: "string \<Rightarrow> probe"
  b_count :: "string \<Rightarrow> int option"

definition missing_texts :: "string list" where
  "missing_texts = [''directory not found'', ''object not found'', ''path not found'']"

definition parent_of :: "string \<Rightarrow> string" where
  "parent_of p = (case path_parents p of [] \<Rightarrow> (if posix_root p = [] then ''.'' else posix_root p) | q # _ \<Rightarrow> q)"

definition remote_reachable :: "fs \<Rightarrow> remote_probes \<Rightarrow> string \<Rightarrow> bool \<Rightarrow> bool" where
  "remote_reachable fs b path allow_missing =
     (if path = [] then False
      else if is_remote path then
        (case b_stat b path of
           Not_run _ \<Rightarrow> False
         | Exited rc err \<Rightarrow> rc = 0 \<or>
             list_ex (\<lambda>t. sublist t (py_lower (take 500 (py_strip err)))) missing_texts \<and> allow_missing)
      else f_exists fs path \<and> f_is_dir fs path \<or>
        allow_missing \<and> f_exists fs (parent_of path) \<and> f_is_dir fs (parent_of path))"

fun check_fields :: "fs \<Rightarrow> pydict \<Rightarrow> (string \<times> string) list \<Rightarrow> string option result" where
  "check_fields fs pair [] = Inr None"
| "check_fields fs pair (kp # kps) =
     bind_result (check_local_endpoint fs pair (fst kp) (snd kp) True True) (\<lambda>c. or_else c (check_fields fs pair kps))"

definition count_check :: "remote_probes \<Rightarrow> string \<Rightarrow> int \<Rightarrow> string option" where
  "count_check b remote n =
     (case b_count b remote of
        None \<Rightarrow> Some ''Remote-Dateischutz konnte nicht geprueft werden''
      | Some k \<Rightarrow> if k < n then Some ''zu wenige Dateien'' else None)"

definition precheck_pair :: "fs \<Rightarrow> remote_probes \<Rightarrow> pydict \<Rightarrow> string option result" where
  "precheck_pair fs b pair =
     (let remote = str_or (py_get pair ''remote'') []; local = str_or (py_get pair ''local'') [];
          direction = guard_direction pair in
      if \<not> remote_reachable fs b remote (direction = ''push'') \<or> \<not> remote_reachable fs b local (direction = ''pull'')
      then Inr (Some ''Pre-Check fehlgeschlagen'')
      else bind_result (py_int (py_or (py_get_default pair ''min_remote_files'' (PInt 0)) (PInt 0))) (\<lambda>n.
        or_else (if 0 < n \<and> direction \<in> {''pull'', ''bisync''} \<and> is_remote remote then count_check b remote n else None)
          (check_fields fs pair (local_endpoint_fields pair))))"

end
