(* ===== verification/Endpoint_Theorems.thy ===== *)
theory Endpoint_Theorems
  imports Endpoint_Guards Config_Demo
begin

text \<open>
  What the guards on local directories guarantee: rclone is started on the directories that were checked, and a path
  whose target disk is not mounted does not run.
\<close>

lemma or_else_None: "or_else c rest = Inr None \<longleftrightarrow> c = None \<and> rest = Inr None"
  by (cases c) (simp_all add: or_else_def)

lemma check_passed:
  assumes "check_local_endpoint fs pair k path counts free = Inr None"
  obtains g where "endpoint_guard_settings pair k path = Inr g" and "parent_guard fs path = None"
    and "mount_check fs g path = None" and "sentinel_check fs g path = None"
    and "counts \<Longrightarrow> files_check fs g path = None"
proof -
  have up: "parent_guard fs path = None"
    and rest: "bind_result (endpoint_guard_settings pair k path) (\<lambda>g.
          or_else (mount_check fs g path) (or_else (sentinel_check fs g path)
            (bind_result (if free then space_check fs pair g path else Inr None) (\<lambda>c.
              or_else c (Inr (if counts then files_check fs g path else None)))))) = Inr None"
    using assms unfolding check_local_endpoint_def or_else_None by blast+
  show thesis
  proof (cases "endpoint_guard_settings pair k path")
    case (Inr g)
    have "mount_check fs g path = None" "sentinel_check fs g path = None" "counts \<Longrightarrow> files_check fs g path = None"
      using rest Inr by (auto simp: or_else_None split: if_splits)
    then show thesis using that [OF Inr up] by blast
  qed (use rest in simp)
qed

lemma ancestors_found:
  "ancestors_safe fs child ps \<Longrightarrow> p \<in> set ps \<Longrightarrow> f_lstat fs p = Found i \<Longrightarrow> i_dir i \<and> i_uid i \<in> {0, f_euid fs}"
  by (induction fs child ps rule: ancestors_safe.induct) (auto simp: ancestor_safe_def allowed_owners_def split: lookup.splits)

lemma parent_guard_passed:
  assumes "parent_guard fs path = None" and "f_posix fs"
  shows "\<not> f_symlink fs path"
    and "p \<in> set (path_parents (absolute_path fs path)) \<Longrightarrow> f_lstat fs p = Found i \<Longrightarrow> i_dir i \<and> i_uid i \<in> {0, f_euid fs}"
  using assms ancestors_found by (auto simp: parent_guard_def split: if_splits)

lemma recheck_member:
  "recheck_fields fs pair guards kps = Inr None \<Longrightarrow> kp \<in> set kps \<Longrightarrow> recheck_endpoint fs pair guards kp = Inr None"
  by (induction kps) (auto simp: or_else_None)

lemma check_member:
  "check_fields fs pair kps = Inr None \<Longrightarrow> kp \<in> set kps \<Longrightarrow> check_local_endpoint fs pair (fst kp) (snd kp) True True = Inr None"
  by (induction kps) (auto simp: or_else_None)

lemma endpoint_keys: "distinct (map fst (local_endpoint_fields pair))"
  by (simp add: local_endpoint_fields_def)

lemma captured_keys:
  assumes "capture_endpoint_guards fs pair = Inr guards"
  shows "map fst guards = map fst (local_endpoint_fields pair)"
proof -
  have "list_all2 (\<lambda>kp e. capture_endpoint fs pair kp = Inr e) (local_endpoint_fields pair) guards"
    using assms by (simp add: capture_endpoint_guards_def collect_Inr_iff)
  then show ?thesis by (induction rule: list_all2_induct) (auto simp: capture_endpoint_def)
qed

lemma captured_endpoint:
  assumes "capture_endpoint_guards fs pair = Inr guards" and "(k, path) \<in> set (local_endpoint_fields pair)"
  obtains e where "map_of guards k = Some e" and "capture_endpoint fs pair (k, path) = Inr (k, e)"
proof -
  have all: "list_all2 (\<lambda>kp e. capture_endpoint fs pair kp = Inr e) (local_endpoint_fields pair) guards"
    using assms(1) by (simp add: capture_endpoint_guards_def collect_Inr_iff)
  obtain j where j: "j < length (local_endpoint_fields pair)" "local_endpoint_fields pair ! j = (k, path)"
    using assms(2) by (metis in_set_conv_nth)
  have cap: "capture_endpoint fs pair (k, path) = Inr (guards ! j)" using list_all2_nthD [OF all j(1)] j(2) by simp
  then obtain e where e: "guards ! j = (k, e)" by (cases "guards ! j") (auto simp: capture_endpoint_def)
  have "j < length guards" using all j(1) by (simp add: list_all2_lengthD)
  then have "(k, e) \<in> set guards" using e by (metis nth_mem)
  then have "map_of guards k = Some e"
    using endpoint_keys captured_keys [OF assms(1)] by (metis map_of_is_SomeI)
  then show ?thesis using cap e that by simp
qed

lemma same_identityD: "same_identity fs p known \<Longrightarrow> f_identity fs p = known \<and> f_identity fs p \<noteq> None"
  unfolding same_identity_def by blast

text \<open>C9: When the check right before the start of rclone passes against the guards captured after the precheck, every
  local end of the data path, its required mount point and its sentinel file are still the same objects as then, the
  end is no symbolic link, the mount point is mounted above it, and every ancestor is a directory of root or
  of the service.\<close>

theorem start_sees_the_captured_ends:
  assumes "capture_endpoint_guards fs0 pair = Inr guards" and "recheck_endpoint_guards fs pair guards = Inr None"
    and "(k, path) \<in> set (local_endpoint_fields pair)"
  shows "\<exists>g. endpoint_guard_settings pair k path = Inr g \<and>
    f_identity fs path = f_identity fs0 path \<and> f_identity fs path \<noteq> None \<and>
    (f_posix fs \<longrightarrow> \<not> f_symlink fs path \<and>
      (\<forall>p \<in> set (path_parents (absolute_path fs path)). \<forall>i. f_lstat fs p = Found i \<longrightarrow> i_dir i \<and> i_uid i \<in> {0, f_euid fs})) \<and>
    (g_require_mount g \<longrightarrow> f_mounted fs (g_mountpoint g) \<and> under fs path (g_mountpoint g) \<and>
      f_identity fs (g_mountpoint g) = f_identity fs0 (g_mountpoint g)) \<and>
    (g_sentinel g \<noteq> [] \<longrightarrow> f_is_file fs (join_path path (g_sentinel g)) \<and>
      f_identity fs (join_path path (g_sentinel g)) = f_identity fs0 (join_path path (g_sentinel g)))"
proof (rule captured_endpoint [OF assms(1,3)])
  fix e assume e: "map_of guards k = Some e" "capture_endpoint fs0 pair (k, path) = Inr (k, e)"
  have again: "recheck_endpoint fs pair guards (k, path) = Inr None"
    using recheck_member assms(2,3) by (simp add: recheck_endpoint_guards_def)
  then have passed: "check_local_endpoint fs pair k path False False = Inr None"
    by (auto simp: recheck_endpoint_def split: option.splits)
  obtain g where g: "endpoint_guard_settings pair k path = Inr g" "parent_guard fs path = None"
      "mount_check fs g path = None" "sentinel_check fs g path = None"
    using check_passed [OF passed] by blast
  have same: "same_identity fs path (Some (e_identity e))"
      "g_require_mount g \<longrightarrow> same_identity fs (g_mountpoint g) (e_mount e)"
      "g_sentinel g \<noteq> [] \<longrightarrow> same_identity fs (join_path path (g_sentinel g)) (e_sentinel e)"
    using again passed e(1) g(1) by (auto simp: recheck_endpoint_def split: if_splits)
  have old: "f_identity fs0 path = Some (e_identity e)"
      "g_require_mount g \<longrightarrow> f_identity fs0 (g_mountpoint g) = e_mount e"
      "g_sentinel g \<noteq> [] \<longrightarrow> f_identity fs0 (join_path path (g_sentinel g)) = e_sentinel e"
    using e(2) g(1) by (auto simp: capture_endpoint_def path_identity_def optional_identity_def split: option.splits)
  have mount: "g_require_mount g \<longrightarrow> f_mounted fs (g_mountpoint g) \<and> under fs path (g_mountpoint g)"
    using g(3) by (auto simp: mount_check_def split: if_splits)
  have sent: "g_sentinel g \<noteq> [] \<longrightarrow> f_is_file fs (join_path path (g_sentinel g))"
    using g(4) by (auto simp: sentinel_check_def split: if_splits)
  have posix: "f_posix fs \<longrightarrow> \<not> f_symlink fs path \<and>
      (\<forall>p \<in> set (path_parents (absolute_path fs path)). \<forall>i. f_lstat fs p = Found i \<longrightarrow> i_dir i \<and> i_uid i \<in> {0, f_euid fs})"
    using parent_guard_passed [OF g(2)] by blast
  have ident: "f_identity fs path = f_identity fs0 path \<and> f_identity fs path \<noteq> None"
      "g_require_mount g \<longrightarrow> f_identity fs (g_mountpoint g) = f_identity fs0 (g_mountpoint g)"
      "g_sentinel g \<noteq> [] \<longrightarrow> f_identity fs (join_path path (g_sentinel g)) = f_identity fs0 (join_path path (g_sentinel g))"
    using same old same_identityD by metis+
  show ?thesis using g(1) posix mount sent ident by blast
qed

section \<open>A target that is not mounted\<close>

lemma count_files_sum: "count_files limit n ks \<le> n + int (sum_list ks)"
proof (induction ks arbitrary: n)
  case (Cons k ks)
  show ?case using Cons.IH [of "n + int k"] by auto
qed simp

lemma lower_directions: "py_lower ''push'' = ''push''" "py_lower ''bisync'' = ''bisync''"
  by code_simp+

lemma text_at_or: "str_at d k \<noteq> [] \<Longrightarrow> str_or (py_get d k) dflt = str_at d k"
  by (auto simp: str_at_def str_or_def split: pyval.splits)

text \<open>What a passed precheck has found in a local end for which files are required.\<close>

lemma required_files_found:
  assumes "precheck_pair fs b pair = Inr None" and "(k, path) \<in> set (local_endpoint_fields pair)"
    and "endpoint_guard_settings pair k path = Inr g" and "g_check_files g" and "1 \<le> g_min_files g"
  shows "f_exists fs path \<and> g_min_files g \<le> int (sum_list (f_files fs path))"
proof -
  have "check_fields fs pair (local_endpoint_fields pair) = Inr None"
    using assms(1) by (auto simp: precheck_pair_def Let_def or_else_None split: if_splits)
  from check_member [OF this assms(2)]
  have "check_local_endpoint fs pair k path True True = Inr None" by simp
  then obtain g' where "endpoint_guard_settings pair k path = Inr g'" "files_check fs g' path = None"
    using check_passed by blast
  then have "f_exists fs path" "g_min_files g \<le> count_files_up_to fs path (g_min_files g)"
    using assms(3-5) by (auto simp: files_check_def split: if_splits)
  then show ?thesis
    using assms(5) count_files_sum [of "g_min_files g" 0 "f_files fs path"] by (auto simp: count_files_up_to_def split: if_splits)
qed

lemma local_end_listed:
  assumes "is_absolute_local (str_at pair k)" and "k \<in> {''remote'', ''local''}"
  shows "(k, str_at pair k) \<in> set (local_endpoint_fields pair)"
proof -
  have "str_at pair k \<noteq> []" "\<not> is_remote (str_at pair k)"
    using assms(1) by (auto simp: is_absolute_local_def py_startswith_def is_remote_def)
  then show ?thesis using assms(2) text_at_or [of pair k "[]"] by (auto simp: local_endpoint_fields_def)
qed

text \<open>C10: An accepted configuration and the precheck together stop a run onto an unmounted disk. For an enabled data path
  with direction push or bisync whose \<open>remote\<close> end is a local directory, and that does not explicitly allow an
  empty target, validation has set a number of files to find, at least one, and a passed precheck has found at least
  that many in the directory. For a \<open>local\<close> end, of any direction, the same holds for its \<open>min_local_files\<close> where
  that is not set to 0, which validation allows.\<close>

theorem unmounted_target_stops_the_run:
  assumes "validate_config env v = Inr (Inr (cfg, ws))" and "pair \<in> set (mappings_in cfg ''backup'' ''pairs'')"
    and "truthy (py_get pair ''enabled'')" and "precheck_pair fs b pair = Inr None"
  shows "(is_absolute_local (str_at pair ''remote'') \<and> str_at pair ''direction'' \<in> {''push'', ''bisync''} \<and>
      \<not> truthy (py_get pair ''allow_empty_remote_target'') \<longrightarrow>
      (\<exists>n. py_get pair ''min_remote_files'' = PInt n \<and> 1 \<le> n \<and>
        f_exists fs (str_at pair ''remote'') \<and> n \<le> int (sum_list (f_files fs (str_at pair ''remote''))))) \<and>
    (\<forall>n. is_absolute_local (str_at pair ''local'') \<and> py_get pair ''min_local_files'' = PInt n \<and> 1 \<le> n \<longrightarrow>
      f_exists fs (str_at pair ''local'') \<and> n \<le> int (sum_list (f_files fs (str_at pair ''local''))))"
proof (intro conjI impI allI)
  assume r: "is_absolute_local (str_at pair ''remote'') \<and> str_at pair ''direction'' \<in> {''push'', ''bisync''} \<and>
      \<not> truthy (py_get pair ''allow_empty_remote_target'')"
  then obtain n where n: "py_get pair ''min_remote_files'' = PInt n" "1 \<le> n"
    using local_targets_are_guarded [OF assms(1-3)] by blast
  then have "map_of pair ''min_remote_files'' = Some (PInt n)" by (auto simp: py_get_def split: option.splits)
  then obtain g where g: "endpoint_guard_settings pair ''remote'' (str_at pair ''remote'') = Inr g" "g_min_files g = n" "g_check_files g"
    using n(2) by (auto simp: endpoint_guard_settings_def min_files_value_def py_get_default_def Let_def)
  with n r required_files_found [OF assms(4) local_end_listed g(1)]
  show "\<exists>n. py_get pair ''min_remote_files'' = PInt n \<and> 1 \<le> n \<and>
        f_exists fs (str_at pair ''remote'') \<and> n \<le> int (sum_list (f_files fs (str_at pair ''remote'')))" by auto
next
  fix n assume l: "is_absolute_local (str_at pair ''local'') \<and> py_get pair ''min_local_files'' = PInt n \<and> 1 \<le> n"
  then have "map_of pair ''min_local_files'' = Some (PInt n)" by (auto simp: py_get_def split: option.splits)
  then obtain g where g: "endpoint_guard_settings pair ''local'' (str_at pair ''local'') = Inr g" "g_min_files g = n" "g_check_files g"
    using l by (auto simp: endpoint_guard_settings_def min_files_value_def py_get_default_def Let_def)
  with l required_files_found [OF assms(4) local_end_listed g(1)]
  show "f_exists fs (str_at pair ''local'')" "n \<le> int (sum_list (f_files fs (str_at pair ''local'')))" by auto
qed

section \<open>Witnesses\<close>

text \<open>A host on which the directories of the small configuration exist, hold one file each, and do not change.\<close>

definition demo_fs :: fs where
  "demo_fs = \<lparr>f_posix = True, f_euid = 1000, f_cwd = ''/'', f_lstat = (\<lambda>_. Found \<lparr>i_dir = True, i_link = False, i_uid = 0, i_mode = 493\<rparr>),
     f_exists = (\<lambda>_. True), f_is_dir = (\<lambda>_. True), f_is_file = (\<lambda>_. True), f_symlink = (\<lambda>_. False), f_mounted = (\<lambda>_. True),
     f_resolve = (\<lambda>p. Some (path_components p)), f_identity = (\<lambda>p. Some \<lparr>d_resolved = p, d_device = 1, d_inode = 7\<rparr>),
     f_files = (\<lambda>_. [1]), f_free = (\<lambda>_. 2 ^ 40)\<rparr>"

definition demo_probes :: remote_probes where
  "demo_probes = \<lparr>b_stat = (\<lambda>_. Exited 0 []), b_count = (\<lambda>_. Some 1)\<rparr>"

definition demo_guards :: "(string \<times> endpoint_guard) list" where
  "demo_guards = map (\<lambda>k. (k, \<lparr>e_identity = \<lparr>d_resolved = str_or (py_get demo_path k) [], d_device = 1, d_inode = 7\<rparr>,
     e_mount = None, e_sentinel = None\<rparr>)) [''remote'', ''local'']"

lemma demo_captured: "capture_endpoint_guards demo_fs demo_path = Inr demo_guards"
  by code_simp

lemma demo_rechecked: "recheck_endpoint_guards demo_fs demo_path demo_guards = Inr None"
  by code_simp

lemma demo_end: "(''local'', ''/daten/bilder'') \<in> set (local_endpoint_fields demo_path)"
  by code_simp

lemma start_sees_the_captured_ends_witness:
  "\<exists>g. endpoint_guard_settings demo_path ''local'' ''/daten/bilder'' = Inr g"
  using start_sees_the_captured_ends [OF demo_captured demo_rechecked demo_end] by blast

definition precheck_facts :: "pydict \<Rightarrow> bool" where
  "precheck_facts cfg \<longleftrightarrow>
     (case mappings_in cfg ''backup'' ''pairs'' of
        [pair] \<Rightarrow> truthy (py_get pair ''enabled'') \<and> is_absolute_local (str_at pair ''remote'') \<and>
          str_at pair ''direction'' = ''push'' \<and> \<not> truthy (py_get pair ''allow_empty_remote_target'') \<and>
          precheck_pair demo_fs demo_probes pair = Inr None
      | _ \<Rightarrow> False)"

lemma demo_prechecked:
  "case validate_config demo_config_env (PDict demo_config) of Inr (Inr (cfg, ws)) \<Rightarrow> precheck_facts cfg | _ \<Rightarrow> False"
  by code_simp

lemma unmounted_target_stops_the_run_witness:
  "\<exists>cfg ws pair. validate_config demo_config_env (PDict demo_config) = Inr (Inr (cfg, ws)) \<and>
     mappings_in cfg ''backup'' ''pairs'' = [pair] \<and> precheck_pair demo_fs demo_probes pair = Inr None \<and>
     (\<exists>n. py_get pair ''min_remote_files'' = PInt n \<and> 1 \<le> n \<and> n \<le> int (sum_list (f_files demo_fs (str_at pair ''remote''))))"
proof -
  obtain cfg ws where ok: "validate_config demo_config_env (PDict demo_config) = Inr (Inr (cfg, ws))" "precheck_facts cfg"
    using demo_prechecked by (auto split: sum.splits)
  obtain pair where p: "mappings_in cfg ''backup'' ''pairs'' = [pair]" "truthy (py_get pair ''enabled'')"
      "is_absolute_local (str_at pair ''remote'')" "str_at pair ''direction'' = ''push''"
      "\<not> truthy (py_get pair ''allow_empty_remote_target'')" "precheck_pair demo_fs demo_probes pair = Inr None"
    using ok(2) unfolding precheck_facts_def by (auto split: list.splits)
  have "pair \<in> set (mappings_in cfg ''backup'' ''pairs'')" "str_at pair ''direction'' \<in> {''push'', ''bisync''}"
    using p(1,4) by simp_all
  from unmounted_target_stops_the_run [OF ok(1) this(1) p(2,6)] this(2) ok(1) p show ?thesis by blast
qed

end
