(* ===== verification/Py_Regex.thy ===== *)
theory Py_Regex
  imports Py_Value
begin

text \<open>
  The regular expressions of Python's \<open>re\<close> as the program uses them: a matcher that tries the alternatives in the
  order of the library and remembers groups, and a description of what an expression reads that does not mention
  any order. The two agree (\<open>steps_iff_reads\<close>). The bodies of all repetitions in the program read at least one
  character, so a repetition only goes on after an iteration that did.
\<close>

datatype regex =
    Lit "char \<Rightarrow> bool"
  | Eps
  | At "string \<Rightarrow> string \<Rightarrow> bool"
  | Then regex regex
  | Or regex regex
  | Many regex
  | Few regex
  | Group nat regex

text \<open>What has been read (latest character first), what follows, and the groups.\<close>

type_synonym mstate = "string \<times> string \<times> (nat \<times> string) list"

definition rest_of :: "mstate \<Rightarrow> string" where
  "rest_of s = fst (snd s)"

fun repeat_more :: "bool \<Rightarrow> nat \<Rightarrow> (mstate \<Rightarrow> mstate list) \<Rightarrow> mstate \<Rightarrow> mstate list" where
  "repeat_more greedy 0 f s = [s]"
| "repeat_more greedy (Suc n) f s =
     (let deeper = concat (map (repeat_more greedy n f) (filter (\<lambda>s'. length (rest_of s') < length (rest_of s)) (f s)))
      in if greedy then deeper @ [s] else s # deeper)"

definition close_group :: "nat \<Rightarrow> nat \<Rightarrow> mstate \<Rightarrow> mstate" where
  "close_group n start s = (case s of (d, a, g) \<Rightarrow> (d, a, (n, rev (take (length d - start) d)) # g))"

primrec steps :: "regex \<Rightarrow> mstate \<Rightarrow> mstate list" where
  "steps (Lit P) = (\<lambda>(d, a, g). case a of [] \<Rightarrow> [] | c # a' \<Rightarrow> if P c then [(c # d, a', g)] else [])"
| "steps Eps = (\<lambda>s. [s])"
| "steps (At P) = (\<lambda>s. if P (fst s) (rest_of s) then [s] else [])"
| "steps (Then r q) = (\<lambda>s. concat (map (steps q) (steps r s)))"
| "steps (Or r q) = (\<lambda>s. steps r s @ steps q s)"
| "steps (Many r) = (\<lambda>s. repeat_more True (length (rest_of s)) (steps r) s)"
| "steps (Few r) = (\<lambda>s. repeat_more False (length (rest_of s)) (steps r) s)"
| "steps (Group n r) = (\<lambda>s. map (close_group n (length (fst s))) (steps r s))"

subsection \<open>Searching\<close>

fun search_at :: "regex \<Rightarrow> string \<Rightarrow> string \<Rightarrow> (string \<times> mstate) option" where
  "search_at r d a =
     (case steps r (d, a, []) of
        s # _ \<Rightarrow> Some (d, s)
      | [] \<Rightarrow> (case a of [] \<Rightarrow> None | c # a' \<Rightarrow> search_at r (c # d) a'))"

declare search_at.simps [simp del]

definition re_search :: "regex \<Rightarrow> string \<Rightarrow> mstate option" where
  "re_search r text = map_option snd (search_at r [] text)"

definition re_found :: "regex \<Rightarrow> string \<Rightarrow> bool" where
  "re_found r text \<longleftrightarrow> re_search r text \<noteq> None"

definition group_text :: "nat \<Rightarrow> mstate \<Rightarrow> string option" where
  "group_text n s = map_of (snd (snd s)) n"

text \<open>\<open>finditer\<close>: the next search starts where the last match ended, one further after an empty match.\<close>

fun find_all :: "nat \<Rightarrow> regex \<Rightarrow> string \<Rightarrow> string \<Rightarrow> mstate list" where
  "find_all 0 r d a = []"
| "find_all (Suc n) r d a =
     (case search_at r d a of
        None \<Rightarrow> []
      | Some (d0, (d', a', g)) \<Rightarrow>
          (d', a', g) # (if length d0 < length d' then find_all n r d' a'
                         else case a' of [] \<Rightarrow> [] | c # a'' \<Rightarrow> find_all n r (c # d') a''))"

definition re_finditer :: "regex \<Rightarrow> string \<Rightarrow> mstate list" where
  "re_finditer r text = find_all (Suc (length text)) r [] text"

subsection \<open>Common pieces\<close>

definition char_lit :: "char \<Rightarrow> regex" where
  "char_lit c = Lit (\<lambda>x. x = c)"

text \<open>A character under \<open>IGNORECASE\<close>.\<close>

definition any_case :: "char \<Rightarrow> regex" where
  "any_case c = Lit (\<lambda>x. lower_char x = lower_char c)"

fun seq :: "regex list \<Rightarrow> regex" where
  "seq [] = Eps"
| "seq [r] = r"
| "seq (r # rs) = Then r (seq rs)"

fun alts :: "regex list \<Rightarrow> regex" where
  "alts [] = Lit (\<lambda>_. False)"
| "alts [r] = r"
| "alts (r # rs) = Or r (alts rs)"

definition text_re :: "string \<Rightarrow> regex" where
  "text_re s = seq (map char_lit s)"

definition text_ci :: "string \<Rightarrow> regex" where
  "text_ci s = seq (map any_case s)"

definition digits :: "nat \<Rightarrow> regex" where
  "digits n = seq (replicate n (Lit is_digit))"

definition opt :: "regex \<Rightarrow> regex" where
  "opt r = Or r Eps"

definition some :: "regex \<Rightarrow> regex" where
  "some r = Then r (Many r)"

definition spaces :: regex where
  "spaces = Many (Lit is_space)"

definition newline :: char where
  "newline = CHR 0x0A"

definition line_start :: regex where
  "line_start = At (\<lambda>d a. d = [] \<or> hd d = newline)"

definition line_end :: regex where
  "line_end = At (\<lambda>d a. a = [] \<or> hd a = newline)"

text \<open>\<open>$\<close> without \<open>MULTILINE\<close>.\<close>

definition text_end :: regex where
  "text_end = At (\<lambda>d a. a = [] \<or> a = [newline])"

definition text_start :: regex where
  "text_start = At (\<lambda>d a. d = [])"

definition word_char :: "char \<Rightarrow> bool" where
  "word_char c \<longleftrightarrow> is_alpha c \<or> is_digit c \<or> c = CHR ''_''"

definition word_edge :: regex where
  "word_edge = At (\<lambda>d a. (d \<noteq> [] \<and> word_char (hd d)) \<noteq> (a \<noteq> [] \<and> word_char (hd a)))"

section \<open>What an expression reads\<close>

text \<open>\<open>reads r d w a\<close>: after \<open>d\<close> (latest character first) and before \<open>a\<close>, the expression reads \<open>w\<close>.\<close>

inductive reads :: "regex \<Rightarrow> string \<Rightarrow> string \<Rightarrow> string \<Rightarrow> bool" where
  lit: "P c \<Longrightarrow> reads (Lit P) d [c] a"
| eps: "reads Eps d [] a"
| look: "P d a \<Longrightarrow> reads (At P) d [] a"
| thn: "reads r d w (v @ a) \<Longrightarrow> reads q (rev w @ d) v a \<Longrightarrow> reads (Then r q) d (w @ v) a"
| left: "reads r d w a \<Longrightarrow> reads (Or r q) d w a"
| right: "reads q d w a \<Longrightarrow> reads (Or r q) d w a"
| many_none: "reads (Many r) d [] a"
| many_more: "reads r d w (v @ a) \<Longrightarrow> w \<noteq> [] \<Longrightarrow> reads (Many r) (rev w @ d) v a \<Longrightarrow> reads (Many r) d (w @ v) a"
| few_none: "reads (Few r) d [] a"
| few_more: "reads r d w (v @ a) \<Longrightarrow> w \<noteq> [] \<Longrightarrow> reads (Few r) (rev w @ d) v a \<Longrightarrow> reads (Few r) d (w @ v) a"
| group: "reads r d w a \<Longrightarrow> reads (Group n r) d w a"

inductive_cases reads_LitE: "reads (Lit P) d w a"
inductive_cases reads_EpsE: "reads Eps d w a"
inductive_cases reads_AtE: "reads (At P) d w a"
inductive_cases reads_ThenE: "reads (Then r q) d w a"
inductive_cases reads_OrE: "reads (Or r q) d w a"
inductive_cases reads_ManyE: "reads (Many r) d w a"
inductive_cases reads_FewE: "reads (Few r) d w a"
inductive_cases reads_GroupE: "reads (Group n r) d w a"

lemma reads_Lit [simp]: "reads (Lit P) d w a \<longleftrightarrow> (\<exists>c. w = [c] \<and> P c)"
  by (auto elim: reads_LitE intro: reads.intros)

lemma reads_Eps [simp]: "reads Eps d w a \<longleftrightarrow> w = []"
  by (auto elim: reads_EpsE intro: reads.intros)

lemma reads_At [simp]: "reads (At P) d w a \<longleftrightarrow> w = [] \<and> P d a"
  by (auto elim: reads_AtE intro: reads.intros)

lemma reads_Then: "reads (Then r q) d w a \<longleftrightarrow> (\<exists>u v. w = u @ v \<and> reads r d u (v @ a) \<and> reads q (rev u @ d) v a)"
  by (rule iffI, elim reads_ThenE) (blast intro: reads.intros)+

lemma reads_Or: "reads (Or r q) d w a \<longleftrightarrow> reads r d w a \<or> reads q d w a"
  by (auto elim: reads_OrE intro: reads.intros)

lemma reads_Group [simp]: "reads (Group n r) d w a \<longleftrightarrow> reads r d w a"
  by (auto elim: reads_GroupE intro: reads.intros)

text \<open>The states of the matcher move along one text.\<close>

definition moved :: "mstate \<Rightarrow> string \<Rightarrow> mstate \<Rightarrow> bool" where
  "moved s w s' \<longleftrightarrow> fst s' = rev w @ fst s \<and> rest_of s = w @ rest_of s'"

text \<open>\<open>f\<close> is a matcher of the readings \<open>R\<close>.\<close>

definition matcher :: "(mstate \<Rightarrow> mstate list) \<Rightarrow> (string \<Rightarrow> string \<Rightarrow> string \<Rightarrow> bool) \<Rightarrow> bool" where
  "matcher f R \<longleftrightarrow>
     (\<forall>s s'. s' \<in> set (f s) \<longrightarrow> (\<exists>w. moved s w s' \<and> R (fst s) w (rest_of s'))) \<and>
     (\<forall>s d w a. fst s = d \<longrightarrow> rest_of s = w @ a \<longrightarrow> R d w a \<longrightarrow> (\<exists>s' \<in> set (f s). moved s w s'))"

lemma matcher_sound: "matcher f R \<Longrightarrow> s' \<in> set (f s) \<Longrightarrow> \<exists>w. moved s w s' \<and> R (fst s) w (rest_of s')"
  unfolding matcher_def by blast

lemma matcher_complete: "matcher f R \<Longrightarrow> rest_of s = w @ a \<Longrightarrow> R (fst s) w a \<Longrightarrow> \<exists>s' \<in> set (f s). moved s w s'"
  unfolding matcher_def by blast

lemma matcherI:
  assumes "\<And>s s'. s' \<in> set (f s) \<Longrightarrow> \<exists>w. moved s w s' \<and> R (fst s) w (rest_of s')"
    and "\<And>s w a. rest_of s = w @ a \<Longrightarrow> R (fst s) w a \<Longrightarrow> \<exists>s' \<in> set (f s). moved s w s'"
  shows "matcher f R"
  unfolding matcher_def using assms by blast

lemma moved_refl: "moved s [] s"
  by (simp add: moved_def)

lemma moved_trans: "moved s w t \<Longrightarrow> moved t v u \<Longrightarrow> moved s (w @ v) u"
  by (simp add: moved_def)

lemma moved_shorter: "moved s w s' \<Longrightarrow> length (rest_of s') < length (rest_of s) \<longleftrightarrow> w \<noteq> []"
  by (auto simp: moved_def)

text \<open>Both kinds of repetition reach the same states.\<close>

definition loop_reads :: "(string \<Rightarrow> string \<Rightarrow> string \<Rightarrow> bool) \<Rightarrow> (string \<Rightarrow> string \<Rightarrow> string \<Rightarrow> bool) \<Rightarrow> bool" where
  "loop_reads R L \<longleftrightarrow>
     (\<forall>d w a. L d w a \<longleftrightarrow> w = [] \<or> (\<exists>u v. w = u @ v \<and> u \<noteq> [] \<and> R d u (v @ a) \<and> L (rev u @ d) v a))"

lemma loop_none: "loop_reads R L \<Longrightarrow> L d [] a"
  unfolding loop_reads_def by blast

lemma repeat_Suc:
  "s' \<in> set (repeat_more greedy (Suc n) f s) \<longleftrightarrow>
     s' = s \<or> (\<exists>t \<in> set (f s). length (rest_of t) < length (rest_of s) \<and> s' \<in> set (repeat_more greedy n f t))"
proof -
  have "s' \<in> set (repeat_more greedy (Suc n) f s) \<longleftrightarrow>
      s' = s \<or> s' \<in> set (concat (map (repeat_more greedy n f) (filter (\<lambda>t. length (rest_of t) < length (rest_of s)) (f s))))"
    by (cases greedy) (simp_all only: repeat_more.simps Let_def if_True if_False set_append list.set Un_iff insert_iff empty_iff, blast+)
  then show ?thesis by (simp only: set_concat set_map set_filter) blast
qed

lemma repeat_sound:
  assumes "matcher f R" and "loop_reads R L"
  shows "s' \<in> set (repeat_more greedy n f s) \<Longrightarrow> \<exists>w. moved s w s' \<and> L (fst s) w (rest_of s')"
proof (induction n arbitrary: s)
  case 0
  then have "s' = s" by simp
  moreover have "L (fst s) [] (rest_of s)" using loop_none [OF assms(2)] .
  ultimately show ?case using moved_refl by blast
next
  case (Suc n)
  have none: "L (fst s) [] (rest_of s)" using loop_none [OF assms(2)] .
  show ?case
  proof (cases "s' = s")
    case True
    then show ?thesis using none moved_refl by blast
  next
    case False
    then obtain t where t: "t \<in> set (f s)" "length (rest_of t) < length (rest_of s)" "s' \<in> set (repeat_more greedy n f t)"
      using Suc.prems unfolding repeat_Suc by blast
    obtain u where u: "moved s u t" "R (fst s) u (rest_of t)" using t(1) assms(1) unfolding matcher_def by blast
    obtain v where v: "moved t v s'" "L (fst t) v (rest_of s')" using Suc.IH [OF t(3)] by blast
    have "u \<noteq> []" using t(2) u(1) moved_shorter by blast
    moreover have "rest_of t = v @ rest_of s'" "fst t = rev u @ fst s" using u(1) v(1) by (simp_all add: moved_def)
    ultimately have "L (fst s) (u @ v) (rest_of s')"
      using assms(2) u(2) v(2) unfolding loop_reads_def by metis
    then show ?thesis using moved_trans [OF u(1) v(1)] by blast
  qed
qed

lemma repeat_complete:
  assumes "matcher f R" and "loop_reads R L"
  shows "rest_of s = w @ a \<Longrightarrow> L (fst s) w a \<Longrightarrow> length w \<le> n \<Longrightarrow> \<exists>s' \<in> set (repeat_more greedy n f s). moved s w s'"
proof (induction n arbitrary: s w)
  case 0
  then show ?case using moved_refl by auto
next
  case (Suc n)
  show ?case
  proof (cases "w = []")
    case True
    then show ?thesis using moved_refl unfolding repeat_Suc Bex_def by blast
  next
    case False
    then obtain u v where uv: "w = u @ v" "u \<noteq> []" "R (fst s) u (v @ a)" "L (rev u @ fst s) v a"
      using Suc.prems(2) assms(2) unfolding loop_reads_def by blast
    have "\<exists>t \<in> set (f s). moved s u t"
      using assms(1) uv(3) Suc.prems(1) uv(1) unfolding matcher_def by (metis append.assoc)
    then obtain t where t: "t \<in> set (f s)" "moved s u t" by blast
    have "rest_of t = v @ a" "fst t = rev u @ fst s" using t(2) Suc.prems(1) uv(1) by (auto simp: moved_def)
    then have "\<exists>s' \<in> set (repeat_more greedy n f t). moved t v s'"
      using Suc.IH [of t v] uv Suc.prems(3) by (cases u) auto
    then obtain s' where s': "s' \<in> set (repeat_more greedy n f t)" "moved t v s'" by blast
    have "length (rest_of t) < length (rest_of s)" using moved_shorter [OF t(2)] uv(2) by blast
    then have "s' \<in> set (repeat_more greedy (Suc n) f s)" using t(1) s'(1) unfolding repeat_Suc by blast
    then show ?thesis using moved_trans [OF t(2) s'(2)] uv(1) by blast
  qed
qed

lemma loop_Many: "loop_reads (reads r) (reads (Many r))"
  unfolding loop_reads_def by (auto elim: reads_ManyE intro: reads.intros)

lemma loop_Few: "loop_reads (reads r) (reads (Few r))"
  unfolding loop_reads_def by (auto elim: reads_FewE intro: reads.intros)

lemma repeat_matcher:
  assumes "matcher f R" and "loop_reads R L"
  shows "matcher (\<lambda>s. repeat_more greedy (length (rest_of s)) f s) L"
proof -
  have "\<exists>s' \<in> set (repeat_more greedy (length (rest_of s)) f s). moved s w s'"
    if "rest_of s = w @ a" "L (fst s) w a" for s w a
    using repeat_complete [OF assms that] that(1) by simp
  then show ?thesis using repeat_sound [OF assms] unfolding matcher_def by blast
qed

lemma close_group_moved [simp]: "moved s w (close_group n k s') \<longleftrightarrow> moved s w s'"
  by (cases s') (simp add: close_group_def moved_def rest_of_def)

lemma close_group_rest [simp]: "rest_of (close_group n k s') = rest_of s'"
  by (cases s') (simp add: close_group_def rest_of_def)

lemma steps_matcher: "matcher (steps r) (reads r)"
proof (induction r)
  case (Lit P)
  show ?case by (fastforce simp: matcher_def moved_def rest_of_def split: list.splits if_splits)
next
  case Eps
  show ?case by (auto simp: matcher_def moved_def)
next
  case (At P)
  show ?case by (auto simp: matcher_def moved_def)
next
  case (Then r q)
  show ?case unfolding matcher_def
  proof (intro conjI allI impI)
    fix s s' assume "s' \<in> set (steps (Then r q) s)"
    then obtain t where t: "t \<in> set (steps r s)" "s' \<in> set (steps q t)" by auto
    obtain u where u: "moved s u t" "reads r (fst s) u (rest_of t)" using Then.IH(1) t(1) unfolding matcher_def by blast
    obtain v where v: "moved t v s'" "reads q (fst t) v (rest_of s')" using Then.IH(2) t(2) unfolding matcher_def by blast
    have "rest_of t = v @ rest_of s'" "fst t = rev u @ fst s" using u(1) v(1) by (simp_all add: moved_def)
    then have "reads (Then r q) (fst s) (u @ v) (rest_of s')" using u(2) v(2) reads_Then by auto
    then show "\<exists>w. moved s w s' \<and> reads (Then r q) (fst s) w (rest_of s')" using moved_trans [OF u(1) v(1)] by blast
  next
    fix s d w a assume s: "fst s = d" "rest_of s = w @ a" "reads (Then r q) d w a"
    obtain u v where uv: "w = u @ v" "reads r d u (v @ a)" "reads q (rev u @ d) v a" using s(3) reads_Then by auto
    have "rest_of s = u @ (v @ a)" using s(2) uv(1) by simp
    then obtain t where t: "t \<in> set (steps r s)" "moved s u t" using Then.IH(1) s(1) uv(2) unfolding matcher_def by metis
    have "fst t = rev u @ d" "rest_of t = v @ a" using t(2) s(1,2) uv(1) by (simp_all add: moved_def)
    then obtain s' where s': "s' \<in> set (steps q t)" "moved t v s'" using Then.IH(2) uv(3) unfolding matcher_def by metis
    have "s' \<in> set (steps (Then r q) s)" using t(1) s'(1) by auto
    then show "\<exists>s' \<in> set (steps (Then r q) s). moved s w s'" using moved_trans [OF t(2) s'(2)] uv(1) by blast
  qed
next
  case (Or r q)
  show ?case
  proof (rule matcherI)
    fix s s' assume "s' \<in> set (steps (Or r q) s)"
    then have "s' \<in> set (steps r s) \<or> s' \<in> set (steps q s)" by simp
    then show "\<exists>w. moved s w s' \<and> reads (Or r q) (fst s) w (rest_of s')"
      using matcher_sound [OF Or.IH(1)] matcher_sound [OF Or.IH(2)] unfolding reads_Or by blast
  next
    fix s w a assume "rest_of s = w @ a" "reads (Or r q) (fst s) w a"
    then have "(\<exists>s' \<in> set (steps r s). moved s w s') \<or> (\<exists>s' \<in> set (steps q s). moved s w s')"
      using matcher_complete [OF Or.IH(1)] matcher_complete [OF Or.IH(2)] unfolding reads_Or by blast
    then show "\<exists>s' \<in> set (steps (Or r q) s). moved s w s'" by auto
  qed
next
  case (Many r)
  then show ?case using repeat_matcher [OF Many.IH loop_Many, of True] by simp
next
  case (Few r)
  then show ?case using repeat_matcher [OF Few.IH loop_Few, of False] by simp
next
  case (Group n r)
  show ?case
  proof (rule matcherI)
    fix s s' assume "s' \<in> set (steps (Group n r) s)"
    then obtain t where t: "t \<in> set (steps r s)" "s' = close_group n (length (fst s)) t" unfolding steps.simps set_map by blast
    then show "\<exists>w. moved s w s' \<and> reads (Group n r) (fst s) w (rest_of s')"
      using matcher_sound [OF Group.IH t(1)] by simp
  next
    fix s w a assume "rest_of s = w @ a" "reads (Group n r) (fst s) w a"
    then obtain t where t: "t \<in> set (steps r s)" "moved s w t" using matcher_complete [OF Group.IH] unfolding reads_Group by blast
    then have "close_group n (length (fst s)) t \<in> set (steps (Group n r) s)" by simp
    then show "\<exists>s' \<in> set (steps (Group n r) s). moved s w s'" using t(2) close_group_moved by blast
  qed
qed

theorem steps_iff_reads:
  "(\<exists>s' \<in> set (steps r (d, w @ a, g)). rest_of s' = a) \<longleftrightarrow> reads r d w a"
proof
  assume "\<exists>s' \<in> set (steps r (d, w @ a, g)). rest_of s' = a"
  then obtain s' where s': "s' \<in> set (steps r (d, w @ a, g))" "rest_of s' = a" by blast
  obtain v where v: "moved (d, w @ a, g) v s'" "reads r (fst (d, w @ a, g)) v (rest_of s')"
    using steps_matcher s'(1) unfolding matcher_def by blast
  then show "reads r d w a" using s'(2) by (simp add: moved_def rest_of_def)
next
  assume "reads r d w a"
  then have "\<exists>s' \<in> set (steps r (d, w @ a, g)). moved (d, w @ a, g) w s'"
    using steps_matcher [of r] unfolding matcher_def by (metis fst_conv rest_of_def snd_conv)
  then show "\<exists>s' \<in> set (steps r (d, w @ a, g)). rest_of s' = a" by (auto simp: moved_def rest_of_def)
qed

lemma steps_empty_iff: "steps r (d, a, g) = [] \<longleftrightarrow> \<not> (\<exists>w b. a = w @ b \<and> reads r d w b)"
proof -
  have "\<exists>w. a = w @ rest_of s' \<and> reads r d w (rest_of s')" if "s' \<in> set (steps r (d, a, g))" for s'
    using matcher_sound [OF steps_matcher that] by (auto simp: moved_def rest_of_def)
  moreover have "a = w @ b \<Longrightarrow> reads r d w b \<Longrightarrow> steps r (d, a, g) \<noteq> []" for w b
    using steps_iff_reads [of r d w b g] by auto
  ultimately show ?thesis by (metis list.set_intros(1) neq_Nil_conv)
qed

lemma search_at_None: "search_at r d a = None \<longleftrightarrow> \<not> (\<exists>p w b. a = p @ w @ b \<and> reads r (rev p @ d) w b)"
proof (induction a arbitrary: d)
  case Nil
  have "(\<exists>w b. [] = w @ b \<and> reads r d w b) \<longleftrightarrow> reads r d [] []" by auto
  then show ?case using steps_empty_iff [of r d "[]" "[]"] by (auto simp: search_at.simps [of r d "[]"] split: list.splits)
next
  case (Cons c a)
  have split: "(\<exists>p w b. c # a = p @ w @ b \<and> reads r (rev p @ d) w b) \<longleftrightarrow>
      (\<exists>w b. c # a = w @ b \<and> reads r d w b) \<or> (\<exists>p w b. a = p @ w @ b \<and> reads r (rev p @ c # d) w b)"
  proof
    assume "\<exists>p w b. c # a = p @ w @ b \<and> reads r (rev p @ d) w b"
    then obtain p w b where p: "c # a = p @ w @ b" "reads r (rev p @ d) w b" by blast
    then show "(\<exists>w b. c # a = w @ b \<and> reads r d w b) \<or> (\<exists>p w b. a = p @ w @ b \<and> reads r (rev p @ c # d) w b)"
    proof (cases p)
      case (Cons x p')
      then have "a = p' @ w @ b" "reads r (rev p' @ c # d) w b" using p by simp_all
      then show ?thesis by blast
    qed auto
  next
    assume "(\<exists>w b. c # a = w @ b \<and> reads r d w b) \<or> (\<exists>p w b. a = p @ w @ b \<and> reads r (rev p @ c # d) w b)"
    then show "\<exists>p w b. c # a = p @ w @ b \<and> reads r (rev p @ d) w b"
    proof
      assume "\<exists>w b. c # a = w @ b \<and> reads r d w b"
      then show ?thesis by (metis append_Nil rev.simps(1))
    next
      assume "\<exists>p w b. a = p @ w @ b \<and> reads r (rev p @ c # d) w b"
      then obtain p w b where "a = p @ w @ b" "reads r (rev p @ c # d) w b" by blast
      then have "c # a = (c # p) @ w @ b" "reads r (rev (c # p) @ d) w b" by simp_all
      then show ?thesis by blast
    qed
  qed
  show ?case
    using steps_empty_iff [of r d "c # a" "[]"] Cons.IH [of "c # d"] split
    by (auto simp: search_at.simps [of r d "c # a"] split: list.splits)
qed

theorem re_found_iff: "re_found r text \<longleftrightarrow> (\<exists>p w b. text = p @ w @ b \<and> reads r (rev p) w b)"
  using search_at_None [of r "[]" "text"] by (simp add: re_found_def re_search_def)

lemma search_at_Some:
  "search_at r d a = Some (d0, s) \<Longrightarrow>
     \<exists>p w. d0 = rev p @ d \<and> a = p @ w @ rest_of s \<and> fst s = rev w @ d0 \<and> reads r d0 w (rest_of s)"
proof (induction a arbitrary: d)
  case Nil
  then obtain ss where "steps r (d, [], []) = s # ss" "d0 = d"
    by (auto simp: search_at.simps [of r d "[]"] split: list.splits)
  then have "s \<in> set (steps r (d, [], []))" "d0 = d" by simp_all
  then show ?case using matcher_sound [OF steps_matcher, of s r "(d, [], [])"] by (auto simp: moved_def rest_of_def)
next
  case (Cons c a)
  show ?case
  proof (cases "steps r (d, c # a, [])")
    case Nil
    then have "search_at r (c # d) a = Some (d0, s)" using Cons.prems by (simp add: search_at.simps [of r d "c # a"])
    from Cons.IH [OF this] obtain p w where p: "d0 = rev p @ c # d" "a = p @ w @ rest_of s" "fst s = rev w @ d0" "reads r d0 w (rest_of s)"
      by blast
    then have "d0 = rev (c # p) @ d" "c # a = (c # p) @ w @ rest_of s" by simp_all
    then show ?thesis using p by blast
  next
    case (Cons t ts)
    then have at: "s \<in> set (steps r (d, c # a, []))" "d0 = d" using Cons.prems by (simp_all add: search_at.simps [of r d "c # a"])
    obtain w where "moved (d, c # a, []) w s" "reads r d w (rest_of s)" using matcher_sound [OF steps_matcher at(1)] by auto
    then show ?thesis using at(2) by (intro exI [of _ "[]"] exI [of _ w]) (simp add: moved_def rest_of_def)
  qed
qed

end
