(* ===== verification/Log_Progress.thy ===== *)
theory Log_Progress
  imports Py_Regex Config_Basics
begin

text \<open>
  What \<open>jobs/rclone_sync.py\<close> reads from the log of rclone: the request for a resync, the final statistics, and whether
  new output is progress. The log is ASCII text; the file is a list of bytes.
\<close>

section \<open>Expressions\<close>

definition stamp_digits :: "(char \<Rightarrow> bool) \<Rightarrow> (char \<Rightarrow> bool) \<Rightarrow> regex" where
  "stamp_digits dsep tsep =
     seq [digits 4, Lit dsep, digits 2, Lit dsep, digits 2, Lit tsep, digits 2, char_lit (CHR '':''), digits 2,
       char_lit (CHR '':''), digits 2]"

text \<open>\<open>_RESYNC_RE\<close>, with \<open>IGNORECASE\<close> and \<open>MULTILINE\<close>.\<close>

definition resync_sentence :: string where
  "resync_sentence = ''Bisync aborted. Must run --resync to recover.''"

definition resync_re :: regex where
  "resync_re =
     seq [line_start, stamp_digits (\<lambda>c. c = CHR ''/'') (\<lambda>c. c = CHR '' ''),
       opt (seq [char_lit (CHR ''.''), some (Lit is_digit)]), some (Lit is_space),
       alts [seq [text_ci ''ERROR'', spaces, char_lit (CHR '':'')], text_ci ''NOTICE:''], some (Lit is_space),
       text_ci resync_sentence, Many (Lit (\<lambda>c. c = CHR '' '' \<or> c = CHR 0x09)), opt (char_lit (CHR 0x0D)), line_end]"

text \<open>\<open>_STATS_RE\<close>.\<close>

definition field_char :: regex where
  "field_char = Lit (\<lambda>c. c \<noteq> CHR '','' \<and> c \<noteq> newline)"

definition short_field :: regex where
  "short_field = Then field_char (Few field_char)"

definition stats_re :: regex where
  "stats_re =
     seq [text_re ''Transferred:'', spaces, Group 1 short_field,
       opt (seq [spaces, char_lit (CHR ''/''), spaces, Group 2 short_field]),
       opt (seq [char_lit (CHR '',''), spaces,
         alts [seq [Group 3 (some (Lit (\<lambda>c. is_digit c \<or> c = CHR ''.''))), char_lit (CHR ''%'')], char_lit (CHR ''-'')]]),
       opt (seq [char_lit (CHR '',''), spaces, Group 4 (seq [short_field, text_re ''/s''])]),
       opt (seq [char_lit (CHR '',''), spaces, text_re ''ETA'', spaces, Group 5 (some (Lit (\<lambda>c. \<not> is_space c)))]),
       spaces, text_end]"

text \<open>\<open>_LOG_PREFIX_RE\<close>, with \<open>IGNORECASE\<close>. The \<open>T\<close> between date and time may be lower case then.\<close>

definition prefix_re :: regex where
  "prefix_re =
     seq [text_start,
       opt (seq [stamp_digits (\<lambda>c. c \<in> {CHR ''/'', CHR ''.'', CHR ''-''}) (\<lambda>c. c \<in> {CHR '' '', CHR ''T'', CHR ''t''}),
         opt (seq [Lit (\<lambda>c. c \<in> {CHR ''.'', CHR '',''}), some (Lit is_digit)]), some (Lit is_space)]),
       opt (seq [alts (map text_ci [''DEBUG'', ''INFO'', ''NOTICE'', ''WARNING'', ''ERROR'', ''CRITICAL'']), spaces,
         char_lit (CHR '':''), spaces])]"

text \<open>\<open>_COUNTER_RE\<close>, with \<open>IGNORECASE\<close>.\<close>

definition counter_digits :: regex where
  "counter_digits = some (Lit (\<lambda>c. is_digit c \<or> c = CHR '',''))"

definition counter_re :: regex where
  "counter_re =
     seq [word_edge,
       Group 1 (alts (map text_ci [''Checks'', ''Deleted'', ''Renamed'', ''Listed'', ''Errors'', ''Transferred''])), spaces,
       char_lit (CHR '':''), spaces, Group 2 counter_digits,
       opt (seq [spaces, char_lit (CHR ''/''), spaces, Group 3 counter_digits])]"

section \<open>After the run\<close>

definition needs_resync :: "string \<Rightarrow> int \<Rightarrow> string \<Rightarrow> bool" where
  "needs_resync verb rc logged \<longleftrightarrow> verb = ''bisync'' \<and> rc \<noteq> 0 \<and> re_found resync_re logged"

definition group_or_none :: "nat \<Rightarrow> mstate \<Rightarrow> pyval" where
  "group_or_none n m =
     (case group_text n m of None \<Rightarrow> PNone | Some t \<Rightarrow> if t = [] then PNone else PStr (py_strip t))"

definition percent_of :: "mstate \<Rightarrow> pyval result" where
  "percent_of m =
     (case group_text 3 m of
        None \<Rightarrow> Inr PNone
      | Some t \<Rightarrow> if t = [] then Inr PNone else bind_result (py_float (PStr t)) (\<lambda>r. Inr (PFloat r)))"

definition stats_of :: "mstate \<Rightarrow> pydict result" where
  "stats_of m =
     bind_result (percent_of m) (\<lambda>percent.
       Inr [(''transferred'', group_or_none 1 m), (''total'', group_or_none 2 m), (''percent'', percent),
            (''speed'', group_or_none 4 m), (''eta'', case group_text 5 m of None \<Rightarrow> PNone | Some t \<Rightarrow> PStr t)])"

fun first_stats :: "string list \<Rightarrow> pydict result" where
  "first_stats [] = Inr []"
| "first_stats (l # ls) = (case re_search stats_re l of Some m \<Rightarrow> stats_of m | None \<Rightarrow> first_stats ls)"

definition parse_final_stats :: "string \<Rightarrow> pydict result" where
  "parse_final_stats logged = first_stats (rev (split_lines logged))"

section \<open>Progress\<close>

datatype progress_mark = Counted string "string list" | Seen string

definition without_commas :: "string \<Rightarrow> string" where
  "without_commas = filter (\<lambda>c. c \<noteq> CHR '','')"

definition or_empty :: "string option \<Rightarrow> string" where
  "or_empty t = (case t of None \<Rightarrow> [] | Some s \<Rightarrow> s)"

definition log_line :: "string \<Rightarrow> string" where
  "log_line raw = (case steps prefix_re ([], py_strip raw, []) of [] \<Rightarrow> py_strip raw | m # _ \<Rightarrow> py_strip (rest_of m))"

definition transfer_mark :: "mstate \<Rightarrow> progress_mark" where
  "transfer_mark m = Counted ''transferred'' (map (\<lambda>n. py_casefold (py_strip (or_empty (group_text n m)))) [1, 2, 3])"

definition counter_text :: "mstate \<Rightarrow> string" where
  "counter_text m =
     py_join ''|'' [py_casefold (or_empty (group_text 1 m)), without_commas (or_empty (group_text 2 m)),
       without_commas (or_empty (group_text 3 m))]"

definition progress_marker :: "string \<Rightarrow> progress_mark option" where
  "progress_marker raw =
     (let line = log_line raw in
      if line = [] then None
      else case re_search stats_re line of
        Some m \<Rightarrow> Some (transfer_mark m)
      | None \<Rightarrow>
          (let counters = map counter_text (re_finditer counter_re line) in
           if counters \<noteq> [] then Some (Counted ''counters'' counters)
           else if py_startswith (py_casefold line) ''elapsed time:'' \<or> py_startswith (py_casefold line) ''eta '' then None
           else Some (Seen line)))"

record tracker =
  t_partial :: string
  t_structured :: "(string \<times> string list) list"
  t_recent :: "string list"

definition new_tracker :: tracker where
  "new_tracker = \<lparr>t_partial = [], t_structured = [], t_recent = []\<rparr>"

definition max_recent :: nat where "max_recent = 64"

definition is_break :: "char \<Rightarrow> bool" where
  "is_break c \<longleftrightarrow> c = CHR 0x0D \<or> c = newline"

text \<open>\<open>re.split(r"[\r\n]+", text)\<close>; the argument collects the current piece.\<close>

fun split_breaks :: "string \<Rightarrow> string \<Rightarrow> string list" where
  "split_breaks w [] = [rev w]"
| "split_breaks w (c # s) =
     (if \<not> is_break c then split_breaks (c # w) s
      else if s \<noteq> [] \<and> is_break (hd s) then split_breaks w s
      else rev w # split_breaks [] s)"

text \<open>One complete line.\<close>

definition take_line :: "string \<Rightarrow> bool \<times> tracker \<Rightarrow> bool \<times> tracker" where
  "take_line raw s =
     (case progress_marker raw of
        None \<Rightarrow> s
      | Some (Seen line) \<Rightarrow>
          (if line \<in> set (t_recent (snd s)) then s
           else let recent = t_recent (snd s) @ [line] in
             (True, (snd s)\<lparr>t_recent := drop (length recent - max_recent) recent\<rparr>))
      | Some (Counted kind v) \<Rightarrow>
          (if map_of (t_structured (snd s)) kind = Some v then s
           else (True, (snd s)\<lparr>t_structured := (kind, v) # filter (\<lambda>kv. fst kv \<noteq> kind) (t_structured (snd s))\<rparr>)))"

definition feed :: "tracker \<Rightarrow> string \<Rightarrow> bool \<times> tracker" where
  "feed t chunk =
     (let whole = t_partial t @ chunk; lines = split_breaks [] whole;
          open_end = (whole \<noteq> [] \<and> \<not> is_break (last whole))
      in fold take_line (if open_end then butlast lines else lines)
           (False, t\<lparr>t_partial := (if open_end then last lines else [])\<rparr>))"

definition max_progress_read :: nat where "max_progress_read = 512 * 1024"

text \<open>The file as it is found, \<open>None\<close> when it cannot be read.\<close>

definition read_new_log_output :: "string option \<Rightarrow> nat \<Rightarrow> string \<times> nat" where
  "read_new_log_output content offset =
     (case content of
        None \<Rightarrow> ([], offset)
      | Some bytes \<Rightarrow>
          (let start = (if length bytes < offset then 0 else offset) in
           if length bytes \<le> start then ([], length bytes)
           else (drop (if max_progress_read < length bytes - start then length bytes - max_progress_read else start) bytes,
                 length bytes)))"

end
