(* ===== verification/Log_Theorems.thy ===== *)
theory Log_Theorems
  imports Log_Progress
begin

text \<open>
  When the log asks for a resync, and when its output counts as progress: how the output is cut into pieces does not
  matter, and a line that is repeated is no progress.
\<close>

section \<open>The request for a resync\<close>

lemma reads_seq_Cons: "reads (seq (r # rs)) d w a \<longleftrightarrow> reads (Then r (seq rs)) d w a"
  by (cases rs) (simp_all add: reads_Then)

lemma reads_Lit_Then: "reads (Then (Lit P) q) d w a \<longleftrightarrow> (\<exists>x v. w = x # v \<and> P x \<and> reads q (x # d) v a)"
  unfolding reads_Then reads_Lit
proof
  assume "\<exists>u v. w = u @ v \<and> (\<exists>c. u = [c] \<and> P c) \<and> reads q (rev u @ d) v a"
  then show "\<exists>x v. w = x # v \<and> P x \<and> reads q (x # d) v a" by auto
next
  assume "\<exists>x v. w = x # v \<and> P x \<and> reads q (x # d) v a"
  then obtain x v where "w = [x] @ v" "P x" "reads q (rev [x] @ d) v a" by auto
  then show "\<exists>u v. w = u @ v \<and> (\<exists>c. u = [c] \<and> P c) \<and> reads q (rev u @ d) v a" by blast
qed

text \<open>The pieces read by the members of a sequence.\<close>

fun parts :: "regex list \<Rightarrow> string \<Rightarrow> string list \<Rightarrow> string \<Rightarrow> bool" where
  "parts [] d ws a \<longleftrightarrow> ws = []"
| "parts (r # rs) d ws a \<longleftrightarrow> (\<exists>w vs. ws = w # vs \<and> reads r d w (concat vs @ a) \<and> parts rs (rev w @ d) vs a)"

lemma reads_seq: "reads (seq rs) d w a \<longleftrightarrow> (\<exists>ws. w = concat ws \<and> parts rs d ws a)"
proof (induction rs arbitrary: d w)
  case Nil
  show ?case by auto
next
  case (Cons r rs)
  show ?case unfolding reads_seq_Cons reads_Then Cons.IH
  proof
    assume "\<exists>u v. w = u @ v \<and> reads r d u (v @ a) \<and> (\<exists>ws. v = concat ws \<and> parts rs (rev u @ d) ws a)"
    then obtain u ws where "w = u @ concat ws" "reads r d u (concat ws @ a)" "parts rs (rev u @ d) ws a" by blast
    then show "\<exists>ws. w = concat ws \<and> parts (r # rs) d ws a" by (intro exI [of _ "u # ws"]) simp
  next
    assume "\<exists>ws. w = concat ws \<and> parts (r # rs) d ws a"
    then obtain u vs where "w = u @ concat vs" "reads r d u (concat vs @ a)" "parts rs (rev u @ d) vs a" by auto
    then show "\<exists>u v. w = u @ v \<and> reads r d u (v @ a) \<and> (\<exists>ws. v = concat ws \<and> parts rs (rev u @ d) ws a)" by blast
  qed
qed

lemma parts_length: "parts rs d ws a \<Longrightarrow> length ws = length rs"
  by (induction rs arbitrary: d ws) auto

lemma parts_nth:
  "parts rs d ws a \<Longrightarrow> i < length rs \<Longrightarrow>
     reads (rs ! i) (rev (concat (take i ws)) @ d) (ws ! i) (concat (drop (Suc i) ws) @ a)"
proof (induction rs arbitrary: d ws i)
  case (Cons r rs)
  then obtain u vs where u: "ws = u # vs" "reads r d u (concat vs @ a)" "parts rs (rev u @ d) vs a" by auto
  show ?case
  proof (cases i)
    case (Suc j)
    then show ?thesis using Cons.IH [OF u(3), of j] Cons.prems(2) u(1) by simp
  qed (use u in simp)
qed simp

lemma reads_text_ci: "reads (text_ci s) d w a \<longleftrightarrow> py_lower w = py_lower s"
proof (induction s arbitrary: d w)
  case Nil
  show ?case by (simp add: text_ci_def py_lower_def)
next
  case (Cons c s)
  have "reads (text_ci (c # s)) d w a \<longleftrightarrow>
      (\<exists>x v. w = x # v \<and> lower_char x = lower_char c \<and> reads (text_ci s) (x # d) v a)"
    unfolding text_ci_def list.map reads_seq_Cons any_case_def reads_Lit_Then ..
  also have "\<dots> \<longleftrightarrow> (\<exists>x v. w = x # v \<and> lower_char x = lower_char c \<and> py_lower v = py_lower s)"
    unfolding Cons.IH ..
  also have "\<dots> \<longleftrightarrow> py_lower w = py_lower (c # s)" by (cases w) (auto simp: py_lower_def)
  finally show ?case .
qed

lemma reads_digits: "reads (digits n) d w a \<longleftrightarrow> length w = n \<and> list_all is_digit w"
proof (induction n arbitrary: d w)
  case 0
  show ?case by (auto simp: digits_def)
next
  case (Suc n)
  have "reads (digits (Suc n)) d w a \<longleftrightarrow> (\<exists>x v. w = x # v \<and> is_digit x \<and> reads (digits n) (x # d) v a)"
    unfolding digits_def replicate.simps reads_seq_Cons reads_Lit_Then ..
  also have "\<dots> \<longleftrightarrow> (\<exists>x v. w = x # v \<and> is_digit x \<and> length v = n \<and> list_all is_digit v)"
    unfolding Suc.IH ..
  also have "\<dots> \<longleftrightarrow> length w = Suc n \<and> list_all is_digit w" by (cases w) auto
  finally show ?case .
qed

lemma reads_Many_end: "reads (Many r) d [] a"
  by (rule many_none)

lemma reads_opt: "reads (opt r) d w a \<longleftrightarrow> w = [] \<or> reads r d w a"
  by (auto simp: opt_def reads_Or)

definition own_line :: "string \<Rightarrow> string \<Rightarrow> string \<Rightarrow> bool" where
  "own_line p w b \<longleftrightarrow> (p = [] \<or> last p = newline) \<and> (b = [] \<or> hd b = newline)"

definition ends_with_request :: "string \<Rightarrow> bool" where
  "ends_with_request w \<longleftrightarrow>
     (\<exists>u s t. w = u @ s @ t \<and> py_lower s = py_lower resync_sentence \<and>
        (\<forall>c \<in> set t. c \<in> {CHR '' '', CHR 0x09, CHR 0x0D}))"

lemma many_set: "reads r d w a \<Longrightarrow> r = Many (Lit P) \<Longrightarrow> \<forall>c \<in> set w. P c"
  by (induction rule: reads.induct) auto

definition resync_parts :: "regex list" where
  "resync_parts =
     [line_start, stamp_digits (\<lambda>c. c = CHR ''/'') (\<lambda>c. c = CHR '' ''),
       opt (seq [char_lit (CHR ''.''), some (Lit is_digit)]), some (Lit is_space),
       alts [seq [text_ci ''ERROR'', spaces, char_lit (CHR '':'')], text_ci ''NOTICE:''], some (Lit is_space),
       text_ci resync_sentence, Many (Lit (\<lambda>c. c = CHR '' '' \<or> c = CHR 0x09)), opt (char_lit (CHR 0x0D)), line_end]"

lemma stamp_starts_with_digits:
  assumes "reads (stamp_digits x y) d w a"
  shows "4 \<le> length w \<and> list_all is_digit (take 4 w)"
proof -
  obtain ws where ws: "w = concat ws" "parts [digits 4, Lit x, digits 2, Lit x, digits 2, Lit y, digits 2, char_lit (CHR '':''), digits 2,
       char_lit (CHR '':''), digits 2] d ws a"
    using assms unfolding stamp_digits_def reads_seq by blast
  obtain u vs where "ws = u # vs" using parts_length [OF ws(2)] by (cases ws) simp_all
  moreover have "length (ws ! 0) = 4 \<and> list_all is_digit (ws ! 0)" using parts_nth [OF ws(2), of 0] by (simp add: reads_digits)
  ultimately show ?thesis using ws(1) by simp
qed

lemma ten_elements: "length xs = 10 \<Longrightarrow> xs = [xs ! 0, xs ! 1, xs ! 2, xs ! 3, xs ! 4, xs ! 5, xs ! 6, xs ! 7, xs ! 8, xs ! 9]"
  by (auto simp: numeral_eq_Suc length_Suc_conv)

lemma resync_found_line:
  assumes "re_found resync_re logged"
  shows "\<exists>p w b. logged = p @ w @ b \<and> own_line p w b \<and> 4 \<le> length w \<and> list_all is_digit (take 4 w) \<and> ends_with_request w"
proof -
  obtain p w b where log: "logged = p @ w @ b" "reads resync_re (rev p) w b" using assms re_found_iff by auto
  obtain ws where ws: "w = concat ws" "parts resync_parts (rev p) ws b"
    using log(2) unfolding resync_re_def resync_parts_def reads_seq by blast
  have len: "length ws = 10" "length resync_parts = 10" using parts_length [OF ws(2)] by (simp_all add: resync_parts_def)
  note nth = parts_nth [OF ws(2), unfolded len(2)]
  have start: "ws ! 0 = [] \<and> (p = [] \<or> hd (rev p) = newline)"
    using nth [of 0] by (simp add: resync_parts_def line_start_def)
  have ending: "ws ! 9 = [] \<and> (b = [] \<or> hd b = newline)"
    using nth [of 9] len(1) by (simp add: resync_parts_def line_end_def)
  have stamp: "4 \<le> length (ws ! 1)" "list_all is_digit (take 4 (ws ! 1))"
    using nth [of 1] stamp_starts_with_digits by (simp_all add: resync_parts_def)
  have sentence: "py_lower (ws ! 6) = py_lower resync_sentence" using nth [of 6] by (simp add: resync_parts_def reads_text_ci)
  have "\<forall>c \<in> set (ws ! 7). c = CHR '' '' \<or> c = CHR 0x09" using many_set [OF nth [of 7]] by (simp add: resync_parts_def)
  moreover have "ws ! 8 = [] \<or> ws ! 8 = [CHR 0x0D]" using nth [of 8] by (auto simp: resync_parts_def reads_opt char_lit_def)
  then have "set (ws ! 8) \<subseteq> {CHR 0x0D}" by (elim disjE) simp_all
  ultimately have blanks: "\<forall>c \<in> set (ws ! 7 @ ws ! 8). c \<in> {CHR '' '', CHR 0x09, CHR 0x0D}"
    unfolding set_append by blast
  have ten: "ws = [ws ! 0, ws ! 1, ws ! 2, ws ! 3, ws ! 4, ws ! 5, ws ! 6, ws ! 7, ws ! 8, ws ! 9]"
    using len(1) by (rule ten_elements)
  have "w = concat [ws ! 0, ws ! 1, ws ! 2, ws ! 3, ws ! 4, ws ! 5, ws ! 6, ws ! 7, ws ! 8, ws ! 9]" using ws(1) ten by metis
  then have w: "w = (ws ! 1 @ ws ! 2 @ ws ! 3 @ ws ! 4 @ ws ! 5) @ ws ! 6 @ (ws ! 7 @ ws ! 8)" using start ending by simp
  have "ends_with_request w" unfolding ends_with_request_def using w sentence blanks by blast
  moreover have "own_line p w b" using start ending by (auto simp: own_line_def hd_rev)
  moreover have "4 \<le> length w" "list_all is_digit (take 4 w)" using stamp w by auto
  ultimately show ?thesis using log(1) by blast
qed

section \<open>Progress\<close>

text \<open>The same character by character.\<close>

definition part :: "string \<Rightarrow> bool \<times> tracker \<Rightarrow> bool \<times> tracker" where
  "part w s = (fst s, (snd s)\<lparr>t_partial := w\<rparr>)"

fun consume :: "string \<Rightarrow> string \<Rightarrow> bool \<times> tracker \<Rightarrow> bool \<times> tracker" where
  "consume w [] s = part w s"
| "consume w (c # cs) s = (if is_break c then consume [] cs (take_line w s) else consume (w @ [c]) cs s)"

lemma log_line_empty: "log_line [] = []"
proof -
  have "rest_of m = []" if "m \<in> set (steps prefix_re ([], [], []))" for m
    using matcher_sound [OF steps_matcher that] by (auto simp: moved_def rest_of_def)
  then have "steps prefix_re ([], [], []) = m # ms \<Longrightarrow> rest_of m = []" for m ms by simp
  then show ?thesis by (auto simp: log_line_def py_strip_def split: list.splits)
qed

lemma take_empty: "take_line [] s = s"
  by (simp add: take_line_def progress_marker_def log_line_empty)

lemma take_line_part: "take_line l (part w s) = part w (take_line l s)"
  by (cases "progress_marker l") (auto simp: take_line_def part_def Let_def split: progress_mark.splits)

lemma fold_take_part: "fold take_line ls (part w s) = part w (fold take_line ls s)"
  by (induction ls arbitrary: s) (simp_all add: take_line_part)

lemma part_part [simp]: "part v (part w s) = part v s"
  by (simp add: part_def)

lemma partial_part [simp]: "t_partial (snd (part w s)) = w"
  by (simp add: part_def)

lemma split_nonempty: "split_breaks w s \<noteq> []"
  by (induction w s rule: split_breaks.induct) auto

definition feed_from :: "string \<Rightarrow> string \<Rightarrow> bool \<times> tracker \<Rightarrow> bool \<times> tracker" where
  "feed_from w cs s =
     (let lines = split_breaks (rev w) cs; open_end = (w @ cs \<noteq> [] \<and> \<not> is_break (last (w @ cs)))
      in fold take_line (if open_end then butlast lines else lines) (part (if open_end then last lines else []) s))"

lemma feed_from_break:
  "is_break c \<Longrightarrow> \<forall>x \<in> set w. \<not> is_break x \<Longrightarrow> feed_from w (c # cs) s = feed_from [] cs (take_line w s)"
proof (induction cs arbitrary: c w s)
  case Nil
  then show ?case by (simp add: feed_from_def take_empty take_line_part)
next
  case (Cons c' cs)
  show ?case
  proof (cases "is_break c'")
    case True
    have "feed_from w (c # c' # cs) s = feed_from w (c' # cs) s" using True Cons.prems(1) by (simp add: feed_from_def)
    also have "\<dots> = feed_from [] cs (take_line w s)" using Cons.IH [OF True Cons.prems(2)] .
    also have "\<dots> = feed_from [] (c' # cs) (take_line w s)"
      using Cons.IH [OF True, of "[]" "take_line w s"] by (simp add: take_empty)
    finally show ?thesis .
  next
    case False
    then show ?thesis using Cons.prems(1) split_nonempty [of "[c']" cs]
      by (simp add: feed_from_def Let_def fold_take_part take_line_part)
  qed
qed

lemma feed_from_consume: "\<forall>x \<in> set w. \<not> is_break x \<Longrightarrow> feed_from w cs s = consume w cs s"
proof (induction cs arbitrary: w s)
  case Nil
  then show ?case by (cases w rule: rev_cases) (auto simp: feed_from_def take_empty take_line_part)
next
  case (Cons c cs)
  show ?case
  proof (cases "is_break c")
    case True
    then show ?thesis using feed_from_break [OF True Cons.prems] Cons.IH [of "[]"] by simp
  next
    case False
    then have "feed_from w (c # cs) s = feed_from (w @ [c]) cs s" by (simp add: feed_from_def)
    then show ?thesis using False Cons by simp
  qed
qed

definition whole_partial :: "tracker \<Rightarrow> bool" where
  "whole_partial t \<longleftrightarrow> (\<forall>x \<in> set (t_partial t). \<not> is_break x)"

lemma feed_split: "split_breaks w (u @ v) = split_breaks (rev u @ w) v" if "\<forall>x \<in> set u. \<not> is_break x"
  using that by (induction u arbitrary: w) simp_all

lemma feed_consume:
  assumes "whole_partial t"
  shows "feed t chunk = consume (t_partial t) chunk (False, t)"
proof -
  have "feed t chunk = feed_from (t_partial t) chunk (False, t)"
    using assms feed_split [of "t_partial t" "[]" chunk] by (simp add: feed_def feed_from_def part_def whole_partial_def Let_def)
  then show ?thesis using feed_from_consume assms by (simp add: whole_partial_def)
qed

lemma consume_part: "consume w cs (part u s) = consume w cs s"
  by (induction w cs s arbitrary: u rule: consume.induct) (simp_all add: take_line_part)

lemma consume_append: "consume w (a @ b) s = consume (t_partial (snd (consume w a s))) b (consume w a s)"
  by (induction a arbitrary: w s) (simp_all add: consume_part)

definition or_before :: "bool \<Rightarrow> bool \<times> tracker \<Rightarrow> bool \<times> tracker" where
  "or_before x s = (x \<or> fst s, snd s)"

lemma take_line_or: "take_line l (or_before x s) = or_before x (take_line l s)"
  by (cases "progress_marker l") (auto simp: take_line_def or_before_def Let_def split: progress_mark.splits)

lemma part_or: "part w (or_before x s) = or_before x (part w s)"
  by (simp add: part_def or_before_def)

lemma consume_or: "consume w cs (or_before x s) = or_before x (consume w cs s)"
  by (induction w cs s rule: consume.induct) (simp_all add: take_line_or part_or)

lemma consume_whole: "\<forall>x \<in> set w. \<not> is_break x \<Longrightarrow> whole_partial (snd (consume w cs s))"
proof (induction cs arbitrary: w s)
  case (Cons c cs)
  show ?case
  proof (cases "is_break c")
    case False
    then have "\<forall>x \<in> set (w @ [c]). \<not> is_break x" using Cons.prems by simp
    from Cons.IH [OF this] False show ?thesis by simp
  qed (use Cons.IH [of "[]"] in simp)
qed (simp add: whole_partial_def)

lemma feed_whole: "whole_partial t \<Longrightarrow> whole_partial (snd (feed t chunk))"
  using consume_whole feed_consume by (simp add: whole_partial_def)

lemma feed_append:
  assumes "whole_partial t"
  shows "feed t (a @ b) =
    (fst (feed t a) \<or> fst (feed (snd (feed t a)) b), snd (feed (snd (feed t a)) b))"
proof -
  let ?s = "consume (t_partial t) a (False, t)"
  have "feed t (a @ b) = consume (t_partial (snd ?s)) b ?s" using feed_consume [OF assms] consume_append by simp
  also have "?s = or_before (fst ?s) (False, snd ?s)" by (simp add: or_before_def)
  also have "consume (t_partial (snd \<dots>)) b \<dots> = or_before (fst ?s) (consume (t_partial (snd ?s)) b (False, snd ?s))"
    unfolding consume_or by (simp add: or_before_def)
  also have "consume (t_partial (snd ?s)) b (False, snd ?s) = feed (snd ?s) b"
    using feed_consume feed_whole assms by metis
  finally show ?thesis using feed_consume [OF assms, of a] by (simp add: or_before_def)
qed

lemma take_line_known: "take_line l (False, snd (take_line l (x, t))) = (False, snd (take_line l (x, t)))"
  by (cases "progress_marker l") (auto simp: take_line_def Let_def max_recent_def split: progress_mark.splits)

lemma newline_breaks [simp]: "is_break newline"
  by (simp add: is_break_def)

lemma consume_line: "\<forall>x \<in> set l. \<not> is_break x \<Longrightarrow> consume w (l @ [newline]) s = part [] (take_line (w @ l) s)"
  by (induction l arbitrary: w) auto

lemma feed_line:
  assumes "t_partial t = []" and "\<forall>x \<in> set l. \<not> is_break x"
  shows "feed t (l @ [newline]) = part [] (take_line l (False, t))"
  using feed_consume [of t] consume_line [OF assms(2), of "[]"] assms(1) by (simp add: whole_partial_def)

text \<open>Whether output counts as progress, and what is remembered of it, does not depend on where the polling cuts it:
  feeding two pieces one after the other is feeding them together.\<close>

theorem progress_ignores_the_cut:
  assumes "whole_partial t"
  shows "feed t (a @ b) =
    (fst (feed t a) \<or> fst (feed (snd (feed t a)) b), snd (feed (snd (feed t a)) b))"
  using assms by (rule feed_append)

text \<open>Lines that differ only in what \<open>log_line\<close> strips, the time stamp, the level and white space, count the same.\<close>

lemma same_line: "log_line l = log_line l' \<Longrightarrow> take_line l = take_line l'"
  by (simp add: take_line_def progress_marker_def fun_eq_iff)

lemma repeated_lines:
  assumes "t_partial t = []" and "\<forall>x \<in> set l. \<not> is_break x" and "t' = snd (feed t (l @ [newline]))"
    and "\<forall>m \<in> set ms. log_line m = log_line l \<and> (\<forall>x \<in> set m. \<not> is_break x)"
  shows "feed t' (concat (map (\<lambda>m. m @ [newline]) ms)) = (False, t')"
proof -
  have t': "t' = snd (part [] (take_line l (False, t)))" using assms(1-3) feed_line by simp
  then have none: "t_partial t' = []" by simp
  then have whole: "whole_partial t'" by (simp add: whole_partial_def)
  have "take_line l (part [] (False, snd (take_line l (False, t)))) = part [] (False, snd (take_line l (False, t)))"
    unfolding take_line_part take_line_known ..
  then have known: "take_line l (False, t') = (False, t')" using t' by (simp add: part_def)
  have once: "feed t' (m @ [newline]) = (False, t')" if "log_line m = log_line l" "\<forall>x \<in> set m. \<not> is_break x" for m
    using feed_line [OF none that(2)] known none by (simp add: same_line [OF that(1)] part_def)
  show ?thesis
    using assms(4)
  proof (induction ms)
    case Nil
    show ?case using none by (simp add: feed_def take_empty)
  next
    case (Cons m ms)
    have "feed t' (concat (map (\<lambda>m. m @ [newline]) (m # ms))) = feed t' ((m @ [newline]) @ concat (map (\<lambda>m. m @ [newline]) ms))"
      by simp
    also have "\<dots> = (False, t')" unfolding feed_append [OF whole, of "m @ [newline]"] using once [of m] Cons by simp
    finally show ?case .
  qed
qed

lemma repeated_line:
  assumes "t_partial t = []" and "\<forall>x \<in> set l. \<not> is_break x" and "t' = snd (feed t (l @ [newline]))"
  shows "feed t' (concat (replicate n (l @ [newline]))) = (False, t')"
  using repeated_lines [OF assms, of "replicate n l"] assms(2) by simp

text \<open>A line of output counts as progress at most once: after it has been read, any number of repetitions of the
  same line is no progress and changes nothing that is remembered.\<close>

theorem repeated_line_is_no_progress:
  assumes "t_partial t = []" and "\<forall>x \<in> set l. \<not> is_break x" and "t' = snd (feed t (l @ [newline]))"
  shows "feed t' (concat (replicate n (l @ [newline]))) = (False, t')"
  using assms by (rule repeated_line)

text \<open>An initial resync is only considered when rclone failed and its log contains the request as a line of its own:
  the line starts with a date and ends with the sentence, so the sentence inside a file name or a longer message
  does not count.\<close>

theorem resync_is_requested_on_its_own_line:
  assumes "needs_resync verb rc logged"
  shows "verb = ''bisync'' \<and> rc \<noteq> 0 \<and>
    (\<exists>p w b. logged = p @ w @ b \<and> own_line p w b \<and> 4 \<le> length w \<and> list_all is_digit (take 4 w) \<and> ends_with_request w)"
  using assms resync_found_line by (simp add: needs_resync_def)

section \<open>Witnesses\<close>

definition demo_line :: string where
  "demo_line = ''Checks: 1 / 2''"

definition demo_request :: string where
  "demo_request = ''first line'' @ newline # ''2024/01/02 10:11:12 ERROR : '' @ resync_sentence @ newline # ''last line''"

lemma demo_line_whole: "\<forall>x \<in> set demo_line. \<not> is_break x"
  by code_simp

lemma new_tracker_whole: "whole_partial new_tracker \<and> t_partial new_tracker = []"
  by (simp add: whole_partial_def new_tracker_def)

lemma progress_ignores_the_cut_witness:
  "feed new_tracker (demo_line @ demo_line) =
    (fst (feed new_tracker demo_line) \<or> fst (feed (snd (feed new_tracker demo_line)) demo_line),
     snd (feed (snd (feed new_tracker demo_line)) demo_line))"
  by (rule progress_ignores_the_cut) (simp add: new_tracker_whole)

lemma repeated_line_is_no_progress_witness:
  "fst (feed new_tracker (demo_line @ [newline])) \<and>
   fst (feed (snd (feed new_tracker (demo_line @ [newline]))) (concat (replicate 5 (demo_line @ [newline])))) = False"
proof -
  have "fst (feed new_tracker (demo_line @ [newline]))" by code_simp
  moreover have "t_partial new_tracker = []" using new_tracker_whole by simp
  from repeated_line_is_no_progress [OF this demo_line_whole refl, of 5]
  have "fst (feed (snd (feed new_tracker (demo_line @ [newline]))) (concat (replicate 5 (demo_line @ [newline])))) = False" by simp
  ultimately show ?thesis by blast
qed

lemma resync_is_requested_on_its_own_line_witness:
  "\<exists>p w b. demo_request = p @ w @ b \<and> own_line p w b \<and> ends_with_request w"
proof -
  have "needs_resync ''bisync'' 2 demo_request" by code_simp
  from resync_is_requested_on_its_own_line [OF this] show ?thesis by blast
qed

end
