(* ===== verification/Log_Stamps.thy ===== *)
theory Log_Stamps
  imports Log_Theorems
begin

text \<open>
  The time stamp that rclone writes in front of a line of its log is no part of what the line says: two lines that
  differ only in the digits of their time stamps count as the same line.
\<close>

section \<open>Expressions that do not look around\<close>

text \<open>Whether an expression matches, and what it leaves, depends only on what follows, unless it looks at what it has
  already read.\<close>

fun looks_back :: "regex \<Rightarrow> bool" where
  "looks_back (At P) = True"
| "looks_back (Then r q) = (looks_back r \<or> looks_back q)"
| "looks_back (Or r q) = (looks_back r \<or> looks_back q)"
| "looks_back (Many r) = looks_back r"
| "looks_back (Few r) = looks_back r"
| "looks_back (Group n r) = looks_back r"
| "looks_back r = False"

definition same_rests :: "mstate list \<Rightarrow> mstate list \<Rightarrow> bool" where
  "same_rests xs ys \<longleftrightarrow> list_all2 (\<lambda>s t. rest_of s = rest_of t) xs ys"

lemma same_rests_simps [simp]:
  "same_rests [] []"
  "same_rests (x # xs) (y # ys) \<longleftrightarrow> rest_of x = rest_of y \<and> same_rests xs ys"
  by (simp_all add: same_rests_def)

lemma same_rests_append: "same_rests xs ys \<Longrightarrow> same_rests us vs \<Longrightarrow> same_rests (xs @ us) (ys @ vs)"
  by (simp add: same_rests_def list_all2_appendI)

lemma same_rests_concat:
  "same_rests xs ys \<Longrightarrow> (\<And>s t. rest_of s = rest_of t \<Longrightarrow> same_rests (f s) (g t)) \<Longrightarrow>
     same_rests (concat (map f xs)) (concat (map g ys))"
  unfolding same_rests_def
  by (induction xs ys rule: list_all2_induct) (simp_all add: list_all2_appendI)

lemma same_rests_filter:
  "same_rests xs ys \<Longrightarrow>
     same_rests (filter (\<lambda>s. length (rest_of s) < n) xs) (filter (\<lambda>s. length (rest_of s) < n) ys)"
  unfolding same_rests_def by (induction xs ys rule: list_all2_induct) auto

lemma same_rests_repeat:
  assumes "\<And>s t. rest_of s = rest_of t \<Longrightarrow> same_rests (f s) (f t)"
  shows "rest_of s = rest_of t \<Longrightarrow> same_rests (repeat_more greedy n f s) (repeat_more greedy n f t)"
proof (induction n arbitrary: s t)
  case (Suc n)
  have "same_rests (concat (map (repeat_more greedy n f) (filter (\<lambda>u. length (rest_of u) < length (rest_of s)) (f s))))
      (concat (map (repeat_more greedy n f) (filter (\<lambda>u. length (rest_of u) < length (rest_of t)) (f t))))"
    unfolding Suc.prems by (intro same_rests_concat same_rests_filter assms Suc.IH Suc.prems)
  moreover from this have "same_rests (concat (map (repeat_more greedy n f) (filter (\<lambda>u. length (rest_of u) < length (rest_of s)) (f s))) @ [s])
      (concat (map (repeat_more greedy n f) (filter (\<lambda>u. length (rest_of u) < length (rest_of t)) (f t))) @ [t])"
    using Suc.prems by (intro same_rests_append) simp_all
  ultimately show ?case using Suc.prems unfolding repeat_more.simps Let_def by (cases greedy) simp_all
qed simp

lemma rests_forward: "\<not> looks_back r \<Longrightarrow> rest_of s = rest_of t \<Longrightarrow> same_rests (steps r s) (steps r t)"
proof (induction r arbitrary: s t)
  case (Lit P)
  then show ?case by (cases s; cases t) (auto simp: rest_of_def split: list.splits)
next
  case (Then r q)
  then have "same_rests (concat (map (steps q) (steps r s))) (concat (map (steps q) (steps r t)))"
    by (intro same_rests_concat) simp_all
  then show ?case by simp
next
  case (Or r q)
  then have "same_rests (steps r s @ steps q s) (steps r t @ steps q t)" by (intro same_rests_append) simp_all
  then show ?case by simp
next
  case (Many r)
  then show ?case by (auto intro!: same_rests_repeat)
next
  case (Few r)
  then show ?case by (auto intro!: same_rests_repeat)
next
  case (Group n r)
  have "rest_of (close_group n k u) = rest_of u" for k u by (cases u) (simp add: close_group_def rest_of_def)
  then have "same_rests (map (close_group n j) xs) (map (close_group n k) ys) = same_rests xs ys" for j k xs ys
    by (simp add: same_rests_def list_all2_map1 list_all2_map2)
  then show ?case using Group by simp
qed simp_all

section \<open>Time stamps\<close>

text \<open>The pattern of a text: each digit as \<open>0\<close>. rclone writes \<open>2026/01/02 10:11:12\<close> and a space.\<close>

definition shape :: "string \<Rightarrow> string" where
  "shape s = map (\<lambda>c. if is_digit c then CHR ''0'' else c) s"

definition stamped :: "string \<Rightarrow> bool" where
  "stamped s \<longleftrightarrow> shape (take 20 s) = ''0000/00/00 00:00:00 '' \<and> (case drop 20 s of [] \<Rightarrow> False | c # _ \<Rightarrow> \<not> is_space c)"

text \<open>The line again, with another time stamp.\<close>

definition restamped :: "string \<Rightarrow> string \<Rightarrow> bool" where
  "restamped l m \<longleftrightarrow> stamped l \<and> stamped m \<and> drop 20 m = drop 20 l"

lemma shape_digit: "(if is_digit c then CHR ''0'' else c) = CHR ''0'' \<longleftrightarrow> is_digit c"
  by (auto simp: is_digit_def code_of_def)

lemma shape_other: "\<not> is_digit x \<Longrightarrow> (if is_digit c then CHR ''0'' else c) = x \<longleftrightarrow> c = x" if "x \<noteq> CHR ''0''" for x
  using that by auto

lemma no_digits: "\<not> is_digit (CHR ''/'')" "\<not> is_digit (CHR '' '')" "\<not> is_digit (CHR '':'')"
  by (simp_all add: is_digit_def code_of_def)

lemma digit_no_space: "is_digit c \<Longrightarrow> \<not> is_space c"
  by (auto simp: is_digit_def is_space_def)

lemma shape_stamp:
  assumes "shape u = ''0000/00/00 00:00:00 ''"
  obtains a b c d e f g h i j k l m n where
    "u = [a, b, c, d, CHR ''/'', e, f, CHR ''/'', g, h, CHR '' '', i, j, CHR '':'', k, l, CHR '':'', m, n, CHR '' '']"
    "list_all is_digit [a, b, c, d, e, f, g, h, i, j, k, l, m, n]"
proof -
  let ?q = "\<lambda>c. if is_digit c then CHR ''0'' else c"
  note shape = shape_digit shape_other [OF _ no_digits(1)] shape_other [OF _ no_digits(2)] shape_other [OF _ no_digits(3)]
  show thesis
    using assms that unfolding shape_def
    by (auto simp: map_eq_Cons_conv shape simp del: if_split_asm)
qed

definition level_re :: regex where
  "level_re = opt (seq [alts (map text_ci [''DEBUG'', ''INFO'', ''NOTICE'', ''WARNING'', ''ERROR'', ''CRITICAL'']), spaces,
     char_lit (CHR '':''), spaces])"

lemma level_forward: "\<not> looks_back level_re"
  by code_simp

lemma not_spaces: "\<not> is_space (CHR ''.'')" "is_space (CHR '' '')" "CHR '' '' \<noteq> CHR ''.''" "CHR '' '' \<noteq> CHR '',''"
  by (simp_all add: is_space_def code_of_def)

text \<open>The expression for the time stamp takes exactly the stamp, when something other than white space follows it.\<close>

definition stamp_re :: regex where
  "stamp_re = seq [stamp_digits (\<lambda>c. c \<in> {CHR ''/'', CHR ''.'', CHR ''-''}) (\<lambda>c. c \<in> {CHR '' '', CHR ''T'', CHR ''t''}),
     opt (seq [Lit (\<lambda>c. c \<in> {CHR ''.'', CHR '',''}), some (Lit is_digit)]), some (Lit is_space)]"

lemma no_more_spaces: "b \<noteq> [] \<Longrightarrow> \<not> is_space (hd b) \<Longrightarrow> steps (Many (Lit is_space)) (d, b, g) = [(d, b, g)]"
  by (cases b) (simp_all add: rest_of_def)

lemma steps_stamp:
  assumes "shape u = ''0000/00/00 00:00:00 ''" and "b \<noteq> []" and "\<not> is_space (hd b)"
  shows "steps stamp_re ([], u @ b, []) = [(rev u, b, [])]"
  using assms(1)
proof (rule shape_stamp, goal_cases)
  case (1 c1 c2 c3 c4 c5 c6 c7 c8 c9 c10 c11 c12 c13 c14)
  show ?case
    using 1(2) no_more_spaces [OF assms(2,3)]
    by (simp add: stamp_re_def 1(1) stamp_digits_def digits_def opt_def some_def char_lit_def not_spaces eval_nat_numeral
        del: steps.simps(6))
qed

lemma prefix_parts: "prefix_re = Then text_start (Then (opt stamp_re) level_re)"
  by (simp add: prefix_re_def stamp_re_def level_re_def)

lemma strip_stamped:
  assumes "shape u = ''0000/00/00 00:00:00 ''" and "b \<noteq> []" and "\<not> is_space (hd b)"
  shows "py_strip (u @ b) = u @ py_strip b"
  using assms(1)
proof (rule shape_stamp, goal_cases)
  case (1 c1 c2 c3 c4 c5 c6 c7 c8 c9 c10 c11 c12 c13 c14)
  have left: "dropWhile is_space (u @ b) = u @ b" using 1(2) digit_no_space by (simp add: 1(1))
  have right: "dropWhile is_space b = b" using assms(2,3) by (cases b) simp_all
  have "\<not> list_all is_space (rev b)" using assms(2,3) by (cases b) auto
  then have "dropWhile is_space (rev b @ rev u) = dropWhile is_space (rev b) @ rev u"
    by (metis (full_types) dropWhile_append1 list_all_iff)
  then show ?case by (simp add: py_strip_def left right)
qed

text \<open>What is left of a stamped line depends only on what follows the stamp.\<close>

lemma log_line_stamped:
  assumes "shape u = ''0000/00/00 00:00:00 ''" and "b \<noteq> []" and "\<not> is_space (hd b)"
  shows "log_line (u @ b) = py_strip (rest_of (hd (steps level_re ([], py_strip b, []))))"
proof -
  let ?b = "py_strip b"
  obtain c cs where c: "b = c # cs" "\<not> is_space c" using assms(2,3) by (cases b) simp_all
  have "?b = c # rev (dropWhile is_space (rev cs))" using c by (simp add: py_strip_def dropWhile_append3)
  then have b: "?b \<noteq> []" "\<not> is_space (hd ?b)" using c(2) by simp_all
  have raw: "py_strip (u @ b) = u @ ?b" by (rule strip_stamped [OF assms])
  obtain ms where ms: "steps level_re (rev u, ?b, []) = ms" "ms \<noteq> []" by (auto simp: level_re_def opt_def)
  have "same_rests (steps level_re (rev u, ?b, [])) (steps level_re ([], ?b, []))"
    by (rule rests_forward [OF level_forward]) (simp add: rest_of_def)
  then have rest: "rest_of (hd ms) = rest_of (hd (steps level_re ([], ?b, [])))"
    using ms by (cases ms; cases "steps level_re ([], ?b, [])") (auto simp: same_rests_def)
  have "steps prefix_re ([], u @ ?b, []) = ms @ steps level_re ([], u @ ?b, [])"
    using steps_stamp [OF assms(1) b] ms(1) by (simp add: prefix_parts text_start_def opt_def)
  then show ?thesis using ms(2) rest by (cases ms) (simp_all add: log_line_def raw)
qed

lemma restamped_line:
  assumes "restamped l m"
  shows "log_line m = log_line l"
proof -
  have parts: "shape (take 20 x) = ''0000/00/00 00:00:00 ''" "drop 20 x \<noteq> []" "\<not> is_space (hd (drop 20 x))" if "stamped x" for x
    using that by (auto simp: stamped_def split: list.splits)
  have "log_line x = py_strip (rest_of (hd (steps level_re ([], py_strip (drop 20 x), []))))" if "stamped x" for x
    using log_line_stamped [OF parts [OF that]] by simp
  then show ?thesis using assms unfolding restamped_def by metis
qed

end
