(* ===== verification/Rclone_Process.thy ===== *)
theory Rclone_Process
  imports Log_Stamps
begin

text \<open>
  \<open>_run_rclone_command\<close> and \<open>_terminate_proc\<close> of \<open>jobs/rclone_sync.py\<close>: one rclone process from the last check before
  its start to its end. What the operating system answers is an argument: the checks before the start, and one
  observation per turn of the polling loop. Which progress is reported to the runtime state does not influence
  the loop and is left out.
\<close>

section \<open>Stopping a process\<close>

datatype wait_result = Gone | Still_There | Wait_Error

record stop_obs =
  s_running :: bool
  s_group_term :: bool
  s_first :: wait_result
  s_polled :: bool
  s_group_kill :: bool
  s_second :: wait_result
  s_final :: bool

datatype signal = Term_Group | Term_Process | Kill_Group | Kill_Process

definition term_signals :: "stop_obs \<Rightarrow> signal list" where
  "term_signals ob = (if s_group_term ob then [Term_Group] else [Term_Group, Term_Process])"

definition kill_signals :: "stop_obs \<Rightarrow> signal list" where
  "kill_signals ob = (if s_group_kill ob then [Kill_Group] else [Kill_Group, Kill_Process])"

definition exit_unconfirmed :: pyerr where
  "exit_unconfirmed = OSError ''Prozess ist auch nach SIGKILL nicht sicher beendet''"

definition terminate_proc :: "stop_obs \<Rightarrow> signal list \<times> unit result" where
  "terminate_proc ob =
     (if \<not> s_running ob then ([], Inr ())
      else if s_first ob = Gone \<or> s_first ob = Wait_Error \<and> s_polled ob then (term_signals ob, Inr ())
      else (term_signals ob @ kill_signals ob,
            if s_second ob = Gone \<or> s_final ob then Inr () else Inl exit_unconfirmed))"

section \<open>Watching a process\<close>

record poll_obs =
  w_exit :: "int option"
  w_cancelled :: bool
  w_now :: real
  w_log :: "string option"
  w_stop :: stop_obs

record watch_limits =
  l_timeout :: real
  l_max :: "real option"

record watch_state =
  x_deadline :: real
  x_next :: real
  x_offset :: nat
  x_tracker :: tracker

datatype run_outcome = Ended int | Stalled | Too_Long | Failed pyerr

definition inactivity :: "watch_limits \<Rightarrow> real" where
  "inactivity l = max (1 / 100) (l_timeout l)"

definition check_interval :: "watch_limits \<Rightarrow> real" where
  "check_interval l = min 1 (max (1 / 100) (inactivity l / 10))"

definition hard_deadline :: "watch_limits \<Rightarrow> real \<Rightarrow> real option" where
  "hard_deadline l start = (case l_max l of None \<Rightarrow> None | Some m \<Rightarrow> if 0 < m then Some (start + m) else None)"

definition stop_then :: "stop_obs \<Rightarrow> run_outcome \<Rightarrow> run_outcome" where
  "stop_then ob r = (case snd (terminate_proc ob) of Inr _ \<Rightarrow> r | Inl e \<Rightarrow> Failed e)"

text \<open>The log is looked at when the next check is due; progress moves the deadline.\<close>

definition check_activity :: "watch_limits \<Rightarrow> poll_obs \<Rightarrow> watch_state \<Rightarrow> watch_state" where
  "check_activity l p s =
     (if w_now p < x_next s then s
      else (case read_new_log_output (w_log p) (x_offset s) of (chunk, offset) \<Rightarrow>
        (case (if chunk = [] then (False, x_tracker s) else feed (x_tracker s) chunk) of (advanced, t) \<Rightarrow>
          \<lparr>x_deadline = (if advanced then w_now p + inactivity l else x_deadline s),
            x_next = w_now p + check_interval l, x_offset = offset, x_tracker = t\<rparr>)))"

fun watch :: "watch_limits \<Rightarrow> real option \<Rightarrow> watch_state \<Rightarrow> poll_obs list \<Rightarrow> run_outcome option" where
  "watch l hard s [] = None"
| "watch l hard s (p # ps) =
     (case w_exit p of
        Some rc \<Rightarrow> Some (Ended rc)
      | None \<Rightarrow>
          if w_cancelled p then Some (stop_then (w_stop p) (Ended 130))
          else let s' = check_activity l p s in
            if (case hard of None \<Rightarrow> False | Some h \<Rightarrow> h \<le> w_now p) then Some (stop_then (w_stop p) Too_Long)
            else if x_deadline s' \<le> w_now p then Some (stop_then (w_stop p) Stalled)
            else watch l hard s' ps)"

definition watch_start :: "watch_limits \<Rightarrow> real \<Rightarrow> nat \<Rightarrow> watch_state" where
  "watch_start l now offset =
     \<lparr>x_deadline = now + inactivity l, x_next = now + check_interval l, x_offset = offset, x_tracker = new_tracker\<rparr>"

section \<open>One run\<close>

text \<open>\<open>b_check\<close> is the answer of \<open>pre_spawn_check\<close>, \<open>Inr None\<close> when it passes.\<close>

record start_obs =
  b_open :: "pyerr option"
  b_cancelled :: bool
  b_check :: "string option result"
  b_cancelled_again :: bool
  b_spawn :: "pyerr option"
  b_register :: "pyerr option"
  b_stop :: stop_obs
  b_offset :: nat
  b_now :: real
  b_polls :: "poll_obs list"

text \<open>Whether a process was started, and how it ended.\<close>

definition run_rclone_command :: "watch_limits \<Rightarrow> start_obs \<Rightarrow> bool \<times> run_outcome option" where
  "run_rclone_command l b =
     (case b_open b of Some e \<Rightarrow> (False, Some (Failed e)) | None \<Rightarrow>
      if b_cancelled b then (False, Some (Ended 130))
      else case b_check b of
          Inl e \<Rightarrow> (False, Some (Failed e))
        | Inr (Some m) \<Rightarrow> (False, Some (Failed (RuntimeError m)))
        | Inr None \<Rightarrow>
            if b_cancelled_again b then (False, Some (Ended 130))
            else case b_spawn b of Some e \<Rightarrow> (False, Some (Failed e)) | None \<Rightarrow>
              (case b_register b of
                 Some e \<Rightarrow> (True, Some (stop_then (b_stop b) (Failed e)))
               | None \<Rightarrow> (True, watch l (hard_deadline l (b_now b)) (watch_start l (b_now b) (b_offset b)) (b_polls b))))"

section \<open>Lemmas\<close>

lemma spawned_after_checks: "fst (run_rclone_command l b) \<Longrightarrow> b_check b = Inr None \<and> \<not> b_cancelled b \<and> \<not> b_cancelled_again b"
  by (auto simp: run_rclone_command_def split: if_splits option.splits sum.splits)

lemma stop_then_Ended: "stop_then ob r = Ended rc \<Longrightarrow> r = Ended rc"
  by (auto simp: stop_then_def split: sum.splits)

lemma watch_Ended: "watch l hard s ps = Some (Ended rc) \<Longrightarrow> rc = 130 \<or> (\<exists>p \<in> set ps. w_exit p = Some rc)"
  by (induction l hard s ps rule: watch.induct) (auto simp: Let_def dest!: stop_then_Ended split: option.splits if_splits)

lemma ended_by_process:
  "snd (run_rclone_command l b) = Some (Ended rc) \<Longrightarrow> rc \<noteq> 130 \<Longrightarrow>
     fst (run_rclone_command l b) \<and> (\<exists>p \<in> set (b_polls b). w_exit p = Some rc)"
  using watch_Ended by (fastforce simp: run_rclone_command_def dest!: stop_then_Ended split: if_splits option.splits sum.splits)

text \<open>C19: An absolute limit on the runtime ends every run: as soon as one observation of the polling loop falls behind
  the limit, the run has an outcome, however much progress the log shows.\<close>

theorem hard_limit_ends_the_run:
  assumes "l_max l = Some m" and "0 < m" and "p \<in> set (b_polls b)" and "b_now b + m \<le> w_now p"
  shows "\<exists>r. snd (run_rclone_command l b) = Some r"
proof -
  have "\<exists>r. watch l (Some h) s ps = Some r" if "p \<in> set ps" "h \<le> w_now p" for h s ps
    using that by (induction ps arbitrary: s) (auto simp: Let_def split: option.splits)
  then show ?thesis using assms by (auto simp: run_rclone_command_def hard_deadline_def split: option.splits sum.splits)
qed

section \<open>A status line that repeats\<close>

text \<open>The log file grows along \<open>stream\<close> behind what has been read; \<open>c\<close> is how much of it the last observation showed.\<close>

fun grows_along :: "string \<Rightarrow> string \<Rightarrow> nat \<Rightarrow> poll_obs list \<Rightarrow> bool" where
  "grows_along pre stream c [] = True"
| "grows_along pre stream c (p # ps) \<longleftrightarrow>
     (\<exists>n \<in> {c..length stream}. w_log p = Some (pre @ take n stream) \<and> grows_along pre stream n ps)"

lemma grows_from: "grows_along pre stream n ps \<Longrightarrow> c \<le> n \<Longrightarrow> grows_along pre stream c ps"
  by (cases ps) auto

lemma repeats_are_silent:
  assumes "feed s stream = (False, s)" and "whole_partial s" and "c \<le> n"
  shows "feed (snd (feed s (take c stream))) (drop c (take n stream)) = (False, snd (feed s (take n stream)))"
proof -
  have "fst (feed s (take n stream @ drop n stream)) = False" using assms(1) by simp
  then have quiet: "fst (feed s (take n stream)) = False" unfolding feed_append [OF assms(2)] by simp
  have "take c (take n stream) = take c stream" using assms(3) by (simp add: min_absorb1)
  then have cut: "take c stream @ drop c (take n stream) = take n stream" using append_take_drop_id [of c "take n stream"] by simp
  show ?thesis using feed_append [OF assms(2), of "take c stream" "drop c (take n stream)"] quiet unfolding cut
    by (simp add: prod_eq_iff)
qed

text \<open>No look at the log finds more new output than one read takes in.\<close>

fun calm_reads :: "watch_limits \<Rightarrow> watch_state \<Rightarrow> poll_obs list \<Rightarrow> bool" where
  "calm_reads bounds s [] = True"
| "calm_reads bounds s (p # ps) \<longleftrightarrow>
     (w_now p < x_next s \<or> length (or_empty (w_log p)) \<le> x_offset s + max_progress_read) \<and>
     calm_reads bounds (check_activity bounds p s) ps"

lemma read_growth:
  assumes "n \<le> c + max_progress_read" and "c \<le> n" and "n \<le> length stream"
  shows "read_new_log_output (Some (pre @ take n stream)) (length pre + c) = (drop c (take n stream), length pre + n)"
  using assms by (cases "n = c") (auto simp: read_new_log_output_def Let_def drop_append)

text \<open>Output that is no progress for the tracker, as it arrives in pieces, does not move the deadline.\<close>

lemma silent_output_runs_out:
  assumes known: "feed t stream = (False, t)" "whole_partial t" and idle: "feed t [] = (False, t)"
    and start: "x_offset s = length pre" "x_tracker s = t" "grows_along pre stream 0 ps" "calm_reads bounds s ps"
    and late: "p \<in> set ps" "x_deadline s \<le> w_now p"
  shows "\<exists>r. watch bounds hard s ps = Some r"
proof -
  have "\<exists>r. watch bounds hard u ps = Some r"
    if "x_offset u = length pre + c" "x_tracker u = snd (feed t (take c stream))" "grows_along pre stream c ps"
      "calm_reads bounds u ps" "p \<in> set ps" "x_deadline u \<le> w_now p" for u c ps
    using that
  proof (induction ps arbitrary: u c)
    case (Cons q qs)
    obtain n where n: "c \<le> n" "n \<le> length stream" "w_log q = Some (pre @ take n stream)" "grows_along pre stream n qs"
      using Cons.prems(3) by auto
    let ?v = "check_activity bounds q u"
    have calm: "calm_reads bounds ?v qs" using Cons.prems(4) by simp
    obtain c' where v: "c' \<in> {c, n}" "x_offset ?v = length pre + c'" "x_tracker ?v = snd (feed t (take c' stream))"
        "x_deadline ?v = x_deadline u"
    proof (cases "w_now q < x_next u")
      case True
      then have "?v = u" by (simp add: check_activity_def)
      then show ?thesis using that [of c] Cons.prems(1,2) by simp
    next
      case False
      let ?chunk = "drop c (take n stream)"
      have bounded: "n \<le> c + max_progress_read" using False Cons.prems(1,4) n(2,3) by (simp add: or_empty_def)
      have feeds: "(if ?chunk = [] then (False, x_tracker u) else feed (x_tracker u) ?chunk) = (False, snd (feed t (take n stream)))"
        using repeats_are_silent [OF known(1,2) n(1)] Cons.prems(2) n by auto
      have "?v = \<lparr>x_deadline = x_deadline u, x_next = w_now q + check_interval bounds, x_offset = length pre + n,
          x_tracker = snd (feed t (take n stream))\<rparr>"
        using False feeds read_growth [OF bounded n(1,2), of pre] n(3) Cons.prems(1) by (simp add: check_activity_def)
      then show ?thesis using that [of n] by simp
    qed
    have later: "\<exists>r. watch bounds hard ?v qs = Some r" if "p \<in> set qs"
      using Cons.IH [OF v(2,3) grows_from [OF n(4)] calm that] v(1,4) Cons.prems(6) n(1) by auto
    show ?case
    proof (cases "p = q")
      case True
      then have "x_deadline ?v \<le> w_now q" using v(4) Cons.prems(6) by simp
      then show ?thesis by (auto simp: Let_def split: option.splits)
    next
      case False
      then show ?thesis using later Cons.prems(5) by (auto simp: Let_def split: option.splits)
    qed
  qed simp
  moreover have "x_tracker s = snd (feed t (take 0 stream))"
  proof -
    have "snd (feed t []) = t" using idle by simp
    then show ?thesis using start(2) by simp
  qed
  ultimately show ?thesis using start late by fastforce
qed

text \<open>C18: A hanging rclone that only repeats its status line is stopped. Once the line has been read, further copies of it,
  unchanged or each with a time stamp of its own, do not move the deadline, however the output is cut into looks at
  the log, as long as no look finds more than 512 KiB of new output; so the first observation behind the deadline
  gives the run an outcome.\<close>

theorem repeated_status_does_not_keep_alive:
  assumes "t_partial t = []" and "\<forall>x \<in> set l. \<not> is_break x" and "x_tracker s = snd (feed t (l @ [newline]))"
    and "\<forall>m \<in> set ms. (m = l \<or> restamped l m) \<and> (\<forall>x \<in> set m. \<not> is_break x)"
    and "x_offset s = length pre" and "grows_along pre (concat (map (\<lambda>m. m @ [newline]) ms)) 0 ps"
    and "calm_reads bounds s ps" and "p \<in> set ps" and "x_deadline s \<le> w_now p"
  shows "\<exists>r. watch bounds hard s ps = Some r"
proof (rule silent_output_runs_out [OF _ _ _ assms(5) refl assms(6-9)])
  have "\<forall>m \<in> set ms. log_line m = log_line l \<and> (\<forall>x \<in> set m. \<not> is_break x)"
    using assms(4) by (auto dest: restamped_line)
  then show "feed (x_tracker s) (concat (map (\<lambda>m. m @ [newline]) ms)) = (False, x_tracker s)"
    by (rule repeated_lines [OF assms(1,2,3)])
  show "feed (x_tracker s) [] = (False, x_tracker s)" using repeated_lines [OF assms(1,2,3), of "[]"] by simp
  have "whole_partial t" using assms(1) by (simp add: whole_partial_def)
  then show "whole_partial (x_tracker s)" unfolding assms(3) by (rule feed_whole)
qed

section \<open>Witnesses\<close>

definition demo_stop :: stop_obs where
  "demo_stop = \<lparr>s_running = True, s_group_term = True, s_first = Gone, s_polled = False, s_group_kill = True, s_second = Gone,
     s_final = True\<rparr>"

definition demo_poll :: "real \<Rightarrow> string \<Rightarrow> poll_obs" where
  "demo_poll now logged = \<lparr>w_exit = None, w_cancelled = False, w_now = now, w_log = Some logged, w_stop = demo_stop\<rparr>"

definition demo_start :: start_obs where
  "demo_start = \<lparr>b_open = None, b_cancelled = False, b_check = Inr None, b_cancelled_again = False, b_spawn = None,
     b_register = None, b_stop = demo_stop, b_offset = 0, b_now = 0, b_polls = [demo_poll 1 [], demo_poll 60 demo_line]\<rparr>"

definition demo_limits :: watch_limits where
  "demo_limits = \<lparr>l_timeout = 3600, l_max = Some 60\<rparr>"

lemma hard_limit_ends_the_run_witness: "\<exists>r. snd (run_rclone_command demo_limits demo_start) = Some r"
proof -
  have "demo_poll 60 demo_line \<in> set (b_polls demo_start)" by (simp add: demo_start_def)
  from hard_limit_ends_the_run [OF _ _ this, of demo_limits 60] show ?thesis
    by (simp add: demo_limits_def demo_start_def demo_poll_def)
qed

text \<open>One status line with three time stamps.\<close>

definition stamped_line :: "char \<Rightarrow> string" where
  "stamped_line c = ''2026/01/02 10:0'' @ c # '':00 INFO  : '' @ demo_line"

definition demo_watch :: watch_state where
  "demo_watch = \<lparr>x_deadline = 3600, x_next = 0, x_offset = 0,
     x_tracker = snd (feed new_tracker (stamped_line (CHR ''0'') @ [newline]))\<rparr>"

lemma stamped_lines: "restamped (stamped_line (CHR ''0'')) (stamped_line (CHR ''1''))"
    "restamped (stamped_line (CHR ''0'')) (stamped_line (CHR ''2''))"
    "\<forall>c \<in> {CHR ''0'', CHR ''1'', CHR ''2''}. \<forall>x \<in> set (stamped_line c). \<not> is_break x"
  by code_simp+

lemma repeated_status_does_not_keep_alive_witness:
  "\<exists>r. watch demo_limits None demo_watch [demo_poll 1800 (stamped_line (CHR ''1'') @ [newline]),
     demo_poll 3600 (stamped_line (CHR ''1'') @ [newline] @ stamped_line (CHR ''2''))] = Some r"
proof -
  let ?ms = "[stamped_line (CHR ''1''), stamped_line (CHR ''2'')]"
  let ?p = "demo_poll 3600 (stamped_line (CHR ''1'') @ [newline] @ stamped_line (CHR ''2''))"
  let ?polls = "[demo_poll 1800 (stamped_line (CHR ''1'') @ [newline]), ?p]"
  have grows: "grows_along [] (concat (map (\<lambda>m. m @ [newline]) ?ms)) 0 ?polls" by code_simp
  have lines: "\<forall>m \<in> set ?ms. (m = stamped_line (CHR ''0'') \<or> restamped (stamped_line (CHR ''0'')) m) \<and> (\<forall>x \<in> set m. \<not> is_break x)"
    using stamped_lines by simp
  have first: "\<forall>x \<in> set (stamped_line (CHR ''0'')). \<not> is_break x" using stamped_lines(3) by simp
  have tracker: "t_partial new_tracker = []" "x_tracker demo_watch = snd (feed new_tracker (stamped_line (CHR ''0'') @ [newline]))"
    using new_tracker_whole by (simp_all add: demo_watch_def)
  have calm: "calm_reads demo_limits demo_watch ?polls"
    by (simp add: max_progress_read_def or_empty_def demo_poll_def stamped_line_def demo_line_def)
  have "x_offset demo_watch = length []" "?p \<in> set ?polls" "x_deadline demo_watch \<le> w_now ?p"
    by (simp_all add: demo_watch_def demo_poll_def)
  then show ?thesis
    by (rule repeated_status_does_not_keep_alive [OF tracker(1) first tracker(2) lines _ grows calm])
qed

end
