(* ===== verification/Command_Text.thy ===== *)
theory Command_Text
  imports Py_Regex Rclone_Args
begin

text \<open>
  A command as text: \<open>command_to_string\<close> of \<open>jobs/rclone_sync.py\<close> with \<open>shlex.quote\<close>, and \<open>redact_command_text\<close> of
  \<open>rclone_args.py\<close>, which masks credentials in it.
\<close>

section \<open>Replacing matches\<close>

text \<open>\<open>re.sub\<close>: the text between the matches is kept.\<close>

fun sub_all :: "nat \<Rightarrow> regex \<Rightarrow> (mstate \<Rightarrow> string) \<Rightarrow> string \<Rightarrow> string \<Rightarrow> string" where
  "sub_all 0 r f d a = a"
| "sub_all (Suc n) r f d a =
     (case search_at r d a of
        None \<Rightarrow> a
      | Some (d0, (d', a', g)) \<Rightarrow>
          rev (take (length d0 - length d) d0) @ f (d', a', g) @
          (if length d0 < length d' then sub_all n r f d' a'
           else case a' of [] \<Rightarrow> [] | c # a'' \<Rightarrow> c # sub_all n r f (c # d') a''))"

definition re_sub :: "regex \<Rightarrow> (mstate \<Rightarrow> string) \<Rightarrow> string \<Rightarrow> string" where
  "re_sub r f s = sub_all (Suc (length s)) r f [] s"

definition group_str :: "nat \<Rightarrow> mstate \<Rightarrow> string" where
  "group_str n m = (case group_text n m of None \<Rightarrow> [] | Some t \<Rightarrow> t)"

definition ahead :: "regex \<Rightarrow> regex" where
  "ahead r = At (\<lambda>d a. steps r (d, a, []) \<noteq> [])"

section \<open>Masking\<close>

definition redacted :: string where
  "redacted = ''***REDACTED***''"

definition quote1 :: char where "quote1 = CHR 0x27"
definition quote2 :: char where "quote2 = CHR 0x22"
definition backslash :: char where "backslash = CHR 0x5C"

definition sensitive_flag_re :: regex where
  "sensitive_flag_re =
     seq [char_lit (CHR ''-''), opt (char_lit (CHR ''-'')),
       ahead (seq [Many (Lit flag_char),
         alts (map text_ci [''password'', ''passwd'', ''pass'', ''secret'', ''token'', ''credential'', ''access-key'',
           ''private-key'', ''customer-key'', ''encryption-key'', ''sas-url'', ''header'', ''key''])]),
       Lit (\<lambda>c. is_alpha c \<or> is_digit c), Many (Lit flag_char)]"

definition quoted_value :: "char \<Rightarrow> regex" where
  "quoted_value q =
     seq [char_lit q,
       Many (alts [seq [char_lit backslash, Lit (\<lambda>c. c \<noteq> newline)], Lit (\<lambda>c. c \<noteq> q \<and> c \<noteq> backslash)]), char_lit q]"

definition bare_char :: "char \<Rightarrow> bool" where
  "bare_char c \<longleftrightarrow> \<not> is_space c \<and> c \<notin> set '',;])}'' \<and> c \<noteq> quote1 \<and> c \<noteq> quote2"

text \<open>Groups: 1 the flag, 2 the separator, 3 the value.\<close>

definition flag_value_re :: regex where
  "flag_value_re =
     seq [Group 1 sensitive_flag_re,
       Group 2 (alts [seq [spaces, char_lit (CHR ''=''), spaces], some (Lit is_space)]),
       Group 3 (alts [quoted_value quote2, quoted_value quote1, some (Lit bare_char)])]"

definition masked_value :: "string \<Rightarrow> string" where
  "masked_value v =
     (if v \<noteq> [] \<and> hd v = quote2 \<and> last v = quote2 then quote2 # redacted @ [quote2]
      else if v \<noteq> [] \<and> hd v = quote1 \<and> last v = quote1 then quote1 # redacted @ [quote1]
      else redacted)"

definition mask_flag :: "mstate \<Rightarrow> string" where
  "mask_flag m = group_str 1 m @ group_str 2 m @ masked_value (group_str 3 m)"

text \<open>\<open>_URL_PASSWORD_RE\<close>.\<close>

definition url_password_re :: regex where
  "url_password_re =
     seq [Group 1 (seq [text_re ''://'', some (Lit (\<lambda>c. c \<notin> set ''/:@'' \<and> \<not> is_space c)), char_lit (CHR '':'')]),
       some (Lit (\<lambda>c. c \<notin> set ''@/'' \<and> \<not> is_space c)), ahead (char_lit (CHR ''@''))]"

definition redact_command_text :: "string \<Rightarrow> string" where
  "redact_command_text s =
     re_sub url_password_re (\<lambda>m. group_str 1 m @ redacted) (re_sub flag_value_re mask_flag s)"

section \<open>Quoting\<close>

definition safe_char :: "char \<Rightarrow> bool" where
  "safe_char c \<longleftrightarrow> is_alpha c \<or> is_digit c \<or> c \<in> set ''_@%+=:,./-''"

definition quote_char :: "char \<Rightarrow> string" where
  "quote_char c = (if c = quote1 then [quote1, quote2, quote1, quote2, quote1] else [c])"

definition shlex_quote :: "string \<Rightarrow> string" where
  "shlex_quote s =
     (if s = [] then [quote1, quote1]
      else if list_all safe_char s then s
      else quote1 # concat (map quote_char s) @ [quote1])"

definition shlex_text :: "string list \<Rightarrow> string" where
  "shlex_text cmd = py_join '' '' (map shlex_quote cmd)"

definition command_to_string :: "string list \<Rightarrow> string" where
  "command_to_string cmd = redact_command_text (shlex_text cmd)"

section \<open>The text can be read back\<close>

lemma quote_codes: "lex_space quote1 = False" "is_quote quote1" "is_quote quote2" "is_backslash quote1 = False"
    "quote1 \<noteq> quote2" "code_of quote1 = 39" "code_of quote2 = 34" "lex_space (CHR '' '')"
  by code_simp+

lemma safe_plain: "safe_char c \<Longrightarrow> \<not> lex_space c \<and> \<not> is_quote c \<and> \<not> is_backslash c"
proof -
  have "\<forall>x \<in> set ''_@%+=:,./-''. \<not> lex_space x \<and> \<not> is_quote x \<and> \<not> is_backslash x" by code_simp
  then show "safe_char c \<Longrightarrow> \<not> lex_space c \<and> \<not> is_quote c \<and> \<not> is_backslash c"
    by (auto simp: safe_char_def is_alpha_def is_digit_def lex_space_def is_quote_def is_backslash_def)
qed

lemma lex_step: "lex_char c st w = (st', w', []) \<Longrightarrow> lex (c # s) st w = lex s st' w'"
  by (simp split: sum.splits)

lemma lex_safe: "list_all safe_char s \<Longrightarrow> lex (s @ rest) InWord w = lex rest InWord (w @ s)"
proof (induction s arbitrary: w)
  case (Cons c s)
  then have "lex_char c InWord w = (InWord, w @ [c], [])" using safe_plain [of c] by simp
  then have "lex ((c # s) @ rest) InWord w = lex (s @ rest) InWord (w @ [c])" unfolding append_Cons by (rule lex_step)
  also have "\<dots> = lex rest InWord (w @ c # s)" using Cons by simp
  finally show ?case .
qed simp

lemma lex_quoted: "lex (concat (map quote_char s) @ rest) (InQuote quote1) w = lex rest (InQuote quote1) (w @ s)"
proof (induction s arbitrary: w)
  case (Cons c s)
  have "lex (quote_char c @ more) (InQuote quote1) w = lex more (InQuote quote1) (w @ [c])" for more
  proof (cases "c = quote1")
    case True
    then have q: "quote_char c = [quote1, quote2, quote1, quote2, quote1]" by (simp add: quote_char_def)
    have 1: "lex_char quote1 (InQuote quote1) w = (InWord, w, [])" by simp
    have 2: "lex_char quote2 InWord w = (InQuote quote2, w, [])" using quote_codes by (simp add: lex_space_def)
    have 3: "lex_char quote1 (InQuote quote2) w = (InQuote quote2, w @ [quote1], [])" using quote_codes by simp
    have 4: "lex_char quote2 (InQuote quote2) (w @ [quote1]) = (InWord, w @ [quote1], [])" by simp
    have 5: "lex_char quote1 InWord (w @ [quote1]) = (InQuote quote1, w @ [quote1], [])" using quote_codes by simp
    show ?thesis
      unfolding q unfolding True append_Cons append_Nil lex_step [OF 1] lex_step [OF 2] lex_step [OF 3] lex_step [OF 4] lex_step [OF 5] ..
  next
    case False
    then have "lex_char c (InQuote quote1) w = (InQuote quote1, w @ [c], [])" by (simp add: quote_codes)
    then have "lex (c # more) (InQuote quote1) w = lex more (InQuote quote1) (w @ [c])" for more by (rule lex_step)
    then show ?thesis using False by (simp add: quote_char_def)
  qed
  from this [of "concat (map quote_char s) @ rest"] Cons.IH [of "w @ [c]"] show ?case by simp
qed simp

text \<open>A quoted argument opens a token and leaves it open.\<close>

lemma lex_argument: "lex (shlex_quote t @ rest) Between w = lex rest InWord t"
proof -
  consider "t = []" | "t \<noteq> []" "list_all safe_char t" | "t \<noteq> []" "\<not> list_all safe_char t" by blast
  then show ?thesis
  proof cases
    case 1
    have open1: "lex_char quote1 Between w = (InQuote quote1, [], [])" using quote_codes by simp
    have close1: "lex_char quote1 (InQuote quote1) [] = (InWord, [], [])" by simp
    have q: "shlex_quote t = [quote1, quote1]" using 1 by (simp add: shlex_quote_def)
    show ?thesis unfolding q unfolding append_Cons append_Nil lex_step [OF open1] lex_step [OF close1] 1 ..
  next
    case 2
    then obtain c s where t: "t = c # s" "safe_char c" "list_all safe_char s" by (cases t) auto
    then have first: "lex_char c Between w = (InWord, [c], [])" using safe_plain by simp
    have "shlex_quote t = c # s" using 2 t by (simp add: shlex_quote_def)
    then have "lex (shlex_quote t @ rest) Between w = lex (s @ rest) InWord [c]"
      using lex_step [OF first, of "s @ rest"] by simp
    then show ?thesis using lex_safe [OF t(3), of rest "[c]"] t(1) by simp
  next
    case 3
    have open1: "lex_char quote1 Between w = (InQuote quote1, [], [])" using quote_codes by simp
    have close1: "lex_char quote1 (InQuote quote1) t = (InWord, t, [])" by simp
    have "shlex_quote t @ rest = quote1 # (concat (map quote_char t) @ quote1 # rest)" using 3 by (simp add: shlex_quote_def)
    then have "lex (shlex_quote t @ rest) Between w = lex (concat (map quote_char t) @ quote1 # rest) (InQuote quote1) []"
      using lex_step [OF open1] by metis
    also have "\<dots> = lex rest InWord t" unfolding lex_quoted using lex_step [OF close1] by simp
    finally show ?thesis .
  qed
qed

text \<open>C20: The text of a command, as it is logged before masking, determines the command: splitting it the way a POSIX
  shell does gives back exactly its arguments, whatever characters they contain.\<close>

theorem command_text_reads_back: "shlex_split (shlex_text cmd) = Inr cmd"
proof -
  have "lex (py_join '' '' (map shlex_quote (t # ts))) Between [] = Inr (t # ts)" for t ts
  proof (induction ts arbitrary: t)
    case Nil
    show ?case using lex_argument [of t "[]" "[]"] by simp
  next
    case (Cons u us)
    have "lex (py_join '' '' (map shlex_quote (t # u # us))) Between [] =
        lex (shlex_quote t @ CHR '' '' # py_join '' '' (map shlex_quote (u # us))) Between []" by simp
    also have "\<dots> = lex (CHR '' '' # py_join '' '' (map shlex_quote (u # us))) InWord t" by (rule lex_argument)
    also have "\<dots> = Inr (t # u # us)" using Cons.IH [of u] quote_codes(8) by simp
    finally show ?case .
  qed
  then show ?thesis by (cases cmd) (simp_all add: shlex_split_def shlex_text_def)
qed

text \<open>The masking works on the quoted text: of a credential with a space only the first word is masked.\<close>

lemma masking_stops_at_a_space:
  "command_to_string [''--pass=a b''] = quote1 # ''--pass=***REDACTED*** b'' @ [quote1]"
  by code_simp

end
