(* ===== verification/Pair_Worker.thy ===== *)
theory Pair_Worker
  imports Rclone_Process Command_Text Endpoint_Guards Protection Baseline Run_Pool
begin

text \<open>
  \<open>_sync_pair\<close> of \<open>jobs/rclone_sync.py\<close>: the run of one data path, from the precheck to the summary. A worker may be left
  in the middle: by an early return, a watchdog, an exception or, in the model, because the observations of the
  polling loop end. \<open>worker\<close> is what it has done up to then; the record \<open>surroundings\<close> is what it meets. Messages
  are shortened; writing the runtime file and sending the notification are left out.
\<close>

record worker =
  wk_summary :: pydict
  wk_states :: "string list"
  wk_started :: "string list list"
  wk_store :: runtime_db
  wk_jobs :: jobs_db

datatype leave = Return_Now | Watchdog_Stall | Watchdog_Limit | Raise pyerr | Unfinished

type_synonym 'a step = "worker \<Rightarrow> (leave + 'a) \<times> worker"

fun proceed :: "(leave + 'a) \<times> worker \<Rightarrow> ('a \<Rightarrow> 'b step) \<Rightarrow> (leave + 'b) \<times> worker" where
  "proceed (Inl l, w) f = (Inl l, w)"
| "proceed (Inr x, w) f = f x w"

definition and_then :: "'a step \<Rightarrow> ('a \<Rightarrow> 'b step) \<Rightarrow> 'b step" where
  "and_then m f = (\<lambda>w. proceed (m w) f)"

definition give :: "'a \<Rightarrow> 'a step" where
  "give x = (\<lambda>w. (Inr x, w))"

definition leave_by :: "leave \<Rightarrow> 'a step" where
  "leave_by l = (\<lambda>w. (Inl l, w))"

text \<open>A call that may raise.\<close>

definition attempt :: "'a result \<Rightarrow> 'a step" where
  "attempt r = (case r of Inl e \<Rightarrow> leave_by (Raise e) | Inr x \<Rightarrow> give x)"

definition note_down :: "pydict \<Rightarrow> unit step" where
  "note_down d = (\<lambda>w. (Inr (), w\<lparr>wk_summary := py_merge (wk_summary w) d\<rparr>))"

definition report_state :: "string \<Rightarrow> unit step" where
  "report_state st = (\<lambda>w. (Inr (), w\<lparr>wk_states := wk_states w @ [st]\<rparr>))"

text \<open>What the worker meets. \<open>ob_fs2\<close> and \<open>ob_fs3\<close> are the file systems right before the two starts of rclone.\<close>

record surroundings =
  ob_fs0 :: fs
  ob_probes :: remote_probes
  ob_made :: "pyerr option"
  ob_fs1 :: fs
  ob_stamp :: string
  ob_size_remote :: size_run
  ob_size_before :: size_run
  ob_size_after :: size_run
  ob_size_guard :: size_run
  ob_guard_now :: real
  ob_store_guard :: "runtime_db \<Rightarrow> runtime_db"
  ob_cancelled :: bool
  ob_fs2 :: fs
  ob_run :: start_obs
  ob_logged :: string
  ob_cancelled_resync :: bool
  ob_fs3 :: fs
  ob_resync :: start_obs
  ob_logged_resync :: string
  ob_cancelled_end :: bool
  ob_cancelled_snapshot :: bool
  ob_store_end :: "runtime_db \<Rightarrow> runtime_db"
  ob_baseline_now :: real
  ob_snapshot :: "pyval result"

record worker_env =
  e_command :: command_env
  e_guard :: guard_env
  e_snapshot :: pydict
  e_args :: "string list"
  e_log_dir :: string
  e_dry_run :: bool
  e_timeout :: int
  e_max_runtime :: "int option"

section \<open>Helpers\<close>

definition one_decimal :: "real \<Rightarrow> string" where
  "one_decimal x = (if x < 0 then ''-'' else []) @ fixed_point (nat (round_even (\<bar>x\<bar> * 10))) 1"

definition name_char :: "char \<Rightarrow> bool" where
  "name_char c \<longleftrightarrow> is_alpha c \<or> is_digit c \<or> c \<in> set ''_.-''"

definition strip_dots :: "string \<Rightarrow> string" where
  "strip_dots s =
     rev (dropWhile (\<lambda>c. c \<in> set ''._'') (rev (dropWhile (\<lambda>c. c \<in> set ''._'') s)))"

definition safe_name :: "string \<Rightarrow> string \<Rightarrow> string" where
  "safe_name v fallback =
     (let cleaned = take 80 (strip_dots (re_sub (some (Lit (\<lambda>c. \<not> name_char c))) (\<lambda>_. ''_'') (if v = [] then fallback else v)))
      in if cleaned = [] then fallback else cleaned)"

fun scale_bytes :: "real \<Rightarrow> string list \<Rightarrow> string" where
  "scale_bytes amount [] = one_decimal amount @ '' PiB''"
| "scale_bytes amount (u # us) = (if \<bar>amount\<bar> < 1024 then one_decimal amount @ '' '' @ u else scale_bytes (amount / 1024) us)"

definition format_bytes :: "int \<Rightarrow> string" where
  "format_bytes n = scale_bytes (real_of_int n) [''B'', ''KiB'', ''MiB'', ''GiB'', ''TiB'']"

text \<open>Any failure is \<open>(0, "?")\<close>.\<close>

definition pair_stats :: "size_run \<Rightarrow> int \<times> string" where
  "pair_stats run =
     (case run of
        SizeExit code err out parsed \<Rightarrow>
          (if code \<noteq> 0 then (0, ''?'')
           else case bind_result parsed (\<lambda>v. bind_result (as_mapping v) (\<lambda>d.
                  bind_result (py_int (py_or (py_get d ''count'') (PInt 0))) (\<lambda>c.
                  bind_result (py_int (py_or (py_get d ''bytes'') (PInt 0))) (\<lambda>b. Inr (c, format_bytes b))))) of
             Inr cs \<Rightarrow> cs | Inl _ \<Rightarrow> (0, ''?''))
      | _ \<Rightarrow> (0, ''?''))"

text \<open>\<open>_first_run_resync_allowed\<close>: an initial resync, only while the data path has no history.\<close>

definition first_run_resync_allowed :: "sched_env \<Rightarrow> pydict \<Rightarrow> pydict \<Rightarrow> string \<Rightarrow> jobs_db \<Rightarrow> bool \<times> jobs_db" where
  "first_run_resync_allowed env pair backup name db =
     (if \<not> truthy (py_get_default pair ''auto_resync_first_run'' (py_get_default backup ''auto_resync_first_run'' (PBool True)))
      then (False, db)
      else (case pair_baseline_state name (rclone_history_key env pair) db of (db', st) \<Rightarrow> (st = BaseNew, db')))"

text \<open>\<open>cmd.index("--")\<close> and the flags in front of it.\<close>

definition resync_command :: "pydict \<Rightarrow> pydict \<Rightarrow> string list \<Rightarrow> string list result" where
  "resync_command pair backup cmd =
     (if ''--'' \<notin> set cmd then Inl (ValueError ''index'')
      else let m = py_lower (py_strip (str_or (py_or (py_get pair ''resync_mode'') (py_get backup ''resync_mode'')) []));
               flags = ''--resync'' # (if m \<noteq> [] \<and> m \<noteq> ''path1'' then [''--resync-mode'', m] else [])
           in Inr (takeWhile (\<lambda>t. t \<noteq> ''--'') cmd @ flags @ dropWhile (\<lambda>t. t \<noteq> ''--'') cmd))"

definition worker_limits :: "worker_env \<Rightarrow> watch_limits" where
  "worker_limits env = \<lparr>l_timeout = real_of_int (e_timeout env), l_max = map_option real_of_int (e_max_runtime env)\<rparr>"

text \<open>One call of \<open>_run_rclone_command\<close>; \<open>_sync_pair\<close> checks the guards on the local ends right before the start.\<close>

definition run_checked :: "watch_limits \<Rightarrow> start_obs \<Rightarrow> string list \<Rightarrow> int step" where
  "run_checked l b cmd w =
     (case run_rclone_command l b of
        (spawned, r) \<Rightarrow>
          (let w' = (if spawned then w\<lparr>wk_started := wk_started w @ [cmd]\<rparr> else w) in
           case r of
             None \<Rightarrow> (Inl Unfinished, w')
           | Some (Ended rc) \<Rightarrow> (Inr rc, w')
           | Some Stalled \<Rightarrow> (Inl Watchdog_Stall, w')
           | Some Too_Long \<Rightarrow> (Inl Watchdog_Limit, w')
           | Some (Failed e) \<Rightarrow> (Inl (Raise e), w')))"

definition run_guarded ::
  "worker_env \<Rightarrow> pydict \<Rightarrow> (string \<times> endpoint_guard) list \<Rightarrow> fs \<Rightarrow> start_obs \<Rightarrow> string list \<Rightarrow> int step" where
  "run_guarded env pair guards fs b cmd =
     run_checked (worker_limits env) (b\<lparr>b_check := recheck_endpoint_guards fs pair guards\<rparr>) cmd"

section \<open>Before the command\<close>

text \<open>The exceptions that refuse the path instead of ending the worker.\<close>

definition refuses_path :: "pyerr \<Rightarrow> bool" where
  "refuses_path e = (case e of OSError _ \<Rightarrow> True | RuntimeError _ \<Rightarrow> True | ValueError _ \<Rightarrow> True | UnsafeRcloneArgument _ \<Rightarrow> True | _ \<Rightarrow> False)"

definition stop_with :: "string \<Rightarrow> string \<Rightarrow> pydict \<Rightarrow> 'a step" where
  "stop_with st msg extra =
     and_then (note_down ((''error'', PStr msg) # extra)) (\<lambda>_. and_then (report_state st) (\<lambda>_. leave_by Return_Now))"

definition skipped :: pydict where
  "skipped = [(''skipped'', PBool True)]"

definition prepare_guards :: "surroundings \<Rightarrow> pydict \<Rightarrow> (string \<times> endpoint_guard) list result" where
  "prepare_guards ob pair =
     bind_result (new_destinations (ob_fs0 ob) pair) (\<lambda>ds.
       case (if ds = [] then None else ob_made ob) of
         Some e \<Rightarrow> Inl e
       | None \<Rightarrow> capture_endpoint_guards (ob_fs1 ob) pair)"

definition fix_ends :: "surroundings \<Rightarrow> pydict \<Rightarrow> (string \<times> endpoint_guard) list step" where
  "fix_ends ob pair =
     (case prepare_guards ob pair of
        Inr guards \<Rightarrow> give guards
      | Inl e \<Rightarrow> if refuses_path e then stop_with ''error'' ''Lokale Pfadidentitaet konnte nicht fixiert werden'' skipped
                 else leave_by (Raise e))"

definition first_summary :: "string \<Rightarrow> string \<Rightarrow> string \<Rightarrow> bool \<Rightarrow> pydict" where
  "first_summary name remote local dry =
     [(''name'', PStr name), (''remote'', PStr remote), (''local'', PStr local), (''log_file'', PStr []), (''ok'', PBool False),
      (''error'', PStr []), (''dry_run'', PBool dry)]"

definition stats_before :: "surroundings \<Rightarrow> pydict" where
  "stats_before ob =
     (case (pair_stats (ob_size_remote ob), pair_stats (ob_size_before ob)) of ((cf, cs), (lf, ls)) \<Rightarrow>
        [(''cloud_files'', PInt cf), (''cloud_size'', PStr cs), (''local_files_before'', PInt lf), (''local_size_before'', PStr ls)])"

text \<open>Outside the \<open>try\<close>: the name, the guards and the section \<open>backup\<close>.\<close>

definition open_worker :: "worker_env \<Rightarrow> surroundings \<Rightarrow> pydict \<Rightarrow> (string \<times> (string \<times> endpoint_guard) list \<times> pydict) step" where
  "open_worker env ob pair =
     and_then (attempt (required_text pair ''name'')) (\<lambda>name.
     and_then (attempt (required_text pair ''remote'')) (\<lambda>remote.
     and_then (attempt (required_text pair ''local'')) (\<lambda>local.
     and_then (note_down (first_summary name remote local (e_dry_run env))) (\<lambda>_.
     and_then (report_state ''checking'') (\<lambda>_.
     and_then (attempt (precheck_pair (ob_fs0 ob) (ob_probes ob) pair)) (\<lambda>c.
     and_then (case c of Some m \<Rightarrow> stop_with ''error'' m skipped | None \<Rightarrow> give ()) (\<lambda>_.
     and_then (fix_ends ob pair) (\<lambda>guards.
     and_then (note_down [(''log_file'', PStr (posix_join (e_log_dir env)
         (''sync-'' @ safe_name name ''pair'' @ ''-'' @ ob_stamp ob @ ''.log'')))]) (\<lambda>_.
     and_then (report_state ''running'') (\<lambda>_.
     and_then (attempt (dict_or_empty (py_get (e_snapshot env) ''backup''))) (\<lambda>backup.
     and_then (if truthy (py_get backup ''collect_pre_post_stats'') then note_down (stats_before ob) else give ()) (\<lambda>_.
       give (name, guards, backup)))))))))))))"

section \<open>The guards of the run\<close>

definition quarantine_stop :: "pydict \<Rightarrow> 'a step" where
  "quarantine_stop finding =
     and_then (attempt (py_float (py_or (py_get finding ''file_drop_percent'') (PInt 0)))) (\<lambda>f.
     and_then (attempt (py_float (py_or (py_get finding ''size_drop_percent'') (PInt 0)))) (\<lambda>s.
       stop_with ''error''
         (''Unerwarteter Rueckgang der Quelle: Dateien '' @ one_decimal f @ '' %, Groesse '' @ one_decimal s @
          '' %. Destruktiver Lauf wurde quarantaenisiert.'')
         [(''skipped'', PBool True), (''quarantined'', PBool True), (''anomaly'', PDict finding)]))"

definition source_of :: "rclone_command \<Rightarrow> string" where
  "source_of k = k_cmd k ! (length (k_cmd k) - 2)"

definition ask_guard :: "worker_env \<Rightarrow> surroundings \<Rightarrow> pydict \<Rightarrow> pydict \<Rightarrow> rclone_command \<Rightarrow> pydict option step" where
  "ask_guard env ob pair backup k w =
     (case preflight_anomaly_guard (e_guard env) pair backup (source_of k) (ob_size_guard ob) (ob_guard_now ob)
         (wk_store w) (ob_store_guard ob (wk_store w)) of
        Inl e \<Rightarrow> (Inl (Raise e), w)
      | Inr (store, finding) \<Rightarrow>
          (if truthy (py_get finding ''blocked'') then quarantine_stop finding else give (Some finding))
            (w\<lparr>wk_store := store\<rparr>))"

text \<open>The finding of the anomaly guard; a dry run is not checked.\<close>

definition check_anomaly :: "worker_env \<Rightarrow> surroundings \<Rightarrow> pydict \<Rightarrow> pydict \<Rightarrow> rclone_command \<Rightarrow> pydict option step" where
  "check_anomaly env ob pair backup k =
     (if e_dry_run env then give None
      else and_then (attempt (filter_args (e_command env) (e_snapshot env) pair ''sync'')) (\<lambda>_. ask_guard env ob pair backup k))"

section \<open>The run\<close>

definition resync_wanted :: "pydict \<Rightarrow> pydict \<Rightarrow> bool" where
  "resync_wanted pair backup \<longleftrightarrow> truthy (py_get_default pair ''auto_resync'' (py_get_default backup ''auto_resync'' (PBool False)))"

definition ask_first_run :: "worker_env \<Rightarrow> pydict \<Rightarrow> pydict \<Rightarrow> string \<Rightarrow> bool step" where
  "ask_first_run env pair backup name w =
     (case first_run_resync_allowed (base_env (e_guard env)) pair backup name (wk_jobs w) of
        (allowed, db) \<Rightarrow> (Inr allowed, w\<lparr>wk_jobs := db\<rparr>))"

definition start_resync ::
  "worker_env \<Rightarrow> surroundings \<Rightarrow> pydict \<Rightarrow> pydict \<Rightarrow> (string \<times> endpoint_guard) list \<Rightarrow> rclone_command \<Rightarrow> bool \<Rightarrow> (int \<times> string) step" where
  "start_resync env ob pair backup guards k first =
     and_then (attempt (resync_command pair backup (k_cmd k))) (\<lambda>cmd.
     and_then (note_down [(''resync'', PStr (if first then ''first_run'' else ''auto''))]) (\<lambda>_.
     and_then (run_guarded env pair guards (ob_fs3 ob) (ob_resync ob) cmd) (\<lambda>rc.
     and_then (note_down [(''resync_return_code'', PInt rc)]) (\<lambda>_.
       give (rc, ob_logged_resync ob)))))"

definition may_ask :: "worker_env \<Rightarrow> pydict \<Rightarrow> pydict \<Rightarrow> string \<Rightarrow> bool \<Rightarrow> bool step" where
  "may_ask env pair backup name needed =
     (if needed \<and> \<not> resync_wanted pair backup then ask_first_run env pair backup name else give False)"

definition leave_resync :: "bool \<Rightarrow> unit step" where
  "leave_resync needed = (if needed then note_down [(''resync_required'', PBool True)] else give ())"

text \<open>The return code and the log that count, after a resync where one is run.\<close>

definition run_once_or_resync ::
  "worker_env \<Rightarrow> surroundings \<Rightarrow> pydict \<Rightarrow> pydict \<Rightarrow> string \<Rightarrow> (string \<times> endpoint_guard) list \<Rightarrow> rclone_command \<Rightarrow> (int \<times> string) step" where
  "run_once_or_resync env ob pair backup name guards k =
     and_then (run_guarded env pair guards (ob_fs2 ob) (ob_run ob) (k_cmd k)) (\<lambda>rc.
     let needed = needs_resync (k_verb k) rc (ob_logged ob) in
     and_then (may_ask env pair backup name needed) (\<lambda>first.
       if needed \<and> (resync_wanted pair backup \<or> first) \<and> \<not> ob_cancelled_resync ob
       then start_resync env ob pair backup guards k first
       else and_then (leave_resync needed) (\<lambda>_. give (rc, ob_logged ob))))"

section \<open>After the run\<close>

definition remember_baseline :: "worker_env \<Rightarrow> surroundings \<Rightarrow> pydict \<Rightarrow> pydict option \<Rightarrow> unit step" where
  "remember_baseline env ob pair found w =
     (case found of
        None \<Rightarrow> (Inr (), w)
      | Some finding \<Rightarrow>
          (case record_anomaly_baseline (e_guard env) pair (as_dict (py_get finding ''measurement'')) (ob_baseline_now ob)
              (ob_store_end ob (wk_store w)) of
             Inl e \<Rightarrow> (Inl (Raise e), w)
           | Inr store \<Rightarrow> (Inr (), w\<lparr>wk_store := store\<rparr>)))"

definition snapshot_notes :: "worker_env \<Rightarrow> surroundings \<Rightarrow> pydict" where
  "snapshot_notes env ob =
     (case ob_snapshot ob of
        Inr v \<Rightarrow> [(''recovery_snapshot'', v)]
      | Inl e \<Rightarrow>
          [(''recovery_snapshot'', PDict [(''status'', PStr ''error''), (''error'', PStr (env_message (base_env (e_guard env)) e))]),
           (''warning'', PStr ''Recovery-Stand konnte nicht erstellt werden'')])"

definition failure_text :: "pydict \<Rightarrow> bool \<Rightarrow> int \<Rightarrow> string" where
  "failure_text summary cancelled rc =
     (if cancelled then ''Abgebrochen''
      else if truthy (py_get summary ''resync_required'') then ''rclone verlangt einen geprueften --resync-Lauf''
      else ''rclone exit '' @ show_int rc)"

definition note_failure :: "bool \<Rightarrow> bool \<Rightarrow> int \<Rightarrow> unit step" where
  "note_failure ok cancelled rc w =
     (if ok then (Inr (), w) else note_down [(''error'', PStr (failure_text (wk_summary w) cancelled rc))] w)"

definition note_stats_after :: "surroundings \<Rightarrow> pydict \<Rightarrow> string \<Rightarrow> unit step" where
  "note_stats_after ob backup direction w =
     (if \<not> truthy (py_get backup ''collect_pre_post_stats'') then (Inr (), w)
      else case pair_stats (ob_size_after ob) of (n, sz) \<Rightarrow>
        note_down ([(''local_files_after'', PInt n), (''local_size_after'', PStr sz)] @
          (if truthy (py_get (wk_summary w) ''cloud_files'') \<and> n \<noteq> 0 \<and> direction = ''bisync'' \<and>
              py_get (wk_summary w) ''cloud_files'' \<noteq> PInt n
           then [(''warning'', PStr ''Cloud/Lokal-Dateianzahl unterschiedlich'')] else [])) w)"

definition close_worker ::
  "worker_env \<Rightarrow> surroundings \<Rightarrow> pydict \<Rightarrow> pydict \<Rightarrow> string \<Rightarrow> pydict option \<Rightarrow> int \<Rightarrow> string \<Rightarrow> unit step" where
  "close_worker env ob pair backup direction found rc logged =
     and_then (note_down [(''return_code'', PInt rc)]) (\<lambda>_.
     and_then (attempt (parse_final_stats logged)) (\<lambda>stats.
     let cancelled = (ob_cancelled_end ob \<or> rc = 130); ok = (rc = 0 \<and> \<not> cancelled) in
     and_then (note_down (stats @ [(''cancelled'', PBool cancelled), (''ok'', PBool ok)])) (\<lambda>_.
     and_then (if ok then remember_baseline env ob pair found else give ()) (\<lambda>_.
     and_then (if ok \<and> \<not> e_dry_run env \<and> \<not> ob_cancelled_snapshot ob \<and> truthy (py_get pair ''recovery_snapshots'')
               then note_down (snapshot_notes env ob) else give ()) (\<lambda>_.
     and_then (note_failure ok cancelled rc) (\<lambda>_.
     and_then (note_stats_after ob backup direction) (\<lambda>_.
       report_state (if ok then ''done'' else if cancelled then ''cancelled'' else ''error''))))))))"

text \<open>The body of the \<open>try\<close>.\<close>

definition try_worker :: "worker_env \<Rightarrow> surroundings \<Rightarrow> pydict \<Rightarrow> string \<Rightarrow> (string \<times> endpoint_guard) list \<Rightarrow> pydict \<Rightarrow> unit step" where
  "try_worker env ob pair name guards backup =
     and_then (attempt (build_pair_command (e_command env) (e_snapshot env) pair (e_args env) (e_dry_run env))) (\<lambda>k.
     and_then (note_down [(''verb'', PStr (k_verb k)), (''direction'', PStr (k_direction k)), (''mode'', PStr (k_mode k)),
         (''command'', PStr (command_to_string (k_cmd k)))]) (\<lambda>_.
     and_then (check_anomaly env ob pair backup k) (\<lambda>found.
     and_then (if ob_cancelled ob then stop_with ''cancelled'' ''Vor Start abgebrochen'' [(''cancelled'', PBool True)] else give ()) (\<lambda>_.
     and_then (run_once_or_resync env ob pair backup name guards k) (\<lambda>(rc, logged).
       close_worker env ob pair backup (k_direction k) found rc logged)))))"

definition hours :: "int \<Rightarrow> string" where
  "hours seconds = float_repr (round_digits 1 (real_of_int seconds / 3600)) @ ''h''"

text \<open>The handlers of the \<open>try\<close>.\<close>

definition caught :: "worker_env \<Rightarrow> leave \<Rightarrow> unit step" where
  "caught env l =
     (case l of
        Watchdog_Limit \<Rightarrow> stop_with ''error''
          (''Maximale Laufzeit von '' @ hours (case e_max_runtime env of None \<Rightarrow> 0 | Some s \<Rightarrow> s) @ '' ueberschritten'') []
      | Watchdog_Stall \<Rightarrow> stop_with ''error'' (''Kein rclone-Fortschritt seit '' @ hours (e_timeout env)) []
      | Raise e \<Rightarrow> stop_with ''error'' (env_message (base_env (e_guard env)) e) []
      | other \<Rightarrow> leave_by other)"

definition guarded_body :: "worker_env \<Rightarrow> unit step \<Rightarrow> unit step" where
  "guarded_body env m w = (case m w of (Inl l, w') \<Rightarrow> caught env l w' | (Inr u, w') \<Rightarrow> (Inr u, w'))"

definition worker_body :: "worker_env \<Rightarrow> surroundings \<Rightarrow> pydict \<Rightarrow> unit step" where
  "worker_body env ob pair =
     and_then (open_worker env ob pair) (\<lambda>(name, guards, backup).
       guarded_body env (try_worker env ob pair name guards backup))"

text \<open>The answer of the worker: an exception, the summary, or nothing yet.\<close>

definition worker_answer :: "(leave + unit) \<times> worker \<Rightarrow> pydict option result" where
  "worker_answer r =
     (case fst r of
        Inr _ \<Rightarrow> Inr (Some (wk_summary (snd r)))
      | Inl Return_Now \<Rightarrow> Inr (Some (wk_summary (snd r)))
      | Inl (Raise e) \<Rightarrow> Inl e
      | Inl _ \<Rightarrow> Inr None)"

definition new_worker :: "runtime_db \<Rightarrow> jobs_db \<Rightarrow> worker" where
  "new_worker store db = \<lparr>wk_summary = [], wk_states = [], wk_started = [], wk_store = store, wk_jobs = db\<rparr>"

definition sync_pair :: "worker_env \<Rightarrow> surroundings \<Rightarrow> pydict \<Rightarrow> runtime_db \<Rightarrow> jobs_db \<Rightarrow> pydict option result \<times> worker" where
  "sync_pair env ob pair store db =
     (let r = worker_body env ob pair (new_worker store db) in (worker_answer r, snd r))"

end
