(* ===== verification/Quick_Run.thy ===== *)
theory Quick_Run
  imports Pair_Worker
begin

text \<open>
  The other runs of \<open>jobs/rclone_sync.py\<close>: \<open>run_quick\<close>, a run between two ends that are given with the request, and
  \<open>run_pair_check\<close>, the comparison of the ends of a configured path, both with the snapshot of the configuration the
  routes hand them; and \<open>build_job_plan\<close>, which shows the commands of a run without starting one. The steps are those of
  \<open>_sync_pair\<close>. \<open>u_real\<close> is \<open>Path(..).expanduser().resolve()\<close> as the components below the root.
\<close>

record quick_env =
  y_command :: command_env
  y_guard :: guard_env
  y_snapshot :: pydict

record run_world =
  u_real :: "string \<Rightarrow> string list result"
  u_fs0 :: fs
  u_probes :: remote_probes
  u_made :: "pyerr option"
  u_fs1 :: fs
  u_log_dir :: "pyerr option"
  u_stamp :: string
  u_store_start :: "runtime_db \<Rightarrow> runtime_db"
  u_fs2 :: fs
  u_run :: start_obs
  u_logged :: string
  u_cancelled :: bool
  u_cancelled_ok :: bool

text \<open>The answer of a request that is turned down.\<close>

definition turn_down :: "pydict \<Rightarrow> 'a step" where
  "turn_down d = and_then (note_down d) (\<lambda>_. leave_by Return_Now)"

definition no_run :: "string \<Rightarrow> pydict" where
  "no_run msg = [(''ok'', PBool False), (''skipped'', PBool True), (''error'', PStr msg)]"

definition go_on :: "pydict option \<Rightarrow> unit step" where
  "go_on refused = (case refused of None \<Rightarrow> give () | Some d \<Rightarrow> turn_down d)"

text \<open>A refusal where the code catches \<open>OSError\<close>, \<open>RuntimeError\<close> and \<open>ValueError\<close>.\<close>

definition catch_refusal :: "'a result \<Rightarrow> (pyerr \<Rightarrow> pydict) \<Rightarrow> 'a step" where
  "catch_refusal r answer =
     (case r of Inr x \<Rightarrow> give x | Inl e \<Rightarrow> if refuses_path e then turn_down (answer e) else leave_by (Raise e))"

text \<open>\<open>int(float(..) * 3600)\<close>.\<close>

definition whole_seconds :: "nonfin + real \<Rightarrow> int result" where
  "whole_seconds h = (case h of Inl n \<Rightarrow> py_int (PNonFin n) | Inr r \<Rightarrow> Inr (trunc_real (r * 3600)))"

definition stall_seconds :: "pydict \<Rightarrow> int result" where
  "stall_seconds backup =
     bind_result (py_float_any (py_or (py_get_default backup ''timeout_hours'' (PInt 4)) (PInt 4))) (\<lambda>h.
     bind_result (whole_seconds h) (\<lambda>s. Inr (max 300 s)))"

definition positive :: "nonfin + real \<Rightarrow> bool" where
  "positive h = (case h of Inl n \<Rightarrow> n = PosInf | Inr r \<Rightarrow> 0 < r)"

definition limit_seconds :: "pydict \<Rightarrow> int option result" where
  "limit_seconds backup =
     bind_result (py_float_any (py_or (py_get_default backup ''max_runtime_hours'' (PInt 0)) (PInt 0))) (\<lambda>h.
       if positive h then bind_result (whole_seconds h) (\<lambda>s. Inr (Some (max 1 s))) else Inr None)"

definition logs_dir :: "pydict \<Rightarrow> string result" where
  "logs_dir cfg =
     (case snapshot_get (PDict cfg) [''paths'', ''logs_dir''] (PStr ''/opt/rclone-sync/logs'') of
        PStr p \<Rightarrow> Inr (posix_join p ''rclone'') | _ \<Rightarrow> Inl TypeError)"

text \<open>The log file; its directory is created first.\<close>

definition open_log :: "run_world \<Rightarrow> pydict \<Rightarrow> string \<Rightarrow> string step" where
  "open_log u cfg name =
     and_then (attempt (logs_dir cfg)) (\<lambda>dir.
     and_then (case u_log_dir u of None \<Rightarrow> give () | Some e \<Rightarrow> leave_by (Raise e)) (\<lambda>_.
       give (posix_join dir (name @ ''-'' @ u_stamp u @ ''.log''))))"

definition passed :: "run_world \<Rightarrow> int \<Rightarrow> bool" where
  "passed u rc \<longleftrightarrow> rc = 0 \<and> \<not> u_cancelled_ok u"

section \<open>Quick runs\<close>

record quick_request =
  y_remote :: string
  y_local :: string
  y_direction :: string
  y_mode :: string
  y_dry_run :: bool
  y_extra :: pyval
  y_allow_delete :: bool
  y_max_delete :: pyval
  y_min_files :: pyval

definition quick_min_files :: "pyval \<Rightarrow> int result" where
  "quick_min_files v =
     (case py_int v of
        Inr n \<Rightarrow> Inr (max 0 n)
      | Inl (ValueError _) \<Rightarrow> Inr 1
      | Inl TypeError \<Rightarrow> Inr 1
      | Inl e \<Rightarrow> Inl e)"

definition quick_pair :: "quick_request \<Rightarrow> int \<Rightarrow> pydict" where
  "quick_pair q n =
     [(''name'', PStr ''quick''), (''remote'', PStr (y_remote q)), (''local'', PStr (y_local q)),
      (''direction'', PStr (y_direction q)), (''mode'', PStr (y_mode q)), (''min_local_files'', PInt n),
      (''allow_delete'', PBool (y_allow_delete q)), (''max_delete'', y_max_delete q)]"

definition current_quarantine ::
  "quick_env \<Rightarrow> bool \<Rightarrow> pyval \<Rightarrow> pydict \<Rightarrow> runtime_db \<Rightarrow> pydict option result" where
  "current_quarantine env dry backup pair store =
     (if dry \<or> \<not> is_destructive pair then Inr None
      else bind_result (as_mapping backup) (\<lambda>b. bind_result (iter_or_empty (py_get b ''pairs'')) (\<lambda>ps.
        Inr (active_quarantine (y_guard env) store pair (mappings ps)))))"

definition default_roots :: pyval where
  "default_roots = PList (map PStr [''/mnt'', ''/media'', ''/srv'', ''/opt/rclone-sync/data''])"

definition browse_roots :: "run_world \<Rightarrow> pydict \<Rightarrow> string list list result" where
  "browse_roots u cfg =
     bind_result (iter_or_empty (snapshot_get (PDict cfg) [''web'', ''local_browse_roots''] default_roots)) (\<lambda>vs.
       collect (u_real u) (filter (\<lambda>s. py_strip s \<noteq> []) (map py_str vs)))"

definition path_text :: "string list \<Rightarrow> string" where
  "path_text cs = ''/'' @ py_join ''/'' cs"

text \<open>The local ends are replaced by what they resolve to, and have to lie below one of the roots.\<close>

fun place_ends :: "(string \<Rightarrow> string list result) \<Rightarrow> string list list \<Rightarrow> (string \<times> string) list \<Rightarrow> pydict \<Rightarrow> pydict result" where
  "place_ends resolve roots [] pair = Inr pair"
| "place_ends resolve roots (kp # kps) pair =
     bind_result (resolve (snd kp)) (\<lambda>r.
       if roots \<noteq> [] \<and> \<not> list_ex (inside r) roots then Inl (ValueError ''ausserhalb erlaubter Wurzeln'')
       else place_ends resolve roots kps (py_set pair (fst kp) (PStr (path_text r))))"

definition ends_of :: "string \<Rightarrow> string \<Rightarrow> pydict" where
  "ends_of remote local = [(''remote'', PStr remote), (''local'', PStr local)]"

definition pair_ends :: "pydict \<Rightarrow> pydict" where
  "pair_ends pair = ends_of (py_str (py_get pair ''remote'')) (py_str (py_get pair ''local''))"

definition held_answer :: "pydict \<Rightarrow> pydict \<Rightarrow> pydict" where
  "held_answer view pair =
     no_run ''Datenweg ist quarantaenisiert und muss ausdruecklich freigegeben werden.'' @
     [(''quarantined'', PBool True), (''anomaly'', PDict view)] @ pair_ends pair"

definition quick_guards :: "run_world \<Rightarrow> pydict \<Rightarrow> (string \<times> endpoint_guard) list result" where
  "quick_guards u pair =
     bind_result (new_destinations (u_fs0 u) pair) (\<lambda>ds.
       case (if ds = [] then None else u_made u) of
         Some e \<Rightarrow> Inl e
       | None \<Rightarrow> capture_endpoint_guards (u_fs1 u) pair)"

definition unfixed :: string where
  "unfixed = ''Lokale Pfadidentitaet konnte nicht fixiert werden''"

definition quick_args :: "pyval \<Rightarrow> pyval \<Rightarrow> string list result" where
  "quick_args backup extra =
     bind_result (as_mapping backup) (\<lambda>b.
     let unsafe = truthy (py_get b ''allow_unsafe_rclone_args'') in
     bind_result (validate_rclone_args (py_get_default b ''rclone_args'' (PList [])) unsafe) (\<lambda>base.
       if truthy extra then bind_result (validate_rclone_args extra unsafe) (\<lambda>own. Inr (base @ own)) else Inr base))"

definition backup_value :: "pydict \<Rightarrow> pyval" where
  "backup_value cfg = py_or (snapshot_get (PDict cfg) [''backup''] (PDict [])) (PDict [])"

text \<open>Everything in front of the \<open>try\<close>: the resolved pair, its guards and the arguments.\<close>

definition open_quick ::
  "quick_env \<Rightarrow> run_world \<Rightarrow> quick_request \<Rightarrow> runtime_db \<Rightarrow> (pydict \<times> (string \<times> endpoint_guard) list \<times> string list) step" where
  "open_quick env u q store =
     (let cfg = y_snapshot env; backup = backup_value cfg in
     and_then (attempt (quick_min_files (y_min_files q))) (\<lambda>n.
     and_then (attempt (browse_roots u cfg)) (\<lambda>roots.
     and_then (catch_refusal (place_ends (u_real u) roots (local_endpoint_fields (quick_pair q n)) (quick_pair q n))
         (\<lambda>e. no_run (env_message (base_env (y_guard env)) e) @ ends_of (y_remote q) (y_local q))) (\<lambda>pair.
     and_then (attempt (current_quarantine env (y_dry_run q) backup pair store)) (\<lambda>held.
     and_then (go_on (map_option (\<lambda>view. held_answer view pair) held)) (\<lambda>_.
     and_then (attempt (precheck_pair (u_fs0 u) (u_probes u) pair)) (\<lambda>c.
     and_then (go_on (map_option (\<lambda>m. no_run m @ pair_ends pair) c)) (\<lambda>_.
     and_then (catch_refusal (quick_guards u pair) (\<lambda>e. no_run unfixed @ pair_ends pair)) (\<lambda>guards.
     and_then (open_log u cfg (''quick-'' @ safe_name (py_str (py_get pair ''remote'') @ ''-'' @ py_str (py_get pair ''local'')) ''quick'')) (\<lambda>logf.
     and_then (attempt (quick_args backup (y_extra q))) (\<lambda>args.
     and_then (note_down ([(''direction'', PStr (y_direction q)), (''mode'', PStr (y_mode q))] @ pair_ends pair @
         [(''dry_run'', PBool (y_dry_run q)), (''log_file'', PStr logf)])) (\<lambda>_.
       give (pair, guards, args)))))))))))))"

text \<open>\<open>pre_spawn_check\<close>: its answer, and what it notes in the summary.\<close>

definition start_check ::
  "quick_env \<Rightarrow> run_world \<Rightarrow> bool \<Rightarrow> pydict \<Rightarrow> (string \<times> endpoint_guard) list \<Rightarrow> runtime_db \<Rightarrow> string option result \<times> pydict" where
  "start_check env u dry pair guards store =
     (case current_quarantine env dry (backup_value (y_snapshot env)) pair store of
        Inl e \<Rightarrow> (Inl e, [])
      | Inr (Some view) \<Rightarrow> (Inr (Some ''Datenweg wurde vor dem Prozessstart quarantaenisiert''),
                            [(''quarantined'', PBool True), (''anomaly'', PDict view)])
      | Inr None \<Rightarrow> (recheck_endpoint_guards (u_fs2 u) pair guards, []))"

definition run_behind :: "watch_limits \<Rightarrow> start_obs \<Rightarrow> string option result \<times> pydict \<Rightarrow> string list \<Rightarrow> int step" where
  "run_behind l b check cmd =
     and_then (if b_open b = None \<and> \<not> b_cancelled b then note_down (snd check) else give ()) (\<lambda>_.
       run_checked l (b\<lparr>b_check := fst check\<rparr>) cmd)"

definition quick_limits :: "pydict \<Rightarrow> watch_limits result" where
  "quick_limits backup =
     bind_result (stall_seconds backup) (\<lambda>t. bind_result (limit_seconds backup) (\<lambda>m.
       Inr \<lparr>l_timeout = real_of_int t, l_max = map_option real_of_int m\<rparr>))"

definition quick_failure :: "run_world \<Rightarrow> bool \<Rightarrow> int \<Rightarrow> string" where
  "quick_failure u needed rc =
     (if u_cancelled u then ''Abgebrochen'' else if needed then ''rclone verlangt --resync'' else ''rclone exit '' @ show_int rc)"

definition close_quick :: "run_world \<Rightarrow> rclone_command \<Rightarrow> int \<Rightarrow> unit step" where
  "close_quick u k rc =
     (let needed = needs_resync (k_verb k) rc (u_logged u) in
     and_then (leave_resync needed) (\<lambda>_.
     and_then (note_down [(''return_code'', PInt rc), (''cancelled'', PBool (u_cancelled u)), (''ok'', PBool (passed u rc))]) (\<lambda>_.
     and_then (attempt (parse_final_stats (u_logged u))) (\<lambda>stats.
     and_then (note_down stats) (\<lambda>_.
       if passed u rc then give () else note_down [(''error'', PStr (quick_failure u needed rc))])))))"

text \<open>The body of the \<open>try\<close> and its handlers.\<close>

definition try_quick ::
  "quick_env \<Rightarrow> run_world \<Rightarrow> quick_request \<Rightarrow> runtime_db \<Rightarrow> pydict \<times> (string \<times> endpoint_guard) list \<times> string list \<Rightarrow> unit step" where
  "try_quick env u q store opened =
     (case opened of (pair, guards, args) \<Rightarrow>
     and_then (attempt (build_pair_command (y_command env) (y_snapshot env) pair args (y_dry_run q))) (\<lambda>k.
     and_then (note_down [(''command'', PStr (command_to_string (k_cmd k))), (''verb'', PStr (k_verb k)),
         (''direction'', PStr (k_direction k)), (''mode'', PStr (k_mode k))]) (\<lambda>_.
     and_then (attempt (bind_result (as_mapping (backup_value (y_snapshot env))) quick_limits)) (\<lambda>l.
     and_then (run_behind l (u_run u) (start_check env u (y_dry_run q) pair guards (u_store_start u store)) (k_cmd k)) (\<lambda>rc.
       close_quick u k rc)))))"

definition failed_with :: "string \<Rightarrow> unit step" where
  "failed_with msg = note_down [(''ok'', PBool False), (''error'', PStr msg)]"

definition quick_caught :: "quick_env \<Rightarrow> leave \<Rightarrow> unit step" where
  "quick_caught env l =
     (case l of
        Watchdog_Limit \<Rightarrow> failed_with ''Maximale Laufzeit ueberschritten''
      | Watchdog_Stall \<Rightarrow> failed_with ''Kein rclone-Fortschritt innerhalb des Zeitlimits''
      | Raise e \<Rightarrow> failed_with (env_message (base_env (y_guard env)) e)
      | other \<Rightarrow> leave_by other)"

definition caught_by :: "(leave \<Rightarrow> unit step) \<Rightarrow> unit step \<Rightarrow> unit step" where
  "caught_by handler m w = (case m w of (Inl l, w') \<Rightarrow> handler l w' | (Inr u, w') \<Rightarrow> (Inr u, w'))"

definition run_quick ::
  "quick_env \<Rightarrow> run_world \<Rightarrow> quick_request \<Rightarrow> runtime_db \<Rightarrow> jobs_db \<Rightarrow> pydict option result \<times> worker" where
  "run_quick env u q store db =
     (let r = and_then (open_quick env u q store) (\<lambda>x. caught_by (quick_caught env) (try_quick env u q store x)) (new_worker store db)
      in (worker_answer r, snd r))"

section \<open>Comparing the ends of a path\<close>

definition check_ends :: "pydict \<Rightarrow> pyval \<times> pyval" where
  "check_ends pair =
     (if word_at pair ''direction'' ''bisync'' = ''push'' then (py_get pair ''local'', py_get pair ''remote'')
      else (py_get pair ''remote'', py_get pair ''local''))"

definition compares_one_way :: "pydict \<Rightarrow> bool option \<Rightarrow> bool" where
  "compares_one_way pair one_way =
     (case one_way of Some b \<Rightarrow> b | None \<Rightarrow> word_at pair ''direction'' ''bisync'' \<in> {''pull'', ''push''})"

definition check_bwlimit :: "pydict \<Rightarrow> string result" where
  "check_bwlimit backup =
     (if truthy (py_get backup ''bwlimit'') then Inr (py_strip (py_str (py_get backup ''bwlimit'')))
      else bind_result (dict_or_empty (py_get backup ''tuning'')) (\<lambda>tuning. Inr (text_of (py_get tuning ''bwlimit''))))"

definition check_command ::
  "command_env \<Rightarrow> pydict \<Rightarrow> pydict \<Rightarrow> pydict \<Rightarrow> bool \<Rightarrow> bool \<Rightarrow> string list result" where
  "check_command env cfg backup pair one_way download =
     bind_result (filter_args env cfg pair ''check'') (\<lambda>filters.
     bind_result (validate_rclone_args (py_get backup ''check_args'') (truthy (py_get backup ''allow_unsafe_rclone_args''))) (\<lambda>own.
     bind_result (protected_filter_args env (filters @ own)) (\<lambda>args.
     bind_result (check_bwlimit backup) (\<lambda>bw.
       Inr ([''rclone'', ''check''] @ cache_args env ''check'' @ [''--stats'', ''10s'', ''--stats-one-line''] @ args @
         (if bw \<noteq> [] then [''--bwlimit'', bw] else []) @ (if one_way then [''--one-way''] else []) @
         (if download then [''--download''] else []) @
         [''--'', py_str (fst (check_ends pair)), py_str (snd (check_ends pair))])))))"

definition named_path :: "pydict \<Rightarrow> string \<Rightarrow> pydict option result" where
  "named_path backup name =
     bind_result (iter_or_empty (py_get backup ''pairs'')) (\<lambda>vs. bind_result (collect as_mapping vs) (\<lambda>ps.
       Inr (find (\<lambda>p. py_get p ''name'' = PStr name) ps)))"

definition find_path :: "pydict \<Rightarrow> string \<Rightarrow> pydict step" where
  "find_path backup name =
     and_then (attempt (named_path backup name)) (\<lambda>p.
       case p of Some pair \<Rightarrow> give pair
       | None \<Rightarrow> turn_down [(''ok'', PBool False), (''error'', PStr (''Pair nicht gefunden: '' @ name))])"

definition open_check ::
  "quick_env \<Rightarrow> run_world \<Rightarrow> string \<Rightarrow> bool option \<Rightarrow> bool \<Rightarrow>
     (pydict \<times> (string \<times> endpoint_guard) list \<times> string list \<times> int) step" where
  "open_check env u name one_way download =
     (let cfg = y_snapshot env in
     and_then (attempt (as_mapping (backup_value cfg))) (\<lambda>backup.
     and_then (find_path backup name) (\<lambda>pair.
     and_then (attempt (precheck_pair (u_fs0 u) (u_probes u) pair)) (\<lambda>c.
     and_then (go_on (map_option (\<lambda>m. no_run m @ [(''pair'', PStr name)]) c)) (\<lambda>_.
     and_then (catch_refusal (capture_endpoint_guards (u_fs1 u) pair) (\<lambda>e. no_run unfixed @ [(''pair'', PStr name)])) (\<lambda>guards.
     and_then (open_log u cfg (''check-'' @ safe_name name ''pair'')) (\<lambda>logf.
     let one = compares_one_way pair one_way in
     and_then (attempt (check_command (y_command env) cfg backup pair one download)) (\<lambda>cmd.
     and_then (attempt (stall_seconds backup)) (\<lambda>t.
     and_then (note_down [(''pair'', PStr name), (''src'', fst (check_ends pair)), (''dst'', snd (check_ends pair)),
         (''one_way'', PBool one), (''download'', PBool download), (''log_file'', PStr logf),
         (''command'', PStr (command_to_string cmd))]) (\<lambda>_.
       give (pair, guards, cmd, t)))))))))))"

definition close_check :: "run_world \<Rightarrow> int \<Rightarrow> unit step" where
  "close_check u rc =
     and_then (note_down [(''return_code'', PInt rc), (''ok'', PBool (passed u rc)), (''cancelled'', PBool (u_cancelled u))]) (\<lambda>_.
     and_then (attempt (parse_final_stats (u_logged u))) (\<lambda>stats.
     and_then (note_down stats) (\<lambda>_.
       if passed u rc then give ()
       else note_down [(''error'', PStr (if u_cancelled u then ''Abgebrochen'' else ''rclone check exit '' @ show_int rc))])))"

definition check_caught :: "quick_env \<Rightarrow> int \<Rightarrow> leave \<Rightarrow> unit step" where
  "check_caught env t l =
     (case l of
        Watchdog_Limit \<Rightarrow> failed_with (''Kein rclone-Fortschritt seit '' @ hours t)
      | Watchdog_Stall \<Rightarrow> failed_with (''Kein rclone-Fortschritt seit '' @ hours t)
      | Raise e \<Rightarrow> failed_with (env_message (base_env (y_guard env)) e)
      | other \<Rightarrow> leave_by other)"

definition try_check :: "run_world \<Rightarrow> pydict \<Rightarrow> (string \<times> endpoint_guard) list \<Rightarrow> string list \<Rightarrow> int \<Rightarrow> unit step" where
  "try_check u pair guards cmd t =
     and_then (run_checked \<lparr>l_timeout = real_of_int t, l_max = None\<rparr>
         ((u_run u)\<lparr>b_check := recheck_endpoint_guards (u_fs2 u) pair guards\<rparr>) cmd) (close_check u)"

definition run_pair_check ::
  "quick_env \<Rightarrow> run_world \<Rightarrow> string \<Rightarrow> bool option \<Rightarrow> bool \<Rightarrow> runtime_db \<Rightarrow> jobs_db \<Rightarrow> pydict option result \<times> worker" where
  "run_pair_check env u name one_way download store db =
     (let r = and_then (open_check env u name one_way download) (\<lambda>(pair, guards, cmd, t).
          caught_by (check_caught env t) (try_check u pair guards cmd t)) (new_worker store db)
      in (worker_answer r, snd r))"

section \<open>The plan of a run\<close>

definition zero_files :: "pyval \<Rightarrow> bool" where
  "zero_files v \<longleftrightarrow> v \<in> {PInt 0, PFloat 0, PBool False, PStr ''0''}"

definition plan_may_delete :: "pydict \<Rightarrow> bool" where
  "plan_may_delete pair \<longleftrightarrow>
     (let direction = word_at pair ''direction'' ''bisync'' in
      direction = ''bisync'' \<or> direction \<in> {''pull'', ''push''} \<and> word_at pair ''mode'' ''bisync'' = ''sync'')"

definition pair_warnings :: "pydict \<Rightarrow> bool \<Rightarrow> string list" where
  "pair_warnings pair dry =
     (let name = str_or (py_get pair ''name'') ''?''; direction = word_at pair ''direction'' ''bisync'';
          mode = word_at pair ''mode'' ''bisync'';
          warn = (\<lambda>c msg. if c then [name @ msg] else []) in
      (if plan_may_delete pair \<and> \<not> dry
       then [name @ '': '' @ mode @ '' kann Dateien loeschen. Erst Dry-Run pruefen.''] @
         warn (\<not> truthy (py_get pair ''allow_delete'')) ('': produktiver '' @ mode @ '' ist ohne allow_delete gesperrt.'') @
         warn (unlimited (py_get pair ''max_delete'')) '': kein begrenztes max_delete am Pair gesetzt.''
       else []) @
      warn (direction \<in> {''bisync'', ''push''} \<and> zero_files (py_get_default pair ''min_local_files'' (PInt 1)))
        '': min_local_files=0 deaktiviert den lokalen Mount-/Quellschutz.'' @
      warn (truthy (py_get pair ''exclude'') \<and> truthy (py_get pair ''include''))
        '': include und exclude kombiniert, Filterreihenfolge pruefen.'' @
      warn (truthy (py_get pair ''require_mountpoint'') \<and> \<not> truthy (py_get pair ''mountpoint''))
        '': require_mountpoint prueft mangels mountpoint den lokalen Pair-Pfad selbst.'' @
      warn (\<not> truthy (py_get pair ''remote'') \<or> \<not> truthy (py_get pair ''local'')) '': remote/local unvollstaendig.'')"

text \<open>One path of the plan: its entry, and the warnings it adds.\<close>

definition planned_command :: "pydict \<Rightarrow> bool \<Rightarrow> rclone_command \<Rightarrow> pydict" where
  "planned_command pair dry k =
     [(''name'', py_get pair ''name''), (''enabled'', py_get_default pair ''enabled'' (PBool True)), (''remote'', py_get pair ''remote''),
      (''local'', py_get pair ''local''), (''verb'', PStr (k_verb k)), (''direction'', PStr (k_direction k)), (''mode'', PStr (k_mode k)),
      (''dry_run'', PBool dry), (''command'', PStr (command_to_string (k_cmd k))),
      (''warnings'', PList (map PStr (pair_warnings pair dry)))]"

definition plan_path :: "sched_env \<Rightarrow> command_env \<Rightarrow> pydict \<Rightarrow> string list \<Rightarrow> bool \<Rightarrow> pydict \<Rightarrow> pydict \<times> string list" where
  "plan_path senv env live args dry pair =
     (case build_pair_command env live pair args dry of
        Inr k \<Rightarrow> (planned_command pair dry k, pair_warnings pair dry)
      | Inl e \<Rightarrow>
          ([(''name'', py_get pair ''name''), (''ok'', PBool False), (''error'', PStr (env_message senv e))],
           [py_str (py_get_default pair ''name'' (PStr ''?'')) @ '': Plan konnte nicht gebaut werden: '' @ env_message senv e]))"

text \<open>\<open>live\<close> is the configuration in force: the commands are built with it, also for the plan of a snapshot.\<close>

definition build_job_plan ::
  "sched_env \<Rightarrow> command_env \<Rightarrow> resolver \<Rightarrow> pydict \<Rightarrow> pydict option \<Rightarrow> bool \<Rightarrow> string list \<Rightarrow> pydict result" where
  "build_job_plan senv env resolve live snapshot dry chosen =
     (let cfg = (case snapshot of None \<Rightarrow> live | Some s \<Rightarrow> s) in
      bind_result (dict_or_empty (py_get cfg ''backup'')) (\<lambda>backup.
      bind_result (selected_pairs (py_get backup ''pairs'') chosen) (\<lambda>pairs.
      bind_result (validate_rclone_args (py_get backup ''rclone_args'') (truthy (py_get backup ''allow_unsafe_rclone_args''))) (\<lambda>args.
        let planned = map (plan_path senv env live args dry) pairs;
            overlap = (if has_overlapping_pairs resolve pairs
              then [''Ueberlappende Pair-Pfade: produktive Laeufe werden automatisch seriell ausgefuehrt.''] else [])
        in Inr [(''ok'', PBool (\<not> list_ex (\<lambda>p. truthy (py_get p ''error'')) (map fst planned))), (''dry_run'', PBool dry),
                (''total_pairs'', PInt (int (length planned))), (''pairs'', PList (map (PDict \<circ> fst) planned)),
                (''warnings'', PList (map PStr (dedup (overlap @ concat (map snd planned)))))]))))"

end
