(* ===== verification/Worker_Theorems.thy ===== *)
theory Worker_Theorems
  imports Pair_Worker
begin

text \<open>
  What a worker guarantees: rclone is started behind all guards only, a path in quarantine is not run, a path that has
  succeeded before is not resynced without permission, and success is reported for a process that ended with 0 only.
\<close>

section \<open>Steps\<close>

lemma and_then_Inr: "and_then m f w = (Inr y, w') \<longleftrightarrow> (\<exists>x w1. m w = (Inr x, w1) \<and> f x w1 = (Inr y, w'))"
proof -
  have "proceed r f = (Inr y, w') \<longleftrightarrow> (\<exists>x w1. r = (Inr x, w1) \<and> f x w1 = (Inr y, w'))" for r
    by (cases r; cases "fst r") auto
  then show ?thesis by (simp add: and_then_def)
qed

lemma attempt_Inr: "attempt r w = (Inr x, w') \<longleftrightarrow> r = Inr x \<and> w' = w"
  by (auto simp: attempt_def leave_by_def give_def split: sum.splits)

lemma give_Inr: "give x w = (Inr y, w') \<longleftrightarrow> y = x \<and> w' = w"
  by (auto simp: give_def)

lemma leave_by_Inr: "leave_by l w \<noteq> (Inr x, w')"
  by (simp add: leave_by_def)

lemma stop_with_Inr: "stop_with st msg extra w \<noteq> (Inr x, w')"
  by (auto simp: stop_with_def and_then_Inr leave_by_Inr)

lemma note_down_Inr: "note_down d w = (Inr u, w') \<longleftrightarrow> w' = w\<lparr>wk_summary := py_merge (wk_summary w) d\<rparr>"
  by (auto simp: note_down_def)

lemma report_state_Inr: "report_state st w = (Inr u, w') \<longleftrightarrow> w' = w\<lparr>wk_states := wk_states w @ [st]\<rparr>"
  by (auto simp: report_state_def)

lemmas step_Inr = and_then_Inr attempt_Inr give_Inr leave_by_Inr stop_with_Inr note_down_Inr report_state_Inr

section \<open>What the bookkeeping leaves alone\<close>

text \<open>A property of the worker that does not look at the reported states, and at the summary at most through its verdict
  \<open>ok\<close>, is kept by every step that writes down something else.\<close>

definition no_verdict :: "pydict \<Rightarrow> bool" where
  "no_verdict d \<longleftrightarrow> ''ok'' \<notin> fst ` set d"

locale bookkeeping =
  fixes I :: "worker \<Rightarrow> bool"
  assumes summary_free: "no_verdict d \<Longrightarrow> I (w\<lparr>wk_summary := py_merge (wk_summary w) d\<rparr>) = I w"
    and states_free: "I (w\<lparr>wk_states := ss\<rparr>) = I w"
begin

definition keeps :: "'a step \<Rightarrow> bool" where
  "keeps m \<longleftrightarrow> (\<forall>w. I w \<longrightarrow> I (snd (m w)))"

lemma keepsD: "keeps m \<Longrightarrow> I w \<Longrightarrow> I (snd (m w))"
  by (simp add: keeps_def)

lemma keeps_attempt [intro]: "keeps (attempt r)"
  by (auto simp: keeps_def attempt_def leave_by_def give_def split: sum.splits)

lemma keeps_give [intro]: "keeps (give x)"
  by (simp add: keeps_def give_def)

lemma keeps_leave [intro]: "keeps (leave_by l)"
  by (simp add: keeps_def leave_by_def)

lemma keeps_note [intro]: "no_verdict d \<Longrightarrow> keeps (note_down d)"
  by (simp add: keeps_def note_down_def summary_free)

lemma keeps_report [intro]: "keeps (report_state st)"
  by (simp add: keeps_def report_state_def states_free)

lemma keeps_from:
  assumes "keeps m" and "I w" and "\<And>x w1. m w = (Inr x, w1) \<Longrightarrow> I w1 \<Longrightarrow> I (snd (f x w1))"
  shows "I (snd (and_then m f w))"
proof -
  have kept: "I (snd (m w))" using assms(1,2) by (rule keepsD)
  show ?thesis
  proof (cases "fst (m w)")
    case (Inl l)
    then have "m w = (Inl l, snd (m w))" by (simp add: prod_eq_iff)
    then have "and_then m f w = (Inl l, snd (m w))" unfolding and_then_def by (metis proceed.simps(1))
    then show ?thesis using kept by simp
  next
    case (Inr x)
    then have eq: "m w = (Inr x, snd (m w))" by (simp add: prod_eq_iff)
    then have "and_then m f w = f x (snd (m w))" unfolding and_then_def by (metis proceed.simps(2))
    then show ?thesis using assms(3) [OF eq kept] by simp
  qed
qed

lemma keeps_then [intro]:
  assumes "keeps m" and "\<And>x. keeps (f x)"
  shows "keeps (and_then m f)"
  unfolding keeps_def using keeps_from [OF assms(1)] keepsD [OF assms(2)] by blast

lemma keeps_stop [intro]: "no_verdict extra \<Longrightarrow> keeps (stop_with st msg extra)"
  unfolding stop_with_def by (intro keeps_then keeps_note keeps_report keeps_leave) (simp add: no_verdict_def)

lemma keeps_quarantine [intro]: "keeps (quarantine_stop finding)"
  unfolding quarantine_stop_def by (intro keeps_then keeps_attempt keeps_stop) (simp add: no_verdict_def)

lemma keeps_fix_ends [intro]: "keeps (fix_ends ob pair)"
  unfolding fix_ends_def by (auto simp: no_verdict_def skipped_def split: sum.splits)

lemma keeps_note_failure [intro]: "keeps (note_failure ok cancelled rc)"
  by (simp add: keeps_def note_failure_def note_down_def summary_free no_verdict_def)

lemma keeps_note_stats [intro]: "keeps (note_stats_after ob backup direction)"
  by (auto simp: keeps_def note_stats_after_def note_down_def summary_free no_verdict_def split: prod.splits)

lemma keeps_caught [intro]: "keeps (caught env l)"
  unfolding caught_def by (auto simp: no_verdict_def split: leave.splits)

lemma guarded_keeps: "I (snd (m w)) \<Longrightarrow> I (snd (guarded_body env m w))"
  using keepsD [OF keeps_caught] by (auto simp: guarded_body_def split: prod.splits sum.splits)

end

text \<open>A property that does not look at the summary at all.\<close>

locale blind_bookkeeping = bookkeeping +
  assumes any_summary: "I (w\<lparr>wk_summary := d\<rparr>) = I w"
begin

lemma keeps_any_note [intro]: "keeps (note_down d)"
  by (simp add: keeps_def note_down_def any_summary)

lemma keeps_open [intro]: "keeps (open_worker env ob pair)"
  unfolding open_worker_def by (intro keeps_then) (auto simp: no_verdict_def skipped_def split: option.splits)

end

text \<open>The commands that were started, the two stores, and the verdict.\<close>

interpretation starts: blind_bookkeeping "\<lambda>w. \<forall>c \<in> set (wk_started w). P c" for P
  by unfold_locales simp_all

interpretation stores: blind_bookkeeping "\<lambda>w. wk_store w = st \<and> wk_jobs w = db \<and> wk_started w = cs" for st db cs
  by unfold_locales simp_all

lemma merge_get_absent: "k \<notin> fst ` set e \<Longrightarrow> py_get (py_merge d e) k = py_get d k"
  unfolding py_merge_def by (induction e arbitrary: d) auto

interpretation verdict: bookkeeping "\<lambda>w. truthy (py_get (wk_summary w) ''ok'') \<longrightarrow> Q" for Q
  by unfold_locales (simp_all add: merge_get_absent no_verdict_def)

section \<open>The start of rclone\<close>

lemma run_checked_started:
  "run_checked l b cmd w = (r, w') \<Longrightarrow>
     w' = w \<or> w' = w\<lparr>wk_started := wk_started w @ [cmd]\<rparr> \<and> b_check b = Inr None \<and> \<not> b_cancelled b"
  using spawned_after_checks [of l b]
  by (auto simp: run_checked_def Let_def split: prod.splits option.splits run_outcome.splits if_splits)

lemma run_guarded_started:
  "run_guarded env pair guards fs b cmd w = (r, w') \<Longrightarrow>
     w' = w \<or> w' = w\<lparr>wk_started := wk_started w @ [cmd]\<rparr> \<and> recheck_endpoint_guards fs pair guards = Inr None"
  using run_checked_started [of "worker_limits env" "b\<lparr>b_check := recheck_endpoint_guards fs pair guards\<rparr>" cmd w r w']
  by (auto simp: run_guarded_def)

lemma run_guarded_keeps_starts:
  assumes "recheck_endpoint_guards fs pair guards = Inr None \<Longrightarrow> P cmd"
  shows "starts.keeps P (run_guarded env pair guards fs b cmd)"
  unfolding starts.keeps_def
proof (intro allI impI)
  fix w :: worker
  assume w: "\<forall>c \<in> set (wk_started w). P c"
  obtain r w' where "run_guarded env pair guards fs b cmd w = (r, w')" by fastforce
  from this run_guarded_started [OF this] w assms
  show "\<forall>c \<in> set (wk_started (snd (run_guarded env pair guards fs b cmd w))). P c" by auto
qed

lemma ask_keeps_starts: "starts.keeps P (ask_first_run env pair backup name)"
  by (auto simp: starts.keeps_def ask_first_run_def split: prod.splits)

lemma ask_guard_keeps_starts: "starts.keeps P (ask_guard env ob pair backup k)"
  unfolding starts.keeps_def
proof (intro allI impI)
  fix w :: worker
  assume w: "\<forall>c \<in> set (wk_started w). P c"
  then have w': "\<forall>c \<in> set (wk_started (w\<lparr>wk_store := store\<rparr>)). P c" for store by simp
  show "\<forall>c \<in> set (wk_started (snd (ask_guard env ob pair backup k w))). P c"
    using w starts.keepsD [OF starts.keeps_quarantine w']
    by (auto simp: ask_guard_def give_def split: sum.splits prod.splits)
qed

lemma check_anomaly_keeps_starts: "starts.keeps P (check_anomaly env ob pair backup k)"
  unfolding check_anomaly_def using ask_guard_keeps_starts by auto

text \<open>The guard lets a productive run through only with a finding that does not block.\<close>

lemma check_anomaly_passed:
  assumes "check_anomaly env ob pair backup k w = (Inr found, w')" and "\<not> e_dry_run env"
  shows "\<exists>st f. preflight_anomaly_guard (e_guard env) pair backup (source_of k) (ob_size_guard ob) (ob_guard_now ob)
      (wk_store w) (ob_store_guard ob (wk_store w)) = Inr (st, f) \<and> \<not> truthy (py_get f ''blocked'')"
proof -
  have "ask_guard env ob pair backup k w = (Inr found, w')" using assms by (auto simp: check_anomaly_def step_Inr)
  then show ?thesis
    by (auto simp: ask_guard_def quarantine_stop_def step_Inr split: sum.splits prod.splits if_splits)
qed

lemma check_anomaly_jobs:
  "check_anomaly env ob pair backup k w = (Inr found, w') \<Longrightarrow> wk_jobs w' = wk_jobs w"
  by (auto simp: check_anomaly_def ask_guard_def quarantine_stop_def step_Inr split: sum.splits prod.splits if_splits)

text \<open>When a resync may be started, and the command it is started with.\<close>

definition resync_permitted :: "worker_env \<Rightarrow> surroundings \<Rightarrow> pydict \<Rightarrow> pydict \<Rightarrow> string \<Rightarrow> jobs_db \<Rightarrow> bool" where
  "resync_permitted env ob pair backup name db \<longleftrightarrow>
     re_found resync_re (ob_logged ob) \<and> \<not> ob_cancelled_resync ob \<and>
     (resync_wanted pair backup \<or> fst (first_run_resync_allowed (base_env (e_guard env)) pair backup name db))"

definition allowed_start ::
  "worker_env \<Rightarrow> surroundings \<Rightarrow> pydict \<Rightarrow> pydict \<Rightarrow> string \<Rightarrow> (string \<times> endpoint_guard) list \<Rightarrow> jobs_db \<Rightarrow> rclone_command \<Rightarrow> string list \<Rightarrow> bool" where
  "allowed_start env ob pair backup name guards db k c \<longleftrightarrow>
     c = k_cmd k \<and> recheck_endpoint_guards (ob_fs2 ob) pair guards = Inr None \<or>
     resync_command pair backup (k_cmd k) = Inr c \<and> recheck_endpoint_guards (ob_fs3 ob) pair guards = Inr None \<and>
       k_verb k = ''bisync'' \<and> resync_permitted env ob pair backup name db"

lemma start_resync_starts:
  assumes "\<And>c. resync_command pair backup (k_cmd k) = Inr c \<Longrightarrow> recheck_endpoint_guards (ob_fs3 ob) pair guards = Inr None \<Longrightarrow> P c"
  shows "starts.keeps P (start_resync env ob pair backup guards k first)"
proof -
  have "starts.keeps P (run_guarded env pair guards (ob_fs3 ob) (ob_resync ob) cmd)"
    if "resync_command pair backup (k_cmd k) = Inr cmd" for cmd
    using run_guarded_keeps_starts assms that by blast
  then have rest: "starts.keeps P (and_then (note_down [(''resync'', PStr (if first then ''first_run'' else ''auto''))]) (\<lambda>_.
     and_then (run_guarded env pair guards (ob_fs3 ob) (ob_resync ob) cmd) (\<lambda>rc.
     and_then (note_down [(''resync_return_code'', PInt rc)]) (\<lambda>_. give (rc, ob_logged_resync ob)))))"
    if "resync_command pair backup (k_cmd k) = Inr cmd" for cmd
    using that by (intro starts.keeps_then starts.keeps_any_note starts.keeps_give)
  show ?thesis unfolding starts.keeps_def start_resync_def
  proof (intro allI impI, rule starts.keeps_from [OF starts.keeps_attempt], assumption)
    fix w cmd w1
    assume "attempt (resync_command pair backup (k_cmd k)) w = (Inr cmd, w1)" "\<forall>c \<in> set (wk_started w1). P c"
    then show "\<forall>c \<in> set (wk_started (snd (and_then (note_down [(''resync'', PStr (if first then ''first_run'' else ''auto''))]) (\<lambda>_.
     and_then (run_guarded env pair guards (ob_fs3 ob) (ob_resync ob) cmd) (\<lambda>rc.
     and_then (note_down [(''resync_return_code'', PInt rc)]) (\<lambda>_. give (rc, ob_logged_resync ob)))) w1))). P c"
      using starts.keepsD [OF rest] unfolding attempt_Inr by blast
  qed
qed

lemma may_ask_keeps_starts: "starts.keeps P (may_ask env pair backup name needed)"
  unfolding may_ask_def using ask_keeps_starts by auto

lemma leave_keeps_starts: "starts.keeps P (leave_resync needed)"
  unfolding leave_resync_def by auto

lemma may_ask_allowed:
  "may_ask env pair backup name needed w = (Inr True, w') \<Longrightarrow>
     fst (first_run_resync_allowed (base_env (e_guard env)) pair backup name (wk_jobs w))"
  by (auto simp: may_ask_def ask_first_run_def step_Inr split: if_splits prod.splits)

lemma run_once_starts:
  assumes "\<forall>c \<in> set (wk_started w). P c" and "\<And>c. allowed_start env ob pair backup name guards (wk_jobs w) k c \<Longrightarrow> P c"
  shows "\<forall>c \<in> set (wk_started (snd (run_once_or_resync env ob pair backup name guards k w))). P c"
  unfolding run_once_or_resync_def Let_def
proof (rule starts.keeps_from [OF run_guarded_keeps_starts assms(1)], goal_cases first_start after_run)
  case first_start
  then show ?case using assms(2) by (simp add: allowed_start_def)
next
  case (after_run rc w1)
  have jobs: "wk_jobs w1 = wk_jobs w" using run_guarded_started [OF after_run(1)] by auto
  show ?case
  proof (rule starts.keeps_from [OF may_ask_keeps_starts after_run(2)], goal_cases asked)
    case (asked first w2)
    have first: "first \<longrightarrow> fst (first_run_resync_allowed (base_env (e_guard env)) pair backup name (wk_jobs w))"
      using may_ask_allowed asked(1) jobs by metis
    have "starts.keeps P (start_resync env ob pair backup guards k first)"
      if "needs_resync (k_verb k) rc (ob_logged ob)" "resync_wanted pair backup \<or> first" "\<not> ob_cancelled_resync ob"
      using that first assms(2) by (intro start_resync_starts) (auto simp: allowed_start_def resync_permitted_def needs_resync_def)
    moreover have "starts.keeps P (and_then (leave_resync needed) (\<lambda>_. give x))" for needed and x :: "int \<times> string"
      using leave_keeps_starts by auto
    ultimately have "starts.keeps P (if needs_resync (k_verb k) rc (ob_logged ob) \<and> (resync_wanted pair backup \<or> first) \<and>
        \<not> ob_cancelled_resync ob then start_resync env ob pair backup guards k first
      else and_then (leave_resync (needs_resync (k_verb k) rc (ob_logged ob))) (\<lambda>_. give (rc, ob_logged ob)))" by simp
    then show ?case by (rule starts.keepsD [OF _ asked(2)])
  qed
qed

lemma close_keeps_starts: "starts.keeps P (close_worker env ob pair backup direction found rc logged)"
proof -
  have "starts.keeps P (remember_baseline env ob pair found)"
    by (auto simp: starts.keeps_def remember_baseline_def split: option.splits sum.splits)
  then show ?thesis unfolding close_worker_def Let_def
    by (intro starts.keeps_then) (auto simp: no_verdict_def)
qed

text \<open>What is known when rclone is started.\<close>

definition passed_guards :: "worker_env \<Rightarrow> surroundings \<Rightarrow> pydict \<Rightarrow> runtime_db \<Rightarrow> pydict \<Rightarrow> rclone_command \<Rightarrow> bool" where
  "passed_guards env ob pair store backup k \<longleftrightarrow>
     build_pair_command (e_command env) (e_snapshot env) pair (e_args env) (e_dry_run env) = Inr k \<and> \<not> ob_cancelled ob \<and>
     (e_dry_run env \<or> (\<exists>st f. preflight_anomaly_guard (e_guard env) pair backup (source_of k) (ob_size_guard ob) (ob_guard_now ob)
        store (ob_store_guard ob store) = Inr (st, f) \<and> \<not> truthy (py_get f ''blocked'')))"

lemma try_worker_starts:
  assumes "\<forall>c \<in> set (wk_started w). P c"
    and "\<And>k c. passed_guards env ob pair (wk_store w) backup k \<Longrightarrow>
      allowed_start env ob pair backup name guards (wk_jobs w) k c \<Longrightarrow> P c"
  shows "\<forall>c \<in> set (wk_started (snd (try_worker env ob pair name guards backup w))). P c"
  unfolding try_worker_def
proof (rule starts.keeps_from [OF starts.keeps_attempt assms(1)], goal_cases built)
  case (built k w1)
  have k: "build_pair_command (e_command env) (e_snapshot env) pair (e_args env) (e_dry_run env) = Inr k" "w1 = w"
    using built(1) by (simp_all add: step_Inr)
  show ?case
  proof (rule starts.keeps_from [OF starts.keeps_any_note built(2)], goal_cases noted)
    case (noted u w2)
    have w2: "wk_store w2 = wk_store w" "wk_jobs w2 = wk_jobs w" using noted(1) k(2) by (auto simp: step_Inr)
    show ?case
    proof (rule starts.keeps_from [OF check_anomaly_keeps_starts noted(2)], goal_cases checked)
      case (checked found w3)
      have w3: "wk_jobs w3 = wk_jobs w" using check_anomaly_jobs [OF checked(1)] w2 by simp
      show ?case
      proof (rule starts.keeps_from [OF _ checked(2)], goal_cases keep live)
        case keep
        then show ?case by (auto simp: no_verdict_def)
      next
        case (live v w4)
        have w4: "w4 = w3" "\<not> ob_cancelled ob" using live(1) by (auto simp: step_Inr split: if_splits)
        have "e_dry_run env \<or> (\<exists>st f. preflight_anomaly_guard (e_guard env) pair backup (source_of k) (ob_size_guard ob)
            (ob_guard_now ob) (wk_store w) (ob_store_guard ob (wk_store w)) = Inr (st, f) \<and> \<not> truthy (py_get f ''blocked''))"
          using check_anomaly_passed [OF checked(1)] w2(1) by metis
        then have passed: "passed_guards env ob pair (wk_store w) backup k" using k(1) w4(2) by (simp add: passed_guards_def)
        have run: "\<forall>c \<in> set (wk_started (snd (run_once_or_resync env ob pair backup name guards k w4))). P c"
          using assms(2) [OF passed] w3 w4(1) by (intro run_once_starts live(2)) simp
        have close: "starts.keeps P (case r of (rc, logged) \<Rightarrow> close_worker env ob pair backup (k_direction k) found rc logged)" for r
          using close_keeps_starts by (cases r) simp
        show ?case
        proof (cases "run_once_or_resync env ob pair backup name guards k w4")
          case (Pair r w5)
          show ?thesis
          proof (cases r)
            case (Inl l)
            then show ?thesis using Pair run by (simp add: and_then_def)
          next
            case (Inr x)
            have "\<forall>c \<in> set (wk_started w5). P c" using run Pair by simp
            from starts.keepsD [OF close [of x] this] Pair Inr show ?thesis by (simp add: and_then_def)
          qed
        qed
      qed
    qed
  qed
qed

section \<open>The worker\<close>

lemma open_worker_passed:
  assumes "open_worker env ob pair w = (Inr (name, guards, backup), w')"
  shows "required_text pair ''name'' = Inr name \<and> precheck_pair (ob_fs0 ob) (ob_probes ob) pair = Inr None \<and>
    prepare_guards ob pair = Inr guards \<and> dict_or_empty (py_get (e_snapshot env) ''backup'') = Inr backup \<and>
    wk_store w' = wk_store w \<and> wk_jobs w' = wk_jobs w \<and> wk_started w' = wk_started w"
  using assms by (auto simp: open_worker_def fix_ends_def step_Inr split: option.splits sum.splits if_splits)

lemma worker_starts:
  assumes "c \<in> set (wk_started (snd (sync_pair env ob pair store db)))"
  shows "\<exists>name guards backup k. required_text pair ''name'' = Inr name \<and> precheck_pair (ob_fs0 ob) (ob_probes ob) pair = Inr None \<and>
    prepare_guards ob pair = Inr guards \<and> dict_or_empty (py_get (e_snapshot env) ''backup'') = Inr backup \<and>
    passed_guards env ob pair store backup k \<and> allowed_start env ob pair backup name guards db k c"
    (is "?good c")
proof -
  let ?w = "new_worker store db"
  have w: "\<forall>c \<in> set (wk_started ?w). ?good c" by (simp add: new_worker_def)
  have "\<forall>c \<in> set (wk_started (snd (worker_body env ob pair ?w))). ?good c"
    unfolding worker_body_def
  proof (rule starts.keeps_from [OF starts.keeps_open w], goal_cases opened)
    case (opened x w1)
    obtain name guards backup where x: "x = (name, guards, backup)" by (cases x) auto
    note start = open_worker_passed [OF opened(1) [unfolded x]]
    have store: "wk_store w1 = store" "wk_jobs w1 = db" using start by (simp_all add: new_worker_def)
    have "\<forall>c \<in> set (wk_started (snd (try_worker env ob pair name guards backup w1))). ?good c"
      using start store by (intro try_worker_starts opened(2)) blast
    then show ?case unfolding x prod.case by (rule starts.guarded_keeps)
  qed
  then show ?thesis using assms by (simp add: sync_pair_def Let_def)
qed

text \<open>C5: Whenever a worker starts rclone, the precheck of its data path has passed, the local ends were captured and have just
  been found unchanged, no cancellation was requested, and a productive run was let through by the anomaly guard
  of the configuration the run was started with, asked with the listing measured for this run. The command is the one
  built for the path; \<open>--resync\<close> is added only on a bisync, after rclone asked for it in the log of the run, with no
  cancellation requested by then, and when \<open>auto_resync\<close> is set or the history of the path is provably empty.\<close>

theorem rclone_starts_behind_the_guards:
  assumes "c \<in> set (wk_started (snd (sync_pair env ob pair store db)))"
  shows "precheck_pair (ob_fs0 ob) (ob_probes ob) pair = Inr None \<and> \<not> ob_cancelled ob \<and>
    (\<exists>name guards backup k. required_text pair ''name'' = Inr name \<and> prepare_guards ob pair = Inr guards \<and>
      dict_or_empty (py_get (e_snapshot env) ''backup'') = Inr backup \<and>
      build_pair_command (e_command env) (e_snapshot env) pair (e_args env) (e_dry_run env) = Inr k \<and>
      (e_dry_run env \<or> (\<exists>st f. preflight_anomaly_guard (e_guard env) pair backup (source_of k) (ob_size_guard ob)
         (ob_guard_now ob) store (ob_store_guard ob store) = Inr (st, f) \<and> \<not> truthy (py_get f ''blocked''))) \<and>
      (c = k_cmd k \<and> recheck_endpoint_guards (ob_fs2 ob) pair guards = Inr None \<or>
       resync_command pair backup (k_cmd k) = Inr c \<and> recheck_endpoint_guards (ob_fs3 ob) pair guards = Inr None \<and>
         k_verb k = ''bisync'' \<and> re_found resync_re (ob_logged ob) \<and> \<not> ob_cancelled_resync ob \<and>
         (resync_wanted pair backup \<or> fst (first_run_resync_allowed (base_env (e_guard env)) pair backup name db))))"
  using worker_starts [OF assms] unfolding passed_guards_def allowed_start_def resync_permitted_def by blast

lemma active_view_blocks: "active_quarantine env db pair configured = Some view \<Longrightarrow> truthy (py_get view ''blocked'')"
proof -
  have "truthy (py_get (quarantine_view q) ''blocked'')" for q
    by (simp add: quarantine_view_def py_merge_def)
  then show "active_quarantine env db pair configured = Some view \<Longrightarrow> truthy (py_get view ''blocked'')"
    by (auto simp: active_quarantine_def Let_def split: if_splits pyval.splits option.splits)
qed

text \<open>A quarantine of the path's own key or of overlapping ends is in force whatever paths are configured.\<close>

lemma held_view:
  assumes "is_destructive pair" and "has_quarantine env db pair"
  obtains view where "active_quarantine env db pair configured = Some view"
proof -
  let ?q = "quarantines (load_guard db)"
  have "is_dict (py_get ?q (state_key env pair)) \<or> find (covers env (quarantine_endpoints env pair)) (map snd ?q) \<noteq> None"
    using assms(2) by (auto simp: has_quarantine_def Let_def list_ex_iff find_None_iff)
  then have "active_quarantine env db pair configured \<noteq> None"
    using assms(1) by (cases "py_get ?q (state_key env pair)") (auto simp: active_quarantine_def Let_def split: option.splits)
  then show thesis using that by blast
qed

text \<open>C6: A productive worker of a data path that can delete (a bisync, or a mode that deletes) starts no process while a
  quarantine is recorded for the path itself or for ends that overlap its own. A path that only copies is not held
  back, and neither is a dry run.\<close>

theorem quarantined_path_is_not_run:
  assumes "is_destructive pair" and "has_quarantine (e_guard env) store pair" and "\<not> e_dry_run env"
  shows "wk_started (snd (sync_pair env ob pair store db)) = []"
proof (rule ccontr)
  assume "wk_started (snd (sync_pair env ob pair store db)) \<noteq> []"
  then obtain c where "c \<in> set (wk_started (snd (sync_pair env ob pair store db)))" by (meson last_in_set)
  then obtain k backup where "passed_guards env ob pair store backup k" using worker_starts by blast
  then obtain src run now db1 st f where
      f: "preflight_anomaly_guard (e_guard env) pair backup src run now store db1 = Inr (st, f)" "\<not> truthy (py_get f ''blocked'')"
    using assms(3) by (auto simp: passed_guards_def)
  obtain configured where "iter_or_empty (py_get backup ''pairs'') = Inr configured"
    using f(1) by (auto simp: preflight_anomaly_guard_def)
  moreover obtain view where "active_quarantine (e_guard env) store pair (mappings configured) = Some view"
    by (rule held_view [OF assms(1,2)])
  ultimately show False using f active_view_blocks by (auto simp: preflight_anomaly_guard_def)
qed

text \<open>C7: A data path whose history is not provably empty, in particular one that has succeeded before, is never resynced
  by itself: unless \<open>auto_resync\<close> is set, every process a worker starts runs the command as built.\<close>

theorem known_path_is_not_resynced:
  assumes "dict_or_empty (py_get (e_snapshot env) ''backup'') = Inr backup" and "\<not> resync_wanted pair backup"
    and "required_text pair ''name'' = Inr name"
    and "snd (pair_baseline_state name (rclone_history_key (base_env (e_guard env)) pair) db) \<noteq> BaseNew"
    and "c \<in> set (wk_started (snd (sync_pair env ob pair store db)))"
  shows "\<exists>k. build_pair_command (e_command env) (e_snapshot env) pair (e_args env) (e_dry_run env) = Inr k \<and> c = k_cmd k"
proof -
  obtain k guards where k: "passed_guards env ob pair store backup k" "allowed_start env ob pair backup name guards db k c"
    using worker_starts [OF assms(5)] assms(1,3) by auto
  have "\<not> fst (first_run_resync_allowed (base_env (e_guard env)) pair backup name db)"
    using assms(4) by (auto simp: first_run_resync_allowed_def split: prod.splits)
  then have "c = k_cmd k" using k(2) assms(2) by (simp add: allowed_start_def resync_permitted_def)
  then show ?thesis using k(1) by (auto simp: passed_guards_def)
qed

section \<open>Success\<close>

definition exits_well :: "start_obs \<Rightarrow> bool" where
  "exits_well b \<longleftrightarrow> (\<exists>p \<in> set (b_polls b). w_exit p = Some 0)"

lemma run_guarded_zero: "run_guarded env pair guards fs b cmd w = (Inr 0, w') \<Longrightarrow> exits_well b"
  using ended_by_process [of "worker_limits env" "b\<lparr>b_check := recheck_endpoint_guards fs pair guards\<rparr>" 0]
  by (auto simp: run_guarded_def run_checked_def exits_well_def Let_def split: prod.splits option.splits run_outcome.splits)

lemma run_once_zero:
  "run_once_or_resync env ob pair backup name guards k w = (Inr (0, logged), w') \<Longrightarrow>
     exits_well (ob_run ob) \<or> exits_well (ob_resync ob)"
  by (auto simp: run_once_or_resync_def start_resync_def Let_def step_Inr split: if_splits dest!: run_guarded_zero)

lemma run_guarded_keeps_verdict: "verdict.keeps Q (run_guarded env pair guards fs b cmd)"
  unfolding verdict.keeps_def
proof (intro allI)
  fix w :: worker
  obtain r w' where "run_guarded env pair guards fs b cmd w = (r, w')" by fastforce
  from this run_guarded_started [OF this]
  show "(truthy (py_get (wk_summary w) ''ok'') \<longrightarrow> Q) \<longrightarrow>
      truthy (py_get (wk_summary (snd (run_guarded env pair guards fs b cmd w))) ''ok'') \<longrightarrow> Q" by auto
qed

lemma ask_keeps_verdict: "verdict.keeps Q (ask_first_run env pair backup name)"
  by (auto simp: verdict.keeps_def ask_first_run_def split: prod.splits)

lemma start_resync_keeps_verdict: "verdict.keeps Q (start_resync env ob pair backup guards k first)"
  unfolding start_resync_def
  by (intro verdict.keeps_then verdict.keeps_attempt verdict.keeps_note run_guarded_keeps_verdict verdict.keeps_give)
    (simp_all add: no_verdict_def)

lemma may_ask_keeps_verdict: "verdict.keeps Q (may_ask env pair backup name needed)"
  unfolding may_ask_def using ask_keeps_verdict by auto

lemma leave_keeps_verdict: "verdict.keeps Q (leave_resync needed)"
  unfolding leave_resync_def by (auto simp: no_verdict_def)

lemma run_once_keeps_verdict: "verdict.keeps Q (run_once_or_resync env ob pair backup name guards k)"
proof -
  have "verdict.keeps Q (and_then (leave_resync needed) (\<lambda>_. give x))" for needed and x :: "int \<times> string"
    by (intro verdict.keeps_then leave_keeps_verdict verdict.keeps_give)
  then have "verdict.keeps Q (if c then start_resync env ob pair backup guards k first
      else and_then (leave_resync needed) (\<lambda>_. give x))" for c first needed and x :: "int \<times> string"
    using start_resync_keeps_verdict by auto
  then show ?thesis unfolding run_once_or_resync_def Let_def
    by (intro verdict.keeps_then run_guarded_keeps_verdict may_ask_keeps_verdict)
qed

lemma check_anomaly_keeps_verdict: "verdict.keeps Q (check_anomaly env ob pair backup k)"
proof -
  have "verdict.keeps Q (ask_guard env ob pair backup k)"
    unfolding verdict.keeps_def
  proof (intro allI impI)
    fix w :: worker
    assume w: "truthy (py_get (wk_summary w) ''ok'') \<longrightarrow> Q" "truthy (py_get (wk_summary (snd (ask_guard env ob pair backup k w))) ''ok'')"
    then have "truthy (py_get (wk_summary (w\<lparr>wk_store := store\<rparr>)) ''ok'') \<longrightarrow> Q" for store by simp
    from w verdict.keepsD [OF verdict.keeps_quarantine this] show Q
      by (auto simp: ask_guard_def give_def split: sum.splits prod.splits if_splits)
  qed
  then show ?thesis unfolding check_anomaly_def by auto
qed

lemma stats_no_verdict: "parse_final_stats logged = Inr d \<Longrightarrow> no_verdict d"
proof -
  have "first_stats ls = Inr d \<Longrightarrow> no_verdict d" for ls
    by (induction ls) (auto simp: stats_of_def no_verdict_def split: option.splits)
  then show "parse_final_stats logged = Inr d \<Longrightarrow> no_verdict d" by (simp add: parse_final_stats_def)
qed

lemma merge_last: "py_get (py_merge d (e @ [(k, v)])) k = v"
  by (simp add: py_merge_def)

lemma close_keeps_verdict:
  assumes "rc = 0 \<Longrightarrow> \<not> ob_cancelled_end ob \<Longrightarrow> Q"
  shows "verdict.keeps Q (close_worker env ob pair backup direction found rc logged)"
proof -
  have baseline: "verdict.keeps Q (remember_baseline env ob pair found)"
    by (auto simp: verdict.keeps_def remember_baseline_def split: option.splits sum.splits)
  have final: "verdict.keeps Q (note_down (stats @ [(''cancelled'', PBool c), (''ok'', PBool (rc = 0 \<and> \<not> (ob_cancelled_end ob \<or> x)))]))" for stats c x
    using merge_last [of _ "stats @ [(''cancelled'', PBool c)]"] assms by (auto simp: verdict.keeps_def note_down_def)
  show ?thesis unfolding close_worker_def Let_def
    by (intro verdict.keeps_then final) (auto simp: no_verdict_def snapshot_notes_def intro!: baseline split: sum.splits)
qed

lemma open_keeps_verdict: "verdict.keeps Q (open_worker env ob pair)"
proof -
  have "py_get (py_merge d (first_summary name remote local dry)) ''ok'' = PBool False" for d name remote local dry
    by (simp add: first_summary_def py_merge_def)
  then have "verdict.keeps Q (note_down (first_summary name remote local dry))" for name remote local dry
    by (simp add: verdict.keeps_def note_down_def)
  then show ?thesis unfolding open_worker_def
    by (intro verdict.keeps_then) (auto simp: no_verdict_def skipped_def stats_before_def split: option.splits prod.splits)
qed

lemma try_keeps_verdict:
  assumes "exits_well (ob_run ob) \<or> exits_well (ob_resync ob) \<Longrightarrow> \<not> ob_cancelled_end ob \<Longrightarrow> Q"
    and "truthy (py_get (wk_summary w) ''ok'') \<longrightarrow> Q"
  shows "truthy (py_get (wk_summary (snd (try_worker env ob pair name guards backup w))) ''ok'') \<longrightarrow> Q"
  unfolding try_worker_def
proof (rule verdict.keeps_from [OF verdict.keeps_attempt assms(2)], goal_cases built)
  case (built k w1)
  show ?case
  proof (rule verdict.keeps_from [OF verdict.keeps_note built(2)], goal_cases _ noted)
    case (noted u w2)
    show ?case
    proof (rule verdict.keeps_from [OF check_anomaly_keeps_verdict noted(2)], goal_cases checked)
      case (checked found w3)
      show ?case
      proof (rule verdict.keeps_from [OF _ checked(2)], goal_cases _ live)
        case (live v w4)
        show ?case
        proof (rule verdict.keeps_from [OF run_once_keeps_verdict live(2)], goal_cases ran)
          case (ran x w5)
          obtain rc logged where x: "x = (rc, logged)" by (cases x)
          have "rc = 0 \<Longrightarrow> \<not> ob_cancelled_end ob \<Longrightarrow> Q" using run_once_zero ran(1) assms(1) x by blast
          then show ?case unfolding x prod.case using verdict.keepsD [OF close_keeps_verdict ran(2)] by blast
        qed
      qed (auto simp: no_verdict_def)
    qed
  qed (simp add: no_verdict_def)
qed

text \<open>C8: A worker reports success only when a process it started, the run or the resync after it, ended with return code
  0 and no cancellation was requested up to its end.\<close>

theorem reported_success_is_a_finished_run:
  assumes "fst (sync_pair env ob pair store db) = Inr (Some s)" and "truthy (py_get s ''ok'')"
  shows "\<not> ob_cancelled_end ob \<and>
    ((\<exists>p \<in> set (b_polls (ob_run ob)). w_exit p = Some 0) \<or> (\<exists>p \<in> set (b_polls (ob_resync ob)). w_exit p = Some 0))"
proof -
  let ?Q = "\<not> ob_cancelled_end ob \<and> (exits_well (ob_run ob) \<or> exits_well (ob_resync ob))" and ?w = "new_worker store db"
  have w: "truthy (py_get (wk_summary ?w) ''ok'') \<longrightarrow> ?Q" by (simp add: new_worker_def py_get_def)
  have "truthy (py_get (wk_summary (snd (worker_body env ob pair ?w))) ''ok'') \<longrightarrow> ?Q"
    unfolding worker_body_def
  proof (rule verdict.keeps_from [OF open_keeps_verdict w], goal_cases opened)
    case (opened x w1)
    obtain name guards backup where x: "x = (name, guards, backup)" by (cases x) auto
    have "truthy (py_get (wk_summary (snd (try_worker env ob pair name guards backup w1))) ''ok'') \<longrightarrow> ?Q"
      using opened(2) by (intro try_keeps_verdict) auto
    then show ?case unfolding x prod.case by (rule verdict.guarded_keeps)
  qed
  moreover have "s = wk_summary (snd (worker_body env ob pair ?w))"
    using assms(1) by (auto simp: sync_pair_def worker_answer_def Let_def split: sum.splits leave.splits)
  ultimately show ?thesis using assms(2) by (simp add: exits_well_def)
qed

text \<open>An exception after the verdict is noted, such as a store that cannot take the new baseline, leaves a summary that is
  successful and carries an error, while the reported state is \<open>error\<close>.\<close>

lemma late_error_keeps_the_verdict:
  assumes "\<not> ob_cancelled_end ob" and "parse_final_stats logged = Inr stats"
    and "record_anomaly_baseline (e_guard env) pair (as_dict (py_get f ''measurement'')) (ob_baseline_now ob)
      (ob_store_end ob (wk_store w)) = Inl e"
    and "w' = snd (guarded_body env (close_worker env ob pair backup direction (Some f) 0 logged) w)"
  shows "truthy (py_get (wk_summary w') ''ok'') \<and> last (wk_states w') = ''error'' \<and>
    py_get (wk_summary w') ''error'' = PStr (env_message (base_env (e_guard env)) e)"
  using assms by (simp add: guarded_body_def close_worker_def remember_baseline_def and_then_def attempt_def give_def note_down_def
      caught_def stop_with_def report_state_def leave_by_def py_merge_def)

end
