(* ===== verification/Quick_Theorems.thy ===== *)
theory Quick_Theorems
  imports Quick_Run Worker_Theorems Command_Theorems
begin

text \<open>
  What the runs besides the configured ones guarantee: a quick run starts behind the guards, inside the allowed roots and
  never on a quarantined path; a comparison of the ends of a path starts nothing but \<open>rclone check\<close> with the vault rules
  in front; and the plan of a run shows the commands its workers start.
\<close>

section \<open>Steps\<close>

context blind_bookkeeping begin

lemma keeps_turn_down [intro]: "keeps (turn_down d)"
  unfolding turn_down_def by auto

lemma keeps_go_on [intro]: "keeps (go_on refused)"
  unfolding go_on_def by (auto split: option.splits)

lemma keeps_catch_refusal [intro]: "keeps (catch_refusal r answer)"
  unfolding catch_refusal_def by (auto split: sum.splits)

lemma keeps_open_log [intro]: "keeps (open_log u cfg name)"
  unfolding open_log_def by (intro keeps_then keeps_attempt) (auto split: option.splits)

lemma keeps_open_quick [intro]: "keeps (open_quick env u q store)"
  unfolding open_quick_def Let_def
  by (intro keeps_then keeps_attempt keeps_go_on keeps_catch_refusal keeps_open_log keeps_any_note keeps_give)

lemma keeps_find_path [intro]: "keeps (find_path backup name)"
  unfolding find_path_def by (intro keeps_then keeps_attempt) (auto split: option.splits)

lemma keeps_open_check [intro]: "keeps (open_check env u name one_way download)"
  unfolding open_check_def Let_def
  by (intro keeps_then keeps_attempt keeps_go_on keeps_catch_refusal keeps_open_log keeps_any_note keeps_give keeps_find_path)

lemma keeps_failed [intro]: "keeps (failed_with msg)"
  unfolding failed_with_def by auto

lemma keeps_quick_caught [intro]: "keeps (quick_caught env l)"
  unfolding quick_caught_def by (auto split: leave.splits)

lemma keeps_check_caught [intro]: "keeps (check_caught env t l)"
  unfolding check_caught_def by (auto split: leave.splits)

lemma keeps_leave_resync [intro]: "keeps (leave_resync needed)"
  unfolding leave_resync_def by auto

lemma keeps_close_quick [intro]: "keeps (close_quick u k rc)"
  unfolding close_quick_def Let_def by (intro keeps_then keeps_leave_resync keeps_any_note keeps_attempt) auto

lemma keeps_close_check [intro]: "keeps (close_check u rc)"
  unfolding close_check_def by (intro keeps_then keeps_any_note keeps_attempt) auto

lemma caught_by_keeps: "(\<And>l. keeps (handler l)) \<Longrightarrow> I (snd (m w)) \<Longrightarrow> I (snd (caught_by handler m w))"
  using keepsD by (fastforce simp: caught_by_def split: prod.splits sum.splits)

end

lemma turn_down_Inr: "turn_down d w \<noteq> (Inr x, w')"
  by (auto simp: turn_down_def step_Inr)

lemma go_on_Inr: "go_on refused w = (Inr x, w') \<longleftrightarrow> refused = None \<and> w' = w"
  by (auto simp: go_on_def step_Inr turn_down_Inr split: option.splits)

lemma catch_refusal_Inr: "catch_refusal r answer w = (Inr x, w') \<longleftrightarrow> r = Inr x \<and> w' = w"
  by (auto simp: catch_refusal_def step_Inr turn_down_Inr split: sum.splits)

lemmas quick_Inr = step_Inr turn_down_Inr go_on_Inr catch_refusal_Inr

lemma run_checked_keeps:
  assumes "b_check b = Inr None \<Longrightarrow> \<not> b_cancelled b \<Longrightarrow> P cmd"
  shows "starts.keeps P (run_checked l b cmd)"
  unfolding starts.keeps_def
proof (intro allI impI)
  fix w :: worker
  assume w: "\<forall>c \<in> set (wk_started w). P c"
  obtain r w' where "run_checked l b cmd w = (r, w')" by fastforce
  from this run_checked_started [OF this] w assms show "\<forall>c \<in> set (wk_started (snd (run_checked l b cmd w))). P c" by auto
qed

section \<open>Quick runs\<close>

definition quick_ready ::
  "quick_env \<Rightarrow> run_world \<Rightarrow> quick_request \<Rightarrow> runtime_db \<Rightarrow> string list list \<Rightarrow> pydict \<Rightarrow> (string \<times> endpoint_guard) list \<Rightarrow> string list \<Rightarrow> bool" where
  "quick_ready env u q store roots pair guards args \<longleftrightarrow>
     browse_roots u (y_snapshot env) = Inr roots \<and>
     (\<exists>n. quick_min_files (y_min_files q) = Inr n \<and>
       place_ends (u_real u) roots (local_endpoint_fields (quick_pair q n)) (quick_pair q n) = Inr pair) \<and>
     current_quarantine env (y_dry_run q) (backup_value (y_snapshot env)) pair store = Inr None \<and>
     precheck_pair (u_fs0 u) (u_probes u) pair = Inr None \<and> quick_guards u pair = Inr guards \<and>
     quick_args (backup_value (y_snapshot env)) (y_extra q) = Inr args"

lemma open_quick_passed:
  assumes "open_quick env u q store w = (Inr (pair, guards, args), w')"
  shows "\<exists>roots. quick_ready env u q store roots pair guards args"
  using assms unfolding open_quick_def Let_def quick_ready_def by (auto simp: quick_Inr)

lemma run_behind_keeps:
  assumes "fst check = Inr None \<Longrightarrow> \<not> b_cancelled b \<Longrightarrow> P cmd"
  shows "starts.keeps P (run_behind l b check cmd)"
  unfolding run_behind_def using run_checked_keeps [of "b\<lparr>b_check := fst check\<rparr>" P cmd l] assms
  by (intro starts.keeps_then) auto

lemma start_check_passed:
  "fst (start_check env u dry pair guards store) = Inr None \<Longrightarrow>
     current_quarantine env dry (backup_value (y_snapshot env)) pair store = Inr None \<and>
     recheck_endpoint_guards (u_fs2 u) pair guards = Inr None"
  by (auto simp: start_check_def split: sum.splits option.splits)

lemma try_quick_starts:
  assumes "\<forall>c \<in> set (wk_started w). P c"
    and "\<And>k. build_pair_command (y_command env) (y_snapshot env) pair args (y_dry_run q) = Inr k \<Longrightarrow>
      fst (start_check env u (y_dry_run q) pair guards (u_store_start u store)) = Inr None \<Longrightarrow> \<not> b_cancelled (u_run u) \<Longrightarrow> P (k_cmd k)"
  shows "\<forall>c \<in> set (wk_started (snd (try_quick env u q store (pair, guards, args) w))). P c"
  unfolding try_quick_def prod.case
proof (rule starts.keeps_from [OF starts.keeps_attempt assms(1)], goal_cases built)
  case (built k w1)
  have "build_pair_command (y_command env) (y_snapshot env) pair args (y_dry_run q) = Inr k"
    using built(1) by (simp add: step_Inr)
  then have "starts.keeps P (run_behind l (u_run u) (start_check env u (y_dry_run q) pair guards (u_store_start u store)) (k_cmd k))" for l
    using assms(2) by (intro run_behind_keeps)
  then show ?case
    by (intro starts.keepsD [OF _ built(2)] starts.keeps_then starts.keeps_any_note starts.keeps_attempt starts.keeps_close_quick)
qed

lemma quick_starts:
  assumes "c \<in> set (wk_started (snd (run_quick env u q store db)))"
  shows "\<exists>roots pair guards args k. quick_ready env u q store roots pair guards args \<and>
    build_pair_command (y_command env) (y_snapshot env) pair args (y_dry_run q) = Inr k \<and> c = k_cmd k \<and>
    fst (start_check env u (y_dry_run q) pair guards (u_store_start u store)) = Inr None \<and> \<not> b_cancelled (u_run u)"
    (is "?good c")
proof -
  have w: "\<forall>c \<in> set (wk_started (new_worker store db)). ?good c" by (simp add: new_worker_def)
  have "\<forall>c \<in> set (wk_started (snd (and_then (open_quick env u q store)
      (\<lambda>x. caught_by (quick_caught env) (try_quick env u q store x)) (new_worker store db)))). ?good c"
  proof (rule starts.keeps_from [OF starts.keeps_open_quick w], goal_cases opened)
    case (opened x w1)
    obtain pair guards args where x: "x = (pair, guards, args)" by (cases x) auto
    obtain roots where ready: "quick_ready env u q store roots pair guards args" using open_quick_passed opened(1) x by blast
    show ?case unfolding x
      by (rule starts.caught_by_keeps [OF starts.keeps_quick_caught], rule try_quick_starts [OF opened(2)]) (use ready in blast)
  qed
  then show ?thesis using assms by (simp add: run_quick_def Let_def)
qed

text \<open>When a quick run starts rclone, the precheck has passed, the local ends were captured and have just been found
  unchanged, and the command is the one built for the resolved pair.\<close>

theorem quick_run_starts_behind_the_guards:
  assumes "c \<in> set (wk_started (snd (run_quick env u q store db)))"
  shows "\<exists>pair guards args k. precheck_pair (u_fs0 u) (u_probes u) pair = Inr None \<and> quick_guards u pair = Inr guards \<and>
    recheck_endpoint_guards (u_fs2 u) pair guards = Inr None \<and> \<not> b_cancelled (u_run u) \<and>
    quick_args (backup_value (y_snapshot env)) (y_extra q) = Inr args \<and>
    build_pair_command (y_command env) (y_snapshot env) pair args (y_dry_run q) = Inr k \<and> c = k_cmd k"
  using quick_starts [OF assms] start_check_passed unfolding quick_ready_def by blast

text \<open>C12: A productive quick run that can delete starts no process when a quarantine covers its ends, be it there when the run
  is requested or entered up to the moment right before the start.\<close>

theorem quarantined_quick_run_is_not_started:
  assumes "browse_roots u (y_snapshot env) = Inr roots" and "quick_min_files (y_min_files q) = Inr n"
    and "place_ends (u_real u) roots (local_endpoint_fields (quick_pair q n)) (quick_pair q n) = Inr pair"
    and "is_destructive pair" and "\<not> y_dry_run q" and "backup_value (y_snapshot env) = PDict backup"
    and "iter_or_empty (py_get backup ''pairs'') = Inr configured" and "st \<in> {store, u_store_start u store}"
    and "active_quarantine (y_guard env) st pair (mappings configured) = Some view"
  shows "wk_started (snd (run_quick env u q store db)) = []"
proof (rule ccontr)
  assume "wk_started (snd (run_quick env u q store db)) \<noteq> []"
  then obtain c where "c \<in> set (wk_started (snd (run_quick env u q store db)))" by (meson last_in_set)
  from quick_starts [OF this] obtain roots' pair' guards args where
    ready: "quick_ready env u q store roots' pair' guards args"
    and check: "fst (start_check env u (y_dry_run q) pair' guards (u_store_start u store)) = Inr None" by blast
  have "pair' = pair" using ready assms(1,2,3) by (auto simp: quick_ready_def)
  then have "current_quarantine env (y_dry_run q) (backup_value (y_snapshot env)) pair st = Inr None"
    using ready start_check_passed [OF check] assms(8) by (auto simp: quick_ready_def)
  then show False using assms(4-7,9) by (simp add: current_quarantine_def as_mapping_def)
qed

section \<open>Inside the roots\<close>

lemma place_ends_outside: "place_ends resolve roots kps pair = Inr out \<Longrightarrow> k \<notin> fst ` set kps \<Longrightarrow> py_get out k = py_get pair k"
  by (induction resolve roots kps pair rule: place_ends.induct) (auto split: if_splits)

text \<open>What a local end becomes: what it resolves to, inside one of the roots where there are any.\<close>

definition placed_in :: "(string \<Rightarrow> string list result) \<Rightarrow> string list list \<Rightarrow> string \<Rightarrow> string \<Rightarrow> bool" where
  "placed_in resolve roots asked p \<longleftrightarrow>
     (\<exists>r. resolve asked = Inr r \<and> p = path_text r \<and> (roots = [] \<or> (\<exists>base \<in> set roots. inside r base)))"

lemma place_ends_inside:
  "place_ends resolve roots kps pair = Inr out \<Longrightarrow> distinct (map fst kps) \<Longrightarrow> kp \<in> set kps \<Longrightarrow>
     \<exists>p. py_get out (fst kp) = PStr p \<and> placed_in resolve roots (snd kp) p"
proof (induction resolve roots kps pair rule: place_ends.induct)
  case (2 resolve roots kq kqs pair)
  obtain r where r: "resolve (snd kq) = Inr r" "roots = [] \<or> (\<exists>base \<in> set roots. inside r base)"
      "place_ends resolve roots kqs (py_set pair (fst kq) (PStr (path_text r))) = Inr out"
    using "2.prems"(1) by (auto simp: list_ex_iff split: if_splits)
  show ?case
  proof (cases "kp = kq")
    case True
    have "fst kq \<notin> fst ` set kqs" using "2.prems"(2) by simp
    from place_ends_outside [OF r(3) this] show ?thesis using True r(1,2) by (auto simp: placed_in_def)
  next
    case False
    have "\<not> (roots \<noteq> [] \<and> \<not> list_ex (inside r) roots)" using r(2) by (auto simp: list_ex_iff)
    from "2.IH" [OF this r(3)] show ?thesis using False "2.prems"(2,3) by auto
  qed
qed simp

lemma end_fields: "local_endpoint_fields pair = filter (\<lambda>kv. snd kv \<noteq> [] \<and> \<not> is_remote (snd kv))
    [(''remote'', str_or (py_get pair ''remote'') []), (''local'', str_or (py_get pair ''local'') [])]"
  by (simp add: local_endpoint_fields_def)

text \<open>An end of a placed pair is remote or empty, as it was given, or a placed local end.\<close>

lemma placed_end:
  assumes "place_ends resolve roots (local_endpoint_fields pair) pair = Inr out"
    and "k \<in> {''remote'', ''local''}" and "py_get pair k = PStr s"
  shows "py_get out k = PStr s \<and> (s = [] \<or> is_remote s) \<or> (\<exists>p. py_get out k = PStr p \<and> placed_in resolve roots s p)"
proof (cases "s = [] \<or> is_remote s")
  case True
  then have "k \<notin> fst ` set (local_endpoint_fields pair)" using assms(2,3) by (auto simp: end_fields str_or_def)
  from place_ends_outside [OF assms(1) this] True assms(3) show ?thesis by simp
next
  case False
  then have "(k, s) \<in> set (local_endpoint_fields pair)" using assms(2,3) by (auto simp: end_fields str_or_def)
  moreover have "distinct (map fst (local_endpoint_fields pair))" by (simp add: end_fields)
  ultimately show ?thesis using place_ends_inside [OF assms(1)] by fastforce
qed

lemma required_text_get: "required_text d k = Inr s \<Longrightarrow> py_str (py_get d k) = s"
  by (auto simp: required_text_def py_get_def split: option.splits)

lemma no_empty_end:
  assumes "precheck_pair fs b pair = Inr None"
  shows "str_or (py_get pair ''remote'') [] \<noteq> [] \<and> str_or (py_get pair ''local'') [] \<noteq> []"
  using assms by (auto simp: precheck_pair_def Let_def remote_reachable_def split: if_splits)

lemma plan_ends: "plan_of direction mode remote local = Inr (verb, src, dst, m) \<Longrightarrow> {src, dst} = {remote, local}"
  by (auto simp: plan_of_def split: if_splits)

lemma command_ends:
  assumes "build_pair_command env cfg pair base dry = Inr k"
  obtains src dst remote local where "drop (length (k_cmd k) - 2) (k_cmd k) = [src, dst]"
    and "required_text pair ''remote'' = Inr remote" and "required_text pair ''local'' = Inr local" and "{src, dst} = {remote, local}"
proof (rule build_parts [OF assms], goal_cases)
  case (1 remote local backup src dst mode args0 rest vs interval dry')
  have "\<exists>xs. k_cmd k = xs @ [''--'', src, dst]"
    using 1(16) by (auto simp: command_tail_def split: if_splits)
  then have "drop (length (k_cmd k) - 2) (k_cmd k) = [src, dst]" by auto
  from 1(1) [OF this 1(2,3) plan_ends [OF 1(5)]] show ?case .
qed

text \<open>C11: The source and the target of every process a quick run starts are the two requested ends: a remote as it was
  requested, or the path the requested one resolves to, with symbolic links followed. When local roots are
  configured, that path lies inside one of them, the roots being resolved as well; an empty list of roots, which
  validation accepts, does not bound the path.\<close>

theorem quick_run_stays_inside_the_roots:
  assumes "c \<in> set (wk_started (snd (run_quick env u q store db)))"
    and "browse_roots u (y_snapshot env) = Inr roots"
  shows "\<exists>src dst. drop (length c - 2) c = [src, dst] \<and>
    (\<forall>p \<in> {src, dst}. \<exists>asked \<in> {y_remote q, y_local q}. is_remote asked \<and> p = asked \<or>
      (\<exists>r. u_real u asked = Inr r \<and> p = path_text r \<and> (roots = [] \<or> (\<exists>base \<in> set roots. inside r base))))"
proof -
  obtain n pair guards args k where pair: "place_ends (u_real u) roots (local_endpoint_fields (quick_pair q n)) (quick_pair q n) = Inr pair"
    and pre: "precheck_pair (u_fs0 u) (u_probes u) pair = Inr None"
    and k: "build_pair_command (y_command env) (y_snapshot env) pair args (y_dry_run q) = Inr k" "c = k_cmd k"
    using quick_starts [OF assms(1)] assms(2) unfolding quick_ready_def by auto
  obtain src dst remote local where ends: "drop (length (k_cmd k) - 2) (k_cmd k) = [src, dst]"
    "required_text pair ''remote'' = Inr remote" "required_text pair ''local'' = Inr local" "{src, dst} = {remote, local}"
    using command_ends [OF k(1)] .
  have fields: "py_get (quick_pair q n) ''remote'' = PStr (y_remote q)" "py_get (quick_pair q n) ''local'' = PStr (y_local q)"
    by (simp_all add: quick_pair_def py_get_def)
  have good: "is_remote s \<and> t = s \<or> placed_in (u_real u) roots s t"
    if "kf \<in> {''remote'', ''local''}" "py_get (quick_pair q n) kf = PStr s" "required_text pair kf = Inr t" for kf s t
  proof -
    have "py_str (py_get pair kf) = t" using that(3) by (rule required_text_get)
    moreover have "py_str (py_get pair kf) \<noteq> []" using no_empty_end [OF pre] that(1) by (auto simp: str_or_def split: if_splits)
    ultimately show ?thesis using placed_end [OF pair that(1,2)] by auto
  qed
  have "\<forall>p \<in> {remote, local}. \<exists>asked \<in> {y_remote q, y_local q}. is_remote asked \<and> p = asked \<or> placed_in (u_real u) roots asked p"
    using good [OF _ fields(1) ends(2)] good [OF _ fields(2) ends(3)] by blast
  then have "\<forall>p \<in> {src, dst}. \<exists>asked \<in> {y_remote q, y_local q}. is_remote asked \<and> p = asked \<or> placed_in (u_real u) roots asked p"
    unfolding ends(4) .
  then show ?thesis using ends(1) k(2) unfolding placed_in_def by metis
qed

section \<open>Comparing the ends of a path\<close>

definition check_ready ::
  "quick_env \<Rightarrow> run_world \<Rightarrow> bool option \<Rightarrow> bool \<Rightarrow> pydict \<Rightarrow> (string \<times> endpoint_guard) list \<Rightarrow> string list \<Rightarrow> bool" where
  "check_ready env u one_way download pair guards cmd \<longleftrightarrow>
     precheck_pair (u_fs0 u) (u_probes u) pair = Inr None \<and> capture_endpoint_guards (u_fs1 u) pair = Inr guards \<and>
     (\<exists>backup. check_command (y_command env) (y_snapshot env) backup pair (compares_one_way pair one_way) download = Inr cmd)"

lemma open_check_passed:
  "open_check env u name one_way download w = (Inr (pair, guards, cmd, t), w') \<Longrightarrow> check_ready env u one_way download pair guards cmd"
  unfolding open_check_def Let_def check_ready_def by (auto simp: quick_Inr)

lemma check_starts:
  assumes "c \<in> set (wk_started (snd (run_pair_check env u name one_way download store db)))"
  shows "\<exists>pair guards. check_ready env u one_way download pair guards c \<and> recheck_endpoint_guards (u_fs2 u) pair guards = Inr None"
    (is "?good c")
proof -
  have w: "\<forall>c \<in> set (wk_started (new_worker store db)). ?good c" by (simp add: new_worker_def)
  have "\<forall>c \<in> set (wk_started (snd (and_then (open_check env u name one_way download) (\<lambda>(pair, guards, cmd, t).
      caught_by (check_caught env t) (try_check u pair guards cmd t)) (new_worker store db)))). ?good c"
  proof (rule starts.keeps_from [OF starts.keeps_open_check w], goal_cases opened)
    case (opened x w1)
    obtain pair guards cmd t where x: "x = (pair, guards, cmd, t)" by (cases x) auto
    have ready: "check_ready env u one_way download pair guards cmd" using open_check_passed opened(1) x by blast
    then have "starts.keeps ?good (run_checked l ((u_run u)\<lparr>b_check := recheck_endpoint_guards (u_fs2 u) pair guards\<rparr>) cmd)" for l
      by (intro run_checked_keeps) auto
    then have "starts.keeps ?good (try_check u pair guards cmd t)"
      unfolding try_check_def by (intro starts.keeps_then starts.keeps_close_check)
    then show ?case unfolding x prod.case
      by (intro starts.caught_by_keeps [OF starts.keeps_check_caught] starts.keepsD [OF _ opened(2)])
  qed
  then show ?thesis using assms by (simp add: run_pair_check_def Let_def)
qed

definition check_options :: "string \<Rightarrow> bool \<Rightarrow> bool \<Rightarrow> string list" where
  "check_options bw one_way download =
     (if bw \<noteq> [] then [''--bwlimit'', bw] else []) @ (if one_way then [''--one-way''] else []) @
     (if download then [''--download''] else [])"

text \<open>C13: Every process a comparison starts is \<open>rclone check\<close>, behind the precheck and unchanged local ends, with the
  exclusions of the vault in front of all other filters and no other filter flag among its arguments.\<close>

theorem check_only_compares:
  assumes "c \<in> set (wk_started (snd (run_pair_check env u name one_way download store db)))"
  shows "\<exists>pair guards rest rules bw src dst.
    precheck_pair (u_fs0 u) (u_probes u) pair = Inr None \<and> capture_endpoint_guards (u_fs1 u) pair = Inr guards \<and>
    recheck_endpoint_guards (u_fs2 u) pair guards = Inr None \<and>
    c = [''rclone'', ''check''] @ cache_args (y_command env) ''check'' @ [''--stats'', ''10s'', ''--stats-one-line''] @ rest @
      filter_flags rules @ check_options bw (compares_one_way pair one_way) download @ [''--'', src, dst] \<and>
    take 3 rules = reserved_rules \<and> ''!'' \<notin> set rules \<and> list_all no_filter rest"
proof -
  obtain pair guards backup where ready: "precheck_pair (u_fs0 u) (u_probes u) pair = Inr None"
      "capture_endpoint_guards (u_fs1 u) pair = Inr guards" "recheck_endpoint_guards (u_fs2 u) pair guards = Inr None"
    and cmd: "check_command (y_command env) (y_snapshot env) backup pair (compares_one_way pair one_way) download = Inr c"
    using check_starts [OF assms] unfolding check_ready_def by blast
  obtain filters own args bw where parts: "protected_filter_args (y_command env) (filters @ own) = Inr args"
    and c: "c = [''rclone'', ''check''] @ cache_args (y_command env) ''check'' @ [''--stats'', ''10s'', ''--stats-one-line''] @ args @
      check_options bw (compares_one_way pair one_way) download @ [''--'', py_str (fst (check_ends pair)), py_str (snd (check_ends pair))]"
    using cmd unfolding check_command_def check_options_def by (auto simp del: append.simps)
  obtain rest vs where args: "args = rest @ filter_flags (compiled_rules vs)" "list_all no_filter rest" "\<not> resets_filters vs"
    using protected_result [OF parts] .
  obtain us where "compiled_rules vs = reserved_rules @ us" using reserved_first by blast
  then have "take 3 (compiled_rules vs) = reserved_rules" by (simp add: reserved_rules_def)
  moreover have "''!'' \<notin> set (compiled_rules vs)" using compiled_no_reset args(3) by blast
  moreover have "c = [''rclone'', ''check''] @ cache_args (y_command env) ''check'' @ [''--stats'', ''10s'', ''--stats-one-line''] @ rest @
      filter_flags (compiled_rules vs) @ check_options bw (compares_one_way pair one_way) download @
      [''--'', py_str (fst (check_ends pair)), py_str (snd (check_ends pair))]"
    using c args(1) by simp
  ultimately show ?thesis using ready args(2) by blast
qed

end
