(* ===== verification/Plan_Theorems.thy ===== *)
theory Plan_Theorems
  imports Quick_Theorems Config_Guarantees
begin

text \<open>
  The plan of a run and the guards around it, across components: the plan shows the commands the workers start, and in an
  accepted configuration everything the command builder treats as deleting is what the anomaly guard watches.
\<close>

section \<open>The plan\<close>

lemma plan_entries:
  assumes "build_job_plan senv env resolve live snapshot dry chosen = Inr plan"
  obtains backup pairs args where "dict_or_empty (py_get (case snapshot of None \<Rightarrow> live | Some s \<Rightarrow> s) ''backup'') = Inr backup"
    and "selected_pairs (py_get backup ''pairs'') chosen = Inr pairs"
    and "validate_rclone_args (py_get backup ''rclone_args'') (truthy (py_get backup ''allow_unsafe_rclone_args'')) = Inr args"
    and "py_get plan ''pairs'' = PList (map (\<lambda>p. PDict (fst (plan_path senv env live args dry p))) pairs)"
  using assms by (auto simp: build_job_plan_def Let_def py_get_def comp_def)

lemma prepared_parts:
  assumes "prepare_run snapshot q = Inr (Inr n)"
  obtains backup where "dict_or_empty (py_get snapshot ''backup'') = Inr backup"
    and "selected_pairs (py_get backup ''pairs'') (q_pairs q) = Inr (n_pairs n)"
    and "validate_rclone_args (py_get backup ''rclone_args'') (truthy (py_get backup ''allow_unsafe_rclone_args'')) = Inr (n_args n)"
  using assms by (auto simp: prepare_run_def split: if_splits)

text \<open>The clock enters a command only through \<open>{date}\<close> in one of the version directories.\<close>

definition undated :: "pydict \<Rightarrow> pydict \<Rightarrow> bool" where
  "undated pair backup \<longleftrightarrow>
     list_all (\<lambda>k. \<not> sublist ''{date}'' (own_or_global pair backup k)) [''backup_dir'', ''backup_dir1'', ''backup_dir2'']"

lemma replace_absent: "\<not> sublist old s \<Longrightarrow> replace_from n old new s = drop n s"
proof (induction n old new s rule: replace_from.induct)
  case (2 n old new c s)
  then have "\<not> sublist old s" by (auto simp: sublist_Cons_right)
  then show ?case using "2.IH" by simp
next
  case (3 old new c s)
  have "\<not> py_startswith (c # s) old"
    using "3.prems" sublist_appendI [of old "[]"] by (auto simp: py_startswith_iff)
  moreover have "\<not> sublist old s" using "3.prems" by (auto simp: sublist_Cons_right)
  ultimately show ?case using "3.IH" by simp
qed simp

lemma resolve_undated: "\<not> sublist ''{date}'' spec \<Longrightarrow> resolve_backup_path base spec t = resolve_backup_path base spec t'"
  by (simp add: resolve_backup_path_def py_replace_def replace_absent)

lemma backup_dir_undated:
  assumes "undated pair backup"
  shows "backup_dir_args (env\<lparr>c_stamp := t\<rparr>) backup pair verb src dst = backup_dir_args env backup pair verb src dst"
proof -
  have none: "\<not> sublist ''{date}'' []" by simp
  have same: "resolve_backup_path base spec t = resolve_backup_path base spec (c_stamp env)"
    if "spec \<in> {own_or_global pair backup ''backup_dir'', own_or_global pair backup ''backup_dir1'',
      own_or_global pair backup ''backup_dir2''}" for base spec
    using that assms resolve_undated by (auto simp: undated_def)
  then show ?thesis by (simp add: backup_dir_args_def Let_def)
qed

lemma stamp_free:
  "filter_args (env\<lparr>c_stamp := t\<rparr>) cfg pair verb = filter_args env cfg pair verb"
  "protected_filter_args (env\<lparr>c_stamp := t\<rparr>) args = protected_filter_args env args"
  "filter_snapshot (env\<lparr>c_stamp := t\<rparr>) cfg args = filter_snapshot env cfg args"
  "cache_args (env\<lparr>c_stamp := t\<rparr>) verb = cache_args env verb"
proof -
  have files: "group_values (e\<lparr>c_stamp := t\<rparr>) = group_values e" for e :: command_env
    by (intro ext) (simp add: group_values_def)
  have filters: "file_filter (env\<lparr>c_stamp := t\<rparr>) = file_filter env" by (intro ext) (simp add: file_filter_def)
  have scan: "scan_filters (env\<lparr>c_stamp := t\<rparr>) ts = scan_filters env ts" for ts
    by (induction env ts rule: scan_filters.induct) (simp_all add: files cong: list.case_cong)
  show "filter_args (env\<lparr>c_stamp := t\<rparr>) cfg pair verb = filter_args env cfg pair verb"
    "protected_filter_args (env\<lparr>c_stamp := t\<rparr>) args = protected_filter_args env args"
    "filter_snapshot (env\<lparr>c_stamp := t\<rparr>) cfg args = filter_snapshot env cfg args"
    "cache_args (env\<lparr>c_stamp := t\<rparr>) verb = cache_args env verb"
    by (simp_all add: filter_args_def protected_filter_args_def filter_snapshot_def cache_args_def scan filters)
qed

lemma command_of_any_clock:
  assumes "backup_of cfg = Inr backup" and "undated pair backup"
  shows "build_pair_command (env\<lparr>c_stamp := t\<rparr>) cfg pair base dry = build_pair_command env cfg pair base dry"
proof -
  have args: "effective_args (env\<lparr>c_stamp := t\<rparr>) cfg backup pair base verb src dst =
      effective_args env cfg backup pair base verb src dst" for verb src dst
    by (simp add: effective_args_def stamp_free(1) backup_dir_undated [OF assms(2)])
  show ?thesis unfolding build_pair_command_def stamp_free(2-4) assms(1) by (simp add: args)
qed

text \<open>C14: The plan of the configuration in force lists the paths of the run, one entry each and in their order. An entry
  with a command shows exactly the command the worker of its path starts (a resync adds its flags to it), and for an
  entry with an error the worker starts nothing. The plan is built at another time than the run: the clocks differ,
  and the statement is about paths without \<open>{date}\<close> in their version directories, whose value is the time of the
  start. The filter files are taken to be the same at both times, and the run is a dry run when the plan is for one.\<close>

theorem plan_shows_what_runs:
  assumes "prepare_run (e_snapshot env) q = Inr (Inr n)" and "i < length (n_pairs n)" and "e_args env = n_args n"
    and "build_job_plan senv ((e_command env)\<lparr>c_stamp := t\<rparr>) resolve (e_snapshot env) None (e_dry_run env) (q_pairs q) = Inr plan"
    and "backup_of (e_snapshot env) = Inr backup" and "undated (n_pairs n ! i) backup"
  shows "\<exists>items item. py_get plan ''pairs'' = PList items \<and> length items = length (n_pairs n) \<and> items ! i = PDict item \<and>
    py_get item ''name'' = py_get (n_pairs n ! i) ''name'' \<and>
    (py_get item ''error'' \<noteq> PNone \<longrightarrow> wk_started (snd (sync_pair env ob (n_pairs n ! i) store db)) = []) \<and>
    (\<forall>c \<in> set (wk_started (snd (sync_pair env ob (n_pairs n ! i) store db))).
      \<exists>k. build_pair_command (e_command env) (e_snapshot env) (n_pairs n ! i) (e_args env) (e_dry_run env) = Inr k \<and>
        py_get item ''command'' = PStr (command_to_string (k_cmd k)) \<and>
        (c = k_cmd k \<or> (\<exists>backup. resync_command (n_pairs n ! i) backup (k_cmd k) = Inr c)))"
proof -
  let ?pair = "n_pairs n ! i" and ?env = "(e_command env)\<lparr>c_stamp := t\<rparr>"
  let ?entry = "\<lambda>p. fst (plan_path senv ?env (e_snapshot env) (e_args env) (e_dry_run env) p)"
  let ?items = "map (\<lambda>p. PDict (?entry p)) (n_pairs n)" and ?item = "?entry ?pair"
  let ?started = "wk_started (snd (sync_pair env ob ?pair store db))"
  obtain b where run: "dict_or_empty (py_get (e_snapshot env) ''backup'') = Inr b"
      "selected_pairs (py_get b ''pairs'') (q_pairs q) = Inr (n_pairs n)"
      "validate_rclone_args (py_get b ''rclone_args'') (truthy (py_get b ''allow_unsafe_rclone_args'')) = Inr (n_args n)"
    using prepared_parts [OF assms(1)] .
  have items: "py_get plan ''pairs'' = PList ?items"
  proof (rule plan_entries [OF assms(4)], goal_cases)
    case (1 b' pairs args)
    have "b' = b" using 1(1) run(1) by simp
    moreover from this have "pairs = n_pairs n" "args = n_args n" using 1(2,3) run(2,3) by simp_all
    ultimately show ?case using 1(4) assms(3) by simp
  qed
  have built: "build_pair_command ?env (e_snapshot env) ?pair (e_args env) (e_dry_run env) =
      build_pair_command (e_command env) (e_snapshot env) ?pair (e_args env) (e_dry_run env)"
    by (rule command_of_any_clock [OF assms(5,6)])
  have name: "py_get ?item ''name'' = py_get ?pair ''name''"
    by (simp add: plan_path_def planned_command_def py_get_def split: sum.split)
  have started: "\<exists>k. build_pair_command (e_command env) (e_snapshot env) ?pair (e_args env) (e_dry_run env) = Inr k \<and>
      py_get ?item ''command'' = PStr (command_to_string (k_cmd k)) \<and> py_get ?item ''error'' = PNone \<and>
      (c = k_cmd k \<or> (\<exists>backup. resync_command ?pair backup (k_cmd k) = Inr c))" if c: "c \<in> set ?started" for c
  proof -
    obtain guards nm backup' k where k: "passed_guards env ob ?pair store backup' k" "allowed_start env ob ?pair backup' nm guards db k c"
      using worker_starts [OF c] by blast
    then have "?item = planned_command ?pair (e_dry_run env) k" by (simp add: passed_guards_def plan_path_def built)
    moreover have "c = k_cmd k \<or> (\<exists>backup. resync_command ?pair backup (k_cmd k) = Inr c)"
      using k(2) unfolding allowed_start_def by blast
    ultimately show ?thesis using k(1) by (simp add: passed_guards_def planned_command_def py_get_def)
  qed
  then have "py_get ?item ''error'' \<noteq> PNone \<Longrightarrow> ?started = []" by (metis last_in_set)
  moreover have "length ?items = length (n_pairs n)" "?items ! i = PDict ?item" using assms(2) by simp_all
  ultimately show ?thesis using items name started by blast
qed

section \<open>Deleting commands and the anomaly guard\<close>

text \<open>An accepted path carries its direction and mode in their final spelling.\<close>

lemma pair_direction_word:
  assumes "pair_from x sn si raw pair"
  shows "direction_of raw \<in> set direction_words"
proof -
  obtain l es where n: "normalize_pair x l sn si raw = Inr (pair, es)" "accepted es"
    using assms by (auto simp: pair_from_def)
  have at: "pair_fields x l sn si raw ! 7 = (''direction'', snd (direction_field l))"
    by (simp add: pair_fields_def direction_field_def Let_def)
  have slot: "pair_slot ''direction'' 7" and first: "\<not> written_before 7 ''direction''" by code_simp+
  show ?thesis
  proof (rule pair_field_result [OF n at slot])
    fix d0 u es0
    assume f: "snd (direction_field l) d0 = Inr (u, es0)" and acc: "accepted es0"
      and before: "\<And>j. \<not> written_before 7 j \<Longrightarrow> py_get d0 j = py_get raw j"
    from f acc before [OF first] show ?thesis
      by (auto simp: direction_field_def put_def put_with_def direction_of_def py_strip_lower Let_def split: if_splits)
  qed
qed

lemma pair_mode_word:
  assumes "pair_from x sn si raw pair" and "direction_of raw \<noteq> ''bisync''"
  shows "pair_mode raw \<in> {''copy'', ''sync''}"
proof -
  obtain l es where n: "normalize_pair x l sn si raw = Inr (pair, es)" "accepted es"
    using assms by (auto simp: pair_from_def)
  have at: "pair_fields x l sn si raw ! 8 = (''mode'', snd (mode_field l))"
    by (simp add: pair_fields_def mode_field_def Let_def)
  have slot: "pair_slot ''mode'' 8" and first: "\<not> written_before 8 ''mode''"
    and same: "\<not> written_from 8 ''direction''" by code_simp+
  show ?thesis
  proof (rule pair_field_result [OF n at slot])
    fix d0 u es0
    assume f: "snd (mode_field l) d0 = Inr (u, es0)" and acc: "accepted es0"
      and before: "\<And>j. \<not> written_before 8 j \<Longrightarrow> py_get d0 j = py_get raw j"
      and behind: "\<And>j. \<not> written_from 8 j \<Longrightarrow> py_get d0 j = py_get pair j"
    have "py_get d0 ''direction'' = PStr (direction_of raw)"
      using behind [OF same] pair_direction_result [OF assms(1)] by simp
    with f acc before [OF first] assms(2) show ?thesis
      by (auto simp: mode_field_def put_def put_with_def pair_mode_def str_at_def py_strip_lower Let_def split: if_splits)
  qed
qed

lemma plain_words:
  "word_at [(''k'', PStr s)] ''k'' d = s" if "s \<in> {''bisync'', ''pull'', ''push'', ''copy'', ''sync''}"
  using that by (elim insertE emptyE; simp; code_simp)

lemma word_at_plain: "py_get pair k = PStr s \<Longrightarrow> s \<in> {''bisync'', ''pull'', ''push'', ''copy'', ''sync''} \<Longrightarrow> word_at pair k d = s"
  using plain_words [of s d] by (simp add: word_at_def py_get_def)

text \<open>C15: For a data path of an accepted configuration, whatever command is built that can delete belongs to a path the
  anomaly guard and the quarantine treat as destructive.\<close>

theorem deleting_command_is_guarded:
  assumes "validate_config env v = Inr (Inr (cfg, ws))" and "pair \<in> set (mappings_in cfg ''backup'' ''pairs'')"
    and "build_pair_command cenv snapshot pair base dry = Inr k" and "may_delete (k_verb k)"
  shows "is_destructive pair"
proof (rule accepted_backup [OF assms(1)], goal_cases)
  case (1 data raw d migrated raws hidden y pairs jobs)
  obtain r sn si where p: "pair_from \<lparr>x_env = env, x_backup = d, x_paths = section_in cfg ''paths'', x_hidden = hidden\<rparr> sn si r pair"
    using all2_in_second [of _ raws pairs pair] 1 assms(2) by blast
  note direction = pair_direction_result [OF p] pair_direction_word [OF p]
  show ?case
  proof (cases "direction_of r = ''bisync''")
    case True
    then show ?thesis using direction(1) by (simp add: is_destructive_def str_or_def py_casefold_def lower_char_def code_of_def)
  next
    case False
    then have mode: "py_get pair ''mode'' = PStr (pair_mode r)" "pair_mode r \<in> {''copy'', ''sync''}"
      using pair_mode_result [OF p] pair_mode_word [OF p] by simp_all
    have words: "word_at pair ''direction'' ''bisync'' = direction_of r" "word_at pair ''mode'' ''bisync'' = pair_mode r"
      using direction mode by (auto intro!: word_at_plain simp: direction_words_def)
    have "pair_mode r = ''sync''"
      by (rule build_parts [OF assms(3)])
        (use words False assms(4) in \<open>auto simp: plan_of_def may_delete_def copy_verb_def split: if_splits\<close>)
    then show ?thesis using mode(1) by (simp add: is_destructive_def str_or_def py_casefold_def lower_char_def code_of_def)
  qed
qed

end
