(* ===== verification/Worker_Demo.thy ===== *)
theory Worker_Demo
  imports Worker_Theorems
begin

text \<open>One worker on which the guarantees are exercised: a copy of a local directory to a remote, whose process ends with 0.\<close>

definition calm_fs :: fs where
  "calm_fs = \<lparr>f_posix = True, f_euid = 1000, f_cwd = ''/'', f_lstat = (\<lambda>_. Found \<lparr>i_dir = True, i_link = False, i_uid = 0, i_mode = 493\<rparr>),
     f_exists = (\<lambda>_. True), f_is_dir = (\<lambda>_. True), f_is_file = (\<lambda>_. True), f_symlink = (\<lambda>_. False), f_mounted = (\<lambda>_. True),
     f_resolve = (\<lambda>p. Some (path_components p)), f_identity = (\<lambda>p. Some \<lparr>d_resolved = p, d_device = 1, d_inode = 7\<rparr>),
     f_files = (\<lambda>_. [1]), f_free = (\<lambda>_. 2 ^ 40)\<rparr>"

definition calm_guard :: guard_env where
  "calm_guard = \<lparr>env_valid = (\<lambda>_. True), env_zone = (\<lambda>_. True), env_next = (\<lambda>_ _ t. Inr (t + 60)),
     env_prev = (\<lambda>_ _ t. Inr (t - 60)), env_wall = (\<lambda>_ _. ''a''), env_message = (\<lambda>_. ''Fehler''),
     env_digest = (\<lambda>s. s), env_uid = (\<lambda>s. s), v_hash = (\<lambda>s. s), v_resolve = (\<lambda>p. Some p),
     v_parts = (\<lambda>p. Some (split_char slash p)), v_day = (\<lambda>_ _. ''2024-01-01'')\<rparr>"

definition calm_path :: "string \<Rightarrow> pydict" where
  "calm_path mode = [(''id'', PStr ''p''), (''name'', PStr ''p''), (''remote'', PStr ''c:a''), (''local'', PStr ''/a''),
     (''direction'', PStr ''push''), (''mode'', PStr mode), (''allow_delete'', PBool True), (''max_delete'', PInt 5)]"

definition calm_section :: pydict where
  "calm_section = [(''pairs'', PList [PDict (calm_path ''copy'')])]"

definition calm_env :: "bool \<Rightarrow> worker_env" where
  "calm_env dry = \<lparr>e_command = \<lparr>c_cache = ''/c'', c_stamp = ''1'', c_is_file = (\<lambda>_. False), c_size = (\<lambda>_. 0), c_read = (\<lambda>_. Inr []),
       c_sha256 = (\<lambda>_. ''abc'')\<rparr>,
     e_guard = calm_guard, e_snapshot = [(''backup'', PDict calm_section)], e_args = [], e_log_dir = ''/l'', e_dry_run = dry, e_timeout = 3600,
     e_max_runtime = None\<rparr>"

definition calm_run :: start_obs where
  "calm_run = demo_start\<lparr>b_polls := [\<lparr>w_exit = Some 0, w_cancelled = False, w_now = 1, w_log = None, w_stop = demo_stop\<rparr>]\<rparr>"

definition calm :: surroundings where
  "calm = \<lparr>ob_fs0 = calm_fs, ob_probes = \<lparr>b_stat = (\<lambda>_. Exited 0 []), b_count = (\<lambda>_. Some 1)\<rparr>, ob_made = None, ob_fs1 = calm_fs,
     ob_stamp = ''1'', ob_size_remote = SizeTimeout, ob_size_before = SizeTimeout, ob_size_after = SizeTimeout,
     ob_size_guard = SizeTimeout, ob_guard_now = 0, ob_store_guard = (\<lambda>s. s), ob_cancelled = False, ob_fs2 = calm_fs,
     ob_run = calm_run, ob_logged = [], ob_cancelled_resync = False, ob_fs3 = calm_fs, ob_resync = calm_run,
     ob_logged_resync = [], ob_cancelled_end = False, ob_cancelled_snapshot = False, ob_store_end = (\<lambda>s. s),
     ob_baseline_now = 0, ob_snapshot = Inr PNone\<rparr>"

subsection \<open>The parts\<close>

lemma calm_fields: "ob_fs0 calm = calm_fs" "ob_fs2 calm = calm_fs" "ob_run calm = calm_run" "ob_cancelled calm = False"
    "ob_cancelled_end calm = False" "ob_cancelled_snapshot calm = False" "ob_logged calm = []" "ob_guard_now calm = 0"
    "ob_store_guard calm = (\<lambda>s. s)" "ob_size_guard calm = SizeTimeout" "ob_store_end calm = (\<lambda>s. s)" "ob_baseline_now calm = 0"
  by (simp_all add: calm_def)

lemma calm_env_fields: "e_dry_run (calm_env dry) = dry" "e_guard (calm_env dry) = calm_guard" "e_snapshot (calm_env dry) = [(''backup'', PDict calm_section)]"
    "e_args (calm_env dry) = []" "worker_limits (calm_env dry) = \<lparr>l_timeout = 3600, l_max = None\<rparr>"
  by (simp_all add: calm_env_def worker_limits_def)

lemma calm_precheck: "precheck_pair calm_fs (ob_probes calm) (calm_path ''copy'') = Inr None"
  by code_simp

lemma calm_guards:
  "case prepare_guards calm (calm_path ''copy'') of
     Inr g \<Rightarrow> recheck_endpoint_guards calm_fs (calm_path ''copy'') g = Inr None | Inl _ \<Rightarrow> False"
  by code_simp

lemma calm_command:
  "case build_pair_command (e_command (calm_env False)) [(''backup'', PDict calm_section)] (calm_path ''copy'') [] False of
     Inr k \<Rightarrow> k_verb k = ''copy'' | Inl _ \<Rightarrow> False"
  by code_simp

lemma calm_filters:
  "case filter_args (e_command (calm_env False)) [(''backup'', PDict calm_section)] (calm_path ''copy'') ''sync'' of Inr _ \<Rightarrow> True | Inl _ \<Rightarrow> False"
  by code_simp

lemma calm_preflight:
  "preflight_anomaly_guard calm_guard (calm_path ''copy'') calm_section source SizeTimeout 0 empty_runtime_db empty_runtime_db =
     Inr (empty_runtime_db, disabled_finding)"
proof -
  have "\<not> is_destructive (calm_path ''copy'')" by code_simp
  moreover have "case guard_settings calm_section (calm_path ''copy'') of Inr _ \<Rightarrow> True | Inl _ \<Rightarrow> False" by code_simp
  then obtain c where "guard_settings calm_section (calm_path ''copy'') = Inr c" by (auto split: sum.splits)
  ultimately show ?thesis by (simp add: preflight_anomaly_guard_def active_quarantine_def iter_or_empty_def py_get_def py_or_def calm_section_def)
qed

lemma calm_ended:
  "run_rclone_command \<lparr>l_timeout = 3600, l_max = None\<rparr> (calm_run\<lparr>b_check := Inr None\<rparr>) = (True, Some (Ended 0))"
  by (simp add: run_rclone_command_def calm_run_def demo_start_def)

lemma calm_stats: "parse_final_stats [] = Inr []"
  by code_simp

lemma calm_backup: "dict_or_empty (py_get [(''backup'', PDict calm_section)] ''backup'') = Inr calm_section"
  by code_simp

lemma calm_texts: "required_text (calm_path mode) ''name'' = Inr ''p''" "required_text (calm_path mode) ''remote'' = Inr ''c:a''"
    "required_text (calm_path mode) ''local'' = Inr ''/a''"
  by (simp_all add: calm_path_def required_text_def)

lemma py_get_nil: "py_get [] k = PNone"
  by (simp add: py_get_def)

lemma calm_section_get: "k \<noteq> ''pairs'' \<Longrightarrow> py_get calm_section k = PNone"
  by (simp add: calm_section_def py_get_def)

lemma calm_quiet: "truthy (py_get (calm_path mode) ''recovery_snapshots'') = False" "truthy (py_get disabled_finding ''blocked'') = False"
    "py_get disabled_finding ''measurement'' = PNone"
  by (simp_all add: calm_path_def disabled_finding_def py_get_def)

lemma no_measurement: "record_anomaly_baseline env pair [] now store = Inr store"
  by (simp add: record_anomaly_baseline_def py_get_nil)

lemma calm_worker:
  obtains s w where "sync_pair (calm_env False) calm (calm_path ''copy'') empty_runtime_db db = (Inr (Some s), w)"
    and "truthy (py_get s ''ok'')" and "wk_started w \<noteq> []"
proof -
  obtain g where g: "prepare_guards calm (calm_path ''copy'') = Inr g" "recheck_endpoint_guards calm_fs (calm_path ''copy'') g = Inr None"
    using calm_guards by (auto split: sum.splits)
  obtain k where k: "build_pair_command (e_command (calm_env False)) [(''backup'', PDict calm_section)] (calm_path ''copy'') [] False = Inr k"
      "k_verb k = ''copy''"
    using calm_command by (auto split: sum.splits)
  obtain f where f: "filter_args (e_command (calm_env False)) [(''backup'', PDict calm_section)] (calm_path ''copy'') ''sync'' = Inr f"
    using calm_filters by (auto split: sum.splits)
  let ?r = "worker_body (calm_env False) calm (calm_path ''copy'') (new_worker empty_runtime_db db)"
  have opened: "\<exists>d ss. open_worker (calm_env False) calm (calm_path ''copy'') (new_worker empty_runtime_db db) =
      (Inr (''p'', g, calm_section), \<lparr>wk_summary = d, wk_states = ss, wk_started = [], wk_store = empty_runtime_db, wk_jobs = db\<rparr>)"
    by (simp add: open_worker_def and_then_def attempt_def give_def note_down_def report_state_def fix_ends_def calm_texts calm_fields
        calm_env_fields calm_precheck g(1) calm_backup new_worker_def calm_section_get)
  then obtain d ss where opened: "open_worker (calm_env False) calm (calm_path ''copy'') (new_worker empty_runtime_db db) =
      (Inr (''p'', g, calm_section), \<lparr>wk_summary = d, wk_states = ss, wk_started = [], wk_store = empty_runtime_db, wk_jobs = db\<rparr>)"
    by blast
  have ran: "run_guarded (calm_env False) (calm_path ''copy'') g calm_fs calm_run (k_cmd k) w = (Inr 0, w\<lparr>wk_started := wk_started w @ [k_cmd k]\<rparr>)" for w
    by (simp add: run_guarded_def run_checked_def calm_env_fields g(2) calm_ended)
  have "\<exists>d' ss'. try_worker (calm_env False) calm (calm_path ''copy'') ''p'' g calm_section
      \<lparr>wk_summary = d, wk_states = ss, wk_started = [], wk_store = empty_runtime_db, wk_jobs = db\<rparr> =
      (Inr (), \<lparr>wk_summary = d', wk_states = ss', wk_started = [k_cmd k], wk_store = empty_runtime_db, wk_jobs = db\<rparr>) \<and>
      truthy (py_get d' ''ok'')"
    by (simp add: try_worker_def check_anomaly_def ask_guard_def run_once_or_resync_def may_ask_def leave_resync_def close_worker_def
        remember_baseline_def note_failure_def note_stats_after_def and_then_def attempt_def give_def note_down_def report_state_def
        calm_fields calm_env_fields k f calm_preflight calm_quiet ran needs_resync_def calm_stats no_measurement calm_section_get py_merge_def
        del: append.simps)
  then obtain d' ss' where ended: "try_worker (calm_env False) calm (calm_path ''copy'') ''p'' g calm_section
      \<lparr>wk_summary = d, wk_states = ss, wk_started = [], wk_store = empty_runtime_db, wk_jobs = db\<rparr> =
      (Inr (), \<lparr>wk_summary = d', wk_states = ss', wk_started = [k_cmd k], wk_store = empty_runtime_db, wk_jobs = db\<rparr>)"
      "truthy (py_get d' ''ok'')" by blast
  show thesis
    by (rule that [of d' "\<lparr>wk_summary = d', wk_states = ss', wk_started = [k_cmd k], wk_store = empty_runtime_db, wk_jobs = db\<rparr>"])
      (simp_all add: sync_pair_def worker_body_def guarded_body_def and_then_def opened ended worker_answer_def)
qed

section \<open>Witnesses\<close>

lemma rclone_starts_behind_the_guards_witness:
  "\<exists>c guards. c \<in> set (wk_started (snd (sync_pair (calm_env False) calm (calm_path ''copy'') empty_runtime_db empty_jobs_db))) \<and>
     prepare_guards calm (calm_path ''copy'') = Inr guards"
proof -
  obtain s w where w: "sync_pair (calm_env False) calm (calm_path ''copy'') empty_runtime_db empty_jobs_db = (Inr (Some s), w)"
      "wk_started w \<noteq> []"
    using calm_worker by metis
  then obtain c where c: "c \<in> set (wk_started (snd (sync_pair (calm_env False) calm (calm_path ''copy'') empty_runtime_db empty_jobs_db)))"
    by (metis last_in_set snd_conv)
  from rclone_starts_behind_the_guards [OF c] c show ?thesis by blast
qed

lemma reported_success_is_a_finished_run_witness:
  "(\<exists>s w. sync_pair (calm_env False) calm (calm_path ''copy'') empty_runtime_db empty_jobs_db = (Inr (Some s), w)) \<and>
   ((\<exists>p \<in> set (b_polls (ob_run calm)). w_exit p = Some 0) \<or> (\<exists>p \<in> set (b_polls (ob_resync calm)). w_exit p = Some 0))"
proof -
  obtain s w where w: "sync_pair (calm_env False) calm (calm_path ''copy'') empty_runtime_db empty_jobs_db = (Inr (Some s), w)"
      "truthy (py_get s ''ok'')"
    using calm_worker by metis
  then have "fst (sync_pair (calm_env False) calm (calm_path ''copy'') empty_runtime_db empty_jobs_db) = Inr (Some s)" by simp
  from reported_success_is_a_finished_run [OF this w(2)] w(1) show ?thesis by blast
qed

definition known_history :: jobs_db where
  "known_history = empty_jobs_db\<lparr>pair_runs := [\<lparr>p_id = 1, p_job = 1, p_name = ''p'', p_hist = ''rclone:id:p'', p_ok = True,
     p_dry = False, p_status = JOk, p_started = 100, p_ended = Some 200, p_slot = None, p_result = PDict []\<rparr>]\<rparr>"

lemma known_path_is_not_resynced_witness:
  "\<exists>c k. c \<in> set (wk_started (snd (sync_pair (calm_env False) calm (calm_path ''copy'') empty_runtime_db known_history))) \<and>
     build_pair_command (e_command (calm_env False)) (e_snapshot (calm_env False)) (calm_path ''copy'') (e_args (calm_env False))
       (e_dry_run (calm_env False)) = Inr k \<and> c = k_cmd k"
proof -
  let ?started = "wk_started (snd (sync_pair (calm_env False) calm (calm_path ''copy'') empty_runtime_db known_history))"
  obtain s w where "sync_pair (calm_env False) calm (calm_path ''copy'') empty_runtime_db known_history = (Inr (Some s), w)"
      "wk_started w \<noteq> []"
    using calm_worker by metis
  then obtain c where c: "c \<in> set ?started" by (metis last_in_set snd_conv)
  have backup: "dict_or_empty (py_get (e_snapshot (calm_env False)) ''backup'') = Inr calm_section" using calm_backup calm_env_fields by simp
  have unwanted: "\<not> resync_wanted (calm_path ''copy'') calm_section" by code_simp
  have "snd (pair_baseline_state ''p'' (rclone_history_key (base_env calm_guard) (calm_path ''copy'')) known_history) = BaseSucceeded"
    by code_simp
  then have known: "snd (pair_baseline_state ''p'' (rclone_history_key (base_env (e_guard (calm_env False))) (calm_path ''copy'')) known_history) \<noteq> BaseNew"
    using calm_env_fields by simp
  from known_path_is_not_resynced [OF backup unwanted calm_texts(1) known c] c show ?thesis by blast
qed

definition held_store :: runtime_db where
  "held_store = put_setting 1 anomaly_key (guard_value \<lparr>baselines = [],
     quarantines = [(state_key calm_guard (calm_path ''sync''), PDict [])]\<rparr>) empty_runtime_db"

lemma quarantined_path_is_not_run_witness:
  "wk_started (snd (sync_pair (calm_env False) calm (calm_path ''sync'') held_store empty_jobs_db)) = []"
proof -
  have destructive: "is_destructive (calm_path ''sync'')" by code_simp
  have "quarantines (load_guard held_store) = [(state_key calm_guard (calm_path ''sync''), PDict [])]"
    by (simp add: load_guard_def raw_state_def held_store_def runtime.lookup_insert normalize_state_def guard_value_def py_get_def)
  then have "has_quarantine calm_guard held_store (calm_path ''sync'')" by (simp add: has_quarantine_def py_get_def)
  then have held: "has_quarantine (e_guard (calm_env False)) held_store (calm_path ''sync'')" by (simp add: calm_env_fields)
  show ?thesis by (rule quarantined_path_is_not_run [OF destructive held]) (simp add: calm_env_fields)
qed

end
