(* ===== verification/Quick_Demo.thy ===== *)
theory Quick_Demo
  imports Plan_Theorems Worker_Demo Config_Demo
begin

text \<open>
  The runs besides the configured ones on concrete requests: witnesses of their guarantees, a path the anomaly guard does
  not see because its direction is left to the default, and a plan that shows the settings of another configuration.
\<close>

section \<open>A quick run\<close>

definition quick_demo :: "string \<Rightarrow> quick_request" where
  "quick_demo mode = \<lparr>y_remote = ''c:a'', y_local = ''/mnt/a'', y_direction = ''push'', y_mode = mode, y_dry_run = False,
     y_extra = PNone, y_allow_delete = True, y_max_delete = PInt 5, y_min_files = PInt 1\<rparr>"

definition quick_env0 :: quick_env where
  "quick_env0 = \<lparr>y_command = e_command (calm_env False), y_guard = calm_guard, y_snapshot = [(''backup'', PDict calm_section)]\<rparr>"

definition quick_world :: run_world where
  "quick_world = \<lparr>u_real = (\<lambda>p. Inr (path_components p)), u_fs0 = calm_fs, u_probes = ob_probes calm, u_made = None, u_fs1 = calm_fs,
     u_log_dir = None, u_stamp = ''1'', u_store_start = (\<lambda>s. s), u_fs2 = calm_fs, u_run = calm_run, u_logged = [],
     u_cancelled = False, u_cancelled_ok = False\<rparr>"

definition demo_roots :: "string list list" where
  "demo_roots = [[''mnt''], [''media''], [''srv''], [''opt'', ''rclone-sync'', ''data'']]"

definition quick_path :: "string \<Rightarrow> pydict" where
  "quick_path mode = quick_pair (quick_demo mode) 1"

lemma quick_places:
  "browse_roots quick_world (y_snapshot quick_env0) = Inr demo_roots"
  "quick_min_files (y_min_files (quick_demo mode)) = Inr 1"
  "quick_path mode = quick_pair (quick_demo mode) 1"
  by (code_simp, simp_all add: quick_demo_def quick_min_files_def quick_path_def)

lemma quick_placed:
  "place_ends (u_real quick_world) demo_roots (local_endpoint_fields (quick_path ''copy'')) (quick_path ''copy'') = Inr (quick_path ''copy'')"
  "place_ends (u_real quick_world) demo_roots (local_endpoint_fields (quick_path ''sync'')) (quick_path ''sync'') = Inr (quick_path ''sync'')"
  by code_simp+

lemma quick_values:
  "backup_value (y_snapshot quick_env0) = PDict calm_section" "precheck_pair calm_fs (u_probes quick_world) (quick_path ''copy'') = Inr None"
  "logs_dir (y_snapshot quick_env0) = Inr ''/opt/rclone-sync/logs/rclone''" "quick_args (PDict calm_section) PNone = Inr []"
  "quick_limits calm_section = Inr \<lparr>l_timeout = 14400, l_max = None\<rparr>"
  by code_simp+

lemma quick_guarded:
  "case quick_guards quick_world (quick_path ''copy'') of
     Inr g \<Rightarrow> recheck_endpoint_guards calm_fs (quick_path ''copy'') g = Inr None | Inl _ \<Rightarrow> False"
  by code_simp

lemma quick_built:
  "case build_pair_command (y_command quick_env0) (y_snapshot quick_env0) (quick_path ''copy'') [] False of Inr k \<Rightarrow> True | Inl _ \<Rightarrow> False"
  by code_simp

lemma quick_ended:
  "run_rclone_command \<lparr>l_timeout = 14400, l_max = None\<rparr> (calm_run\<lparr>b_check := Inr None\<rparr>) = (True, Some (Ended 0))"
  by (simp add: run_rclone_command_def calm_run_def demo_start_def)

lemma quick_fields: "u_fs0 quick_world = calm_fs" "u_fs2 quick_world = calm_fs" "u_run quick_world = calm_run" "u_log_dir quick_world = None"
    "u_logged quick_world = []" "u_cancelled quick_world = False" "u_cancelled_ok quick_world = False"
    "y_dry_run (quick_demo mode) = False" "y_extra (quick_demo mode) = PNone" "b_open calm_run = None" "b_cancelled calm_run = False"
  by (simp_all add: quick_world_def quick_demo_def calm_run_def demo_start_def)

lemma quick_calm: "current_quarantine quick_env0 False (PDict calm_section) (quick_path ''copy'') store = Inr None"
proof -
  have "\<not> is_destructive (quick_path ''copy'')" by code_simp
  then show ?thesis by (simp add: current_quarantine_def)
qed

lemma quick_demo_runs:
  "wk_started (snd (run_quick quick_env0 quick_world (quick_demo ''copy'') store db)) \<noteq> []"
proof -
  obtain g where g: "quick_guards quick_world (quick_path ''copy'') = Inr g" "recheck_endpoint_guards calm_fs (quick_path ''copy'') g = Inr None"
    using quick_guarded by (auto split: sum.splits)
  obtain k where k: "build_pair_command (y_command quick_env0) (y_snapshot quick_env0) (quick_path ''copy'') [] False = Inr k"
    using quick_built by (auto split: sum.splits)
  let ?at = "\<lambda>d cs. \<lparr>wk_summary = d, wk_states = [], wk_started = cs, wk_store = store, wk_jobs = db\<rparr>"
  have "\<exists>d. open_quick quick_env0 quick_world (quick_demo ''copy'') store (new_worker store db) = (Inr (quick_path ''copy'', g, []), ?at d [])"
    by (simp add: open_quick_def Let_def and_then_def attempt_def give_def note_down_def catch_refusal_def go_on_def open_log_def
        quick_places(1,2) quick_places(3) [symmetric] quick_placed quick_values quick_fields quick_calm g(1) new_worker_def)
  then obtain d where opened: "open_quick quick_env0 quick_world (quick_demo ''copy'') store (new_worker store db) =
      (Inr (quick_path ''copy'', g, []), ?at d [])" by blast
  have checked: "start_check quick_env0 quick_world False (quick_path ''copy'') g st = (Inr None, [])" for st
    by (simp add: start_check_def quick_values quick_calm quick_fields g(2))
  have ran: "run_behind \<lparr>l_timeout = 14400, l_max = None\<rparr> calm_run (Inr None, []) (k_cmd k) (?at e []) = (Inr 0, ?at e [k_cmd k])" for e
    by (simp add: run_behind_def and_then_def note_down_def give_def quick_fields run_checked_def quick_ended py_merge_def)
  have "\<exists>e. try_quick quick_env0 quick_world (quick_demo ''copy'') store (quick_path ''copy'', g, []) (?at d []) = (Inr (), ?at e [k_cmd k])"
    by (simp add: try_quick_def and_then_def attempt_def give_def note_down_def quick_fields k quick_values as_mapping_def checked ran
        close_quick_def Let_def leave_resync_def needs_resync_def calm_stats passed_def)
  then show ?thesis by (auto simp: run_quick_def Let_def and_then_def opened caught_by_def)
qed

lemma quick_demo_start:
  obtains c where "c \<in> set (wk_started (snd (run_quick quick_env0 quick_world (quick_demo ''copy'') empty_runtime_db empty_jobs_db)))"
  using quick_demo_runs by (metis last_in_set)

lemma quick_run_starts_behind_the_guards_witness:
  "\<exists>c k pair guards. c \<in> set (wk_started (snd (run_quick quick_env0 quick_world (quick_demo ''copy'') empty_runtime_db empty_jobs_db))) \<and>
     precheck_pair calm_fs (u_probes quick_world) pair = Inr None \<and> recheck_endpoint_guards calm_fs pair guards = Inr None \<and> c = k_cmd (k :: rclone_command)"
proof -
  obtain c where c: "c \<in> set (wk_started (snd (run_quick quick_env0 quick_world (quick_demo ''copy'') empty_runtime_db empty_jobs_db)))"
    using quick_demo_start .
  from quick_run_starts_behind_the_guards [OF c] c show ?thesis unfolding quick_fields by blast
qed

lemma quick_run_stays_inside_the_roots_witness:
  "demo_roots \<noteq> [] \<and>
   (\<exists>c src dst. c \<in> set (wk_started (snd (run_quick quick_env0 quick_world (quick_demo ''copy'') empty_runtime_db empty_jobs_db))) \<and>
     drop (length c - 2) c = [src, dst])"
proof -
  obtain c where c: "c \<in> set (wk_started (snd (run_quick quick_env0 quick_world (quick_demo ''copy'') empty_runtime_db empty_jobs_db)))"
    using quick_demo_start .
  have "demo_roots \<noteq> []" by (simp add: demo_roots_def)
  with quick_run_stays_inside_the_roots [OF c quick_places(1)] c show ?thesis by blast
qed

definition quick_held :: runtime_db where
  "quick_held = put_setting 1 anomaly_key (guard_value \<lparr>baselines = [],
     quarantines = [(state_key calm_guard (quick_path ''sync''), PDict [])]\<rparr>) empty_runtime_db"

lemma quick_held_view: "\<exists>view. active_quarantine (y_guard quick_env0) quick_held (quick_path ''sync'') configured = Some view"
proof -
  have "is_destructive (quick_path ''sync'')" by code_simp
  moreover have "quarantines (load_guard quick_held) = [(state_key calm_guard (quick_path ''sync''), PDict [])]"
    by (simp add: load_guard_def raw_state_def quick_held_def runtime.lookup_insert normalize_state_def guard_value_def py_get_def)
  ultimately show ?thesis by (simp add: active_quarantine_def py_get_def quick_env0_def)
qed

text \<open>The quarantine is entered between the request and the start.\<close>

lemma quarantined_quick_run_is_not_started_witness:
  "wk_started (snd (run_quick quick_env0 (quick_world\<lparr>u_store_start := \<lambda>_. quick_held\<rparr>) (quick_demo ''sync'')
     empty_runtime_db empty_jobs_db)) = []"
proof -
  let ?u = "quick_world\<lparr>u_store_start := \<lambda>_. quick_held\<rparr>"
  have places: "browse_roots ?u (y_snapshot quick_env0) = Inr demo_roots"
      "place_ends (u_real ?u) demo_roots (local_endpoint_fields (quick_pair (quick_demo ''sync'') 1)) (quick_pair (quick_demo ''sync'') 1) =
         Inr (quick_path ''sync'')"
    using quick_places(1) quick_placed(2) by (simp_all add: browse_roots_def quick_path_def)
  have destructive: "is_destructive (quick_path ''sync'')" by code_simp
  have pairs: "iter_or_empty (py_get calm_section ''pairs'') = Inr [PDict (calm_path ''copy'')]"
    by (simp add: calm_section_def iter_or_empty_def py_or_def py_get_def)
  obtain view where view: "active_quarantine (y_guard quick_env0) quick_held (quick_path ''sync'') (mappings [PDict (calm_path ''copy'')]) = Some view"
    using quick_held_view by blast
  have productive: "\<not> y_dry_run (quick_demo ''sync'')" and held: "quick_held \<in> {empty_runtime_db, u_store_start ?u empty_runtime_db}"
    by (simp_all add: quick_demo_def)
  show ?thesis
    by (rule quarantined_quick_run_is_not_started [OF places(1) quick_places(2) places(2) destructive productive quick_values(1) pairs held view])
qed

section \<open>A comparison\<close>

lemma check_values:
  "named_path calm_section ''p'' = Inr (Some (calm_path ''copy''))" "as_mapping (PDict calm_section) = Inr calm_section"
  "stall_seconds calm_section = Inr 14400"
  by (code_simp, simp add: as_mapping_def, code_simp)

lemma check_built:
  "case check_command (y_command quick_env0) (y_snapshot quick_env0) calm_section (calm_path ''copy'')
     (compares_one_way (calm_path ''copy'') None) False of Inr _ \<Rightarrow> True | Inl _ \<Rightarrow> False"
  by code_simp

lemma check_guarded:
  "case capture_endpoint_guards calm_fs (calm_path ''copy'') of
     Inr g \<Rightarrow> recheck_endpoint_guards calm_fs (calm_path ''copy'') g = Inr None | Inl _ \<Rightarrow> False"
  by code_simp

lemma check_demo_runs: "wk_started (snd (run_pair_check quick_env0 quick_world ''p'' None False store db)) \<noteq> []"
proof -
  obtain g where g: "capture_endpoint_guards calm_fs (calm_path ''copy'') = Inr g" "recheck_endpoint_guards calm_fs (calm_path ''copy'') g = Inr None"
    using check_guarded by (auto split: sum.splits)
  obtain cmd where cmd: "check_command (y_command quick_env0) (y_snapshot quick_env0) calm_section (calm_path ''copy'')
      (compares_one_way (calm_path ''copy'') None) False = Inr cmd"
    using check_built by (auto split: sum.splits)
  have world: "u_fs1 quick_world = calm_fs" "u_probes quick_world = ob_probes calm" by (simp_all add: quick_world_def)
  let ?at = "\<lambda>d cs. \<lparr>wk_summary = d, wk_states = [], wk_started = cs, wk_store = store, wk_jobs = db\<rparr>"
  have "\<exists>d. open_check quick_env0 quick_world ''p'' None False (new_worker store db) = (Inr (calm_path ''copy'', g, cmd, 14400), ?at d [])"
    by (simp add: open_check_def Let_def and_then_def attempt_def give_def note_down_def catch_refusal_def go_on_def open_log_def
        find_path_def check_values quick_values quick_fields world calm_precheck g(1) cmd new_worker_def)
  then obtain d where opened: "open_check quick_env0 quick_world ''p'' None False (new_worker store db) =
      (Inr (calm_path ''copy'', g, cmd, 14400), ?at d [])" by blast
  have "\<exists>e. try_check quick_world (calm_path ''copy'') g cmd 14400 (?at d []) = (Inr (), ?at e [cmd])"
    by (simp add: try_check_def and_then_def attempt_def give_def note_down_def quick_fields g(2) run_checked_def quick_ended
        close_check_def calm_stats passed_def)
  then show ?thesis by (auto simp: run_pair_check_def Let_def and_then_def opened caught_by_def)
qed

lemma check_only_compares_witness:
  "\<exists>c rest. c \<in> set (wk_started (snd (run_pair_check quick_env0 quick_world ''p'' None False empty_runtime_db empty_jobs_db))) \<and>
     c = [''rclone'', ''check''] @ rest"
proof -
  obtain c where c: "c \<in> set (wk_started (snd (run_pair_check quick_env0 quick_world ''p'' None False empty_runtime_db empty_jobs_db)))"
    using check_demo_runs by (metis last_in_set)
  from check_only_compares [OF c] c show ?thesis by blast
qed

section \<open>The plan of a run\<close>

definition plan_request :: run_request where
  "plan_request = \<lparr>q_dry_run = False, q_pairs = [], q_trigger = PNone, q_job_id = PNone, q_mode = PNone, q_parallel = PNone,
     q_definition_id = PNone, q_definition_name = PNone, q_revision = [], q_slot = PNone\<rparr>"

lemma plan_prepared:
  "case prepare_run (e_snapshot (calm_env False)) plan_request of
     Inr (Inr n) \<Rightarrow> n_pairs n = [calm_path ''copy''] \<and> n_args n = e_args (calm_env False) | _ \<Rightarrow> False"
  by code_simp

lemma plan_built:
  assumes "dict_or_empty (py_get (case snapshot of None \<Rightarrow> live | Some s \<Rightarrow> s) ''backup'') = Inr backup"
    and "selected_pairs (py_get backup ''pairs'') chosen = Inr pairs"
    and "validate_rclone_args (py_get backup ''rclone_args'') (truthy (py_get backup ''allow_unsafe_rclone_args'')) = Inr args"
  shows "\<exists>plan. build_job_plan senv env resolve live snapshot dry chosen = Inr plan \<and>
    py_get plan ''pairs'' = PList (map (\<lambda>p. PDict (fst (plan_path senv env live args dry p))) pairs)"
  using assms by (simp add: build_job_plan_def py_get_def comp_def)

lemma plan_shows_what_runs_witness:
  "\<exists>plan c items item k. build_job_plan (base_env calm_guard) ((e_command (calm_env False))\<lparr>c_stamp := ''0''\<rparr>) (\<lambda>p. None)
       (e_snapshot (calm_env False)) None False [] = Inr plan \<and>
     c \<in> set (wk_started (snd (sync_pair (calm_env False) calm (calm_path ''copy'') empty_runtime_db empty_jobs_db))) \<and>
     py_get plan ''pairs'' = PList [PDict item] \<and> py_get item ''command'' = PStr (command_to_string (k_cmd (k :: rclone_command)))"
proof -
  let ?env = "(e_command (calm_env False))\<lparr>c_stamp := ''0''\<rparr>"
  obtain n where n: "prepare_run (e_snapshot (calm_env False)) plan_request = Inr (Inr n)" "n_pairs n = [calm_path ''copy'']"
      "n_args n = e_args (calm_env False)"
    using plan_prepared by (auto split: sum.splits)
  obtain backup where parts: "dict_or_empty (py_get (e_snapshot (calm_env False)) ''backup'') = Inr backup"
      "selected_pairs (py_get backup ''pairs'') (q_pairs plan_request) = Inr (n_pairs n)"
      "validate_rclone_args (py_get backup ''rclone_args'') (truthy (py_get backup ''allow_unsafe_rclone_args'')) = Inr (n_args n)"
    using prepared_parts [OF n(1)] .
  obtain plan where plan: "build_job_plan (base_env calm_guard) ?env (\<lambda>p. None) (e_snapshot (calm_env False)) None
      (e_dry_run (calm_env False)) (q_pairs plan_request) = Inr plan"
    using plan_built [where snapshot = None and live = "e_snapshot (calm_env False)", OF _ parts(2,3)] parts(1) by fastforce
  obtain c where c: "c \<in> set (wk_started (snd (sync_pair (calm_env False) calm (calm_path ''copy'') empty_runtime_db empty_jobs_db)))"
    using calm_worker by (metis last_in_set snd_conv)
  have first: "0 < length (n_pairs n)" "n_pairs n ! 0 = calm_path ''copy''" by (simp_all add: n(2))
  have backup: "backup_of (e_snapshot (calm_env False)) = Inr calm_section" by code_simp
  have "undated (calm_path ''copy'') calm_section" by code_simp
  then have undated: "undated (n_pairs n ! 0) calm_section" by (simp add: first(2))
  note listed = plan_shows_what_runs [OF n(1) first(1) n(3) [symmetric] plan backup undated, of calm empty_runtime_db empty_jobs_db]
  obtain items item k where shown: "py_get plan ''pairs'' = PList items" "length items = length (n_pairs n)" "items ! 0 = PDict item"
      "py_get item ''command'' = PStr (command_to_string (k_cmd (k :: rclone_command)))"
    using listed c unfolding first(2) by blast
  then have "length items = 1" by (simp add: n(2))
  then have "items = [PDict item]" using shown(3) by (cases items) simp_all
  with shown plan c show ?thesis unfolding calm_env_fields(1) by (auto simp: plan_request_def)
qed

text \<open>The plan of a snapshot: its path is shown with the settings of the configuration in force. Here the snapshot limits
  the bandwidth, and the command of the plan does not.\<close>

definition live_settings :: pydict where
  "live_settings = [(''backup'', PDict calm_section)]"

definition limited_settings :: pydict where
  "limited_settings = [(''backup'', PDict ((''bwlimit'', PStr ''1M'') # calm_section))]"

lemma limited_command:
  "case (build_pair_command (e_command (calm_env False)) live_settings (calm_path ''copy'') [] False,
         build_pair_command (e_command (calm_env False)) limited_settings (calm_path ''copy'') [] False) of
     (Inr k, Inr k') \<Rightarrow> ''--bwlimit'' \<notin> set (k_cmd k) \<and> ''--bwlimit'' \<in> set (k_cmd k') | _ \<Rightarrow> False"
  by code_simp

lemma limited_parts:
  "dict_or_empty (py_get limited_settings ''backup'') = Inr ((''bwlimit'', PStr ''1M'') # calm_section)"
  "selected_pairs (py_get ((''bwlimit'', PStr ''1M'') # calm_section) ''pairs'') [] = Inr [calm_path ''copy'']"
  "validate_rclone_args (py_get ((''bwlimit'', PStr ''1M'') # calm_section) ''rclone_args'')
     (truthy (py_get ((''bwlimit'', PStr ''1M'') # calm_section) ''allow_unsafe_rclone_args'')) = Inr []"
  by code_simp+

lemma plan_of_a_snapshot_uses_the_live_settings:
  "\<exists>k k' plan item. build_pair_command (e_command (calm_env False)) live_settings (calm_path ''copy'') [] False = Inr k \<and>
     build_pair_command (e_command (calm_env False)) limited_settings (calm_path ''copy'') [] False = Inr k' \<and>
     ''--bwlimit'' \<notin> set (k_cmd k) \<and> ''--bwlimit'' \<in> set (k_cmd k') \<and>
     build_job_plan (base_env calm_guard) (e_command (calm_env False)) (\<lambda>p. None) live_settings (Some limited_settings) False [] = Inr plan \<and>
     py_get plan ''pairs'' = PList [PDict item] \<and> py_get item ''command'' = PStr (command_to_string (k_cmd k))"
proof -
  obtain k k' where k: "build_pair_command (e_command (calm_env False)) live_settings (calm_path ''copy'') [] False = Inr k"
      "build_pair_command (e_command (calm_env False)) limited_settings (calm_path ''copy'') [] False = Inr k'"
      "''--bwlimit'' \<notin> set (k_cmd k)" "''--bwlimit'' \<in> set (k_cmd k')"
    using limited_command by (auto split: sum.splits)
  obtain plan where plan: "build_job_plan (base_env calm_guard) (e_command (calm_env False)) (\<lambda>p. None) live_settings (Some limited_settings) False [] = Inr plan"
      "py_get plan ''pairs'' = PList [PDict (fst (plan_path (base_env calm_guard) (e_command (calm_env False)) live_settings [] False (calm_path ''copy'')))]"
    using plan_built [where snapshot = "Some limited_settings", OF _ limited_parts(2,3)] limited_parts(1) by fastforce
  have "fst (plan_path (base_env calm_guard) (e_command (calm_env False)) live_settings [] False (calm_path ''copy'')) =
      planned_command (calm_path ''copy'') False k"
    by (simp add: plan_path_def k(1))
  moreover have "py_get (planned_command (calm_path ''copy'') False k) ''command'' = PStr (command_to_string (k_cmd k))"
    by (simp add: planned_command_def py_get_def)
  ultimately show ?thesis using k plan by metis
qed

section \<open>Deleting commands\<close>

definition mirror_config :: pydict where
  "mirror_config = [(''backup'', PDict [(''pairs'', PList [PDict [(''name'', PStr ''Bilder''), (''remote'', PStr ''c:bilder''),
     (''local'', PStr ''/daten/bilder''), (''direction'', PStr ''Push''), (''mode'', PStr ''SYNC''), (''allow_delete'', PBool True),
     (''max_delete'', PInt 5)]])])]"

definition mirror_deletes :: "pydict \<Rightarrow> bool" where
  "mirror_deletes cfg \<longleftrightarrow>
     (case mappings_in cfg ''backup'' ''pairs'' of
        [pair] \<Rightarrow> (case build_pair_command (e_command (calm_env False)) live_settings pair [] False of
           Inr k \<Rightarrow> may_delete (k_verb k) | Inl _ \<Rightarrow> False)
      | _ \<Rightarrow> False)"

lemma mirror_accepted:
  "case validate_config demo_config_env (PDict mirror_config) of Inr (Inr (cfg, ws)) \<Rightarrow> mirror_deletes cfg | _ \<Rightarrow> False"
  by code_simp

lemma mirror_parts:
  assumes "mirror_deletes cfg"
  obtains pair k where "mappings_in cfg ''backup'' ''pairs'' = [pair]"
    and "build_pair_command (e_command (calm_env False)) live_settings pair [] False = Inr k" and "may_delete (k_verb k)"
proof -
  obtain pair where pair: "mappings_in cfg ''backup'' ''pairs'' = [pair]"
    using assms by (auto simp: mirror_deletes_def split: list.splits)
  with assms that show ?thesis by (auto simp: mirror_deletes_def split: sum.splits)
qed

lemma deleting_command_is_guarded_witness:
  "\<exists>cfg ws pair. validate_config demo_config_env (PDict mirror_config) = Inr (Inr (cfg, ws)) \<and>
     mappings_in cfg ''backup'' ''pairs'' = [pair] \<and> is_destructive pair"
proof -
  obtain cfg ws where ok: "validate_config demo_config_env (PDict mirror_config) = Inr (Inr (cfg, ws))" "mirror_deletes cfg"
    using mirror_accepted by (auto split: sum.splits)
  obtain pair k where p: "mappings_in cfg ''backup'' ''pairs'' = [pair]"
      "build_pair_command (e_command (calm_env False)) live_settings pair [] False = Inr k" "may_delete (k_verb k)"
    using mirror_parts [OF ok(2)] .
  have "pair \<in> set (mappings_in cfg ''backup'' ''pairs'')" using p(1) by simp
  from deleting_command_is_guarded [OF ok(1) this p(2,3)] ok(1) p(1) show ?thesis by blast
qed

text \<open>Without the validation the two disagree: a path that leaves its direction to the default is run as a bisync, with
  deletions on both sides, and is no destructive path for the anomaly guard, so no quarantine applies to it.\<close>

definition unspoken_path :: pydict where
  "unspoken_path = [(''name'', PStr ''p''), (''remote'', PStr ''c:a''), (''local'', PStr ''/a''), (''allow_delete'', PBool True),
     (''max_delete'', PInt 5)]"

lemma unspoken_command:
  "case build_pair_command (e_command (calm_env False)) live_settings unspoken_path [] False of
     Inr k \<Rightarrow> k_verb k = ''bisync'' \<and> may_delete (k_verb k) | Inl _ \<Rightarrow> False"
  by code_simp

lemma default_direction_is_not_guarded:
  "(\<exists>k. build_pair_command (e_command (calm_env False)) live_settings unspoken_path [] False = Inr k \<and> may_delete (k_verb k)) \<and>
     active_quarantine env store unspoken_path configured = None"
proof -
  have "\<not> is_destructive unspoken_path" by code_simp
  then show ?thesis using unspoken_command by (auto simp: active_quarantine_def split: sum.splits)
qed

end
