(* ===== verification/Config_Store.thy ===== *)
theory Config_Store
  imports Pair_Command
begin

text \<open>
  \<open>config_store.py\<close>: one YAML file that the web application, the command line and the scheduler read and write, each
  through an object of its own. The object keeps the content and the modification time it has seen; writes
  happen under a lock on a second file, replace the file in one step and are refused when the revision (a digest of the
  bytes) is not the expected one. The record \<open>yaml_lib\<close> holds what PyYAML and SHA-256 answer; \<open>write_obs\<close> is the
  fault a write may meet, the time stamp of the new file and whether it can be read back. A locked operation takes
  whether the lock was obtained in time.
\<close>

record yaml_lib =
  yaml_load :: "string \<Rightarrow> pyval result"
  yaml_dump :: "pydict \<Rightarrow> string result"
  digest :: "string \<Rightarrow> string"

record config_file =
  file_bytes :: "string option"
  file_time :: int
  file_backup :: "string option"

record config_object =
  mem_data :: pydict
  mem_time :: int
  mem_revision :: string
  mem_dirty :: "string option"

datatype store_error = Conflict | Lock_Timeout | Failure pyerr

datatype write_fault = Backup_Fails pyerr | Replace_Fails pyerr

record write_obs =
  wr_fault :: "write_fault option"
  wr_time :: int
  wr_stat :: bool

section \<open>Reading\<close>

definition missing_revision :: string where
  "missing_revision = ''missing''"

definition revision_of :: "yaml_lib \<Rightarrow> config_file \<Rightarrow> string" where
  "revision_of lib f = (case file_bytes f of None \<Rightarrow> missing_revision | Some raw \<Rightarrow> digest lib raw)"

definition parse_config :: "yaml_lib \<Rightarrow> string \<Rightarrow> pydict result" where
  "parse_config lib raw =
     bind_result (yaml_load lib raw) (\<lambda>v.
       case py_or v (PDict []) of PDict d \<Rightarrow> Inr d | _ \<Rightarrow> Inl (ValueError ''Config-Root muss ein Mapping sein''))"

definition load_unlocked :: "yaml_lib \<Rightarrow> config_file \<Rightarrow> config_object \<Rightarrow> config_object result" where
  "load_unlocked lib f c =
     (case file_bytes f of
        None \<Rightarrow> Inr (c\<lparr>mem_data := [], mem_time := 0, mem_revision := missing_revision\<rparr>)
      | Some raw \<Rightarrow> bind_result (parse_config lib raw) (\<lambda>d.
          Inr (c\<lparr>mem_data := d, mem_time := file_time f, mem_revision := digest lib raw\<rparr>)))"

definition maybe_reload :: "yaml_lib \<Rightarrow> config_file \<Rightarrow> config_object \<Rightarrow> config_object result" where
  "maybe_reload lib f c =
     (if mem_dirty c \<noteq> None then Inr c
      else case file_bytes f of
        None \<Rightarrow> (if mem_revision c \<noteq> missing_revision then load_unlocked lib f c else Inr c)
      | Some _ \<Rightarrow> (if file_time f \<noteq> mem_time c then load_unlocked lib f c else Inr c))"

definition new_config :: "yaml_lib \<Rightarrow> config_file \<Rightarrow> config_object result" where
  "new_config lib f = load_unlocked lib f \<lparr>mem_data = [], mem_time = 0, mem_revision = missing_revision, mem_dirty = None\<rparr>"

definition config_get :: "yaml_lib \<Rightarrow> config_file \<Rightarrow> string list \<Rightarrow> pyval \<Rightarrow> config_object \<Rightarrow> (pyval \<times> config_object) result" where
  "config_get lib f ks dflt c = bind_result (maybe_reload lib f c) (\<lambda>c'. Inr (snapshot_get (PDict (mem_data c')) ks dflt, c'))"

definition snapshot_with_revision :: "yaml_lib \<Rightarrow> config_file \<Rightarrow> config_object \<Rightarrow> ((pydict \<times> string) \<times> config_object) result" where
  "snapshot_with_revision lib f c = bind_result (maybe_reload lib f c) (\<lambda>c'. Inr ((mem_data c', mem_revision c'), c'))"

section \<open>Local changes\<close>

text \<open>\<open>cur[k1][k2].. = v\<close>: missing mappings on the way are created, other values are refused.\<close>

fun put_path :: "string list \<Rightarrow> pyval \<Rightarrow> pydict \<Rightarrow> pydict result" where
  "put_path [] v d = Inl (ValueError ''set'')"
| "put_path [k] v d = Inr (py_set d k v)"
| "put_path (k # k' # ks) v d =
     (case py_get d k of
        PNone \<Rightarrow> bind_result (put_path (k' # ks) v []) (\<lambda>e. Inr (py_set d k (PDict e)))
      | PDict e \<Rightarrow> bind_result (put_path (k' # ks) v e) (\<lambda>e'. Inr (py_set d k (PDict e')))
      | _ \<Rightarrow> Inl (ValueError k))"

text \<open>\<open>set\<close>: the base revision is noted before the path is followed, also when that fails.\<close>

definition config_set :: "yaml_lib \<Rightarrow> config_file \<Rightarrow> string list \<Rightarrow> pyval \<Rightarrow> config_object \<Rightarrow> unit result \<times> config_object" where
  "config_set lib f ks v c =
     (if ks = [] then (Inl (ValueError ''set: mindestens key + value''), c)
      else case maybe_reload lib f c of
        Inl e \<Rightarrow> (Inl e, c)
      | Inr c' \<Rightarrow>
          (let c1 = c'\<lparr>mem_dirty := Some (case mem_dirty c' of None \<Rightarrow> mem_revision c' | Some r \<Rightarrow> r)\<rparr> in
           case put_path ks v (mem_data c1) of
             Inl e \<Rightarrow> (Inl e, c1)
           | Inr d \<Rightarrow> (Inr (), c1\<lparr>mem_data := d\<rparr>)))"

section \<open>Writing\<close>

type_synonym 'a stored = "(store_error + 'a) \<times> config_file \<times> config_object"

definition keep_previous :: "string \<Rightarrow> config_file \<Rightarrow> config_file" where
  "keep_previous raw f =
     (case file_bytes f of None \<Rightarrow> f | Some old \<Rightarrow> if old = raw then f else f\<lparr>file_backup := Some old\<rparr>)"

definition replaces_previous :: "string \<Rightarrow> config_file \<Rightarrow> bool" where
  "replaces_previous raw f \<longleftrightarrow> file_bytes f \<noteq> None \<and> file_bytes f \<noteq> Some raw"

text \<open>\<open>_save_unlocked\<close>: the previous version, then the file, each in one step.\<close>

definition save_unlocked :: "yaml_lib \<Rightarrow> write_obs \<Rightarrow> config_file \<Rightarrow> config_object \<Rightarrow> pyerr option \<times> config_file \<times> config_object" where
  "save_unlocked lib w f c =
     (case yaml_dump lib (mem_data c) of
        Inl e \<Rightarrow> (Some e, f, c)
      | Inr raw \<Rightarrow>
          (case (replaces_previous raw f, wr_fault w) of
             (True, Some (Backup_Fails e)) \<Rightarrow> (Some e, f, c)
           | (_, Some (Replace_Fails e)) \<Rightarrow> (Some e, keep_previous raw f, c)
           | _ \<Rightarrow> (None, (keep_previous raw f)\<lparr>file_bytes := Some raw, file_time := wr_time w\<rparr>,
               c\<lparr>mem_revision := digest lib raw, mem_time := (if wr_stat w then wr_time w else 0)\<rparr>)))"

text \<open>The handler around a save: after a fault the object is what the file holds.\<close>

definition save_or_reload :: "yaml_lib \<Rightarrow> write_obs \<Rightarrow> config_file \<Rightarrow> config_object \<Rightarrow> unit stored" where
  "save_or_reload lib w f c =
     (case save_unlocked lib w f c of
        (None, f', c') \<Rightarrow> (Inr (), f', c'\<lparr>mem_dirty := None\<rparr>)
      | (Some e, f', c') \<Rightarrow>
          (case load_unlocked lib f' c' of
             Inl e' \<Rightarrow> (Inl (Failure e'), f', c')
           | Inr c'' \<Rightarrow> (Inl (Failure e), f', c''\<lparr>mem_dirty := None\<rparr>)))"

definition unexpected :: "string option \<Rightarrow> string \<Rightarrow> bool" where
  "unexpected expected revision \<longleftrightarrow> (case expected of None \<Rightarrow> False | Some r \<Rightarrow> r \<noteq> [] \<and> r \<noteq> revision)"

text \<open>\<open>update\<close>; what the updater returns or leaves in its argument is one result, a wrong type included in its errors.\<close>

definition config_update ::
  "yaml_lib \<Rightarrow> bool \<Rightarrow> write_obs \<Rightarrow> (pydict \<Rightarrow> pydict result) \<Rightarrow> string option \<Rightarrow> config_file \<Rightarrow> config_object \<Rightarrow> unit stored" where
  "config_update lib got w updater expected f c =
     (if \<not> got then (Inl Lock_Timeout, f, c)
      else case load_unlocked lib f c of
        Inl e \<Rightarrow> (Inl (Failure e), f, c)
      | Inr c1 \<Rightarrow>
          (let c2 = c1\<lparr>mem_dirty := None\<rparr> in
           if unexpected expected (mem_revision c2) then (Inl Conflict, f, c2)
           else case updater (mem_data c2) of
             Inl e \<Rightarrow> (Inl (Failure e), f, c2)
           | Inr d \<Rightarrow> save_or_reload lib w f (c2\<lparr>mem_data := d\<rparr>)))"

definition config_replace ::
  "yaml_lib \<Rightarrow> bool \<Rightarrow> write_obs \<Rightarrow> pydict \<Rightarrow> string option \<Rightarrow> config_file \<Rightarrow> config_object \<Rightarrow> unit stored" where
  "config_replace lib got w data expected f c =
     (if \<not> got then (Inl Lock_Timeout, f, c)
      else case load_unlocked lib f c of
        Inl e \<Rightarrow> (Inl (Failure e), f, c)
      | Inr c1 \<Rightarrow>
          (let c2 = c1\<lparr>mem_dirty := None\<rparr> in
           if unexpected expected (mem_revision c2) then (Inl Conflict, f, c2)
           else save_or_reload lib w f (c2\<lparr>mem_data := data\<rparr>)))"

definition base_revision :: "config_object \<Rightarrow> string" where
  "base_revision c = (case mem_dirty c of Some r \<Rightarrow> if r = [] then mem_revision c else r | None \<Rightarrow> mem_revision c)"

definition config_save :: "yaml_lib \<Rightarrow> bool \<Rightarrow> write_obs \<Rightarrow> config_file \<Rightarrow> config_object \<Rightarrow> unit stored" where
  "config_save lib got w f c =
     (if \<not> got then (Inl Lock_Timeout, f, c)
      else if revision_of lib f \<noteq> base_revision c then (Inl Conflict, f, c)
      else save_or_reload lib w f c)"

definition config_reload :: "yaml_lib \<Rightarrow> bool \<Rightarrow> config_file \<Rightarrow> config_object \<Rightarrow> unit stored" where
  "config_reload lib got f c =
     (if \<not> got then (Inl Lock_Timeout, f, c)
      else case load_unlocked lib f c of
        Inl e \<Rightarrow> (Inl (Failure e), f, c)
      | Inr c' \<Rightarrow> (Inr (), f, c'\<lparr>mem_dirty := None\<rparr>))"

text \<open>The value \<open>locked_snapshot\<close> hands to its block, which runs while the lock is held.\<close>

definition locked_snapshot :: "yaml_lib \<Rightarrow> bool \<Rightarrow> config_file \<Rightarrow> config_object \<Rightarrow> pydict stored" where
  "locked_snapshot lib got f c =
     (if \<not> got then (Inl Lock_Timeout, f, c)
      else if mem_dirty c \<noteq> None then (Inl Conflict, f, c)
      else case load_unlocked lib f c of
        Inl e \<Rightarrow> (Inl (Failure e), f, c)
      | Inr c' \<Rightarrow> (Inr (mem_data c'), f, c'))"

section \<open>Several processes\<close>

record shared_store =
  on_disk :: config_file
  objects :: "nat \<Rightarrow> config_object"

text \<open>One operation of one process. A write gives the file the time stamp the file system gives it: nothing is assumed of
  it, two writes may fall into the same tick of its clock.\<close>

inductive store_step :: "yaml_lib \<Rightarrow> nat \<Rightarrow> shared_store \<Rightarrow> shared_store \<Rightarrow> bool" for lib where
  Get: "maybe_reload lib (on_disk s) (objects s p) = Inr c \<Longrightarrow>
     store_step lib p s (s\<lparr>objects := (objects s)(p := c)\<rparr>)"
| Set: "config_set lib (on_disk s) ks v (objects s p) = (r, c) \<Longrightarrow>
     store_step lib p s (s\<lparr>objects := (objects s)(p := c)\<rparr>)"
| Update: "config_update lib got w updater expected (on_disk s) (objects s p) = (r, f, c) \<Longrightarrow>
     store_step lib p s \<lparr>on_disk = f, objects = (objects s)(p := c)\<rparr>"
| Replace: "config_replace lib got w data expected (on_disk s) (objects s p) = (r, f, c) \<Longrightarrow>
     store_step lib p s \<lparr>on_disk = f, objects = (objects s)(p := c)\<rparr>"
| Save: "config_save lib got w (on_disk s) (objects s p) = (r, f, c) \<Longrightarrow>
     store_step lib p s \<lparr>on_disk = f, objects = (objects s)(p := c)\<rparr>"
| Reload: "config_reload lib got (on_disk s) (objects s p) = (r, f, c) \<Longrightarrow>
     store_step lib p s \<lparr>on_disk = f, objects = (objects s)(p := c)\<rparr>"
| Locked: "locked_snapshot lib got (on_disk s) (objects s p) = (r, f, c) \<Longrightarrow>
     store_step lib p s \<lparr>on_disk = f, objects = (objects s)(p := c)\<rparr>"

text \<open>Any number of operations, of those whose effect on the file is admitted.\<close>

inductive store_run_by :: "(config_file \<Rightarrow> config_file \<Rightarrow> bool) \<Rightarrow> yaml_lib \<Rightarrow> shared_store \<Rightarrow> shared_store \<Rightarrow> bool" for P lib where
  Start: "store_run_by P lib s s"
| Next: "store_run_by P lib s t \<Longrightarrow> store_step lib p t u \<Longrightarrow> P (on_disk t) (on_disk u) \<Longrightarrow> store_run_by P lib s u"

abbreviation store_run :: "yaml_lib \<Rightarrow> shared_store \<Rightarrow> shared_store \<Rightarrow> bool" where
  "store_run \<equiv> store_run_by (\<lambda>_ _. True)"

text \<open>A file that changes gets a larger time stamp.\<close>

definition ticks :: "config_file \<Rightarrow> config_file \<Rightarrow> bool" where
  "ticks f f' \<longleftrightarrow> file_bytes f' = file_bytes f \<and> file_time f' = file_time f \<or> file_time f < file_time f'"

end
