(* ===== verification/Config_Store_Theorems.thy ===== *)
theory Config_Store_Theorems
  imports Config_Store
begin

text \<open>
  What the configuration file guarantees to its users: a read shows the file as it is, a change that names the revision it
  was made for is applied to exactly that content, and a write that fails leaves the file alone. The documented
  behaviour of the libraries that is relied on is \<open>lib_ok\<close>.
\<close>

text \<open>SHA-256 without collisions on the contents that occur, its digest is not the word for a missing file, and YAML reads
  back what it has written.\<close>

definition lib_ok :: "yaml_lib \<Rightarrow> bool" where
  "lib_ok lib \<longleftrightarrow> inj (digest lib) \<and> (\<forall>raw. digest lib raw \<notin> {missing_revision, []}) \<and>
     (\<forall>d raw. yaml_dump lib d = Inr raw \<longrightarrow> yaml_load lib raw = Inr (PDict d))"

lemma lib_okD:
  assumes "lib_ok lib"
  shows "digest lib a = digest lib b \<longleftrightarrow> a = b" and "digest lib a \<noteq> missing_revision" and "digest lib a \<noteq> []"
    and "yaml_dump lib d = Inr raw \<Longrightarrow> parse_config lib raw = Inr d"
  using assms by (auto simp: lib_ok_def inj_eq parse_config_def py_or_def)

section \<open>The invariant\<close>

definition file_ok :: "config_file \<Rightarrow> bool" where
  "file_ok f \<longleftrightarrow> 0 \<le> file_time f \<and> (file_bytes f \<noteq> None \<longrightarrow> 0 < file_time f)"

text \<open>What the object holds is named by its revision, and a time stamp that matches the file's stands for its content.\<close>

definition names_content :: "yaml_lib \<Rightarrow> config_object \<Rightarrow> bool" where
  "names_content lib c \<longleftrightarrow>
     mem_revision c = missing_revision \<and> mem_data c = [] \<or>
     (\<exists>raw. mem_revision c = digest lib raw \<and> parse_config lib raw = Inr (mem_data c))"

definition stamp_ok :: "yaml_lib \<Rightarrow> config_file \<Rightarrow> config_object \<Rightarrow> bool" where
  "stamp_ok lib f c \<longleftrightarrow> mem_time c \<le> file_time f \<and>
     (\<forall>raw. file_bytes f = Some raw \<longrightarrow> mem_time c = file_time f \<longrightarrow> mem_revision c = digest lib raw)"

text \<open>The first part is kept only where the time stamps of the file grow, which is what \<open>timed\<close> says.\<close>

definition object_ok :: "bool \<Rightarrow> yaml_lib \<Rightarrow> config_file \<Rightarrow> config_object \<Rightarrow> bool" where
  "object_ok timed lib f c \<longleftrightarrow> (timed \<longrightarrow> stamp_ok lib f c) \<and> (mem_dirty c = None \<longrightarrow> names_content lib c)"

definition store_ok :: "bool \<Rightarrow> yaml_lib \<Rightarrow> shared_store \<Rightarrow> bool" where
  "store_ok timed lib s \<longleftrightarrow> (timed \<longrightarrow> file_ok (on_disk s)) \<and> (\<forall>p. object_ok timed lib (on_disk s) (objects s p))"

lemma load_names:
  assumes "load_unlocked lib f c = Inr c'"
  shows "names_content lib c' \<and> mem_dirty c' = mem_dirty c \<and> mem_revision c' = revision_of lib f \<and>
    (case file_bytes f of None \<Rightarrow> mem_data c' = [] | Some raw \<Rightarrow> parse_config lib raw = Inr (mem_data c'))"
  using assms by (auto simp: load_unlocked_def names_content_def revision_of_def split: option.splits)

lemma load_stamps: "load_unlocked lib f c = Inr c' \<Longrightarrow> file_ok f \<Longrightarrow> stamp_ok lib f c'"
  by (auto simp: load_unlocked_def stamp_ok_def file_ok_def split: option.splits)

lemma maybe_reload_ok:
  assumes "maybe_reload lib f c = Inr c'" and "timed \<longrightarrow> file_ok f" and "object_ok timed lib f c"
  shows "object_ok timed lib f c' \<and> mem_dirty c' = mem_dirty c"
  using assms load_names [of lib f c c'] load_stamps [of lib f c c']
  by (auto simp: maybe_reload_def object_ok_def split: if_splits option.splits)

lemma read_is_named:
  assumes "maybe_reload lib f c = Inr c'" and "object_ok False lib f c" and "mem_dirty c = None"
  shows "names_content lib c'"
  using maybe_reload_ok [OF assms(1) _ assms(2)] assms(3) by (simp add: object_ok_def)

lemma read_is_the_file:
  assumes "lib_ok lib" and "maybe_reload lib f c = Inr c'" and "object_ok True lib f c" and "mem_dirty c = None"
  shows "mem_revision c' = revision_of lib f \<and>
    (case file_bytes f of None \<Rightarrow> mem_data c' = [] | Some raw \<Rightarrow> parse_config lib raw = Inr (mem_data c'))"
proof (cases "load_unlocked lib f c = Inr c'")
  case True
  from load_names [OF this] show ?thesis by simp
next
  case False
  then have same: "c' = c" and kept: "case file_bytes f of None \<Rightarrow> mem_revision c = missing_revision | Some raw \<Rightarrow> mem_time c = file_time f"
    using assms(2,4) by (auto simp: maybe_reload_def split: if_splits option.splits)
  have named: "names_content lib c" and stamp: "stamp_ok lib f c" using assms(3,4) by (simp_all add: object_ok_def)
  show ?thesis
  proof (cases "file_bytes f")
    case None
    then show ?thesis using kept named lib_okD(2) [OF assms(1)] same by (auto simp: names_content_def revision_of_def) metis
  next
    case (Some raw)
    then have "mem_revision c = digest lib raw" using kept stamp by (simp add: stamp_ok_def)
    then show ?thesis
      using named lib_okD(1,2) [OF assms(1)] same Some by (auto simp: names_content_def revision_of_def)
  qed
qed

lemma config_set_ok:
  assumes "config_set lib f ks v c = (r, c')" and "timed \<longrightarrow> file_ok f" and "object_ok timed lib f c"
  shows "object_ok timed lib f c'"
proof -
  have "object_ok timed lib f c1" if "maybe_reload lib f c = Inr c1" for c1 using maybe_reload_ok [OF that assms(2,3)] by simp
  then show ?thesis using assms(1,3)
    by (auto simp: config_set_def object_ok_def stamp_ok_def Let_def split: if_splits sum.splits)
qed

section \<open>Writing\<close>

text \<open>A write that succeeds stores the data of the object; one that fails leaves bytes and time stamp alone.\<close>

lemma save_unlocked_cases:
  assumes "save_unlocked lib w f c = (e, f', c')"
  obtains (fault) err where "e = Some err" "file_bytes f' = file_bytes f" "file_time f' = file_time f" "c' = c"
  | (saved) raw where "e = None" "yaml_dump lib (mem_data c) = Inr raw" "file_bytes f' = Some raw" "file_time f' = wr_time w"
      "c' = c\<lparr>mem_revision := digest lib raw, mem_time := (if wr_stat w then wr_time w else 0)\<rparr>"
      "file_backup f' = (if file_bytes f \<in> {None, Some raw} then file_backup f else file_bytes f)"
  using assms by (auto simp: save_unlocked_def keep_previous_def replaces_previous_def split: sum.splits option.splits
      write_fault.splits bool.splits if_splits)

lemma same_file_ok:
  assumes "file_bytes f' = file_bytes f" and "file_time f' = file_time f"
  shows "file_ok f' = file_ok f" and "object_ok timed lib f' c = object_ok timed lib f c" and "revision_of lib f' = revision_of lib f"
    and "load_unlocked lib f' c = load_unlocked lib f c"
  using assms by (simp_all add: file_ok_def object_ok_def stamp_ok_def revision_of_def load_unlocked_def cong: option.case_cong)

lemma ticked_ok:
  assumes "timed \<longrightarrow> ticks f f'" and "object_ok timed lib f c"
  shows "object_ok timed lib f' c"
proof (cases "file_bytes f' = file_bytes f \<and> file_time f' = file_time f")
  case True
  then show ?thesis using same_file_ok(2) [of f' f] assms(2) by simp
next
  case False
  then have "timed \<longrightarrow> file_time f < file_time f'" using assms(1) by (auto simp: ticks_def)
  then show ?thesis using assms(2) by (auto simp: object_ok_def stamp_ok_def)
qed

lemma load_any: "load_unlocked lib f c = Inl e \<Longrightarrow> load_unlocked lib f d = Inl e"
  by (auto simp: load_unlocked_def bind_result_Inl split: option.splits)

lemma loaded_ok:
  assumes "load_unlocked lib f c = Inr c'" and "timed \<longrightarrow> file_ok f"
  shows "object_ok timed lib f (c'\<lparr>mem_dirty := None\<rparr>)"
    and "\<exists>c0. load_unlocked lib f (c'\<lparr>mem_dirty := d, mem_data := m\<rparr>) = Inr c0"
proof -
  show "object_ok timed lib f (c'\<lparr>mem_dirty := None\<rparr>)"
    using load_names [OF assms(1)] load_stamps [OF assms(1)] assms(2) by (auto simp: object_ok_def stamp_ok_def names_content_def)
  show "\<exists>c0. load_unlocked lib f (c'\<lparr>mem_dirty := d, mem_data := m\<rparr>) = Inr c0"
    using load_any [of lib f "c'\<lparr>mem_dirty := d, mem_data := m\<rparr>" _ c] assms(1)
    by (cases "load_unlocked lib f (c'\<lparr>mem_dirty := d, mem_data := m\<rparr>)") auto
qed

text \<open>What an operation leaves: a good file, provided its time stamp grows, and a good object.\<close>

definition left_ok :: "bool \<Rightarrow> yaml_lib \<Rightarrow> config_file \<Rightarrow> config_file \<Rightarrow> config_object \<Rightarrow> bool" where
  "left_ok timed lib f f' c' \<longleftrightarrow> (timed \<longrightarrow> ticks f f') \<longrightarrow> (timed \<longrightarrow> file_ok f') \<and> object_ok timed lib f' c'"

lemma left_alone: "(timed \<longrightarrow> file_ok f) \<Longrightarrow> object_ok timed lib f c \<Longrightarrow> left_ok timed lib f f c"
  by (simp add: left_ok_def)

lemma save_or_reload_ok:
  assumes "save_or_reload lib w f c = (r, f', c')" and "lib_ok lib" and "timed \<longrightarrow> file_ok f"
    and "object_ok timed lib f c \<or> load_unlocked lib f c = Inr c0"
  shows "left_ok timed lib f f' c'"
proof -
  obtain e f1 c1 where save: "save_unlocked lib w f c = (e, f1, c1)" using prod_cases3 by blast
  then show ?thesis
  proof (cases rule: save_unlocked_cases)
    case (fault err)
    have f': "f' = f1" using assms(1) save fault(1) by (auto simp: save_or_reload_def split: sum.splits)
    have same: "load_unlocked lib f1 c = load_unlocked lib f c" using same_file_ok(4) fault(2,3) .
    have "object_ok timed lib f c'"
    proof (cases "load_unlocked lib f c")
      case (Inl e')
      then show ?thesis using assms(1,4) save fault(1,4) same by (auto simp: save_or_reload_def)
    next
      case (Inr c2)
      then have "c' = c2\<lparr>mem_dirty := None\<rparr>" using assms(1) save fault(1,4) same by (auto simp: save_or_reload_def)
      then show ?thesis using loaded_ok(1) [OF Inr assms(3)] by simp
    qed
    then show ?thesis using same_file_ok(1,2) [OF fault(2,3)] assms(3) f' by (simp add: left_ok_def)
  next
    case (saved raw)
    have "f' = f1" "c' = c1\<lparr>mem_dirty := None\<rparr>" using assms(1) save saved(1) by (simp_all add: save_or_reload_def)
    moreover have "file_ok f1" if "ticks f f1" "file_ok f"
      using that saved(3) by (auto simp: ticks_def file_ok_def)
    ultimately show ?thesis using saved lib_okD(4) [OF assms(2) saved(2)] assms(3)
      by (auto simp: left_ok_def object_ok_def stamp_ok_def names_content_def file_ok_def)
  qed
qed

lemma config_update_ok:
  assumes "config_update lib got w updater expected f c = (r, f', c')" and "lib_ok lib" and "timed \<longrightarrow> file_ok f"
    and "object_ok timed lib f c"
  shows "left_ok timed lib f f' c'"
proof (cases "got \<and> (\<exists>c1. load_unlocked lib f c = Inr c1)")
  case False
  then show ?thesis using assms(1) left_alone [OF assms(3,4)] by (auto simp: config_update_def split: if_splits sum.splits)
next
  case True
  then obtain c1 where c1: "load_unlocked lib f c = Inr c1" and got by blast
  note loaded = loaded_ok [OF c1 assms(3)]
  have keep: "(f', c') = (f, c1\<lparr>mem_dirty := None\<rparr>) \<Longrightarrow> ?thesis" using left_alone [OF assms(3) loaded(1)] by simp
  have save: "save_or_reload lib w f (c1\<lparr>mem_dirty := None, mem_data := d\<rparr>) = (r, f', c') \<Longrightarrow> ?thesis" for d
    using save_or_reload_ok [OF _ assms(2,3)] loaded(2) [where d = None and m = d] by blast
  show ?thesis using assms(1) \<open>got\<close> c1 keep save
    by (auto simp: config_update_def Let_def split: if_splits sum.splits)
qed

text \<open>\<open>replace\<close> is \<open>update\<close> with an updater that ignores what it is given.\<close>

lemma replace_is_update: "config_replace lib got w data expected = config_update lib got w (\<lambda>_. Inr data) expected"
  by (intro ext) (simp add: config_replace_def config_update_def Let_def split: sum.split)

lemma config_save_ok:
  assumes "config_save lib got w f c = (r, f', c')" and "lib_ok lib" and "timed \<longrightarrow> file_ok f" and "object_ok timed lib f c"
  shows "left_ok timed lib f f' c'"
  using assms(1,4) save_or_reload_ok [OF _ assms(2,3)] left_alone [OF assms(3,4)]
  by (auto simp: config_save_def split: if_splits)

lemma config_reload_ok:
  assumes "config_reload lib got f c = (r, f', c')" and "timed \<longrightarrow> file_ok f" and "object_ok timed lib f c"
  shows "left_ok timed lib f f' c'"
  using assms loaded_ok(1) [of lib f c _ timed] left_alone [of timed f lib]
  by (auto simp: config_reload_def split: if_splits sum.splits)

lemma locked_snapshot_ok:
  assumes "locked_snapshot lib got f c = (r, f', c')" and "timed \<longrightarrow> file_ok f" and "object_ok timed lib f c"
  shows "left_ok timed lib f f' c'"
proof -
  have "object_ok timed lib f c1" if "load_unlocked lib f c = Inr c1" for c1
    using load_names [OF that] load_stamps [OF that] assms(2) by (simp add: object_ok_def)
  then show ?thesis using assms left_alone [of timed f lib]
    by (auto simp: locked_snapshot_def split: if_splits sum.splits)
qed

lemma store_step_ok:
  assumes "store_step lib p s t" and "lib_ok lib" and "store_ok timed lib s" and "timed \<longrightarrow> ticks (on_disk s) (on_disk t)"
  shows "store_ok timed lib t"
proof -
  have f: "timed \<longrightarrow> file_ok (on_disk s)" and every: "\<And>q. object_ok timed lib (on_disk s) (objects s q)"
    using assms(3) by (simp_all add: store_ok_def)
  have stored: "store_ok timed lib t"
    if "t = \<lparr>on_disk = f', objects = (objects s)(p := c')\<rparr>" "left_ok timed lib (on_disk s) f' c'" for f' c'
    using that assms(4) ticked_ok [of timed "on_disk s" f' lib] every by (simp add: store_ok_def left_ok_def)
  from assms(1) show ?thesis
  proof cases
    case (Get c) then show ?thesis using maybe_reload_ok [OF _ f every] f every by (auto simp: store_ok_def)
  next
    case (Set ks v r c) then show ?thesis using config_set_ok [OF _ f every] f every by (auto simp: store_ok_def)
  next
    case (Update got w updater expected r f' c) then show ?thesis using stored config_update_ok [OF _ assms(2) f every] by blast
  next
    case (Replace got w data expected r f' c)
    then show ?thesis using stored config_update_ok [OF _ assms(2) f every] unfolding replace_is_update by blast
  next
    case (Save got w r f' c) then show ?thesis using stored config_save_ok [OF _ assms(2) f every] by blast
  next
    case (Reload got r f' c) then show ?thesis using stored config_reload_ok [OF _ f every] by blast
  next
    case (Locked got r f' c) then show ?thesis using stored locked_snapshot_ok [OF _ f every] by blast
  qed
qed

lemma store_run_ok: "store_run lib s t \<Longrightarrow> lib_ok lib \<Longrightarrow> store_ok False lib s \<Longrightarrow> store_ok False lib t"
  by (induction rule: store_run_by.induct) (auto intro: store_step_ok)

lemma ticking_run_ok: "store_run_by ticks lib s t \<Longrightarrow> lib_ok lib \<Longrightarrow> store_ok True lib s \<Longrightarrow> store_ok True lib t"
  by (induction rule: store_run_by.induct) (auto intro: store_step_ok)

text \<open>Fresh objects of every process.\<close>

definition fresh_store :: "yaml_lib \<Rightarrow> shared_store \<Rightarrow> bool" where
  "fresh_store lib s \<longleftrightarrow> file_ok (on_disk s) \<and> (\<forall>p. new_config lib (on_disk s) = Inr (objects s p))"

lemma fresh_store_ok: "fresh_store lib s \<Longrightarrow> store_ok timed lib s"
  unfolding fresh_store_def store_ok_def new_config_def using load_names load_stamps by (fastforce simp: object_ok_def)

section \<open>Reading\<close>

text \<open>What was read belongs to its revision, also when the file has changed in between.\<close>

lemma snapshot_is_named:
  assumes "store_ok False lib t" and "mem_dirty (objects t p) = None"
    and "snapshot_with_revision lib (on_disk t) (objects t p) = Inr ((d, r), c)"
  shows "r = missing_revision \<and> d = [] \<or> (\<exists>raw. r = digest lib raw \<and> parse_config lib raw = Inr d)"
proof -
  have "maybe_reload lib (on_disk t) (objects t p) = Inr c" "d = mem_data c" "r = mem_revision c"
    using assms(3) by (auto simp: snapshot_with_revision_def)
  then show ?thesis using read_is_named [of lib _ _ c] assms(1,2) by (auto simp: store_ok_def names_content_def)
qed

text \<open>C22: Whatever several processes have read, changed, saved or failed to save, an object without local changes reads the
  file as it is now, with the revision of its bytes. Condition: the time stamp of the file grows with every change.
  An object only looks at the time stamp, so without this it may read what the file held before; see
  \<open>same_tick_hides_a_change\<close>.\<close>

theorem a_read_shows_the_file:
  assumes "lib_ok lib" and "fresh_store lib s" and "store_run_by ticks lib s t" and "mem_dirty (objects t p) = None"
    and "snapshot_with_revision lib (on_disk t) (objects t p) = Inr ((d, r), c)"
  shows "r = revision_of lib (on_disk t) \<and>
    (case file_bytes (on_disk t) of None \<Rightarrow> d = [] | Some raw \<Rightarrow> parse_config lib raw = Inr d)"
proof -
  have "store_ok True lib t" by (rule ticking_run_ok [OF assms(3,1) fresh_store_ok [OF assms(2)]])
  then have "object_ok True lib (on_disk t) (objects t p)" by (simp add: store_ok_def)
  moreover have "maybe_reload lib (on_disk t) (objects t p) = Inr c" "d = mem_data c" "r = mem_revision c"
    using assms(5) by (auto simp: snapshot_with_revision_def)
  ultimately show ?thesis using read_is_the_file [OF assms(1)] assms(4) by blast
qed

section \<open>Changing\<close>

lemma update_parts:
  assumes "config_update lib got w updater expected f c = (Inr (), f', c')"
  obtains c1 d raw where "load_unlocked lib f c = Inr c1" and "\<not> unexpected expected (mem_revision c1)"
    and "updater (mem_data c1) = Inr d" and "yaml_dump lib d = Inr raw" and "file_bytes f' = Some raw"
    and "file_backup f' = (if file_bytes f \<in> {None, Some raw} then file_backup f else file_bytes f)"
proof -
  obtain c1 d where c1: "load_unlocked lib f c = Inr c1" "\<not> unexpected expected (mem_revision c1)" "updater (mem_data c1) = Inr d"
    and save: "save_or_reload lib w f (c1\<lparr>mem_dirty := None, mem_data := d\<rparr>) = (Inr (), f', c')"
    using assms by (auto simp: config_update_def Let_def split: if_splits sum.splits)
  obtain e f1 c2 where s: "save_unlocked lib w f (c1\<lparr>mem_dirty := None, mem_data := d\<rparr>) = (e, f1, c2)" using prod_cases3 by blast
  then show ?thesis
  proof (cases rule: save_unlocked_cases)
    case (fault err)
    then show ?thesis using save s by (auto simp: save_or_reload_def split: sum.splits)
  next
    case (saved raw)
    then have "f' = f1" using save s by (simp add: save_or_reload_def)
    then show ?thesis using that [OF c1, of raw] saved(2,3,6) by simp
  qed
qed

text \<open>C21: A change that names the revision it was made for is applied to exactly what was read with this revision: whatever other
  processes did in between, and whatever time stamps their writes got, nobody's change is lost. The replaced version
  stays as backup.\<close>

theorem change_applies_to_what_was_read:
  assumes "lib_ok lib" and "fresh_store lib s" and "store_run lib s t" and "mem_dirty (objects t p) = None"
    and "snapshot_with_revision lib (on_disk t) (objects t p) = Inr ((d, r), c)" and "store_run lib t u"
    and "config_update lib got w updater (Some r) (on_disk u) (objects u q) = (Inr (), f, c')"
  shows "revision_of lib (on_disk u) = r \<and>
    (case file_bytes (on_disk u) of None \<Rightarrow> d = [] | Some old \<Rightarrow> parse_config lib old = Inr d) \<and>
    (\<exists>d' raw. updater d = Inr d' \<and> yaml_dump lib d' = Inr raw \<and> file_bytes f = Some raw \<and>
      (case file_bytes (on_disk u) of None \<Rightarrow> True | Some old \<Rightarrow> old = raw \<or> file_backup f = Some old))"
proof -
  have ok: "store_ok False lib t" by (rule store_run_ok [OF assms(3,1) fresh_store_ok [OF assms(2)]])
  note read = snapshot_is_named [OF ok assms(4,5)]
  obtain c1 d' raw where c1: "load_unlocked lib (on_disk u) (objects u q) = Inr c1" "\<not> unexpected (Some r) (mem_revision c1)"
      "updater (mem_data c1) = Inr d'" "yaml_dump lib d' = Inr raw" "file_bytes f = Some raw"
      "file_backup f = (if file_bytes (on_disk u) \<in> {None, Some raw} then file_backup (on_disk u) else file_bytes (on_disk u))"
    using update_parts [OF assms(7)] .
  note loaded = load_names [OF c1(1)]
  have "r \<noteq> []" using read lib_okD(3) [OF assms(1)] by (metis list.distinct(1) missing_revision_def)
  then have rev: "revision_of lib (on_disk u) = r" using c1(2) loaded by (simp add: unexpected_def)
  have data: "case file_bytes (on_disk u) of None \<Rightarrow> d = [] | Some old \<Rightarrow> parse_config lib old = Inr d"
  proof (cases "file_bytes (on_disk u)")
    case None
    then have "r = missing_revision" using rev by (simp add: revision_of_def)
    then show ?thesis using read lib_okD(2) [OF assms(1)] None by (metis option.case(1))
  next
    case (Some old)
    then have "r = digest lib old" using rev by (simp add: revision_of_def)
    then show ?thesis using read lib_okD(1,2) [OF assms(1)] Some by auto
  qed
  then have "mem_data c1 = d" using loaded by (auto split: option.splits)
  then show ?thesis using c1 rev data by (auto split: option.splits if_splits)
qed

lemma failed_save_keeps:
  assumes "save_or_reload lib w f c = (Inl e, f', c')" and "load_unlocked lib f c = Inr c0"
  shows "file_bytes f' = file_bytes f \<and> file_time f' = file_time f \<and> c' = c0\<lparr>mem_dirty := None\<rparr>"
proof -
  obtain x f1 c1 where s: "save_unlocked lib w f c = (x, f1, c1)" using prod_cases3 by blast
  then show ?thesis
  proof (cases rule: save_unlocked_cases)
    case (fault err)
    then show ?thesis using assms s same_file_ok(4) [of f1 f lib c] by (simp add: save_or_reload_def)
  next
    case (saved raw)
    then show ?thesis using assms(1) s by (simp add: save_or_reload_def)
  qed
qed

lemma load_twice: "load_unlocked lib f c = Inr c1 \<Longrightarrow> load_unlocked lib f (c1\<lparr>mem_dirty := x, mem_data := m\<rparr>) = Inr (c1\<lparr>mem_dirty := x\<rparr>)"
  by (auto simp: load_unlocked_def split: option.splits)

text \<open>C23: A change that fails, by a conflict, in the updater, in PyYAML or while writing, leaves the bytes of the file and its time
  stamp alone, and the object shows the file again.\<close>

theorem failed_change_leaves_the_file:
  assumes "config_update lib got w updater expected f c = (Inl e, f', c')"
  shows "file_bytes f' = file_bytes f \<and> file_time f' = file_time f \<and>
    (case load_unlocked lib f c of
       Inl _ \<Rightarrow> c' = c
     | Inr c1 \<Rightarrow> c' = (if got then c1\<lparr>mem_dirty := None\<rparr> else c))"
proof (cases "got \<and> (\<exists>c1. load_unlocked lib f c = Inr c1)")
  case False
  then show ?thesis using assms by (cases "load_unlocked lib f c") (auto simp: config_update_def split: if_splits)
next
  case True
  then obtain c1 where c1: "load_unlocked lib f c = Inr c1" and got by blast
  have "save_or_reload lib w f (c1\<lparr>mem_dirty := None, mem_data := d\<rparr>) = (Inl e, f', c') \<Longrightarrow>
      file_bytes f' = file_bytes f \<and> file_time f' = file_time f \<and> c' = c1\<lparr>mem_dirty := None\<rparr>" for d
    using failed_save_keeps [OF _ load_twice [OF c1]] by fastforce
  then show ?thesis using assms \<open>got\<close> c1 by (auto simp: config_update_def Let_def split: if_splits sum.splits)
qed

section \<open>A local change that fails\<close>

text \<open>\<open>set\<close> notes the base revision before it follows the path. When the path meets a value that is no mapping, the object
  stays marked as changed: it never reads the file again, and refuses a locked snapshot, although nothing was changed.\<close>

lemma failed_set_blinds_the_object:
  assumes "config_set lib f ks v c = (Inl e, c')" and "ks \<noteq> []" and "maybe_reload lib f c = Inr c0"
  shows "mem_data c' = mem_data c0 \<and> (\<forall>g. maybe_reload lib g c' = Inr c') \<and> (\<forall>g. fst (locked_snapshot lib True g c') = Inl Conflict)"
  using assms by (auto simp: config_set_def maybe_reload_def [of lib _ c'] locked_snapshot_def Let_def split: sum.splits if_splits)

section \<open>Witnesses\<close>

definition demo_yaml :: yaml_lib where
  "demo_yaml = \<lparr>yaml_load = (\<lambda>s. if s = ''{}'' then Inr (PDict []) else if s = ''a: 1'' then Inr (PDict [(''a'', PInt 1)]) else Inl (ValueError s)),
     yaml_dump = (\<lambda>d. if d = [] then Inr ''{}'' else if d = [(''a'', PInt 1)] then Inr ''a: 1'' else Inl TypeError),
     digest = (\<lambda>s. ''r'' @ s)\<rparr>"

definition demo_disk :: config_file where
  "demo_disk = \<lparr>file_bytes = Some ''{}'', file_time = 5, file_backup = None\<rparr>"

definition demo_object :: config_object where
  "demo_object = \<lparr>mem_data = [], mem_time = 5, mem_revision = ''r{}'', mem_dirty = None\<rparr>"

definition demo_store :: shared_store where
  "demo_store = \<lparr>on_disk = demo_disk, objects = (\<lambda>_. demo_object)\<rparr>"

definition demo_write :: write_obs where
  "demo_write = \<lparr>wr_fault = None, wr_time = 6, wr_stat = True\<rparr>"

lemma demo_yaml_ok: "lib_ok demo_yaml"
  by (auto simp: lib_ok_def demo_yaml_def inj_def missing_revision_def split: if_splits)

lemma demo_store_fresh: "fresh_store demo_yaml demo_store"
  by (simp add: fresh_store_def demo_store_def demo_disk_def demo_object_def file_ok_def new_config_def load_unlocked_def
      parse_config_def demo_yaml_def py_or_def)

lemma demo_read: "snapshot_with_revision demo_yaml (on_disk demo_store) (objects demo_store p) = Inr (([], ''r{}''), demo_object)"
  and demo_clean: "mem_dirty (objects demo_store p) = None"
  by (simp_all add: snapshot_with_revision_def maybe_reload_def demo_store_def demo_disk_def demo_object_def)

lemma demo_change:
  "config_update demo_yaml True demo_write (\<lambda>d. Inr (py_set d ''a'' (PInt 1))) (Some ''r{}'') demo_disk demo_object =
     (Inr (), \<lparr>file_bytes = Some ''a: 1'', file_time = 6, file_backup = Some ''{}''\<rparr>,
      \<lparr>mem_data = [(''a'', PInt 1)], mem_time = 6, mem_revision = ''ra: 1'', mem_dirty = None\<rparr>)"
  by (simp add: config_update_def load_unlocked_def parse_config_def demo_yaml_def demo_disk_def demo_object_def demo_write_def
      py_or_def unexpected_def save_or_reload_def save_unlocked_def keep_previous_def replaces_previous_def)

text \<open>Process 1 changes the file, process 0 reads it. In the second store the change falls into the tick of the clock in which
  the file was read, and process 0 reads what the file held before.\<close>

definition demo_changed :: "int \<Rightarrow> shared_store" where
  "demo_changed now = \<lparr>on_disk = \<lparr>file_bytes = Some ''a: 1'', file_time = now, file_backup = Some ''{}''\<rparr>,
     objects = (\<lambda>_. demo_object)(1 := \<lparr>mem_data = [(''a'', PInt 1)], mem_time = now, mem_revision = ''ra: 1'', mem_dirty = None\<rparr>)\<rparr>"

lemma demo_changes: "store_step demo_yaml 1 demo_store (demo_changed now)"
proof -
  have "config_update demo_yaml True (demo_write\<lparr>wr_time := now\<rparr>) (\<lambda>d. Inr (py_set d ''a'' (PInt 1))) (Some ''r{}'')
      (on_disk demo_store) (objects demo_store 1) =
     (Inr (), \<lparr>file_bytes = Some ''a: 1'', file_time = now, file_backup = Some ''{}''\<rparr>,
      \<lparr>mem_data = [(''a'', PInt 1)], mem_time = now, mem_revision = ''ra: 1'', mem_dirty = None\<rparr>)"
    by (simp add: demo_store_def config_update_def load_unlocked_def parse_config_def demo_yaml_def demo_disk_def demo_object_def demo_write_def
        py_or_def unexpected_def save_or_reload_def save_unlocked_def keep_previous_def replaces_previous_def)
  from store_step.Update [OF this] show ?thesis by (simp add: demo_changed_def demo_store_def)
qed

lemma a_read_shows_the_file_witness:
  "\<exists>c. snapshot_with_revision demo_yaml (on_disk (demo_changed 6)) (objects (demo_changed 6) 0) = Inr (([(''a'', PInt 1)], ''ra: 1''), c) \<and>
     ''ra: 1'' = revision_of demo_yaml (on_disk (demo_changed 6))"
proof -
  have "ticks (on_disk demo_store) (on_disk (demo_changed 6))" by (simp add: ticks_def demo_store_def demo_disk_def demo_changed_def)
  then have run: "store_run_by ticks demo_yaml demo_store (demo_changed 6)"
    by (rule store_run_by.Next [OF store_run_by.Start demo_changes])
  have clean: "mem_dirty (objects (demo_changed 6) 0) = None" by (simp add: demo_changed_def demo_object_def)
  obtain c where read: "snapshot_with_revision demo_yaml (on_disk (demo_changed 6)) (objects (demo_changed 6) 0) =
      Inr (([(''a'', PInt 1)], ''ra: 1''), c)"
    by (simp add: snapshot_with_revision_def maybe_reload_def demo_changed_def demo_object_def load_unlocked_def parse_config_def
        demo_yaml_def py_or_def)
  from a_read_shows_the_file [OF demo_yaml_ok demo_store_fresh run clean read] read show ?thesis by blast
qed

lemma same_tick_hides_a_change:
  "store_run demo_yaml demo_store (demo_changed 5) \<and> file_bytes (on_disk (demo_changed 5)) = Some ''a: 1'' \<and>
   mem_dirty (objects (demo_changed 5) 0) = None \<and>
   (\<exists>c. snapshot_with_revision demo_yaml (on_disk (demo_changed 5)) (objects (demo_changed 5) 0) = Inr (([], ''r{}''), c))"
  using store_run_by.Next [OF store_run_by.Start demo_changes, of "\<lambda>_ _. True"]
  by (simp add: snapshot_with_revision_def maybe_reload_def demo_changed_def demo_object_def)

lemma change_applies_to_what_was_read_witness:
  "\<exists>f c d' raw. config_update demo_yaml True demo_write (\<lambda>d. Inr (py_set d ''a'' (PInt 1))) (Some ''r{}'') demo_disk demo_object = (Inr (), f, c) \<and>
     Inr (py_set [] ''a'' (PInt 1)) = (Inr d' :: pydict result) \<and> yaml_dump demo_yaml d' = Inr raw \<and> file_bytes f = Some raw"
proof -
  obtain f c where u: "config_update demo_yaml True demo_write (\<lambda>d. Inr (py_set d ''a'' (PInt 1))) (Some ''r{}'') demo_disk demo_object = (Inr (), f, c)"
    using demo_change by blast
  then have "config_update demo_yaml True demo_write (\<lambda>d. Inr (py_set d ''a'' (PInt 1))) (Some ''r{}'') (on_disk demo_store) (objects demo_store 1) = (Inr (), f, c)"
    by (simp add: demo_store_def)
  from change_applies_to_what_was_read [OF demo_yaml_ok demo_store_fresh store_run_by.Start demo_clean demo_read store_run_by.Start this] u
  show ?thesis by blast
qed

lemma failed_change_leaves_the_file_witness:
  "\<exists>e f c. config_update demo_yaml True demo_write (\<lambda>d. Inr d) (Some ''other'') demo_disk demo_object = (Inl e, f, c) \<and>
     file_bytes f = file_bytes demo_disk"
proof -
  have "fst (config_update demo_yaml True demo_write (\<lambda>d. Inr d) (Some ''other'') demo_disk demo_object) = Inl Conflict"
    by (simp add: config_update_def load_unlocked_def parse_config_def demo_yaml_def demo_disk_def demo_object_def py_or_def unexpected_def)
  then obtain f c where u: "config_update demo_yaml True demo_write (\<lambda>d. Inr d) (Some ''other'') demo_disk demo_object = (Inl Conflict, f, c)"
    by (metis prod.collapse)
  from failed_change_leaves_the_file [OF u] u show ?thesis by blast
qed

end
