(* ===== verification/Spec2Isabelle.thy ===== *)
theory Spec2Isabelle
  imports Job_Theorems Record_Theorems Auth_Failures Push_Outbox Webauthn_Store Restore_Sampling Rclone_Args
    Baseline Due_Theorems Overdue_Theorems Protection_Score Config_Demo Delete_Limit Run_Theorems Endpoint_Theorems
    Quick_Demo Config_Store_Theorems
begin

text \<open>
  A model of the core of the backup service (\<open>src/app\<close>): the store of jobs and its neighbours in
  \<open>db.py\<close>, the decisions of the scheduler, the guards around destructive runs, and the checks on what
  reaches the rclone command line.

  \<^bold>\<open>The program.\<close> A web application and a scheduler process share one SQLite database. The scheduler asks at
  every tick which job definitions are due (\<open>jobs/scheduler.py\<close>), starts a job in the store
  (\<open>Database.job_start\<close>), runs rclone or the PBS client, and records the outcome (\<open>job_finish\<close>, or
  \<open>job_finish_external\<close> where the connection may be lost). What the store remembers of a definition and of a
  data path is what the next tick decides on. The guard (\<open>protection.py\<close>) may refuse a run before it
  starts; the overdue alarm (\<open>overdue.py\<close>) tells when nothing has run.

  \<^bold>\<open>Conventions.\<close> Python values are the datatype \<open>pyval\<close> (theory \<open>Py_Value\<close>), dictionaries are association
  lists in insertion order, text is ASCII, finite floats are real numbers without rounding, and a raised
  exception is \<open>Inl e\<close>. A database operation is one transaction: it takes the state and the clock reading
  \<open>now\<close> and returns the new state; an error leaves the state as it was. Tables are lists of rows in
  rowid order (\<open>Sql_Table\<close>). The cron library, time zone data, hashes, random values, path resolution and runs of
  external programs are parameters; what is relied on of them is a named definition (\<open>calendar_ok\<close>,
  \<open>calendar_total\<close>, \<open>no_fold\<close>, \<open>finite_errors\<close>, \<open>blank_free\<close>), with an instance in the
  witnesses.

  \<^bold>\<open>Shared.\<close> \<open>Py_Value\<close> and \<open>Py_Sequence\<close>: values, text, numbers, iteration, \<open>utils.py\<close>. \<open>Py_Rounding\<close>: \<open>round\<close> and
  number formats. \<open>Sql_Table\<close>: statements on tables and the locale \<open>final_rows\<close> (a result once written is
  the only one ever read), interpreted by the job store, the batch items and the outbox. \<open>Json_Bounded\<close>: the size
  limit of JSON columns.

  \<^bold>\<open>Job store (\<open>db.py\<close>).\<close> \<open>Jobs_Schema\<close> holds the rows, \<open>Job_Store\<close> the operations on jobs, \<open>Terminal_Intents\<close> the
  two-phase recording of an outcome, \<open>Job_Batches\<close> the batches, \<open>Pair_History\<close> and \<open>Schedule_State\<close> the two memories
  that outlive the jobs, \<open>History_Reads\<close> the projections the pages and the scheduler read, \<open>Baseline\<close> the
  verdict on an initial resync. \<open>Job_Invariants\<close> and \<open>Job_Machine\<close> define the store invariant \<open>store_wf\<close> and the
  step relation of all committed transactions, and prove that each keeps it. \<open>job_step_by\<close> takes the starts that are
  admitted as a parameter: \<open>job_step\<close> admits all of them, as \<open>job_start\<close> does by default, and what is said of
  exclusive scopes admits starts without \<open>exclusive_scope\<close> outside the scope only. Foreign keys that point
  to a missing job are an \<open>IntegrityError\<close>. \<open>Job_Properties\<close>, \<open>Batch_Properties\<close>, \<open>Job_Theorems\<close> and
  \<open>Record_Theorems\<close> state what follows: an exclusive start owns its scope, outcomes are final, attempts end with their
  job, interrupted outcomes are recovered, the memories do not depend on the order of recording.

  \<^bold>\<open>Scheduler.\<close> \<open>Job_Definitions\<close> is \<open>job_definitions.py\<close>. \<open>Due_Evaluation\<close> is \<open>_evaluate_due\<close> with its back-off, local
  slots and repeated local minutes; the loop over repeated minutes runs at most three times, as in the
  code, which is enough under \<open>calendar_ok\<close>. \<open>Due_Jobs\<close> holds \<open>find_due_jobs\<close>, \<open>find_due_pbs_targets\<close> and
  \<open>restore_test_due\<close>. \<open>Due_Theorems\<close>: a slot is not run twice, a failure waits and is then retried, a
  success waits for the next occurrence (together with \<open>job_finish\<close>), and an error in one definition is
  contained.

  \<^bold>\<open>Configuration.\<close> \<open>validate_config\<close> of \<open>config_validation.py\<close>, section by section. A section is a list of
  fields, each a key and a function of the dictionary as rewritten so far that keeps, puts or drops the key and
  reports issues (\<open>Config_Fields\<close>); the order of the fields is the order of the statements. \<open>Config_Basics\<close>
  holds the shared helpers and the issues, \<open>Config_Web\<close> (with the paths section), \<open>Config_Backup\<close>, \<open>Config_Pairs\<close>,
  \<open>Config_Jobs\<close> and \<open>Config_Services\<close> (notifications, maintenance, PBS) the sections, \<open>Config_Validation\<close>
  their composition. A message is a place and a complaint instead of German text. The record \<open>config_env\<close> carries
  what libraries answer: cron expressions, time zones, \<open>expanduser\<close>, \<open>resolve\<close>, \<open>ipaddress\<close>, \<open>urlsplit\<close> and UUIDs.
  \<open>Config_Typing\<close> and \<open>Config_Theorems\<close> prove that an accepted configuration has the type \<open>config_type\<close> (with
  \<open>hex_uid\<close>: a UUID is 32 hexadecimal digits), \<open>Config_Guarantees\<close> and \<open>Config_Outcome\<close> what the checks guarantee
  to the jobs, \<open>Config_Progress\<close> that the validation answers on every value with finite numbers, \<open>Config_Demo\<close>
  applies all of them to one configuration and shows the two exceptions that can leave the validation.

  \<open>Config_Store\<close> is the file behind it (\<open>config_store.py\<close>): one object per process, and the step relation \<open>store_step\<close> of their
  operations on one file; \<open>yaml_lib\<close> is PyYAML and SHA-256, with the named condition \<open>lib_ok\<close>. \<open>Config_Store_Theorems\<close>: no
  change is lost and failed writes leave the file alone, whatever the time stamps of the file are; reads show the file
  when every write gives it a larger time stamp (\<open>ticks\<close>), and \<open>same_tick_hides_a_change\<close> is what happens otherwise.

  \<^bold>\<open>Guards.\<close> \<open>Protection\<close> is the anomaly guard of \<open>protection.py\<close>; the check before a run is modelled as two
  transactions with a measurement in between, so other transactions may come between them.
  \<open>Protection_Theorems\<close> proves over every run of such transactions that what a recorded quarantine covers stays
  blocked until an acknowledgement releases this quarantine. \<open>Protection_Score\<close> holds the score and the calendar. \<open>Overdue\<close> and \<open>Overdue_Theorems\<close> are
  \<open>overdue.py\<close>: over any sequence of ticks, one alarm per interval, and at once after a recovery. \<open>Restore_Evidence\<close> and \<open>Restore_Sampling\<close>
  judge and draw restore samples. \<open>Pair_Planner\<close> decides which paths overlap, \<open>Security_Paths\<close> normalises
  remote paths, \<open>Rclone_Args\<close> refuses arguments that execute programs or carry secrets and, in the default mode,
  the protected flags; \<open>long_cluster_is_handed_on\<close> is the spelling it does not see.

  \<^bold>\<open>Running data paths (\<open>jobs/rclone_sync.py\<close>).\<close> \<open>Pair_Command\<close> builds the rclone command of a data path; the record
  \<open>command_env\<close> carries the environment, the clock and the readable filter files. \<open>Command_Theorems\<close>: the exclusions
  of the vault come before every other filter; \<open>Delete_Limit\<close>: a productive run carries exactly one limit on
  deletions when every global flag that waits for a value has one (\<open>settled_args\<close>). \<open>Endpoint_Guards\<close> holds the precheck and the guards on local ends; the record \<open>fs\<close> is the file system
  at one moment and \<open>remote_probes\<close> what rclone answers about a remote. \<open>Endpoint_Theorems\<close>: rclone starts on
  the objects that were checked, and together with the validated configuration a target disk that is not
  mounted stops the run. \<open>Run_Pool\<close> is \<open>run_job\<close>: its checks, the loop that hands paths to workers as a list of
  rounds (which workers have finished, and whether a cancellation was requested), and its summary.
  \<open>Run_Theorems\<close>: overlapping paths never run together, each path ends with one result, and success means that every
  path was run with success. That workers keep finishing is the named predicate \<open>waits\<close>. \<open>Py_Regex\<close> is the fragment of
  \<open>re\<close> the program uses, a matcher in the order of the library that agrees with an order-free description.
  \<open>Log_Progress\<close>, \<open>Log_Theorems\<close> and \<open>Log_Stamps\<close>: what is read from the log of rclone, what counts as progress, and
  that a line that differs from an earlier one in its time stamp only does not count. \<open>Rclone_Process\<close> is
  the polling loop around one process, a list of observations; a run that only repeats its status line or exceeds
  the absolute limit ends. \<open>Command_Text\<close> holds quoting and masking of commands. \<open>Pair_Worker\<close> is \<open>_sync_pair\<close>, written as
  steps that may be left early; \<open>surroundings\<close> is all it meets. \<open>Worker_Theorems\<close> (with the locales \<open>bookkeeping\<close> and
  \<open>blind_bookkeeping\<close> for properties the notes of a worker do not touch): rclone is started behind all guards only, a
  quarantined path is not run, a known path is not resynced by itself, and success is that of a process.
  \<open>Worker_Demo\<close> runs one worker. \<open>Quick_Run\<close> holds \<open>run_quick\<close>, \<open>run_pair_check\<close> and \<open>build_job_plan\<close> with the same steps;
  \<open>run_world\<close> is what they meet. \<open>Quick_Theorems\<close>: a quick run stays inside the allowed roots, where there are any, and respects a quarantine up to
  its start, and a comparison only compares. \<open>Plan_Theorems\<close>: the plan shows the commands the workers start later, for paths without \<open>{date}\<close>, and validated
  paths that can delete are the ones the anomaly guard watches. \<open>Quick_Demo\<close> runs one of each, and shows a plan and a
  path for which the last two fail.

  \<^bold>\<open>Accounts and devices.\<close> \<open>Auth_Failures\<close> is the limit on failed logins, \<open>Webauthn_Store\<close> the one-time tokens and
  counters, \<open>Push_Outbox\<close> the delivery queue with leases, \<open>Runtime_Store\<close> the settings, the audit log and the pause of
  the scheduler (locale \<open>key_value\<close>, interpreted on the settings table).

  \<^bold>\<open>Bounds.\<close> The recursion of \<open>json_preview\<close> is limited by the depth of its stage (at most 5, as in the code);
  \<open>job_finish_external\<close> runs its list of rounds; \<open>fetch_batches\<close> ends because a batch takes at least one
  row. \<open>pool_run\<close> and \<open>watch\<close> run over a list of observations. A repetition of \<open>Py_Regex\<close> is limited by the length of
  the rest and a search for all matches by the length of the text plus one, which is enough because each turn
  reads at least one character (\<open>repeat_complete\<close>). No other definition uses fuel.

  \<^bold>\<open>Not modelled.\<close> The HTTP routes, the process of the scheduler, the cancel request of
  \<open>rclone_sync.py\<close>, the PBS client, file locks and log files, recovery points and snapshots on external
  storage, device vaults and message delivery, and schema migrations: they consist of calls to the operating
  system, to the network or to libraries. Password hashing, cookies and proxies of \<open>auth.py\<close> are left out. Floating-point rounding, text outside
  ASCII, digit-group underscores and exponents in number literals are outside the model.
\<close>

end
